(* ===== verification/Go_Prelude.thy ===== *)
theory Go_Prelude
  imports Main "HOL-Library.Code_Target_Nat" "HOL-Library.Code_Target_Int"
begin

text \<open>
  Shared ground of the development: the named collections the component theories feed, the
  error-or-value result type of fallible Go functions, and list facts about prefixes, suffixes
  and counted positions that more than one component needs. The two code theories make numbers
  evaluate in binary when a concrete input is computed.
\<close>

section \<open>Collections\<close>

named_theorems go_string \<open>defining equations of the string routines, for evaluation\<close>
named_theorems go_eval \<open>defining equations of the modelled program, for evaluation\<close>
named_theorems go_len \<open>length bounds that termination and width arguments use\<close>

section \<open>Results\<close>

text \<open>
  A Go function that returns \<open>(T, error)\<close> is modelled by a sum: \<open>Inl\<close> carries the error and
  \<open>Inr\<close> the value returned with a nil error.
\<close>

type_synonym ('e, 'a) result = "'e + 'a"

abbreviation is_ok :: "('e, 'a) result \<Rightarrow> bool" where
  "is_ok r \<equiv> \<not> isl r"

fun result_bind :: "('e, 'a) result \<Rightarrow> ('a \<Rightarrow> ('e, 'b) result) \<Rightarrow> ('e, 'b) result" where
  "result_bind (Inl e) f = Inl e"
| "result_bind (Inr a) f = f a"

lemma result_bind_Inr_iff [simp]:
  "result_bind r f = Inr b \<longleftrightarrow> (\<exists>a. r = Inr a \<and> f a = Inr b)"
  by (cases r) auto

section \<open>Lists\<close>

lemma result_case_ex: "(case x of Inl _ \<Rightarrow> False | Inr q \<Rightarrow> P q) \<Longrightarrow> \<exists>q. x = Inr q \<and> P q"
  by (cases x) auto

lemma take_append_drop_nth_update:
  "i < length xs \<Longrightarrow> xs[i := y] = take i xs @ y # drop (Suc i) xs"
  by (simp add: upd_conv_take_nth_drop)

lemma drop_eq_ConsD: "drop n xs = y # ys \<Longrightarrow> n < length xs \<and> xs ! n = y \<and> drop (Suc n) xs = ys"
proof -
  assume a: "drop n xs = y # ys"
  then have l: "n < length xs" by (metis drop_all list.distinct(1) not_less)
  then show ?thesis using a by (simp add: Cons_nth_drop_Suc [symmetric])
qed

lemma list_all_conv_set: "list_all P xs \<longleftrightarrow> (\<forall>x \<in> set xs. P x)"
  by (simp add: list_all_iff)

lemma filter_unique_index:
  "filter P xs = [x] \<Longrightarrow> \<exists>i < length xs. xs ! i = x \<and> P x \<and> (\<forall>j < length xs. P (xs ! j) \<longrightarrow> j = i)"
proof -
  assume f: "filter P xs = [x]"
  then have "x \<in> set (filter P xs)" by simp
  then have "x \<in> set xs" and "P x" by auto
  then obtain i where i: "i < length xs" "xs ! i = x" by (metis in_set_conv_nth)
  have "j = i" if j: "j < length xs" "P (xs ! j)" for j
  proof (rule ccontr)
    assume ne: "j \<noteq> i"
    have "card {k. k < length xs \<and> P (xs ! k)} = 1"
      using f by (simp add: length_filter_conv_card [symmetric])
    moreover have "{i, j} \<subseteq> {k. k < length xs \<and> P (xs ! k)}"
      using i j \<open>P x\<close> by auto
    moreover have "card {i, j} = 2" using ne by simp
    moreover have "finite {k. k < length xs \<and> P (xs ! k)}" by simp
    ultimately have "2 \<le> (1 :: nat)" by (metis card_mono)
    then show False by simp
  qed
  then show ?thesis using i \<open>P x\<close> by auto
qed

lemma map_split_last: "xs \<noteq> [] \<Longrightarrow> map f xs = map f (butlast xs) @ [f (last xs)]"
  by (cases xs rule: rev_cases) auto

text \<open>The loop \<open>for i, x := range xs\<close>: elements paired with their positions.\<close>

definition ranged :: "'a list \<Rightarrow> (nat \<times> 'a) list" where
  "ranged xs = zip [0..<length xs] xs"

lemma ranged_Nil [simp]: "ranged [] = []"
  by (simp add: ranged_def)

lemma map_snd_ranged [simp]: "map snd (ranged xs) = xs"
  by (simp add: ranged_def)

lemma map_ranged_snd [simp]: "map (\<lambda>p. f (snd p)) (ranged xs) = map f xs"
proof -
  have "map (\<lambda>p. f (snd p)) (ranged xs) = map f (map snd (ranged xs))" by (simp only: map_map comp_def)
  then show ?thesis by simp
qed

lemma length_ranged [simp]: "length (ranged xs) = length xs"
  by (simp add: ranged_def)

lemma set_ranged: "set (ranged xs) = {(i, xs ! i) | i. i < length xs}"
  unfolding ranged_def set_zip by auto (metis add.left_neutral nth_upt)

lemma in_set_ranged [simp]: "(i, x) \<in> set (ranged xs) \<longleftrightarrow> i < length xs \<and> xs ! i = x"
  by (auto simp: set_ranged)

lemma ranged_snoc: "ranged (xs @ [x]) = ranged xs @ [(length xs, x)]"
  by (simp add: ranged_def)

lemma distinct_fst_ranged: "distinct (map fst (ranged xs))"
  by (simp add: ranged_def)

lemma zip_upt_snoc:
  "zip [n..<n + length (xs @ [x])] (xs @ [x]) = zip [n..<n + length xs] xs @ [(n + length xs, x)]"
proof -
  have "[n..<n + length (xs @ [x])] = [n..<n + length xs] @ [n + length xs]" by simp
  then show ?thesis by (simp only: zip_append length_upt diff_add_inverse zip_Cons_Cons zip_Nil)
qed

lemma find_ranged:
  "find (\<lambda>(i, x). P i) (ranged xs) = Some (k, y) \<longleftrightarrow>
     k < length xs \<and> y = xs ! k \<and> P k \<and> (\<forall>j < k. \<not> P j)"
  unfolding find_Some_iff ranged_def by (auto simp: case_prod_unfold)

lemma find_ranged_None:
  "find (\<lambda>(i, x). P i) (ranged xs) = None \<longleftrightarrow> (\<forall>j < length xs. \<not> P j)"
  unfolding find_None_iff by (auto simp: set_ranged)

lemma filter_zip_snd:
  "map snd (filter (\<lambda>(i, x). P x) (zip [n..<n + length xs] xs)) = filter P xs"
  by (induction xs rule: rev_induct) (simp, simp only: zip_upt_snoc, simp)

lemma ranged_update: "ranged (xs[k := y]) = (ranged xs)[k := (k, y)]"
proof -
  have "[0..<length xs][k := k] = [0..<length xs]"
    by (cases "k < length xs") (simp_all add: list_update_same_conv list_update_beyond)
  then show ?thesis by (simp add: ranged_def update_zip)
qed

text \<open>The last element a filter keeps, and that nothing after it is kept.\<close>

lemma last_filter_position:
  assumes "filter (\<lambda>(i, x). P x) (zip [n..<n + length xs] xs) \<noteq> []"
  shows "\<exists>j. 0 < j \<and> j \<le> length xs \<and>
    fst (last (filter (\<lambda>(i, x). P x) (zip [n..<n + length xs] xs))) = n + j - 1 \<and>
    filter P (drop j xs) = []"
  using assms
proof (induction xs rule: rev_induct)
  case (snoc x xs)
  show ?case
  proof (cases "P x")
    case True
    then show ?thesis
      by (intro exI [of _ "Suc (length xs)"]) (simp only: zip_upt_snoc, simp)
  next
    case False
    then have "filter (\<lambda>(i, x). P x) (zip [n..<n + length xs] xs) \<noteq> []"
      using snoc.prems by (simp only: zip_upt_snoc) simp
    from snoc.IH [OF this] obtain j where j: "0 < j" "j \<le> length xs"
      "fst (last (filter (\<lambda>(i, x). P x) (zip [n..<n + length xs] xs))) = n + j - 1"
      "filter P (drop j xs) = []" by blast
    then show ?thesis using False by (intro exI [of _ j]) (simp only: zip_upt_snoc, simp)
  qed
qed simp

end
