(* ===== verification/Go_Utf8.thy ===== *)
theory Go_Utf8
  imports Go_Prelude
begin

text \<open>
  Go strings are byte sequences; a \<open>string\<close> of HOL (a list of 8-bit characters) is exactly that.
  This theory models what the program uses of the standard package \<open>unicode/utf8\<close>: decoding the
  first and the last rune of a string, the rune sequence a \<open>range\<close> loop or a \<open>[]rune\<close> conversion
  sees, and encoding. An invalid byte decodes to U+FFFD with width 1, as in Go.

  The main results are that decoding is local (\<open>runes_append\<close>: a string may be cut in front of
  any byte that is not a continuation byte), and that decoding from the back
  (\<open>decode_last_rune\<close>) yields the last element of the forward rune sequence.
\<close>

section \<open>Bytes and runes\<close>

type_synonym rune = nat

abbreviation byte :: "char \<Rightarrow> nat" where
  "byte c \<equiv> of_char c"

definition RuneError :: rune where
  "RuneError = 65533"

definition is_cont :: "char \<Rightarrow> bool" where
  "is_cont c \<longleftrightarrow> 128 \<le> byte c \<and> byte c \<le> 191"

definition cont_bits :: "char \<Rightarrow> nat" where
  "cont_bits c = byte c - 128"

lemma byte_less_256: "byte c < 256"
  by simp

text \<open>
  The second-byte ranges of \<open>utf8.acceptRanges\<close>: they exclude overlong encodings (after E0 and
  F0), surrogates (after ED) and code points above U+10FFFF (after F4).
\<close>

definition second_ok :: "nat \<Rightarrow> char \<Rightarrow> bool" where
  "second_ok b0 c \<longleftrightarrow>
     (if b0 = 224 then 160 \<le> byte c \<and> byte c \<le> 191
      else if b0 = 237 then 128 \<le> byte c \<and> byte c \<le> 159
      else if b0 = 240 then 144 \<le> byte c \<and> byte c \<le> 191
      else if b0 = 244 then 128 \<le> byte c \<and> byte c \<le> 143
      else is_cont c)"

text \<open>\<open>utf8.DecodeRuneInString\<close>: the first rune and its width in bytes.\<close>

definition decode_rune :: "string \<Rightarrow> rune \<times> nat" where
  "decode_rune s =
     (case s of
        [] \<Rightarrow> (RuneError, 0)
      | c0 # r \<Rightarrow>
          let b0 = byte c0 in
          if b0 < 128 then (b0, 1)
          else if 194 \<le> b0 \<and> b0 \<le> 223 then
            (case r of
               c1 # _ \<Rightarrow> if is_cont c1 then ((b0 - 192) * 64 + cont_bits c1, 2) else (RuneError, 1)
             | [] \<Rightarrow> (RuneError, 1))
          else if 224 \<le> b0 \<and> b0 \<le> 239 then
            (case r of
               c1 # c2 # _ \<Rightarrow>
                 if second_ok b0 c1 \<and> is_cont c2
                 then ((b0 - 224) * 4096 + cont_bits c1 * 64 + cont_bits c2, 3)
                 else (RuneError, 1)
             | _ \<Rightarrow> (RuneError, 1))
          else if 240 \<le> b0 \<and> b0 \<le> 244 then
            (case r of
               c1 # c2 # c3 # _ \<Rightarrow>
                 if second_ok b0 c1 \<and> is_cont c2 \<and> is_cont c3
                 then ((b0 - 240) * 262144 + cont_bits c1 * 4096 + cont_bits c2 * 64 + cont_bits c3, 4)
                 else (RuneError, 1)
             | _ \<Rightarrow> (RuneError, 1))
          else (RuneError, 1))"

lemma decode_rune_Nil [simp]: "decode_rune [] = (RuneError, 0)"
  by (simp add: decode_rune_def)

lemma decode_rune_ascii: "byte c < 128 \<Longrightarrow> decode_rune (c # s) = (byte c, 1)"
  by (simp add: decode_rune_def)

lemma decode_rune_width_pos: "s \<noteq> [] \<Longrightarrow> 0 < snd (decode_rune s)"
  by (auto simp: decode_rune_def Let_def split: list.splits)

lemma decode_rune_width_le: "snd (decode_rune s) \<le> length s"
  by (auto simp: decode_rune_def Let_def split: list.splits)

lemma decode_rune_width_le_4: "snd (decode_rune s) \<le> 4"
  by (auto simp: decode_rune_def Let_def split: list.splits)

text \<open>The runes of a \<open>range\<close> loop over a string, and of \<open>[]rune(s)\<close>.\<close>

function runes :: "string \<Rightarrow> rune list" where
  "runes s = (if s = [] then [] else fst (decode_rune s) # runes (drop (snd (decode_rune s)) s))"
  by pat_completeness auto
termination
proof (relation "measure length")
  fix s :: string
  assume "s \<noteq> []"
  then show "(drop (snd (decode_rune s)) s, s) \<in> measure length"
    using decode_rune_width_pos [of s] by (cases s) auto
qed simp

declare runes.simps [simp del]

lemma runes_Nil [simp]: "runes [] = []"
  by (simp add: runes.simps)

lemma runes_eq_Nil_iff [simp]: "runes s = [] \<longleftrightarrow> s = []"
  by (subst runes.simps) auto

lemma runes_nonempty:
  "s \<noteq> [] \<Longrightarrow> runes s = fst (decode_rune s) # runes (drop (snd (decode_rune s)) s)"
  by (subst runes.simps) simp

lemma runes_ascii: "byte c < 128 \<Longrightarrow> runes (c # s) = byte c # runes s"
  by (simp add: runes_nonempty decode_rune_ascii)

lemma runes_all_ascii: "\<forall>c \<in> set s. byte c < 128 \<Longrightarrow> runes s = map of_char s"
  by (induction s) (auto simp: runes_ascii)

lemma length_runes_le: "length (runes s) \<le> length s"
proof (induction s rule: runes.induct)
  case (1 s)
  show ?case
  proof (cases "s = []")
    case False
    with "1" have "length (runes (drop (snd (decode_rune s)) s)) \<le> length s - snd (decode_rune s)"
      by simp
    moreover have "0 < snd (decode_rune s)" "snd (decode_rune s) \<le> length s"
      using False decode_rune_width_pos decode_rune_width_le by auto
    ultimately show ?thesis using False by (simp add: runes_nonempty)
  qed simp
qed

text \<open>\<open>utf8.RuneCountInString\<close>.\<close>

definition rune_count :: "string \<Rightarrow> nat" where
  "rune_count s = length (runes s)"

section \<open>Decoding is local\<close>

lemma second_ok_cont: "second_ok b0 c \<Longrightarrow> is_cont c"
  by (auto simp: second_ok_def is_cont_def split: if_splits)

text \<open>Only continuation bytes can change how an unfinished sequence in front of them decodes.\<close>

lemma decode_rune_append:
  assumes "u \<noteq> []" and "t = [] \<or> \<not> is_cont (hd t)"
  shows "decode_rune (u @ t) = decode_rune u"
proof (cases t)
  case (Cons c t')
  then have nc: "\<not> is_cont c" "\<And>b. \<not> second_ok b c"
    using assms second_ok_cont by auto
  from assms(1) obtain c0 u' where u: "u = c0 # u'" by (cases u) auto
  show ?thesis
    unfolding u Cons decode_rune_def Let_def using nc
    by (cases u' rule: list.exhaust; cases "tl u'" rule: list.exhaust;
        cases "tl (tl u')" rule: list.exhaust)
       (auto split: list.splits)
qed simp

lemma runes_append:
  assumes "t = [] \<or> \<not> is_cont (hd t)"
  shows "runes (u @ t) = runes u @ runes t"
  using assms
proof (induction u rule: runes.induct)
  case (1 u)
  show ?case
  proof (cases "u = []")
    case False
    have d: "decode_rune (u @ t) = decode_rune u"
      using False "1.prems" by (rule decode_rune_append)
    have "drop (snd (decode_rune u)) (u @ t) = drop (snd (decode_rune u)) u @ t"
      using decode_rune_width_le [of u] by simp
    then show ?thesis
      using False "1" d by (simp add: runes_nonempty)
  qed simp
qed

text \<open>A completed sequence decodes the same whatever follows; a failed one fails on less input too.\<close>

lemma decode_rune_snoc:
  assumes "u \<noteq> []" and "snd (decode_rune (u @ [b])) \<le> length u"
  shows "decode_rune u = decode_rune (u @ [b])"
proof -
  from assms(1) obtain c0 u' where u: "u = c0 # u'" by (cases u) auto
  show ?thesis using assms(2)
    unfolding u decode_rune_def Let_def
    by (cases u' rule: list.exhaust; cases "tl u'" rule: list.exhaust;
        cases "tl (tl u')" rule: list.exhaust)
       (auto split: list.splits if_splits)
qed

section \<open>Decoding from the back\<close>

text \<open>
  \<open>utf8.DecodeLastRuneInString\<close>. Go scans back over at most four bytes for a byte that can start
  a rune and keeps the sequence found there only when it ends exactly at the end of the string.
  A sequence of width \<open>w\<close> has one starting byte followed by \<open>w - 1\<close> continuation bytes, so at most
  one width between 2 and 4 can end the string, and the three candidates are tried in turn.
\<close>

definition ends_rune :: "string \<Rightarrow> nat \<Rightarrow> bool" where
  "ends_rune s w \<longleftrightarrow> w \<le> length s \<and> snd (decode_rune (drop (length s - w) s)) = w"

definition decode_last_rune :: "string \<Rightarrow> rune \<times> nat" where
  "decode_last_rune s =
     (if s = [] then (RuneError, 0)
      else if ends_rune s 2 then decode_rune (drop (length s - 2) s)
      else if ends_rune s 3 then decode_rune (drop (length s - 3) s)
      else if ends_rune s 4 then decode_rune (drop (length s - 4) s)
      else decode_rune [last s])"

lemma decode_rune_first_not_cont:
  "2 \<le> snd (decode_rune s) \<Longrightarrow> s \<noteq> [] \<and> \<not> is_cont (hd s)"
  by (auto simp: decode_rune_def Let_def is_cont_def split: list.splits if_splits)

lemma ends_rune_split:
  assumes "ends_rune s w" and "2 \<le> w"
  shows "runes s = runes (take (length s - w) s) @ [fst (decode_rune (drop (length s - w) s))]"
proof -
  let ?u = "take (length s - w) s" and ?t = "drop (length s - w) s"
  have w: "snd (decode_rune ?t) = w" and l: "length ?t = w"
    using assms by (auto simp: ends_rune_def)
  have t: "?t \<noteq> []" "\<not> is_cont (hd ?t)"
    using decode_rune_first_not_cont [of ?t] w assms(2) by auto
  have "runes (?u @ ?t) = runes ?u @ runes ?t"
    using t by (intro runes_append) simp
  moreover have "runes ?t = [fst (decode_rune ?t)]"
    using t(1) w l by (simp add: runes_nonempty)
  ultimately show ?thesis by simp
qed

lemma runes_snoc_no_rune_end:
  assumes "\<not> ends_rune (u @ [b]) 2" "\<not> ends_rune (u @ [b]) 3" "\<not> ends_rune (u @ [b]) 4"
  shows "runes (u @ [b]) = runes u @ [fst (decode_rune [b])]"
  using assms
proof (induction u rule: runes.induct)
  case (1 u)
  show ?case
  proof (cases "u = []")
    case True
    have "snd (decode_rune [b]) = 1"
      using decode_rune_width_pos [of "[b]"] decode_rune_width_le [of "[b]"] by simp
    then show ?thesis using True by (simp add: runes_nonempty)
  next
    case False
    let ?s = "u @ [b]" and ?w = "snd (decode_rune (u @ [b]))"
    have "?w \<noteq> length ?s"
    proof
      assume a: "?w = length ?s"
      then have "ends_rune ?s (length ?s)" by (simp add: ends_rune_def)
      moreover have "length ?s \<in> {2, 3, 4}"
        using False a decode_rune_width_le_4 [of ?s] by (cases "length u") auto
      ultimately show False using "1.prems" by (metis empty_iff insert_iff)
    qed
    then have wle: "?w \<le> length u"
      using decode_rune_width_le [of ?s] by simp
    have du: "decode_rune u = decode_rune ?s"
      using False wle by (rule decode_rune_snoc)
    let ?v = "drop ?w u"
    have dr: "drop ?w ?s = ?v @ [b]" using wle by simp
    have ne: "\<not> ends_rune (?v @ [b]) k" if "\<not> ends_rune ?s k" for k
    proof
      assume e: "ends_rune (?v @ [b]) k"
      then have k: "k \<le> Suc (length u - ?w)" by (simp add: ends_rune_def)
      have "drop (length (?v @ [b]) - k) (?v @ [b]) = drop (length ?s - k) ?s"
        using k wle unfolding dr [symmetric] by simp
      then show False using e that by (simp add: ends_rune_def)
    qed
    have "runes (?v @ [b]) = runes ?v @ [fst (decode_rune [b])]"
      using "1.IH" [OF False] "1.prems" ne du by simp
    then show ?thesis
      using False du dr by (simp add: runes_nonempty)
  qed
qed

text \<open>Decoding backwards drops exactly the last rune of the forward sequence.\<close>

theorem decode_last_rune_forward:
  assumes "s \<noteq> []"
  shows "runes s = runes (take (length s - snd (decode_last_rune s)) s) @ [fst (decode_last_rune s)]"
proof -
  obtain u b where s: "s = u @ [b]" using assms by (metis append_butlast_last_id)
  have one: "snd (decode_rune [b]) = 1"
    using decode_rune_width_pos [of "[b]"] decode_rune_width_le [of "[b]"] by simp
  consider (two) "ends_rune s 2" | (three) "\<not> ends_rune s 2" "ends_rune s 3"
    | (four) "\<not> ends_rune s 2" "\<not> ends_rune s 3" "ends_rune s 4"
    | (none) "\<not> ends_rune s 2" "\<not> ends_rune s 3" "\<not> ends_rune s 4"
    by auto
  then show ?thesis
  proof cases
    case two
    then show ?thesis using ends_rune_split [OF two]
      by (simp add: decode_last_rune_def assms ends_rune_def)
  next
    case three
    then show ?thesis using ends_rune_split [OF three(2)]
      by (simp add: decode_last_rune_def assms ends_rune_def)
  next
    case four
    then show ?thesis using ends_rune_split [OF four(3)]
      by (simp add: decode_last_rune_def assms ends_rune_def)
  next
    case none
    then show ?thesis using runes_snoc_no_rune_end [of u b] one
      by (simp add: decode_last_rune_def s)
  qed
qed

lemma decode_last_rune_width_pos: "s \<noteq> [] \<Longrightarrow> 0 < snd (decode_last_rune s)"
  using decode_rune_width_pos [of "[last s]"]
  by (auto simp: decode_last_rune_def ends_rune_def)

lemma decode_last_rune_width_le: "snd (decode_last_rune s) \<le> length s"
proof (cases "s = []")
  case True
  then show ?thesis by (simp add: decode_last_rune_def)
next
  case False
  then have "Suc 0 \<le> length s" by (cases s) auto
  with False show ?thesis
    using decode_rune_width_le [of "[last s]"]
    by (auto simp: decode_last_rune_def ends_rune_def)
qed

section \<open>Encoding\<close>

text \<open>\<open>utf8.AppendRune\<close> and the conversion \<open>string(r)\<close>; a rune outside the valid range becomes U+FFFD.\<close>

definition valid_rune :: "rune \<Rightarrow> bool" where
  "valid_rune r \<longleftrightarrow> r < 55296 \<or> (57344 \<le> r \<and> r < 1114112)"

definition encode_valid :: "rune \<Rightarrow> string" where
  "encode_valid r =
     (if r < 128 then [char_of r]
      else if r < 2048 then [char_of (192 + r div 64), char_of (128 + r mod 64)]
      else if r < 65536 then
        [char_of (224 + r div 4096), char_of (128 + r div 64 mod 64), char_of (128 + r mod 64)]
      else
        [char_of (240 + r div 262144), char_of (128 + r div 4096 mod 64),
         char_of (128 + r div 64 mod 64), char_of (128 + r mod 64)])"

definition encode_rune :: "rune \<Rightarrow> string" where
  "encode_rune r = encode_valid (if valid_rune r then r else RuneError)"

definition of_runes :: "rune list \<Rightarrow> string" where
  "of_runes rs = concat (map encode_rune rs)"

lemma valid_RuneError [simp]: "valid_rune RuneError"
  by (simp add: valid_rune_def RuneError_def)

lemma of_char_char_of_small: "n < 256 \<Longrightarrow> byte (char_of n) = n"
  by (simp add: of_char_of)

lemma three_parts:
  fixes r :: nat
  shows "r div 64 = r div 4096 * 64 + r div 64 mod 64"
    and "r = r div 64 * 64 + r mod 64"
    and "r div 4096 * 4096 + r div 64 mod 64 * 64 + r mod 64 = r"
proof -
  have "r div 64 div 64 = r div 4096" by (simp add: div_mult2_eq [symmetric])
  then show a: "r div 64 = r div 4096 * 64 + r div 64 mod 64" by (metis div_mult_mod_eq)
  show b: "r = r div 64 * 64 + r mod 64" by simp
  from a b show "r div 4096 * 4096 + r div 64 mod 64 * 64 + r mod 64 = r" by linarith
qed

lemma four_parts:
  fixes r :: nat
  shows "r div 4096 = r div 262144 * 64 + r div 4096 mod 64"
    and "r div 262144 * 262144 + r div 4096 mod 64 * 4096 + r div 64 mod 64 * 64 + r mod 64 = r"
proof -
  have "r div 4096 div 64 = r div 262144" by (simp add: div_mult2_eq [symmetric])
  then show a: "r div 4096 = r div 262144 * 64 + r div 4096 mod 64" by (metis div_mult_mod_eq)
  from a three_parts(3) [of r]
  show "r div 262144 * 262144 + r div 4096 mod 64 * 4096 + r div 64 mod 64 * 64 + r mod 64 = r"
    by linarith
qed

lemma decode_encode_valid:
  assumes "valid_rune r"
  shows "decode_rune (encode_valid r @ s) = (r, length (encode_valid r))"
proof -
  have r: "r < 1114112" using assms by (auto simp: valid_rune_def)
  consider (a) "r < 128" | (b) "128 \<le> r" "r < 2048" | (c) "2048 \<le> r" "r < 65536" | (d) "65536 \<le> r"
    by linarith
  then show ?thesis
  proof cases
    case a
    then show ?thesis
      by (simp add: encode_valid_def decode_rune_def of_char_char_of_small)
  next
    case b
    have lead: "2 \<le> r div 64" "r div 64 \<le> 31" using b by auto
    show ?thesis using b lead
      by (simp add: encode_valid_def decode_rune_def of_char_char_of_small is_cont_def
          cont_bits_def Let_def div_mod_decomp)
  next
    case c
    have lead: "r div 4096 \<le> 15" using c by auto
    have snd_ok: "second_ok (224 + r div 4096) (char_of (128 + r div 64 mod 64))"
    proof -
      have b: "byte (char_of (128 + r div 64 mod 64)) = 128 + r div 64 mod 64"
        by (rule of_char_char_of_small) simp
      have "32 \<le> r div 64 mod 64" if "r div 4096 = 0"
        using that c three_parts [of r] by linarith
      moreover have "r div 64 mod 64 < 32" if "r div 4096 = 13"
        using that assms three_parts [of r] unfolding valid_rune_def by linarith
      ultimately show ?thesis using lead unfolding second_ok_def is_cont_def b by auto
    qed
    show ?thesis using c lead snd_ok three_parts(3)
      by (simp add: encode_valid_def decode_rune_def of_char_char_of_small is_cont_def
          cont_bits_def Let_def)
  next
    case d
    have lead: "r div 262144 \<le> 4" using r by auto
    have snd_ok: "second_ok (240 + r div 262144) (char_of (128 + r div 4096 mod 64))"
    proof -
      have b: "byte (char_of (128 + r div 4096 mod 64)) = 128 + r div 4096 mod 64"
        by (rule of_char_char_of_small) simp
      have bounds: "16 \<le> r div 4096" "r div 4096 < 272" using d r by auto
      have "16 \<le> r div 4096 mod 64" if "r div 262144 = 0"
        using that bounds four_parts(1) [of r] by linarith
      moreover have "r div 4096 mod 64 < 16" if "r div 262144 = 4"
        using that bounds four_parts(1) [of r] by linarith
      moreover have "r div 4096 mod 64 \<le> 63" by simp
      ultimately show ?thesis unfolding second_ok_def is_cont_def b
        by (cases "r div 262144 = 0"; cases "r div 262144 = 4") (simp_all del: div_less)
    qed
    have m: "r div 64 mod 64 \<le> 63" "r mod 64 \<le> 63" "r div 4096 mod 64 \<le> 63"
      using mod_less_divisor [of 64 "r div 64"] mod_less_divisor [of 64 r]
        mod_less_divisor [of 64 "r div 4096"] by linarith+
    show ?thesis using d lead snd_ok m four_parts(2) [of r]
      by (simp add: encode_valid_def decode_rune_def of_char_char_of_small is_cont_def
          cont_bits_def Let_def)
  qed
qed

lemma encode_valid_nonempty [simp]: "encode_valid r \<noteq> []"
  by (simp add: encode_valid_def)

lemma runes_encode: "runes (encode_rune r @ s) = (if valid_rune r then r else RuneError) # runes s"
  using decode_encode_valid [of "if valid_rune r then r else RuneError" s]
  by (simp add: encode_rune_def runes_nonempty)

text \<open>Round trip: a list of valid runes survives encoding and decoding.\<close>

theorem runes_of_runes: "\<forall>r \<in> set rs. valid_rune r \<Longrightarrow> runes (of_runes rs) = rs"
  by (induction rs) (auto simp: of_runes_def runes_encode)

end
