(* ===== verification/Go_Strings.thy ===== *)
theory Go_Strings
  imports Go_Utf8
begin

text \<open>
  What the program uses of the standard packages \<open>strings\<close>, \<open>bytes\<close>, \<open>strconv\<close> and \<open>sort\<close>, over
  byte strings. Searching, splitting and replacing are byte-level operations in Go as well;
  trimming and splitting by white space decode runes.
\<close>

section \<open>Prefixes, suffixes, search\<close>

definition has_prefix :: "string \<Rightarrow> string \<Rightarrow> bool" where
  "has_prefix s p \<longleftrightarrow> take (length p) s = p"

definition has_suffix :: "string \<Rightarrow> string \<Rightarrow> bool" where
  "has_suffix s p \<longleftrightarrow> length p \<le> length s \<and> drop (length s - length p) s = p"

definition trim_prefix :: "string \<Rightarrow> string \<Rightarrow> string" where
  "trim_prefix s p = (if has_prefix s p then drop (length p) s else s)"

definition trim_suffix :: "string \<Rightarrow> string \<Rightarrow> string" where
  "trim_suffix s p = (if has_suffix s p then take (length s - length p) s else s)"

text \<open>\<open>strings.Index\<close>: the first position of a substring, \<open>None\<close> for -1.\<close>

fun str_index :: "string \<Rightarrow> string \<Rightarrow> nat option" where
  "str_index [] p = (if p = [] then Some 0 else None)"
| "str_index (c # s) p = (if has_prefix (c # s) p then Some 0 else map_option Suc (str_index s p))"

definition str_contains :: "string \<Rightarrow> string \<Rightarrow> bool" where
  "str_contains s p \<longleftrightarrow> str_index s p \<noteq> None"

lemma has_prefix_iff: "has_prefix s p \<longleftrightarrow> (\<exists>t. s = p @ t)"
  by (metis append_eq_conv_conj append_take_drop_id has_prefix_def)

lemma has_suffix_iff: "has_suffix s p \<longleftrightarrow> (\<exists>t. s = t @ p)"
proof
  assume "has_suffix s p"
  then show "\<exists>t. s = t @ p" unfolding has_suffix_def by (metis append_take_drop_id)
qed (auto simp: has_suffix_def)

lemma has_prefix_append [simp]: "has_prefix (p @ t) p"
  by (simp add: has_prefix_def)

lemma has_suffix_append [simp]: "has_suffix (t @ p) p"
  by (simp add: has_suffix_def)

lemma has_prefix_Nil [simp]: "has_prefix s []"
  by (simp add: has_prefix_def)

lemma has_prefix_Nil_left [simp]: "has_prefix [] p \<longleftrightarrow> p = []"
  by (auto simp: has_prefix_def)

lemma has_prefix_Cons [simp]: "has_prefix (c # s) (d # p) \<longleftrightarrow> c = d \<and> has_prefix s p"
  by (auto simp: has_prefix_def)

lemma trim_prefix_append [simp]: "trim_prefix (p @ t) p = t"
  by (simp add: trim_prefix_def)

lemma trim_suffix_append [simp]: "trim_suffix (t @ p) p = t"
  by (simp add: trim_suffix_def)

lemma str_index_Some:
  "str_index s p = Some i \<Longrightarrow> i \<le> length s \<and> has_prefix (drop i s) p \<and> (\<forall>j < i. \<not> has_prefix (drop j s) p)"
proof (induction s p arbitrary: i rule: str_index.induct)
  case (1 p)
  then show ?case by (auto split: if_splits)
next
  case (2 c s p)
  show ?case
  proof (cases "has_prefix (c # s) p")
    case True
    then show ?thesis using "2.prems" by simp
  next
    case False
    with "2.prems" obtain k where k: "str_index s p = Some k" "i = Suc k" by auto
    with "2.IH" [OF False k(1)] False show ?thesis
      by (auto simp: less_Suc_eq_0_disj)
  qed
qed

lemma str_index_None: "str_index s p = None \<longleftrightarrow> (\<forall>i \<le> length s. \<not> has_prefix (drop i s) p)"
proof (induction s p rule: str_index.induct)
  case (2 c s p)
  show ?case
  proof (cases "has_prefix (c # s) p")
    case False
    then have "str_index (c # s) p = None \<longleftrightarrow> (\<forall>i \<le> length s. \<not> has_prefix (drop i s) p)"
      using "2.IH" by simp
    also have "\<dots> \<longleftrightarrow> (\<forall>i \<le> length (c # s). \<not> has_prefix (drop i (c # s)) p)"
    proof
      assume a: "\<forall>i \<le> length s. \<not> has_prefix (drop i s) p"
      show "\<forall>i \<le> length (c # s). \<not> has_prefix (drop i (c # s)) p"
        using a False by (auto simp: drop_Cons split: nat.splits)
    next
      assume "\<forall>i \<le> length (c # s). \<not> has_prefix (drop i (c # s)) p"
      then show "\<forall>i \<le> length s. \<not> has_prefix (drop i s) p"
        by (metis Suc_le_mono drop_Suc_Cons length_Cons)
    qed
    finally show ?thesis .
  qed auto
qed auto

lemma str_contains_iff: "str_contains s p \<longleftrightarrow> (\<exists>u v. s = u @ p @ v)"
proof
  assume "str_contains s p"
  then obtain i where "str_index s p = Some i" by (auto simp: str_contains_def)
  then have "has_prefix (drop i s) p" using str_index_Some by blast
  then show "\<exists>u v. s = u @ p @ v" unfolding has_prefix_iff by (metis append_take_drop_id)
next
  assume "\<exists>u v. s = u @ p @ v"
  then obtain u v where s: "s = u @ p @ v" by auto
  then have "has_prefix (drop (length u) s) p" "length u \<le> length s" by auto
  then show "str_contains s p" unfolding str_contains_def str_index_None by blast
qed

lemma str_contains_char: "str_contains s [c] \<longleftrightarrow> c \<in> set s"
  by (auto simp: str_contains_iff in_set_conv_decomp)

text \<open>\<open>strings.ContainsAny\<close> for ASCII cut sets.\<close>

definition contains_any :: "string \<Rightarrow> string \<Rightarrow> bool" where
  "contains_any s cs \<longleftrightarrow> list_ex (\<lambda>c. c \<in> set cs) s"

section \<open>Splitting and joining\<close>

text \<open>
  \<open>strings.Split(s, sep)\<close> for a non-empty separator: cut at each leftmost occurrence. The result
  is never empty.
\<close>

function str_split :: "string \<Rightarrow> string \<Rightarrow> string list" where
  "str_split s sep =
     (case str_index s sep of
        None \<Rightarrow> [s]
      | Some i \<Rightarrow> if sep = [] then [s] else take i s # str_split (drop (i + length sep) s) sep)"
  by pat_completeness auto
termination
proof (relation "measure (\<lambda>(s, sep). length s)")
  fix s sep :: string and i
  assume "str_index s sep = Some i" "sep \<noteq> []"
  then have "has_prefix (drop i s) sep" "sep \<noteq> []" using str_index_Some by auto
  then have "drop i s \<noteq> []" by (auto simp: has_prefix_iff)
  then have "0 < length s" and "0 < length sep" using \<open>sep \<noteq> []\<close> by auto
  then show "((drop (i + length sep) s, sep), (s, sep)) \<in> measure (\<lambda>(s, sep). length s)"
    by simp
qed simp

declare str_split.simps [simp del]

text \<open>\<open>strings.Join\<close>.\<close>

fun str_join :: "string list \<Rightarrow> string \<Rightarrow> string" where
  "str_join [] sep = []"
| "str_join [x] sep = x"
| "str_join (x # y # ys) sep = x @ sep @ str_join (y # ys) sep"

lemma str_join_Cons: "xs \<noteq> [] \<Longrightarrow> str_join (x # xs) sep = x @ sep @ str_join xs sep"
  by (cases xs) auto

lemma set_str_join: "c \<in> set (str_join xs sep) \<Longrightarrow> c \<in> set sep \<or> (\<exists>x \<in> set xs. c \<in> set x)"
  by (induction xs sep rule: str_join.induct) auto

lemma str_split_nonempty [simp]: "str_split s sep \<noteq> []"
  by (subst str_split.simps) (auto split: option.splits)

lemma str_join_split: "sep \<noteq> [] \<Longrightarrow> str_join (str_split s sep) sep = s"
proof (induction s sep rule: str_split.induct)
  case (1 s sep)
  show ?case
  proof (cases "str_index s sep")
    case None
    then show ?thesis by (subst str_split.simps) simp
  next
    case (Some i)
    have "has_prefix (drop i s) sep" using str_index_Some [OF Some] by simp
    then obtain t where t: "drop i s = sep @ t" by (auto simp: has_prefix_iff)
    then have d: "drop (i + length sep) s = t" by (metis add.commute append_eq_conv_conj drop_drop)
    have "str_join (str_split s sep) sep = take i s @ sep @ str_join (str_split t sep) sep"
      using Some "1.prems" d by (subst str_split.simps) (simp add: str_join_Cons)
    also have "\<dots> = take i s @ drop i s"
      using "1.IH" [OF Some "1.prems"] "1.prems" d t by simp
    finally show ?thesis by simp
  qed
qed

text \<open>Splitting at single characters, the case the program uses most.\<close>

lemma str_split_char_Nil [simp]: "str_split [] [c] = [[]]"
  by (subst str_split.simps) simp

lemma str_split_char_Cons:
  "str_split (d # s) [c] =
     (if d = c then [] # str_split s [c]
      else (case str_split s [c] of x # xs \<Rightarrow> (d # x) # xs | [] \<Rightarrow> [[d]]))"
proof (cases "d = c")
  case True
  then show ?thesis by (subst str_split.simps) simp
next
  case False
  show ?thesis
  proof (cases "str_index s [c]")
    case None
    then show ?thesis using False
      by (simp add: str_split.simps [of "d # s"] str_split.simps [of s])
  next
    case (Some i)
    then show ?thesis using False
      by (simp add: str_split.simps [of "d # s"] str_split.simps [of s])
  qed
qed

lemma str_split_char_no_sep: "x \<in> set (str_split s [c]) \<Longrightarrow> c \<notin> set x"
proof (induction s arbitrary: x)
  case (Cons d s)
  obtain y ys where y: "str_split s [c] = y # ys" by (cases "str_split s [c]") auto
  then show ?case using Cons by (auto simp: str_split_char_Cons split: if_splits)
qed simp

lemma str_split_char_append:
  assumes "c \<notin> set x"
  shows "str_split (x @ c # s) [c] = x # str_split s [c]"
  using assms by (induction x) (auto simp: str_split_char_Cons)

lemma str_split_char_after: "str_split (x @ c # y) [c] = str_split x [c] @ str_split y [c]"
proof (induction x)
  case (Cons d x)
  obtain z zs where "str_split x [c] = z # zs" by (cases "str_split x [c]") auto
  then show ?case using Cons by (simp add: str_split_char_Cons)
qed (simp add: str_split_char_Cons)

lemma str_split_char_single: "c \<notin> set x \<Longrightarrow> str_split x [c] = [x]"
  by (induction x) (auto simp: str_split_char_Cons)

lemma str_split_join:
  assumes "xs \<noteq> []" and "\<forall>x \<in> set xs. c \<notin> set x"
  shows "str_split (str_join xs [c]) [c] = xs"
  using assms
proof (induction xs)
  case (Cons x xs)
  then show ?case
    by (cases "xs = []") (auto simp: str_join_Cons str_split_char_single str_split_char_append)
qed simp

lemma str_join_member: "x \<in> set xs \<Longrightarrow> c \<in> set x \<Longrightarrow> c \<in> set (str_join xs sep)"
  by (induction xs sep rule: str_join.induct) auto

lemma str_join_append: "xs \<noteq> [] \<Longrightarrow> ys \<noteq> [] \<Longrightarrow> str_join (xs @ ys) sep = str_join xs sep @ sep @ str_join ys sep"
proof (induction xs)
  case (Cons x xs)
  then show ?case by (cases "xs = []") (simp_all add: str_join_Cons)
qed simp

section \<open>Replacing\<close>

text \<open>\<open>strings.ReplaceAll\<close> for a non-empty old string.\<close>

definition replace_all :: "string \<Rightarrow> string \<Rightarrow> string \<Rightarrow> string" where
  "replace_all s old new = str_join (str_split s old) new"

text \<open>Folding CRLF to LF, the form in which every text of the program is taken apart.\<close>

abbreviation LF :: char where "LF \<equiv> CHR 0x0A"
abbreviation CR :: char where "CR \<equiv> CHR 0x0D"
abbreviation TAB :: char where "TAB \<equiv> CHR 0x09"

abbreviation crlf :: string where "crlf \<equiv> [CR, LF]"

definition fold_crlf :: "string \<Rightarrow> string" where
  "fold_crlf s = replace_all s crlf [LF]"

lemma replace_all_unfold:
  assumes "old \<noteq> []"
  shows "replace_all s old new =
    (if s = [] then []
     else if has_prefix s old then new @ replace_all (drop (length old) s) old new
     else hd s # replace_all (tl s) old new)"
proof (cases s)
  case Nil
  then show ?thesis using assms by (simp add: replace_all_def str_split.simps [of "[]"])
next
  case (Cons c s')
  show ?thesis
  proof (cases "has_prefix s old")
    case True
    then have "str_index s old = Some 0" using Cons by simp
    then have "str_split s old = [] # str_split (drop (length old) s) old"
      using assms by (subst str_split.simps) simp
    then show ?thesis using True Cons by (simp add: replace_all_def str_join_Cons)
  next
    case False
    then have i: "str_index s old = map_option Suc (str_index s' old)" using Cons by simp
    have "str_split s old = (c # hd (str_split s' old)) # tl (str_split s' old)"
    proof (cases "str_index s' old")
      case None
      with i have "str_split s old = [s]" by (subst str_split.simps) simp
      moreover have "str_split s' old = [s']" using None by (subst str_split.simps) simp
      ultimately show ?thesis using Cons by simp
    next
      case (Some k)
      with i assms have "str_split s old = take (Suc k) s # str_split (drop (Suc k + length old) s) old"
        by (subst str_split.simps) simp
      moreover have "str_split s' old = take k s' # str_split (drop (k + length old) s') old"
        using Some assms by (subst str_split.simps) simp
      ultimately show ?thesis using Cons by simp
    qed
    then have "replace_all s old new = c # replace_all s' old new"
      unfolding replace_all_def
      by (cases "str_split s' old"; cases "tl (str_split s' old)") auto
    then show ?thesis using False Cons by simp
  qed
qed

lemma replace_all_Nil [simp]: "old \<noteq> [] \<Longrightarrow> replace_all [] old new = []"
  by (simp add: replace_all_unfold)

text \<open>Replacing one character by another is a map.\<close>

lemma replace_all_char: "replace_all s [a] [b] = map (\<lambda>c. if c = a then b else c) s"
  by (induction s) (simp_all add: replace_all_unfold)

lemma fold_crlf_Nil [simp]: "fold_crlf [] = []"
  by (simp add: fold_crlf_def)

lemma fold_crlf_Cons:
  "fold_crlf (c # s) =
     (if c = CR \<and> s \<noteq> [] \<and> hd s = LF then LF # fold_crlf (tl s) else c # fold_crlf s)"
  unfolding fold_crlf_def
  by (subst replace_all_unfold) (cases s; simp)+

lemma fold_crlf_id: "\<not> str_contains s crlf \<Longrightarrow> fold_crlf s = s"
proof (induction s)
  case (Cons c s)
  have "\<not> str_contains s crlf"
    using Cons.prems unfolding str_contains_iff by (metis append_Cons)
  moreover have "\<not> (c = CR \<and> s \<noteq> [] \<and> hd s = LF)"
    using Cons.prems unfolding str_contains_iff
    by (metis append_Cons append_Nil list.collapse)
  ultimately show ?case using Cons.IH by (simp add: fold_crlf_Cons)
qed simp

section \<open>White space\<close>

text \<open>\<open>unicode.IsSpace\<close>.\<close>

definition is_space :: "rune \<Rightarrow> bool" where
  "is_space r \<longleftrightarrow>
     (9 \<le> r \<and> r \<le> 13) \<or> r = 32 \<or> r = 133 \<or> r = 160 \<or> r = 5760 \<or>
     (8192 \<le> r \<and> r \<le> 8202) \<or> r = 8232 \<or> r = 8233 \<or> r = 8239 \<or> r = 8287 \<or> r = 12288"

lemma not_space_RuneError [simp]: "\<not> is_space RuneError"
  by (simp add: is_space_def RuneError_def)

text \<open>\<open>strings.TrimLeftFunc\<close> and \<open>strings.TrimRightFunc\<close>.\<close>

function trim_left_func :: "(rune \<Rightarrow> bool) \<Rightarrow> string \<Rightarrow> string" where
  "trim_left_func P s =
     (if s \<noteq> [] \<and> P (fst (decode_rune s)) then trim_left_func P (drop (snd (decode_rune s)) s) else s)"
  by pat_completeness auto
termination
proof (relation "measure (length \<circ> snd)")
  fix P :: "rune \<Rightarrow> bool" and s :: string
  assume "s \<noteq> [] \<and> P (fst (decode_rune s))"
  then show "((P, drop (snd (decode_rune s)) s), (P, s)) \<in> measure (length \<circ> snd)"
    using decode_rune_width_pos [of s] by (cases s) auto
qed simp

function trim_right_func :: "(rune \<Rightarrow> bool) \<Rightarrow> string \<Rightarrow> string" where
  "trim_right_func P s =
     (if s \<noteq> [] \<and> P (fst (decode_last_rune s))
      then trim_right_func P (take (length s - snd (decode_last_rune s)) s) else s)"
  by pat_completeness auto
termination
proof (relation "measure (length \<circ> snd)")
  fix P :: "rune \<Rightarrow> bool" and s :: string
  assume "s \<noteq> [] \<and> P (fst (decode_last_rune s))"
  then show "((P, take (length s - snd (decode_last_rune s)) s), (P, s)) \<in> measure (length \<circ> snd)"
    using decode_last_rune_width_pos [of s] by (cases s) auto
qed simp

declare trim_left_func.simps [simp del]
declare trim_right_func.simps [simp del]

text \<open>\<open>strings.TrimSpace\<close>.\<close>

definition trim_space :: "string \<Rightarrow> string" where
  "trim_space s = trim_right_func is_space (trim_left_func is_space s)"

text \<open>\<open>strings.TrimRight(s, "/")\<close> and its kin: cut sets of ASCII characters are byte-level.\<close>

definition trim_right_char :: "string \<Rightarrow> string \<Rightarrow> string" where
  "trim_right_char s cs = rev (dropWhile (\<lambda>c. c \<in> set cs) (rev s))"

definition trim_chars :: "string \<Rightarrow> string \<Rightarrow> string" where
  "trim_chars s cs = trim_right_char (dropWhile (\<lambda>c. c \<in> set cs) s) cs"

lemma runes_trim_left: "runes (trim_left_func P s) = dropWhile P (runes s)"
proof (induction P s rule: trim_left_func.induct)
  case (1 P s)
  show ?case
  proof (cases "s = []")
    case True
    then show ?thesis by (subst trim_left_func.simps) simp
  next
    case False
    have r: "runes s = fst (decode_rune s) # runes (drop (snd (decode_rune s)) s)"
      using False by (rule runes_nonempty)
    show ?thesis
    proof (cases "P (fst (decode_rune s))")
      case True
      then have "trim_left_func P s = trim_left_func P (drop (snd (decode_rune s)) s)"
        using False by (subst trim_left_func.simps) simp
      then show ?thesis using "1" False True r by simp
    next
      case nP: False
      then have "trim_left_func P s = s" by (subst trim_left_func.simps) simp
      then show ?thesis using nP r by simp
    qed
  qed
qed

lemma dropWhile_snoc_rev: "rev (dropWhile P (rev (xs @ [x]))) = (if P x then rev (dropWhile P (rev xs)) else xs @ [x])"
  by simp

lemma runes_trim_right: "runes (trim_right_func P s) = rev (dropWhile P (rev (runes s)))"
proof (induction P s rule: trim_right_func.induct)
  case (1 P s)
  show ?case
  proof (cases "s = []")
    case True
    then show ?thesis by (subst trim_right_func.simps) simp
  next
    case False
    let ?u = "take (length s - snd (decode_last_rune s)) s"
    have r: "runes s = runes ?u @ [fst (decode_last_rune s)]"
      using False by (rule decode_last_rune_forward)
    show ?thesis
    proof (cases "P (fst (decode_last_rune s))")
      case True
      then have "runes (trim_right_func P s) = rev (dropWhile P (rev (runes ?u)))"
        using False "1" by (subst trim_right_func.simps) simp
      then show ?thesis using True unfolding r by simp
    next
      case nP: False
      then have "trim_right_func P s = s" by (subst trim_right_func.simps) simp
      then show ?thesis using nP r by simp
    qed
  qed
qed

lemma runes_trim_space:
  "runes (trim_space s) = rev (dropWhile is_space (rev (dropWhile is_space (runes s))))"
  by (simp add: trim_space_def runes_trim_left runes_trim_right)

lemma trim_left_func_suffix: "\<exists>u. s = u @ trim_left_func P s"
proof (induction P s rule: trim_left_func.induct)
  case (1 P s)
  show ?case
  proof (cases "s \<noteq> [] \<and> P (fst (decode_rune s))")
    case True
    with "1" obtain u where "drop (snd (decode_rune s)) s = u @ trim_left_func P (drop (snd (decode_rune s)) s)"
      by blast
    then have "s = (take (snd (decode_rune s)) s @ u) @ trim_left_func P (drop (snd (decode_rune s)) s)"
      by (metis append.assoc append_take_drop_id)
    moreover have "trim_left_func P s = trim_left_func P (drop (snd (decode_rune s)) s)"
      using True by (subst trim_left_func.simps) simp
    ultimately show ?thesis by metis
  next
    case False
    then have "trim_left_func P s = s" by (subst trim_left_func.simps) auto
    then show ?thesis by simp
  qed
qed

lemma trim_right_func_prefix: "\<exists>v. s = trim_right_func P s @ v"
proof (induction P s rule: trim_right_func.induct)
  case (1 P s)
  let ?n = "length s - snd (decode_last_rune s)"
  show ?case
  proof (cases "s \<noteq> [] \<and> P (fst (decode_last_rune s))")
    case True
    with "1" obtain v where "take ?n s = trim_right_func P (take ?n s) @ v" by blast
    then have "s = trim_right_func P (take ?n s) @ (v @ drop ?n s)"
      by (metis append.assoc append_take_drop_id)
    moreover have "trim_right_func P s = trim_right_func P (take ?n s)"
      using True by (subst trim_right_func.simps) simp
    ultimately show ?thesis by metis
  next
    case False
    then have "trim_right_func P s = s" by (subst trim_right_func.simps) auto
    then show ?thesis by simp
  qed
qed

lemma trim_space_infix: "\<exists>u v. s = u @ trim_space s @ v"
proof -
  obtain u where "s = u @ trim_left_func is_space s" using trim_left_func_suffix by blast
  moreover obtain v where "trim_left_func is_space s = trim_space s @ v"
    unfolding trim_space_def using trim_right_func_prefix by blast
  ultimately show ?thesis by metis
qed

lemma set_trim_space: "set (trim_space s) \<subseteq> set s"
proof -
  obtain u v where "s = u @ trim_space s @ v" using trim_space_infix by blast
  then have "set s = set u \<union> set (trim_space s) \<union> set v" by (metis set_append sup_assoc)
  then show ?thesis by blast
qed

lemma trim_left_func_id: "s = [] \<or> \<not> P (fst (decode_rune s)) \<Longrightarrow> trim_left_func P s = s"
  by (subst trim_left_func.simps) auto

lemma trim_right_func_id: "s = [] \<or> \<not> P (fst (decode_last_rune s)) \<Longrightarrow> trim_right_func P s = s"
  by (subst trim_right_func.simps) auto

lemma dropWhile_all_iff: "(\<forall>x \<in> set (dropWhile P xs). P x) \<longleftrightarrow> (\<forall>x \<in> set xs. P x)"
  by (induction xs) auto

lemma dropWhile_rev_prefix: "\<exists>v. xs = rev (dropWhile P (rev xs)) @ v"
  by (metis rev_append rev_rev_ident takeWhile_dropWhile_id)

lemma trim_space_eq_Nil_iff: "trim_space s = [] \<longleftrightarrow> (\<forall>r \<in> set (runes s). is_space r)"
proof -
  have "trim_space s = [] \<longleftrightarrow> runes (trim_space s) = []" by simp
  also have "\<dots> \<longleftrightarrow> (\<forall>r \<in> set (dropWhile is_space (runes s)). is_space r)"
    by (simp add: runes_trim_space)
  also have "\<dots> \<longleftrightarrow> (\<forall>r \<in> set (runes s). is_space r)"
    by (rule dropWhile_all_iff)
  finally show ?thesis .
qed

lemma trim_space_Nil [simp]: "trim_space [] = []"
  by (simp add: trim_space_eq_Nil_iff)

text \<open>Trimming is idempotent: the program compares lines by their trimmed form.\<close>

theorem trim_space_idem [simp]: "trim_space (trim_space s) = trim_space s"
proof (cases "trim_space s = []")
  case False
  let ?t = "trim_space s"
  have r: "runes ?t = rev (dropWhile is_space (rev (dropWhile is_space (runes s))))"
    by (rule runes_trim_space)
  have "hd (runes ?t) = fst (decode_rune ?t)" using False by (simp add: runes_nonempty)
  moreover have "last (runes ?t) = fst (decode_last_rune ?t)"
    using decode_last_rune_forward [OF False] by (metis last_snoc)
  moreover have ne: "runes ?t \<noteq> []" using False by simp
  moreover have "\<not> is_space (last (runes ?t))"
    using ne unfolding r by (metis Nil_is_rev_conv hd_dropWhile last_rev)
  moreover have "\<not> is_space (hd (runes ?t))"
  proof -
    let ?d = "dropWhile is_space (runes s)"
    have dne: "?d \<noteq> []" using ne unfolding r by (metis dropWhile.simps(1) rev.simps(1))
    have "\<exists>v. ?d = runes ?t @ v"
      unfolding r by (rule dropWhile_rev_prefix)
    then have "hd (runes ?t) = hd ?d" using ne by (metis hd_append2)
    then show ?thesis using dne by (metis hd_dropWhile)
  qed
  ultimately show ?thesis
    by (simp add: trim_space_def trim_left_func_id trim_right_func_id)
qed simp

lemma trim_space_ends:
  assumes "s \<noteq> []" and "byte (hd s) < 128" "\<not> is_space (byte (hd s))" and "byte (last s) < 128" "\<not> is_space (byte (last s))"
  shows "trim_space s = s"
proof -
  obtain y c where s: "s = y @ [c]" and c: "byte c < 128" "\<not> is_space (byte c)"
    using assms by (metis append_butlast_last_id)
  have "runes s = runes y @ runes [c]" unfolding s using c by (intro runes_append) (simp add: is_cont_def)
  then have "last (runes s) = byte c" using c by (simp add: runes_ascii)
  moreover have "last (runes s) = fst (decode_last_rune s)"
    using decode_last_rune_forward [OF assms(1)] by (metis last_snoc)
  ultimately have "trim_right_func is_space s = s" using c(2) by (intro trim_right_func_id) simp
  moreover have "trim_left_func is_space s = s"
    using assms by (intro trim_left_func_id) (cases s; simp add: decode_rune_ascii)
  ultimately show ?thesis by (simp add: trim_space_def)
qed

lemma of_runes_ascii: "\<forall>c \<in> set s. byte c < 128 \<Longrightarrow> of_runes (map of_char s) = s"
  by (induction s) (auto simp: of_runes_def encode_rune_def encode_valid_def valid_rune_def)

lemma trim_space_ascii: "\<forall>c \<in> set s. byte c < 128 \<and> \<not> is_space (byte c) \<Longrightarrow> trim_space s = s"
proof -
  assume a: "\<forall>c \<in> set s. byte c < 128 \<and> \<not> is_space (byte c)"
  then have r: "runes s = map of_char s" by (intro runes_all_ascii) simp
  have "\<forall>c \<in> set (trim_space s). byte c < 128" using a set_trim_space by blast
  then have t: "runes (trim_space s) = map of_char (trim_space s)" by (rule runes_all_ascii)
  have d: "dropWhile is_space xs = xs" if "\<forall>x \<in> set xs. \<not> is_space x" for xs
    using that by (cases xs) auto
  have n: "\<forall>x \<in> set (runes s). \<not> is_space x" using a r by auto
  have "runes (trim_space s) = runes s" using n by (simp add: runes_trim_space d)
  then have "map byte (trim_space s) = map byte s" using r t by simp
  then show ?thesis by (rule map_injective) (simp add: inj_on_def)
qed

section \<open>Fields\<close>

text \<open>\<open>strings.Fields\<close>: the maximal runs of non-space runes.\<close>

function take_field :: "string \<Rightarrow> string \<times> string" where
  "take_field s =
     (if s = [] \<or> is_space (fst (decode_rune s)) then ([], s)
      else let w = snd (decode_rune s); r = take_field (drop w s)
           in (take w s @ fst r, snd r))"
  by pat_completeness auto
termination
proof (relation "measure length")
  fix s :: string and x
  assume "\<not> (s = [] \<or> is_space (fst (decode_rune s)))" "x = snd (decode_rune s)"
  then show "(drop x s, s) \<in> measure length"
    using decode_rune_width_pos [of s] by (cases s) auto
qed simp

declare take_field.simps [simp del]

lemma take_field_append: "fst (take_field s) @ snd (take_field s) = s"
proof (induction s rule: take_field.induct)
  case (1 s)
  then show ?case by (subst (1 2) take_field.simps) (auto simp: Let_def)
qed

lemma take_field_length: "length (snd (take_field s)) \<le> length s"
  by (metis take_field_append length_append le_add2)

function fields :: "string \<Rightarrow> string list" where
  "fields s =
     (let t = trim_left_func is_space s in
      if t = [] then [] else fst (take_field t) # fields (snd (take_field t)))"
  by pat_completeness auto
termination
proof (relation "measure length")
  fix s :: string and t
  assume t: "t = trim_left_func is_space s" "t \<noteq> []"
  have le: "length t \<le> length s"
    using t(1) trim_left_func_suffix [of s is_space] by (metis length_append le_add2)
  have "runes t = dropWhile is_space (runes s)" using t(1) by (simp add: runes_trim_left)
  then have "\<not> is_space (fst (decode_rune t))"
    using t(2) runes_nonempty [of t] by (metis hd_dropWhile list.sel(1) runes_eq_Nil_iff)
  then have "fst (take_field t) \<noteq> []"
    using t(2) decode_rune_width_pos [OF t(2)] by (subst take_field.simps) (auto simp: Let_def)
  then have "length (snd (take_field t)) < length t"
    by (metis append_self_conv2 take_field_append le_neq_implies_less take_field_length
        length_append add_diff_cancel_right' length_0_conv diff_self_eq_0)
  then show "(snd (take_field t), s) \<in> measure length" using le by simp
qed simp

declare fields.simps [simp del]

text \<open>Words separated by single spaces are the fields of their join.\<close>

definition field_word :: "string \<Rightarrow> bool" where
  "field_word w \<longleftrightarrow> w \<noteq> [] \<and> list_all (\<lambda>r. \<not> is_space r) (runes w)"

lemma take_field_word:
  assumes "list_all (\<lambda>r. \<not> is_space r) (runes w)" and "s = [] \<or> hd s = CHR '' ''"
  shows "take_field (w @ s) = (w, s)"
  using assms(1)
proof (induction w rule: runes.induct)
  case (1 w)
  have c: "s = [] \<or> \<not> is_cont (hd s)" using assms(2) by (auto simp: is_cont_def)
  show ?case
  proof (cases "w = []")
    case True
    have "s = [] \<or> is_space (fst (decode_rune s))"
      using assms(2) by (cases s) (auto simp: decode_rune_ascii is_space_def)
    then show ?thesis using True by (subst take_field.simps) auto
  next
    case False
    have d: "decode_rune (w @ s) = decode_rune w" using False c by (rule decode_rune_append)
    have w: "runes w = fst (decode_rune w) # runes (drop (snd (decode_rune w)) w)" using False by (rule runes_nonempty)
    have le: "snd (decode_rune w) \<le> length w" by (rule decode_rune_width_le)
    have ih: "take_field (drop (snd (decode_rune w)) w @ s) = (drop (snd (decode_rune w)) w, s)"
      using 1 False w by simp
    show ?thesis using False w "1.prems" d le ih
      by (subst take_field.simps) (simp add: Let_def)
  qed
qed

lemma trim_left_word: "field_word w \<Longrightarrow> trim_left_func is_space (w @ s) = w @ s" if "s = [] \<or> hd s = CHR '' ''"
proof -
  assume w: "field_word w"
  have "s = [] \<or> \<not> is_cont (hd s)" using that by (auto simp: is_cont_def)
  then have "decode_rune (w @ s) = decode_rune w" using w by (intro decode_rune_append) (auto simp: field_word_def)
  moreover have "\<not> is_space (fst (decode_rune w))"
    using w runes_nonempty [of w] by (auto simp: field_word_def)
  ultimately show ?thesis by (intro trim_left_func_id) simp
qed

lemma trim_left_space: "trim_left_func is_space (CHR '' '' # s) = trim_left_func is_space s"
  by (subst trim_left_func.simps) (simp add: decode_rune_ascii is_space_def)

lemma fields_join_words:
  "\<forall>w \<in> set ws. field_word w \<Longrightarrow> fields (str_join ws '' '') = ws \<and> fields ('' '' @ str_join ws '' '') = ws"
proof (induction ws)
  case Nil
  have "trim_left_func is_space [] = []" by (rule trim_left_func_id) simp
  then show ?case using trim_left_space [of "[]"] by (simp add: fields.simps)
next
  case (Cons w ws)
  let ?s = "(if ws = [] then [] else '' '' @ str_join ws '' '')"
  have w: "field_word w" using Cons.prems by simp
  have j: "str_join (w # ws) '' '' = w @ ?s" by (cases ws) auto
  have s: "?s = [] \<or> hd ?s = CHR '' ''" by simp
  have t: "trim_left_func is_space (w @ ?s) = w @ ?s" by (rule trim_left_word [OF s w])
  have "take_field (w @ ?s) = (w, ?s)" using w s by (intro take_field_word) (auto simp: field_word_def)
  moreover have "fields ?s = ws" using Cons by (cases ws) auto
  moreover have "w @ ?s \<noteq> []" using w by (simp add: field_word_def)
  ultimately have f: "fields (w @ ?s) = w # ws" using t by (subst fields.simps) (simp add: Let_def)
  have "fields ('' '' @ w @ ?s) = fields (w @ ?s)"
    using trim_left_space [of "w @ ?s"] by (subst (1 2) fields.simps) simp
  then show ?case using f j by simp
qed

section \<open>Replacers\<close>

text \<open>
  \<open>strings.NewReplacer(...).Replace\<close>: at each position the first pair, in argument order, whose old
  string starts there is applied, without rescanning. The old strings the program uses are not empty.
\<close>

function replacer :: "(string \<times> string) list \<Rightarrow> string \<Rightarrow> string" where
  "replacer ps [] = []"
| "replacer ps (c # s) =
     (case find (\<lambda>(old, _). old \<noteq> [] \<and> has_prefix (c # s) old) ps of
        Some (old, new) \<Rightarrow> new @ replacer ps (drop (length old - 1) s)
      | None \<Rightarrow> c # replacer ps s)"
  by pat_completeness auto
termination
  by (relation "measure (length \<circ> snd)") auto

lemma replacer_skip:
  assumes "\<forall>c \<in> set s. \<forall>(old, new) \<in> set ps. old \<noteq> [] \<longrightarrow> hd old \<noteq> c"
  shows "replacer ps (s @ t) = s @ replacer ps t"
  using assms
proof (induction s)
  case (Cons c s)
  have "\<not> (old \<noteq> [] \<and> has_prefix (c # s @ t) old)" if "(old, new) \<in> set ps" for old new
    using Cons.prems that by (cases old) auto
  then have "find (\<lambda>(old, _). old \<noteq> [] \<and> has_prefix (c # s @ t) old) ps = None"
    by (auto simp: find_None_iff)
  then show ?case using Cons by simp
qed simp

section \<open>Numbers\<close>

definition is_digit :: "char \<Rightarrow> bool" where
  "is_digit c \<longleftrightarrow> 48 \<le> byte c \<and> byte c \<le> 57"

fun digits_value :: "nat \<Rightarrow> string \<Rightarrow> nat" where
  "digits_value acc [] = acc"
| "digits_value acc (c # s) = digits_value (10 * acc + (byte c - 48)) s"

definition MaxInt :: int where
  "MaxInt = 9223372036854775807"

text \<open>Go's 64-bit \<open>int\<close> wraps around in two's complement.\<close>

definition wrap_int :: "int \<Rightarrow> int" where
  "wrap_int i = (i + 9223372036854775808) mod 18446744073709551616 - 9223372036854775808"

lemma wrap_int_id: "- 9223372036854775808 \<le> i \<Longrightarrow> i \<le> MaxInt \<Longrightarrow> wrap_int i = i"
  by (simp add: wrap_int_def MaxInt_def)

text \<open>\<open>strconv.Atoi\<close>: an optional sign, at least one digit, nothing else, within the range of \<open>int\<close>.\<close>

definition atoi :: "string \<Rightarrow> int option" where
  "atoi s =
     (let neg = has_prefix s ''-'';
          d = (if has_prefix s ''-'' \<or> has_prefix s ''+'' then tl s else s);
          n = int (digits_value 0 d) in
      if d = [] \<or> \<not> list_all is_digit d then None
      else if neg then (if n \<le> MaxInt + 1 then Some (- n) else None)
      else (if n \<le> MaxInt then Some n else None))"

text \<open>\<open>strconv.Itoa\<close> for the non-negative numbers the program prints.\<close>

fun itoa :: "nat \<Rightarrow> string" where
  "itoa n = (if n < 10 then [char_of (48 + n)] else itoa (n div 10) @ [char_of (48 + n mod 10)])"

declare itoa.simps [simp del]

lemma digits_value_append: "digits_value a (s @ [c]) = 10 * digits_value a s + (byte c - 48)"
  by (induction s arbitrary: a) auto

lemma digits_value_itoa: "digits_value 0 (itoa n) = n"
proof (induction n rule: itoa.induct)
  case (1 n)
  then show ?case by (subst itoa.simps) (auto simp: digits_value_append of_char_of)
qed

lemma itoa_digits: "list_all is_digit (itoa n) \<and> itoa n \<noteq> []"
proof (induction n rule: itoa.induct)
  case (1 n)
  have d: "is_digit (char_of (48 + k))" if "k < 10" for k :: nat
    using that by (simp add: is_digit_def of_char_of)
  show ?case using "1" d [of n] d [of "n mod 10"] by (subst (1 2) itoa.simps) auto
qed

text \<open>Printing and reading a number back.\<close>

lemma atoi_itoa: "int n \<le> MaxInt \<Longrightarrow> atoi (itoa n) = Some (int n)"
proof -
  assume n: "int n \<le> MaxInt"
  have d: "list_all is_digit (itoa n)" "itoa n \<noteq> []" using itoa_digits by auto
  then have "\<not> has_prefix (itoa n) ''-''" "\<not> has_prefix (itoa n) ''+''"
    by (cases "itoa n"; auto simp: is_digit_def has_prefix_def)+
  then show ?thesis using d n by (simp add: atoi_def digits_value_itoa Let_def)
qed

section \<open>Order\<close>

text \<open>Go compares strings byte by byte; \<open>sort.Strings\<close> sorts by that order.\<close>

fun str_less :: "string \<Rightarrow> string \<Rightarrow> bool" where
  "str_less s [] = False"
| "str_less [] (d # t) = True"
| "str_less (c # s) (d # t) = (byte c < byte d \<or> (c = d \<and> str_less s t))"

definition str_le :: "string \<Rightarrow> string \<Rightarrow> bool" where
  "str_le s t \<longleftrightarrow> \<not> str_less t s"

lemma str_less_irrefl [simp]: "\<not> str_less s s"
  by (induction s) auto

lemma str_less_trans: "str_less s t \<Longrightarrow> str_less t u \<Longrightarrow> str_less s u"
proof (induction s t arbitrary: u rule: str_less.induct)
  case (2 d t)
  then show ?case by (cases u) auto
next
  case (3 c s d t)
  then show ?case by (cases u) auto
qed simp

lemma str_less_linear: "str_less s t \<or> s = t \<or> str_less t s"
proof (induction s t rule: str_less.induct)
  case (1 s)
  then show ?case by (cases s) auto
next
  case (3 c s d t)
  then show ?case by (metis of_char_eq_iff str_less.simps(3) nat_neq_iff)
qed simp

lemma str_le_refl [simp]: "str_le s s"
  by (simp add: str_le_def)

lemma str_le_trans: "str_le s t \<Longrightarrow> str_le t u \<Longrightarrow> str_le s u"
  unfolding str_le_def by (metis str_less_linear str_less_trans)

lemma str_le_antisym: "str_le s t \<Longrightarrow> str_le t s \<Longrightarrow> s = t"
  unfolding str_le_def by (metis str_less_linear)

lemma str_le_total: "str_le s t \<or> str_le t s"
  unfolding str_le_def by (metis str_less_linear str_less_trans str_less_irrefl)

fun insort_str :: "string \<Rightarrow> string list \<Rightarrow> string list" where
  "insort_str x [] = [x]"
| "insort_str x (y # ys) = (if str_le x y then x # y # ys else y # insort_str x ys)"

definition sort_strings :: "string list \<Rightarrow> string list" where
  "sort_strings xs = foldr insort_str xs []"

lemma set_insort_str [simp]: "set (insort_str x xs) = insert x (set xs)"
  by (induction xs) auto

lemma set_sort_strings [simp]: "set (sort_strings xs) = set xs"
  by (induction xs) (auto simp: sort_strings_def)

lemma length_insort_str [simp]: "length (insort_str x xs) = Suc (length xs)"
  by (induction xs) auto

lemma length_sort_strings [simp]: "length (sort_strings xs) = length xs"
  by (induction xs) (auto simp: sort_strings_def)

lemma sorted_insort_str: "sorted_wrt str_le xs \<Longrightarrow> sorted_wrt str_le (insort_str x xs)"
  by (induction xs) (use str_le_total in \<open>auto intro: str_le_trans\<close>)

lemma sorted_sort_strings: "sorted_wrt str_le (sort_strings xs)"
  by (induction xs) (auto simp: sort_strings_def sorted_insort_str)

text \<open>Dropping repeated neighbours, the loop several packages carry after a sort.\<close>

fun uniq_adj :: "string list \<Rightarrow> string list" where
  "uniq_adj [] = []"
| "uniq_adj [x] = [x]"
| "uniq_adj (x # y # ys) = (if x = y then uniq_adj (y # ys) else x # uniq_adj (y # ys))"

lemma set_uniq_adj [simp]: "set (uniq_adj xs) = set xs"
  by (induction xs rule: uniq_adj.induct) auto

lemma sorted_uniq_adj: "sorted_wrt str_le xs \<Longrightarrow> sorted_wrt str_less (uniq_adj xs)"
proof (induction xs rule: uniq_adj.induct)
  case (3 x y ys)
  have s: "sorted_wrt str_less (uniq_adj (y # ys))" using 3 by auto
  show ?case
  proof (cases "x = y")
    case False
    have "str_less x z" if "z \<in> set (y # ys)" for z
    proof -
      have xy: "str_less x y" using 3 False str_less_linear [of x y] by (auto simp: str_le_def)
      have "z = y \<or> str_le y z" using that "3.prems" by auto
      then show ?thesis using xy by (metis str_le_def str_less_linear str_less_trans)
    qed
    then show ?thesis using s False by simp
  qed (use s in simp)
qed auto

lemma str_less_sorted_distinct: "sorted_wrt str_less xs \<Longrightarrow> distinct xs"
  by (induction xs) auto

section \<open>Lower case\<close>

text \<open>\<open>strings.ToLower\<close>; \<open>uni\<close> is the simple lower-case mapping of characters outside ASCII.\<close>

definition to_lower :: "(rune \<Rightarrow> rune) \<Rightarrow> string \<Rightarrow> string" where
  "to_lower uni s = of_runes (map (\<lambda>r. if 65 \<le> r \<and> r \<le> 90 then r + 32 else if r < 128 then r else uni r) (runes s))"

lemma to_lower_slash: "to_lower uni (a @ CHR ''/'' # b) = to_lower uni a @ CHR ''/'' # to_lower uni b"
proof -
  have "runes (a @ CHR ''/'' # b) = runes a @ 47 # runes b"
    using runes_append [of "CHR ''/'' # b" a] by (simp add: is_cont_def runes_ascii)
  moreover have "encode_rune 47 = [CHR ''/'']" by code_simp
  ultimately show ?thesis by (simp add: to_lower_def of_runes_def)
qed

end
