(* ===== verification/Go_Path.thy ===== *)
theory Go_Path
  imports Go_Strings
begin

text \<open>
  The standard package \<open>path\<close> over slash-separated names: \<open>Clean\<close>, \<open>Join\<close>, \<open>Base\<close> and \<open>Dir\<close>.
  \<open>Clean\<close> is modelled by its documented rule on the list of path elements: empty and \<open>.\<close> elements
  vanish, \<open>..\<close> removes the element before it, a leading \<open>..\<close> survives only in a relative path.
\<close>

abbreviation slash :: string where "slash \<equiv> ''/''"

section \<open>Clean\<close>

text \<open>One element against the stack of elements kept so far (the last one first).\<close>

fun clean_step :: "bool \<Rightarrow> string list \<Rightarrow> string \<Rightarrow> string list" where
  "clean_step rooted st e =
     (if e = [] \<or> e = ''.'' then st
      else if e = ''..'' then
        (case st of
           [] \<Rightarrow> (if rooted then [] else [e])
         | x # st' \<Rightarrow> (if x = ''..'' then e # st else st'))
      else e # st)"

definition clean_elems :: "bool \<Rightarrow> string list \<Rightarrow> string list" where
  "clean_elems rooted es = rev (foldl (clean_step rooted) [] es)"

definition path_clean :: "string \<Rightarrow> string" where
  "path_clean p =
     (if p = [] then ''.''
      else let rooted = has_prefix p slash;
               body = str_join (clean_elems rooted (str_split p slash)) slash
           in if rooted then slash @ body else if body = [] then ''.'' else body)"

text \<open>\<open>path.Join\<close> of two elements: empty ones are dropped, the rest is joined and cleaned.\<close>

definition path_join2 :: "string \<Rightarrow> string \<Rightarrow> string" where
  "path_join2 a b =
     (if a = [] \<and> b = [] then [] else path_clean (str_join (filter (\<lambda>e. e \<noteq> []) [a, b]) slash))"

text \<open>\<open>path.Base\<close>: trailing slashes are stripped first; the empty path is \<open>.\<close>.\<close>

definition path_base :: "string \<Rightarrow> string" where
  "path_base p =
     (if p = [] then ''.''
      else let q = trim_right_char p slash in if q = [] then slash else last (str_split q slash))"

text \<open>\<open>path.Dir\<close>: everything up to the last slash, cleaned.\<close>

definition path_dir :: "string \<Rightarrow> string" where
  "path_dir p =
     (let i = length p - length (last (str_split p slash)) in path_clean (take i p))"

section \<open>Clean relative paths\<close>

text \<open>The elements that \<open>Clean\<close> keeps: a run of \<open>..\<close>, then proper names.\<close>

definition proper_elem :: "string \<Rightarrow> bool" where
  "proper_elem e \<longleftrightarrow> e \<noteq> [] \<and> e \<noteq> ''.'' \<and> e \<noteq> ''..'' \<and> CHR ''/'' \<notin> set e"

definition clean_stack :: "string list \<Rightarrow> bool" where
  "clean_stack st \<longleftrightarrow> (\<exists>ps k. st = ps @ replicate k ''..'' \<and> (\<forall>e \<in> set ps. proper_elem e))"

lemma clean_stack_Nil [simp]: "clean_stack []"
  unfolding clean_stack_def by (rule exI [of _ "[]"], rule exI [of _ 0]) simp

lemma dots_not_proper [simp]: "\<not> proper_elem ''..''"
  by (simp add: proper_elem_def)

lemma clean_step_stack:
  assumes "clean_stack st" and "CHR ''/'' \<notin> set e"
  shows "clean_stack (clean_step rooted st e)"
proof -
  obtain ps k where st: "st = ps @ replicate k ''..''" and ps: "\<forall>e \<in> set ps. proper_elem e"
    using assms(1) by (auto simp: clean_stack_def)
  consider (skip) "e = [] \<or> e = ''.''" | (up) "e = ''..''" | (name) "e \<noteq> []" "e \<noteq> ''.''" "e \<noteq> ''..''"
    by auto
  then show ?thesis
  proof cases
    case skip
    then show ?thesis using assms(1) by auto
  next
    case up
    show ?thesis
    proof (cases ps)
      case Nil
      then have "st = replicate k ''..''" using st by simp
      then have "clean_step rooted st e = (if rooted \<and> k = 0 then [] else replicate (Suc k) ''..'')"
        using up by (cases k) auto
      then show ?thesis unfolding clean_stack_def
        by (cases "rooted \<and> k = 0")
          (rule exI [of _ "[]"], rule exI [of _ 0], simp,
           rule exI [of _ "[]"], rule exI [of _ "Suc k"], auto)
    next
      case (Cons p ps')
      then have "p \<noteq> ''..''" using ps by (auto simp: proper_elem_def)
      then have "clean_step rooted st e = ps' @ replicate k ''..''"
        using up st Cons by simp
      then show ?thesis unfolding clean_stack_def using ps Cons by auto
    qed
  next
    case name
    then have "clean_step rooted st e = (e # ps) @ replicate k ''..''" using st by simp
    moreover have "\<forall>x \<in> set (e # ps). proper_elem x"
      using name ps assms(2) by (auto simp: proper_elem_def)
    ultimately show ?thesis unfolding clean_stack_def by blast
  qed
qed

lemma clean_foldl_stack:
  assumes "clean_stack st" and "\<forall>e \<in> set es. CHR ''/'' \<notin> set e"
  shows "clean_stack (foldl (clean_step rooted) st es)"
  using assms by (induction es arbitrary: st) (auto simp del: clean_step.simps intro: clean_step_stack)

lemma clean_elems_shape:
  "\<exists>k ps. clean_elems rooted (str_split p slash) = replicate k ''..'' @ ps \<and> (\<forall>e \<in> set ps. proper_elem e)"
proof -
  have "clean_stack (foldl (clean_step rooted) [] (str_split p slash))"
    using str_split_char_no_sep by (intro clean_foldl_stack) auto
  then obtain qs k where "foldl (clean_step rooted) [] (str_split p slash) = qs @ replicate k ''..''"
    and "\<forall>e \<in> set qs. proper_elem e"
    by (auto simp: clean_stack_def)
  then have "clean_elems rooted (str_split p slash) = replicate k ''..'' @ rev qs \<and> (\<forall>e \<in> set (rev qs). proper_elem e)"
    by (simp add: clean_elems_def)
  then show ?thesis by blast
qed

text \<open>Cleaning proper names changes nothing.\<close>

lemma foldl_clean_proper:
  "\<forall>e \<in> set es. proper_elem e \<Longrightarrow> foldl (clean_step rooted) st es = rev es @ st"
  by (induction es arbitrary: st) (auto simp: proper_elem_def)

lemma proper_no_slash: "\<forall>e \<in> set es. proper_elem e \<Longrightarrow> \<forall>e \<in> set es. CHR ''/'' \<notin> set e"
  by (auto simp: proper_elem_def)

lemma str_join_proper_head:
  assumes "es \<noteq> []" and "\<forall>e \<in> set es. proper_elem e"
  shows "str_join es slash \<noteq> [] \<and> \<not> has_prefix (str_join es slash) slash"
proof -
  obtain e es' where es: "es = e # es'" using assms(1) by (cases es) auto
  then have "proper_elem e" using assms(2) by simp
  then obtain c e' where "e = c # e'" "c \<noteq> CHR ''/''"
    unfolding proper_elem_def by (cases e) auto
  then show ?thesis unfolding es by (cases es') auto
qed

lemma path_clean_proper:
  assumes "es \<noteq> []" and "\<forall>e \<in> set es. proper_elem e"
  shows "path_clean (str_join es slash) = str_join es slash"
proof -
  have "str_split (str_join es slash) slash = es"
    using assms proper_no_slash by (intro str_split_join) auto
  then show ?thesis
    using str_join_proper_head [OF assms] foldl_clean_proper [OF assms(2), of False "[]"]
    by (simp add: path_clean_def clean_elems_def Let_def)
qed

end
