(* ===== verification/Index_Types.thy ===== *)
theory Index_Types
  imports Go_Path
begin

text \<open>
  The data model of \<open>internal/index\<close> (types.go) and its tag parser. A tag is the bracketed part of
  an Entry line; it places a file on five axes. Two spellings are legal: the compact run
  (\<open>CG9L\<close>) and the dotted form (\<open>Index.Types.9.S\<close>); anything else yields the empty map, which every
  consumer reads as "no judgement possible".
\<close>

section \<open>Records\<close>

text \<open>The five tag axes; Go keys its maps by the letters A to E.\<close>

datatype axis = AxA | AxB | AxC | AxD | AxE

definition all_axes :: "axis list" where
  "all_axes = [AxA, AxB, AxC, AxD, AxE]"

lemma in_all_axes [simp]: "ax \<in> set all_axes"
  by (cases ax) (simp_all add: all_axes_def)

type_synonym tagmap = "axis \<Rightarrow> string option"

text \<open>\<open>len(tags) == 0\<close>.\<close>

definition no_tags :: "tagmap \<Rightarrow> bool" where
  "no_tags t \<longleftrightarrow> list_all (\<lambda>ax. t ax = None) all_axes"

lemma no_tags_iff: "no_tags t \<longleftrightarrow> t = Map.empty"
  unfolding no_tags_def list_all_iff using in_all_axes by (auto simp: fun_eq_iff)

text \<open>Reading a Go map: a missing key is the empty string.\<close>

definition tag_get :: "tagmap \<Rightarrow> axis \<Rightarrow> string" where
  "tag_get t ax = (case t ax of None \<Rightarrow> [] | Some v \<Rightarrow> v)"

record Entry =
  RelPath :: string
  Filename :: string
  TagsRaw :: string
  TagsParsed :: tagmap
  FieldF :: string
  FieldR :: string
  FieldApi :: string
  FieldS :: string
  FullLine :: string
  LineNo :: nat

record Section =
  SecName :: string
  AbsPath :: string
  LegacyAbsPath :: string
  HeaderLine :: string
  Entries :: "Entry list"
  RawLines :: "string list"
  StartLine :: nat

record Document =
  HeaderLines :: "string list"
  Sections :: "Section list"
  RawText :: string

section \<open>Tag parsing\<close>

definition parseDotTags :: "string \<Rightarrow> tagmap" where
  "parseDotTags raw =
     (let out = (case str_split raw ''.'' of
                   [a, b, c, e] \<Rightarrow> [AxA \<mapsto> a, AxB \<mapsto> b, AxC \<mapsto> c, AxE \<mapsto> e]
                 | [a, b, c, d, e] \<Rightarrow> [AxA \<mapsto> a, AxB \<mapsto> b, AxC \<mapsto> c, AxD \<mapsto> d, AxE \<mapsto> e]
                 | _ \<Rightarrow> Map.empty)
      in if list_ex (\<lambda>ax. case out ax of None \<Rightarrow> False | Some v \<Rightarrow> trim_space v = []) all_axes
         then Map.empty else out)"

definition digit_rune :: "rune \<Rightarrow> bool" where
  "digit_rune r \<longleftrightarrow> 48 \<le> r \<and> r \<le> 57"

text \<open>The index of the first digit; \<open>None\<close> for Go's -1.\<close>

fun first_digit :: "rune list \<Rightarrow> nat option" where
  "first_digit [] = None"
| "first_digit (r # rs) = (if digit_rune r then Some 0 else map_option Suc (first_digit rs))"

definition parseCompactTags :: "string \<Rightarrow> tagmap" where
  "parseCompactTags raw =
     (let rs = runes raw; n = length rs in
      if n < 3 then Map.empty
      else (case first_digit rs of
              None \<Rightarrow> Map.empty
            | Some d \<Rightarrow>
                if d = 0 \<or> d \<ge> n - 1 then Map.empty
                else
                  let b = of_runes (take (d - 1) (drop 1 rs));
                      out = [AxA \<mapsto> of_runes [rs ! 0], AxB \<mapsto> (if d > 1 then b else []),
                             AxC \<mapsto> of_runes [rs ! d], AxE \<mapsto> of_runes [rs ! (n - 1)]];
                      out' = (if d + 1 < n - 1
                              then out(AxD \<mapsto> of_runes (take (n - 1 - (d + 1)) (drop (d + 1) rs)))
                              else out)
                  in if tag_get out' AxB = [] then Map.empty else out'))"

text \<open>The comma, half-width or full-width (U+FF0C).\<close>

definition comma_rune :: "rune \<Rightarrow> bool" where
  "comma_rune r \<longleftrightarrow> r = 44 \<or> r = 65292"

definition ParseTags :: "string \<Rightarrow> tagmap" where
  "ParseTags raw0 =
     (let raw = trim_space raw0 in
      if raw = [] then Map.empty
      else if list_ex comma_rune (runes raw) then Map.empty
      else if str_contains raw ''.'' then parseDotTags raw
      else parseCompactTags raw)"

section \<open>What a parsed tag says\<close>

lemma decode_rune_valid: "s \<noteq> [] \<Longrightarrow> valid_rune (fst (decode_rune s))"
proof -
  assume "s \<noteq> []"
  then obtain c0 r where s: "s = c0 # r" by (cases s) auto
  have b: "byte c < 256" for c :: char by simp
  have c6: "is_cont c \<Longrightarrow> cont_bits c \<le> 63" for c
    by (auto simp: is_cont_def cont_bits_def)
  have two: "(b0 - 192) * 64 + cont_bits c < 2048" if "b0 \<le> 223" "is_cont c" for b0 c
    using that c6 [OF that(2)] by linarith
  have three: "valid_rune ((b0 - 224) * 4096 + cont_bits c1 * 64 + cont_bits c2)"
    if "224 \<le> b0" "b0 \<le> 239" "second_ok b0 c1" "is_cont c2" for b0 c1 c2
  proof (cases "b0 = 237")
    case True
    then have "cont_bits c1 \<le> 31" using that by (auto simp: second_ok_def cont_bits_def)
    then show ?thesis using True c6 [OF that(4)] by (simp add: valid_rune_def)
  next
    case False
    have c1: "cont_bits c1 \<le> 63" using that second_ok_cont c6 by blast
    show ?thesis
    proof (cases "b0 < 237")
      case True
      then have "(b0 - 224) * 4096 \<le> 12 * 4096" by simp
      then show ?thesis using c1 c6 [OF that(4)] unfolding valid_rune_def by linarith
    next
      case F: False
      then have "14 * 4096 \<le> (b0 - 224) * 4096" "(b0 - 224) * 4096 \<le> 15 * 4096"
        using False that by simp_all
      then show ?thesis using c1 c6 [OF that(4)] unfolding valid_rune_def by linarith
    qed
  qed
  have four: "valid_rune ((b0 - 240) * 262144 + cont_bits c1 * 4096 + cont_bits c2 * 64 + cont_bits c3)"
    if "240 \<le> b0" "b0 \<le> 244" "second_ok b0 c1" "is_cont c2" "is_cont c3" for b0 c1 c2 c3
  proof -
    have c1: "cont_bits c1 \<le> 63" using that second_ok_cont c6 by blast
    have lo: "65536 \<le> (b0 - 240) * 262144 + cont_bits c1 * 4096"
      using that by (cases "b0 = 240") (auto simp: second_ok_def cont_bits_def)
    have "b0 = 244 \<Longrightarrow> cont_bits c1 \<le> 15"
      using that by (auto simp: second_ok_def cont_bits_def)
    then have "(b0 - 240) * 262144 + cont_bits c1 * 4096 \<le> 4 * 262144 + 15 * 4096"
      using c1 that by (cases "b0 = 244") auto
    then show ?thesis using lo c6 [OF that(4)] c6 [OF that(5)] unfolding valid_rune_def by linarith
  qed
  have ascii: "valid_rune k" if "k < 2048" for k
    using that by (simp add: valid_rune_def)
  show ?thesis unfolding s decode_rune_def Let_def
    using two three four ascii
    by (auto split: list.splits)
qed

lemma runes_valid: "r \<in> set (runes s) \<Longrightarrow> valid_rune r"
proof (induction s rule: runes.induct)
  case (1 s)
  then show ?case
    by (cases "s = []") (auto simp: runes_nonempty decode_rune_valid)
qed

lemma runes_of_sub_runes: "set rs \<subseteq> set (runes s) \<Longrightarrow> runes (of_runes rs) = rs"
  using runes_valid by (intro runes_of_runes) blast

lemma first_digit_Some:
  "first_digit rs = Some d \<Longrightarrow> d < length rs \<and> digit_rune (rs ! d) \<and> (\<forall>j < d. \<not> digit_rune (rs ! j))"
proof (induction rs arbitrary: d)
  case (Cons r rs)
  then show ?case by (auto split: if_splits simp: nth_Cons split: nat.splits)
qed simp

lemma of_runes_eq_Nil [simp]: "of_runes rs = [] \<longleftrightarrow> rs = []"
  by (cases rs) (auto simp: of_runes_def encode_rune_def)

text \<open>The pieces of a compact tag, when it has any.\<close>

lemma parseCompactTags_parts:
  assumes "parseCompactTags raw \<noteq> Map.empty"
  obtains d where "first_digit (runes raw) = Some d" "1 < d" "d < length (runes raw) - 1"
    "parseCompactTags raw AxA = Some (of_runes [runes raw ! 0])"
    "parseCompactTags raw AxB = Some (of_runes (take (d - 1) (drop 1 (runes raw))))"
    "parseCompactTags raw AxC = Some (of_runes [runes raw ! d])"
    "tag_get (parseCompactTags raw) AxD = of_runes (take (length (runes raw) - 2 - d) (drop (d + 1) (runes raw)))"
    "parseCompactTags raw AxE = Some (of_runes [runes raw ! (length (runes raw) - 1)])"
proof -
  let ?rs = "runes raw" and ?n = "length (runes raw)"
  have n3: "\<not> ?n < 3" using assms by (auto simp: parseCompactTags_def Let_def)
  obtain d where d: "first_digit ?rs = Some d" "\<not> (d = 0 \<or> d \<ge> ?n - 1)"
    using assms n3 by (auto simp: parseCompactTags_def Let_def split: option.splits if_splits)
  define b where "b = of_runes (take (d - 1) (drop 1 ?rs))"
  define out where "out = [AxA \<mapsto> of_runes [?rs ! 0], AxB \<mapsto> (if d > 1 then b else []),
    AxC \<mapsto> of_runes [?rs ! d], AxE \<mapsto> of_runes [?rs ! (?n - 1)]]"
  define out' where "out' = (if d + 1 < ?n - 1
    then out(AxD \<mapsto> of_runes (take (?n - 1 - (d + 1)) (drop (d + 1) ?rs))) else out)"
  have p: "parseCompactTags raw = (if tag_get out' AxB = [] then Map.empty else out')"
    using n3 d by (simp add: parseCompactTags_def Let_def out'_def out_def b_def)
  have "tag_get out' AxB \<noteq> []" using assms p by auto
  moreover have "tag_get out' AxB = (if d > 1 then b else [])"
    by (simp add: out'_def out_def tag_get_def)
  ultimately have d1: "1 < d" by (auto split: if_splits)
  have q: "parseCompactTags raw = out'" using p \<open>tag_get out' AxB \<noteq> []\<close> by simp
  have e: "?n - 1 - (d + 1) = ?n - 2 - d" by simp
  have D: "tag_get out' AxD = of_runes (take (?n - 2 - d) (drop (d + 1) ?rs))"
    using d(2) by (auto simp: out'_def out_def tag_get_def e of_runes_def)
  show ?thesis
    by (rule that [OF d(1) d1]) (use d D d1 q in \<open>auto simp: out'_def out_def b_def\<close>)
qed

text \<open>
  A compact tag that parses is cut without loss: the five parts, in order, are the runes of the
  tag; layer and scale are one rune each, the importance is one digit and the module holds none.
\<close>

definition axis_runes :: "tagmap \<Rightarrow> axis \<Rightarrow> rune list" where
  "axis_runes t ax = runes (tag_get t ax)"

lemma parseCompactTags_lossless:
  assumes "parseCompactTags raw \<noteq> Map.empty"
  shows "concat (map (axis_runes (parseCompactTags raw)) all_axes) = runes raw"
    and "length (axis_runes (parseCompactTags raw) AxA) = 1"
    and "length (axis_runes (parseCompactTags raw) AxE) = 1"
    and "axis_runes (parseCompactTags raw) AxB \<noteq> []"
    and "\<forall>r \<in> set (axis_runes (parseCompactTags raw) AxB). \<not> digit_rune r"
    and "\<exists>r. axis_runes (parseCompactTags raw) AxC = [r] \<and> digit_rune r"
proof -
  let ?rs = "runes raw" and ?n = "length (runes raw)" and ?t = "parseCompactTags raw"
  obtain d where d: "first_digit ?rs = Some d" "1 < d" "d < ?n - 1"
    and A: "?t AxA = Some (of_runes [?rs ! 0])"
    and B: "?t AxB = Some (of_runes (take (d - 1) (drop 1 ?rs)))"
    and C: "?t AxC = Some (of_runes [?rs ! d])"
    and D: "tag_get ?t AxD = of_runes (take (?n - 2 - d) (drop (d + 1) ?rs))"
    and E: "?t AxE = Some (of_runes [?rs ! (?n - 1)])"
    using assms by (rule parseCompactTags_parts)
  have lens: "0 < ?n" "d < ?n" "?n - 1 < ?n" using d by linarith+
  have a: "axis_runes ?t AxA = [?rs ! 0]" "axis_runes ?t AxC = [?rs ! d]"
    "axis_runes ?t AxE = [?rs ! (?n - 1)]"
    unfolding axis_runes_def tag_get_def A C E option.case
    using lens by (auto intro!: runes_of_sub_runes [of _ raw] nth_mem)
  have b: "axis_runes ?t AxB = take (d - 1) (drop 1 ?rs)"
    unfolding axis_runes_def tag_get_def B option.case
    by (rule runes_of_sub_runes [of _ raw]) (meson order_trans set_drop_subset set_take_subset)
  have dd: "axis_runes ?t AxD = take (?n - 2 - d) (drop (d + 1) ?rs)"
    unfolding axis_runes_def D
    by (rule runes_of_sub_runes [of _ raw]) (meson order_trans set_drop_subset set_take_subset)
  have s1: "?rs ! 0 # drop 1 ?rs = ?rs" using lens(1) by (simp add: Cons_nth_drop_Suc)
  have s2: "take (d - 1) (drop 1 ?rs) @ drop d ?rs = drop 1 ?rs"
    using d(2) by (metis append_take_drop_id drop_drop le_add_diff_inverse2 less_imp_le)
  have s3: "?rs ! d # drop (d + 1) ?rs = drop d ?rs"
    using lens(2) by (simp add: Cons_nth_drop_Suc)
  have "?n - 2 - d + (d + 1) = ?n - 1" using d by linarith
  then have s4: "take (?n - 2 - d) (drop (d + 1) ?rs) @ drop (?n - 1) ?rs = drop (d + 1) ?rs"
    by (metis append_take_drop_id drop_drop)
  have s5: "[?rs ! (?n - 1)] = drop (?n - 1) ?rs"
    using lens(3) by (metis Cons_nth_drop_Suc Suc_diff_1 drop_all le_refl lens(1))
  have "concat (map (axis_runes ?t) all_axes) =
      ?rs ! 0 # take (d - 1) (drop 1 ?rs) @ ?rs ! d # take (?n - 2 - d) (drop (d + 1) ?rs) @ [?rs ! (?n - 1)]"
    unfolding all_axes_def by (simp add: a b dd)
  then show "concat (map (axis_runes ?t) all_axes) = ?rs"
    unfolding s5 s4 s3 s2 s1 .
  show "length (axis_runes ?t AxA) = 1" "length (axis_runes ?t AxE) = 1" using a by simp_all
  show "axis_runes ?t AxB \<noteq> []" using b d by auto
  show "\<forall>r \<in> set (axis_runes ?t AxB). \<not> digit_rune r"
  proof
    fix r assume "r \<in> set (axis_runes ?t AxB)"
    then obtain i where "i < d - 1" "r = ?rs ! Suc i"
      unfolding b using d by (auto simp: in_set_conv_nth)
    then show "\<not> digit_rune r" using first_digit_Some [OF d(1)] by auto
  qed
  show "\<exists>r. axis_runes ?t AxC = [r] \<and> digit_rune r"
    using a(2) first_digit_Some [OF d(1)] by auto
qed

lemma parseDotTags_segments:
  assumes "parseDotTags raw \<noteq> Map.empty"
  shows "raw = str_join (map (tag_get (parseDotTags raw)) (if parseDotTags raw AxD = None
    then [AxA, AxB, AxC, AxE] else all_axes)) ''.''"
    and "\<forall>v \<in> ran (parseDotTags raw). trim_space v \<noteq> []"
proof -
  define out where "out = (case str_split raw ''.'' of
                   [a, b, c, e] \<Rightarrow> [AxA \<mapsto> a, AxB \<mapsto> b, AxC \<mapsto> c, AxE \<mapsto> e]
                 | [a, b, c, d, e] \<Rightarrow> [AxA \<mapsto> a, AxB \<mapsto> b, AxC \<mapsto> c, AxD \<mapsto> d, AxE \<mapsto> e]
                 | _ \<Rightarrow> Map.empty)"
  have p: "parseDotTags raw = (if list_ex (\<lambda>ax. case out ax of None \<Rightarrow> False | Some v \<Rightarrow> trim_space v = []) all_axes
         then Map.empty else out)"
    by (simp add: parseDotTags_def out_def)
  have eq: "parseDotTags raw = out" and ne: "\<not> list_ex (\<lambda>ax. case out ax of None \<Rightarrow> False | Some v \<Rightarrow> trim_space v = []) all_axes"
    using assms p by (auto split: if_splits)
  have "str_join (str_split raw ''.'') ''.'' = raw" by (rule str_join_split) simp
  moreover have "str_split raw ''.'' = map (tag_get out) (if out AxD = None then [AxA, AxB, AxC, AxE] else all_axes)"
    using assms eq by (auto simp: out_def tag_get_def all_axes_def split: list.splits)
  ultimately show "raw = str_join (map (tag_get (parseDotTags raw)) (if parseDotTags raw AxD = None
    then [AxA, AxB, AxC, AxE] else all_axes)) ''.''"
    unfolding eq by simp
  show "\<forall>v \<in> ran (parseDotTags raw). trim_space v \<noteq> []"
    using ne unfolding eq ran_def list_ex_iff using in_all_axes by (auto split: option.splits)
qed

end
