(* ===== verification/Index_Lexer.thy ===== *)
theory Index_Lexer
  imports Index_Types
begin

text \<open>
  The line grammar of \<open>internal/index/parser.go\<close>: the regular expressions that tell directory
  headers, separators and Entry lines apart, their extended readings, and the decomposition of an
  Entry body into its F, R, A and S parts.

  Each regular expression is a matcher function that returns its capture groups. Go's engine
  reports the leftmost-first match: lazy groups are searched from the shortest prefix on, greedy
  character classes run up to the first character they exclude, which is where they stop in every
  successful match because the text behind them begins with an excluded character. The classes
  are applied to bytes: their members are ASCII apart from the full-width parenthesis
  (EF BC 88), and a byte sequence that encodes a rune can only start at a rune boundary.
\<close>

section \<open>Character classes\<close>

abbreviation FF :: char where "FF \<equiv> CHR 0x0C"

text \<open>RE2's \<open>\s\<close>.\<close>

definition re_space :: "char \<Rightarrow> bool" where
  "re_space c \<longleftrightarrow> c = TAB \<or> c = LF \<or> c = FF \<or> c = CR \<or> c = CHR '' ''"

definition wide_paren :: string where
  "wide_paren = [CHR 0xEF, CHR 0xBC, CHR 0x88]"

definition is_letter :: "char \<Rightarrow> bool" where
  "is_letter c \<longleftrightarrow> (65 \<le> byte c \<and> byte c \<le> 90) \<or> (97 \<le> byte c \<and> byte c \<le> 122)"

text \<open>The class \<open>[^\s=(\<close> plus the full-width parenthesis\<open>]\<close>: where the path of a header stops.\<close>

definition path_cut :: "string \<Rightarrow> bool" where
  "path_cut s \<longleftrightarrow>
     (case s of [] \<Rightarrow> False
      | c # _ \<Rightarrow> re_space c \<or> c = CHR ''='' \<or> c = CHR ''('' \<or> has_prefix s wide_paren)"

fun class_run :: "string \<Rightarrow> string \<times> string" where
  "class_run [] = ([], [])"
| "class_run (c # s) =
     (if path_cut (c # s) then ([], c # s) else (c # fst (class_run s), snd (class_run s)))"

definition strip_re_space :: "string \<Rightarrow> string" where
  "strip_re_space s = rev (dropWhile re_space (rev s))"

text \<open>An optional white space character (\<open>\s?\<close>).\<close>

definition opt_space :: "string \<Rightarrow> string" where
  "opt_space s = (case s of c # r \<Rightarrow> if re_space c then r else s | [] \<Rightarrow> [])"

section \<open>Directory headers and separators\<close>

text \<open>The second capture group of \<open>consistencyDirRe\<close> at a given position, and what follows it.\<close>

definition dir_at :: "string \<Rightarrow> (string \<times> string) option" where
  "dir_at s =
     (let drive = (2 \<le> length s \<and> is_letter (s ! 0) \<and> s ! 1 = CHR '':'');
          d = (if drive then take 2 s else []);
          r = (if drive then drop 2 s else s) in
      if has_prefix r slash \<and> fst (class_run (tl r)) \<noteq> []
      then Some (d @ slash @ fst (class_run (tl r)), snd (class_run (tl r)))
      else None)"

text \<open>The tail \<open>(.*)===\s*$\<close>: its capture group.\<close>

definition dir_tail :: "string \<Rightarrow> string option" where
  "dir_tail rest =
     (let t = strip_re_space rest in
      if has_suffix t ''==='' \<and> LF \<notin> set (take (length t - 3) t)
      then Some (take (length t - 3) t) else None)"

fun dir_search :: "string \<Rightarrow> string \<Rightarrow> (string \<times> string \<times> string) option" where
  "dir_search acc [] = None"
| "dir_search acc (c # s) =
     (case dir_at (c # s) of
        Some (p, rest) \<Rightarrow>
          (case dir_tail rest of
             Some x \<Rightarrow> Some (rev acc, p, x)
           | None \<Rightarrow> if c = LF then None else dir_search (c # acc) s)
      | None \<Rightarrow> if c = LF then None else dir_search (c # acc) s)"

definition consistencyDirRe :: "string \<Rightarrow> (string \<times> string \<times> string) option" where
  "consistencyDirRe line = (if has_prefix line ''==='' then dir_search [] (drop 3 line) else None)"

definition consistencySepRe :: "string \<Rightarrow> bool" where
  "consistencySepRe line \<longleftrightarrow>
     (let t = strip_re_space line in
      has_prefix t ''==='' \<and> has_suffix t ''==='' \<and> 6 \<le> length t \<and>
      LF \<notin> set (take (length t - 6) (drop 3 t)))"

text \<open>A \<open>===...===\<close> line of either kind ends the header area and opens a section.\<close>

definition is_boundary :: "string \<Rightarrow> bool" where
  "is_boundary line \<longleftrightarrow> consistencySepRe line \<or> consistencyDirRe line \<noteq> None"

text \<open>\<open>secondPathStartRe\<close>: white space followed by the start of an absolute path, anywhere.\<close>

fun second_path_start :: "string \<Rightarrow> bool" where
  "second_path_start [] = False"
| "second_path_start (c # s) =
     (re_space c \<and> (has_prefix s slash \<or>
        (2 \<le> length s \<and> is_letter (s ! 0) \<and> s ! 1 = CHR '':'' \<and> has_prefix (drop 2 s) slash))
      \<or> second_path_start s)"

definition matchDirHeader :: "string \<Rightarrow> (string \<times> string \<times> string) option" where
  "matchDirHeader line =
     (case consistencyDirRe line of
        None \<Rightarrow> None
      | Some (m1, m2, rest) \<Rightarrow>
          let legacyPath = trim_space m2;
              noteLike = (has_suffix m2 slash \<and> rest \<noteq> [] \<and> (hd rest = CHR '' '' \<or> hd rest = TAB));
              absPath = (if has_suffix rest slash \<and> \<not> noteLike \<and> \<not> second_path_start rest
                         then m2 @ rest else legacyPath)
          in Some (trim_space m1, legacyPath, absPath))"

definition isLegacyCut :: "rune \<Rightarrow> bool" where
  "isLegacyCut r \<longleftrightarrow> r \<in> {32, 9, 10, 12, 13, 61, 40, 65288}"

definition isLegacyTruncationOf :: "string \<Rightarrow> string \<Rightarrow> bool" where
  "isLegacyTruncationOf short full =
     (if short = [] \<or> short = full \<or> \<not> has_prefix full short then False
      else let rest = trim_prefix (drop (length short) full) slash
           in rest \<noteq> [] \<and> isLegacyCut (fst (decode_rune rest)))"

section \<open>Entry lines\<close>

definition consistencyEntryRe :: "string \<Rightarrow> (string \<times> string \<times> string) option" where
  "consistencyEntryRe line =
     (let name = takeWhile (\<lambda>c. c \<noteq> CHR ''['') line; r = dropWhile (\<lambda>c. c \<noteq> CHR ''['') line in
      if name = [] \<or> re_space (hd name) \<or> r = [] then None
      else let tag = takeWhile (\<lambda>c. c \<noteq> CHR '']'') (tl r); r2 = dropWhile (\<lambda>c. c \<noteq> CHR '']'') (tl r);
               body = opt_space (drop 2 r2)
           in if has_prefix r2 '']:'' \<and> LF \<notin> set body then Some (name, tag, body) else None)"

text \<open>\<open>extendedEntryRe\<close>: the tag holds no bracket and is followed by \<open>: F:\<close>.\<close>

definition ext_at :: "string \<Rightarrow> (string \<times> string) option" where
  "ext_at s =
     (if has_prefix s ''['' then
        let nb = (\<lambda>c. c \<noteq> CHR ''['' \<and> c \<noteq> CHR '']''); tag = takeWhile nb (tl s); r = dropWhile nb (tl s);
            body = opt_space (drop 2 r)
        in if has_prefix r '']:'' \<and> has_prefix body ''F:'' \<and> LF \<notin> set body
           then Some (tag, body) else None
      else None)"

fun ext_search :: "string \<Rightarrow> string \<Rightarrow> (string \<times> string \<times> string) option" where
  "ext_search acc [] = None"
| "ext_search acc (c # s) =
     (case ext_at (c # s) of
        Some (t, b) \<Rightarrow> Some (rev acc, t, b)
      | None \<Rightarrow> if c = LF then None else ext_search (c # acc) s)"

definition extendedEntryRe :: "string \<Rightarrow> (string \<times> string \<times> string) option" where
  "extendedEntryRe line =
     (case line of [] \<Rightarrow> None | c # s \<Rightarrow> if re_space c then None else ext_search [c] s)"

definition matchEntryLine :: "string \<Rightarrow> (string \<times> string \<times> string) option" where
  "matchEntryLine line =
     (let m = (case consistencyEntryRe line of None \<Rightarrow> extendedEntryRe line | Some g \<Rightarrow> Some g) in
      case m of
        None \<Rightarrow> None
      | Some (m1, m2, m3) \<Rightarrow> if trim_space m1 = [] then None else Some (m1, m2, m3))"

text \<open>\<open>EntryTagSpan\<close>: (nameEnd, tagStart, tagEnd).\<close>

definition EntryTagSpan :: "string \<Rightarrow> (nat \<times> nat \<times> nat) option" where
  "EntryTagSpan line =
     (let span = (\<lambda>(n, t, b). (length n, length n + 1, length n + 1 + length t)) in
      case consistencyEntryRe line of
        Some g \<Rightarrow> Some (span g)
      | None \<Rightarrow>
          (case extendedEntryRe line of
             Some g \<Rightarrow> Some (span g)
           | None \<Rightarrow>
               (case str_index line ''['' of
                  None \<Rightarrow> None
                | Some open_at \<Rightarrow>
                    (case str_index (drop open_at line) '']:'' of
                       None \<Rightarrow> None
                     | Some closing \<Rightarrow> Some (open_at, open_at + 1, open_at + closing)))))"

text \<open>The slice \<open>line[tagStart:tagEnd]\<close> its callers take.\<close>

definition slice :: "nat \<Rightarrow> nat \<Rightarrow> string \<Rightarrow> string" where
  "slice i j s = take (j - i) (drop i s)"

section \<open>The four parts\<close>

text \<open>\<open>regexpSVariant\<close>: S, digits, colon.\<close>

definition regexpSVariant :: "string \<Rightarrow> bool" where
  "regexpSVariant seg \<longleftrightarrow>
     (case seg of
        c # r \<Rightarrow> c = CHR ''S'' \<and> takeWhile is_digit r \<noteq> [] \<and> has_prefix (dropWhile is_digit r) '':''
      | [] \<Rightarrow> False)"

record fras =
  frasF :: string
  frasR :: string
  frasApi :: string
  frasS :: "string list"

definition splitFRAS_step :: "fras \<Rightarrow> string \<Rightarrow> fras" where
  "splitFRAS_step st seg0 =
     (let seg = trim_space seg0 in
      if has_prefix seg ''F:'' then st\<lparr>frasF := trim_space (drop 2 seg)\<rparr>
      else if has_prefix seg ''R:'' then st\<lparr>frasR := trim_space (drop 2 seg)\<rparr>
      else if has_prefix seg ''A:'' then st\<lparr>frasApi := trim_space (drop 2 seg)\<rparr>
      else if has_prefix seg ''S:'' then st\<lparr>frasS := frasS st @ [trim_space (drop 2 seg)]\<rparr>
      else if regexpSVariant seg then
        st\<lparr>frasS := frasS st @ [trim_space (tl (dropWhile (\<lambda>c. c \<noteq> CHR '':'') seg))]\<rparr>
      else st)"

definition splitFRAS :: "string \<Rightarrow> string \<times> string \<times> string \<times> string" where
  "splitFRAS rest =
     (let st = foldl splitFRAS_step \<lparr>frasF = [], frasR = [], frasApi = [], frasS = []\<rparr>
                 (str_split rest '' | '')
      in (frasF st, frasR st, frasApi st, str_join (frasS st) '' | ''))"

text \<open>The Entry both the document parser and \<open>ParseEntryLine\<close> build from a match.\<close>

definition entry_of_match :: "string \<Rightarrow> nat \<Rightarrow> string \<times> string \<times> string \<Rightarrow> Entry" where
  "entry_of_match line lineNo m =
     (case m of (m1, m2, m3) \<Rightarrow>
        case splitFRAS m3 of (f, r, a, s) \<Rightarrow>
        \<lparr>RelPath = [], Filename = trim_space m1, TagsRaw = m2, TagsParsed = ParseTags m2,
         FieldF = f, FieldR = r, FieldApi = a, FieldS = s, FullLine = line, LineNo = lineNo\<rparr>)"

definition ParseEntryLine :: "string \<Rightarrow> nat \<Rightarrow> Entry option" where
  "ParseEntryLine line0 lineNo =
     (let line = trim_suffix (trim_suffix line0 [LF]) [CR] in
      map_option (entry_of_match line lineNo) (matchEntryLine line))"

section \<open>Paths and text preparation\<close>

definition bom :: string where
  "bom = [CHR 0xEF, CHR 0xBB, CHR 0xBF]"

text \<open>\<open>strings.TrimLeft(text, BOM)\<close>.\<close>

function stripBOM :: "string \<Rightarrow> string" where
  "stripBOM text = (if has_prefix text bom then stripBOM (drop 3 text) else text)"
  by pat_completeness auto
termination
  by (relation "measure length") (auto simp: has_prefix_iff bom_def)

declare stripBOM.simps [simp del]

definition upper_ascii :: "char \<Rightarrow> char" where
  "upper_ascii c = (if 97 \<le> byte c \<and> byte c \<le> 122 then char_of (byte c - 32) else c)"

definition normalizeRootPath :: "string \<Rightarrow> string" where
  "normalizeRootPath p =
     (let s = trim_right_char (replace_all p [CHR 0x5C] slash) slash in
      if 2 \<le> length s \<and> s ! 1 = CHR '':'' \<and> 97 \<le> byte (s ! 0) \<and> byte (s ! 0) \<le> 122
      then upper_ascii (s ! 0) # tl s else s)"

section \<open>Lexing loses nothing\<close>

lemma opt_space_cases: "\<exists>sp. s = sp @ opt_space s \<and> (sp = [] \<or> (\<exists>c. sp = [c] \<and> re_space c))"
  by (cases s) (auto simp: opt_space_def)

lemma consistencyEntryRe_Some:
  assumes "consistencyEntryRe line = Some (n, t, b)"
  shows "\<exists>sp. line = n @ ''['' @ t @ '']:'' @ sp @ b \<and> (sp = [] \<or> (\<exists>c. sp = [c] \<and> re_space c))"
    and "CHR ''['' \<notin> set n" "CHR '']'' \<notin> set t" "n \<noteq> []" "\<not> re_space (hd n)" "LF \<notin> set b"
proof -
  let ?n = "takeWhile (\<lambda>c. c \<noteq> CHR ''['') line" and ?r = "dropWhile (\<lambda>c. c \<noteq> CHR ''['') line"
  let ?t = "takeWhile (\<lambda>c. c \<noteq> CHR '']'') (tl ?r)" and ?r2 = "dropWhile (\<lambda>c. c \<noteq> CHR '']'') (tl ?r)"
  have g: "?n \<noteq> []" "\<not> re_space (hd ?n)" "?r \<noteq> []" "has_prefix ?r2 '']:''"
    and e: "n = ?n" "t = ?t" "b = opt_space (drop 2 ?r2)" "LF \<notin> set b"
    using assms by (auto simp: consistencyEntryRe_def Let_def split: if_splits)
  have "hd ?r = CHR ''[''" using hd_dropWhile [OF g(3)] by simp
  then have r: "?r = CHR ''['' # tl ?r" using g(3) by (metis list.collapse)
  have r2: "?r2 = '']:'' @ drop 2 ?r2" using g(4) by (auto simp: has_prefix_iff)
  obtain sp where sp: "drop 2 ?r2 = sp @ b" "sp = [] \<or> (\<exists>c. sp = [c] \<and> re_space c)"
    using opt_space_cases [of "drop 2 ?r2"] e(3) by metis
  have "line = ?n @ ?r" by simp
  also have "\<dots> = n @ ''['' @ (?t @ ?r2)" using r e(1) by simp
  also have "\<dots> = n @ ''['' @ t @ '']:'' @ sp @ b" using r2 sp(1) e(2) by simp
  finally show "\<exists>sp. line = n @ ''['' @ t @ '']:'' @ sp @ b \<and> (sp = [] \<or> (\<exists>c. sp = [c] \<and> re_space c))"
    using sp(2) by blast
  show "CHR ''['' \<notin> set n" using e(1) by (auto dest: set_takeWhileD)
  show "CHR '']'' \<notin> set t" using e(2) by (auto dest: set_takeWhileD)
  show "n \<noteq> []" "\<not> re_space (hd n)" "LF \<notin> set b" using g e by auto
qed

lemma ext_at_Some:
  assumes "ext_at s = Some (t, b)"
  shows "\<exists>sp. s = ''['' @ t @ '']:'' @ sp @ b \<and> (sp = [] \<or> (\<exists>c. sp = [c] \<and> re_space c))"
    and "CHR '']'' \<notin> set t" "LF \<notin> set b" "has_prefix b ''F:''"
proof -
  let ?nb = "\<lambda>c. c \<noteq> CHR ''['' \<and> c \<noteq> CHR '']''"
  let ?t = "takeWhile ?nb (tl s)" and ?r = "dropWhile ?nb (tl s)"
  have g: "has_prefix s ''[''" "has_prefix ?r '']:''" "has_prefix b ''F:''"
    and e: "t = ?t" "b = opt_space (drop 2 ?r)" "LF \<notin> set b"
    using assms by (auto simp: ext_at_def Let_def split: if_splits)
  have s: "s = ''['' @ tl s" using g(1) by (auto simp: has_prefix_iff)
  have r: "?r = '']:'' @ drop 2 ?r" using g(2) by (auto simp: has_prefix_iff)
  obtain sp where sp: "drop 2 ?r = sp @ b" "sp = [] \<or> (\<exists>c. sp = [c] \<and> re_space c)"
    using opt_space_cases [of "drop 2 ?r"] e(2) by metis
  have "tl s = ?t @ ?r" by simp
  also have "\<dots> = t @ '']:'' @ sp @ b" using r sp(1) e(1) by simp
  finally have "s = ''['' @ t @ '']:'' @ sp @ b" using s by simp
  then show "\<exists>sp. s = ''['' @ t @ '']:'' @ sp @ b \<and> (sp = [] \<or> (\<exists>c. sp = [c] \<and> re_space c))"
    using sp(2) by blast
  show "CHR '']'' \<notin> set t" using e(1) by (auto dest: set_takeWhileD)
  show "LF \<notin> set b" "has_prefix b ''F:''" using e g by auto
qed

lemma ext_search_Some:
  "ext_search acc s = Some (n, t, b) \<Longrightarrow> \<exists>u v. s = u @ v \<and> n = rev acc @ u \<and> ext_at v = Some (t, b)"
proof (induction acc s rule: ext_search.induct)
  case (2 acc c s)
  show ?case
  proof (cases "ext_at (c # s)")
    case (Some tb)
    then have "n = rev acc @ []" "ext_at (c # s) = Some (t, b)" using "2.prems" by auto
    then show ?thesis by (metis append_Nil)
  next
    case None
    then obtain u v where "s = u @ v" "n = rev (c # acc) @ u" "ext_at v = Some (t, b)"
      using 2 by (auto split: if_splits)
    then have "c # s = (c # u) @ v" "n = rev acc @ (c # u)" "ext_at v = Some (t, b)" by simp_all
    then show ?thesis by blast
  qed
qed simp

lemma extendedEntryRe_Some:
  assumes "extendedEntryRe line = Some (n, t, b)"
  shows "\<exists>sp. line = n @ ''['' @ t @ '']:'' @ sp @ b \<and> (sp = [] \<or> (\<exists>c. sp = [c] \<and> re_space c))"
    and "CHR '']'' \<notin> set t" "n \<noteq> []" "\<not> re_space (hd n)" "LF \<notin> set b"
proof -
  obtain c s where l: "line = c # s" "\<not> re_space c" "ext_search [c] s = Some (n, t, b)"
    using assms by (auto simp: extendedEntryRe_def split: list.splits if_splits)
  obtain u v where uv: "s = u @ v" "n = c # u" "ext_at v = Some (t, b)"
    using ext_search_Some [OF l(3)] by auto
  show "\<exists>sp. line = n @ ''['' @ t @ '']:'' @ sp @ b \<and> (sp = [] \<or> (\<exists>c. sp = [c] \<and> re_space c))"
    using ext_at_Some(1) [OF uv(3)] l uv by auto
  show "CHR '']'' \<notin> set t" "n \<noteq> []" "\<not> re_space (hd n)" "LF \<notin> set b"
    using ext_at_Some [OF uv(3)] l uv by auto
qed

lemma matchEntryLine_cases:
  assumes "matchEntryLine line = Some g"
  shows "(consistencyEntryRe line = Some g \<or> (consistencyEntryRe line = None \<and> extendedEntryRe line = Some g))
     \<and> trim_space (fst g) \<noteq> []"
  using assms by (auto simp: matchEntryLine_def Let_def split: option.splits if_splits)

lemma matchEntryLine_shape:
  assumes "matchEntryLine line = Some (n, t, b)"
  shows "\<exists>sp. line = n @ ''['' @ t @ '']:'' @ sp @ b \<and> (sp = [] \<or> (\<exists>c. sp = [c] \<and> re_space c))"
    and "CHR '']'' \<notin> set t" "\<not> re_space (hd n)" "LF \<notin> set b" "trim_space n \<noteq> []"
proof -
  have c: "consistencyEntryRe line = Some (n, t, b) \<or> extendedEntryRe line = Some (n, t, b)"
    and "trim_space n \<noteq> []"
    using matchEntryLine_cases [OF assms] by auto
  show "\<exists>sp. line = n @ ''['' @ t @ '']:'' @ sp @ b \<and> (sp = [] \<or> (\<exists>c. sp = [c] \<and> re_space c))"
    using c consistencyEntryRe_Some(1) extendedEntryRe_Some(1) by blast
  show "CHR '']'' \<notin> set t"
    using c consistencyEntryRe_Some(3) extendedEntryRe_Some(2) by blast
  show "\<not> re_space (hd n)"
    using c consistencyEntryRe_Some(5) extendedEntryRe_Some(4) by blast
  show "LF \<notin> set b"
    using c consistencyEntryRe_Some(6) extendedEntryRe_Some(5) by blast
  show "trim_space n \<noteq> []" by fact
qed

text \<open>The span every gate uses is the tag the parser reads.\<close>

lemma EntryTagSpan_matchEntryLine:
  assumes "matchEntryLine line = Some (n, t, b)"
  shows "EntryTagSpan line = Some (length n, length n + 1, length n + 1 + length t)"
    and "slice (length n + 1) (length n + 1 + length t) line = t"
proof -
  show "EntryTagSpan line = Some (length n, length n + 1, length n + 1 + length t)"
    using matchEntryLine_cases [OF assms] by (auto simp: EntryTagSpan_def Let_def split: option.splits)
  obtain sp where "line = n @ ''['' @ t @ '']:'' @ sp @ b"
    using matchEntryLine_shape(1) [OF assms] by blast
  then show "slice (length n + 1) (length n + 1 + length t) line = t"
    by (simp add: slice_def)
qed

section \<open>Rendering and reading an Entry\<close>

lemma str_index_sep:
  assumes "CHR ''|'' \<notin> set x"
  shows "str_index (x @ '' | '' @ s) '' | '' = Some (length x)"
  using assms
proof (induction x)
  case Nil
  then show ?case by simp
next
  case (Cons c x)
  have "\<not> has_prefix ((c # x) @ '' | '' @ s) '' | ''"
    using Cons.prems by (cases x) auto
  then show ?case using Cons by simp
qed

lemma str_index_no_bar:
  assumes "CHR ''|'' \<notin> set x"
  shows "str_index x '' | '' = None"
  using assms
proof (induction x)
  case (Cons c x)
  have "\<not> has_prefix (c # x) '' | ''" using Cons.prems by (cases x) auto
  then show ?case using Cons by simp
qed simp

lemma str_split_sep:
  assumes "CHR ''|'' \<notin> set x"
  shows "str_split (x @ '' | '' @ s) '' | '' = x # str_split s '' | ''"
    and "str_split x '' | '' = [x]"
proof -
  show "str_split (x @ '' | '' @ s) '' | '' = x # str_split s '' | ''"
    using str_index_sep [OF assms, of s] by (subst str_split.simps) simp
  show "str_split x '' | '' = [x]"
    using str_index_no_bar [OF assms] by (subst str_split.simps) simp
qed

text \<open>A field value as the writer produces it: trimmed, one line, no bar.\<close>

definition clean_field :: "string \<Rightarrow> bool" where
  "clean_field v \<longleftrightarrow> v \<noteq> [] \<and> trim_space v = v \<and> CHR ''|'' \<notin> set v \<and> LF \<notin> set v \<and> CR \<notin> set v"

lemma trim_space_labelled:
  assumes "byte c < 128" "\<not> is_space (byte c)" "trim_space v = v" "v \<noteq> []"
    and "byte d < 128"
  shows "trim_space (c # d # v) = c # d # v"
proof -
  let ?s = "c # d # v"
  have r: "runes ?s = byte c # byte d # runes v" using assms by (simp add: runes_ascii)
  have l: "\<not> is_space (last (runes v))"
  proof -
    have "runes v = rev (dropWhile is_space (rev (dropWhile is_space (runes v))))"
      using runes_trim_space [of v] assms(3) by simp
    moreover have "runes v \<noteq> []" using assms(4) by simp
    ultimately show ?thesis by (metis Nil_is_rev_conv hd_dropWhile last_rev)
  qed
  have "last (runes ?s) = fst (decode_last_rune ?s)"
    using decode_last_rune_forward [of ?s] by (metis last_snoc list.distinct(1))
  moreover have "last (runes ?s) = last (runes v)" using r assms(4) by simp
  ultimately have "trim_right_func is_space ?s = ?s" using l by (intro trim_right_func_id) simp
  moreover have "trim_left_func is_space ?s = ?s"
    using assms by (intro trim_left_func_id) (simp add: decode_rune_ascii)
  ultimately show ?thesis by (simp add: trim_space_def)
qed

lemma trim_space_part:
  "clean_field v \<Longrightarrow> c \<in> {CHR ''F'', CHR ''R'', CHR ''A'', CHR ''S''} \<Longrightarrow> trim_space (c # CHR '':'' # v) = c # CHR '':'' # v"
  by (intro trim_space_labelled) (auto simp: clean_field_def is_space_def)

lemma split_four_parts:
  assumes "clean_field f" "clean_field r" "clean_field a" "clean_field s"
  shows "str_split (''F:'' @ f @ '' | R:'' @ r @ '' | A:'' @ a @ '' | S:'' @ s) '' | '' =
     [''F:'' @ f, ''R:'' @ r, ''A:'' @ a, ''S:'' @ s]"
  using str_split_sep(1) [of "''F:'' @ f" "''R:'' @ r @ '' | A:'' @ a @ '' | S:'' @ s"]
    str_split_sep(1) [of "''R:'' @ r" "''A:'' @ a @ '' | S:'' @ s"]
    str_split_sep(1) [of "''A:'' @ a" "''S:'' @ s"]
    str_split_sep(2) [of "''S:'' @ s"] assms
  by (simp add: clean_field_def)

lemma splitFRAS_four:
  assumes "clean_field f" "clean_field r" "clean_field a" "clean_field s"
  shows "splitFRAS (''F:'' @ f @ '' | R:'' @ r @ '' | A:'' @ a @ '' | S:'' @ s) = (f, r, a, s)"
proof -
  have tr: "trim_space f = f" "trim_space r = r" "trim_space a = a" "trim_space s = s"
    using assms by (auto simp: clean_field_def)
  show ?thesis unfolding splitFRAS_def Let_def split_four_parts [OF assms]
    using assms tr by (simp add: splitFRAS_step_def Let_def trim_space_part)
qed

text \<open>Rendering an Entry and reading it back yields the parts it was rendered from.\<close>

definition render_entry :: "string \<Rightarrow> string \<Rightarrow> string \<Rightarrow> string \<Rightarrow> string \<Rightarrow> string \<Rightarrow> string" where
  "render_entry name tag f r a s =
     name @ ''['' @ tag @ '']: '' @ ''F:'' @ f @ '' | R:'' @ r @ '' | A:'' @ a @ '' | S:'' @ s"

definition clean_name :: "string \<Rightarrow> bool" where
  "clean_name n \<longleftrightarrow> n \<noteq> [] \<and> trim_space n = n \<and> \<not> re_space (hd n) \<and> CHR ''['' \<notin> set n \<and> LF \<notin> set n"

lemma takeWhile_append_stop: "\<forall>x \<in> set xs. P x \<Longrightarrow> \<not> P y \<Longrightarrow> takeWhile P (xs @ y # ys) = xs"
  by (induction xs) auto

lemma dropWhile_append_stop: "\<forall>x \<in> set xs. P x \<Longrightarrow> \<not> P y \<Longrightarrow> dropWhile P (xs @ y # ys) = y # ys"
  by (induction xs) auto

lemma matchEntryLine_render:
  assumes "clean_name n" "CHR '']'' \<notin> set t" "clean_field f" "clean_field r" "clean_field a" "clean_field s"
  shows "matchEntryLine (render_entry n t f r a s) =
    Some (n, t, ''F:'' @ f @ '' | R:'' @ r @ '' | A:'' @ a @ '' | S:'' @ s)"
proof -
  let ?b = "''F:'' @ f @ '' | R:'' @ r @ '' | A:'' @ a @ '' | S:'' @ s"
  have l: "render_entry n t f r a s = n @ CHR ''['' # (t @ CHR '']'' # ('': '' @ ?b))"
    by (simp add: render_entry_def)
  have n: "\<forall>c \<in> set n. c \<noteq> CHR ''[''" and t: "\<forall>c \<in> set t. c \<noteq> CHR '']''"
    using assms by (auto simp: clean_name_def)
  have nl: "LF \<notin> set ?b" using assms by (auto simp: clean_field_def)
  have "consistencyEntryRe (render_entry n t f r a s) = Some (n, t, ?b)"
    unfolding l consistencyEntryRe_def Let_def
    using takeWhile_append_stop [OF n] dropWhile_append_stop [OF n]
      takeWhile_append_stop [OF t] dropWhile_append_stop [OF t] assms(1) nl
    by (simp add: clean_name_def opt_space_def re_space_def)
  then show ?thesis using assms(1) by (simp add: matchEntryLine_def clean_name_def)
qed

lemma trim_right_char_no_suffix: "c \<in> set cs \<Longrightarrow> trim_right_char s cs \<noteq> x @ [c]"
proof
  assume c: "c \<in> set cs" and e: "trim_right_char s cs = x @ [c]"
  then have "dropWhile (\<lambda>c. c \<in> set cs) (rev s) = c # rev x"
    unfolding trim_right_char_def by (metis rev_rev_ident rev_append append_Cons append_Nil rev.simps)
  then have "hd (dropWhile (\<lambda>c. c \<in> set cs) (rev s)) = c"
    and "dropWhile (\<lambda>c. c \<in> set cs) (rev s) \<noteq> []" by simp_all
  then show False using c hd_dropWhile [of "\<lambda>c. c \<in> set cs" "rev s"] by simp
qed

text \<open>A normalized path never ends with a slash.\<close>

lemma normalizeRootPath_no_slash: "normalizeRootPath p \<noteq> x @ slash"
proof
  assume e: "normalizeRootPath p = x @ slash"
  let ?s = "trim_right_char (replace_all p [CHR 0x5C] slash) slash"
  have ns: "?s \<noteq> y @ slash" for y by (rule trim_right_char_no_suffix) simp
  show False
  proof (cases "2 \<le> length ?s \<and> ?s ! 1 = CHR '':'' \<and> 97 \<le> byte (?s ! 0) \<and> byte (?s ! 0) \<le> 122")
    case True
    then obtain a b r where s: "?s = a # b # r" by (cases ?s; cases "tl ?s") auto
    have n: "upper_ascii a # b # r = x @ slash" using e True s by (simp add: normalizeRootPath_def Let_def)
    then have "x \<noteq> []" by (cases x) auto
    then obtain x' where "b # r = x' @ slash" using n by (cases x) auto
    then show False using ns [of "a # x'"] s by simp
  next
    case False
    then have "normalizeRootPath p = ?s" unfolding normalizeRootPath_def Let_def by (simp only: if_False)
    then show False using e ns by metis
  qed
qed

lemma normalizeRootPath_no_backslash: "CHR 0x5C \<notin> set (replace_all p [CHR 0x5C] slash)"
  by (auto simp: replace_all_char split: if_splits)

end
