(* ===== verification/Index_Resolve.thy ===== *)
theory Index_Resolve
  imports Index_Lexer
begin

text \<open>
  Section resolution (\<open>internal/index/parser.go\<close>): which repository-relative directory each
  directory section names. Section headers carry absolute paths from the machine that created
  the index; a checkout somewhere else resolves them by relocation against their longest common
  directory prefix, and an index left by an older writer is recognised from its text.

  Go keys its maps by section pointers. Here a section is identified by its position in the
  document (\<open>secref\<close>), and a map from sections is a partial function on positions.
\<close>

type_synonym secref = "nat \<times> Section"

record sectionReading =
  rel :: string
  legacy :: bool

type_synonym readings = "nat \<Rightarrow> sectionReading option"

text \<open>\<open>sectionReading.path\<close>: the header path a reading was computed from.\<close>

definition reading_path :: "sectionReading \<Rightarrow> Section \<Rightarrow> string" where
  "reading_path r sec = (if legacy r then LegacyAbsPath sec else AbsPath sec)"

definition relUnder :: "string \<Rightarrow> string \<Rightarrow> string option" where
  "relUnder p base =
     (if base = [] then None
      else if p = base then Some []
      else if has_prefix p (base @ slash) then Some (trim_prefix p (base @ slash))
      else None)"

text \<open>The directory sections of a document, with their positions.\<close>

definition directories :: "Section list \<Rightarrow> secref list" where
  "directories secs = filter (\<lambda>(i, sec). AbsPath sec \<noteq> []) (ranged secs)"

definition firstDirectorySection :: "Section list \<Rightarrow> secref option" where
  "firstDirectorySection secs = (case directories secs of [] \<Rightarrow> None | d # _ \<Rightarrow> Some d)"

section \<open>Common prefix\<close>

fun common_levels :: "string list \<Rightarrow> string list \<Rightarrow> string list" where
  "common_levels (x # xs) (y # ys) = (if x = y then x # common_levels xs ys else [])"
| "common_levels _ _ = []"

fun common_of_rest :: "string list \<Rightarrow> secref list \<Rightarrow> (Section \<Rightarrow> string) \<Rightarrow> string list" where
  "common_of_rest parts [] pathOf = parts"
| "common_of_rest parts ((i, sec) # rest) pathOf =
     (let parts' = common_levels parts (str_split (normalizeRootPath (pathOf sec)) slash)
      in if parts' = [] then [] else common_of_rest parts' rest pathOf)"

definition commonDirPrefixOf :: "secref list \<Rightarrow> (Section \<Rightarrow> string) \<Rightarrow> string" where
  "commonDirPrefixOf secs pathOf =
     (case secs of
        [] \<Rightarrow> []
      | (i, sec) # rest \<Rightarrow>
          let parts = common_of_rest (str_split (normalizeRootPath (pathOf sec)) slash) rest pathOf;
              prefix = str_join parts slash
          in if parts = [] \<or> prefix = [] \<or> prefix = slash then [] else prefix)"

section \<open>The two readings\<close>

definition relocateExtended :: "secref list \<Rightarrow> readings \<times> bool" where
  "relocateExtended missed =
     (let prefix = commonDirPrefixOf missed AbsPath in
      if prefix = [] then (Map.empty, False)
      else foldl (\<lambda>(out, hasRoot) (i, sec).
             (case relUnder (normalizeRootPath (AbsPath sec)) prefix of
                Some r \<Rightarrow> (out(i \<mapsto> \<lparr>rel = r, legacy = False\<rparr>), hasRoot \<or> r = [])
              | None \<Rightarrow> (out, hasRoot)))
           (Map.empty, False) missed)"

fun oldWriter_loop :: "secref list \<Rightarrow> nat \<Rightarrow> string \<Rightarrow> readings \<Rightarrow> bool \<Rightarrow> readings option" where
  "oldWriter_loop [] first prefix out fullSpelled = (if fullSpelled then Some out else None)"
| "oldWriter_loop ((i, sec) # secs) first prefix out fullSpelled =
     (let effective = normalizeRootPath (AbsPath sec) in
      if i = first then
        if normalizeRootPath (LegacyAbsPath sec) \<noteq> prefix \<or> effective = prefix then None
        else oldWriter_loop secs first prefix (out(i \<mapsto> \<lparr>rel = [], legacy = True\<rparr>)) True
      else
        (case relUnder effective prefix of
           None \<Rightarrow> None
         | Some r \<Rightarrow>
             if r = [] then None
             else oldWriter_loop secs first prefix (out(i \<mapsto> \<lparr>rel = r, legacy = False\<rparr>)) fullSpelled))"

definition oldWriterReadings :: "secref list \<Rightarrow> secref option \<Rightarrow> readings option" where
  "oldWriterReadings secs first =
     (case first of
        None \<Rightarrow> None
      | Some (fi, fsec) \<Rightarrow>
          if secs = [] then None
          else let prefix = commonDirPrefixOf secs LegacyAbsPath in
               if prefix = [] then None else oldWriter_loop secs fi prefix Map.empty False)"

section \<open>Resolution\<close>

text \<open>
  The historical family of a nested work tree: the recorded root lies strictly below the current
  root, every directory section relocates, and the first section is the relocated root.
\<close>

definition nestedWorktree :: "secref list \<Rightarrow> secref option \<Rightarrow> string \<Rightarrow> readings option" where
  "nestedWorktree dirs first root =
     (case first of
        None \<Rightarrow> None
      | Some (fi, fsec) \<Rightarrow>
          if 1 < length dirs then
            (case relUnder (normalizeRootPath (AbsPath fsec)) root of
               None \<Rightarrow> None
             | Some r \<Rightarrow>
                 if r = [] then None
                 else let (relocated, hasRoot) = relocateExtended dirs in
                      if hasRoot \<and> list_all (\<lambda>(i, sec). relocated i \<noteq> None) dirs \<and>
                         (case relocated fi of Some rd \<Rightarrow> rel rd = [] | None \<Rightarrow> False)
                      then Some relocated else None)
          else None)"

text \<open>First pass: direct prefix comparison; the sections that miss are collected.\<close>

definition directPass :: "secref list \<Rightarrow> string \<Rightarrow> readings \<times> secref list" where
  "directPass dirs root =
     foldl (\<lambda>(rds, missed) (i, sec).
        (case relUnder (normalizeRootPath (AbsPath sec)) root of
           Some r \<Rightarrow> (rds(i \<mapsto> \<lparr>rel = r, legacy = False\<rparr>), missed)
         | None \<Rightarrow> (rds, missed @ [(i, sec)])))
      (Map.empty, []) dirs"

text \<open>
  In-place healing: the first section resolves directly and its legacy reading is the truncation
  of the root; the missed sections below that truncated root are placed there.
\<close>

definition healPass :: "readings \<Rightarrow> secref list \<Rightarrow> secref option \<Rightarrow> string \<Rightarrow> readings \<times> secref list" where
  "healPass rds missed first root =
     (case first of
        None \<Rightarrow> (rds, missed)
      | Some (fi, fsec) \<Rightarrow>
          let leg = normalizeRootPath (LegacyAbsPath fsec) in
          if rds fi \<noteq> None \<and> leg \<noteq> [] \<and> leg \<noteq> normalizeRootPath (AbsPath fsec) \<and>
             relUnder leg root = None \<and> isLegacyTruncationOf leg root
          then
            let (rds', still) =
                  foldl (\<lambda>(rs, st) (i, sec).
                    (case relUnder (normalizeRootPath (AbsPath sec)) leg of
                       Some r \<Rightarrow> (rs(i \<mapsto> \<lparr>rel = r, legacy = False\<rparr>), st)
                     | None \<Rightarrow> (rs, st @ [(i, sec)])))
                  (rds, []) missed
            in (if length still < length missed then rds'(fi \<mapsto> \<lparr>rel = [], legacy = True\<rparr>) else rds',
                still)
          else (rds, missed))"

definition resolveSectionReadings :: "Section list \<Rightarrow> string \<Rightarrow> readings" where
  "resolveSectionReadings secs repoRoot =
     (let root = normalizeRootPath repoRoot;
          first = firstDirectorySection secs;
          dirs = directories secs in
      case oldWriterReadings dirs first of
        Some rds \<Rightarrow> rds
      | None \<Rightarrow>
          (case nestedWorktree dirs first root of
             Some relocated \<Rightarrow> relocated
           | None \<Rightarrow>
               let (rds, missed) = directPass dirs root in
               if missed = [] then rds
               else let (rds', missed') = healPass rds missed first root in
                    if missed' = [] then rds'
                    else let (extended, extendedHasRoot) = relocateExtended missed';
                             chosen = (if extendedHasRoot then extended
                                       else (case oldWriterReadings missed' first of
                                               Some lg \<Rightarrow> lg | None \<Rightarrow> extended))
                         in rds' ++ chosen))"

definition resolveSectionRels :: "Section list \<Rightarrow> string \<Rightarrow> nat \<Rightarrow> string option" where
  "resolveSectionRels secs repoRoot i = map_option rel (resolveSectionReadings secs repoRoot i)"

section \<open>Operations on documents\<close>

definition entry_rel_path :: "string \<Rightarrow> Entry \<Rightarrow> string" where
  "entry_rel_path relDir e =
     (let name = trim_space (Filename e);
          joined = path_join2 relDir (trim_suffix name slash)
      in if has_suffix name slash then joined @ slash else joined)"

definition resolve_section :: "string option \<Rightarrow> Section \<Rightarrow> Section" where
  "resolve_section r sec =
     (case r of
        None \<Rightarrow> sec
      | Some relDir \<Rightarrow> sec\<lparr>Entries := map (\<lambda>e. e\<lparr>RelPath := entry_rel_path relDir e\<rparr>) (Entries sec)\<rparr>)"

definition ResolveRelPaths :: "Document \<Rightarrow> string \<Rightarrow> Document" where
  "ResolveRelPaths doc repoRoot =
     doc\<lparr>Sections := map (\<lambda>(i, sec). resolve_section (resolveSectionRels (Sections doc) repoRoot i) sec)
                        (ranged (Sections doc))\<rparr>"

text \<open>The directory of a path as section lookup sees it.\<close>

definition rel_dir_of :: "string \<Rightarrow> string" where
  "rel_dir_of relPath =
     (let d = path_dir (replace_all relPath [CHR 0x5C] slash) in if d = ''.'' then [] else d)"

definition FindSectionForPath :: "Document \<Rightarrow> string \<Rightarrow> string \<Rightarrow> secref option" where
  "FindSectionForPath doc repoRoot relPath =
     find (\<lambda>(i, sec). resolveSectionRels (Sections doc) repoRoot i = Some (rel_dir_of relPath))
       (ranged (Sections doc))"

definition all_entries :: "Document \<Rightarrow> Entry list" where
  "all_entries doc = concat (map Entries (Sections doc))"

definition FindEntry :: "Document \<Rightarrow> string \<Rightarrow> Entry option" where
  "FindEntry doc relPath =
     find (\<lambda>e. RelPath e \<noteq> [] \<and> RelPath e = replace_all relPath [CHR 0x5C] slash) (all_entries doc)"

definition FindEntriesByFilename :: "Document \<Rightarrow> string \<Rightarrow> Entry list" where
  "FindEntriesByFilename doc filename =
     filter (\<lambda>e. trim_suffix (Filename e) slash = trim_suffix filename slash) (all_entries doc)"

section \<open>Relative directories\<close>

lemma relUnder_iff:
  "relUnder p base = Some r \<longleftrightarrow> base \<noteq> [] \<and> ((p = base \<and> r = []) \<or> (p \<noteq> base \<and> p = base @ slash @ r))"
proof
  assume a: "relUnder p base = Some r"
  then have "base \<noteq> []" by (auto simp: relUnder_def split: if_splits)
  moreover have "(p = base \<and> r = []) \<or> (p \<noteq> base \<and> p = (base @ slash) @ r)"
    using a trim_prefix_append [of "base @ slash"]
    by (simp only: relUnder_def has_prefix_iff split: if_splits) auto
  ultimately show "base \<noteq> [] \<and> ((p = base \<and> r = []) \<or> (p \<noteq> base \<and> p = base @ slash @ r))" by simp
next
  assume "base \<noteq> [] \<and> ((p = base \<and> r = []) \<or> (p \<noteq> base \<and> p = base @ slash @ r))"
  then consider "base \<noteq> []" "p = base" "r = []" | "base \<noteq> []" "p \<noteq> base" "p = (base @ slash) @ r" by auto
  then show "relUnder p base = Some r"
    by cases (simp_all only: relUnder_def if_True if_False has_prefix_append trim_prefix_append simp_thms)
qed

lemma relUnder_self [simp]: "base \<noteq> [] \<Longrightarrow> relUnder base base = Some []"
  by (simp add: relUnder_iff)

lemma relUnder_below: "base \<noteq> [] \<Longrightarrow> relUnder (base @ slash @ r) base = Some r"
  unfolding relUnder_iff by simp

lemma common_levels_prefix:
  "\<exists>us vs. xs = common_levels xs ys @ us \<and> ys = common_levels xs ys @ vs"
  by (induction xs ys rule: common_levels.induct) auto

lemma common_levels_extend: "common_levels (zs @ xs) (zs @ ys) = zs @ common_levels xs ys"
  by (induction zs) auto

lemma common_of_rest_prefix:
  assumes "common_of_rest parts secs pathOf = ps" "ps \<noteq> []"
  shows "\<exists>us. parts = ps @ us"
    and "\<forall>(i, sec) \<in> set secs. \<exists>us. str_split (normalizeRootPath (pathOf sec)) slash = ps @ us"
  using assms
proof (induction parts secs pathOf rule: common_of_rest.induct)
  case (2 parts i sec rest pathOf)
  let ?q = "str_split (normalizeRootPath (pathOf sec)) slash"
  let ?c = "common_levels parts ?q"
  {
    case 1
    then have c: "?c \<noteq> []" "common_of_rest ?c rest pathOf = ps"
      by (auto simp: Let_def split: if_splits)
    then obtain us where "?c = ps @ us" using "2.IH"(1) [OF refl c(1) c(2)] 1 by blast
    then show ?case using common_levels_prefix [of parts ?q] by (metis append.assoc)
  next
    case 2
    then have c: "?c \<noteq> []" "common_of_rest ?c rest pathOf = ps"
      by (auto simp: Let_def split: if_splits)
    then obtain us where u: "?c = ps @ us" using "2.IH"(1) [OF refl c(1) c(2)] 2 by blast
    have "\<exists>us. ?q = ps @ us" using u common_levels_prefix [of parts ?q] by (metis append.assoc)
    then show ?case using "2.IH"(2) [OF refl c(1) c(2)] 2 by auto
  }
qed auto

text \<open>Every section of the set lies at or below the common prefix.\<close>

lemma split_prefix_relUnder:
  assumes "str_split q slash = ps @ us" "ps \<noteq> []" "str_join ps slash \<noteq> []"
  shows "relUnder q (str_join ps slash) \<noteq> None"
proof -
  have q: "q = str_join (ps @ us) slash" using str_join_split [of slash q] assms(1) by simp
  show ?thesis
  proof (cases "us = []")
    case True
    then show ?thesis using q assms(3) by simp
  next
    case False
    then have "q = str_join ps slash @ slash @ str_join us slash"
      using q assms(2) by (simp add: str_join_append)
    then show ?thesis using relUnder_below [OF assms(3)] by simp
  qed
qed

lemma commonDirPrefixOf_relUnder:
  assumes "commonDirPrefixOf secs pathOf \<noteq> []" "(i, sec) \<in> set secs"
  shows "relUnder (normalizeRootPath (pathOf sec)) (commonDirPrefixOf secs pathOf) \<noteq> None"
proof -
  obtain j s0 rest where secs: "secs = (j, s0) # rest"
    using assms(2) by (metis list.set_cases surj_pair)
  let ?parts = "common_of_rest (str_split (normalizeRootPath (pathOf s0)) slash) rest pathOf"
  have c: "commonDirPrefixOf secs pathOf = str_join ?parts slash" "?parts \<noteq> []" "str_join ?parts slash \<noteq> []"
    using assms(1) unfolding secs by (auto simp: commonDirPrefixOf_def Let_def split: if_splits)
  have "\<exists>us. str_split (normalizeRootPath (pathOf sec)) slash = ?parts @ us"
    using assms(2) common_of_rest_prefix [OF refl c(2)] unfolding secs by auto
  then show ?thesis unfolding c(1) using split_prefix_relUnder c by blast
qed

text \<open>Relocation as a map over the sections.\<close>

lemma relocateExtended_foldl:
  assumes "prefix \<noteq> []"
  shows "foldl (\<lambda>(out, hasRoot) (i, sec).
             (case relUnder (normalizeRootPath (AbsPath sec)) prefix of
                Some r \<Rightarrow> (out(i \<mapsto> \<lparr>rel = r, legacy = False\<rparr>), hasRoot \<or> r = [])
              | None \<Rightarrow> (out, hasRoot))) (out0, h0) missed = (out, h) \<Longrightarrow>
     distinct (map fst missed) \<Longrightarrow>
     (\<forall>(i, sec) \<in> set missed. relUnder (normalizeRootPath (AbsPath sec)) prefix \<noteq> None) \<Longrightarrow>
     (\<forall>(i, sec) \<in> set missed. out i = map_option (\<lambda>r. \<lparr>rel = r, legacy = False\<rparr>)
        (relUnder (normalizeRootPath (AbsPath sec)) prefix)) \<and>
     (\<forall>i. i \<notin> fst ` set missed \<longrightarrow> out i = out0 i) \<and>
     (h \<longleftrightarrow> h0 \<or> (\<exists>(i, sec) \<in> set missed. normalizeRootPath (AbsPath sec) = prefix))"
proof (induction missed arbitrary: out0 h0)
  case (Cons m missed)
  obtain i sec where m: "m = (i, sec)" by (cases m)
  let ?p = "normalizeRootPath (AbsPath sec)"
  obtain r where r: "relUnder ?p prefix = Some r" using Cons.prems(3) m by auto
  have ih: "(\<forall>(i, sec) \<in> set missed. out i = map_option (\<lambda>r. \<lparr>rel = r, legacy = False\<rparr>)
        (relUnder (normalizeRootPath (AbsPath sec)) prefix)) \<and>
     (\<forall>j. j \<notin> fst ` set missed \<longrightarrow> out j = (out0(i \<mapsto> \<lparr>rel = r, legacy = False\<rparr>)) j) \<and>
     (h \<longleftrightarrow> (h0 \<or> r = []) \<or> (\<exists>(i, sec) \<in> set missed. normalizeRootPath (AbsPath sec) = prefix))"
    by (rule Cons.IH) (use Cons.prems r m in \<open>simp_all only: foldl_Cons case_prod_conv option.case
        list.map distinct.simps list.set, simp_all\<close>)
  have ni: "i \<notin> fst ` set missed" using Cons.prems(2) m by simp
  then have oi: "out i = Some \<lparr>rel = r, legacy = False\<rparr>" using ih by simp
  have root: "r = [] \<longleftrightarrow> ?p = prefix"
    using r assms normalizeRootPath_no_slash [of "AbsPath sec" prefix] unfolding relUnder_iff by auto
  show ?case using ih oi r root ni unfolding m by auto
qed simp

lemma directories_distinct: "distinct (map fst (directories secs))"
  unfolding directories_def using distinct_fst_ranged distinct_map_filter by blast

text \<open>
  When nothing lies under the checkout's root and the first directory section reads the same both
  ways, only relocation is left, and it places every section.
\<close>

lemma directPass_all_miss:
  assumes "\<forall>(i, sec) \<in> set dirs. relUnder (normalizeRootPath (AbsPath sec)) root = None"
  shows "directPass dirs root = (Map.empty, dirs)"
proof -
  have "foldl (\<lambda>(rds, missed) (i, sec).
        (case relUnder (normalizeRootPath (AbsPath sec)) root of
           Some r \<Rightarrow> (rds(i \<mapsto> \<lparr>rel = r, legacy = False\<rparr>), missed)
         | None \<Rightarrow> (rds, missed @ [(i, sec)]))) (Map.empty, ms) dirs = (Map.empty, ms @ dirs)" for ms
    using assms by (induction dirs arbitrary: ms) auto
  then show ?thesis by (simp add: directPass_def)
qed

lemma first_in_directories: "firstDirectorySection secs = Some d \<Longrightarrow> d \<in> set (directories secs)"
  by (auto simp: firstDirectorySection_def split: list.splits)

lemma resolve_all_miss:
  assumes miss: "\<forall>(i, sec) \<in> set (directories secs).
      relUnder (normalizeRootPath (AbsPath sec)) (normalizeRootPath root) = None"
  shows "resolveSectionReadings secs root =
    (case oldWriterReadings (directories secs) (firstDirectorySection secs) of
       Some rds \<Rightarrow> rds
     | None \<Rightarrow> if directories secs = [] then Map.empty
               else fst (relocateExtended (directories secs)))"
proof (cases "oldWriterReadings (directories secs) (firstDirectorySection secs)")
  case None
  let ?dirs = "directories secs" and ?first = "firstDirectorySection secs"
  have n: "nestedWorktree ?dirs ?first (normalizeRootPath root) = None"
    using miss first_in_directories
    by (fastforce simp: nestedWorktree_def split: option.splits)
  have d: "directPass ?dirs (normalizeRootPath root) = (Map.empty, ?dirs)"
    using miss by (rule directPass_all_miss)
  have h: "healPass Map.empty ?dirs ?first (normalizeRootPath root) = (Map.empty, ?dirs)"
    by (auto simp: healPass_def Let_def split: option.splits)
  show ?thesis unfolding resolveSectionReadings_def Let_def None n d option.case prod.case
    using h None by (auto split: prod.splits)
next
  case (Some rds)
  then show ?thesis by (simp add: resolveSectionReadings_def Let_def)
qed

lemma oldWriter_loop_first_same:
  assumes "(fi, fsec) \<in> set secs" "distinct (map fst secs)"
    and "normalizeRootPath (LegacyAbsPath fsec) = normalizeRootPath (AbsPath fsec)"
  shows "oldWriter_loop secs fi prefix out b = None"
  using assms
proof (induction secs arbitrary: out b)
  case (Cons s secs)
  obtain i sec where s: "s = (i, sec)" by (cases s)
  show ?case
  proof (cases "i = fi")
    case True
    then have "sec = fsec" using Cons.prems s by (auto simp: rev_image_eqI)
    then show ?thesis using True s Cons.prems(3) by (simp add: Let_def)
  next
    case False
    then have "(fi, fsec) \<in> set secs" "distinct (map fst secs)" using Cons.prems s by auto
    then show ?thesis using Cons s False by (simp add: Let_def split: option.split)
  qed
qed simp

lemma oldWriterReadings_first_same:
  assumes "firstDirectorySection secs = Some (fi, fsec)"
    and "normalizeRootPath (LegacyAbsPath fsec) = normalizeRootPath (AbsPath fsec)"
  shows "oldWriterReadings (directories secs) (firstDirectorySection secs) = None"
  using oldWriter_loop_first_same [OF first_in_directories [OF assms(1)] directories_distinct assms(2)]
  by (simp add: oldWriterReadings_def assms(1) Let_def)

text \<open>
  The root of a family is its common prefix as soon as one section sits at the root.
\<close>

lemma common_of_rest_root:
  assumes "ps \<noteq> []" "parts = ps @ us"
    and "\<forall>(i, sec) \<in> set secs. \<exists>vs. str_split (normalizeRootPath (pathOf sec)) slash = ps @ vs"
    and "us = [] \<or> (\<exists>(i, sec) \<in> set secs. str_split (normalizeRootPath (pathOf sec)) slash = ps)"
  shows "common_of_rest parts secs pathOf = ps"
  using assms
proof (induction parts secs pathOf arbitrary: us rule: common_of_rest.induct)
  case (2 parts i sec rest pathOf)
  let ?q = "str_split (normalizeRootPath (pathOf sec)) slash"
  obtain vs where vs: "?q = ps @ vs" using "2.prems" by auto
  have c: "common_levels parts ?q = ps @ common_levels us vs"
    unfolding "2.prems"(2) vs by (rule common_levels_extend)
  have "common_levels us vs = [] \<or> (\<exists>(i, sec) \<in> set rest. str_split (normalizeRootPath (pathOf sec)) slash = ps)"
  proof (cases "us = [] \<or> vs = []")
    case True
    then show ?thesis by (cases us; cases vs) auto
  next
    case False
    then have "?q \<noteq> ps" using vs by simp
    then show ?thesis using "2.prems"(4) False by auto
  qed
  then have "common_of_rest (ps @ common_levels us vs) rest pathOf = ps"
    using "2.IH" [OF refl, unfolded c] "2.prems" by auto
  then show ?case using c "2.prems"(1) by (simp add: Let_def)
qed auto

lemma commonDirPrefixOf_root:
  assumes "\<forall>(i, sec) \<in> set secs. normalizeRootPath (pathOf sec) = R \<or>
      (\<exists>d. normalizeRootPath (pathOf sec) = R @ slash @ d)"
    and "\<exists>(i, sec) \<in> set secs. normalizeRootPath (pathOf sec) = R"
    and "R \<noteq> []" "R \<noteq> slash"
  shows "commonDirPrefixOf secs pathOf = R"
proof -
  let ?sp = "\<lambda>sec. str_split (normalizeRootPath (pathOf sec)) slash"
  let ?ps = "str_split R slash"
  have ext: "str_split (R @ slash @ d) slash = ?ps @ str_split d slash" for d
  proof -
    have "str_join (?ps @ str_split d slash) slash = R @ slash @ d"
      by (simp add: str_join_append str_join_split)
    moreover have "\<forall>x \<in> set (?ps @ str_split d slash). CHR ''/'' \<notin> set x"
      using str_split_char_no_sep by auto
    ultimately show ?thesis using str_split_join [of "?ps @ str_split d slash" "CHR ''/''"] by simp
  qed
  obtain j s0 rest where secs: "secs = (j, s0) # rest"
    using assms(2) by (cases secs) (auto simp: case_prod_unfold)
  have all: "\<exists>vs. ?sp sec = ?ps @ vs" if "(i, sec) \<in> set secs" for i sec
    using assms(1) that ext by fastforce
  obtain us where us: "?sp s0 = ?ps @ us" using all [of j s0] secs by auto
  have root: "us = [] \<or> (\<exists>(i, sec) \<in> set rest. ?sp sec = ?ps)"
    using assms(2) us unfolding secs by auto
  have rest: "\<forall>(i, sec) \<in> set rest. \<exists>vs. ?sp sec = ?ps @ vs" using all secs by auto
  have "common_of_rest (?sp s0) rest pathOf = ?ps"
    by (rule common_of_rest_root [OF str_split_nonempty us rest root])
  moreover have "str_join ?ps slash = R" by (rule str_join_split) simp
  ultimately show ?thesis using assms(3,4) by (simp add: commonDirPrefixOf_def secs Let_def)
qed

text \<open>Everything a relocated family needs to resolve.\<close>

lemma relocateExtended_rooted:
  assumes "\<forall>(i, sec) \<in> set dirs. normalizeRootPath (AbsPath sec) = R \<or>
      (\<exists>d. normalizeRootPath (AbsPath sec) = R @ slash @ d)"
    and "\<exists>(i, sec) \<in> set dirs. normalizeRootPath (AbsPath sec) = R"
    and "R \<noteq> []" "R \<noteq> slash" "distinct (map fst dirs)" "(i, sec) \<in> set dirs"
  shows "fst (relocateExtended dirs) i =
    map_option (\<lambda>r. \<lparr>rel = r, legacy = False\<rparr>) (relUnder (normalizeRootPath (AbsPath sec)) R)"
proof -
  have p: "commonDirPrefixOf dirs AbsPath = R" by (rule commonDirPrefixOf_root [OF assms(1-4)])
  have u: "\<forall>(i, sec) \<in> set dirs. relUnder (normalizeRootPath (AbsPath sec)) R \<noteq> None"
    using commonDirPrefixOf_relUnder [of dirs AbsPath] p assms(3) by auto
  obtain out h where e: "relocateExtended dirs = (out, h)" by fastforce
  have "out i = map_option (\<lambda>r. \<lparr>rel = r, legacy = False\<rparr>) (relUnder (normalizeRootPath (AbsPath sec)) R)"
    using relocateExtended_foldl [OF assms(3) _ assms(5) u, of Map.empty False out h] e assms(3,6)
    unfolding relocateExtended_def Let_def p by auto
  then show ?thesis by (simp add: e)
qed

end
