(* ===== verification/Index_Parser.thy ===== *)
theory Index_Parser
  imports Index_Resolve
begin

text \<open>
  \<open>index.Parse\<close>: one pass over the lines of an index text. The parser's local variables are the
  record \<open>pstate\<close>; the section being collected (\<open>current\<close>) is always the last one of the document.
  The invariants proved here are what every editor relies on: no line is dropped, and the line
  numbers of sections and entries are the positions of their lines.
\<close>

section \<open>Warnings\<close>

text \<open>The two warnings of the parser; the texts are replaced by their interpolated values.\<close>

datatype warning_msg = SuspectEntry string | DuplicateEntry nat string

record Warning =
  WarnLine :: nat
  WarnMsg :: warning_msg

text \<open>\<open>strings.ToValidUTF8(s, U+FFFD)\<close>: each run of invalid bytes becomes one replacement rune.\<close>

function toValidUTF8 :: "bool \<Rightarrow> string \<Rightarrow> string" where
  "toValidUTF8 inRun s =
     (if s = [] then []
      else if 1 < snd (decode_rune s) \<or> byte (hd s) < 128
      then take (snd (decode_rune s)) s @ toValidUTF8 False (drop (snd (decode_rune s)) s)
      else (if inRun then [] else encode_rune RuneError) @ toValidUTF8 True (drop (snd (decode_rune s)) s))"
  by pat_completeness auto
termination
proof (relation "measure (length \<circ> snd)")
  fix b :: bool and s :: string
  assume "s \<noteq> []"
  then show "((False, drop (snd (decode_rune s)) s), (b, s)) \<in> measure (length \<circ> snd)"
    and "((True, drop (snd (decode_rune s)) s), (b, s)) \<in> measure (length \<circ> snd)"
    using decode_rune_width_pos [of s] by (cases s; simp)+
qed simp

declare toValidUTF8.simps [simp del]

definition truncateForWarn :: "string \<Rightarrow> string" where
  "truncateForWarn line =
     (if length (runes line) \<le> 60 then line
      else of_runes (take 60 (runes line)) @ encode_rune 8230)"

fun validMsg :: "warning_msg \<Rightarrow> warning_msg" where
  "validMsg (SuspectEntry t) = SuspectEntry (toValidUTF8 False t)"
| "validMsg (DuplicateEntry n f) = DuplicateEntry n (toValidUTF8 False f)"

definition newWarning :: "nat \<Rightarrow> warning_msg \<Rightarrow> Warning" where
  "newWarning lineNo msg = \<lparr>WarnLine = lineNo, WarnMsg = validMsg msg\<rparr>"

section \<open>The parser\<close>

record pstate =
  psHeader :: "string list"
  psSections :: "Section list"
  psInHeader :: bool
  psSeen :: "string \<Rightarrow> nat option"
  psSeenInFirst :: "string \<Rightarrow> nat option"
  psWarnings :: "Warning list"
  psAcross :: "Warning list"

definition init_pstate :: pstate where
  "init_pstate = \<lparr>psHeader = [], psSections = [], psInHeader = True, psSeen = Map.empty,
     psSeenInFirst = Map.empty, psWarnings = [], psAcross = []\<rparr>"

text \<open>The section a \<open>===...===\<close> line opens.\<close>

definition new_section :: "string \<Rightarrow> nat \<Rightarrow> Section" where
  "new_section line lineNo =
     (case matchDirHeader line of
        Some (name, legacyPath, absPath) \<Rightarrow>
          \<lparr>SecName = name, AbsPath = absPath, LegacyAbsPath = legacyPath, HeaderLine = line,
           Entries = [], RawLines = [line], StartLine = lineNo\<rparr>
      | None \<Rightarrow>
          \<lparr>SecName = trim_chars line [CHR ''='', CHR '' '', TAB], AbsPath = [], LegacyAbsPath = [],
           HeaderLine = line, Entries = [], RawLines = [line], StartLine = lineNo\<rparr>)"

definition is_comment_or_blank :: "string \<Rightarrow> bool" where
  "is_comment_or_blank line \<longleftrightarrow> trim_space line = [] \<or> has_prefix (trim_space line) ''#''"

text \<open>The key of the duplicate check: section path, NUL, file name.\<close>

definition dup_key :: "Section \<Rightarrow> string \<Rightarrow> string" where
  "dup_key sec filename = AbsPath sec @ [CHR 0x00] @ filename"

text \<open>\<open>current == firstDirectorySection(doc) \<and> current.LegacyAbsPath != current.AbsPath\<close>.\<close>

definition twoReadings :: "Section list \<Rightarrow> bool" where
  "twoReadings secs \<longleftrightarrow>
     (case firstDirectorySection secs of
        None \<Rightarrow> False
      | Some (i, sec) \<Rightarrow> i = length secs - 1 \<and> LegacyAbsPath sec \<noteq> AbsPath sec)"

definition on_last :: "(Section \<Rightarrow> Section) \<Rightarrow> Section list \<Rightarrow> Section list" where
  "on_last f secs = (case rev secs of [] \<Rightarrow> [] | s # r \<Rightarrow> rev r @ [f s])"

definition add_raw :: "string \<Rightarrow> Section \<Rightarrow> Section" where
  "add_raw line sec = sec\<lparr>RawLines := RawLines sec @ [line]\<rparr>"

definition add_entry :: "Entry \<Rightarrow> Section \<Rightarrow> Section" where
  "add_entry e sec = sec\<lparr>Entries := Entries sec @ [e]\<rparr>"

text \<open>The duplicate bookkeeping for one extracted Entry.\<close>

definition note_duplicate :: "pstate \<Rightarrow> Section \<Rightarrow> Entry \<Rightarrow> nat \<Rightarrow> pstate" where
  "note_duplicate st cur e lineNo =
     (let key = dup_key cur (Filename e);
          dup = (\<lambda>prev. newWarning lineNo (DuplicateEntry prev (Filename e))) in
      if twoReadings (psSections st) then
        (case psSeenInFirst st key of
           Some prev \<Rightarrow> st\<lparr>psWarnings := psWarnings st @ [dup prev]\<rparr>
         | None \<Rightarrow> st\<lparr>psSeenInFirst := (psSeenInFirst st)(key \<mapsto> lineNo)\<rparr>)
      else
        (case psSeen st key of
           Some prev \<Rightarrow> st\<lparr>psWarnings := psWarnings st @ [dup prev]\<rparr>
         | None \<Rightarrow>
             let st' = st\<lparr>psSeen := (psSeen st)(key \<mapsto> lineNo)\<rparr> in
             (case psSeenInFirst st key of
                Some prev \<Rightarrow> st'\<lparr>psAcross := psAcross st @ [dup prev]\<rparr>
              | None \<Rightarrow> st')))"

definition parse_line :: "pstate \<Rightarrow> nat \<times> string \<Rightarrow> pstate" where
  "parse_line st il =
     (case il of (i, line) \<Rightarrow>
      let lineNo = i + 1 in
      if is_boundary line then
        st\<lparr>psInHeader := False, psSections := psSections st @ [new_section line lineNo]\<rparr>
      else if psInHeader st then st\<lparr>psHeader := psHeader st @ [line]\<rparr>
      else
        let st1 = st\<lparr>psSections := on_last (add_raw line) (psSections st)\<rparr> in
        if is_comment_or_blank line then st1
        else if psSections st1 = [] \<or> AbsPath (last (psSections st1)) = [] then st1
        else
          (case matchEntryLine line of
             None \<Rightarrow>
               if str_contains line ''['' \<and> str_contains line '']:''
               then st1\<lparr>psWarnings := psWarnings st1 @
                        [newWarning lineNo (SuspectEntry (truncateForWarn line))]\<rparr>
               else st1
           | Some m \<Rightarrow>
               let e = entry_of_match line lineNo m;
                   st2 = note_duplicate st1 (last (psSections st1)) e lineNo
               in st2\<lparr>psSections := on_last (add_entry e) (psSections st2)\<rparr>))"

definition parse_lines :: "string list \<Rightarrow> pstate" where
  "parse_lines lines = foldl parse_line init_pstate (ranged lines)"

definition Parse :: "string \<Rightarrow> Document \<times> Warning list" where
  "Parse text =
     (let normalized = fold_crlf (stripBOM text);
          st = parse_lines (str_split normalized [LF]);
          doc = \<lparr>HeaderLines = psHeader st, Sections = psSections st, RawText = normalized\<rparr>;
          across = (if psAcross st \<noteq> [] \<and>
                       oldWriterReadings (directories (psSections st))
                         (firstDirectorySection (psSections st)) = None
                    then psAcross st else [])
      in (doc, psWarnings st @ across))"

section \<open>What a line does to the sections\<close>

lemma on_last_snoc [simp]: "on_last f (secs @ [s]) = secs @ [f s]"
  by (simp add: on_last_def)

lemma on_last_Nil [simp]: "on_last f [] = []"
  by (simp add: on_last_def)

lemma note_duplicate_frame [simp]:
  "psSections (note_duplicate st cur e n) = psSections st"
  "psHeader (note_duplicate st cur e n) = psHeader st"
  "psInHeader (note_duplicate st cur e n) = psInHeader st"
  by (auto simp: note_duplicate_def Let_def split: option.splits)

text \<open>The Entry a line contributes to the current section, if any.\<close>

definition line_entry :: "Section \<Rightarrow> nat \<Rightarrow> string \<Rightarrow> Entry option" where
  "line_entry cur lineNo line =
     (if is_comment_or_blank line \<or> AbsPath cur = [] then None
      else map_option (entry_of_match line lineNo) (matchEntryLine line))"

definition extend_section :: "nat \<Rightarrow> string \<Rightarrow> Section \<Rightarrow> Section" where
  "extend_section lineNo line sec =
     (let s1 = add_raw line sec in
      case line_entry sec lineNo line of None \<Rightarrow> s1 | Some e \<Rightarrow> add_entry e s1)"

lemma add_frame [simp]:
  "AbsPath (add_raw l s) = AbsPath s" "LegacyAbsPath (add_raw l s) = LegacyAbsPath s"
  "StartLine (add_raw l s) = StartLine s" "HeaderLine (add_raw l s) = HeaderLine s"
  "Entries (add_raw l s) = Entries s" "RawLines (add_raw l s) = RawLines s @ [l]"
  "AbsPath (add_entry e s) = AbsPath s" "LegacyAbsPath (add_entry e s) = LegacyAbsPath s"
  "StartLine (add_entry e s) = StartLine s" "HeaderLine (add_entry e s) = HeaderLine s"
  "Entries (add_entry e s) = Entries s @ [e]" "RawLines (add_entry e s) = RawLines s"
  by (simp_all add: add_raw_def add_entry_def)

lemma extend_section_frame [simp]:
  "AbsPath (extend_section n l s) = AbsPath s" "LegacyAbsPath (extend_section n l s) = LegacyAbsPath s"
  "StartLine (extend_section n l s) = StartLine s" "HeaderLine (extend_section n l s) = HeaderLine s"
  "RawLines (extend_section n l s) = RawLines s @ [l]"
  "Entries (extend_section n l s) =
     Entries s @ (case line_entry s n l of None \<Rightarrow> [] | Some e \<Rightarrow> [e])"
  by (simp_all add: extend_section_def Let_def split: option.splits)

text \<open>One line, seen through the three observable components.\<close>

lemma parse_line_boundary:
  assumes "is_boundary line"
  shows "psSections (parse_line st (i, line)) = psSections st @ [new_section line (Suc i)]"
    and "psHeader (parse_line st (i, line)) = psHeader st"
    and "\<not> psInHeader (parse_line st (i, line))"
  using assms by (simp_all add: parse_line_def)

lemma parse_line_header:
  assumes "\<not> is_boundary line" "psInHeader st"
  shows "psSections (parse_line st (i, line)) = psSections st"
    and "psHeader (parse_line st (i, line)) = psHeader st @ [line]"
    and "psInHeader (parse_line st (i, line))"
  using assms by (simp_all add: parse_line_def)

lemma parse_line_section:
  assumes "\<not> is_boundary line" "\<not> psInHeader st" "psSections st = secs @ [sec]"
  shows "psSections (parse_line st (i, line)) = secs @ [extend_section (Suc i) line sec]"
    and "psHeader (parse_line st (i, line)) = psHeader st"
    and "\<not> psInHeader (parse_line st (i, line))"
  using assms
  by (auto simp: parse_line_def Let_def extend_section_def line_entry_def split: option.splits)

lemmas parse_line_simps = parse_line_boundary parse_line_header parse_line_section

section \<open>The invariant\<close>

text \<open>
  After the lines \<open>ls\<close>: the header and the raw lines of the sections, in order, are exactly these
  lines; each section starts where its header stands; each Entry is the Entry of its own line,
  stands inside its section, and only directory sections hold entries.
\<close>

definition entry_ok :: "string list \<Rightarrow> Section \<Rightarrow> Entry \<Rightarrow> bool" where
  "entry_ok ls sec e \<longleftrightarrow>
     StartLine sec < LineNo e \<and> LineNo e < StartLine sec + length (RawLines sec) \<and>
     LineNo e \<le> length ls \<and> FullLine e = ls ! (LineNo e - 1) \<and> RelPath e = [] \<and>
     \<not> is_comment_or_blank (FullLine e) \<and>
     (\<exists>m. matchEntryLine (FullLine e) = Some m \<and> e = entry_of_match (FullLine e) (LineNo e) m)"

definition section_ok :: "string list \<Rightarrow> Section \<Rightarrow> bool" where
  "section_ok ls sec \<longleftrightarrow>
     1 \<le> StartLine sec \<and> RawLines sec \<noteq> [] \<and> hd (RawLines sec) = HeaderLine sec \<and>
     StartLine sec - 1 + length (RawLines sec) \<le> length ls \<and>
     take (length (RawLines sec)) (drop (StartLine sec - 1) ls) = RawLines sec \<and>
     is_boundary (HeaderLine sec) \<and> (\<forall>l \<in> set (tl (RawLines sec)). \<not> is_boundary l) \<and>
     (AbsPath sec = [] \<longrightarrow> Entries sec = []) \<and>
     (\<forall>e \<in> set (Entries sec). entry_ok ls sec e) \<and>
     sorted_wrt (\<lambda>a b. LineNo a < LineNo b) (Entries sec)"

definition parsed_ok :: "string list \<Rightarrow> string list \<Rightarrow> Section list \<Rightarrow> bool" where
  "parsed_ok ls hdr secs \<longleftrightarrow>
     ls = hdr @ concat (map RawLines secs) \<and> (\<forall>l \<in> set hdr. \<not> is_boundary l) \<and>
     (\<forall>sec \<in> set secs. section_ok ls sec) \<and>
     (\<forall>i < length secs. StartLine (secs ! i) =
        Suc (length hdr + length (concat (map RawLines (take i secs)))))"

lemma entry_of_match_fields [simp]:
  "FullLine (entry_of_match line n m) = line" "LineNo (entry_of_match line n m) = n"
  "RelPath (entry_of_match line n m) = []"
  by (auto simp: entry_of_match_def split: prod.splits)

lemma entry_ok_snoc:
  "entry_ok ls sec e \<Longrightarrow> entry_ok (ls @ [l]) sec e"
  by (cases "LineNo e") (auto simp: entry_ok_def nth_append)

lemma section_ok_snoc: "section_ok ls sec \<Longrightarrow> section_ok (ls @ [l]) sec"
  unfolding section_ok_def by (auto simp: entry_ok_snoc)

lemma new_section_fields [simp]:
  "StartLine (new_section l n) = n" "RawLines (new_section l n) = [l]" "Entries (new_section l n) = []"
  "HeaderLine (new_section l n) = l"
  by (auto simp: new_section_def split: option.splits)

lemma section_ok_new: "is_boundary l \<Longrightarrow> section_ok (ls @ [l]) (new_section l (Suc (length ls)))"
  by (simp add: section_ok_def)

lemma section_ok_extend:
  assumes ok: "section_ok ls sec" and nb: "\<not> is_boundary l"
    and tail: "StartLine sec - 1 + length (RawLines sec) = length ls"
  shows "section_ok (ls @ [l]) (extend_section (Suc (length ls)) l sec)"
proof -
  let ?s = "extend_section (Suc (length ls)) l sec"
  have raw: "RawLines sec \<noteq> []" and st: "1 \<le> StartLine sec" using ok by (auto simp: section_ok_def)
  have old: "entry_ok (ls @ [l]) ?s e" if "e \<in> set (Entries sec)" for e
  proof -
    have "entry_ok ls sec e" using ok that by (auto simp: section_ok_def)
    then have "entry_ok (ls @ [l]) sec e" by (rule entry_ok_snoc)
    then show ?thesis by (auto simp: entry_ok_def)
  qed
  have new: "entry_ok (ls @ [l]) ?s e \<and> LineNo e = Suc (length ls) \<and> AbsPath sec \<noteq> []"
    if e: "line_entry sec (Suc (length ls)) l = Some e" for e
  proof -
    obtain m where m: "matchEntryLine l = Some m" "e = entry_of_match l (Suc (length ls)) m"
      and c: "\<not> is_comment_or_blank l" "AbsPath sec \<noteq> []"
      using e by (auto simp: line_entry_def split: if_splits)
    have "StartLine sec < Suc (length ls)" "Suc (length ls) < StartLine sec + Suc (length (RawLines sec))"
      using tail st raw by (cases "RawLines sec"; simp)+
    then show ?thesis using m c by (auto simp: entry_ok_def)
  qed
  have lt: "LineNo e < Suc (length ls)" if "e \<in> set (Entries sec)" for e
    using ok that by (auto simp: section_ok_def entry_ok_def)
  have "take (Suc (length (RawLines sec))) (drop (StartLine sec - 1) (ls @ [l])) = RawLines sec @ [l]"
  proof -
    have "drop (StartLine sec - 1) (ls @ [l]) = drop (StartLine sec - 1) ls @ [l]"
      using tail by simp
    moreover have "length (drop (StartLine sec - 1) ls) = length (RawLines sec)" using tail by simp
    moreover have "drop (StartLine sec - 1) ls = RawLines sec"
      using ok calculation(2) by (auto simp: section_ok_def)
    ultimately show ?thesis by simp
  qed
  then show ?thesis
    using ok nb old new lt tail raw
    unfolding section_ok_def
    by (auto simp: sorted_wrt_append split: option.splits)
qed

lemma parsed_ok_section: "parsed_ok ls hdr secs \<Longrightarrow> sec \<in> set secs \<Longrightarrow> section_ok ls sec"
  unfolding parsed_ok_def by blast

lemma parsed_ok_tail:
  assumes "parsed_ok ls hdr (secs @ [sec])"
  shows "StartLine sec - 1 + length (RawLines sec) = length ls"
proof -
  have "StartLine ((secs @ [sec]) ! length secs) =
      Suc (length hdr + length (concat (map RawLines (take (length secs) (secs @ [sec])))))"
    using assms unfolding parsed_ok_def by (metis lessI length_append_singleton)
  then show ?thesis using assms by (auto simp: parsed_ok_def)
qed

lemma parsed_ok_step:
  assumes ok: "parsed_ok ls (psHeader st) (psSections st)"
    and hdr: "psInHeader st \<longleftrightarrow> psSections st = []"
  shows "parsed_ok (ls @ [l]) (psHeader (parse_line st (length ls, l))) (psSections (parse_line st (length ls, l)))"
    and "psInHeader (parse_line st (length ls, l)) \<longleftrightarrow> psSections (parse_line st (length ls, l)) = []"
proof -
  let ?st' = "parse_line st (length ls, l)"
  consider (b) "is_boundary l" | (h) "\<not> is_boundary l" "psInHeader st"
    | (s) "\<not> is_boundary l" "\<not> psInHeader st" by blast
  then have "parsed_ok (ls @ [l]) (psHeader ?st') (psSections ?st') \<and>
      (psInHeader ?st' \<longleftrightarrow> psSections ?st' = [])"
  proof cases
    case b
    have all: "\<forall>sec \<in> set (psSections st). section_ok (ls @ [l]) sec"
      using ok section_ok_snoc unfolding parsed_ok_def by blast
    have len: "length ls = length (psHeader st) + length (concat (map RawLines (psSections st)))"
      using ok unfolding parsed_ok_def by (metis length_append)
    have starts: "\<forall>i < Suc (length (psSections st)).
        StartLine ((psSections st @ [new_section l (Suc (length ls))]) ! i) =
        Suc (length (psHeader st) + length (concat (map RawLines (take i (psSections st @ [new_section l (Suc (length ls))])))))"
      using ok len unfolding parsed_ok_def by (auto simp: less_Suc_eq nth_append)
    show ?thesis
      using ok all starts section_ok_new [OF b, of ls] parse_line_boundary [OF b, of st "length ls"]
      unfolding parsed_ok_def by auto
  next
    case h
    then have e: "psSections st = []" using hdr by simp
    show ?thesis using ok h e parse_line_header [OF h, of "length ls"] by (auto simp: parsed_ok_def)
  next
    case s
    then obtain secs sec where e: "psSections st = secs @ [sec]"
      using hdr by (metis append_butlast_last_id)
    note p = parse_line_section [OF s e, of "length ls"]
    have ok': "parsed_ok ls (psHeader st) (secs @ [sec])" using ok e by simp
    have t: "StartLine sec - 1 + length (RawLines sec) = length ls"
      using parsed_ok_tail ok' by blast
    have "section_ok ls sec" by (rule parsed_ok_section [OF ok']) simp
    then have "section_ok (ls @ [l]) (extend_section (Suc (length ls)) l sec)"
      using s(1) t by (rule section_ok_extend)
    moreover have "\<forall>x \<in> set secs. section_ok (ls @ [l]) x"
      using ok' section_ok_snoc unfolding parsed_ok_def by (metis Un_iff set_append)
    moreover have "\<forall>i < Suc (length secs). StartLine ((secs @ [extend_section (Suc (length ls)) l sec]) ! i) =
        Suc (length (psHeader st) + length (concat (map RawLines (take i (secs @ [extend_section (Suc (length ls)) l sec])))))"
      using ok' unfolding parsed_ok_def by (auto simp: less_Suc_eq nth_append)
    ultimately show ?thesis using ok' p unfolding parsed_ok_def by auto
  qed
  then show "parsed_ok (ls @ [l]) (psHeader ?st') (psSections ?st')"
    and "psInHeader ?st' \<longleftrightarrow> psSections ?st' = []" by auto
qed

lemma parse_lines_snoc: "parse_lines (ls @ [l]) = parse_line (parse_lines ls) (length ls, l)"
  by (simp add: parse_lines_def ranged_snoc)

lemma parse_lines_ok:
  "parsed_ok ls (psHeader (parse_lines ls)) (psSections (parse_lines ls)) \<and>
   (psInHeader (parse_lines ls) \<longleftrightarrow> psSections (parse_lines ls) = [])"
proof (induction ls rule: rev_induct)
  case Nil
  then show ?case by (simp add: parse_lines_def init_pstate_def parsed_ok_def)
next
  case (snoc l ls)
  then show ?case using parsed_ok_step [of ls "parse_lines ls" l] by (simp add: parse_lines_snoc)
qed

lemmas parse_lines_parsed_ok = parse_lines_ok [THEN conjunct1]

lemma Parse_Sections [simp]: "Sections (fst (Parse text)) = psSections (parse_lines (str_split (fold_crlf (stripBOM text)) [LF]))"
  by (simp add: Parse_def Let_def)

lemma Parse_HeaderLines [simp]: "HeaderLines (fst (Parse text)) = psHeader (parse_lines (str_split (fold_crlf (stripBOM text)) [LF]))"
  by (simp add: Parse_def Let_def)

lemma Parse_RawText [simp]: "RawText (fst (Parse text)) = fold_crlf (stripBOM text)"
  by (simp add: Parse_def Let_def)

end
