(* ===== verification/Index_Lines.thy ===== *)
theory Index_Lines
  imports Index_Parser
begin

text \<open>
  Line-preserving text editing (\<open>splitPreserve\<close>, \<open>joinPreserve\<close> of editor.go). Every editor of the
  index takes a text apart into lines, its newline style and its trailing newline, changes lines,
  and puts the text together again. The locale \<open>line_codec\<close> states what the editors rely on.
\<close>

section \<open>Operations\<close>

definition DetectLineEnding :: "string \<Rightarrow> string" where
  "DetectLineEnding text = (if str_contains text crlf then crlf else [LF])"

definition splitPreserve :: "string \<Rightarrow> string list \<times> string \<times> bool" where
  "splitPreserve text =
     (let eol = DetectLineEnding text;
          normalized = fold_crlf text;
          trailingNL = has_suffix normalized [LF];
          normalized' = (if trailingNL then trim_suffix normalized [LF] else normalized)
      in (str_split normalized' [LF], eol, trailingNL))"

definition joinPreserve :: "string list \<Rightarrow> string \<Rightarrow> bool \<Rightarrow> string" where
  "joinPreserve ls eol trailingNL =
     (let out = str_join ls eol in if trailingNL then out @ eol else out)"

abbreviation lines_of :: "string \<Rightarrow> string list" where
  "lines_of text \<equiv> fst (splitPreserve text)"

section \<open>Folding line by line\<close>

definition ends_cr :: "string \<Rightarrow> bool" where
  "ends_cr l \<longleftrightarrow> l \<noteq> [] \<and> last l = CR"

definition chomp_cr :: "string \<Rightarrow> string" where
  "chomp_cr l = (if ends_cr l then butlast l else l)"

text \<open>The lines that a line feed terminates lose one trailing CR; the last one keeps its bytes.\<close>

definition fold_lines :: "string list \<Rightarrow> string list" where
  "fold_lines ls = map chomp_cr (butlast ls) @ [last ls]"

lemma ends_cr_simps [simp]: "\<not> ends_cr []" "ends_cr (l @ [CR])" "chomp_cr (l @ [CR]) = l" "chomp_cr [] = []"
  by (simp_all add: ends_cr_def chomp_cr_def)

lemma chomp_cr_id: "\<not> ends_cr l \<Longrightarrow> chomp_cr l = l"
  by (simp add: chomp_cr_def)

lemma set_chomp_cr: "set (chomp_cr l) \<subseteq> set l"
  by (auto simp: chomp_cr_def dest: in_set_butlastD)

lemma fold_crlf_no_LF: "LF \<notin> set x \<Longrightarrow> fold_crlf x = x"
  by (rule fold_crlf_id) (auto simp: str_contains_iff)

lemma fold_crlf_line:
  assumes "LF \<notin> set x"
  shows "fold_crlf (x @ LF # s) = chomp_cr x @ LF # fold_crlf s"
  using assms
proof (induction x)
  case (Cons c x)
  show ?case
  proof (cases "c = CR \<and> x = []")
    case False
    then have "\<not> (c = CR \<and> hd (x @ LF # s) = LF)" using Cons.prems by (cases x) auto
    moreover have "chomp_cr (c # x) = c # chomp_cr x"
      using False by (auto simp: chomp_cr_def ends_cr_def)
    ultimately show ?thesis using Cons by (simp add: fold_crlf_Cons)
  qed (simp add: fold_crlf_Cons chomp_cr_def ends_cr_def)
qed (simp add: fold_crlf_Cons)

lemma fold_crlf_join:
  assumes "ls \<noteq> []" "\<forall>l \<in> set ls. LF \<notin> set l"
  shows "fold_crlf (str_join ls [LF]) = str_join (fold_lines ls) [LF]"
  using assms
proof (induction ls)
  case (Cons l ls)
  then show ?case
    by (cases "ls = []")
      (simp_all add: fold_lines_def fold_crlf_no_LF str_join_Cons fold_crlf_line)
qed simp

lemma fold_lines_no_LF: "\<forall>l \<in> set ls. LF \<notin> set l \<Longrightarrow> ls \<noteq> [] \<Longrightarrow> l \<in> set (fold_lines ls) \<Longrightarrow> LF \<notin> set l"
  using set_chomp_cr in_set_butlastD unfolding fold_lines_def by (fastforce simp: subset_iff)

lemma split_fold_crlf: "str_split (fold_crlf s) [LF] = fold_lines (str_split s [LF])"
proof -
  let ?ls = "str_split s [LF]"
  have lf: "\<forall>l \<in> set ?ls. LF \<notin> set l" using str_split_char_no_sep by blast
  have "fold_crlf s = fold_crlf (str_join ?ls [LF])" by (simp add: str_join_split)
  also have "\<dots> = str_join (fold_lines ?ls) [LF]" by (rule fold_crlf_join) (simp_all add: lf)
  finally show ?thesis
    using fold_lines_no_LF [OF lf str_split_nonempty] by (simp add: str_split_join fold_lines_def)
qed

lemma fold_lines_id: "ls \<noteq> [] \<Longrightarrow> \<forall>l \<in> set (butlast ls). \<not> ends_cr l \<Longrightarrow> fold_lines ls = ls"
  by (simp add: fold_lines_def chomp_cr_id cong: map_cong)

lemma str_join_snoc: "xs \<noteq> [] \<Longrightarrow> str_join (xs @ [x]) sep = str_join xs sep @ sep @ x"
  by (simp add: str_join_append)

lemma str_split_snoc_sep: "str_split (s @ [c]) [c] = str_split s [c] @ [[]]"
proof -
  have "str_join (str_split s [c] @ [[]]) [c] = s @ [c]" by (simp add: str_join_snoc str_join_split)
  moreover have "\<forall>x \<in> set (str_split s [c] @ [[]]). c \<notin> set x" using str_split_char_no_sep by auto
  ultimately show ?thesis using str_split_join [of "str_split s [c] @ [[]]" c] by simp
qed

lemma splitPreserve_split:
  assumes "splitPreserve text = (ls, eol, nl)"
  shows "str_split (fold_crlf text) [LF] = ls @ (if nl then [[]] else [])"
    and "eol = DetectLineEnding text" and "nl \<longleftrightarrow> has_suffix (fold_crlf text) [LF]"
proof -
  show e: "eol = DetectLineEnding text" and n: "nl \<longleftrightarrow> has_suffix (fold_crlf text) [LF]"
    using assms by (auto simp: splitPreserve_def Let_def)
  show "str_split (fold_crlf text) [LF] = ls @ (if nl then [[]] else [])"
  proof (cases nl)
    case True
    then obtain t where t: "fold_crlf text = t @ [LF]" using n by (auto simp: has_suffix_iff)
    then have "ls = str_split t [LF]" using assms by (auto simp: splitPreserve_def Let_def)
    then show ?thesis using t True by (simp add: str_split_snoc_sep)
  next
    case False
    then show ?thesis using assms n by (auto simp: splitPreserve_def Let_def)
  qed
qed

section \<open>Legal line lists\<close>

text \<open>
  The line lists whose joined text contains exactly their line breaks, and among them those that
  a text can be taken apart into.
\<close>

definition joinable :: "string \<Rightarrow> bool \<Rightarrow> string list \<Rightarrow> bool" where
  "joinable eol nl ls \<longleftrightarrow>
     ls \<noteq> [] \<and> (eol = [LF] \<or> eol = crlf) \<and> (\<forall>l \<in> set ls. LF \<notin> set l) \<and>
     (eol = [LF] \<longrightarrow> (\<forall>l \<in> set (if nl then ls else butlast ls). \<not> ends_cr l))"

definition legal_lines :: "string \<Rightarrow> bool \<Rightarrow> string list \<Rightarrow> bool" where
  "legal_lines eol nl ls \<longleftrightarrow>
     ls \<noteq> [] \<and> (eol = [LF] \<or> eol = crlf) \<and> (\<forall>l \<in> set ls. LF \<notin> set l) \<and>
     (eol = [LF] \<longrightarrow> (\<forall>l \<in> set (if nl then ls else butlast ls). \<not> ends_cr l)) \<and>
     (nl \<or> length ls = 1 \<or> last ls \<noteq> [])"

lemma legal_joinable: "legal_lines eol nl ls \<Longrightarrow> joinable eol nl ls"
  by (simp add: legal_lines_def joinable_def)

lemma joinable_plainI:
  "ls \<noteq> [] \<Longrightarrow> eol = [LF] \<or> eol = crlf \<Longrightarrow> \<forall>l \<in> set ls. LF \<notin> set l \<and> \<not> ends_cr l \<Longrightarrow> joinable eol nl ls"
  by (auto simp: joinable_def dest: in_set_butlastD)

lemma str_contains_crlf_iff:
  "str_contains s crlf \<longleftrightarrow> (\<exists>l \<in> set (butlast (str_split s [LF])). ends_cr l)"
proof -
  have main: "str_contains (str_join ls [LF]) crlf \<longleftrightarrow> (\<exists>l \<in> set (butlast ls). ends_cr l)"
    if "ls \<noteq> []" "\<forall>l \<in> set ls. LF \<notin> set l" for ls
    using that
  proof (induction ls)
    case (Cons l ls)
    have one: "str_contains (l @ LF # s) crlf \<longleftrightarrow> ends_cr l \<or> str_contains s crlf" if "LF \<notin> set l" for s
      using that
    proof (induction l)
      case (Cons c l)
      then show ?case by (cases l) (auto simp: str_contains_def ends_cr_def split: option.splits)
    qed (simp add: str_contains_def ends_cr_def split: option.splits)
    show ?case
    proof (cases "ls = []")
      case True
      then show ?thesis using Cons.prems by (auto simp: str_contains_iff)
    next
      case False
      then show ?thesis using Cons one [of "str_join ls [LF]"] by (simp add: str_join_Cons)
    qed
  qed simp
  have "\<forall>l \<in> set (str_split s [LF]). LF \<notin> set l" using str_split_char_no_sep by blast
  from main [OF str_split_nonempty this] show ?thesis by (simp add: str_join_split)
qed

lemma splitPreserve_legal: "splitPreserve text = (ls, eol, nl) \<Longrightarrow> legal_lines eol nl ls"
proof -
  assume a: "splitPreserve text = (ls, eol, nl)"
  note s = splitPreserve_split [OF a]
  let ?raw = "str_split text [LF]"
  have fl: "fold_lines ?raw = ls @ (if nl then [[]] else [])" using s(1) split_fold_crlf by simp
  have lf: "\<forall>l \<in> set ls. LF \<notin> set l"
    using s(1) str_split_char_no_sep [of _ "fold_crlf text" LF] by auto
  have ne: "ls \<noteq> []" using a by (auto simp: splitPreserve_def Let_def)
  have eol: "eol = [LF] \<or> eol = crlf" using s(2) by (auto simp: DetectLineEnding_def)
  have cr: "\<forall>l \<in> set (if nl then ls else butlast ls). \<not> ends_cr l" if "eol = [LF]"
  proof -
    have "\<not> str_contains text crlf" using that s(2) by (auto simp: DetectLineEnding_def split: if_splits)
    then have b: "\<forall>l \<in> set (butlast ?raw). \<not> ends_cr l" by (simp add: str_contains_crlf_iff)
    then have "?raw = ls @ (if nl then [[]] else [])" using fl fold_lines_id by simp
    then show ?thesis using b by (auto simp: butlast_append split: if_splits)
  qed
  have last: "nl \<or> length ls = 1 \<or> last ls \<noteq> []"
  proof (rule ccontr)
    assume n: "\<not> ?thesis"
    then obtain xs where xs: "ls = xs @ [[]]" "xs \<noteq> []" using ne
      by (metis append_butlast_last_id append_Nil length_Cons list.size(3) One_nat_def)
    then have "fold_crlf text = str_join xs [LF] @ [LF]"
      using s(1) n str_join_split [of "[LF]" "fold_crlf text"] by (simp add: str_join_snoc)
    then show False using s(3) n by (auto simp: has_suffix_iff)
  qed
  show ?thesis unfolding legal_lines_def using ne eol lf cr last by blast
qed

lemma joinPreserve_join:
  "ls \<noteq> [] \<Longrightarrow> joinPreserve ls eol nl = str_join (ls @ (if nl then [[]] else [])) eol"
  by (simp add: joinPreserve_def Let_def str_join_snoc)

text \<open>Joining with CRLF is joining the CR-terminated lines with LF.\<close>

definition add_cr :: "string list \<Rightarrow> string list" where
  "add_cr ls = map (\<lambda>l. l @ [CR]) (butlast ls) @ [last ls]"

lemma join_crlf: "ls \<noteq> [] \<Longrightarrow> str_join ls crlf = str_join (add_cr ls) [LF]"
proof (induction ls)
  case (Cons l ls)
  then show ?case by (cases "ls = []") (simp_all add: add_cr_def str_join_Cons)
qed simp

lemma fold_lines_add_cr: "ls \<noteq> [] \<Longrightarrow> fold_lines (add_cr ls) = ls"
  by (simp add: fold_lines_def add_cr_def butlast_append comp_def)

lemma split_joined:
  assumes legal: "joinable eol nl ls"
  shows "str_split (joinPreserve ls eol nl) [LF] =
    (let all = ls @ (if nl then [[]] else []) in if eol = crlf then add_cr all else all)"
proof -
  let ?all = "ls @ (if nl then [[]] else [])"
  have ne: "ls \<noteq> []" and lf: "\<forall>l \<in> set ?all. LF \<notin> set l" and eol: "eol = [LF] \<or> eol = crlf"
    using legal by (auto simp: joinable_def)
  have lf': "\<forall>l \<in> set (add_cr ?all). LF \<notin> set l"
    using lf ne in_set_butlastD by (fastforce simp: add_cr_def)
  show ?thesis
  proof (cases "eol = crlf")
    case True
    then show ?thesis using ne lf' join_crlf [of ?all] str_split_join [OF _ lf']
      by (simp add: joinPreserve_join add_cr_def)
  next
    case False
    then show ?thesis using ne eol str_split_join [OF _ lf] by (simp add: joinPreserve_join)
  qed
qed

lemma fold_joined:
  assumes legal: "joinable eol nl ls"
  shows "str_split (fold_crlf (joinPreserve ls eol nl)) [LF] = ls @ (if nl then [[]] else [])"
proof -
  let ?all = "ls @ (if nl then [[]] else [])"
  have ne: "?all \<noteq> []" using legal by (simp add: joinable_def)
  show ?thesis
  proof (cases "eol = crlf")
    case True
    then show ?thesis
      unfolding split_fold_crlf split_joined [OF legal] Let_def using fold_lines_add_cr [OF ne] by simp
  next
    case False
    then have "\<forall>l \<in> set (butlast ?all). \<not> ends_cr l"
      using legal by (auto simp: joinable_def butlast_append split: if_splits)
    then show ?thesis
      unfolding split_fold_crlf split_joined [OF legal] Let_def using False fold_lines_id [OF ne] by simp
  qed
qed

lemma splitPreserve_join:
  assumes legal: "legal_lines eol nl ls"
  shows "splitPreserve (joinPreserve ls eol nl) = (ls, if nl \<or> 1 < length ls then eol else [LF], nl)"
proof -
  let ?all = "ls @ (if nl then [[]] else [])"
  let ?t = "joinPreserve ls eol nl"
  have ne: "ls \<noteq> []" using legal by (simp add: legal_lines_def)
  obtain ls' eol' nl' where s: "splitPreserve ?t = (ls', eol', nl')" by (metis prod_cases3)
  note p = splitPreserve_split [OF s]
  have all: "ls' @ (if nl' then [[]] else []) = ?all" using p(1) fold_joined [OF legal_joinable [OF legal]] by simp
  have legal': "legal_lines eol' nl' ls'" by (rule splitPreserve_legal [OF s])
  have nl: "nl' = nl"
    using all legal legal' by (auto simp: legal_lines_def length_Suc_conv split: if_splits)
  then have ls: "ls' = ls" using all by simp
  have "eol' = (if nl \<or> 1 < length ls then eol else [LF])"
  proof (cases "eol = crlf")
    case True
    have "str_contains ?t crlf \<longleftrightarrow> nl \<or> 1 < length ls"
      unfolding str_contains_crlf_iff split_joined [OF legal_joinable [OF legal]] Let_def using True ne
      by (cases ls; cases "tl ls") (auto simp: add_cr_def butlast_append)
    then show ?thesis using True p(2) by (simp add: DetectLineEnding_def)
  next
    case False
    then have "\<not> str_contains ?t crlf"
      unfolding str_contains_crlf_iff split_joined [OF legal_joinable [OF legal]] Let_def
      using legal by (auto simp: legal_lines_def butlast_append split: if_splits)
    then show ?thesis using False p(2) legal by (auto simp: DetectLineEnding_def legal_lines_def)
  qed
  then show ?thesis using s ls nl by simp
qed

section \<open>The codec contract\<close>

text \<open>
  What the editors rely on: taking a text apart gives a legal line list, and a legal line list
  put together is taken apart into the same lines. A codec with exact texts also gives those
  texts back byte for byte.
\<close>

locale line_codec =
  fixes dec :: "'t \<Rightarrow> 'l list \<times> 'm \<times> bool"
    and enc :: "'l list \<Rightarrow> 'm \<Rightarrow> bool \<Rightarrow> 't"
    and legal :: "'m \<Rightarrow> bool \<Rightarrow> 'l list \<Rightarrow> bool"
  assumes dec_legal: "dec t = (ls, m, nl) \<Longrightarrow> legal m nl ls"
    and dec_enc: "legal m nl ls \<Longrightarrow> \<exists>m'. dec (enc ls m nl) = (ls, m', nl)"
begin

lemma edit_lines: "legal m nl (f ls) \<Longrightarrow> fst (dec (enc (f ls) m nl)) = f ls"
  using dec_enc by fastforce

lemma enc_inject: "legal m nl ls \<Longrightarrow> legal m nl ls' \<Longrightarrow> enc ls m nl = enc ls' m nl \<longleftrightarrow> ls = ls'"
  using dec_enc by (metis fst_conv)

text \<open>Two edits in a row are one edit by the composed line function.\<close>

lemma edit_twice:
  assumes "dec t = (ls, m, nl)" "legal m nl (f ls)" "dec (enc (f ls) m nl) = (ls', m', nl')"
  shows "ls' = f ls" "nl' = nl" "legal m' nl' (g (f ls)) \<Longrightarrow> fst (dec (enc (g ls') m' nl')) = g (f ls)"
  using assms dec_enc [OF assms(2)] edit_lines by auto

end

locale exact_line_codec = line_codec dec enc legal
  for dec :: "'t \<Rightarrow> 'l list \<times> 'm \<times> bool" and enc and legal +
  fixes exact :: "'t \<Rightarrow> bool"
  assumes enc_dec: "exact t \<Longrightarrow> dec t = (ls, m, nl) \<Longrightarrow> enc ls m nl = t"
begin

text \<open>On an exact text an edit that leaves the lines alone leaves the bytes alone, and only such.\<close>

lemma edit_noop_iff:
  assumes "exact t" "dec t = (ls, m, nl)" "legal m nl (f ls)"
  shows "enc (f ls) m nl = t \<longleftrightarrow> f ls = ls"
  using assms enc_dec enc_inject dec_legal by metis

end

text \<open>A text in one newline style: no CRLF at all, or a CR before every LF.\<close>

definition uniform_eol :: "string \<Rightarrow> bool" where
  "uniform_eol text \<longleftrightarrow>
     \<not> str_contains text crlf \<or> list_all ends_cr (butlast (str_split text [LF]))"

lemma add_cr_chomp: "ls \<noteq> [] \<Longrightarrow> \<forall>l \<in> set (butlast ls). ends_cr l \<Longrightarrow> add_cr (fold_lines ls) = ls"
proof -
  assume a: "ls \<noteq> []" "\<forall>l \<in> set (butlast ls). ends_cr l"
  have c: "chomp_cr l @ [CR] = l" if "l \<in> set (butlast ls)" for l
    using a(2) that append_butlast_last_id [of l] by (auto simp: chomp_cr_def ends_cr_def)
  have "map (\<lambda>l. chomp_cr l @ [CR]) (butlast ls) = butlast ls" using c by (simp add: map_idI)
  then show ?thesis using a(1) by (simp add: add_cr_def fold_lines_def butlast_append comp_def)
qed

lemma join_splitPreserve:
  assumes u: "uniform_eol text" and s: "splitPreserve text = (ls, eol, nl)"
  shows "joinPreserve ls eol nl = text"
proof -
  note p = splitPreserve_split [OF s]
  let ?raw = "str_split text [LF]" and ?all = "ls @ (if nl then [[]] else [])"
  have ne: "ls \<noteq> []" using splitPreserve_legal [OF s] by (simp add: legal_lines_def)
  have all: "?all = fold_lines ?raw" using p(1) split_fold_crlf by simp
  show ?thesis
  proof (cases "str_contains text crlf")
    case True
    then have "add_cr ?all = ?raw" using all u add_cr_chomp [of ?raw]
      by (simp add: uniform_eol_def list_all_iff)
    then show ?thesis
      using True p(2) ne join_crlf [of ?all] str_join_split [of "[LF]" "text"]
      by (simp add: joinPreserve_join DetectLineEnding_def)
  next
    case False
    then have "?all = ?raw" using all fold_lines_id [of ?raw] by (auto simp: str_contains_crlf_iff)
    then show ?thesis
      using False p(2) ne str_join_split [of "[LF]" "text"]
      by (simp add: joinPreserve_join DetectLineEnding_def)
  qed
qed

interpretation text_lines: exact_line_codec splitPreserve joinPreserve legal_lines uniform_eol
proof unfold_locales
  show "splitPreserve t = (ls, m, nl) \<Longrightarrow> legal_lines m nl ls" for t ls m nl
    by (rule splitPreserve_legal)
  show "legal_lines m nl ls \<Longrightarrow> \<exists>m'. splitPreserve (joinPreserve ls m nl) = (ls, m', nl)" for m nl ls
    using splitPreserve_join by blast
  show "uniform_eol t \<Longrightarrow> splitPreserve t = (ls, m, nl) \<Longrightarrow> joinPreserve ls m nl = t" for t ls m nl
    by (rule join_splitPreserve)
qed

section \<open>Which edits stay legal\<close>

text \<open>A line as the guards of the editors demand it: no line break, no carriage return.\<close>

definition single_line :: "string \<Rightarrow> bool" where
  "single_line l \<longleftrightarrow> \<not> str_contains l [LF] \<and> \<not> str_contains l [CR]"

lemma single_line_iff: "single_line l \<longleftrightarrow> LF \<notin> set l \<and> CR \<notin> set l"
  by (simp add: single_line_def str_contains_char)

lemma single_line_not_cr: "single_line l \<Longrightarrow> \<not> ends_cr l"
  using last_in_set unfolding single_line_iff ends_cr_def by metis

lemma legal_update:
  assumes "legal_lines eol nl ls" "single_line l" "l \<noteq> []"
  shows "legal_lines eol nl (ls[i := l])"
proof -
  have "x \<in> set (butlast (ls[i := l])) \<Longrightarrow> x = l \<or> x \<in> set (butlast ls)" for x
    using set_update_subset_insert by (fastforce simp: butlast_list_update split: if_splits)
  moreover have "x \<in> set (ls[i := l]) \<Longrightarrow> x = l \<or> x \<in> set ls" for x
    using set_update_subset_insert by fastforce
  moreover have "last (ls[i := l]) = (if i = length ls - 1 then l else last ls)" if "ls \<noteq> []"
    using that by (simp add: last_list_update)
  ultimately show ?thesis using assms single_line_not_cr [OF assms(2)]
    unfolding legal_lines_def single_line_iff by (auto split: if_splits)
qed

text \<open>
  Inserting keeps a text legal unless it goes behind an unterminated last line that ends in a
  stray CR, or is itself empty there.
\<close>

lemma legal_plainI:
  assumes "ls \<noteq> []" "eol = [LF] \<or> eol = crlf" "\<forall>l \<in> set ls. LF \<notin> set l \<and> \<not> ends_cr l"
    and "nl \<or> length ls = 1 \<or> last ls \<noteq> []"
  shows "legal_lines eol nl ls"
  using assms joinable_plainI [OF assms(1-3), of nl] unfolding legal_lines_def joinable_def by blast

lemma legal_insert:
  assumes legal: "legal_lines eol nl ls" and cr: "\<forall>x \<in> set ls. \<not> ends_cr x" and i: "0 < i"
    and new: "\<forall>l \<in> set ns. LF \<notin> set l \<and> \<not> ends_cr l" "ns \<noteq> []" "last ns \<noteq> []"
  shows "legal_lines eol nl (take i ls @ ns @ drop i ls)"
proof (rule legal_plainI)
  have mem: "l \<in> set ns \<or> l \<in> set ls" if "l \<in> set (take i ls @ ns @ drop i ls)" for l
    using that by (auto dest: in_set_takeD in_set_dropD)
  show "\<forall>l \<in> set (take i ls @ ns @ drop i ls). LF \<notin> set l \<and> \<not> ends_cr l"
    using mem legal cr new(1) unfolding legal_lines_def by blast
  show "nl \<or> length (take i ls @ ns @ drop i ls) = 1 \<or> last (take i ls @ ns @ drop i ls) \<noteq> []"
  proof (cases "drop i ls = []")
    case True
    then show ?thesis using new by simp
  next
    case False
    then have "length ls \<noteq> 1" using i by (cases i; cases ls) auto
    then show ?thesis using False legal by (auto simp: legal_lines_def last_drop)
  qed
qed (use legal new in \<open>auto simp: legal_lines_def\<close>)

end
