(* ===== verification/Index_Editor.thy ===== *)
theory Index_Editor
  imports Index_Lines
begin

text \<open>
  The text transformations of \<open>internal/index/editor.go\<close> and \<open>editor_remove.go\<close>: replacing,
  inserting and removing one Entry line, planning a new directory section, and pruning empty
  sections. Each takes a whole text and returns a whole text or an error; none writes to disk.
\<close>

section \<open>Errors\<close>

datatype editor_error =
    NewEntryNotSingleLine
  | OldEntryEmpty
  | OldEntryNotFound
  | OldEntryDuplicated nat
  | OldCopyUnresolved string
  | OldDuplicatedAtPath string
  | OldRawMismatch nat nat
  | PathEntryCount string nat
  | PathEntryStale string
  | PathLineMismatch string
  | DirectoryUnspellable string bool
  | SectionRootUnresolved string
  | SectionRootNotDerivable string
  | SectionRootEmpty string
  | SectionRootsDisagree string string
  | RemoveTargetEmpty
  | RemoveTargetNotSingleLine
  | RemoveTargetNotFound
  | RemoveTargetDuplicated nat
  | RemovePathAmbiguous string
  | RemovePathNotFound string

section \<open>Replacing\<close>

text \<open>The positions whose trimmed line is the wanted one.\<close>

definition line_hits :: "string list \<Rightarrow> string \<Rightarrow> nat list" where
  "line_hits ls want = map fst (filter (\<lambda>(i, l). trim_space l = want) (ranged ls))"

definition ReplaceEntry :: "string \<Rightarrow> string \<Rightarrow> string \<Rightarrow> (editor_error, string) result" where
  "ReplaceEntry text oldLine newLine =
     (if str_contains newLine [LF] \<or> str_contains newLine [CR] then Inl NewEntryNotSingleLine
      else case splitPreserve text of (ls, eol, trailingNL) \<Rightarrow>
        let want = trim_space oldLine in
        if want = [] then Inl OldEntryEmpty
        else (case line_hits ls want of
                [] \<Rightarrow> Inl OldEntryNotFound
              | [h] \<Rightarrow> Inr (joinPreserve (ls[h := newLine]) eol trailingNL)
              | hits \<Rightarrow> Inl (OldEntryDuplicated (length hits))))"

text \<open>The document an editor works on: the split lines, parsed again from their LF form.\<close>

definition editor_doc :: "string list \<Rightarrow> Document" where
  "editor_doc ls = fst (Parse (str_join ls [LF]))"

text \<open>
  The scan of \<open>ReplaceEntryForPath\<close> over the resolved entries: entries at the path, entries with
  the old text, and the refusals raised while scanning.
\<close>

fun replace_scan ::
  "string \<Rightarrow> string \<Rightarrow> Entry list \<Rightarrow> string list \<Rightarrow> Entry list \<Rightarrow> Entry list \<Rightarrow>
   (editor_error, Entry list \<times> Entry list) result" where
  "replace_scan wantOld relPath [] seen matches olds = Inr (matches, olds)"
| "replace_scan wantOld relPath (e # es) seen matches olds =
     (let matches' = (if RelPath e = relPath then matches @ [e] else matches) in
      if trim_space (FullLine e) = wantOld then
        if RelPath e = [] then Inl (OldCopyUnresolved relPath)
        else if RelPath e \<in> set seen then Inl (OldDuplicatedAtPath (RelPath e))
        else replace_scan wantOld relPath es (RelPath e # seen) matches' (olds @ [e])
      else replace_scan wantOld relPath es seen matches' olds)"

definition ReplaceEntryForPath ::
  "string \<Rightarrow> string \<Rightarrow> string \<Rightarrow> string \<Rightarrow> string \<Rightarrow> (editor_error, string) result" where
  "ReplaceEntryForPath text repoRoot relPath oldLine newLine =
     (if str_contains newLine [LF] \<or> str_contains newLine [CR] then Inl NewEntryNotSingleLine
      else case splitPreserve text of (ls, eol, trailingNL) \<Rightarrow>
        let document = ResolveRelPaths (editor_doc ls) repoRoot;
            wantOld = trim_space oldLine in
        case replace_scan wantOld relPath (all_entries document) [] [] [] of
          Inl err \<Rightarrow> Inl err
        | Inr (matches, allOldEntries) \<Rightarrow>
            let rawOldCount = length (filter (\<lambda>l. trim_space l = wantOld) ls) in
            if rawOldCount \<noteq> length allOldEntries
            then Inl (OldRawMismatch rawOldCount (length allOldEntries))
            else (case matches of
                    [target] \<Rightarrow>
                      if trim_space (FullLine target) \<noteq> wantOld then Inl (PathEntryStale relPath)
                      else let position = LineNo target - 1 in
                           if LineNo target < 1 \<or> length ls \<le> position \<or>
                              trim_space (ls ! position) \<noteq> wantOld
                           then Inl (PathLineMismatch relPath)
                           else Inr (joinPreserve (ls[position := newLine]) eol trailingNL)
                  | _ \<Rightarrow> Inl (PathEntryCount relPath (length matches))))"

section \<open>Planning a section\<close>

definition headerSpells :: "string \<Rightarrow> bool" where
  "headerSpells absDir =
     (case matchDirHeader (''==='' @ absDir @ ''==='') of
        None \<Rightarrow> False
      | Some (_, _, readBack) \<Rightarrow> normalizeRootPath readBack = normalizeRootPath absDir)"

definition NeutralRepositoryRoot :: string where
  "NeutralRepositoryRoot = ''/<repository>''"

text \<open>The historical root a resolved section was written under.\<close>

definition section_candidate :: "sectionReading \<Rightarrow> Section \<Rightarrow> (editor_error, string) result" where
  "section_candidate reading sec =
     (let sectionPath = normalizeRootPath (reading_path reading sec);
          suffix = slash @ trim_chars (replace_all (rel reading) [CHR 0x5C] slash) slash in
      if rel reading \<noteq> [] \<and> \<not> has_suffix sectionPath suffix
      then Inl (SectionRootNotDerivable (AbsPath sec))
      else let candidate = (if rel reading \<noteq> [] then trim_suffix sectionPath suffix else sectionPath) in
           if candidate = [] then Inl (SectionRootEmpty (AbsPath sec)) else Inr candidate)"

fun append_root_loop :: "readings \<Rightarrow> secref list \<Rightarrow> string \<Rightarrow> (editor_error, string) result" where
  "append_root_loop readings [] root = Inr root"
| "append_root_loop readings ((i, sec) # rest) root =
     (case readings i of
        None \<Rightarrow> Inl (SectionRootUnresolved (AbsPath sec))
      | Some reading \<Rightarrow>
          (case section_candidate reading sec of
             Inl err \<Rightarrow> Inl err
           | Inr candidate \<Rightarrow>
               if root = [] then append_root_loop readings rest candidate
               else if normalizeRootPath root \<noteq> normalizeRootPath candidate
               then Inl (SectionRootsDisagree root candidate)
               else append_root_loop readings rest root))"

definition appendSectionRoot :: "Document \<Rightarrow> string \<Rightarrow> (editor_error, string) result" where
  "appendSectionRoot doc repoRoot =
     (if directories (Sections doc) = [] then Inr NeutralRepositoryRoot
      else append_root_loop (resolveSectionReadings (Sections doc) repoRoot)
             (directories (Sections doc)) [])"

text \<open>The section a planned header would parse into.\<close>

definition planned_section :: "string \<times> string \<times> string \<Rightarrow> Section" where
  "planned_section m =
     (case m of (_, legacyPath, absPath) \<Rightarrow>
        \<lparr>SecName = [], AbsPath = absPath, LegacyAbsPath = legacyPath, HeaderLine = [], Entries = [],
         RawLines = [], StartLine = 0\<rparr>)"

definition sectionsResolveLast :: "Document \<Rightarrow> string list \<Rightarrow> string \<Rightarrow> string \<Rightarrow> bool" where
  "sectionsResolveLast doc headers repoRoot relDir \<longleftrightarrow>
     list_all (\<lambda>h. matchDirHeader h \<noteq> None) headers \<and> headers \<noteq> [] \<and>
     (let appended = Sections doc @ map (\<lambda>h. planned_section (the (matchDirHeader h))) headers
      in resolveSectionRels appended repoRoot (length appended - 1) = Some relDir)"

definition section_header :: "string \<Rightarrow> string" where
  "section_header dir = ''==='' @ dir @ ''===''"

definition planNewSection :: "Document \<Rightarrow> string \<Rightarrow> string \<Rightarrow> (editor_error, string list) result" where
  "planNewSection doc repoRoot relPath =
     (case appendSectionRoot doc repoRoot of
        Inl err \<Rightarrow> Inl err
      | Inr root \<Rightarrow>
          let relDir = rel_dir_of relPath in
          if \<not> headerSpells (root @ slash) then Inl (DirectoryUnspellable root True)
          else
            let fresh = (firstDirectorySection (Sections doc) = None);
                absDir = (if relDir \<noteq> [] then root @ slash @ relDir @ slash else root @ slash) in
            if \<not> headerSpells absDir then Inl (DirectoryUnspellable relDir False)
            else
              let headers = (if relDir \<noteq> [] \<and> fresh then [section_header (root @ slash)] else []) @
                            [section_header absDir] in
              if \<not> sectionsResolveLast doc headers repoRoot relDir then
                if relDir = [] then Inl (DirectoryUnspellable root True)
                else Inl (DirectoryUnspellable relDir False)
              else Inr headers)"

section \<open>Inserting\<close>

fun trailing_comments :: "string list \<Rightarrow> nat" where
  "trailing_comments [] = 0"
| "trailing_comments (l # ls) =
     (if trim_space l = [] \<or> has_prefix (trim_space l) ''#'' then Suc (trailing_comments ls) else 0)"

text \<open>The scan runs backwards from the end, over the reversed lines.\<close>

definition appendIndexForNewSection :: "string list \<Rightarrow> Document \<Rightarrow> nat" where
  "appendIndexForNewSection ls doc =
     (if Sections doc = [] then length ls
      else let idx = length ls - trailing_comments (rev ls);
               lastHeader = StartLine (last (Sections doc))
           in if idx < lastHeader then length ls else idx)"

definition insert_after :: "Section \<Rightarrow> nat" where
  "insert_after sec = (if Entries sec = [] then StartLine sec else LineNo (last (Entries sec)))"

definition InsertEntry :: "string \<Rightarrow> string \<Rightarrow> string \<Rightarrow> string \<Rightarrow> (editor_error, string) result" where
  "InsertEntry text relPath newLine repoRoot =
     (if str_contains newLine [LF] \<or> str_contains newLine [CR] then Inl NewEntryNotSingleLine
      else case splitPreserve text of (ls, eol, trailingNL) \<Rightarrow>
        let doc = ResolveRelPaths (editor_doc ls) repoRoot in
        case FindSectionForPath doc repoRoot relPath of
          Some (k, sec) \<Rightarrow>
            let idx = min (insert_after sec) (length ls)
            in Inr (joinPreserve (take idx ls @ newLine # drop idx ls) eol trailingNL)
        | None \<Rightarrow>
            (case planNewSection doc repoRoot relPath of
               Inl err \<Rightarrow> Inl err
             | Inr headers \<Rightarrow>
                 let idx = appendIndexForNewSection ls doc
                 in Inr (joinPreserve
                           (take idx ls @ concat (map (\<lambda>h. [[], h]) headers) @ newLine # drop idx ls)
                           eol trailingNL)))"

text \<open>\<open>InsertProbe\<close>: a text parsed once; \<open>Check\<close> answers \<open>None\<close> for Go's nil error.\<close>

record InsertProbe =
  probeDoc :: Document
  probeRoot :: string

definition NewInsertProbe :: "string \<Rightarrow> string \<Rightarrow> InsertProbe" where
  "NewInsertProbe text repoRoot = \<lparr>probeDoc = editor_doc (lines_of text), probeRoot = repoRoot\<rparr>"

definition Check :: "InsertProbe \<Rightarrow> string \<Rightarrow> editor_error option" where
  "Check p relPath =
     (if FindSectionForPath (probeDoc p) (probeRoot p) relPath \<noteq> None then None
      else case planNewSection (probeDoc p) (probeRoot p) relPath of
             Inl err \<Rightarrow> Some err | Inr _ \<Rightarrow> None)"

definition CheckInsertable :: "string \<Rightarrow> string \<Rightarrow> string \<Rightarrow> editor_error option" where
  "CheckInsertable text relPath repoRoot = Check (NewInsertProbe text repoRoot) relPath"

definition RenderEntryDiff :: "string \<Rightarrow> string \<Rightarrow> string list \<Rightarrow> string" where
  "RenderEntryDiff oldLine newLine createNote =
     (if trim_space oldLine = [] then
        ''+ '' @ newLine @ [LF] @
        (case createNote of
           note # _ \<Rightarrow> if trim_space note \<noteq> [] then ''('' @ note @ '')'' @ [LF] else []
         | [] \<Rightarrow> [])
      else ''- '' @ oldLine @ [LF] @ ''+ '' @ newLine @ [LF])"

section \<open>Removing\<close>

definition anchored_at :: "string \<Rightarrow> secref list \<Rightarrow> bool" where
  "anchored_at base others \<longleftrightarrow>
     others \<noteq> [] \<and>
     list_all (\<lambda>(j, other). case relUnder (normalizeRootPath (AbsPath other)) base of
                 None \<Rightarrow> False | Some r \<Rightarrow> r \<noteq> []) others"

definition anchorsOtherSections :: "Section list \<Rightarrow> secref \<Rightarrow> bool" where
  "anchorsOtherSections secs ref =
     (case ref of (i, sec) \<Rightarrow>
      let base = normalizeRootPath (AbsPath sec);
          leg = normalizeRootPath (LegacyAbsPath sec);
          bases = base # (if map_option fst (firstDirectorySection secs) = Some i \<and> leg \<noteq> [] \<and> leg \<noteq> base
                          then [leg] else []);
          others = filter (\<lambda>(j, other). j \<noteq> i) (directories secs)
      in list_ex (\<lambda>b. anchored_at b others) bases)"

definition pure_empty :: "Section \<Rightarrow> bool" where
  "pure_empty sec \<longleftrightarrow> list_all is_comment_or_blank (tl (RawLines sec))"

definition prunable :: "Section list \<Rightarrow> secref \<Rightarrow> bool" where
  "prunable secs ref \<longleftrightarrow>
     (case ref of (i, sec) \<Rightarrow>
        AbsPath sec \<noteq> [] \<and> Entries sec = [] \<and> \<not> anchorsOtherSections secs ref \<and> pure_empty sec)"

text \<open>The lines \<open>[start, end)\<close> a pruned section occupies.\<close>

definition section_span :: "Section list \<Rightarrow> nat \<Rightarrow> nat \<Rightarrow> nat \<times> nat" where
  "section_span secs n i =
     (StartLine (secs ! i) - 1, if i + 1 < length secs then StartLine (secs ! (i + 1)) - 1 else n)"

definition pruned_line :: "Section list \<Rightarrow> nat \<Rightarrow> nat \<Rightarrow> bool" where
  "pruned_line secs n ln \<longleftrightarrow>
     list_ex (\<lambda>(i, sec). prunable secs (i, sec) \<and>
        (case section_span secs n i of (s, e) \<Rightarrow> s \<le> ln \<and> ln < e)) (ranged secs)"

definition PruneEmptySections :: "string \<Rightarrow> string" where
  "PruneEmptySections text =
     (case splitPreserve text of (ls, eol, trailingNL) \<Rightarrow>
      let secs = Sections (editor_doc ls);
          kept = map snd (filter (\<lambda>(i, l). \<not> pruned_line secs (length ls) i) (ranged ls))
      in joinPreserve kept eol trailingNL)"

definition RemoveEntry :: "string \<Rightarrow> string \<Rightarrow> (editor_error, string) result" where
  "RemoveEntry text target =
     (let want = trim_space target in
      if want = [] then Inl RemoveTargetEmpty
      else if contains_any want crlf then Inl RemoveTargetNotSingleLine
      else
        let eol = (if str_contains text crlf then crlf else [LF]);
            hasTrailingNL = has_suffix text [LF];
            split = str_split (fold_crlf text) [LF];
            ls = (if hasTrailingNL \<and> split \<noteq> [] \<and> last split = [] then butlast split else split)
        in (case line_hits ls want of
              [] \<Rightarrow> Inl RemoveTargetNotFound
            | [h] \<Rightarrow>
                let result = str_join (take h ls @ drop (h + 1) ls) eol
                in Inr (PruneEmptySections (if hasTrailingNL then result @ eol else result))
            | hits \<Rightarrow> Inl (RemoveTargetDuplicated (length hits))))"

definition RemoveEntryForPath ::
  "string \<Rightarrow> string \<Rightarrow> string \<Rightarrow> string \<Rightarrow> (editor_error, string) result" where
  "RemoveEntryForPath text repoRoot relPath oldLine =
     (let want = trim_space oldLine in
      if want = [] \<or> contains_any want crlf then Inl RemoveTargetNotSingleLine
      else case splitPreserve text of (ls, eol, trailingNL) \<Rightarrow>
        let document = ResolveRelPaths (editor_doc ls) repoRoot in
        (case filter (\<lambda>e. RelPath e = relPath) (all_entries document) of
           [] \<Rightarrow> Inl (RemovePathNotFound relPath)
         | [target] \<Rightarrow>
             if trim_space (FullLine target) \<noteq> want then Inl (PathEntryStale relPath)
             else let lineIndex = LineNo target - 1 in
                  if LineNo target < 1 \<or> length ls \<le> lineIndex \<or> trim_space (ls ! lineIndex) \<noteq> want
                  then Inl (PathLineMismatch relPath)
                  else Inr (PruneEmptySections
                              (joinPreserve (take lineIndex ls @ drop (lineIndex + 1) ls) eol trailingNL))
         | _ \<Rightarrow> Inl (RemovePathAmbiguous relPath)))"

end
