(* ===== verification/Index_View.thy ===== *)
theory Index_View
  imports Index_Lines
begin

text \<open>
  The abstract view of an index: for each section its two header paths and its Entry lines. The
  view of a text is a function of its lines alone (groups between \<open>===\<close> lines), resolution is a
  function of the view, and so the effect of an edit on what readers see can be computed on groups.
\<close>

section \<open>Resolution only reads the header paths\<close>

definition same_paths :: "Section \<Rightarrow> Section \<Rightarrow> bool" where
  "same_paths s t \<longleftrightarrow> AbsPath s = AbsPath t \<and> LegacyAbsPath s = LegacyAbsPath t"

definition same_ref :: "secref \<Rightarrow> secref \<Rightarrow> bool" where
  "same_ref x y \<longleftrightarrow> fst x = fst y \<and> same_paths (snd x) (snd y)"

abbreviation same_refs :: "secref list \<Rightarrow> secref list \<Rightarrow> bool" where
  "same_refs \<equiv> list_all2 same_ref"

lemma same_ref_simps [simp]: "same_ref (i, s) (j, t) \<longleftrightarrow> i = j \<and> same_paths s t"
  by (simp add: same_ref_def)

lemma same_refs_Nil: "same_refs xs ys \<Longrightarrow> xs = [] \<longleftrightarrow> ys = []"
  by (cases xs; cases ys) auto

lemma ranged_same:
  assumes "list_all2 same_paths xs ys"
  shows "same_refs (ranged xs) (ranged ys)"
  using assms unfolding ranged_def list_all2_conv_all_nth by simp

lemma directories_same:
  assumes "list_all2 same_paths xs ys"
  shows "same_refs (directories xs) (directories ys)"
proof -
  have "same_refs (filter (\<lambda>(i, s). AbsPath s \<noteq> []) as) (filter (\<lambda>(i, s). AbsPath s \<noteq> []) bs)"
    if "same_refs as bs" for as bs
    using that by (induction rule: list_all2_induct) (auto simp: same_paths_def)
  then show ?thesis using ranged_same [OF assms] by (simp add: directories_def)
qed

lemma common_of_rest_same:
  assumes "same_refs xs ys" "\<And>s t. same_paths s t \<Longrightarrow> pathOf s = pathOf t"
  shows "common_of_rest parts xs pathOf = common_of_rest parts ys pathOf"
  using assms(1)
proof (induction arbitrary: parts rule: list_all2_induct)
  case (Cons x xs y ys)
  then show ?case using assms(2) by (cases x; cases y) (simp add: Let_def)
qed simp

lemma commonDirPrefixOf_same:
  assumes "same_refs xs ys" "\<And>s t. same_paths s t \<Longrightarrow> pathOf s = pathOf t"
  shows "commonDirPrefixOf xs pathOf = commonDirPrefixOf ys pathOf"
proof (cases xs)
  case (Cons x xs')
  obtain y ys' where ys: "ys = y # ys'" "same_ref x y" "same_refs xs' ys'"
    using assms(1) Cons by (cases ys) auto
  have p: "pathOf (snd x) = pathOf (snd y)" using ys assms(2) by (simp add: same_ref_def)
  show ?thesis using common_of_rest_same [OF ys(3) assms(2)] p
    by (cases x; cases y) (simp add: commonDirPrefixOf_def Cons ys(1) Let_def)
qed (use assms in simp)

lemma foldl_same:
  assumes "list_all2 R xs ys" "Q a b"
    and "\<And>x y a b. R x y \<Longrightarrow> Q a b \<Longrightarrow> Q (f a x) (g b y)"
  shows "Q (foldl f a xs) (foldl g b ys)"
  using assms(1,2) by (induction arbitrary: a b rule: list_all2_induct) (auto intro: assms(3))

lemma relocateExtended_same:
  assumes "same_refs xs ys"
  shows "relocateExtended xs = relocateExtended ys"
proof -
  have p: "commonDirPrefixOf xs AbsPath = commonDirPrefixOf ys AbsPath"
    by (rule commonDirPrefixOf_same [OF assms]) (simp add: same_paths_def)
  show ?thesis
  proof (cases "commonDirPrefixOf ys AbsPath = []")
    case False
    show ?thesis unfolding relocateExtended_def p Let_def using False
      by (simp, intro foldl_same [OF assms, where Q = "(=)"])
        (auto simp: same_ref_def same_paths_def split: option.splits prod.splits)
  qed (simp add: relocateExtended_def p)
qed

lemma oldWriter_loop_same:
  "same_refs xs ys \<Longrightarrow> oldWriter_loop xs f p out b = oldWriter_loop ys f p out b"
proof (induction arbitrary: out b rule: list_all2_induct)
  case (Cons x xs y ys)
  obtain i s t where xy: "x = (i, s)" "y = (i, t)" "same_paths s t"
    using Cons.hyps(1) by (cases x; cases y) auto
  have p: "AbsPath s = AbsPath t" "LegacyAbsPath s = LegacyAbsPath t" using xy(3) by (simp_all add: same_paths_def)
  show ?case unfolding xy(1,2) oldWriter_loop.simps p Cons.IH ..
qed simp

definition same_first :: "secref option \<Rightarrow> secref option \<Rightarrow> bool" where
  "same_first f g \<longleftrightarrow> rel_option same_ref f g"

lemma first_same:
  assumes "list_all2 same_paths xs ys"
  shows "same_first (firstDirectorySection xs) (firstDirectorySection ys)"
  using directories_same [OF assms] unfolding same_first_def firstDirectorySection_def
  by (auto split: list.splits)

lemma oldWriterReadings_same:
  assumes "same_refs xs ys" "same_first f g"
  shows "oldWriterReadings xs f = oldWriterReadings ys g"
proof -
  have p: "commonDirPrefixOf xs LegacyAbsPath = commonDirPrefixOf ys LegacyAbsPath"
    by (rule commonDirPrefixOf_same [OF assms(1)]) (simp add: same_paths_def)
  show ?thesis using assms(2) p same_refs_Nil [OF assms(1)] oldWriter_loop_same [OF assms(1)]
    by (cases f; cases g) (auto simp: oldWriterReadings_def same_first_def Let_def)
qed

lemma nestedWorktree_same:
  assumes "same_refs xs ys" "same_first f g"
  shows "nestedWorktree xs f root = nestedWorktree ys g root"
proof -
  have l: "length xs = length ys" using assms(1) by (rule list_all2_lengthD)
  have a: "list_all (\<lambda>(i, sec). r i \<noteq> None) xs = list_all (\<lambda>(i, sec). r i \<noteq> None) ys"
    for r :: readings using assms(1) by (induction rule: list_all2_induct) auto
  show ?thesis using assms(2) relocateExtended_same [OF assms(1)] l a
    by (cases f; cases g)
      (auto simp: nestedWorktree_def same_first_def same_paths_def split: option.split prod.split)
qed

lemma directPass_same:
  assumes "same_refs xs ys"
  shows "fst (directPass xs root) = fst (directPass ys root) \<and>
    same_refs (snd (directPass xs root)) (snd (directPass ys root))"
  unfolding directPass_def
  by (rule foldl_same [OF assms, where Q = "\<lambda>a b. fst a = fst b \<and> same_refs (snd a) (snd b)"])
    (auto simp: same_ref_def same_paths_def list_all2_appendI split: option.splits prod.splits)

lemma healPass_same:
  assumes "same_refs ms ns" "same_first f g"
  shows "fst (healPass rds ms f root) = fst (healPass rds ns g root) \<and>
    same_refs (snd (healPass rds ms f root)) (snd (healPass rds ns g root))"
proof -
  let ?h = "\<lambda>leg xs. foldl (\<lambda>(rs, st) (i, sec).
                    (case relUnder (normalizeRootPath (AbsPath sec)) leg of
                       Some r \<Rightarrow> (rs(i \<mapsto> \<lparr>rel = r, legacy = False\<rparr>), st)
                     | None \<Rightarrow> (rs, st @ [(i, sec)])))
                  (rds, []) xs"
  have h: "fst (?h leg ms) = fst (?h leg ns) \<and> same_refs (snd (?h leg ms)) (snd (?h leg ns))" for leg
    by (rule foldl_same [OF assms(1), where Q = "\<lambda>a b. fst a = fst b \<and> same_refs (snd a) (snd b)"])
      (auto simp: same_ref_def same_paths_def list_all2_appendI split: option.splits prod.splits)
  have l: "length (snd (?h leg ms)) = length (snd (?h leg ns))" for leg
    using h [of leg] list_all2_lengthD by blast
  have m: "length ms = length ns" using assms(1) by (rule list_all2_lengthD)
  show ?thesis
  proof (cases f)
    case None
    then show ?thesis using assms by (cases g) (auto simp: healPass_def same_first_def)
  next
    case (Some x)
    then obtain i s t where fg: "f = Some (i, s)" "g = Some (i, t)" "same_paths s t"
      using assms(2) by (cases x; cases g) (auto simp: same_first_def)
    then show ?thesis using h [of "normalizeRootPath (LegacyAbsPath t)"] m assms(1)
        l [of "normalizeRootPath (LegacyAbsPath t)"]
      by (simp add: healPass_def same_paths_def Let_def case_prod_unfold)
  qed
qed

lemma resolveSectionReadings_same:
  assumes "list_all2 same_paths xs ys"
  shows "resolveSectionReadings xs root = resolveSectionReadings ys root"
proof -
  note d = directories_same [OF assms] and f = first_same [OF assms]
  let ?r = "normalizeRootPath root"
  obtain rds ms where dx: "directPass (directories xs) ?r = (rds, ms)" by fastforce
  obtain ns where dy: "directPass (directories ys) ?r = (rds, ns)" and mn: "same_refs ms ns"
    using directPass_same [OF d, of ?r] dx by (cases "directPass (directories ys) ?r") auto
  obtain rds' ms' where hx: "healPass rds ms (firstDirectorySection xs) ?r = (rds', ms')" by fastforce
  obtain ns' where hy: "healPass rds ns (firstDirectorySection ys) ?r = (rds', ns')" and mn': "same_refs ms' ns'"
    using healPass_same [OF mn f, of rds ?r] hx
    by (cases "healPass rds ns (firstDirectorySection ys) ?r") auto
  show ?thesis
    unfolding resolveSectionReadings_def Let_def oldWriterReadings_same [OF d f] nestedWorktree_same [OF d f]
      dx dy prod.case hx hy relocateExtended_same [OF mn'] oldWriterReadings_same [OF mn' f]
      same_refs_Nil [OF mn] same_refs_Nil [OF mn'] ..
qed

lemma resolveSectionRels_same:
  "list_all2 same_paths xs ys \<Longrightarrow> resolveSectionRels xs root = resolveSectionRels ys root"
  by (simp add: resolveSectionRels_def resolveSectionReadings_same fun_eq_iff)

section \<open>Views of texts\<close>

text \<open>A line that is an Entry wherever a directory section collects it.\<close>

definition entry_line :: "string \<Rightarrow> bool" where
  "entry_line l \<longleftrightarrow> \<not> is_comment_or_blank l \<and> matchEntryLine l \<noteq> None"

type_synonym section_view = "string \<times> string \<times> string list"

definition view_of :: "Section \<Rightarrow> section_view" where
  "view_of sec = (AbsPath sec, LegacyAbsPath sec, map FullLine (Entries sec))"

definition header_paths :: "string \<Rightarrow> string \<times> string" where
  "header_paths l = (case matchDirHeader l of None \<Rightarrow> ([], []) | Some (_, leg, ap) \<Rightarrow> (ap, leg))"

text \<open>A group: a \<open>===\<close> line and the lines up to the next one.\<close>

definition group_view :: "string list \<Rightarrow> section_view" where
  "group_view g =
     (case header_paths (hd g) of (ap, leg) \<Rightarrow>
        (ap, leg, if ap = [] then [] else filter entry_line (tl g)))"

definition is_group :: "string list \<Rightarrow> bool" where
  "is_group g \<longleftrightarrow> g \<noteq> [] \<and> is_boundary (hd g) \<and> list_all (\<lambda>l. \<not> is_boundary l) (tl g)"

definition grouped :: "string list \<Rightarrow> string list \<Rightarrow> string list list \<Rightarrow> bool" where
  "grouped ls hdr gs \<longleftrightarrow>
     ls = hdr @ concat gs \<and> list_all (\<lambda>l. \<not> is_boundary l) hdr \<and> list_all is_group gs"

lemma view_of_new_section: "view_of (new_section l n) = group_view [l]"
  by (auto simp: view_of_def new_section_def group_view_def header_paths_def split: option.splits)

lemma line_entry_iff:
  "line_entry sec n l =
     (if AbsPath sec \<noteq> [] \<and> entry_line l
      then Some (entry_of_match l n (the (matchEntryLine l))) else None)"
  by (cases "matchEntryLine l") (simp_all add: line_entry_def entry_line_def)

lemma parse_lines_header_part:
  "list_all (\<lambda>l. \<not> is_boundary l) hdr \<Longrightarrow>
   psSections (parse_lines hdr) = [] \<and> psInHeader (parse_lines hdr)"
proof (induction hdr rule: rev_induct)
  case (snoc l ls)
  then show ?case by (simp add: parse_lines_snoc parse_line_header)
qed (simp add: parse_lines_def init_pstate_def)

text \<open>Parsing one more group adds one section, whose view and raw lines are the group's.\<close>

lemma parse_lines_group:
  assumes "is_group (b # body)"
  shows "\<exists>sec. psSections (parse_lines (ls @ b # body)) = psSections (parse_lines ls) @ [sec] \<and>
    view_of sec = group_view (b # body) \<and> RawLines sec = b # body \<and>
    StartLine sec = Suc (length ls) \<and> \<not> psInHeader (parse_lines (ls @ b # body)) \<and>
    map LineNo (Entries sec) =
      (if AbsPath sec = [] then []
       else map fst (filter (\<lambda>(i, l). entry_line l) (zip [length ls + 2..<length ls + 2 + length body] body)))"
  using assms
proof (induction body rule: rev_induct)
  case Nil
  have "parse_lines (ls @ [b]) = parse_line (parse_lines ls) (length ls, b)" by (rule parse_lines_snoc)
  moreover have "is_boundary b" using Nil by (simp add: is_group_def)
  ultimately show ?case
    by (intro exI [of _ "new_section b (Suc (length ls))"])
      (simp add: parse_line_boundary view_of_new_section)
next
  case (snoc l body)
  then obtain sec where sec: "psSections (parse_lines (ls @ b # body)) = psSections (parse_lines ls) @ [sec]"
    "view_of sec = group_view (b # body)" "RawLines sec = b # body" "StartLine sec = Suc (length ls)"
    "\<not> psInHeader (parse_lines (ls @ b # body))"
    "map LineNo (Entries sec) = (if AbsPath sec = [] then []
       else map fst (filter (\<lambda>(i, l). entry_line l) (zip [length ls + 2..<length ls + 2 + length body] body)))"
    by (auto simp: is_group_def)
  have nb: "\<not> is_boundary l" using snoc.prems by (simp add: is_group_def)
  have p: "parse_lines (ls @ b # body @ [l]) =
      parse_line (parse_lines (ls @ b # body)) (length ls + Suc (length body), l)"
    using parse_lines_snoc [of "ls @ b # body" l] by simp
  note s = parse_line_section [OF nb sec(5) sec(1), of "length ls + Suc (length body)"]
  let ?n = "Suc (length ls + Suc (length body))"
  let ?sec' = "extend_section ?n l sec"
  have v: "view_of ?sec' = group_view (b # body @ [l])"
    using sec(2) by (auto simp: view_of_def group_view_def line_entry_iff split: prod.splits)
  have n: "map LineNo (Entries ?sec') = (if AbsPath ?sec' = [] then []
       else map fst (filter (\<lambda>(i, l). entry_line l)
         (zip [length ls + 2..<length ls + 2 + length (body @ [l])] (body @ [l]))))"
  proof -
    have "zip [length ls + 2..<length ls + 2 + length (body @ [l])] (body @ [l]) =
        zip [length ls + 2..<length ls + 2 + length body] body @ [(?n, l)]"
      by (simp only: zip_upt_snoc) simp
    then show ?thesis using sec(6) by (simp add: line_entry_iff)
  qed
  show ?case using sec(3,4) s v n unfolding p by (intro exI [of _ ?sec']) simp
qed

abbreviation secs_of :: "string list \<Rightarrow> Section list" where
  "secs_of ls \<equiv> psSections (parse_lines ls)"

text \<open>The groups of a text determine its sections, their views, positions and line numbers.\<close>

lemma secs_of_groups:
  assumes "list_all (\<lambda>l. \<not> is_boundary l) hdr" "list_all is_group gs"
  shows "map view_of (secs_of (hdr @ concat gs)) = map group_view gs \<and>
    map RawLines (secs_of (hdr @ concat gs)) = gs"
  using assms(2)
proof (induction gs rule: rev_induct)
  case Nil
  then show ?case using parse_lines_header_part [OF assms(1)] by simp
next
  case (snoc g gs)
  then obtain b body where g: "g = b # body" by (cases g) (auto simp: is_group_def)
  then show ?case using snoc parse_lines_group [of b body "hdr @ concat gs"] by auto
qed

lemma grouped_views:
  "grouped ls hdr gs \<Longrightarrow> map view_of (secs_of ls) = map group_view gs"
  using secs_of_groups by (auto simp: grouped_def)

lemma lines_grouped: "grouped ls (psHeader (parse_lines ls)) (map RawLines (secs_of ls))"
proof -
  note ok = parse_lines_parsed_ok [of ls]
  have "is_group (RawLines sec)" if "sec \<in> set (secs_of ls)" for sec
    using parsed_ok_section [OF ok that] unfolding section_ok_def is_group_def list_all_iff by simp
  then show ?thesis using ok unfolding grouped_def parsed_ok_def list_all_iff by auto
qed

text \<open>One section in the middle: the lines before it, its group, and where its entries stand.\<close>

lemma section_in_groups:
  assumes k: "k < length (secs_of ls)"
  defines "pre \<equiv> psHeader (parse_lines ls) @ concat (map RawLines (take k (secs_of ls)))"
  obtains b body where "RawLines (secs_of ls ! k) = b # body" "is_group (b # body)"
    and "ls = pre @ (b # body) @ concat (map RawLines (drop (Suc k) (secs_of ls)))"
    and "StartLine (secs_of ls ! k) = Suc (length pre)"
    and "map LineNo (Entries (secs_of ls ! k)) =
      (if AbsPath (secs_of ls ! k) = [] then []
       else map fst (filter (\<lambda>(i, l). entry_line l) (zip [length pre + 2..<length pre + 2 + length body] body)))"
proof -
  let ?secs = "secs_of ls" and ?hdr = "psHeader (parse_lines ls)"
  note gr = lines_grouped [of ls]
  have split: "?secs = take k ?secs @ ?secs ! k # drop (Suc k) ?secs" using k by (rule id_take_nth_drop)
  have isg: "is_group (RawLines (?secs ! k))" using gr k by (auto simp: grouped_def list_all_iff)
  then obtain b body where bb: "RawLines (?secs ! k) = b # body" by (cases "RawLines (?secs ! k)") (auto simp: is_group_def)
  have "concat (map RawLines ?secs) = concat (map RawLines (take k ?secs)) @ (b # body) @ concat (map RawLines (drop (Suc k) ?secs))"
    using arg_cong [OF split, of "\<lambda>x. concat (map RawLines x)"] bb by simp
  moreover have "ls = ?hdr @ concat (map RawLines ?secs)" using gr by (simp add: grouped_def)
  ultimately have ls: "ls = pre @ (b # body) @ concat (map RawLines (drop (Suc k) ?secs))"
    unfolding pre_def by simp
  have hdr: "list_all (\<lambda>l. \<not> is_boundary l) ?hdr" and gs: "list_all is_group (map RawLines ?secs)"
    using gr by (auto simp: grouped_def)
  obtain sec where sec: "secs_of (pre @ b # body) = secs_of pre @ [sec]"
    "StartLine sec = Suc (length pre)"
    "map LineNo (Entries sec) = (if AbsPath sec = [] then []
       else map fst (filter (\<lambda>(i, l). entry_line l) (zip [length pre + 2..<length pre + 2 + length body] body)))"
    using parse_lines_group [of b body pre] isg bb by auto
  have more: "\<exists>rest. secs_of (xs @ concat gs) = secs_of xs @ rest" if "list_all is_group gs" for xs gs
    using that
  proof (induction gs rule: rev_induct)
    case (snoc g gs)
    then obtain b body where g: "g = b # body" by (cases g) (auto simp: is_group_def)
    then show ?case using snoc parse_lines_group [of b body "xs @ concat gs"] by auto
  qed simp
  have "list_all is_group (map RawLines (drop (Suc k) ?secs))"
    using gs by (auto simp: list_all_iff dest: in_set_dropD)
  from more [OF this, of "pre @ b # body"] obtain rest where rest: "?secs = secs_of pre @ sec # rest"
    using ls sec(1) by auto
  have "list_all is_group (map RawLines (take k ?secs))"
    using gs by (auto simp: list_all_iff dest: in_set_takeD)
  from secs_of_groups [OF hdr this] have "map RawLines (secs_of pre) = map RawLines (take k ?secs)"
    unfolding pre_def by simp
  then have "length (secs_of pre) = k" using k by (metis length_map length_take min.absorb2 less_imp_le)
  then have "?secs ! k = sec" using rest by (metis nth_append_length)
  then show ?thesis using that [OF bb] isg bb ls sec(2,3) by simp
qed

section \<open>What readers see\<close>

text \<open>The table of an index: each Entry line with the repository path it resolves to.\<close>

definition index_table :: "string \<Rightarrow> string \<Rightarrow> (string \<times> string) list" where
  "index_table text root =
     map (\<lambda>e. (RelPath e, FullLine e)) (all_entries (ResolveRelPaths (fst (Parse text)) root))"

definition line_path :: "string \<Rightarrow> string \<Rightarrow> string" where
  "line_path relDir l = entry_rel_path relDir (entry_of_match l 0 (the (matchEntryLine l)))"

definition view_section :: "section_view \<Rightarrow> Section" where
  "view_section v =
     (case v of (ap, leg, es) \<Rightarrow>
        \<lparr>SecName = [], AbsPath = ap, LegacyAbsPath = leg, HeaderLine = [], Entries = [], RawLines = [],
         StartLine = 0\<rparr>)"

lemma view_section_paths [simp]: "AbsPath (view_section v) = fst v" "LegacyAbsPath (view_section v) = fst (snd v)"
  by (simp_all add: view_section_def split: prod.splits)

definition view_row :: "string option \<Rightarrow> string list \<Rightarrow> (string \<times> string) list" where
  "view_row r es = map (\<lambda>l. (case r of None \<Rightarrow> [] | Some d \<Rightarrow> line_path d l, l)) es"

definition views_table :: "section_view list \<Rightarrow> string \<Rightarrow> (string \<times> string) list" where
  "views_table vs root =
     concat (map (\<lambda>(i, v). view_row (resolveSectionRels (map view_section vs) root i) (snd (snd v))) (ranged vs))"

lemma entry_rel_path_line:
  "matchEntryLine l = Some m \<Longrightarrow> entry_rel_path d (entry_of_match l n m) = line_path d l"
  by (simp add: line_path_def entry_rel_path_def entry_of_match_def split: prod.splits)

lemma same_paths_view: "list_all2 same_paths secs (map view_section (map view_of secs))"
  by (simp add: list_all2_conv_all_nth same_paths_def view_section_def view_of_def)

lemma table_of_views:
  assumes ok: "\<forall>sec \<in> set secs. \<forall>e \<in> set (Entries sec). RelPath e = [] \<and>
      (\<exists>m. matchEntryLine (FullLine e) = Some m \<and> e = entry_of_match (FullLine e) (LineNo e) m)"
    and doc: "Sections doc = secs"
  shows "map (\<lambda>e. (RelPath e, FullLine e)) (all_entries (ResolveRelPaths doc root)) =
    views_table (map view_of secs) root"
proof -
  have rels: "resolveSectionRels secs root = resolveSectionRels (map view_section (map view_of secs)) root"
    by (rule resolveSectionRels_same [OF same_paths_view])
  have row: "map (\<lambda>e. (RelPath e, FullLine e)) (Entries (resolve_section r sec)) =
      view_row r (map FullLine (Entries sec))" if "sec \<in> set secs" for r sec
  proof (cases r)
    case None
    then show ?thesis using ok that by (simp add: resolve_section_def view_row_def)
  next
    case (Some d)
    have "entry_rel_path d e = line_path d (FullLine e)" if "e \<in> set (Entries sec)" for e
      using ok \<open>sec \<in> set secs\<close> that entry_rel_path_line by metis
    then show ?thesis using Some by (simp add: resolve_section_def view_row_def)
  qed
  have rng: "ranged (map view_of secs) = map (\<lambda>(i, s). (i, view_of s)) (ranged secs)"
    unfolding ranged_def by (simp add: zip_map2)
  have "map (\<lambda>e. (RelPath e, FullLine e)) (all_entries (ResolveRelPaths doc root)) =
      concat (map (\<lambda>(i, sec). map (\<lambda>e. (RelPath e, FullLine e))
        (Entries (resolve_section (resolveSectionRels secs root i) sec))) (ranged secs))"
    by (simp add: all_entries_def ResolveRelPaths_def doc map_concat comp_def case_prod_unfold)
  also have "\<dots> = concat (map (\<lambda>(i, sec). view_row (resolveSectionRels secs root i) (map FullLine (Entries sec))) (ranged secs))"
    by (intro arg_cong [where f = concat] map_cong refl) (auto simp: row)
  finally show ?thesis
    unfolding views_table_def rng rels [symmetric]
    by (simp add: comp_def case_prod_unfold view_of_def)
qed

lemma secs_of_entries_ok:
  "\<forall>sec \<in> set (secs_of ls). \<forall>e \<in> set (Entries sec). RelPath e = [] \<and>
      (\<exists>m. matchEntryLine (FullLine e) = Some m \<and> e = entry_of_match (FullLine e) (LineNo e) m)"
  using parsed_ok_section [OF parse_lines_parsed_ok] unfolding section_ok_def entry_ok_def by blast

lemmas secs_of_table = table_of_views [OF secs_of_entries_ok]

text \<open>A blank line at the end adds nothing.\<close>

lemma views_blank_tail: "map view_of (secs_of (ls @ [[]])) = map view_of (secs_of ls)"
proof -
  have nb: "\<not> is_boundary []"
    by (simp add: is_boundary_def consistencySepRe_def consistencyDirRe_def strip_re_space_def Let_def)
  have ne: "\<not> entry_line []" by (simp add: entry_line_def is_comment_or_blank_def)
  show ?thesis
  proof (cases "psInHeader (parse_lines ls)")
    case True
    then show ?thesis using nb by (simp add: parse_lines_snoc parse_line_header)
  next
    case False
    then obtain secs sec where s: "secs_of ls = secs @ [sec]"
      using parse_lines_ok [of ls] by (metis append_butlast_last_id)
    then show ?thesis using parse_line_section [OF nb False s] ne
      by (simp add: parse_lines_snoc view_of_def line_entry_iff)
  qed
qed

text \<open>Plain texts: no byte order mark and no CR that is not part of a CRLF at a line end.\<close>

definition plain_text :: "string \<Rightarrow> bool" where
  "plain_text text \<longleftrightarrow> \<not> has_prefix text bom \<and> list_all (\<lambda>l. \<not> ends_cr l) (lines_of text)"

lemma stripBOM_id: "\<not> has_prefix text bom \<Longrightarrow> stripBOM text = text"
  by (simp add: stripBOM.simps)

lemma plain_table:
  assumes "\<not> has_prefix text bom" "splitPreserve text = (ls, eol, nl)"
  shows "index_table text root = views_table (map view_of (secs_of ls)) root"
proof -
  have "Sections (fst (Parse text)) = secs_of (ls @ (if nl then [[]] else []))"
    using splitPreserve_split(1) [OF assms(2)] by (simp add: stripBOM_id [OF assms(1)])
  from secs_of_table [OF this, of root] show ?thesis
    by (cases nl) (simp_all add: index_table_def views_blank_tail)
qed

end
