(* ===== verification/Index_Edit_Laws.thy ===== *)
theory Index_Edit_Laws
  imports Index_Editor Index_View
begin

text \<open>
  What the editors promise. Line-level laws hold for every text; laws about what readers see are
  stated on the table of the index (path and Entry line, in document order) and hold for plain
  texts.
\<close>

section \<open>Hits\<close>

lemma line_hits_set: "set (line_hits ls want) = {i. i < length ls \<and> trim_space (ls ! i) = want}"
  by (force simp: line_hits_def set_ranged)

lemma line_hits_distinct: "distinct (line_hits ls want)"
  unfolding line_hits_def using distinct_fst_ranged distinct_map_filter by blast

lemma distinct_singleton: "distinct xs \<Longrightarrow> set xs = {x} \<Longrightarrow> xs = [x]"
  by (cases xs; cases "tl xs") auto

lemma singleton_Collect: "(\<exists>h. {i. Q i} = {h}) \<longleftrightarrow> (\<exists>!i. Q i)"
  unfolding set_eq_iff mem_Collect_eq singleton_iff by metis

lemma line_hits_single:
  "(\<exists>h. line_hits ls want = [h]) \<longleftrightarrow> (\<exists>!i. i < length ls \<and> trim_space (ls ! i) = want)"
proof -
  have "line_hits ls want = [h] \<longleftrightarrow> set (line_hits ls want) = {h}" for h
    by (rule iffI, simp, rule distinct_singleton [OF line_hits_distinct])
  then have "(\<exists>h. line_hits ls want = [h]) \<longleftrightarrow> (\<exists>h. set (line_hits ls want) = {h})" by simp
  also have "\<dots> \<longleftrightarrow> (\<exists>!i. i < length ls \<and> trim_space (ls ! i) = want)"
    unfolding line_hits_set by (rule singleton_Collect)
  finally show ?thesis .
qed

section \<open>Byte order marks and plain texts\<close>

lemma bom_before_break: "c = CR \<or> c = LF \<Longrightarrow> has_prefix (x @ c # s) bom \<longleftrightarrow> has_prefix x bom"
  by (cases x; cases "tl x"; cases "tl (tl x)") (auto simp: bom_def)

lemma bom_fold_crlf: "has_prefix (fold_crlf s) bom \<longleftrightarrow> has_prefix s bom"
proof -
  let ?ls = "str_split s [LF]"
  have ne: "fold_lines ?ls \<noteq> []" by (simp add: fold_lines_def)
  have chomp: "has_prefix (chomp_cr l) bom \<longleftrightarrow> has_prefix l bom" for l
  proof (cases "ends_cr l")
    case True
    then obtain x where "l = x @ [CR]" using append_butlast_last_id [of l] by (metis ends_cr_def)
    then show ?thesis using bom_before_break [of CR x "[]"] by simp
  qed (simp add: chomp_cr_def)
  have j: "has_prefix (str_join xs [LF]) bom \<longleftrightarrow> has_prefix (hd xs) bom" if "xs \<noteq> []" for xs
    using that bom_before_break [of LF "hd xs"] by (cases xs; cases "tl xs") auto
  have "fold_crlf s = str_join (fold_lines ?ls) [LF]"
    using str_join_split [of "[LF]" "fold_crlf s"] split_fold_crlf by simp
  moreover have "s = str_join ?ls [LF]" by (simp add: str_join_split)
  moreover have "has_prefix (hd (fold_lines ?ls)) bom \<longleftrightarrow> has_prefix (hd ?ls) bom"
    using chomp by (cases ?ls; cases "tl ?ls") (auto simp: fold_lines_def)
  ultimately show ?thesis using j ne by (metis str_split_nonempty)
qed

lemma bom_join: "ls \<noteq> [] \<Longrightarrow> eol = [LF] \<or> eol = crlf \<Longrightarrow>
  has_prefix (joinPreserve ls eol nl) bom \<longleftrightarrow> has_prefix (hd ls) bom"
  using bom_before_break [of CR "hd ls"] bom_before_break [of LF "hd ls"]
  by (cases ls; cases "tl ls") (auto simp: joinPreserve_def Let_def)

lemma bom_split: "splitPreserve text = (ls, eol, nl) \<Longrightarrow> has_prefix text bom \<longleftrightarrow> has_prefix (hd ls) bom"
proof -
  assume s: "splitPreserve text = (ls, eol, nl)"
  note p = splitPreserve_split [OF s]
  have ne: "ls \<noteq> []" using splitPreserve_legal [OF s] by (simp add: legal_lines_def)
  have "fold_crlf text = str_join (ls @ (if nl then [[]] else [])) [LF]"
    using p(1) str_join_split [of "[LF]" "fold_crlf text"] by simp
  then have "fold_crlf text = joinPreserve ls [LF] nl" using ne by (simp add: joinPreserve_join)
  then show ?thesis using bom_join [OF ne, of "[LF]" nl] bom_fold_crlf [of "text"] by simp
qed

lemma plain_textD:
  assumes "plain_text text" "splitPreserve text = (ls, eol, nl)"
  shows "\<forall>l \<in> set ls. \<not> ends_cr l" "\<not> has_prefix (hd ls) bom" "\<not> has_prefix text bom"
  using assms bom_split by (auto simp: plain_text_def list_all_iff)

text \<open>On a plain text the editors' document is parsed from the very lines they edit.\<close>

lemma editor_sections:
  assumes p: "plain_text text" and s: "splitPreserve text = (ls, eol, nl)"
  shows "Sections (editor_doc ls) = secs_of ls"
proof -
  have legal: "legal_lines eol nl ls" by (rule splitPreserve_legal [OF s])
  note cr = plain_textD [OF p s]
  have ne: "ls \<noteq> []" and lf: "\<forall>l \<in> set ls. LF \<notin> set l" using legal by (auto simp: legal_lines_def)
  have "\<not> has_prefix (str_join ls [LF]) bom"
    using bom_join [OF ne, of "[LF]" False] cr(2) by (simp add: joinPreserve_def)
  moreover have "str_split (fold_crlf (str_join ls [LF])) [LF] = ls"
    using cr(1) fold_lines_id [OF ne] in_set_butlastD [of _ ls]
    unfolding split_fold_crlf str_split_join [OF ne lf] by blast
  ultimately show ?thesis by (simp add: editor_doc_def stripBOM_id)
qed

lemma joined_table:
  assumes j: "joinable eol nl ls" and hd: "\<not> has_prefix (hd ls) bom"
  shows "index_table (joinPreserve ls eol nl) root = views_table (map view_of (secs_of ls)) root"
proof -
  have "\<not> has_prefix (joinPreserve ls eol nl) bom" using bom_join [of ls eol nl] j hd by (auto simp: joinable_def)
  then have "Sections (fst (Parse (joinPreserve ls eol nl))) = secs_of (ls @ (if nl then [[]] else []))"
    by (simp add: stripBOM_id fold_joined [OF j])
  from secs_of_table [OF this, of root] show ?thesis
    by (cases nl) (simp_all add: index_table_def views_blank_tail)
qed

lemma edited_table:
  assumes p: "plain_text text" and s: "splitPreserve text = (ls, eol, nl)"
    and legal: "legal_lines eol nl ls'" and hd: "hd ls' = hd ls"
  shows "index_table (joinPreserve ls' eol nl) root = views_table (map view_of (secs_of ls')) root"
  by (rule joined_table [OF legal_joinable [OF legal]]) (simp add: hd plain_textD(2) [OF p s])

section \<open>Replacing a line\<close>

lemma ReplaceEntry_hit:
  assumes "single_line newLine" "trim_space oldLine \<noteq> []" "splitPreserve text = (ls, eol, nl)"
    and "line_hits ls (trim_space oldLine) = [h]"
  shows "ReplaceEntry text oldLine newLine = Inr (joinPreserve (ls[h := newLine]) eol nl)"
  using assms by (simp add: ReplaceEntry_def single_line_def Let_def)

lemma ReplaceEntry_Inr_iff:
  assumes "splitPreserve text = (ls, eol, nl)"
  shows "ReplaceEntry text oldLine newLine = Inr t \<longleftrightarrow>
    single_line newLine \<and> trim_space oldLine \<noteq> [] \<and>
    (\<exists>h. line_hits ls (trim_space oldLine) = [h] \<and> t = joinPreserve (ls[h := newLine]) eol nl)"
  using assms by (auto simp: ReplaceEntry_def single_line_def Let_def split: list.splits)

lemma no_break_LF:
  assumes "splitPreserve text = (ls, eol, nl)" "\<not> (nl \<or> 1 < length ls)"
  shows "eol = [LF]"
proof -
  have "ls \<noteq> []" using splitPreserve_legal [OF assms(1)] by (simp add: legal_lines_def)
  then have "length (str_split (fold_crlf text) [LF]) = 1"
    using assms splitPreserve_split(1) [OF assms(1)] by (cases ls) auto
  then have "length (butlast (str_split text [LF])) = 0"
    unfolding split_fold_crlf fold_lines_def by simp
  then have "butlast (str_split text [LF]) = []" by (simp only: length_0_conv)
  then have "\<not> str_contains text crlf" by (simp add: str_contains_crlf_iff)
  then show ?thesis using splitPreserve_split(2) [OF assms(1)] by (simp add: DetectLineEnding_def)
qed

lemma ReplaceEntry_result:
  assumes s: "splitPreserve text = (ls, eol, nl)" and ne: "newLine \<noteq> []"
    and r: "ReplaceEntry text oldLine newLine = Inr t"
  shows "\<exists>i < length ls. trim_space (ls ! i) = trim_space oldLine \<and>
        splitPreserve t = (ls[i := newLine], eol, nl)"
proof -
  obtain h where h: "line_hits ls (trim_space oldLine) = [h]" "single_line newLine"
    and t: "t = joinPreserve (ls[h := newLine]) eol nl" using r unfolding ReplaceEntry_Inr_iff [OF s] by blast
  have "h \<in> set (line_hits ls (trim_space oldLine))" using h by simp
  then have hl: "h < length ls" "trim_space (ls ! h) = trim_space oldLine" by (auto simp: line_hits_set)
  have "legal_lines eol nl (ls[h := newLine])"
    by (rule legal_update [OF splitPreserve_legal [OF s] h(2) ne])
  from splitPreserve_join [OF this] have "splitPreserve t = (ls[h := newLine], eol, nl)"
    using no_break_LF [OF s] t by auto
  then show ?thesis using hl by blast
qed

text \<open>
  \<^bold>\<open>C33\<close>. Replacing an Entry line succeeds exactly when the new line is a single line, the old one is
  not blank, and exactly one line of the text equals it up to surrounding white space; the result
  splits into the same lines with exactly that one exchanged, in the same newline style and with
  the same trailing newline.
\<close>

theorem ReplaceEntry_one_line:
  assumes "splitPreserve text = (ls, eol, nl)" and "newLine \<noteq> []"
  shows "((\<exists>t. ReplaceEntry text oldLine newLine = Inr t) \<longleftrightarrow>
      single_line newLine \<and> trim_space oldLine \<noteq> [] \<and>
      (\<exists>!i. i < length ls \<and> trim_space (ls ! i) = trim_space oldLine)) \<and>
    (\<forall>t. ReplaceEntry text oldLine newLine = Inr t \<longrightarrow>
      (\<exists>i < length ls. trim_space (ls ! i) = trim_space oldLine \<and>
        splitPreserve t = (ls[i := newLine], eol, nl)))"
proof -
  have "(\<exists>t. ReplaceEntry text oldLine newLine = Inr t) \<longleftrightarrow>
      single_line newLine \<and> trim_space oldLine \<noteq> [] \<and>
      (\<exists>!i. i < length ls \<and> trim_space (ls ! i) = trim_space oldLine)"
    unfolding ReplaceEntry_Inr_iff [OF assms(1)] line_hits_single [symmetric] by auto
  then show ?thesis using ReplaceEntry_result [OF assms] by blast
qed

theorem ReplaceEntry_one_line_witness:
  "ReplaceEntry (''===/r/==='' @ crlf @ ''a.go[CG9L]: x'' @ crlf) ''a.go[CG9L]: x '' ''a.go[CG8L]: y'' =
     Inr (''===/r/==='' @ crlf @ ''a.go[CG8L]: y'' @ crlf) \<and>
   splitPreserve (''===/r/==='' @ crlf @ ''a.go[CG8L]: y'' @ crlf) =
     ([''===/r/==='', ''a.go[CG9L]: x''][1 := ''a.go[CG8L]: y''], crlf, True)"
proof -
  let ?t = "''===/r/==='' @ crlf @ ''a.go[CG9L]: x'' @ crlf"
  have s: "splitPreserve ?t = ([''===/r/==='', ''a.go[CG9L]: x''], crlf, True)" by code_simp
  have r: "ReplaceEntry ?t ''a.go[CG9L]: x '' ''a.go[CG8L]: y'' =
     Inr (''===/r/==='' @ crlf @ ''a.go[CG8L]: y'' @ crlf)" by code_simp
  have "\<exists>i < length [''===/r/==='', ''a.go[CG9L]: x''].
      trim_space ([''===/r/==='', ''a.go[CG9L]: x''] ! i) = trim_space ''a.go[CG9L]: x '' \<and>
      splitPreserve (''===/r/==='' @ crlf @ ''a.go[CG8L]: y'' @ crlf) =
        ([''===/r/==='', ''a.go[CG9L]: x''][i := ''a.go[CG8L]: y''], crlf, True)"
    by (rule ReplaceEntry_one_line [OF s _, THEN conjunct2, THEN spec, THEN mp, OF _ r]) simp
  moreover have "trim_space ([''===/r/==='', ''a.go[CG9L]: x''] ! 0) \<noteq> trim_space ''a.go[CG9L]: x ''" by code_simp
  ultimately have "splitPreserve (''===/r/==='' @ crlf @ ''a.go[CG8L]: y'' @ crlf) =
        ([''===/r/==='', ''a.go[CG9L]: x''][1 := ''a.go[CG8L]: y''], crlf, True)"
    by (metis One_nat_def less_2_cases length_Cons list.size(3) numeral_2_eq_2)
  then show ?thesis using r by blast
qed

section \<open>Inserting into a section\<close>

lemma filter_drop_tail: "filter P (drop j xs) = [] \<Longrightarrow> filter P (take j xs @ y # drop j xs) = filter P xs @ filter P [y]"
proof -
  assume "filter P (drop j xs) = []"
  moreover have "filter P xs = filter P (take j xs) @ filter P (drop j xs)"
    by (metis append_take_drop_id filter_append)
  ultimately show ?thesis by simp
qed

text \<open>
  The insertion point of a directory section lies inside its group, behind its last Entry line;
  a line put there extends exactly that section.
\<close>

lemma insert_views:
  assumes k: "k < length (secs_of ls)" and dir: "AbsPath (secs_of ls ! k) \<noteq> []"
    and new: "\<not> is_boundary new" "entry_line new"
  defines "idx \<equiv> insert_after (secs_of ls ! k)"
  shows "0 < idx \<and> idx \<le> length ls \<and>
    map view_of (secs_of (take idx ls @ new # drop idx ls)) =
      (map view_of (secs_of ls))[k := apsnd (apsnd (\<lambda>es. es @ [new])) (view_of (secs_of ls ! k))]"
proof -
  let ?secs = "secs_of ls" and ?hdr = "psHeader (parse_lines ls)"
  let ?gs = "map RawLines ?secs"
  define pre where "pre = ?hdr @ concat (map RawLines (take k ?secs))"
  define post where "post = concat (map RawLines (drop (Suc k) ?secs))"
  obtain b body where g: "RawLines (?secs ! k) = b # body" "is_group (b # body)"
    and ls: "ls = pre @ (b # body) @ post"
    and st: "StartLine (?secs ! k) = Suc (length pre)"
    and nos: "map LineNo (Entries (?secs ! k)) =
      map fst (filter (\<lambda>(i, l). entry_line l) (zip [length pre + 2..<length pre + 2 + length body] body))"
    using section_in_groups [OF k] dir unfolding pre_def post_def by (metis (no_types, lifting))
  obtain j where j: "j \<le> length body" "idx = length pre + 1 + j" "filter entry_line (drop j body) = []"
  proof (cases "Entries (?secs ! k) = []")
    case True
    then have "filter (\<lambda>(i, l). entry_line l) (zip [length pre + 2..<length pre + 2 + length body] body) = []"
      using nos by simp
    then have "filter entry_line body = []"
      using filter_zip_snd [of entry_line "length pre + 2" body] by simp
    then show ?thesis using that [of 0] True st by (simp add: idx_def insert_after_def)
  next
    case False
    then have ne: "filter (\<lambda>(i, l). entry_line l) (zip [length pre + 2..<length pre + 2 + length body] body) \<noteq> []"
      using nos by (metis map_is_Nil_conv)
    have "LineNo (last (Entries (?secs ! k))) =
        fst (last (filter (\<lambda>(i, l). entry_line l) (zip [length pre + 2..<length pre + 2 + length body] body)))"
      using nos False ne by (metis last_map)
    then show ?thesis using last_filter_position [OF ne] that False
      by (auto simp: idx_def insert_after_def)
  qed
  let ?g' = "b # take j body @ new # drop j body"
  have cut: "take idx ls = pre @ b # take j body" "drop idx ls = drop j body @ post"
    unfolding ls j(2) using j(1) by simp_all
  have gr: "grouped ls ?hdr ?gs" by (rule lines_grouped)
  have sp: "?gs[k := ?g'] = map RawLines (take k ?secs) @ ?g' # map RawLines (drop (Suc k) ?secs)"
    using k by (simp add: upd_conv_take_nth_drop take_map drop_map)
  have "is_group ?g'" using g(2) new(1) j(1)
    by (auto simp: is_group_def list_all_iff dest: in_set_takeD in_set_dropD)
  then have "grouped (take idx ls @ new # drop idx ls) ?hdr (?gs[k := ?g'])"
    using gr unfolding grouped_def sp cut pre_def post_def
    by (auto simp: list_all_iff dest: in_set_takeD in_set_dropD)
  from grouped_views [OF this] have v: "map view_of (secs_of (take idx ls @ new # drop idx ls)) =
      (map group_view ?gs)[k := group_view ?g']" by (simp add: map_update)
  have ap: "fst (header_paths b) \<noteq> []" and gv: "group_view (b # body) = view_of (?secs ! k)"
  proof -
    have "map view_of ?secs = map group_view ?gs" by (rule grouped_views [OF gr])
    then have "view_of (?secs ! k) = group_view (?gs ! k)" using k by (metis nth_map length_map)
    then show "group_view (b # body) = view_of (?secs ! k)" using g(1) k by simp
    then show "fst (header_paths b) \<noteq> []" using dir
      by (auto simp: group_view_def view_of_def split: prod.splits)
  qed
  have "group_view ?g' = apsnd (apsnd (\<lambda>es. es @ [new])) (group_view (b # body))"
    using ap new(2) filter_drop_tail [OF j(3), of new] by (auto simp: group_view_def split: prod.splits)
  then have "map view_of (secs_of (take idx ls @ new # drop idx ls)) =
      (map view_of ?secs)[k := apsnd (apsnd (\<lambda>es. es @ [new])) (view_of (?secs ! k))]"
    unfolding v grouped_views [OF gr] gv by simp
  moreover have "0 < idx \<and> idx \<le> length ls" using j(1,2) arg_cong [OF ls, of length] by simp
  ultimately show ?thesis by blast
qed

lemma views_table_insert:
  assumes k: "k < length vs" and r: "resolveSectionRels (map view_section vs) root k = Some d"
  shows "\<exists>xs ys. views_table vs root = xs @ ys \<and>
    views_table (vs[k := apsnd (apsnd (\<lambda>es. es @ [new])) (vs ! k)]) root = xs @ (line_path d new, new) # ys"
proof -
  let ?vs' = "vs[k := apsnd (apsnd (\<lambda>es. es @ [new])) (vs ! k)]"
  have "list_all2 same_paths (map view_section ?vs') (map view_section vs)"
  proof (simp add: list_all2_conv_all_nth, intro allI impI)
    fix i assume "i < length vs"
    then show "same_paths (view_section (?vs' ! i)) (view_section (vs ! i))"
      by (cases "i = k"; cases "vs ! k") (auto simp: same_paths_def view_section_def split: prod.splits)
  qed
  then have rels: "resolveSectionRels (map view_section ?vs') root = resolveSectionRels (map view_section vs) root"
    by (rule resolveSectionRels_same)
  let ?f = "\<lambda>(i, v). view_row (resolveSectionRels (map view_section vs) root i) (snd (snd v))"
  have kk: "k < length (ranged vs)" using k by simp
  have nk: "ranged vs ! k = (k, vs ! k)" using k by (simp add: ranged_def)
  let ?A = "concat (map ?f (take k (ranged vs)))" and ?C = "concat (map ?f (drop (Suc k) (ranged vs)))"
  have "views_table vs root = (?A @ ?f (k, vs ! k)) @ ?C"
    unfolding views_table_def
    using arg_cong [OF id_take_nth_drop [OF kk], of "\<lambda>x. concat (map ?f x)"] nk by simp
  moreover have "views_table ?vs' root = (?A @ ?f (k, vs ! k)) @ (line_path d new, new) # ?C"
    unfolding views_table_def rels ranged_update upd_conv_take_nth_drop [OF kk]
    using r by (simp add: view_row_def)
  ultimately show ?thesis by blast
qed

text \<open>Resolving entry paths does not change which section a path belongs to.\<close>

lemma resolve_section_frame [simp]:
  "AbsPath (resolve_section r s) = AbsPath s" "LegacyAbsPath (resolve_section r s) = LegacyAbsPath s"
  "StartLine (resolve_section r s) = StartLine s" "insert_after (resolve_section r s) = insert_after s"
  by (auto simp: resolve_section_def insert_after_def last_map split: option.splits)

lemma ResolveRelPaths_same: "list_all2 same_paths (Sections (ResolveRelPaths doc root)) (Sections doc)"
  by (auto simp: list_all2_conv_all_nth same_paths_def ResolveRelPaths_def ranged_def split: prod.splits)

lemma ResolveRelPaths_nth:
  "k < length (Sections doc) \<Longrightarrow>
   \<exists>r. Sections (ResolveRelPaths doc root) ! k = resolve_section r (Sections doc ! k)"
  by (auto simp: ResolveRelPaths_def ranged_def)

lemma ResolveRelPaths_length [simp]: "length (Sections (ResolveRelPaths doc root)) = length (Sections doc)"
  by (simp add: ResolveRelPaths_def)

lemma FindSectionForPath_Some:
  "FindSectionForPath doc root relPath = Some (k, sec) \<longleftrightarrow>
     k < length (Sections doc) \<and> sec = Sections doc ! k \<and>
     resolveSectionRels (Sections doc) root k = Some (rel_dir_of relPath) \<and>
     (\<forall>j < k. resolveSectionRels (Sections doc) root j \<noteq> Some (rel_dir_of relPath))"
  unfolding FindSectionForPath_def by (rule find_ranged)

lemma FindSectionForPath_resolved:
  "FindSectionForPath (ResolveRelPaths doc root) root relPath = None \<longleftrightarrow>
   FindSectionForPath doc root relPath = None"
  unfolding FindSectionForPath_def find_ranged_None resolveSectionRels_same [OF ResolveRelPaths_same] by simp

text \<open>Only directory sections are resolved.\<close>

lemma foldl_reading_dom:
  assumes "\<And>a i sec. (i, sec) \<in> set xs \<Longrightarrow> dom (fst (f a (i, sec))) \<subseteq> insert i (dom (fst a))"
  shows "dom (fst (foldl f a xs)) \<subseteq> dom (fst a) \<union> fst ` set xs"
  using assms
proof (induction xs arbitrary: a)
  case (Cons x xs)
  have "dom (fst (foldl f (f a x) xs)) \<subseteq> dom (fst (f a x)) \<union> fst ` set xs"
    by (rule Cons.IH) (use Cons.prems in auto)
  then show ?case using Cons.prems [of "fst x" "snd x" a] by auto
qed simp

lemma relocateExtended_dom: "dom (fst (relocateExtended ms)) \<subseteq> fst ` set ms"
proof -
  let ?f = "\<lambda>prefix (out, hasRoot) (i, sec).
             (case relUnder (normalizeRootPath (AbsPath sec)) prefix of
                Some r \<Rightarrow> (out(i \<mapsto> \<lparr>rel = r, legacy = False\<rparr>), hasRoot \<or> r = [])
              | None \<Rightarrow> (out, hasRoot))"
  have "dom (fst (foldl (?f p) (Map.empty, False) ms)) \<subseteq> fst ` set ms" for p
    by (rule subset_trans [OF foldl_reading_dom]) (auto split: option.splits prod.splits if_splits)
  then show ?thesis by (auto simp: relocateExtended_def Let_def)
qed

lemma oldWriter_loop_dom:
  "oldWriter_loop ms f p out b = Some rds \<Longrightarrow> dom rds \<subseteq> dom out \<union> fst ` set ms"
proof (induction ms arbitrary: out b)
  case (Cons m ms)
  obtain i sec where m: "m = (i, sec)" by (cases m)
  show ?case using Cons.prems Cons.IH unfolding m
    by (fastforce simp: Let_def split: if_splits option.splits)
qed (auto split: if_splits)

lemma oldWriterReadings_dom: "oldWriterReadings ms f = Some rds \<Longrightarrow> dom rds \<subseteq> fst ` set ms"
  using oldWriter_loop_dom [of ms _ _ Map.empty False rds]
  by (auto simp: oldWriterReadings_def Let_def split: option.splits if_splits prod.splits)

lemma directPass_dom:
  "dom (fst (directPass ms root)) \<subseteq> fst ` set ms" "set (snd (directPass ms root)) \<subseteq> set ms"
proof -
  let ?f = "\<lambda>(rds, missed) (i, sec).
        (case relUnder (normalizeRootPath (AbsPath sec)) root of
           Some r \<Rightarrow> (rds(i \<mapsto> \<lparr>rel = r, legacy = False\<rparr>), missed)
         | None \<Rightarrow> (rds, missed @ [(i, sec)]))"
  have "dom (fst (foldl ?f (Map.empty, []) ms)) \<subseteq> fst ` set ms"
    by (rule subset_trans [OF foldl_reading_dom]) (auto split: option.splits prod.splits if_splits)
  then show "dom (fst (directPass ms root)) \<subseteq> fst ` set ms" by (simp add: directPass_def)
  have "set (snd (foldl ?f a ms)) \<subseteq> set (snd a) \<union> set ms" for a
    by (induction ms arbitrary: a) (fastforce split: option.splits prod.splits)+
  then show "set (snd (directPass ms root)) \<subseteq> set ms" unfolding directPass_def by fastforce
qed

lemma healPass_dom:
  "dom (fst (healPass rds ms f root)) \<subseteq> dom rds \<union> fst ` set ms"
  "set (snd (healPass rds ms f root)) \<subseteq> set ms"
proof -
  let ?f = "\<lambda>leg (rs, st) (i, sec).
                    (case relUnder (normalizeRootPath (AbsPath sec)) leg of
                       Some r \<Rightarrow> (rs(i \<mapsto> \<lparr>rel = r, legacy = False\<rparr>), st)
                     | None \<Rightarrow> (rs, st @ [(i, sec)]))"
  have a: "dom (fst (foldl (?f leg) (rds, []) ms)) \<subseteq> dom rds \<union> fst ` set ms" for leg
    by (rule subset_trans [OF foldl_reading_dom]) (auto split: option.splits prod.splits if_splits)
  have b: "set (snd (foldl (?f leg) a ms)) \<subseteq> set (snd a) \<union> set ms" for a leg
    by (induction ms arbitrary: a) (fastforce split: option.splits prod.splits)+
  show "dom (fst (healPass rds ms f root)) \<subseteq> dom rds \<union> fst ` set ms"
    using a by (fastforce simp: healPass_def Let_def case_prod_unfold split: option.splits if_splits)
  show "set (snd (healPass rds ms f root)) \<subseteq> set ms"
  proof (cases f)
    case (Some x)
    let ?leg = "normalizeRootPath (LegacyAbsPath (snd x))"
    obtain rs st where "foldl (?f ?leg) (rds, []) ms = (rs, st)" by fastforce
    then show ?thesis using Some b [of ?leg "(rds, [])"] by (cases x) (simp add: healPass_def Let_def)
  qed (simp add: healPass_def)
qed

lemma resolved_is_directory:
  assumes "resolveSectionReadings secs root k = Some r"
  shows "k < length secs \<and> AbsPath (secs ! k) \<noteq> []"
proof -
  let ?dirs = "directories secs" and ?first = "firstDirectorySection secs" and ?r = "normalizeRootPath root"
  have "k \<in> fst ` set ?dirs"
  proof (cases "oldWriterReadings ?dirs ?first")
    case (Some rds)
    then show ?thesis using assms oldWriterReadings_dom [OF Some]
      by (auto simp: resolveSectionReadings_def Let_def)
  next
    case old: None
    show ?thesis
    proof (cases "nestedWorktree ?dirs ?first ?r")
      case (Some rds)
      then have "rds = fst (relocateExtended ?dirs)"
        by (auto simp: nestedWorktree_def split: option.splits prod.splits if_splits)
      then show ?thesis using assms Some old relocateExtended_dom [of ?dirs]
        by (auto simp: resolveSectionReadings_def Let_def)
    next
      case None
      obtain rds ms where d: "directPass ?dirs ?r = (rds, ms)" by fastforce
      obtain rds' ms' where h: "healPass rds ms ?first ?r = (rds', ms')" by fastforce
      have dm: "dom rds \<subseteq> fst ` set ?dirs" "set ms \<subseteq> set ?dirs" using directPass_dom [of ?dirs ?r] d by auto
      have "dom rds' \<subseteq> dom rds \<union> fst ` set ms" "set ms' \<subseteq> set ms"
        using healPass_dom [of rds ms ?first ?r] h by auto
      then have hm: "dom rds' \<subseteq> fst ` set ?dirs" "set ms' \<subseteq> set ?dirs"
        using dm image_mono [OF dm(2), of fst] by blast+
      have "dom (fst (relocateExtended ms')) \<subseteq> fst ` set ?dirs"
        using relocateExtended_dom [of ms'] hm(2) by blast
      moreover have "oldWriterReadings ms' ?first = Some lg \<Longrightarrow> dom lg \<subseteq> fst ` set ?dirs" for lg
        using oldWriterReadings_dom [of ms' ?first lg] hm(2) by blast
      ultimately show ?thesis using assms old None d h dm(1) hm(1)
        by (auto simp: resolveSectionReadings_def Let_def case_prod_unfold
            split: if_splits option.splits)
    qed
  qed
  then show ?thesis by (auto simp: directories_def)
qed

lemma same_views_paths: "map view_of xs = map view_of ys \<Longrightarrow> list_all2 same_paths xs ys"
proof -
  assume "map view_of xs = map view_of ys"
  then have "list_all2 (=) (map view_of xs) (map view_of ys)" by (simp add: list.rel_eq)
  then have "list_all2 (\<lambda>x y. view_of x = view_of y) xs ys" by (simp only: list_all2_map1 list_all2_map2)
  then show ?thesis by (rule list_all2_mono) (simp add: same_paths_def view_of_def)
qed

lemma entry_line_nonempty: "entry_line l \<Longrightarrow> l \<noteq> []"
  by (auto simp: entry_line_def is_comment_or_blank_def)

lemma single_lineD: "single_line l \<Longrightarrow> LF \<notin> set l \<and> \<not> ends_cr l"
  using single_line_not_cr by (auto simp: single_line_iff)

text \<open>The sections a reader finds and those the editor works on have the same paths.\<close>

lemma reader_editor_same:
  assumes "plain_text text" "splitPreserve text = (ls, eol, nl)"
  shows "list_all2 same_paths (Sections (fst (Parse text))) (secs_of ls)"
proof -
  have "Sections (fst (Parse text)) = secs_of (ls @ (if nl then [[]] else []))"
    using splitPreserve_split(1) [OF assms(2)] plain_textD(3) [OF assms] by (simp add: stripBOM_id)
  then have "map view_of (Sections (fst (Parse text))) = map view_of (secs_of ls)"
    by (cases nl) (simp_all only: views_blank_tail if_True if_False append_Nil2)
  then show ?thesis by (rule same_views_paths)
qed

lemma InsertEntry_section:
  assumes p: "plain_text text" and s: "splitPreserve text = (ls, eol, nl)"
    and new: "single_line new" "entry_line new" "\<not> is_boundary new"
    and k: "k < length (secs_of ls)" "resolveSectionRels (secs_of ls) root k = Some d"
  defines "ls' \<equiv> take (insert_after (secs_of ls ! k)) ls @ new # drop (insert_after (secs_of ls ! k)) ls"
  shows "\<exists>xs ys. index_table text root = xs @ ys \<and>
    index_table (joinPreserve ls' eol nl) root = xs @ (line_path d new, new) # ys"
proof -
  let ?idx = "insert_after (secs_of ls ! k)"
  have dir: "AbsPath (secs_of ls ! k) \<noteq> []"
    using k(2) resolved_is_directory by (fastforce simp: resolveSectionRels_def)
  note v = insert_views [OF k(1) dir new(3,2)]
  have "legal_lines eol nl (take ?idx ls @ [new] @ drop ?idx ls)"
    using v single_lineD [OF new(1)] entry_line_nonempty [OF new(2)] plain_textD(1) [OF p s]
    by (intro legal_insert splitPreserve_legal [OF s]) simp_all
  then have legal: "legal_lines eol nl ls'" by (simp add: ls'_def)
  have hd: "hd ls' = hd ls" using v unfolding ls'_def by (cases ls; cases ?idx) auto
  have rels: "resolveSectionRels (map view_section (map view_of (secs_of ls))) root k = Some d"
    using resolveSectionRels_same [OF same_paths_view] k(2) by metis
  have t': "index_table (joinPreserve ls' eol nl) root = views_table (map view_of (secs_of ls')) root"
    by (rule edited_table [OF p s legal hd])
  have t: "index_table text root = views_table (map view_of (secs_of ls)) root"
    by (rule plain_table [OF plain_textD(3) [OF p s] s])
  show ?thesis unfolding t t' using views_table_insert [OF _ rels, of new] v k(1) by (simp add: ls'_def)
qed

section \<open>Inserting a section\<close>

lemma views_snoc:
  "map view_of (secs_of (ls @ [l])) =
     (if is_boundary l then map view_of (secs_of ls) @ [group_view [l]]
      else if secs_of ls = [] then []
      else map view_of (butlast (secs_of ls)) @
           [apsnd (apsnd (\<lambda>es. es @ (if AbsPath (last (secs_of ls)) \<noteq> [] \<and> entry_line l then [l] else [])))
              (view_of (last (secs_of ls)))])"
proof (cases "is_boundary l")
  case True
  then show ?thesis by (simp add: parse_lines_snoc parse_line_boundary view_of_new_section)
next
  case nb: False
  show ?thesis
  proof (cases "psInHeader (parse_lines ls)")
    case True
    then show ?thesis using nb parse_lines_ok [of ls] by (simp add: parse_lines_snoc parse_line_header)
  next
    case False
    then obtain secs sec where s: "secs_of ls = secs @ [sec]"
      using parse_lines_ok [of ls] by (metis append_butlast_last_id)
    then show ?thesis using parse_line_section [OF nb False s] nb
      by (simp add: parse_lines_snoc view_of_def line_entry_iff)
  qed
qed

lemma boundary_prefix: "is_boundary l \<Longrightarrow> has_prefix l ''===''"
proof -
  have "\<exists>w. l = strip_re_space l @ w"
    unfolding strip_re_space_def using dropWhile_rev_prefix by blast
  then show "is_boundary l \<Longrightarrow> has_prefix l ''===''"
    by (auto simp: is_boundary_def consistencySepRe_def consistencyDirRe_def Let_def has_prefix_iff
        simp del: has_prefix_Cons split: if_splits) 
qed

lemma boundary_not_comment: "is_boundary l \<Longrightarrow> \<not> is_comment_or_blank l"
proof
  assume b: "is_boundary l" and c: "is_comment_or_blank l"
  obtain u where l: "l = CHR ''='' # u" using boundary_prefix [OF b] by (auto simp: has_prefix_iff)
  have left: "trim_left_func is_space l = l"
    by (rule trim_left_func_id) (simp add: l decode_rune_ascii is_space_def)
  have "\<exists>r \<in> set (runes l). \<not> is_space r" by (simp add: l runes_ascii is_space_def)
  then have ne: "trim_space l \<noteq> []" using trim_space_eq_Nil_iff by blast
  obtain v where v: "l = trim_space l @ v"
    using trim_right_func_prefix [of l is_space] left by (auto simp: trim_space_def)
  then show False using c ne l by (cases "trim_space l") (auto simp: is_comment_or_blank_def)
qed

lemma views_comment_tail:
  "list_all is_comment_or_blank t \<Longrightarrow> map view_of (secs_of (ls @ t)) = map view_of (secs_of ls)"
proof (induction t rule: rev_induct)
  case (snoc l t)
  have "\<not> is_boundary l" "\<not> entry_line l"
    using snoc.prems boundary_not_comment by (auto simp: entry_line_def)
  moreover have "map view_of (secs_of ((ls @ t) @ [l])) = map view_of (secs_of (ls @ t))"
  proof (cases "secs_of (ls @ t) = []")
    case False
    then have "map view_of (secs_of (ls @ t)) =
        map view_of (butlast (secs_of (ls @ t))) @ [view_of (last (secs_of (ls @ t)))]"
      by (rule map_split_last)
    then show ?thesis unfolding views_snoc using calculation False by (simp add: apsnd_def map_prod_def case_prod_unfold)
  qed (use calculation views_snoc [of "ls @ t" l] in simp)
  ultimately show ?case using snoc by simp
qed simp

lemma class_run_split: "s = fst (class_run s) @ snd (class_run s)"
  by (induction s rule: class_run.induct) auto

lemma class_run_no_LF: "LF \<notin> set (fst (class_run s))"
  by (induction s rule: class_run.induct) (auto simp: path_cut_def re_space_def)

lemma strip_re_space_id: "s \<noteq> [] \<Longrightarrow> \<not> re_space (last s) \<Longrightarrow> strip_re_space s = s"
  by (cases s rule: rev_cases) (simp_all add: strip_re_space_def)

lemma dir_tail_no_LF: "dir_tail s = Some x \<Longrightarrow> s \<noteq> [] \<Longrightarrow> \<not> re_space (last s) \<Longrightarrow> LF \<notin> set s"
proof -
  assume a: "dir_tail s = Some x" "s \<noteq> []" "\<not> re_space (last s)"
  then obtain t where "s = t @ ''===''" "LF \<notin> set t"
    by (auto simp: dir_tail_def Let_def strip_re_space_id has_suffix_iff split: if_splits)
  then show ?thesis by simp
qed

lemma dir_at_split: "dir_at s = Some (p, rest) \<Longrightarrow> s = p @ rest \<and> LF \<notin> set p"
proof -
  assume a: "dir_at s = Some (p, rest)"
  let ?drive = "2 \<le> length s \<and> is_letter (s ! 0) \<and> s ! 1 = CHR '':''"
  define d where "d = (if ?drive then take 2 s else [])"
  define r where "r = (if ?drive then drop 2 s else s)"
  have s: "s = d @ r" by (simp add: d_def r_def)
  have d: "LF \<notin> set d"
    by (cases s; cases "tl s") (auto simp: d_def is_letter_def)
  have r: "has_prefix r slash" "p = d @ slash @ fst (class_run (tl r))" "rest = snd (class_run (tl r))"
    using a unfolding dir_at_def Let_def d_def [symmetric] r_def [symmetric] by (auto split: if_splits)
  then have "r = slash @ tl r" by (cases r) auto
  then have "s = d @ slash @ fst (class_run (tl r)) @ snd (class_run (tl r))"
    using s class_run_split [of "tl r"] by metis
  then have "s = p @ rest" unfolding r(2,3) by simp
  moreover have "LF \<notin> set p" unfolding r(2) using d class_run_no_LF by simp
  ultimately show ?thesis by blast
qed

lemma dir_search_no_LF:
  "dir_search acc s = Some x \<Longrightarrow> s = u @ ''==='' \<Longrightarrow> LF \<notin> set s"
proof (induction acc s arbitrary: u rule: dir_search.induct)
  case (2 acc c s)
  show ?case
  proof (cases "\<exists>p rest y. dir_at (c # s) = Some (p, rest) \<and> dir_tail rest = Some y")
    case True
    then obtain p rest y where d: "dir_at (c # s) = Some (p, rest)" "dir_tail rest = Some y" by blast
    note sp = dir_at_split [OF d(1)]
    have ne: "rest \<noteq> []" using d(2) by (auto simp: dir_tail_def strip_re_space_def has_suffix_iff Let_def)
    have "last (c # s) = CHR ''=''" using "2.prems"(2) by simp
    then have "last rest = CHR ''=''" using sp ne by (metis last_append)
    then have "LF \<notin> set rest" using dir_tail_no_LF [OF d(2) ne] by (simp add: re_space_def)
    then show ?thesis using sp by auto
  next
    case False
    then have c: "c \<noteq> LF" "dir_search (c # acc) s = Some x"
      using "2.prems"(1) by (auto split: option.splits if_splits)
    show ?thesis
    proof (cases u)
      case (Cons a v)
      then have "LF \<notin> set s" using "2.IH" c "2.prems"(2) False by (fastforce split: option.splits)
      then show ?thesis using c by simp
    qed (use "2.prems"(2) in auto)
  qed
qed simp

lemma section_header_no_LF:
  assumes "matchDirHeader (section_header d) \<noteq> None"
  shows "LF \<notin> set (section_header d)" "\<not> ends_cr (section_header d)" "is_boundary (section_header d)"
proof -
  obtain x where x: "consistencyDirRe (section_header d) = Some x"
    using assms by (auto simp: matchDirHeader_def split: option.splits)
  then have "dir_search [] (d @ ''==='') = Some x" by (simp add: consistencyDirRe_def section_header_def)
  from dir_search_no_LF [OF this refl] show "LF \<notin> set (section_header d)" by (simp add: section_header_def)
  show "\<not> ends_cr (section_header d)" by (simp add: section_header_def ends_cr_def)
  show "is_boundary (section_header d)" using x by (simp add: is_boundary_def)
qed

lemma views_headers:
  assumes "\<forall>h \<in> set hs. is_boundary h"
  shows "map view_of (secs_of (ls @ concat (map (\<lambda>h. [[], h]) hs))) =
    map view_of (secs_of ls) @ map (\<lambda>h. group_view [h]) hs"
  using assms
proof (induction hs rule: rev_induct)
  case (snoc h hs)
  let ?p = "ls @ concat (map (\<lambda>h. [[], h]) hs)"
  have "map view_of (secs_of ((?p @ [[]]) @ [h])) = map view_of (secs_of (?p @ [[]])) @ [group_view [h]]"
    unfolding views_snoc using snoc.prems by simp
  then show ?case using snoc views_blank_tail [of ?p] by simp
qed simp

lemma trailing_comments_dropped:
  "list_all is_comment_or_blank (drop (length ls - trailing_comments (rev ls)) ls)"
proof -
  have le: "trailing_comments xs \<le> length xs \<and> list_all is_comment_or_blank (take (trailing_comments xs) xs)" for xs
    by (induction xs) (auto simp: is_comment_or_blank_def)
  have "drop (length ls - trailing_comments (rev ls)) ls = rev (take (trailing_comments (rev ls)) (rev ls))"
    using le [of "rev ls"] by (simp add: take_rev)
  then show ?thesis using le [of "rev ls"] by (simp add: list_all_iff)
qed

lemma appendIndex_tail:
  assumes "ls \<noteq> []" "\<forall>sec \<in> set (Sections doc). 1 \<le> StartLine sec"
  shows "list_all is_comment_or_blank (drop (appendIndexForNewSection ls doc) ls) \<and>
    0 < appendIndexForNewSection ls doc"
proof -
  have "0 < StartLine (last (Sections doc))" if "Sections doc \<noteq> []"
    using that assms(2) last_in_set [OF that] by fastforce
  then show ?thesis using trailing_comments_dropped [of ls] assms(1)
    by (auto simp: appendIndexForNewSection_def Let_def)
qed

lemma planNewSection_headers:
  assumes "planNewSection doc root relPath = Inr hs"
  shows "sectionsResolveLast doc hs root (rel_dir_of relPath)" "\<exists>ds. hs = map section_header ds"
proof -
  show "sectionsResolveLast doc hs root (rel_dir_of relPath)"
    using assms by (auto simp: planNewSection_def Let_def split: sum.splits if_splits)
  have "\<exists>r d. hs = [section_header d] \<or> hs = [section_header r, section_header d]"
    using assms by (auto simp: planNewSection_def Let_def split: sum.splits if_splits)
  then show "\<exists>ds. hs = map section_header ds" by (metis list.simps(8,9))
qed

text \<open>The view of a text with a planned section and its first Entry appended.\<close>

lemma append_views:
  assumes hs: "\<forall>h \<in> set hs. is_boundary h" "hs \<noteq> []" and dir: "fst (group_view [last hs]) \<noteq> []"
    and tail: "list_all is_comment_or_blank (drop idx ls)" and new: "\<not> is_boundary new" "entry_line new"
  shows "map view_of (secs_of (take idx ls @ concat (map (\<lambda>h. [[], h]) hs) @ new # drop idx ls)) =
    map view_of (secs_of ls) @ map (\<lambda>h. group_view [h]) (butlast hs) @
      [apsnd (apsnd (\<lambda>es. es @ [new])) (group_view [last hs])]"
proof -
  let ?p = "take idx ls @ concat (map (\<lambda>h. [[], h]) hs)"
  have base: "map view_of (secs_of (take idx ls)) = map view_of (secs_of ls)"
    using views_comment_tail [OF tail, of "take idx ls"] by simp
  have vp: "map view_of (secs_of ?p) = map view_of (secs_of ls) @ map (\<lambda>h. group_view [h]) hs"
    unfolding views_headers [OF hs(1)] base ..
  then have ne: "secs_of ?p \<noteq> []" using hs(2) by auto
  have hsplit: "map (\<lambda>h. group_view [h]) hs = map (\<lambda>h. group_view [h]) (butlast hs) @ [group_view [last hs]]"
    by (rule map_split_last [OF hs(2)])
  have psplit: "map view_of (secs_of ?p) = map view_of (butlast (secs_of ?p)) @ [view_of (last (secs_of ?p))]"
    by (rule map_split_last [OF ne])
  from vp have "map view_of (butlast (secs_of ?p)) @ [view_of (last (secs_of ?p))] =
      (map view_of (secs_of ls) @ map (\<lambda>h. group_view [h]) (butlast hs)) @ [group_view [last hs]]"
    unfolding hsplit psplit by (simp only: append_assoc)
  then have eqs: "map view_of (butlast (secs_of ?p)) = map view_of (secs_of ls) @ map (\<lambda>h. group_view [h]) (butlast hs)"
    "view_of (last (secs_of ?p)) = group_view [last hs]"
    by (simp_all only: append1_eq_conv)
  have "AbsPath (last (secs_of ?p)) \<noteq> []" using dir unfolding eqs(2) [symmetric] by (simp add: view_of_def)
  then have "map view_of (secs_of (?p @ [new])) =
      map view_of (secs_of ls) @ map (\<lambda>h. group_view [h]) (butlast hs) @
      [apsnd (apsnd (\<lambda>es. es @ [new])) (group_view [last hs])]"
    unfolding views_snoc using ne new eqs by simp
  then show ?thesis using views_comment_tail [OF tail, of "?p @ [new]"] by simp
qed

lemma views_table_lines: "map snd (views_table vs root) = concat (map (\<lambda>v. snd (snd v)) vs)"
proof -
  have "map snd (view_row r es) = es" for r es by (simp add: view_row_def comp_def)
  then have "map snd (views_table vs root) = concat (map (\<lambda>(i, v). snd (snd v)) (ranged vs))"
    by (simp add: views_table_def map_concat comp_def case_prod_unfold)
  then show ?thesis using map_ranged_snd [of "\<lambda>v. snd (snd v)" vs] by (simp add: case_prod_unfold)
qed

lemma views_table_last:
  assumes "resolveSectionRels (map view_section (vs @ [v])) root (length vs) = Some d" "new \<in> set (snd (snd v))"
  shows "(line_path d new, new) \<in> set (views_table (vs @ [v]) root)"
proof -
  let ?f = "\<lambda>(i, v'). view_row (resolveSectionRels (map view_section (vs @ [v])) root i) (snd (snd v'))"
  have "(length vs, v) \<in> set (ranged (vs @ [v]))" by (simp add: ranged_snoc)
  then have "?f (length vs, v) \<in> set (map ?f (ranged (vs @ [v])))" 
    using imageI [of "(length vs, v)" _ ?f] by (simp only: set_map)
  moreover have "(line_path d new, new) \<in> set (?f (length vs, v))"
    using assms by (simp add: view_row_def)
  ultimately show ?thesis unfolding views_table_def set_concat by (rule UN_I)
qed

text \<open>The whole of \<open>InsertEntry\<close>, seen by readers.\<close>

lemma header_view_same:
  "matchDirHeader h \<noteq> None \<Longrightarrow> same_paths (planned_section (the (matchDirHeader h))) (view_section (group_view [h]))"
  by (auto simp: same_paths_def planned_section_def group_view_def header_paths_def split: option.splits)

lemma sectionsResolveLast_views:
  assumes "sectionsResolveLast doc hs root d" "list_all2 same_paths (Sections doc) secs"
  shows "resolveSectionRels (map view_section (map view_of secs @ map (\<lambda>h. group_view [h]) hs)) root
      (length secs + length hs - 1) = Some d"
    and "hs \<noteq> []" "\<forall>h \<in> set hs. matchDirHeader h \<noteq> None"
proof -
  show ne: "hs \<noteq> []" and m: "\<forall>h \<in> set hs. matchDirHeader h \<noteq> None"
    using assms(1) by (auto simp: sectionsResolveLast_def list_all_iff)
  let ?app = "Sections doc @ map (\<lambda>h. planned_section (the (matchDirHeader h))) hs"
  have "list_all2 same_paths (map (\<lambda>h. planned_section (the (matchDirHeader h))) hs)
      (map view_section (map (\<lambda>h. group_view [h]) hs))"
    using m header_view_same by (simp add: list_all2_conv_all_nth)
  moreover have "list_all2 same_paths (Sections doc) (map view_section (map view_of secs))"
  proof -
    have "list_all2 same_paths secs (map view_section (map view_of secs))" by (rule same_paths_view)
    then show ?thesis using assms(2) by (auto simp: list_all2_conv_all_nth same_paths_def)
  qed
  ultimately have "list_all2 same_paths ?app
      (map view_section (map view_of secs @ map (\<lambda>h. group_view [h]) hs))"
    by (simp add: list_all2_appendI)
  from resolveSectionRels_same [OF this, of root]
  show "resolveSectionRels (map view_section (map view_of secs @ map (\<lambda>h. group_view [h]) hs)) root
      (length secs + length hs - 1) = Some d"
    using assms list_all2_lengthD [OF assms(2)] by (simp add: sectionsResolveLast_def Let_def)
qed

lemma InsertEntry_new_section:
  assumes p: "plain_text text" and s: "splitPreserve text = (ls, eol, nl)"
    and new: "single_line new" "entry_line new" "\<not> is_boundary new"
    and doc: "list_all2 same_paths (Sections doc) (secs_of ls)" "map StartLine (Sections doc) = map StartLine (secs_of ls)"
    and plan: "planNewSection doc root relPath = Inr hs"
  defines "idx \<equiv> appendIndexForNewSection ls doc"
  defines "ls' \<equiv> take idx ls @ concat (map (\<lambda>h. [[], h]) hs) @ new # drop idx ls"
  shows "(line_path (rel_dir_of relPath) new, new) \<in> set (index_table (joinPreserve ls' eol nl) root) \<and>
    map snd (index_table (joinPreserve ls' eol nl) root) = map snd (index_table text root) @ [new]"
proof -
  note r = sectionsResolveLast_views [OF planNewSection_headers(1) [OF plan] doc(1)]
  obtain ds where ds: "hs = map section_header ds" using planNewSection_headers(2) [OF plan] by blast
  have hok: "\<forall>h \<in> set hs. LF \<notin> set h \<and> \<not> ends_cr h" "\<forall>h \<in> set hs. is_boundary h"
    using r(3) section_header_no_LF unfolding ds by auto
  have ls: "ls \<noteq> []" using splitPreserve_legal [OF s] by (simp add: legal_lines_def)
  have "\<forall>sec \<in> set (secs_of ls). 1 \<le> StartLine sec"
    using parsed_ok_section [OF parse_lines_parsed_ok] unfolding section_ok_def by blast
  then have "\<forall>sec \<in> set (Sections doc). 1 \<le> StartLine sec"
    using doc(2) by (metis (no_types, opaque_lifting) image_iff image_set)
  note ai = appendIndex_tail [OF ls this]
  let ?vs = "map view_of (secs_of ls) @ map (\<lambda>h. group_view [h]) (butlast hs)"
  let ?v = "apsnd (apsnd (\<lambda>es. es @ [new])) (group_view [last hs])"
  have hl: "map (\<lambda>h. group_view [h]) hs = map (\<lambda>h. group_view [h]) (butlast hs) @ [group_view [last hs]]"
    by (rule map_split_last [OF r(2)])
  have len: "length (secs_of ls) + length hs - 1 = length ?vs" using r(2) by (cases hs) auto
  have "list_all2 same_paths (map view_section (?vs @ [?v])) (map view_section (?vs @ [group_view [last hs]]))"
    by (simp add: list_all2_conv_all_nth same_paths_def nth_append)
  from resolveSectionRels_same [OF this, of root] r(1)
  have res: "resolveSectionRels (map view_section (?vs @ [?v])) root (length ?vs) = Some (rel_dir_of relPath)"
    unfolding hl len by simp
  then have dir: "fst (group_view [last hs]) \<noteq> []"
    using resolved_is_directory [of "map view_section (?vs @ [?v])" root "length ?vs"]
    by (auto simp: resolveSectionRels_def nth_append)
  have views: "map view_of (secs_of ls') = ?vs @ [?v]"
    unfolding ls'_def using append_views [OF hok(2) r(2) dir _ new(3,2)] ai by (simp add: idx_def)
  have "legal_lines eol nl (take idx ls @ (concat (map (\<lambda>h. [[], h]) hs) @ [new]) @ drop idx ls)"
    using ai hok single_lineD [OF new(1)] entry_line_nonempty [OF new(2)] plain_textD(1) [OF p s]
    by (intro legal_insert splitPreserve_legal [OF s]) (auto simp: idx_def)
  then have legal: "legal_lines eol nl ls'" by (simp add: ls'_def)
  have hd: "hd ls' = hd ls" using ai ls unfolding ls'_def idx_def by (cases ls; cases "appendIndexForNewSection ls doc") auto
  have t: "index_table text root = views_table (map view_of (secs_of ls)) root"
    by (rule plain_table [OF plain_textD(3) [OF p s] s])
  have empty: "concat (map (\<lambda>v. snd (snd v)) (map (\<lambda>h. group_view [h]) xs)) = []" for xs
    by (auto simp: group_view_def split: prod.splits)
  have "snd (snd ?v) = [new]" by (auto simp: group_view_def apsnd_def split: prod.splits)
  then show ?thesis
    unfolding edited_table [OF p s legal hd] views t views_table_lines
    using views_table_last [OF res, of new] empty by simp
qed

lemma resolved_doc_sections:
  assumes "plain_text text" "splitPreserve text = (ls, eol, nl)"
  shows "list_all2 same_paths (Sections (ResolveRelPaths (editor_doc ls) root)) (secs_of ls)"
    and "map StartLine (Sections (ResolveRelPaths (editor_doc ls) root)) = map StartLine (secs_of ls)"
    and "map insert_after (Sections (ResolveRelPaths (editor_doc ls) root)) = map insert_after (secs_of ls)"
  using ResolveRelPaths_same [of "editor_doc ls" root] editor_sections [OF assms]
  by (simp_all add: ResolveRelPaths_def comp_def case_prod_unfold map_ranged_snd)

text \<open>The plan of a section depends on the document through its header paths only.\<close>

lemma append_root_loop_same:
  assumes "same_refs xs ys" "map (AbsPath \<circ> snd) xs = map (AbsPath \<circ> snd) ys"
  shows "append_root_loop rds xs r = append_root_loop rds ys r"
  using assms
proof (induction arbitrary: r rule: list_all2_induct)
  case (Cons x xs y ys)
  obtain i s t where xy: "x = (i, s)" "y = (i, t)" "same_paths s t"
    using Cons.hyps(1) by (cases x; cases y) auto
  have a: "AbsPath s = AbsPath t" "LegacyAbsPath s = LegacyAbsPath t"
    using xy(3) by (simp_all add: same_paths_def)
  have c: "section_candidate rd s = section_candidate rd t" for rd
    unfolding section_candidate_def reading_path_def a ..
  have ih: "append_root_loop rds xs r = append_root_loop rds ys r" for r
    using Cons.IH Cons.prems by simp
  show ?case unfolding xy(1,2) append_root_loop.simps c a ih ..
qed simp

lemma planNewSection_same:
  assumes "list_all2 same_paths (Sections doc) (Sections doc')"
  shows "planNewSection doc root relPath = planNewSection doc' root relPath"
proof -
  note d = directories_same [OF assms] and f = first_same [OF assms]
  have "map (AbsPath \<circ> snd) (directories (Sections doc)) = map (AbsPath \<circ> snd) (directories (Sections doc'))"
    using d by (induction rule: list_all2_induct) (auto simp: same_ref_def same_paths_def)
  then have r: "appendSectionRoot doc root = appendSectionRoot doc' root"
    unfolding appendSectionRoot_def resolveSectionReadings_same [OF assms] same_refs_Nil [OF d]
    using append_root_loop_same [OF d] by simp
  have n: "firstDirectorySection (Sections doc) = None \<longleftrightarrow> firstDirectorySection (Sections doc') = None"
    using f by (auto simp: same_first_def)
  have l: "sectionsResolveLast doc hs root rd = sectionsResolveLast doc' hs root rd" for hs rd
  proof -
    let ?p = "map (\<lambda>h. planned_section (the (matchDirHeader h))) hs"
    have "list_all2 same_paths (Sections doc @ ?p) (Sections doc' @ ?p)"
      using assms by (intro list_all2_appendI list_all2_refl) (simp_all add: same_paths_def)
    from resolveSectionRels_same [OF this, of root] list_all2_lengthD [OF assms]
    show ?thesis by (simp add: sectionsResolveLast_def Let_def)
  qed
  show ?thesis unfolding planNewSection_def r n l ..
qed

text \<open>
  \<^bold>\<open>C4\<close>. Insert, then look up: whenever \<open>InsertEntry\<close> accepts an Entry line for a path, a reader of
  the new text at the same repository root finds that line under the directory of the path, and
  finds every Entry line that was there before, in the same order. This covers both branches,
  insertion into an existing section and the appended section of a new directory.
\<close>

theorem InsertEntry_lookup:
  assumes "plain_text text" and "entry_line new" and "\<not> is_boundary new"
    and "InsertEntry text relPath new root = Inr t"
  shows "(line_path (rel_dir_of relPath) new, new) \<in> set (index_table t root) \<and>
    (\<exists>xs ys. map snd (index_table text root) = xs @ ys \<and> map snd (index_table t root) = xs @ new # ys)"
proof -
  obtain ls eol nl where s: "splitPreserve text = (ls, eol, nl)" by (metis prod_cases3)
  let ?doc = "ResolveRelPaths (editor_doc ls) root"
  note d = resolved_doc_sections [OF assms(1) s, of root]
  have single: "single_line new" using assms(4) by (auto simp: InsertEntry_def single_line_def split: if_splits)
  have ins: "InsertEntry text relPath new root =
      (case FindSectionForPath ?doc root relPath of
          Some (k, sec) \<Rightarrow>
            let idx = min (insert_after sec) (length ls)
            in Inr (joinPreserve (take idx ls @ new # drop idx ls) eol nl)
        | None \<Rightarrow>
            (case planNewSection ?doc root relPath of
               Inl err \<Rightarrow> Inl err
             | Inr headers \<Rightarrow>
                 let idx = appendIndexForNewSection ls ?doc
                 in Inr (joinPreserve (take idx ls @ concat (map (\<lambda>h. [[], h]) headers) @ new # drop idx ls) eol nl)))"
    using single s by (simp add: InsertEntry_def single_line_def Let_def)
  show ?thesis
  proof (cases "FindSectionForPath ?doc root relPath")
    case None
    then obtain hs where "planNewSection ?doc root relPath = Inr hs" using ins assms(4) by (auto split: sum.splits)
    then show ?thesis
      using InsertEntry_new_section [OF assms(1) s single assms(2,3) d(1,2)] ins None assms(4)
      by (auto simp: Let_def)
  next
    case (Some ks)
    then obtain k sec where ks: "FindSectionForPath ?doc root relPath = Some (k, sec)" by (cases ks) auto
    note f = ks [unfolded FindSectionForPath_Some]
    have k: "k < length (secs_of ls)" using f list_all2_lengthD [OF d(1)] by simp
    have rel: "resolveSectionRels (secs_of ls) root k = Some (rel_dir_of relPath)"
      using f resolveSectionRels_same [OF d(1)] by simp
    have "insert_after sec = insert_after (secs_of ls ! k)" using f k d(3) by (metis nth_map length_map)
    moreover have "AbsPath (secs_of ls ! k) \<noteq> []"
      using rel resolved_is_directory by (fastforce simp: resolveSectionRels_def)
    then have "insert_after (secs_of ls ! k) \<le> length ls" using insert_views [OF k _ assms(3,2)] by blast
    ultimately have t: "t = joinPreserve (take (insert_after (secs_of ls ! k)) ls @ new #
        drop (insert_after (secs_of ls ! k)) ls) eol nl"
      using ins ks assms(4) by (simp add: Let_def min_absorb1)
    from InsertEntry_section [OF assms(1) s single assms(2,3) k rel] obtain xs ys where
      "index_table text root = xs @ ys" "index_table t root = xs @ (line_path (rel_dir_of relPath) new, new) # ys"
      unfolding t by blast
    then show ?thesis by auto
  qed
qed

theorem InsertEntry_lookup_witness:
  "InsertEntry (''#h'' @ [LF] @ ''===/old/==='' @ [LF] @ ''a.go[CG9L]: x'' @ [LF] @ ''#end'') ''lib/b.go''
     ''b.go[CG8L]: y'' ''/home/me'' =
   Inr (''#h'' @ [LF] @ ''===/old/==='' @ [LF] @ ''a.go[CG9L]: x'' @ [LF] @ [LF] @
     ''===/old/lib/==='' @ [LF] @ ''b.go[CG8L]: y'' @ [LF] @ ''#end'') \<and>
   (''lib/b.go'', ''b.go[CG8L]: y'') \<in> set (index_table (''#h'' @ [LF] @ ''===/old/==='' @ [LF] @
     ''a.go[CG9L]: x'' @ [LF] @ [LF] @ ''===/old/lib/==='' @ [LF] @ ''b.go[CG8L]: y'' @ [LF] @ ''#end'') ''/home/me'')"
proof -
  let ?t = "''#h'' @ [LF] @ ''===/old/==='' @ [LF] @ ''a.go[CG9L]: x'' @ [LF] @ ''#end''"
  have r: "InsertEntry ?t ''lib/b.go'' ''b.go[CG8L]: y'' ''/home/me'' =
    Inr (''#h'' @ [LF] @ ''===/old/==='' @ [LF] @ ''a.go[CG9L]: x'' @ [LF] @ [LF] @
     ''===/old/lib/==='' @ [LF] @ ''b.go[CG8L]: y'' @ [LF] @ ''#end'')" by code_simp
  have p: "plain_text ?t" by code_simp
  have e: "entry_line ''b.go[CG8L]: y''" by code_simp
  have b: "\<not> is_boundary ''b.go[CG8L]: y''" by code_simp
  have l: "line_path (rel_dir_of ''lib/b.go'') ''b.go[CG8L]: y'' = ''lib/b.go''" by code_simp
  show ?thesis using InsertEntry_lookup [OF p e b r, THEN conjunct1, unfolded l] r by (rule conjI [rotated])
qed

text \<open>
  The planner's probe and the writer cannot disagree: for a single-line Entry,
  \<open>InsertEntry\<close> fails exactly when \<open>CheckInsertable\<close> reports an error, and with that error.
\<close>

theorem CheckInsertable_agrees:
  assumes "single_line new"
  shows "(case InsertEntry text relPath new root of Inl err \<Rightarrow> Some err | Inr _ \<Rightarrow> None) =
    CheckInsertable text relPath root"
proof -
  obtain ls eol nl where s: "splitPreserve text = (ls, eol, nl)" by (metis prod_cases3)
  let ?doc = "ResolveRelPaths (editor_doc ls) root"
  have same: "list_all2 same_paths (Sections ?doc) (Sections (editor_doc ls))" by (rule ResolveRelPaths_same)
  have plan: "planNewSection ?doc root relPath = planNewSection (editor_doc ls) root relPath"
    by (rule planNewSection_same [OF same])
  show ?thesis
    using s assms plan FindSectionForPath_resolved [of "editor_doc ls" root relPath]
    by (auto simp: InsertEntry_def CheckInsertable_def Check_def NewInsertProbe_def single_line_def Let_def
        split: option.splits sum.splits)
qed

theorem CheckInsertable_agrees_witness:
  "(case InsertEntry ''===/r/==='' '' x/b.go'' ''b.go[CG8L]: y'' ''/r'' of Inl err \<Rightarrow> Some err | Inr _ \<Rightarrow> None) =
    CheckInsertable ''===/r/==='' '' x/b.go'' ''/r'' \<and>
   CheckInsertable ''===/r/==='' '' x/b.go'' ''/r'' = Some (DirectoryUnspellable '' x'' False)"
proof -
  have s: "single_line ''b.go[CG8L]: y''" by code_simp
  have c: "CheckInsertable ''===/r/==='' '' x/b.go'' ''/r'' = Some (DirectoryUnspellable '' x'' False)"
    by code_simp
  show ?thesis using CheckInsertable_agrees [OF s] c by (rule conjI)
qed

end
