(* ===== verification/Index_Remove_Laws.thy ===== *)
theory Index_Remove_Laws
  imports Index_Edit_Laws
begin

text \<open>
  Laws of the path-addressed editors and of pruning: what \<open>ReplaceEntryForPath\<close>,
  \<open>RemoveEntryForPath\<close> and \<open>PruneEmptySections\<close> do to the table of an index.
\<close>

section \<open>Editing one line inside a section\<close>

text \<open>
  Lines behind a prefix with an open section: the section collects the Entry lines up to the next
  \<open>===\<close> line, everything after that does not depend on the prefix.
\<close>

lemma views_frame:
  "\<exists>R. (R = [] \<longleftrightarrow> list_all (\<lambda>l. \<not> is_boundary l) B) \<and>
    (\<forall>A V a g es. map view_of (secs_of A) = V @ [(a, g, es)] \<longrightarrow>
      map view_of (secs_of (A @ B)) =
        V @ (a, g, es @ (if a = [] then [] else filter entry_line (takeWhile (\<lambda>l. \<not> is_boundary l) B))) # R)"
proof (induction B rule: rev_induct)
  case (snoc l B)
  let ?nb = "\<lambda>l. \<not> is_boundary l"
  let ?mid = "\<lambda>a B. if a = [] then [] else filter entry_line (takeWhile ?nb B)"
  from snoc obtain R where R: "R = [] \<longleftrightarrow> list_all ?nb B"
    and main: "\<And>A V a g es. map view_of (secs_of A) = V @ [(a, g, es)] \<Longrightarrow>
      map view_of (secs_of (A @ B)) = V @ (a, g, es @ ?mid a B) # R" by blast
  show ?case
  proof (cases "is_boundary l")
    case True
    have "takeWhile ?nb (B @ [l]) = takeWhile ?nb B" using True by (induction B) auto
    then show ?thesis using True main views_snoc [of "_ @ B" l]
      by (intro exI [of _ "R @ [group_view [l]]"]) simp
  next
    case nb: False
    let ?ext = "\<lambda>v. apsnd (apsnd (\<lambda>es. es @ (if fst v \<noteq> [] \<and> entry_line l then [l] else []))) v"
    have step: "map view_of (secs_of (C @ [l])) = W @ [?ext w]" if "map view_of (secs_of C) = W @ [w]" for C W w
    proof -
      have ne: "secs_of C \<noteq> []" using that by auto
      have "map view_of (butlast (secs_of C)) @ [view_of (last (secs_of C))] = W @ [w]"
        using that map_split_last [OF ne, of view_of] by simp
      then show ?thesis unfolding views_snoc using nb ne by (auto simp: view_of_def)
    qed
    show ?thesis
    proof (cases "R = []")
      case True
      then have all: "list_all ?nb B" using R by simp
      then have tw: "takeWhile ?nb (B @ [l]) = B @ [l]" "takeWhile ?nb B = B"
        using nb by (auto simp: list_all_iff takeWhile_eq_all_conv)
      have "map view_of (secs_of (A @ B @ [l])) = V @ [(a, g, es @ ?mid a (B @ [l]))]"
        if "map view_of (secs_of A) = V @ [(a, g, es)]" for A V a g es
        using step [of "A @ B" V "(a, g, es @ ?mid a B)"] main [OF that] True unfolding tw by simp
      then show ?thesis using all nb by (intro exI [of _ "[]"]) simp
    next
      case False
      then obtain R' r where Rr: "R = R' @ [r]" by (cases R rule: rev_cases) auto
      have "\<not> list_all ?nb B" using R False by simp
      then have tw: "takeWhile ?nb (B @ [l]) = takeWhile ?nb B"
        by (auto simp: list_all_iff takeWhile_append1)
      have "map view_of (secs_of (A @ B @ [l])) = V @ (a, g, es @ ?mid a B) # R' @ [?ext r]"
        if "map view_of (secs_of A) = V @ [(a, g, es)]" for A V a g es
        using step [of "A @ B" "V @ (a, g, es @ ?mid a B) # R'" r] main [OF that] Rr by simp
      then show ?thesis using \<open>\<not> list_all ?nb B\<close> tw by (intro exI [of _ "R' @ [?ext r]"]) simp
    qed
  qed
qed simp

text \<open>
  An Entry line \<open>l\<close> of a directory section, at any position: what the index looks like with the
  line, without it, and with another Entry line in its place.
\<close>

lemma views_around_entry:
  assumes "map view_of (secs_of A) = V @ [(a, g, es)]" "a \<noteq> []" "\<not> is_boundary l" "entry_line l"
  shows "\<exists>es2 R. map view_of (secs_of (A @ l # B)) = V @ (a, g, es @ l # es2) # R \<and>
    map view_of (secs_of (A @ B)) = V @ (a, g, es @ es2) # R \<and>
    (\<forall>new. \<not> is_boundary new \<and> entry_line new \<longrightarrow>
       map view_of (secs_of (A @ new # B)) = V @ (a, g, es @ new # es2) # R)"
proof -
  obtain R where fr: "\<And>A V a g es. map view_of (secs_of A) = V @ [(a, g, es)] \<Longrightarrow>
      map view_of (secs_of (A @ B)) = V @ (a, g, es @
        (if a = [] then [] else filter entry_line (takeWhile (\<lambda>l. \<not> is_boundary l) B))) # R"
    using views_frame [of B] by blast
  have snoc: "map view_of (secs_of (A @ [x])) = V @ [(a, g, es @ [x])]" if "\<not> is_boundary x" "entry_line x" for x
    using views_frame [of "[x]"] assms(1,2) that by fastforce
  let ?es2 = "filter entry_line (takeWhile (\<lambda>l. \<not> is_boundary l) B)"
  have put: "map view_of (secs_of (A @ x # B)) = V @ (a, g, es @ x # ?es2) # R"
    if "\<not> is_boundary x" "entry_line x" for x
    using fr [OF snoc [OF that]] assms(2) by simp
  then show ?thesis using put [OF assms(3,4)] fr [OF assms(1)] assms(2) by auto
qed

text \<open>Where an Entry of the parsed document stands.\<close>

lemma entry_position:
  assumes k: "k < length (secs_of ls)" and e: "e \<in> set (Entries (secs_of ls ! k))"
  obtains A B V es where "ls = A @ FullLine e # B" "length A = LineNo e - 1" "1 \<le> LineNo e"
    "map view_of (secs_of A) = V @ [(AbsPath (secs_of ls ! k), LegacyAbsPath (secs_of ls ! k), es)]"
    "length V = k" "\<not> is_boundary (FullLine e)" "entry_line (FullLine e)" "AbsPath (secs_of ls ! k) \<noteq> []"
proof -
  let ?sec = "secs_of ls ! k"
  have so: "section_ok ls ?sec" using parsed_ok_section [OF parse_lines_parsed_ok] k by simp
  then have eo: "entry_ok ls ?sec e" and dir: "AbsPath ?sec \<noteq> []" using e by (auto simp: section_ok_def)
  have el: "entry_line (FullLine e)" using eo by (auto simp: entry_ok_def entry_line_def)
  define pre where "pre = psHeader (parse_lines ls) @ concat (map RawLines (take k (secs_of ls)))"
  obtain b body where g: "RawLines ?sec = b # body" "is_group (b # body)"
    and ls: "ls = pre @ (b # body) @ concat (map RawLines (drop (Suc k) (secs_of ls)))"
    and st: "StartLine ?sec = Suc (length pre)"
    using section_in_groups [OF k] unfolding pre_def by metis
  define j where "j = LineNo e - StartLine ?sec - 1"
  have ln: "StartLine ?sec < LineNo e" "LineNo e < StartLine ?sec + length (RawLines ?sec)"
    using eo by (auto simp: entry_ok_def)
  have j: "j < length body" "LineNo e - 1 = length pre + 1 + j" using ln st g(1) by (auto simp: j_def)
  have fl: "FullLine e = body ! j"
  proof -
    have "FullLine e = ls ! (LineNo e - 1)" using eo by (simp add: entry_ok_def)
    also have "\<dots> = body ! j" unfolding j(2) by (subst ls) (use j(1) in \<open>simp add: nth_append\<close>)
    finally show ?thesis .
  qed
  let ?A = "pre @ b # take j body"
  let ?B = "drop (Suc j) body @ concat (map RawLines (drop (Suc k) (secs_of ls)))"
  have split: "ls = ?A @ FullLine e # ?B"
    by (subst ls) (use id_take_nth_drop [OF j(1)] fl in simp)
  have ig: "is_group (b # take j body)" using g(2) by (auto simp: is_group_def list_all_iff dest: in_set_takeD)
  obtain sec where sec: "secs_of ?A = secs_of pre @ [sec]" "view_of sec = group_view (b # take j body)"
    using parse_lines_group [OF ig, of pre] by auto
  have gr: "grouped ls (psHeader (parse_lines ls)) (map RawLines (secs_of ls))" by (rule lines_grouped)
  then have "list_all is_group (map RawLines (take k (secs_of ls)))"
    by (auto simp: grouped_def list_all_iff dest: in_set_takeD)
  then have "map RawLines (secs_of pre) = map RawLines (take k (secs_of ls))"
    using secs_of_groups gr unfolding pre_def grouped_def by blast
  then have len: "length (secs_of pre) = k" using k by (metis length_map length_take min.absorb2 less_imp_le)
  have "view_of ?sec = group_view (b # body)"
    using grouped_views [OF gr] g(1) k by (metis nth_map length_map)
  then have paths: "header_paths b = (AbsPath ?sec, LegacyAbsPath ?sec)"
    by (auto simp: view_of_def group_view_def split: prod.splits)
  have nb: "\<not> is_boundary (FullLine e)" using g(2) j(1) fl by (auto simp: is_group_def list_all_iff)
  show ?thesis
    by (rule that [OF split _ _ _ _ nb el dir, of "map view_of (secs_of pre)" "snd (snd (view_of sec))"])
      (use j ln len sec paths in \<open>auto simp: group_view_def\<close>)
qed

lemma views_table_at:
  "\<exists>P Q. \<forall>xs. views_table (V @ (a, g, xs) # R) root =
    P @ view_row (resolveSectionRels (map view_section (V @ (a, g, []) # R)) root (length V)) xs @ Q"
proof -
  let ?vs = "\<lambda>xs. V @ (a, g, xs) # R"
  let ?rels = "resolveSectionRels (map view_section (?vs [])) root"
  have rels: "resolveSectionRels (map view_section (?vs xs)) root = ?rels" for xs
    by (rule resolveSectionRels_same)
      (simp add: list_all2_conv_all_nth same_paths_def nth_append nth_Cons split: nat.split)
  let ?f = "\<lambda>(i, v). view_row (?rels i) (snd (snd v))"
  have rng: "ranged (?vs xs) = ranged V @ (length V, (a, g, xs)) # zip [Suc (length V)..<Suc (length V) + length R] R" for xs
  proof -
    have "[0..<length (?vs xs)] = [0..<length V] @ length V # [Suc (length V)..<Suc (length V) + length R]"
    proof -
      have "[0..<length V + Suc (length R)] = [0..<length V] @ [length V..<length V + Suc (length R)]"
        by (rule upt_add_eq_append) simp
      also have "[length V..<length V + Suc (length R)] = length V # [Suc (length V)..<length V + Suc (length R)]"
        by (rule upt_conv_Cons) simp
      finally show ?thesis by (simp del: upt_Suc)
    qed
    then show ?thesis by (simp only: ranged_def zip_append length_upt diff_zero zip_Cons_Cons)
  qed
  have tab: "views_table (?vs xs) root = concat (map ?f (ranged (?vs xs)))" for xs
    unfolding views_table_def using rels [of xs] by simp
  show ?thesis unfolding tab rng
    by (intro exI [of _ "concat (map ?f (ranged V))"]
        exI [of _ "concat (map ?f (zip [Suc (length V)..<Suc (length V) + length R] R))"]) simp
qed

text \<open>
  The position of an Entry in the table: replacing or deleting its line changes the table there
  and nowhere else.
\<close>

lemma table_around_entry:
  assumes k: "k < length (secs_of ls)" and e: "e \<in> set (Entries (secs_of ls ! k))"
    and d: "resolveSectionRels (secs_of ls) root k = Some d"
  defines "i \<equiv> LineNo e - 1"
  shows "0 < i \<and> i < length ls \<and> ls ! i = FullLine e \<and>
    (\<exists>xs ys. views_table (map view_of (secs_of ls)) root = xs @ (line_path d (FullLine e), FullLine e) # ys \<and>
      views_table (map view_of (secs_of (take i ls @ drop (Suc i) ls))) root = xs @ ys \<and>
      (\<forall>new. \<not> is_boundary new \<and> entry_line new \<longrightarrow>
        views_table (map view_of (secs_of (ls[i := new]))) root = xs @ (line_path d new, new) # ys))"
proof -
  let ?a = "AbsPath (secs_of ls ! k)" and ?g = "LegacyAbsPath (secs_of ls ! k)"
  obtain A B V es where p: "ls = A @ FullLine e # B" "length A = i" "1 \<le> LineNo e"
    "map view_of (secs_of A) = V @ [(?a, ?g, es)]" "length V = k" "\<not> is_boundary (FullLine e)"
    "entry_line (FullLine e)" "?a \<noteq> []"
    by (rule entry_position [OF k e]) (simp add: i_def)
  obtain es2 R where v: "map view_of (secs_of ls) = V @ (?a, ?g, es @ FullLine e # es2) # R"
    "map view_of (secs_of (A @ B)) = V @ (?a, ?g, es @ es2) # R"
    "\<And>new. \<not> is_boundary new \<Longrightarrow> entry_line new \<Longrightarrow>
      map view_of (secs_of (A @ new # B)) = V @ (?a, ?g, es @ new # es2) # R"
    using views_around_entry [OF p(4,8,6,7), of B] unfolding p(1) [symmetric] by blast
  let ?r = "resolveSectionRels (map view_section (V @ (?a, ?g, []) # R)) root (length V)"
  have "list_all2 same_paths (map view_section (V @ (?a, ?g, []) # R)) (map view_section (map view_of (secs_of ls)))"
    unfolding v(1) by (simp add: list_all2_conv_all_nth same_paths_def nth_append nth_Cons split: nat.split)
  then have "?r = resolveSectionRels (map view_section (map view_of (secs_of ls))) root k"
    using resolveSectionRels_same p(5) by metis
  also have "\<dots> = Some d" using resolveSectionRels_same [OF same_paths_view] d by metis
  finally have r: "?r = Some d" .
  obtain P Q where t: "\<And>xs. views_table (V @ (?a, ?g, xs) # R) root = P @ view_row (Some d) xs @ Q"
    using views_table_at [of V ?a ?g R root] unfolding r by blast
  have cut: "take i ls @ drop (Suc i) ls = A @ B" "ls[i := new] = A @ new # B" "i < length ls" "ls ! i = FullLine e" for new
    using p(2) [symmetric] by (simp_all add: p(1) list_update_append)
  have "views_table (map view_of (secs_of ls)) root =
      (P @ view_row (Some d) es) @ (line_path d (FullLine e), FullLine e) # view_row (Some d) es2 @ Q"
    "views_table (map view_of (secs_of (take i ls @ drop (Suc i) ls))) root =
      (P @ view_row (Some d) es) @ view_row (Some d) es2 @ Q"
    "\<forall>new. \<not> is_boundary new \<and> entry_line new \<longrightarrow> views_table (map view_of (secs_of (ls[i := new]))) root =
      (P @ view_row (Some d) es) @ (line_path d new, new) # view_row (Some d) es2 @ Q"
    using v t unfolding cut by (simp_all add: view_row_def)
  moreover have "A \<noteq> []" using p(4) by (auto simp: parse_lines_def init_pstate_def)
  then have "0 < i" using p(2) by auto
  ultimately show ?thesis using cut(3,4) by blast
qed

lemma replace_scan_matches:
  "replace_scan want r es seen ms os = Inr (ms', os') \<Longrightarrow> ms' = ms @ filter (\<lambda>e. RelPath e = r) es"
  by (induction es arbitrary: seen ms os) (fastforce simp: Let_def split: if_splits)+

text \<open>The Entry a path names, in the resolved document of an editor.\<close>

lemma resolved_target:
  assumes p: "plain_text text" and s: "splitPreserve text = (ls, eol, nl)"
    and f: "filter (\<lambda>e. RelPath e = relPath) (all_entries (ResolveRelPaths (editor_doc ls) root)) = [target]"
    and rp: "relPath \<noteq> []"
  obtains k e d where "k < length (secs_of ls)" "e \<in> set (Entries (secs_of ls ! k))"
    "resolveSectionRels (secs_of ls) root k = Some d" "relPath = line_path d (FullLine e)"
    "FullLine target = FullLine e" "LineNo target = LineNo e"
proof -
  let ?doc = "ResolveRelPaths (editor_doc ls) root"
  have sec: "Sections (editor_doc ls) = secs_of ls" by (rule editor_sections [OF p s])
  have "target \<in> set (filter (\<lambda>e. RelPath e = relPath) (all_entries ?doc))" by (simp add: f)
  then have t: "target \<in> set (all_entries ?doc)" "RelPath target = relPath" by auto
  then obtain k where k: "k < length (secs_of ls)"
    "target \<in> set (Entries (resolve_section (resolveSectionRels (secs_of ls) root k) (secs_of ls ! k)))"
    by (auto simp: all_entries_def ResolveRelPaths_def sec)
  have rel0: "\<forall>e \<in> set (Entries (secs_of ls ! k)). RelPath e = [] \<and>
      (\<exists>m. matchEntryLine (FullLine e) = Some m \<and> e = entry_of_match (FullLine e) (LineNo e) m)"
    using secs_of_entries_ok [of ls] nth_mem [OF k(1)] by blast
  show ?thesis
  proof (cases "resolveSectionRels (secs_of ls) root k")
    case None
    then show ?thesis using k rel0 t(2) rp by (auto simp: resolve_section_def)
  next
    case (Some d)
    then obtain e where e: "e \<in> set (Entries (secs_of ls ! k))" "target = e\<lparr>RelPath := entry_rel_path d e\<rparr>"
      using k(2) by (auto simp: resolve_section_def)
    have "relPath = line_path d (FullLine e)"
      using e t(2) rel0 entry_rel_path_line by (metis Entry.select_convs(1) Entry.surjective Entry.update_convs(1))
    then show ?thesis using that [OF k(1) e(1) Some] e(2) by simp
  qed
qed

section \<open>Path-addressed editing\<close>

lemma unique_in_table:
  assumes "map (\<lambda>e. (RelPath e, FullLine e)) es = xs @ (r, l) # ys"
    and "filter (\<lambda>e. RelPath e = r) es = [t]"
  shows "r \<notin> fst ` set (xs @ ys)"
proof -
  have "length (filter (\<lambda>q. fst q = r) (map (\<lambda>e. (RelPath e, FullLine e)) es)) = 1"
    using assms(2) by (simp add: filter_map comp_def)
  then have "length (filter (\<lambda>q. fst q = r) xs) + length (filter (\<lambda>q. fst q = r) ys) = 0"
    unfolding assms(1) by simp
  then show ?thesis by (auto simp: filter_empty_conv)
qed

lemma edited_lines_table:
  assumes p: "plain_text text" and s: "splitPreserve text = (ls, eol, nl)"
    and "ls' \<noteq> []" "\<forall>l \<in> set ls'. l \<in> set ls \<or> LF \<notin> set l \<and> \<not> ends_cr l" "\<not> has_prefix (hd ls') bom"
  shows "index_table (joinPreserve ls' eol nl) root = views_table (map view_of (secs_of ls')) root"
proof (rule joined_table [OF joinable_plainI])
  show "eol = [LF] \<or> eol = crlf" using splitPreserve_legal [OF s] by (simp add: legal_lines_def)
  show "\<forall>l \<in> set ls'. LF \<notin> set l \<and> \<not> ends_cr l"
    using assms(4) plain_textD(1) [OF p s] splitPreserve_legal [OF s] unfolding legal_lines_def by blast
qed (use assms in auto)

lemma editor_table:
  assumes "plain_text text" "splitPreserve text = (ls, eol, nl)"
  shows "map (\<lambda>e. (RelPath e, FullLine e)) (all_entries (ResolveRelPaths (editor_doc ls) root)) =
      views_table (map view_of (secs_of ls)) root"
    and "index_table text root = views_table (map view_of (secs_of ls)) root"
  using secs_of_table [OF editor_sections [OF assms], of root]
    plain_table [OF plain_textD(3) [OF assms] assms(2)] by simp_all

text \<open>
  \<open>ReplaceEntryForPath\<close> changes one row of the index table and no other: the row of the
  requested path, which no other Entry has, and whose line was the expected old line.
\<close>

theorem ReplaceEntryForPath_table:
  assumes "plain_text text" and "entry_line new" and "\<not> is_boundary new" and "relPath \<noteq> []"
    and "ReplaceEntryForPath text root relPath oldLine new = Inr t"
  shows "\<exists>xs l ys d. index_table text root = xs @ (relPath, l) # ys \<and> trim_space l = trim_space oldLine \<and>
    relPath = line_path d l \<and> relPath \<notin> fst ` set (xs @ ys) \<and>
    index_table t root = xs @ (line_path d new, new) # ys"
proof -
  obtain ls eol nl where s: "splitPreserve text = (ls, eol, nl)" by (metis prod_cases3)
  let ?es = "all_entries (ResolveRelPaths (editor_doc ls) root)"
  obtain ms os target where sc: "replace_scan (trim_space oldLine) relPath ?es [] [] [] = Inr (ms, os)"
    and ms: "ms = [target]" and single: "single_line new"
    and tr: "trim_space (FullLine target) = trim_space oldLine"
    and t: "t = joinPreserve (ls[LineNo target - 1 := new]) eol nl"
    using assms(5) s
    by (auto simp: ReplaceEntryForPath_def single_line_def Let_def split: if_splits sum.splits list.splits)
  have f: "filter (\<lambda>e. RelPath e = relPath) ?es = [target]" using replace_scan_matches [OF sc] ms by simp
  obtain k e d where k: "k < length (secs_of ls)" "e \<in> set (Entries (secs_of ls ! k))"
    "resolveSectionRels (secs_of ls) root k = Some d" "relPath = line_path d (FullLine e)"
    "FullLine target = FullLine e" "LineNo target = LineNo e"
    by (rule resolved_target [OF assms(1) s f assms(4)])
  let ?i = "LineNo e - 1"
  obtain xs ys where t1: "?i < length ls" "0 < ?i" "views_table (map view_of (secs_of ls)) root = xs @ (relPath, FullLine e) # ys"
    "views_table (map view_of (secs_of (ls[?i := new]))) root = xs @ (line_path d new, new) # ys"
    using table_around_entry [OF k(1-3)] assms(2,3) unfolding k(4) by blast
  have "\<not> has_prefix (hd (ls[?i := new])) bom"
    using plain_textD(2) [OF assms(1) s] t1(1,2) by (cases ls; cases ?i) auto
  then have t2: "index_table t root = xs @ (line_path d new, new) # ys"
    unfolding t k(6) t1(4) [symmetric]
    using single_lineD [OF single] t1(1) set_update_subset_insert [of ls ?i new]
    by (intro edited_lines_table [OF assms(1) s]) auto
  have "relPath \<notin> fst ` set (xs @ ys)"
    using unique_in_table [OF _ f] editor_table(1) [OF assms(1) s, of root] t1(3) by metis
  then show ?thesis using editor_table(2) [OF assms(1) s, of root] t1(3) t2 tr k(4,5) by metis
qed

theorem ReplaceEntryForPath_table_witness:
  "\<exists>xs l ys d. index_table (''===/r/==='' @ [LF] @ ''a.go[CI9L]: x'' @ [LF] @ ''===/r/d/==='' @ [LF] @ ''a.go[CI9L]: x'') ''/r'' = xs @ (''d/a.go'', l) # ys \<and>
     index_table (''===/r/==='' @ [LF] @ ''a.go[CI9L]: x'' @ [LF] @ ''===/r/d/==='' @ [LF] @ ''a.go[CI8L]: y'') ''/r'' =
       xs @ (line_path d ''a.go[CI8L]: y'', ''a.go[CI8L]: y'') # ys"
proof -
  let ?t = "''===/r/==='' @ [LF] @ ''a.go[CI9L]: x'' @ [LF] @ ''===/r/d/==='' @ [LF] @ ''a.go[CI9L]: x''"
  have p: "plain_text ?t" by code_simp
  have e: "entry_line ''a.go[CI8L]: y''" by code_simp
  have b: "\<not> is_boundary ''a.go[CI8L]: y''" by code_simp
  have r: "ReplaceEntryForPath ?t ''/r'' ''d/a.go'' ''a.go[CI9L]: x'' ''a.go[CI8L]: y'' =
    Inr (''===/r/==='' @ [LF] @ ''a.go[CI9L]: x'' @ [LF] @ ''===/r/d/==='' @ [LF] @ ''a.go[CI8L]: y'')" by code_simp
  show ?thesis using ReplaceEntryForPath_table [OF p e b _ r] by blast
qed

section \<open>Pruning\<close>

lemma ranged_append: "ranged (xs @ ys) = ranged xs @ zip [length xs..<length xs + length ys] ys"
proof -
  have "[0..<length xs + length ys] = [0..<length xs] @ [length xs..<length xs + length ys]"
    by (rule upt_add_eq_append) simp
  then show ?thesis by (simp only: ranged_def length_append zip_append length_upt diff_zero)
qed

lemma filter_zip_const:
  "map snd (filter (\<lambda>(i, l). Q i) (zip [n..<n + length ys] ys)) = (if \<forall>i \<in> {n..<n + length ys}. Q i then ys else [])"
  if "(\<forall>i \<in> {n..<n + length ys}. Q i) \<or> (\<forall>i \<in> {n..<n + length ys}. \<not> Q i)"
proof -
  have mem: "fst q \<in> {n..<n + length ys}" if "q \<in> set (zip [n..<n + length ys] ys)" for q
  proof -
    have "fst q \<in> set [n..<n + length ys]" using that set_zip_leftD by (metis prod.collapse)
    then show ?thesis by simp
  qed
  show ?thesis
  proof (cases "\<forall>i \<in> {n..<n + length ys}. Q i")
    case True
    then have "filter (\<lambda>(i, l). Q i) (zip [n..<n + length ys] ys) = zip [n..<n + length ys] ys"
      using mem by (intro filter_True) fastforce
    then show ?thesis using True by simp
  next
    case False
    then have "filter (\<lambda>(i, l). Q i) (zip [n..<n + length ys] ys) = []"
      using mem \<open>_ \<or> _\<close> by (intro filter_False) fastforce
    then show ?thesis using False by auto
  qed
qed

text \<open>Dropping the line ranges of some groups drops those groups.\<close>

lemma kept_groups:
  fixes hdr :: "'a list" and gs :: "'a list list"
  defines "off \<equiv> \<lambda>gs k. length hdr + length (concat (take k gs))"
  shows "map snd (filter (\<lambda>(i, l). \<not> (\<exists>k < length gs. P k \<and> off gs k \<le> i \<and> i < off gs (Suc k))) (ranged (hdr @ concat gs))) =
    hdr @ concat (map snd (filter (\<lambda>(k, g). \<not> P k) (ranged gs)))"
proof (induction gs rule: rev_induct)
  case Nil
  then show ?case by (simp add: case_prod_unfold)
next
  case (snoc g gs)
  let ?xs = "hdr @ concat gs" and ?n = "length gs"
  let ?Q = "\<lambda>gs i. \<not> (\<exists>k < length gs. P k \<and> off gs k \<le> i \<and> i < off gs (Suc k))"
  have off_same: "off (gs @ [g]) k = off gs k" if "k \<le> ?n" for k using that by (simp add: off_def)
  have off_n: "off (gs @ [g]) ?n = length ?xs" "off (gs @ [g]) (Suc ?n) = length ?xs + length g" by (simp_all add: off_def)
  have le: "off gs (Suc k) \<le> length ?xs" if "k < ?n" for k
  proof -
    have "length (concat (take (Suc k) gs)) + length (concat (drop (Suc k) gs)) = length (concat gs)"
      by (metis append_take_drop_id concat_append length_append)
    then show ?thesis by (simp add: off_def)
  qed
  let ?R = "\<lambda>gs i k. P k \<and> off gs k \<le> i \<and> i < off gs (Suc k)"
  have R: "?R (gs @ [g]) i k \<longleftrightarrow> ?R gs i k" if "k < ?n" for i k using that off_same by simp
  have Q: "?Q (gs @ [g]) i \<longleftrightarrow> ?Q gs i \<and> \<not> ?R (gs @ [g]) i ?n" for i
    using R by (metis length_append_singleton less_Suc_eq)
  have old: "?Q (gs @ [g]) i = ?Q gs i" if "i < length ?xs" for i
    using that off_n unfolding Q by simp
  have new: "?Q (gs @ [g]) i = (\<not> P ?n)" if "i \<in> {length ?xs..<length ?xs + length g}" for i
  proof -
    have "?Q gs i" using that le by fastforce
    then show ?thesis using that off_n unfolding Q by simp
  qed
  have a: "filter (\<lambda>(i, l). ?Q (gs @ [g]) i) (ranged ?xs) = filter (\<lambda>(i, l). ?Q gs i) (ranged ?xs)"
  proof (rule filter_cong [OF refl])
    fix q assume "q \<in> set (ranged ?xs)"
    then have "fst q < length ?xs" using in_set_ranged [of "fst q" "snd q" ?xs] by simp
    from old [OF this] show "(case q of (i, l) \<Rightarrow> ?Q (gs @ [g]) i) = (case q of (i, l) \<Rightarrow> ?Q gs i)"
      by (simp only: case_prod_unfold)
  qed
  have b: "map snd (filter (\<lambda>(i, l). ?Q (gs @ [g]) i) (zip [length ?xs..<length ?xs + length g] g)) =
      (if P ?n then [] else g)"
    using new by (subst filter_zip_const) (auto simp del: length_append)
  have cg: "hdr @ concat (gs @ [g]) = ?xs @ g" by simp
  show ?case unfolding cg ranged_append [of ?xs g] filter_append map_append a b snoc.IH ranged_snoc by simp
qed

lemma section_span_off:
  assumes i: "i < length (secs_of ls)"
  defines "off \<equiv> \<lambda>k. length (psHeader (parse_lines ls)) + length (concat (take k (map RawLines (secs_of ls))))"
  shows "section_span (secs_of ls) (length ls) i = (off i, off (Suc i))"
proof -
  note ok = parse_lines_parsed_ok [of ls, unfolded parsed_ok_def]
  have st: "StartLine (secs_of ls ! k) - 1 = off k" if "k < length (secs_of ls)" for k
    using ok that by (simp add: off_def take_map)
  have "length ls = off (length (secs_of ls))" using ok unfolding off_def by (metis length_append length_map take_all_iff order_refl)
  then show ?thesis using st i unfolding section_span_def
    by (cases "Suc i < length (secs_of ls)") (auto simp: not_less le_Suc_eq less_Suc_eq_le)
qed

lemma prune_lines:
  "map snd (filter (\<lambda>(i, l). \<not> pruned_line (secs_of ls) (length ls) i) (ranged ls)) =
     psHeader (parse_lines ls) @
     concat (map (RawLines \<circ> snd) (filter (\<lambda>(k, sec). \<not> prunable (secs_of ls) (k, sec)) (ranged (secs_of ls))))"
proof -
  let ?secs = "secs_of ls" and ?hdr = "psHeader (parse_lines ls)"
  let ?gs = "map RawLines ?secs" and ?P = "\<lambda>k. prunable ?secs (k, ?secs ! k)"
  let ?off = "\<lambda>k. length ?hdr + length (concat (take k ?gs))"
  have ls: "ls = ?hdr @ concat ?gs" using lines_grouped [of ls] by (simp add: grouped_def)
  have pl: "pruned_line ?secs (length ls) i \<longleftrightarrow> (\<exists>k < length ?gs. ?P k \<and> ?off k \<le> i \<and> i < ?off (Suc k))" for i
    unfolding pruned_line_def list_ex_iff set_ranged
    by (auto simp: section_span_off)
  have rg: "ranged ?gs = map (\<lambda>(k, sec). (k, RawLines sec)) (ranged ?secs)"
    by (simp add: ranged_def zip_map2)
  have "filter (\<lambda>(k, g). \<not> ?P k) (ranged ?gs) =
      map (\<lambda>(k, sec). (k, RawLines sec)) (filter (\<lambda>(k, sec). \<not> prunable ?secs (k, sec)) (ranged ?secs))"
    unfolding rg filter_map by (intro arg_cong [where f = "map _"] filter_cong) auto
  then have "map snd (filter (\<lambda>(k, g). \<not> ?P k) (ranged ?gs)) =
      map (RawLines \<circ> snd) (filter (\<lambda>(k, sec). \<not> prunable ?secs (k, sec)) (ranged ?secs))"
    by (simp add: case_prod_unfold)
  then show ?thesis using kept_groups [of ?gs ?P ?hdr] unfolding pl ls [symmetric] by simp
qed

lemma joinPreserve_Nil: "joinPreserve [] eol nl = joinPreserve [[]] eol nl"
  by (simp add: joinPreserve_def)

lemma prunable_no_entries: "prunable secs (k, sec) \<Longrightarrow> Entries sec = []"
  by (simp add: prunable_def)

lemma concat_filter_empty: "\<forall>x \<in> set xs. \<not> P x \<longrightarrow> f x = [] \<Longrightarrow> concat (map f (filter P xs)) = concat (map f xs)"
  by (induction xs) auto

text \<open>The Entry lines that are left after pruning are all the Entry lines there were.\<close>

lemma prune_entry_lines:
  fixes ls :: "string list"
  defines "kept \<equiv> map snd (filter (\<lambda>(i, l). \<not> pruned_line (secs_of ls) (length ls) i) (ranged ls))"
  shows "concat (map (\<lambda>v. snd (snd v)) (map view_of (secs_of kept))) =
      concat (map (\<lambda>v. snd (snd v)) (map view_of (secs_of ls)))"
    and "kept \<noteq> [] \<Longrightarrow> ls \<noteq> [] \<Longrightarrow> hd kept = hd ls \<or> is_boundary (hd kept)"
proof -
  let ?secs = "secs_of ls" and ?hdr = "psHeader (parse_lines ls)"
  let ?left = "filter (\<lambda>(k, sec). \<not> prunable ?secs (k, sec)) (ranged ?secs)"
  let ?gs = "map (RawLines \<circ> snd) ?left"
  note gr = lines_grouped [of ls]
  have kept: "kept = ?hdr @ concat ?gs" unfolding kept_def by (rule prune_lines)
  have sub: "snd q \<in> set ?secs" if "q \<in> set ?left" for q
    using that in_set_ranged [of "fst q" "snd q" ?secs] nth_mem [of "fst q" ?secs] by auto
  have gk: "grouped kept ?hdr ?gs"
    using gr sub unfolding grouped_def kept by (auto simp: list_all_iff)
  have raw: "group_view (RawLines sec) = view_of sec" if "sec \<in> set ?secs" for sec
    using grouped_views [OF gr] that by auto
  have "concat (map (\<lambda>v. snd (snd v)) (map view_of (secs_of kept))) =
      concat (map (\<lambda>q. map FullLine (Entries (snd q))) ?left)"
    unfolding grouped_views [OF gk] map_map
    by (intro arg_cong [where f = concat] map_cong) (auto simp: raw sub view_of_def)
  also have "\<dots> = concat (map (\<lambda>q. map FullLine (Entries (snd q))) (ranged ?secs))"
    by (rule concat_filter_empty) (auto simp: prunable_no_entries)
  also have "\<dots> = concat (map (\<lambda>v. snd (snd v)) (map view_of ?secs))"
    using map_ranged_snd [of "\<lambda>sec. map FullLine (Entries sec)" ?secs] by (simp add: view_of_def comp_def)
  finally show "concat (map (\<lambda>v. snd (snd v)) (map view_of (secs_of kept))) =
      concat (map (\<lambda>v. snd (snd v)) (map view_of (secs_of ls)))" .
  assume ne: "kept \<noteq> []" "ls \<noteq> []"
  show "hd kept = hd ls \<or> is_boundary (hd kept)"
  proof (cases "?hdr = []")
    case True
    then obtain g gs where g: "?gs = g # gs" using ne(1) kept by (cases ?gs) auto
    then have "is_group g" using gk by (simp add: grouped_def)
    then show ?thesis using g True kept by (cases g) (auto simp: is_group_def)
  next
    case False
    have "hd ls = hd ?hdr" using gr False unfolding grouped_def by (metis hd_append2)
    then show ?thesis using kept False by simp
  qed
qed

lemma boundary_no_bom: "is_boundary l \<Longrightarrow> \<not> has_prefix l bom"
  using boundary_prefix [of l] by (auto simp: has_prefix_iff bom_def)

lemma prune_table_lines:
  assumes "plain_text text"
  shows "map snd (index_table (PruneEmptySections text) root') = map snd (index_table text root)"
proof -
  obtain ls eol nl where s: "splitPreserve text = (ls, eol, nl)" by (metis prod_cases3)
  define kept where "kept = map snd (filter (\<lambda>(i, l). \<not> pruned_line (secs_of ls) (length ls) i) (ranged ls))"
  have ls: "ls \<noteq> []" using splitPreserve_legal [OF s] by (simp add: legal_lines_def)
  have pr: "PruneEmptySections text = joinPreserve kept eol nl"
    using s editor_sections [OF assms s] by (simp add: PruneEmptySections_def kept_def Let_def)
  have mem: "set kept \<subseteq> set ls"
    using in_set_ranged [of _ _ ls] nth_mem [of _ ls] by (auto simp: kept_def)
  have "index_table (PruneEmptySections text) root' = views_table (map view_of (secs_of kept)) root'"
  proof (cases "kept = []")
    case True
    have "index_table (joinPreserve [[]] eol nl) root' = views_table (map view_of (secs_of [[]])) root'"
      by (rule edited_lines_table [OF assms s]) (simp_all add: bom_def)
    then show ?thesis using True views_blank_tail [of "[]"] unfolding pr True joinPreserve_Nil by simp
  next
    case False
    have "\<not> has_prefix (hd kept) bom"
      using prune_entry_lines(2) [of ls] False ls plain_textD(2) [OF assms s] boundary_no_bom
      unfolding kept_def by metis
    then show ?thesis unfolding pr using mem False by (intro edited_lines_table [OF assms s]) auto
  qed
  then show ?thesis
    using prune_entry_lines(1) [of ls] editor_table(2) [OF assms s, of root]
    by (simp add: views_table_lines kept_def)
qed

lemma plain_join:
  assumes p: "plain_text text" and s: "splitPreserve text = (ls, eol, nl)"
    and ls': "ls' \<noteq> []" "set ls' \<subseteq> set ls" "\<not> has_prefix (hd ls') bom"
  shows "plain_text (joinPreserve ls' eol nl)"
proof -
  have eol: "eol = [LF] \<or> eol = crlf" using splitPreserve_legal [OF s] by (simp add: legal_lines_def)
  have ok: "\<forall>l \<in> set ls'. LF \<notin> set l \<and> \<not> ends_cr l"
    using ls'(2) plain_textD(1) [OF p s] splitPreserve_legal [OF s] unfolding legal_lines_def by blast
  obtain ks eol' nl' where k: "splitPreserve (joinPreserve ls' eol nl) = (ks, eol', nl')" by (metis prod_cases3)
  have "ks @ (if nl' then [[]] else []) = ls' @ (if nl then [[]] else [])"
    using splitPreserve_split(1) [OF k] fold_joined [OF joinable_plainI [OF ls'(1) eol ok]] by simp
  from arg_cong [OF this, of set] have "set ks \<subseteq> set ls' \<union> {[]}" by (auto split: if_splits)
  then have "\<forall>l \<in> set ks. \<not> ends_cr l" using ok by auto
  then show ?thesis using k bom_join [OF ls'(1) eol, of nl] ls'(3) by (simp add: plain_text_def list_all_iff)
qed

text \<open>
  Pruning empty sections never loses or reorders an Entry: readers of the pruned text see
  exactly the Entry lines of the original one.
\<close>

theorem PruneEmptySections_keeps_entries:
  assumes "plain_text text"
  shows "map snd (index_table (PruneEmptySections text) root') = map snd (index_table text root)"
  by (rule prune_table_lines [OF assms])

theorem PruneEmptySections_keeps_entries_witness:
  "map snd (index_table (PruneEmptySections (''===/r/==='' @ [LF] @ ''a.go[CI9L]: x'' @ [LF] @ ''===/r/d/==='')) ''/r'') =
     map snd (index_table (''===/r/==='' @ [LF] @ ''a.go[CI9L]: x'' @ [LF] @ ''===/r/d/==='') ''/q'') \<and>
   PruneEmptySections (''===/r/==='' @ [LF] @ ''a.go[CI9L]: x'' @ [LF] @ ''===/r/d/==='') =
     ''===/r/==='' @ [LF] @ ''a.go[CI9L]: x''"
proof -
  let ?t = "''===/r/==='' @ [LF] @ ''a.go[CI9L]: x'' @ [LF] @ ''===/r/d/===''"
  have p: "plain_text ?t" by code_simp
  have r: "PruneEmptySections ?t = ''===/r/==='' @ [LF] @ ''a.go[CI9L]: x''" by code_simp
  show ?thesis using PruneEmptySections_keeps_entries [OF p] r by (rule conjI)
qed

text \<open>
  \<open>RemoveEntryForPath\<close> removes exactly the Entry of the requested path: that row existed,
  was the only one of the path and carried the expected line, and every other Entry line remains,
  in order, although empty sections are pruned along the way.
\<close>

theorem RemoveEntryForPath_removes_one:
  assumes "plain_text text" and "relPath \<noteq> []" and "RemoveEntryForPath text root relPath oldLine = Inr t"
  shows "\<exists>xs l ys. index_table text root = xs @ (relPath, l) # ys \<and> trim_space l = trim_space oldLine \<and>
    relPath \<notin> fst ` set (xs @ ys) \<and> map snd (index_table t root) = map snd (xs @ ys)"
proof -
  obtain ls eol nl where s: "splitPreserve text = (ls, eol, nl)" by (metis prod_cases3)
  let ?es = "all_entries (ResolveRelPaths (editor_doc ls) root)"
  obtain target where f: "filter (\<lambda>e. RelPath e = relPath) ?es = [target]"
    and tr: "trim_space (FullLine target) = trim_space oldLine"
    and t: "t = PruneEmptySections (joinPreserve (take (LineNo target - 1) ls @ drop (Suc (LineNo target - 1)) ls) eol nl)"
    using assms(3) s
    by (auto simp: RemoveEntryForPath_def Let_def split: if_splits list.splits)
  obtain k e d where k: "k < length (secs_of ls)" "e \<in> set (Entries (secs_of ls ! k))"
    "resolveSectionRels (secs_of ls) root k = Some d" "relPath = line_path d (FullLine e)"
    "FullLine target = FullLine e" "LineNo target = LineNo e"
    by (rule resolved_target [OF assms(1) s f assms(2)])
  let ?i = "LineNo e - 1"
  let ?ls' = "take ?i ls @ drop (Suc ?i) ls"
  obtain xs ys where t1: "?i < length ls" "0 < ?i" "views_table (map view_of (secs_of ls)) root = xs @ (relPath, FullLine e) # ys"
    "views_table (map view_of (secs_of ?ls')) root = xs @ ys"
    using table_around_entry [OF k(1-3)] unfolding k(4) by blast
  have ne: "?ls' \<noteq> []" and hd: "\<not> has_prefix (hd ?ls') bom" and sub: "set ?ls' \<subseteq> set ls"
    using t1(1,2) plain_textD(2) [OF assms(1) s]
    by (cases ls; cases ?i; auto dest: in_set_takeD in_set_dropD)+
  have mid: "index_table (joinPreserve ?ls' eol nl) root = xs @ ys"
    unfolding t1(4) [symmetric] using sub by (intro edited_lines_table [OF assms(1) s ne _ hd]) auto
  have "plain_text (joinPreserve ?ls' eol nl)" by (rule plain_join [OF assms(1) s ne sub hd])
  from prune_table_lines [OF this, of root root] mid
  have "map snd (index_table t root) = map snd (xs @ ys)" by (simp add: t k(6))
  moreover have "relPath \<notin> fst ` set (xs @ ys)"
    using unique_in_table [OF _ f] editor_table(1) [OF assms(1) s, of root] t1(3) by metis
  ultimately show ?thesis using editor_table(2) [OF assms(1) s, of root] t1(3) tr k(5) by metis
qed

theorem RemoveEntryForPath_removes_one_witness:
  "\<exists>xs l ys. index_table (''===/r/==='' @ [LF] @ ''b[CI9L]:x'') ''/r'' = xs @ (''b'', l) # ys \<and>
     map snd (index_table [] ''/r'') = map snd (xs @ ys)"
proof -
  let ?t = "''===/r/==='' @ [LF] @ ''b[CI9L]:x''"
  have p: "plain_text ?t" by code_simp
  let ?es = "filter (\<lambda>e. RelPath e = ''b'') (all_entries (ResolveRelPaths (editor_doc [''===/r/==='', ''b[CI9L]:x'']) ''/r''))"
  have s: "splitPreserve ?t = ([''===/r/==='', ''b[CI9L]:x''], [LF], False)" by code_simp
  have fl: "map FullLine ?es = [''b[CI9L]:x'']" by code_simp
  have ln: "map LineNo ?es = [2]" by code_simp
  obtain e where e: "?es = [e]" "FullLine e = ''b[CI9L]:x''" "LineNo e = 2" using fl ln by auto
  have tr: "trim_space ''b[CI9L]:x'' = ''b[CI9L]:x''" by code_simp
  have ca: "\<not> contains_any ''b[CI9L]:x'' crlf" by code_simp
  have pr: "PruneEmptySections (joinPreserve [''===/r/===''] [LF] False) = []" by code_simp
  have r: "RemoveEntryForPath ?t ''/r'' ''b'' ''b[CI9L]:x'' = Inr []"
    unfolding RemoveEntryForPath_def Let_def s prod.case e(1) tr using ca pr by (simp add: e(2,3) tr)
  have ne: "''b'' \<noteq> []" by simp
  from RemoveEntryForPath_removes_one [OF p ne r] show ?thesis by (elim exE conjE) (intro exI conjI)
qed

end
