(* ===== verification/Index_Parse_Laws.thy ===== *)
theory Index_Parse_Laws
  imports Index_Parser
begin

text \<open>
  The properties of the parser as a whole: tags and Entry lines are cut without loss, a text is
  the concatenation of what was parsed, and where an index was created does not matter to a
  checkout elsewhere.
\<close>

section \<open>Tags and Entry lines\<close>

text \<open>
  Tag parsing loses nothing: whenever \<open>ParseTags\<close> returns axes for a compact tag, their runes
  in axis order spell the trimmed tag, the layer and the scale are one rune each, the importance
  is one digit and the module, which is not empty, contains none; for a dotted tag the axes joined
  by dots are the trimmed tag and none of them is blank.
\<close>

theorem ParseTags_lossless:
  assumes "ParseTags raw \<noteq> Map.empty"
  shows "if str_contains (trim_space raw) ''.''
    then trim_space raw = str_join (map (tag_get (ParseTags raw))
           (if ParseTags raw AxD = None then [AxA, AxB, AxC, AxE] else all_axes)) ''.'' \<and>
         (\<forall>v \<in> ran (ParseTags raw). trim_space v \<noteq> [])
    else concat (map (axis_runes (ParseTags raw)) all_axes) = runes (trim_space raw) \<and>
         length (axis_runes (ParseTags raw) AxA) = 1 \<and> length (axis_runes (ParseTags raw) AxE) = 1 \<and>
         axis_runes (ParseTags raw) AxB \<noteq> [] \<and>
         (\<forall>r \<in> set (axis_runes (ParseTags raw) AxB). \<not> digit_rune r) \<and>
         (\<exists>r. axis_runes (ParseTags raw) AxC = [r] \<and> digit_rune r)"
proof (cases "str_contains (trim_space raw) ''.''")
  case True
  then have "ParseTags raw = parseDotTags (trim_space raw)"
    using assms by (auto simp: ParseTags_def Let_def split: if_splits)
  then show ?thesis using True assms parseDotTags_segments [of "trim_space raw"] by simp
next
  case False
  then have "ParseTags raw = parseCompactTags (trim_space raw)"
    using assms by (auto simp: ParseTags_def Let_def split: if_splits)
  then show ?thesis using False assms parseCompactTags_lossless [of "trim_space raw"] by simp
qed

theorem ParseTags_lossless_witness:
  "concat (map (axis_runes (ParseTags '' CIx9pL'')) all_axes) = runes ''CIx9pL'' \<and> ParseTags '' CIx9pL'' AxB = Some ''Ix''"
proof -
  have d: "ParseTags '' CIx9pL'' AxB = Some ''Ix''" by code_simp
  then have ne: "ParseTags '' CIx9pL'' \<noteq> Map.empty" by (metis option.distinct(1))
  have t: "trim_space '' CIx9pL'' = ''CIx9pL''" by code_simp
  have c: "\<not> str_contains ''CIx9pL'' ''.''" by code_simp
  show ?thesis using ParseTags_lossless [OF ne] d c by (simp only: t if_False) 
qed



text \<open>
  The tag span every gate works with is the tag the parser reads: on each line the parser
  accepts, \<open>EntryTagSpan\<close> answers, and the bytes of its span are the tag group of the match.
\<close>

theorem EntryTagSpan_is_tag:
  assumes "matchEntryLine line = Some m"
  shows "\<exists>b s t. EntryTagSpan line = Some (b, s, t) \<and> line ! b = CHR ''['' \<and> line ! t = CHR '']'' \<and>
    TagsRaw (entry_of_match line lineNo m) = slice s t line"
proof -
  obtain n t b where nt: "m = (n, t, b)" by (cases m)
  then have m: "matchEntryLine line = Some (n, t, b)" using assms by simp
  have e: "TagsRaw (entry_of_match line lineNo m) = t"
    by (simp add: nt entry_of_match_def split: prod.splits)
  obtain sp where l: "line = n @ ''['' @ t @ '']:'' @ sp @ b" using matchEntryLine_shape(1) [OF m] by blast
  then have "line ! length n = CHR ''[''" "line ! (length n + 1 + length t) = CHR '']''"
    by (simp_all add: nth_append)
  then show ?thesis using EntryTagSpan_matchEntryLine [OF m] unfolding e
    by (intro exI [of _ "length n"] exI [of _ "length n + 1"] exI [of _ "length n + 1 + length t"]) simp
qed

theorem EntryTagSpan_is_tag_witness:
  "\<exists>b s t. EntryTagSpan ''a[0].go[CIx9L]: F:x'' = Some (b, s, t) \<and> ''CIx9L'' = slice s t ''a[0].go[CIx9L]: F:x''"
proof -
  have m: "matchEntryLine ''a[0].go[CIx9L]: F:x'' = Some (''a[0].go'', ''CIx9L'', ''F:x'')" by code_simp
  have t: "TagsRaw (entry_of_match ''a[0].go[CIx9L]: F:x'' 1 (''a[0].go'', ''CIx9L'', ''F:x'')) = ''CIx9L''" by code_simp
  show ?thesis using EntryTagSpan_is_tag [OF m, of 1] unfolding t by blast
qed

section \<open>Texts\<close>

text \<open>
  \<^bold>\<open>C34\<close>. Parsing drops no line: header lines and section lines, in order, joined by newlines are the
  normalized text, every section starts with its \<open>===\<close> line at its recorded line number, and every
  Entry's recorded line number points at its own line inside its section.
\<close>

theorem Parse_lossless:
  "str_join (HeaderLines (fst (Parse text)) @ concat (map RawLines (Sections (fst (Parse text))))) [LF] =
     RawText (fst (Parse text)) \<and>
   (\<forall>sec \<in> set (Sections (fst (Parse text))).
      is_boundary (HeaderLine sec) \<and>
      str_split (RawText (fst (Parse text))) [LF] ! (StartLine sec - 1) = HeaderLine sec \<and>
      (\<forall>e \<in> set (Entries sec). StartLine sec < LineNo e \<and> LineNo e < StartLine sec + length (RawLines sec) \<and>
        str_split (RawText (fst (Parse text))) [LF] ! (LineNo e - 1) = FullLine e \<and>
        map_option (entry_of_match (FullLine e) (LineNo e)) (matchEntryLine (FullLine e)) = Some e))"
proof -
  let ?ls = "str_split (fold_crlf (stripBOM text)) [LF]"
  note ok = parse_lines_parsed_ok [of ?ls]
  have join: "str_join (psHeader (parse_lines ?ls) @ concat (map RawLines (psSections (parse_lines ?ls)))) [LF] =
      fold_crlf (stripBOM text)"
    using ok str_join_split [of "[LF]" "fold_crlf (stripBOM text)"] unfolding parsed_ok_def by simp
  have hd: "?ls ! (StartLine sec - 1) = HeaderLine sec" if "section_ok ?ls sec" for sec
  proof -
    have ne: "RawLines sec \<noteq> []" "hd (RawLines sec) = HeaderLine sec"
      and t: "take (length (RawLines sec)) (drop (StartLine sec - 1) ?ls) = RawLines sec"
      and b: "StartLine sec - 1 + length (RawLines sec) \<le> length ?ls"
      using that unfolding section_ok_def by blast+
    have "take (length (RawLines sec)) (drop (StartLine sec - 1) ?ls) ! 0 = drop (StartLine sec - 1) ?ls ! 0"
      by (rule nth_take) (simp add: ne)
    also have "\<dots> = ?ls ! (StartLine sec - 1 + 0)" by (rule nth_drop) (use b in linarith)
    finally have "?ls ! (StartLine sec - 1) = take (length (RawLines sec)) (drop (StartLine sec - 1) ?ls) ! 0"
      by simp
    then have "?ls ! (StartLine sec - 1) = RawLines sec ! 0" unfolding t .
    then show ?thesis using \<open>hd (RawLines sec) = HeaderLine sec\<close> \<open>RawLines sec \<noteq> []\<close> by (simp add: hd_conv_nth)
  qed
  have pe: "map_option (entry_of_match (FullLine e) (LineNo e)) (matchEntryLine (FullLine e)) = Some e"
    if "entry_ok ?ls sec e" for sec e
    using that by (auto simp: entry_ok_def)
  have sec: "is_boundary (HeaderLine sec) \<and> ?ls ! (StartLine sec - 1) = HeaderLine sec \<and>
      (\<forall>e \<in> set (Entries sec). StartLine sec < LineNo e \<and> LineNo e < StartLine sec + length (RawLines sec) \<and>
        ?ls ! (LineNo e - 1) = FullLine e \<and>
        map_option (entry_of_match (FullLine e) (LineNo e)) (matchEntryLine (FullLine e)) = Some e)"
    if "sec \<in> set (psSections (parse_lines ?ls))" for sec
  proof (intro conjI ballI)
    have so: "section_ok ?ls sec" by (rule parsed_ok_section [OF ok that])
    show "is_boundary (HeaderLine sec)" using so unfolding section_ok_def by blast
    show "?ls ! (StartLine sec - 1) = HeaderLine sec" by (rule hd [OF so])
    fix e assume "e \<in> set (Entries sec)"
    then have eo: "entry_ok ?ls sec e" using so unfolding section_ok_def by blast
    then show "StartLine sec < LineNo e" "LineNo e < StartLine sec + length (RawLines sec)"
      "?ls ! (LineNo e - 1) = FullLine e" unfolding entry_ok_def by simp_all
    show "map_option (entry_of_match (FullLine e) (LineNo e)) (matchEntryLine (FullLine e)) = Some e" by (rule pe [OF eo])
  qed
  show ?thesis unfolding Parse_Sections Parse_HeaderLines Parse_RawText using join sec by blast
qed

theorem Parse_lossless_witness:
  "str_split (RawText (fst (Parse (''#h'' @ crlf @ ''===/r/==='' @ crlf @ ''a.go[CI9L]: x'')))) [LF] !
     (StartLine (hd (Sections (fst (Parse (''#h'' @ crlf @ ''===/r/==='' @ crlf @ ''a.go[CI9L]: x''))))) - 1) =
   HeaderLine (hd (Sections (fst (Parse (''#h'' @ crlf @ ''===/r/==='' @ crlf @ ''a.go[CI9L]: x'')))))"
proof -
  let ?t = "''#h'' @ crlf @ ''===/r/==='' @ crlf @ ''a.go[CI9L]: x''"
  have "Sections (fst (Parse ?t)) \<noteq> []" by code_simp
  from Parse_lossless [of ?t, THEN conjunct2, THEN bspec, OF hd_in_set [OF this]] show ?thesis by (elim conjE)
qed

section \<open>Where an index was created does not matter\<close>

lemma directPass_all_hit:
  assumes "\<forall>(i, sec) \<in> set dirs. relUnder (normalizeRootPath (AbsPath sec)) root \<noteq> None"
    and "distinct (map fst dirs)" and "(i, sec) \<in> set dirs"
  shows "snd (directPass dirs root) = []"
    and "fst (directPass dirs root) i =
      map_option (\<lambda>r. \<lparr>rel = r, legacy = False\<rparr>) (relUnder (normalizeRootPath (AbsPath sec)) root)"
proof -
  let ?f = "\<lambda>(rds, missed) (i, sec).
        (case relUnder (normalizeRootPath (AbsPath sec)) root of
           Some r \<Rightarrow> (rds(i \<mapsto> \<lparr>rel = r, legacy = False\<rparr>), missed)
         | None \<Rightarrow> (rds, missed @ [(i, sec)]))"
  have main: "snd (foldl ?f (rds, ms) dirs) = ms \<and>
      (\<forall>(i, sec) \<in> set dirs. fst (foldl ?f (rds, ms) dirs) i =
         map_option (\<lambda>r. \<lparr>rel = r, legacy = False\<rparr>) (relUnder (normalizeRootPath (AbsPath sec)) root)) \<and>
      (\<forall>i. i \<notin> fst ` set dirs \<longrightarrow> fst (foldl ?f (rds, ms) dirs) i = rds i)" for rds ms
    using assms(1,2)
  proof (induction dirs arbitrary: rds)
    case (Cons d dirs)
    obtain j s where d: "d = (j, s)" by (cases d)
    then obtain r where r: "relUnder (normalizeRootPath (AbsPath s)) root = Some r" using Cons.prems(1) by auto
    define rds' where "rds' = rds(j \<mapsto> \<lparr>rel = r, legacy = False\<rparr>)"
    have rds': "rds' j = Some \<lparr>rel = r, legacy = False\<rparr>" "i \<noteq> j \<Longrightarrow> rds' i = rds i" for i
      by (simp_all add: rds'_def)
    have step: "foldl ?f (rds, ms) (d # dirs) = foldl ?f (rds', ms) dirs"
      unfolding d rds'_def by (simp only: foldl_Cons prod.case r option.case)
    have nj: "j \<notin> fst ` set dirs" using Cons.prems(2) d by simp
    show ?case unfolding step using Cons.IH [of rds'] Cons.prems d r rds' nj by auto
  qed simp
  from main [of Map.empty "[]"] assms(3)
  show "snd (directPass dirs root) = []"
    and "fst (directPass dirs root) i =
      map_option (\<lambda>r. \<lparr>rel = r, legacy = False\<rparr>) (relUnder (normalizeRootPath (AbsPath sec)) root)"
    unfolding directPass_def by auto
qed

text \<open>
  The family of a root \<open>R\<close>: every directory section names \<open>R\<close> or a directory below it, and some
  section names \<open>R\<close> itself (the anchor the writer puts first).
\<close>

definition rooted_at :: "Section list \<Rightarrow> string \<Rightarrow> bool" where
  "rooted_at secs R \<longleftrightarrow> R \<noteq> [] \<and> R \<noteq> slash \<and>
     list_all (\<lambda>(i, sec). relUnder (normalizeRootPath (AbsPath sec)) R \<noteq> None) (directories secs) \<and>
     list_ex (\<lambda>(i, sec). normalizeRootPath (AbsPath sec) = R) (directories secs)"

text \<open>The first directory section reads the same both ways (it holds no cut character).\<close>

definition first_reads_once :: "Section list \<Rightarrow> bool" where
  "first_reads_once secs \<longleftrightarrow>
     (case firstDirectorySection secs of None \<Rightarrow> True
      | Some (i, sec) \<Rightarrow> normalizeRootPath (LegacyAbsPath sec) = normalizeRootPath (AbsPath sec))"

definition none_under :: "Section list \<Rightarrow> string \<Rightarrow> bool" where
  "none_under secs root \<longleftrightarrow>
     list_all (\<lambda>(i, sec). relUnder (normalizeRootPath (AbsPath sec)) (normalizeRootPath root) = None) (directories secs)"

lemma rootedD:
  assumes "rooted_at secs R"
  shows "\<forall>(i, sec) \<in> set (directories secs). normalizeRootPath (AbsPath sec) = R \<or>
      (\<exists>d. normalizeRootPath (AbsPath sec) = R @ slash @ d)"
    and "\<exists>(i, sec) \<in> set (directories secs). normalizeRootPath (AbsPath sec) = R"
    and "R \<noteq> []" "R \<noteq> slash" "firstDirectorySection secs \<noteq> None"
  using assms unfolding rooted_at_def list_all_iff list_ex_iff
  by (auto simp: relUnder_iff firstDirectorySection_def split: list.splits)

lemma nestedWorktree_at_root:
  assumes "rooted_at secs R"
  shows "nestedWorktree (directories secs) (firstDirectorySection secs) R = None"
proof -
  obtain fi fsec where f: "firstDirectorySection secs = Some (fi, fsec)" using rootedD(5) [OF assms] by auto
  note fd = first_in_directories [OF f]
  have "fst (relocateExtended (directories secs)) fi =
      map_option (\<lambda>r. \<lparr>rel = r, legacy = False\<rparr>) (relUnder (normalizeRootPath (AbsPath fsec)) R)"
    by (rule relocateExtended_rooted [OF rootedD(1-4) [OF assms] directories_distinct fd])
  then show ?thesis
    by (auto simp: nestedWorktree_def f split: option.splits prod.splits)
qed

text \<open>
  A clone resolves an index exactly as its origin does: for the family of a root, every
  checkout that either is that root or has no section under it, wherever it lies, resolves every
  directory section to the same repository-relative directory, the section's path below the root.
\<close>

theorem resolution_position_independent:
  assumes "rooted_at secs R" and "first_reads_once secs" and "normalizeRootPath root = R \<or> none_under secs root"
    and "i < length secs" and "AbsPath (secs ! i) \<noteq> []"
  shows "resolveSectionRels secs root i = relUnder (normalizeRootPath (AbsPath (secs ! i))) R \<and>
    resolveSectionRels secs root i \<noteq> None"
proof -
  note r = rootedD [OF assms(1)]
  obtain fi fsec where f: "firstDirectorySection secs = Some (fi, fsec)" using r(5) by auto
  have once: "normalizeRootPath (LegacyAbsPath fsec) = normalizeRootPath (AbsPath fsec)"
    using assms(2) f by (simp add: first_reads_once_def)
  note old = oldWriterReadings_first_same [OF f once]
  have mem: "(i, secs ! i) \<in> set (directories secs)" using assms(4,5) by (simp add: directories_def)
  have some: "relUnder (normalizeRootPath (AbsPath (secs ! i))) R \<noteq> None"
    using assms(1) mem by (auto simp: rooted_at_def list_all_iff)
  have "resolveSectionReadings secs root i =
      map_option (\<lambda>r. \<lparr>rel = r, legacy = False\<rparr>) (relUnder (normalizeRootPath (AbsPath (secs ! i))) R)"
  proof (cases "normalizeRootPath root = R")
    case True
    have hit: "\<forall>(i, sec) \<in> set (directories secs). relUnder (normalizeRootPath (AbsPath sec)) R \<noteq> None"
      using assms(1) by (auto simp: rooted_at_def list_all_iff)
    note d = directPass_all_hit [OF hit directories_distinct mem]
    then show ?thesis
      unfolding resolveSectionReadings_def Let_def old True nestedWorktree_at_root [OF assms(1)] option.case
      by (cases "directPass (directories secs) R") simp
  next
    case False
    then have miss: "\<forall>(i, sec) \<in> set (directories secs).
        relUnder (normalizeRootPath (AbsPath sec)) (normalizeRootPath root) = None"
      using assms(3) by (auto simp: none_under_def list_all_iff)
    show ?thesis
      using relocateExtended_rooted [OF r(1-4) directories_distinct mem] mem old
      by (auto simp: resolve_all_miss [OF miss])
  qed
  then show ?thesis using some by (auto simp: resolveSectionRels_def option.map_comp comp_def)
qed

theorem resolution_position_independent_witness:
  "resolveSectionRels [new_section ''===/r/==='' 1, new_section ''===/r/a b/==='' 2] ''/x'' 1 = Some ''a b''"
proof -
  let ?secs = "[new_section ''===/r/==='' 1, new_section ''===/r/a b/==='' 2]"
  have a: "rooted_at ?secs ''/r''" by code_simp
  have b: "first_reads_once ?secs" by code_simp
  have c: "none_under ?secs ''/x''" by code_simp
  have d: "1 < length ?secs" by simp
  have e: "AbsPath (?secs ! 1) \<noteq> []" by code_simp
  have r: "relUnder (normalizeRootPath (AbsPath (?secs ! 1))) ''/r'' = Some ''a b''" by code_simp
  show ?thesis
    by (rule trans [OF conjunct1 [OF resolution_position_independent [OF a b disjI2 [OF c] d e]] r])
qed

end
