(* ===== verification/Index_Header.thy ===== *)
theory Index_Header
  imports Index_Edit_Laws
begin

text \<open>
  The header area of an index (header.go), the rewriting of section roots (section_roots.go) and
  the locale marker (locale.go).
\<close>

section \<open>The header area\<close>

fun headerBoundary :: "string list \<Rightarrow> nat" where
  "headerBoundary [] = 0"
| "headerBoundary (l # ls) = (if is_boundary l then 0 else Suc (headerBoundary ls))"

definition ExtractHeader :: "string \<Rightarrow> string \<times> bool" where
  "ExtractHeader text =
     (let ls = lines_of (stripBOM text); b = headerBoundary ls
      in (str_join (take b ls) [LF], b < length ls))"

datatype header_error = HeaderBoundaryLine string | HeaderNotComment string

text \<open>The first offending line, with its number counted from one; \<open>None\<close> for Go's \<open>(0, "")\<close>.\<close>

fun validate_lines :: "(nat \<times> string) list \<Rightarrow> (nat \<times> header_error) option" where
  "validate_lines [] = None"
| "validate_lines ((i, line) # rest) =
     (if is_boundary line then Some (i + 1, HeaderBoundaryLine (truncateForWarn line))
      else if trim_space line \<noteq> [] \<and> \<not> has_prefix (trim_space line) ''#''
      then Some (i + 1, HeaderNotComment (truncateForWarn line))
      else validate_lines rest)"

definition ValidateHeaderText :: "string \<Rightarrow> (nat \<times> header_error) option" where
  "ValidateHeaderText newHeader =
     (if newHeader = [] then None
      else validate_lines (ranged (str_split (fold_crlf newHeader) [LF])))"

definition header_lines_of :: "string \<Rightarrow> string list" where
  "header_lines_of newHeader =
     (let nh = trim_suffix (fold_crlf newHeader) [LF] in if nh = [] then [] else str_split nh [LF])"

definition ReplaceHeader :: "string \<Rightarrow> string \<Rightarrow> (nat \<times> header_error, string) result" where
  "ReplaceHeader text newHeader =
     (case ValidateHeaderText newHeader of
        Some err \<Rightarrow> Inl err
      | None \<Rightarrow>
          (case splitPreserve (stripBOM text) of (ls, eol, trailingNL) \<Rightarrow>
             Inr (joinPreserve (header_lines_of newHeader @ drop (headerBoundary ls) ls) eol trailingNL)))"

section \<open>Section roots\<close>

datatype relocate_error =
    RelocateUnresolved string
  | RelocateLineRange nat
  | RelocateUnreadable nat
  | RelocateReadBack string

definition trim_rel :: "string \<Rightarrow> string" where
  "trim_rel r = trim_chars (replace_all r [CHR 0x5C] slash) slash"

text \<open>
  The position where the path token of a header starts: after \<open>===\<close> and the descriptive prefix.
\<close>

definition header_path_start :: "string \<Rightarrow> nat option" where
  "header_path_start line = map_option (\<lambda>(m1, _, _). 3 + length m1) (consistencyDirRe line)"

definition neutral_header :: "string \<Rightarrow> nat \<Rightarrow> string \<Rightarrow> string" where
  "neutral_header line start r =
     take start line @ NeutralRepositoryRoot @ slash @ (if r \<noteq> [] then r @ slash else []) @ ''===''"

text \<open>The rewriting loop: new lines, the expected directory of each header line, and the count.\<close>

fun relocate_loop ::
  "(nat \<Rightarrow> string option) \<Rightarrow> secref list \<Rightarrow> string list \<Rightarrow> (nat \<Rightarrow> string option) \<Rightarrow> nat \<Rightarrow>
   (relocate_error, string list \<times> (nat \<Rightarrow> string option) \<times> nat) result" where
  "relocate_loop rels [] ls expected changed = Inr (ls, expected, changed)"
| "relocate_loop rels ((i, sec) # rest) ls expected changed =
     (case rels i of
        None \<Rightarrow> Inl (RelocateUnresolved (AbsPath sec))
      | Some rel0 \<Rightarrow>
          let r = trim_rel rel0 in
          if StartLine sec < 1 \<or> length ls < StartLine sec then Inl (RelocateLineRange (StartLine sec))
          else
            let line = ls ! (StartLine sec - 1) in
            (case header_path_start line of
               None \<Rightarrow> Inl (RelocateUnreadable (StartLine sec))
             | Some start \<Rightarrow>
                 let header = neutral_header line start r;
                     expected' = expected(StartLine sec \<mapsto> r)
                 in if header \<noteq> line
                    then relocate_loop rels rest (ls[StartLine sec - 1 := header]) expected' (changed + 1)
                    else relocate_loop rels rest ls expected' changed))"

fun read_back :: "(nat \<Rightarrow> string option) \<Rightarrow> (nat \<Rightarrow> string option) \<Rightarrow> secref list \<Rightarrow> relocate_error option" where
  "read_back rels expected [] = None"
| "read_back rels expected ((i, sec) # rest) =
     (case rels i of
        None \<Rightarrow> Some (RelocateReadBack (AbsPath sec))
      | Some r \<Rightarrow>
          if trim_rel r \<noteq> (case expected (StartLine sec) of None \<Rightarrow> [] | Some x \<Rightarrow> x)
          then Some (RelocateReadBack (AbsPath sec))
          else read_back rels expected rest)"

definition RelocateSectionRoots :: "string \<Rightarrow> string \<Rightarrow> (relocate_error, string \<times> nat) result" where
  "RelocateSectionRoots text repoRoot =
     (case splitPreserve text of (ls, eol, trailingNL) \<Rightarrow>
      let secs = Sections (editor_doc ls) in
      case relocate_loop (resolveSectionRels secs repoRoot) (directories secs) ls Map.empty 0 of
        Inl err \<Rightarrow> Inl err
      | Inr (ls', expected, changed) \<Rightarrow>
          if changed = 0 then Inr (text, 0)
          else
            let after = Sections (editor_doc ls') in
            (case read_back (resolveSectionRels after repoRoot) expected (directories after) of
               Some err \<Rightarrow> Inl err
             | None \<Rightarrow> Inr (joinPreserve ls' eol trailingNL, changed)))"

fun first_line_with :: "string \<Rightarrow> string list \<Rightarrow> nat option" where
  "first_line_with p [] = None"
| "first_line_with p (l # ls) =
     (if has_prefix (trim_space l) p then Some 0 else map_option Suc (first_line_with p ls))"

definition EnsureSectionRootNote :: "string \<Rightarrow> string \<Rightarrow> string \<times> bool" where
  "EnsureSectionRootNote meta note =
     (if str_contains meta NeutralRepositoryRoot then (meta, False)
      else (case splitPreserve meta of (ls, eol, trailingNL) \<Rightarrow>
        let (at, nl) =
          (case first_line_with ''#Code canonical identity example:'' ls of
             Some i \<Rightarrow> (i + 1, trailingNL)
           | None \<Rightarrow>
               (case first_line_with ''#[Tag dictionary:'' ls of
                  Some i \<Rightarrow> (i, trailingNL)
                | None \<Rightarrow> (length ls, True)))
        in (joinPreserve (take at ls @ [note] @ drop at ls) eol nl, True)))"

section \<open>The locale marker\<close>

text \<open>
  \<open>textassets.IsOfficialLocale\<close> looks the locale up in the manifest embedded into the binary; the
  list of official locales of that manifest is a parameter of the operations here.
\<close>

definition LegacyLocale :: string where
  "LegacyLocale = ''zh-CN''"

definition IsOfficialLocale :: "string list \<Rightarrow> string \<Rightarrow> bool" where
  "IsOfficialLocale officialLocales loc \<longleftrightarrow> trim_space loc \<in> set officialLocales"

datatype locale_error = LocaleMarkerEmpty | LocaleMarkerDuplicate | LocaleUnsupported string

definition localeMarkerPrefix :: string where
  "localeMarkerPrefix = ''#Locale:''"

fun detect_loop :: "string list \<Rightarrow> string option \<Rightarrow> (locale_error, string option) result" where
  "detect_loop [] found = Inr found"
| "detect_loop (line # rest) found =
     (let trimmed = trim_space line in
      if \<not> has_prefix trimmed localeMarkerPrefix then detect_loop rest found
      else
        let v = trim_space (trim_prefix trimmed localeMarkerPrefix) in
        if v = [] then Inl LocaleMarkerEmpty
        else if found \<noteq> None then Inl LocaleMarkerDuplicate
        else detect_loop rest (Some v))"

definition DetectLocale :: "string list \<Rightarrow> string \<Rightarrow> (locale_error, string \<times> bool) result" where
  "DetectLocale officialLocales indexText =
     (case detect_loop (str_split indexText [LF]) None of
        Inl err \<Rightarrow> Inl err
      | Inr None \<Rightarrow> Inr (LegacyLocale, False)
      | Inr (Some v) \<Rightarrow> if IsOfficialLocale officialLocales v then Inr (v, True) else Inl (LocaleUnsupported v))"

definition LocaleMarker :: "string list \<Rightarrow> string \<Rightarrow> (locale_error, string) result" where
  "LocaleMarker officialLocales loc =
     (if IsOfficialLocale officialLocales loc then Inr (localeMarkerPrefix @ '' '' @ loc) else Inl (LocaleUnsupported loc))"

text \<open>
  The byte scan of \<open>ReplaceLocaleMarker\<close> behind the byte order mark: the line contents, without
  their CR, are tried in turn, and the first one that carries the marker is exchanged.
\<close>

fun replace_marker_lines :: "string \<Rightarrow> string list \<Rightarrow> string list option" where
  "replace_marker_lines marker [] = None"
| "replace_marker_lines marker (l # ls) =
     (if has_prefix (trim_space (chomp_cr l)) localeMarkerPrefix
      then Some ((marker @ (if ends_cr l then [CR] else [])) # ls)
      else map_option ((#) l) (replace_marker_lines marker ls))"

definition ReplaceLocaleMarker ::
  "string list \<Rightarrow> string \<Rightarrow> string \<Rightarrow> (locale_error, string) result" where
  "ReplaceLocaleMarker officialLocales raw loc =
     (case LocaleMarker officialLocales loc of
        Inl err \<Rightarrow> Inl err
      | Inr marker \<Rightarrow>
          (case DetectLocale officialLocales raw of
             Inl err \<Rightarrow> Inl err
           | Inr _ \<Rightarrow>
               let pre = (if has_prefix raw bom then bom else []);
                   body = drop (length pre) raw in
               (case replace_marker_lines marker (str_split body [LF]) of
                  Some ls \<Rightarrow> Inr (pre @ str_join ls [LF])
                | None \<Rightarrow>
                    let crlfFirst = (case str_split body [LF] of
                                       l # _ # _ \<Rightarrow> ends_cr l | _ \<Rightarrow> False)
                    in Inr (pre @ marker @ (if crlfFirst then crlf else [LF]) @ body))))"

end
