(* ===== verification/Index_Header_Laws.thy ===== *)
theory Index_Header_Laws
  imports Index_Header
begin

text \<open>
  Laws of the header area and of the locale marker: replacing the header leaves the entry area
  alone, and a locale marker that was written is the one that is detected.
\<close>

section \<open>Replacing the header\<close>

lemma headerBoundary_grouped:
  "list_all (\<lambda>l. \<not> is_boundary l) hdr \<Longrightarrow> list_all is_group gs \<Longrightarrow> headerBoundary (hdr @ concat gs) = length hdr"
proof (induction hdr)
  case Nil
  then show ?case by (cases gs; cases "hd gs") (auto simp: is_group_def)
qed simp

lemma validate_lines_None:
  "validate_lines xs = None \<longleftrightarrow> (\<forall>(i, l) \<in> set xs. \<not> is_boundary l \<and> is_comment_or_blank l)"
  by (induction xs rule: validate_lines.induct) (auto simp: is_comment_or_blank_def)

lemma str_split_trim_suffix:
  "set (str_split (trim_suffix s [c]) [c]) \<subseteq> set (str_split s [c])"
proof (cases "has_suffix s [c]")
  case True
  then obtain t where "s = t @ [c]" by (auto simp: has_suffix_iff)
  then show ?thesis by (simp add: str_split_snoc_sep) blast
qed (simp add: trim_suffix_def)

lemma header_lines_ok:
  assumes "ValidateHeaderText nh = None" "l \<in> set (header_lines_of nh)"
  shows "\<not> is_boundary l" "is_comment_or_blank l" "LF \<notin> set l"
proof -
  let ?s = "fold_crlf nh"
  have l: "l \<in> set (str_split (trim_suffix ?s [LF]) [LF])" "nh \<noteq> []"
    using assms(2) by (auto simp: header_lines_of_def Let_def trim_suffix_def split: if_splits)
  then have "l \<in> set (str_split ?s [LF])" using str_split_trim_suffix [of ?s LF] by blast
  then obtain i where "i < length (str_split ?s [LF])" "str_split ?s [LF] ! i = l"
    unfolding in_set_conv_nth by blast
  then have "(i, l) \<in> set (ranged (str_split ?s [LF]))" by simp
  moreover have "validate_lines (ranged (str_split ?s [LF])) = None"
    using assms(1) l(2) by (simp add: ValidateHeaderText_def)
  ultimately show "\<not> is_boundary l" "is_comment_or_blank l"
    unfolding validate_lines_None by blast+
  show "LF \<notin> set l" using l(1) str_split_char_no_sep by blast
qed

lemma comment_no_bom: "is_comment_or_blank l \<Longrightarrow> \<not> has_prefix l bom"
proof
  assume c: "is_comment_or_blank l" and b: "has_prefix l bom"
  obtain u where l: "l = bom @ u" using b by (auto simp: has_prefix_iff)
  have d: "decode_rune l = (65279, 3)"
    unfolding l bom_def by (simp add: decode_rune_def second_ok_def is_cont_def cont_bits_def)
  have left: "trim_left_func is_space l = l" by (rule trim_left_func_id) (simp add: d is_space_def)
  have "\<exists>r \<in> set (runes l). \<not> is_space r"
    using d l by (simp add: runes_nonempty bom_def is_space_def)
  then have ne: "trim_space l \<noteq> []" using trim_space_eq_Nil_iff by blast
  obtain v where v: "l = trim_space l @ v"
    using trim_right_func_prefix [of l is_space] left by (auto simp: trim_space_def)
  then have "hd (trim_space l) = CHR 0xEF" using ne l by (cases "trim_space l") (auto simp: bom_def)
  then show False using c ne by (cases "trim_space l") (auto simp: is_comment_or_blank_def)
qed

text \<open>
  Replacing the header changes the header only: readers of the new text see the index table
  of the old one, and when the text has sections its lines are the new header's lines followed by
  the untouched entry area.
\<close>

theorem ReplaceHeader_keeps_entries:
  assumes "plain_text text" and "list_all (\<lambda>l. \<not> ends_cr l) (header_lines_of nh)"
    and "ReplaceHeader text nh = Inr t"
  shows "index_table t root = index_table text root \<and>
    (headerBoundary (lines_of text) < length (lines_of text) \<longrightarrow>
       lines_of t = header_lines_of nh @ drop (headerBoundary (lines_of text)) (lines_of text) \<and>
       fst (ExtractHeader t) = str_join (header_lines_of nh) [LF])"
proof -
  obtain ls eol nl where s: "splitPreserve text = (ls, eol, nl)" by (metis prod_cases3)
  let ?H = "header_lines_of nh" and ?b = "headerBoundary ls"
  let ?C = "drop ?b ls" and ?gs = "map RawLines (secs_of ls)" and ?hdr = "psHeader (parse_lines ls)"
  have v: "ValidateHeaderText nh = None" and t: "t = joinPreserve (?H @ ?C) eol nl"
    using assms(3) s stripBOM_id [OF plain_textD(3) [OF assms(1) s]]
    by (auto simp: ReplaceHeader_def split: option.splits)
  note H = header_lines_ok [OF v]
  note legal = splitPreserve_legal [OF s]
  have gr: "grouped ls ?hdr ?gs" by (rule lines_grouped)
  then have b: "?b = length ?hdr" using headerBoundary_grouped unfolding grouped_def by metis
  then have C: "?C = concat ?gs" using gr unfolding grouped_def by (metis append_eq_conv_conj)
  have Hn: "list_all (\<lambda>l. \<not> is_boundary l) ?H" using H(1) by (auto simp: list_all_iff)
  have "grouped (?H @ ?C) ?H ?gs" using gr Hn C by (simp add: grouped_def)
  then have views: "map view_of (secs_of (?H @ ?C)) = map view_of (secs_of ls)"
    using grouped_views gr by metis
  have lines: "\<forall>l \<in> set (?H @ ?C). LF \<notin> set l \<and> \<not> ends_cr l"
    using H(3) assms(2) plain_textD(1) [OF assms(1) s] legal
    by (auto simp: list_all_iff legal_lines_def dest: in_set_dropD)
  have eol: "eol = [LF] \<or> eol = crlf" using legal by (simp add: legal_lines_def)
  have hb: "has_prefix (hd ?C) ''===''" if "?C \<noteq> []"
  proof (cases ?gs)
    case (Cons g gs)
    then have "is_group g" using gr by (simp add: grouped_def)
    then have "is_boundary (hd ?C)" unfolding C Cons by (cases g) (auto simp: is_group_def)
    then show ?thesis by (rule boundary_prefix)
  qed (use that C in simp)
  then have hdC: "\<not> has_prefix (hd ?C) bom" if "?C \<noteq> []"
    using that by (auto simp: has_prefix_iff bom_def)
  have bomH: "\<not> has_prefix (hd (?H @ ?C)) bom" if "?H @ ?C \<noteq> []"
    using that hdC H(2) comment_no_bom by (cases ?H) auto
  have table: "index_table t root = index_table text root"
  proof (cases "?H @ ?C = []")
    case False
    then show ?thesis
      unfolding t plain_table [OF plain_textD(3) [OF assms(1) s] s] views [symmetric]
      using joined_table [OF joinable_plainI [OF False eol lines] bomH [OF False]] by simp
  next
    case True
    then have vs: "map view_of (secs_of ls) = []" using views by (simp add: parse_lines_def init_pstate_def)
    have "joinPreserve [] eol nl = joinPreserve [[]] eol nl" by (simp add: joinPreserve_def)
    moreover have "index_table (joinPreserve [[]] eol nl) root = views_table (map view_of (secs_of [[]])) root"
      using eol by (intro joined_table joinable_plainI) (auto simp: bom_def)
    ultimately show ?thesis
      unfolding t True plain_table [OF plain_textD(3) [OF assms(1) s] s] vs
      using views_blank_tail [of "[]"] by (simp add: parse_lines_def init_pstate_def)
  qed
  show ?thesis
  proof (intro conjI impI)
    assume "headerBoundary (lines_of text) < length (lines_of text)"
    then have lt: "?b < length ls" using s by simp
    then have ne: "?C \<noteq> []" by simp
    have "nl \<or> length (?H @ ?C) = 1 \<or> last (?H @ ?C) \<noteq> []"
    proof (cases "length ls = 1")
      case True
      then have "?C = ls" "hd ls = last ls" using lt by (cases ls; simp)+
      then show ?thesis using hb ne by auto
    next
      case False
      then have "nl \<or> last ls \<noteq> []" using legal unfolding legal_lines_def by blast
      moreover have "last (?H @ ?C) = last ls" using ne by (simp add: last_drop)
      ultimately show ?thesis by metis
    qed
    then have lg: "legal_lines eol nl (?H @ ?C)" using legal_plainI [of "?H @ ?C" eol nl] ne eol lines by simp
    then show lt2: "lines_of t = ?H @ drop (headerBoundary (lines_of text)) (lines_of text)"
      unfolding t using s by (simp add: splitPreserve_join)
    have "\<not> has_prefix t bom" unfolding t using bom_join [of "?H @ ?C" eol nl] bomH ne eol by simp
    moreover have "headerBoundary (?H @ ?C) = length ?H"
      unfolding C using gr Hn by (intro headerBoundary_grouped) (auto simp: grouped_def)
    ultimately show "fst (ExtractHeader t) = str_join ?H [LF]"
      using lt2 s by (simp add: ExtractHeader_def stripBOM_id Let_def)
  qed (rule table)
qed

theorem ReplaceHeader_keeps_entries_witness:
  "index_table (''#new'' @ [LF] @ ''===/r/==='' @ [LF] @ ''a[CI9L]:x'') ''/r'' =
     index_table (''#h'' @ [LF] @ ''#i'' @ [LF] @ ''===/r/==='' @ [LF] @ ''a[CI9L]:x'') ''/r''"
proof -
  let ?t = "''#h'' @ [LF] @ ''#i'' @ [LF] @ ''===/r/==='' @ [LF] @ ''a[CI9L]:x''"
  have p: "plain_text ?t" by code_simp
  have h: "list_all (\<lambda>l. \<not> ends_cr l) (header_lines_of (''#new'' @ crlf))" by code_simp
  have r: "ReplaceHeader ?t (''#new'' @ crlf) = Inr (''#new'' @ [LF] @ ''===/r/==='' @ [LF] @ ''a[CI9L]:x'')" by code_simp
  show ?thesis by (rule conjunct1 [OF ReplaceHeader_keeps_entries [OF p h r]])
qed

section \<open>The locale marker\<close>

lemma decode_last_ascii: "byte c < 128 \<Longrightarrow> decode_last_rune (x @ [c]) = (byte c, 1)"
proof -
  assume c: "byte c < 128"
  have "\<not> ends_rune (x @ [c]) w" if "2 \<le> w" for w
  proof
    assume e: "ends_rune (x @ [c]) w"
    then have le: "w \<le> length x + 1" by (simp add: ends_rune_def)
    let ?y = "drop (length x + 1 - w) x"
    have d: "drop (length (x @ [c]) - w) (x @ [c]) = ?y @ [c]" using that by simp
    then have w: "snd (decode_rune (?y @ [c])) = w" using e by (simp add: ends_rune_def)
    have ly: "length ?y = w - 1" using le by simp
    then have "?y \<noteq> []" using that by (metis diff_is_0_eq list.size(3) not_less_eq_eq numeral_2_eq_2 One_nat_def)
    then have "decode_rune (?y @ [c]) = decode_rune ?y"
      using c by (intro decode_rune_append) (simp_all add: is_cont_def)
    then show False using w ly that decode_rune_width_le [of ?y] by simp
  qed
  then show ?thesis using c by (simp add: decode_last_rune_def decode_rune_ascii)
qed

lemma trim_right_snoc: "byte c < 128 \<Longrightarrow> is_space (byte c) \<Longrightarrow>
  trim_right_func is_space (x @ [c]) = trim_right_func is_space x"
  by (subst trim_right_func.simps) (simp add: decode_last_ascii)

lemma trim_left_snoc:
  assumes "byte c < 128" "is_space (byte c)"
  shows "trim_left_func is_space (x @ [c]) = (if trim_left_func is_space x = [] then [] else trim_left_func is_space x @ [c])"
proof (induction is_space x rule: trim_left_func.induct)
  case (1 x)
  show ?case
  proof (cases "x = []")
    case True
    have "trim_left_func is_space [c] = []"
      using assms by (subst trim_left_func.simps) (simp add: decode_rune_ascii trim_left_func.simps [of _ "[]"])
    then show ?thesis using True by (simp add: trim_left_func.simps [of _ "[]"])
  next
    case False
    have d: "decode_rune (x @ [c]) = decode_rune x"
      using assms(1) False by (intro decode_rune_append) (simp_all add: is_cont_def)
    show ?thesis
    proof (cases "is_space (fst (decode_rune x))")
      case True
      have "drop (snd (decode_rune x)) (x @ [c]) = drop (snd (decode_rune x)) x @ [c]"
        using decode_rune_width_le [of x] by simp
      then show ?thesis using True False d 1
        by (subst trim_left_func.simps, subst (2 3) trim_left_func.simps) simp
    next
      case ns: False
      then show ?thesis using False d trim_left_func_id [of x is_space] trim_left_func_id [of "x @ [c]" is_space] by simp
    qed
  qed
qed

lemma trim_space_snoc: "byte c < 128 \<Longrightarrow> is_space (byte c) \<Longrightarrow> trim_space (x @ [c]) = trim_space x"
  unfolding trim_space_def using trim_left_snoc trim_right_snoc
  by (simp add: trim_right_func.simps [of _ "[]"])

lemma trim_space_chomp: "trim_space (chomp_cr l) = trim_space l"
proof (cases "ends_cr l")
  case True
  then obtain x where "l = x @ [CR]" by (metis append_butlast_last_id ends_cr_def)
  then show ?thesis by (simp add: trim_space_snoc is_space_def)
qed (simp add: chomp_cr_def)

text \<open>A locale name as the catalogue has it: ASCII, trimmed, one word of a line.\<close>

definition plain_locale :: "string \<Rightarrow> bool" where
  "plain_locale loc \<longleftrightarrow> loc \<noteq> [] \<and> list_all (\<lambda>c. byte c < 128 \<and> \<not> is_space (byte c)) loc"

lemma trim_space_word:
  assumes "plain_locale loc" "byte d < 128" "\<not> is_space (byte d)" "list_all (\<lambda>c. byte c < 128) mid"
  shows "trim_space (d # mid @ loc) = d # mid @ loc" "trim_space ('' '' @ loc) = loc"
proof -
  have l: "\<exists>x c. loc = x @ [c] \<and> byte c < 128 \<and> \<not> is_space (byte c)"
    using assms(1) by (cases loc rule: rev_cases) (auto simp: plain_locale_def)
  have right: "trim_right_func is_space (y @ loc) = y @ loc" for y
  proof -
    obtain x c where x: "loc = x @ [c]" "byte c < 128" "\<not> is_space (byte c)" using l by blast
    then have "decode_last_rune (y @ loc) = (byte c, 1)" using decode_last_ascii [of c "y @ x"] by simp
    then show ?thesis using x(3) by (intro trim_right_func_id) simp
  qed
  show "trim_space (d # mid @ loc) = d # mid @ loc"
    unfolding trim_space_def using assms(2,3) right [of "d # mid"]
    by (simp add: trim_left_func_id decode_rune_ascii)
  obtain c x where x: "loc = c # x" "byte c < 128" "\<not> is_space (byte c)"
    using assms(1) by (cases loc) (auto simp: plain_locale_def)
  have "trim_left_func is_space ('' '' @ loc) = loc"
    using x by (subst trim_left_func.simps) (simp add: decode_rune_ascii is_space_def trim_left_func_id)
  then show "trim_space ('' '' @ loc) = loc" unfolding trim_space_def using right [of "[]"] by simp
qed

definition marker_line :: "string \<Rightarrow> bool" where
  "marker_line l \<longleftrightarrow> has_prefix (trim_space l) localeMarkerPrefix"

definition marker_value :: "string \<Rightarrow> string" where
  "marker_value l = trim_space (trim_prefix (trim_space l) localeMarkerPrefix)"

lemma detect_loop_markers:
  "detect_loop ls found = Inr r \<longleftrightarrow>
     (case found of
        None \<Rightarrow> (case filter marker_line ls of
                    [] \<Rightarrow> r = None
                  | [m] \<Rightarrow> marker_value m \<noteq> [] \<and> r = Some (marker_value m)
                  | _ \<Rightarrow> False)
      | Some v \<Rightarrow> filter marker_line ls = [] \<and> r = Some v)"
proof (induction ls arbitrary: found)
  case (Cons l ls)
  have step: "detect_loop (l # ls) found =
      (if \<not> marker_line l then detect_loop ls found
       else if marker_value l = [] then Inl LocaleMarkerEmpty
       else if found \<noteq> None then Inl LocaleMarkerDuplicate
       else detect_loop ls (Some (marker_value l)))"
    by (simp add: Let_def marker_line_def marker_value_def)
  show ?case unfolding step using Cons.IH by (auto split: option.splits list.splits)
qed (auto split: option.splits)

lemma replace_marker_lines_None: "filter marker_line ls = [] \<Longrightarrow> replace_marker_lines marker ls = None"
  by (induction ls) (auto simp: marker_line_def trim_space_chomp split: if_splits)

lemma replace_marker_lines_Some:
  "filter marker_line xs = [] \<Longrightarrow> marker_line l \<Longrightarrow>
   replace_marker_lines marker (xs @ l # ys) = Some (xs @ (marker @ (if ends_cr l then [CR] else [])) # ys)"
  by (induction xs) (auto simp: marker_line_def trim_space_chomp split: if_splits)

lemma marker_written:
  assumes "plain_locale loc"
  shows "marker_line (localeMarkerPrefix @ '' '' @ loc @ (if b then [CR] else []))"
    and "marker_value (localeMarkerPrefix @ '' '' @ loc @ (if b then [CR] else [])) = loc"
proof -
  let ?m = "localeMarkerPrefix @ '' '' @ loc"
  have t: "trim_space ?m = ?m"
    using trim_space_word(1) [OF assms, of "CHR ''#''" "''Locale: ''"] by (simp add: localeMarkerPrefix_def is_space_def)
  have cr: "trim_space (?m @ (if b then [CR] else [])) = ?m"
    using t trim_space_snoc [of CR ?m] by (simp add: is_space_def)
  then show "marker_line (localeMarkerPrefix @ '' '' @ loc @ (if b then [CR] else []))"
    by (simp only: marker_line_def append_assoc has_prefix_append)
  have "trim_space ('' '' @ loc) = loc"
    by (rule trim_space_word(2) [OF assms, of "CHR ''#''" "[]"]) (simp_all add: is_space_def)
  then show "marker_value (localeMarkerPrefix @ '' '' @ loc @ (if b then [CR] else [])) = loc"
    using cr by (simp only: marker_value_def append_assoc trim_prefix_append)
qed

lemma plain_locale_chars: "plain_locale loc \<Longrightarrow> LF \<notin> set loc \<and> CR \<notin> set loc \<and> trim_space loc = loc"
proof -
  assume p: "plain_locale loc"
  then have "LF \<notin> set loc \<and> CR \<notin> set loc" by (auto simp: plain_locale_def list_all_iff is_space_def)
  moreover have "trim_space loc = loc"
  proof -
    have "trim_space (trim_space ('' '' @ loc)) = trim_space ('' '' @ loc)" by (rule trim_space_idem)
    moreover have "trim_space ('' '' @ loc) = loc"
      by (rule trim_space_word(2) [OF p, of "CHR ''#''" "[]"]) (simp_all add: is_space_def)
    ultimately show ?thesis by (simp only:)
  qed
  ultimately show ?thesis by blast
qed

text \<open>
  The locale that was written is the locale that is read: on a text without a byte order
  mark, a successful \<open>ReplaceLocaleMarker\<close> yields a text in which \<open>DetectLocale\<close> finds exactly the
  requested locale, explicitly, whether a marker was exchanged or a first line was added.
\<close>

theorem ReplaceLocaleMarker_detected:
  assumes "plain_locale loc" and "\<not> has_prefix raw bom" and "ReplaceLocaleMarker offs raw loc = Inr t"
  shows "DetectLocale offs t = Inr (loc, True)"
proof -
  let ?m = "localeMarkerPrefix @ '' '' @ loc" and ?ls = "str_split raw [LF]"
  note pl = plain_locale_chars [OF assms(1)]
  have off: "IsOfficialLocale offs loc"
    using assms(3) by (auto simp: ReplaceLocaleMarker_def LocaleMarker_def split: if_splits)
  obtain r where r: "detect_loop ?ls None = Inr r"
    using assms(3) by (auto simp: ReplaceLocaleMarker_def LocaleMarker_def DetectLocale_def split: if_splits sum.splits)
  have lf: "\<forall>l \<in> set ?ls. LF \<notin> set l" using str_split_char_no_sep by blast
  have mlf: "LF \<notin> set (?m @ (if b then [CR] else []))" for b using pl by (simp add: localeMarkerPrefix_def)
  have t: "t = (case replace_marker_lines ?m ?ls of
      Some ls \<Rightarrow> str_join ls [LF]
    | None \<Rightarrow> ?m @ (if (case ?ls of l # _ # _ \<Rightarrow> ends_cr l | _ \<Rightarrow> False) then crlf else [LF]) @ raw)"
    using assms(2,3) off
    by (auto simp: ReplaceLocaleMarker_def LocaleMarker_def Let_def split: if_splits sum.splits option.splits)
  have "\<exists>xs ys b. str_split t [LF] = xs @ (?m @ (if b then [CR] else [])) # ys \<and>
      filter marker_line xs = [] \<and> filter marker_line ys = []"
  proof (cases "filter marker_line ?ls")
    case Nil
    let ?b = "case ?ls of l # _ # _ \<Rightarrow> ends_cr l | _ \<Rightarrow> False"
    have "t = (?m @ (if ?b then [CR] else [])) @ LF # raw"
      using t replace_marker_lines_None [OF Nil] by simp
    then have "str_split t [LF] = (?m @ (if ?b then [CR] else [])) # ?ls"
      using str_split_char_append [OF mlf] by metis
    then show ?thesis using Nil by (metis append_Nil filter.simps(1))
  next
    case (Cons m rest)
    then have rest: "rest = []" using r unfolding detect_loop_markers by (auto split: list.splits)
    obtain xs ys where d: "?ls = xs @ m # ys" "filter marker_line xs = []" "marker_line m" "filter marker_line ys = rest"
      using filter_eq_ConsD [OF Cons] by (auto simp: filter_empty_conv)
    let ?ls' = "xs @ (?m @ (if ends_cr m then [CR] else [])) # ys"
    have "t = str_join ?ls' [LF]"
      using t replace_marker_lines_Some [OF d(2,3)] d(1) by simp
    moreover have "\<forall>l \<in> set ?ls'. LF \<notin> set l" using lf mlf d(1) by auto
    ultimately have "str_split t [LF] = ?ls'" using str_split_join [of ?ls' LF] by simp
    then show ?thesis using d rest by blast
  qed
  then obtain xs ys b where sp: "str_split t [LF] = xs @ (?m @ (if b then [CR] else [])) # ys"
    "filter marker_line xs = []" "filter marker_line ys = []" by blast
  note w = marker_written [OF assms(1), of b]
  have "loc \<noteq> []" using assms(1) by (simp add: plain_locale_def)
  moreover have "filter marker_line (str_split t [LF]) = [?m @ (if b then [CR] else [])]"
    unfolding sp(1) using sp(2,3) w(1) by simp
  ultimately have "detect_loop (str_split t [LF]) None = Inr (Some loc)"
    unfolding detect_loop_markers using w(2) by simp
  then show ?thesis using off pl by (simp add: DetectLocale_def)
qed

theorem ReplaceLocaleMarker_detected_witness:
  "DetectLocale [''zh-CN'', ''en-US''] (''#a'' @ crlf @ ''#Locale: en-US'' @ crlf) = Inr (''en-US'', True)"
proof -
  have p: "plain_locale ''en-US''" by code_simp
  have b: "\<not> has_prefix (''#a'' @ crlf @ ''#Locale: zh-CN'' @ crlf) bom" by code_simp
  have r: "ReplaceLocaleMarker [''zh-CN'', ''en-US''] (''#a'' @ crlf @ ''#Locale: zh-CN'' @ crlf) ''en-US'' =
    Inr (''#a'' @ crlf @ ''#Locale: en-US'' @ crlf)" by code_simp
  show ?thesis by (rule ReplaceLocaleMarker_detected [OF p b r])
qed

text \<open>
  With a byte order mark the two disagree: the writer puts its marker on the first line, behind the
  mark, where the detector does not see it.
\<close>

lemma ReplaceLocaleMarker_bom_unseen:
  "\<exists>t. ReplaceLocaleMarker [''zh-CN'', ''en-US''] (bom @ ''#a'') ''en-US'' = Inr t \<and>
     DetectLocale [''zh-CN'', ''en-US''] t = Inr (LegacyLocale, False)"
proof -
  have r: "ReplaceLocaleMarker [''zh-CN'', ''en-US''] (bom @ ''#a'') ''en-US'' = Inr (bom @ ''#Locale: en-US'' @ [LF] @ ''#a'')"
    by code_simp
  have d: "DetectLocale [''zh-CN'', ''en-US''] (bom @ ''#Locale: en-US'' @ [LF] @ ''#a'') = Inr (LegacyLocale, False)" by code_simp
  show ?thesis using r d by blast
qed

end
