(* ===== verification/Index_Dict.thy ===== *)
theory Index_Dict
  imports Index_Lexer
begin

text \<open>
  The tag dictionary (\<open>internal/index/dict.go\<close>): recognising dictionary lines in a header, collecting
  the symbols of each axis, and judging a parsed tag against them. A Go map from strings to true is
  a list without repetitions in order of first insertion; a nil dictionary is \<open>None\<close>. Chinese
  spellings are written as their UTF-8 bytes.
\<close>

section \<open>Validation results\<close>

text \<open>
  The violations of all entry gates. Message texts are constructors that carry the interpolated
  values; \<open>tag_problem\<close> is one clause of the dictionary gate's message, with the axes the
  misplacement hint names.
\<close>

datatype level = LevelError | LevelWarning

record TagViolation =
  tvAxis :: axis
  tvValue :: string
  tvExpected :: string
  tvActual :: string
  tvCause :: string

datatype vmsg =
    MsgMultiLine | MsgEmpty | MsgStructure
  | MsgFilename string string
  | MsgTagUnparseable string
  | MsgMissing "string list"
  | MsgRepeated "(string \<times> nat) list"
  | MsgNarrative string
  | MsgQuota nat int int bool
  | MsgDict "(TagViolation \<times> axis list) list"
  | MsgEScale int "string list" string
  | MsgREmpty | MsgRWideComma | MsgRTooMany nat | MsgREmptyItem nat | MsgRPlaceholder

record Violation =
  Level :: level
  Msg :: vmsg

section \<open>Dimensions\<close>

text \<open>The canonical dimensions: the five axes and the S quota.\<close>

datatype dimension = DimAxis axis | DimQuota

definition canonicalDimensionNames :: "(string \<times> dimension) list" where
  "canonicalDimensionNames =
    [(''A'' @ [CHR 0xE5, CHR 0xB1, CHR 0x82, CHR 0xE7, CHR 0xBA, CHR 0xA7], DimAxis AxA), (''A Layer'', DimAxis AxA),
     (''B'' @ [CHR 0xE6, CHR 0xA8, CHR 0xA1, CHR 0xE5, CHR 0x9D, CHR 0x97], DimAxis AxB), (''B Module'', DimAxis AxB),
     (''C'' @ [CHR 0xE9, CHR 0x87, CHR 0x8D, CHR 0xE8, CHR 0xA6, CHR 0x81, CHR 0xE5, CHR 0xBA, CHR 0xA6], DimAxis AxC),
     (''C Importance'', DimAxis AxC),
     (''D'' @ [CHR 0xE7, CHR 0x89, CHR 0xB9, CHR 0xE5, CHR 0xBE, CHR 0x81], DimAxis AxD), (''D Trait'', DimAxis AxD),
     (''E'' @ [CHR 0xE8, CHR 0xA7, CHR 0x84, CHR 0xE6, CHR 0xA8, CHR 0xA1], DimAxis AxE), (''E Scale'', DimAxis AxE),
     (''S'' @ [CHR 0xE9, CHR 0x85, CHR 0x8D, CHR 0xE9, CHR 0xA2, CHR 0x9D], DimQuota), (''S quota'', DimQuota),
     (''S Quota'', DimQuota)]"

definition canonicalDimensionName :: "string \<Rightarrow> dimension option" where
  "canonicalDimensionName name = map_of canonicalDimensionNames name"

definition normalize_rune :: "rune \<Rightarrow> rune list" where
  "normalize_rune r =
     (if r = 45 \<or> r = 95 \<or> r = 32 \<or> r = 9 \<or> r = 12288 then []
      else if 65 \<le> r \<and> r \<le> 90 then [r + 32] else [r])"

definition normalizeDimensionName :: "string \<Rightarrow> string" where
  "normalizeDimensionName name = of_runes (concat (map normalize_rune (runes name)))"

definition normalizedDimensionNames :: "(string \<times> dimension) list" where
  "normalizedDimensionNames = map (\<lambda>(s, d). (normalizeDimensionName s, d)) canonicalDimensionNames"

section \<open>Dictionary lines\<close>

fun strip_parens_runes :: "nat \<Rightarrow> rune list \<Rightarrow> rune list" where
  "strip_parens_runes depth [] = []"
| "strip_parens_runes depth (r # rs) =
     (if r = 40 \<or> r = 65288 then strip_parens_runes (depth + 1) rs
      else if r = 41 \<or> r = 65289 then strip_parens_runes (depth - 1) rs
      else if depth = 0 then r # strip_parens_runes depth rs
      else strip_parens_runes depth rs)"

definition stripParens :: "string \<Rightarrow> string" where
  "stripParens s = of_runes (strip_parens_runes 0 (runes s))"

definition wide_colon :: string where
  "wide_colon = [CHR 0xEF, CHR 0xBC, CHR 0x9A]"

text \<open>The first colon of a line, half-width or full-width, and its length.\<close>

definition first_colon :: "string \<Rightarrow> (nat \<times> nat) option" where
  "first_colon t =
     (case (str_index t '':'', str_index t wide_colon) of
        (Some ih, None) \<Rightarrow> Some (ih, 1)
      | (Some ih, Some iw) \<Rightarrow> if ih < iw then Some (ih, 1) else Some (iw, 3)
      | (None, Some iw) \<Rightarrow> Some (iw, 3)
      | (None, None) \<Rightarrow> None)"

definition parseDictLine :: "string \<Rightarrow> (dimension \<times> string) option" where
  "parseDictLine line =
     (let t = trim_space (trim_prefix (trim_space line) ''#'') in
      case first_colon t of
        None \<Rightarrow> None
      | Some (idx, clen) \<Rightarrow>
          (case canonicalDimensionName (trim_space (stripParens (take idx t))) of
             None \<Rightarrow> None
           | Some dim \<Rightarrow> Some (dim, drop (idx + clen) t)))"

record DimensionNearMiss =
  Canonical :: dimension
  Written :: string

definition DimensionNameNearMiss :: "string \<Rightarrow> DimensionNearMiss option" where
  "DimensionNameNearMiss line =
     (let t0 = trim_space line in
      if \<not> has_prefix t0 ''#'' then None
      else
        let t = trim_space (trim_prefix t0 ''#'') in
        case first_colon t of
          None \<Rightarrow> None
        | Some (idx, _) \<Rightarrow>
            let name = trim_space (stripParens (take idx t)) in
            if canonicalDimensionName name \<noteq> None then None
            else map_option (\<lambda>dim. \<lparr>Canonical = dim, Written = name\<rparr>)
                   (map_of normalizedDimensionNames (normalizeDimensionName name)))"

definition AcceptedDimensionSpellings :: "dimension \<Rightarrow> string list" where
  "AcceptedDimensionSpellings dim =
     sort_strings (map fst (filter (\<lambda>(_, d). d = dim) canonicalDimensionNames))"

definition containsNonASCII :: "string \<Rightarrow> bool" where
  "containsNonASCII v \<longleftrightarrow> list_ex (\<lambda>r. 127 < r) (runes v)"

definition AcceptedDimensionSpellingsForLocale :: "dimension \<Rightarrow> string \<Rightarrow> string list" where
  "AcceptedDimensionSpellingsForLocale dim loc =
     (let al = AcceptedDimensionSpellings dim in
      if loc = ''zh-CN'' then al
      else let ascii = filter (\<lambda>s. \<not> containsNonASCII s) al in if ascii = [] then al else ascii)"

section \<open>The dictionary\<close>

record tagDictionaryConflict =
  cAxis :: axis
  cSymbol :: string
  cFirst :: string
  cSecond :: string

record TagDict =
  axisSyms :: "axis \<Rightarrow> string list"
  declared :: "axis \<Rightarrow> bool"
  nearMisses :: "DimensionNearMiss list"
  malformed :: "string list"
  definitions :: "axis \<Rightarrow> string \<Rightarrow> string option"
  conflicts :: "tagDictionaryConflict list"

definition empty_dict :: TagDict where
  "empty_dict = \<lparr>axisSyms = (\<lambda>_. []), declared = (\<lambda>_. False), nearMisses = [], malformed = [],
     definitions = (\<lambda>_. Map.empty), conflicts = []\<rparr>"

fun axis_name :: "axis \<Rightarrow> string" where
  "axis_name AxA = ''A''" | "axis_name AxB = ''B''" | "axis_name AxC = ''C''"
| "axis_name AxD = ''D''" | "axis_name AxE = ''E''"

definition ascii_letter :: "char \<Rightarrow> bool" where
  "ascii_letter c \<longleftrightarrow> (65 \<le> byte c \<and> byte c \<le> 90) \<or> (97 \<le> byte c \<and> byte c \<le> 122)"

definition leadingASCIILetters :: "string \<Rightarrow> string" where
  "leadingASCIILetters word = takeWhile ascii_letter word"

definition leadingASCIIDigits :: "string \<Rightarrow> string" where
  "leadingASCIIDigits word = takeWhile is_digit word"

definition validDictionarySymbol :: "axis \<Rightarrow> string \<Rightarrow> bool" where
  "validDictionarySymbol ax symbol =
     (if symbol = [] then False
      else if ax = AxC then length symbol = 1 \<and> 49 \<le> byte (hd symbol) \<and> byte (hd symbol) \<le> 57
      else if ax = AxA \<or> ax = AxE then length symbol = 1
      else True)"

definition set_insert :: "string \<Rightarrow> string list \<Rightarrow> string list" where
  "set_insert s xs = (if s \<in> set xs then xs else xs @ [s])"

definition unparseable :: "axis \<Rightarrow> string" where
  "unparseable ax = ''axis='' @ axis_name ax @ '';state=unparseable''"

text \<open>One word of a dictionary line; the flag reports whether it was accepted.\<close>

definition collect_word :: "axis \<Rightarrow> TagDict \<times> bool \<Rightarrow> string \<Rightarrow> TagDict \<times> bool" where
  "collect_word ax acc word =
     (case acc of (d, accepted) \<Rightarrow>
      let symbol = (if ax = AxC then leadingASCIIDigits word else leadingASCIILetters word) in
      if \<not> validDictionarySymbol ax symbol then (d, accepted)
      else
        let d1 = d\<lparr>axisSyms := (axisSyms d)(ax := set_insert symbol (axisSyms d ax))\<rparr>;
            meaning = trim_space (trim_prefix word symbol) in
        (case definitions d ax symbol of
           Some previous \<Rightarrow>
             if previous \<noteq> meaning
             then (d1\<lparr>conflicts := conflicts d @ [\<lparr>cAxis = ax, cSymbol = symbol, cFirst = previous, cSecond = meaning\<rparr>]\<rparr>, True)
             else (d1\<lparr>definitions := (definitions d)(ax := (definitions d ax)(symbol \<mapsto> meaning))\<rparr>, True)
         | None \<Rightarrow> (d1\<lparr>definitions := (definitions d)(ax := (definitions d ax)(symbol \<mapsto> meaning))\<rparr>, True)))"

definition collectDimension :: "axis \<Rightarrow> string \<Rightarrow> TagDict \<Rightarrow> TagDict" where
  "collectDimension ax content d =
     (let d0 = d\<lparr>declared := (declared d)(ax := True)\<rparr>; ws = Go_Strings.fields content in
      if ws = [] then d0\<lparr>malformed := malformed d0 @ [unparseable ax]\<rparr>
      else case foldl (collect_word ax) (d0, False) ws of
             (d1, accepted) \<Rightarrow> if accepted then d1 else d1\<lparr>malformed := malformed d1 @ [unparseable ax]\<rparr>)"

text \<open>The loop of \<open>ExtractTagDict\<close>: the dictionary, the near-miss candidates, and the exact dimensions.\<close>

definition dict_line ::
  "TagDict \<times> DimensionNearMiss list \<times> dimension list \<Rightarrow> string \<Rightarrow> TagDict \<times> DimensionNearMiss list \<times> dimension list" where
  "dict_line st line =
     (case st of (d, candidates, exact) \<Rightarrow>
      case parseDictLine line of
        None \<Rightarrow> (case DimensionNameNearMiss line of
                    Some nm \<Rightarrow> (d, candidates @ [nm], exact)
                  | None \<Rightarrow> (d, candidates, exact))
      | Some (DimAxis ax, content) \<Rightarrow> (collectDimension ax (stripParens content) d, candidates, DimAxis ax # exact)
      | Some (DimQuota, content) \<Rightarrow> (d, candidates, DimQuota # exact))"

definition ExtractTagDict :: "string \<Rightarrow> TagDict" where
  "ExtractTagDict headerText =
     (case foldl dict_line (empty_dict, [], []) (str_split headerText [LF]) of
        (d, candidates, exact) \<Rightarrow>
          let d1 = d\<lparr>nearMisses := nearMisses d @
                filter (\<lambda>nm. \<not> (Canonical nm = DimAxis AxD \<or> Canonical nm \<in> set exact)) candidates\<rparr>
          in if axisSyms d1 AxE = []
             then d1\<lparr>axisSyms := (axisSyms d1)(AxE := [''L'', ''M'', ''S'', ''T''])\<rparr> else d1)"

definition dict_marker :: string where
  "dict_marker = ''#[Tag dictionary:''"

fun scoped_lines :: "string \<Rightarrow> string list \<Rightarrow> nat \<Rightarrow> bool \<Rightarrow> string list \<Rightarrow> nat \<times> string list" where
  "scoped_lines marker [] count collect acc = (count, acc)"
| "scoped_lines marker (line # rest) count collect acc =
     (let trimmed = trim_space line in
      if has_prefix trimmed dict_marker
      then let c = (trimmed = marker) in scoped_lines marker rest (if c then count + 1 else count) c acc
      else scoped_lines marker rest count collect (if collect \<and> count = 1 then acc @ [line] else acc))"

definition ExtractScopedTagDict :: "string \<Rightarrow> string \<Rightarrow> TagDict option" where
  "ExtractScopedTagDict metaText profile =
     (case scoped_lines (''#[Tag dictionary: '' @ profile @ '']'') (str_split (fold_crlf metaText) [LF]) 0 False [] of
        (sectionCount, ls) \<Rightarrow>
          if sectionCount = 0 then None
          else
            let d = ExtractTagDict (str_join ls [LF]) in
            Some (if sectionCount \<noteq> 1
                  then d\<lparr>malformed := malformed d @ [''profile='' @ profile @ '';state=duplicate;count='' @ itoa sectionCount]\<rparr>
                  else d))"

section \<open>Judging\<close>

definition HasDict :: "TagDict option \<Rightarrow> bool" where
  "HasDict od = (case od of None \<Rightarrow> False | Some d \<Rightarrow> axisSyms d AxA \<noteq> [] \<and> axisSyms d AxB \<noteq> [])"

definition conflict_text :: "tagDictionaryConflict \<Rightarrow> string" where
  "conflict_text c = ''axis='' @ axis_name (cAxis c) @ '';symbol='' @ cSymbol c @ '';state=conflict;definitions='' @
     cFirst c @ '','' @ cSecond c"

definition ObjectContractProblems :: "TagDict option \<Rightarrow> string list" where
  "ObjectContractProblems od =
     (case od of
        None \<Rightarrow> [''dictionary=missing'']
      | Some d \<Rightarrow>
          uniq_adj (sort_strings
            (map (\<lambda>ax. ''axis='' @ axis_name ax @ '';state=missing_or_unparseable'')
               (filter (\<lambda>ax. \<not> declared d ax \<or> axisSyms d ax = []) [AxA, AxB, AxC, AxE]) @
             (if declared d AxD \<and> axisSyms d AxD = [] then [unparseable AxD] else []) @
             malformed d @ map conflict_text (conflicts d))))"

definition HasObjectContract :: "TagDict option \<Rightarrow> bool" where
  "HasObjectContract od \<longleftrightarrow> od \<noteq> None \<and> ObjectContractProblems od = []"

definition joinedSymbols :: "string list \<Rightarrow> string" where
  "joinedSymbols values = str_join (sort_strings values) '',''"

definition optionalSymbols :: "string list \<Rightarrow> string" where
  "optionalSymbols values = (if values = [] then ''-'' else joinedSymbols values)"

definition Contract :: "TagDict option \<Rightarrow> string" where
  "Contract od =
     (case od of
        None \<Rightarrow> ''dictionary=missing''
      | Some d \<Rightarrow>
          str_join [''format=compact(A+B+C+[D]+E)'', ''A='' @ joinedSymbols (axisSyms d AxA), ''B='' @ joinedSymbols (axisSyms d AxB),
            ''C='' @ joinedSymbols (axisSyms d AxC), ''D='' @ optionalSymbols (axisSyms d AxD), ''E='' @ joinedSymbols (axisSyms d AxE)] '';'')"

definition DictDefinition :: "TagDict option \<Rightarrow> axis \<Rightarrow> string \<Rightarrow> string option" where
  "DictDefinition od ax symbol = (case od of None \<Rightarrow> None | Some d \<Rightarrow> definitions d ax symbol)"

definition tagActual :: "string \<Rightarrow> tagmap \<Rightarrow> string" where
  "tagActual raw tags =
     (let val = (\<lambda>ax. if tag_get tags ax = [] then ''-'' else tag_get tags ax) in
      str_join [''tag='' @ raw, ''A='' @ val AxA, ''B='' @ val AxB, ''C='' @ val AxC, ''D='' @ val AxD, ''E='' @ val AxE] '';'')"

fun axis_label :: "axis \<Rightarrow> string" where
  "axis_label AxA = ''A Layer''" | "axis_label AxB = ''B Module''" | "axis_label AxC = ''C Importance''"
| "axis_label AxD = ''D Trait''" | "axis_label AxE = ''E Scale''"

definition axis_violations :: "tagmap \<Rightarrow> string \<Rightarrow> TagDict \<Rightarrow> axis \<Rightarrow> TagViolation list" where
  "axis_violations tags tagRaw d ax =
     (let v = tag_get tags ax; allowed = axisSyms d ax;
          legal = (v \<noteq> [] \<and> v \<in> set allowed) \<or> (ax = AxD \<and> v = [] \<and> allowed = []) in
      if legal then []
      else if ax = AxD \<and> v = [] then []
      else [\<lparr>tvAxis = ax, tvValue = v, tvExpected = Contract (Some d), tvActual = tagActual tagRaw tags,
             tvCause = axis_label ax @ '' value '' @ (if v = [] then ''-'' else v) @
               '' is not declared by the current Meta dictionary''\<rparr>])"

definition ValidateTagAgainstDict :: "tagmap \<Rightarrow> string \<Rightarrow> TagDict option \<Rightarrow> TagViolation list" where
  "ValidateTagAgainstDict tags tagRaw od =
     (case od of
        None \<Rightarrow> []
      | Some d \<Rightarrow> if no_tags tags then [] else concat (map (axis_violations tags tagRaw d) all_axes))"

definition crossDimHint :: "string \<Rightarrow> TagDict \<Rightarrow> axis \<Rightarrow> axis list" where
  "crossDimHint symb d selfDim = filter (\<lambda>ax. selfDim \<noteq> ax \<and> symb \<in> set (axisSyms d ax)) all_axes"

definition CheckTagsAgainstDict :: "string \<Rightarrow> TagDict option \<Rightarrow> Violation option" where
  "CheckTagsAgainstDict line od =
     (if \<not> HasDict od then None
      else case EntryTagSpan line of
        None \<Rightarrow> None
      | Some (_, tagStart, tagEnd) \<Rightarrow>
          let tags = ParseTags (slice tagStart tagEnd line); d = the od in
          if no_tags tags then None
          else
            let probs = map (\<lambda>v. (v, crossDimHint (tvValue v) d (tvAxis v)))
                  (filter (\<lambda>v. \<not> ((tvAxis v = AxC \<or> tvAxis v = AxD) \<and> \<not> declared d (tvAxis v)))
                     (ValidateTagAgainstDict tags [] od))
            in if probs = [] then None else Some \<lparr>Level = LevelWarning, Msg = MsgDict probs\<rparr>)"

section \<open>Near misses are never accepted\<close>

lemma near_miss_not_accepted: "DimensionNameNearMiss line = Some nm \<Longrightarrow> parseDictLine line = None"
  by (auto simp: DimensionNameNearMiss_def parseDictLine_def Let_def split: option.splits if_splits prod.splits)

section \<open>What a dictionary holds\<close>

text \<open>
  The symbols of each axis: importance symbols are the digits 1 to 9, layer and scale symbols one
  ASCII letter, module and trait symbols words of ASCII letters; no symbol is stored twice.
\<close>

definition symbol_ok :: "axis \<Rightarrow> string \<Rightarrow> bool" where
  "symbol_ok ax s \<longleftrightarrow> s \<noteq> [] \<and>
     (if ax = AxC then length s = 1 \<and> list_all is_digit s \<and> s \<noteq> ''0''
      else list_all ascii_letter s \<and> (ax = AxA \<or> ax = AxE \<longrightarrow> length s = 1))"

definition dict_ok :: "TagDict \<Rightarrow> bool" where
  "dict_ok d \<longleftrightarrow> (\<forall>ax. distinct (axisSyms d ax) \<and> (\<forall>s \<in> set (axisSyms d ax). symbol_ok ax s))"

lemma list_all_takeWhile: "list_all P (takeWhile P xs)"
  by (induction xs) auto

lemma byte_48: "byte c = 48 \<longleftrightarrow> c = CHR ''0''"
proof
  assume "byte c = 48"
  then have "byte c = byte (CHR ''0'')" by simp
  then show "c = CHR ''0''" by (simp only: of_char_eq_iff)
qed simp

lemma collected_symbol_ok:
  assumes "validDictionarySymbol ax (if ax = AxC then leadingASCIIDigits word else leadingASCIILetters word)"
  shows "symbol_ok ax (if ax = AxC then leadingASCIIDigits word else leadingASCIILetters word)"
  using assms list_all_takeWhile [of is_digit word] list_all_takeWhile [of ascii_letter word]
  by (auto simp: validDictionarySymbol_def symbol_ok_def leadingASCIIDigits_def leadingASCIILetters_def
      split: if_splits)

lemma dict_ok_cong: "axisSyms d = axisSyms d' \<Longrightarrow> dict_ok d = dict_ok d'"
  by (simp add: dict_ok_def)

lemma dict_ok_insert:
  "dict_ok d \<Longrightarrow> symbol_ok ax s \<Longrightarrow> dict_ok (d\<lparr>axisSyms := (axisSyms d)(ax := set_insert s (axisSyms d ax))\<rparr>)"
  by (auto simp: dict_ok_def set_insert_def)

lemma collect_word_syms:
  "axisSyms (fst (collect_word ax (d, b) word)) =
     (let s = (if ax = AxC then leadingASCIIDigits word else leadingASCIILetters word) in
      if validDictionarySymbol ax s then (axisSyms d)(ax := set_insert s (axisSyms d ax)) else axisSyms d)"
  by (auto simp: collect_word_def Let_def split: option.splits)

lemma collect_word_ok: "dict_ok d \<Longrightarrow> dict_ok (fst (collect_word ax (d, b) word))"
  using collected_symbol_ok [of ax word] dict_ok_insert [of d ax] collect_word_syms [of ax d b word]
  unfolding Let_def by (metis dict_ok_cong TagDict.select_convs(1) TagDict.surjective TagDict.update_convs(1))

lemma collect_words_ok: "dict_ok d \<Longrightarrow> dict_ok (fst (foldl (collect_word ax) (d, b) ws))"
proof (induction ws arbitrary: d b)
  case (Cons w ws)
  then show ?case using collect_word_ok [of d ax b w] by (cases "collect_word ax (d, b) w") auto
qed simp

lemma collectDimension_ok: "dict_ok d \<Longrightarrow> dict_ok (collectDimension ax content d)"
proof -
  assume d: "dict_ok d"
  let ?d0 = "d\<lparr>declared := (declared d)(ax := True)\<rparr>"
  have d0: "dict_ok ?d0" using d dict_ok_cong [of ?d0 d] by simp
  have m: "dict_ok (x\<lparr>malformed := m\<rparr>) = dict_ok x" for x m by (rule dict_ok_cong) simp
  show ?thesis using d0 collect_words_ok [OF d0, of ax False "Go_Strings.fields content"]
    by (auto simp: collectDimension_def Let_def m split: prod.splits)
qed

lemma dict_line_ok: "dict_ok (fst st) \<Longrightarrow> dict_ok (fst (dict_line st line))"
  by (auto simp: dict_line_def collectDimension_ok split: prod.splits option.splits dimension.splits)

lemma dict_lines_ok: "dict_ok (fst st) \<Longrightarrow> dict_ok (fst (foldl dict_line st ls))"
  by (induction ls arbitrary: st) (auto simp: dict_line_ok)

lemma ExtractTagDict_ok: "dict_ok (ExtractTagDict header)" and ExtractTagDict_E: "axisSyms (ExtractTagDict header) AxE \<noteq> []"
proof -
  obtain d cs ex where f: "foldl dict_line (empty_dict, [], []) (str_split header [LF]) = (d, cs, ex)" by (metis prod_cases3)
  have "dict_ok empty_dict" by (simp add: dict_ok_def empty_dict_def)
  then have d: "dict_ok d" using dict_lines_ok [of "(empty_dict, [], [])" "str_split header [LF]"] f by simp
  have e: "symbol_ok AxE s" if "s \<in> {''L'', ''M'', ''S'', ''T''}" for s
    using that by (auto simp: symbol_ok_def ascii_letter_def)
  show "dict_ok (ExtractTagDict header)"
    using d e by (auto simp: ExtractTagDict_def f Let_def dict_ok_def)
  show "axisSyms (ExtractTagDict header) AxE \<noteq> []"
    by (auto simp: ExtractTagDict_def f Let_def)
qed

end
