(* ===== verification/Index_Dict_Laws.thy ===== *)
theory Index_Dict_Laws
  imports Index_Dict
begin

text \<open>
  The properties of the tag dictionary: every tag spelled with the dictionary's symbols is read back
  into them and accepted, a tag is accepted only if its symbols are in the dictionary, the object
  contract holds exactly when nothing is missing, malformed or in conflict, and a misspelled
  dimension never slips through it.
\<close>

section \<open>Spelling and reading a tag\<close>

definition spelled :: "string \<Rightarrow> string \<Rightarrow> string \<Rightarrow> string \<Rightarrow> string \<Rightarrow> tagmap" where
  "spelled a b c d e =
     (if d = [] then [AxA \<mapsto> a, AxB \<mapsto> b, AxC \<mapsto> c, AxE \<mapsto> e]
      else [AxA \<mapsto> a, AxB \<mapsto> b, AxC \<mapsto> c, AxE \<mapsto> e, AxD \<mapsto> d])"

lemma letter_facts: "ascii_letter c \<Longrightarrow> byte c < 128 \<and> \<not> digit_rune (byte c) \<and> \<not> is_space (byte c) \<and> \<not> comma_rune (byte c) \<and> c \<noteq> CHR ''.''"
  by (auto simp: ascii_letter_def digit_rune_def is_space_def comma_rune_def)

lemma digit_facts: "is_digit c \<Longrightarrow> byte c < 128 \<and> digit_rune (byte c) \<and> \<not> is_space (byte c) \<and> \<not> comma_rune (byte c) \<and> c \<noteq> CHR ''.''"
  by (auto simp: is_digit_def digit_rune_def is_space_def comma_rune_def)

lemma first_digit_append: "\<forall>r \<in> set xs. \<not> digit_rune r \<Longrightarrow> digit_rune y \<Longrightarrow> first_digit (xs @ y # ys) = Some (length xs)"
  by (induction xs) auto

lemma parseCompactTags_spelled:
  assumes "ascii_letter a" "list_all ascii_letter b" "b \<noteq> []" "is_digit c" "list_all ascii_letter d" "ascii_letter e"
  shows "parseCompactTags ([a] @ b @ [c] @ d @ [e]) = spelled [a] b [c] d [e]"
proof -
  let ?s = "[a] @ b @ [c] @ d @ [e]" and ?i = "Suc (length b)"
  have ascii: "\<forall>x \<in> set ?s. byte x < 128"
    using assms letter_facts digit_facts by (auto simp: list_all_iff)
  then have r: "runes ?s = map of_char ?s" by (rule runes_all_ascii)
  have "\<forall>r \<in> set (map byte (a # b)). \<not> digit_rune r"
    using assms letter_facts by (auto simp: list_all_iff)
  then have f: "first_digit (map byte ?s) = Some ?i"
    using first_digit_append [of "map byte (a # b)" "byte c" "map byte (d @ [e])"] digit_facts [OF assms(4)] by simp
  have one: "of_runes [byte x] = [x]" if "x \<in> set ?s" for x
    using of_runes_ascii [of "[x]"] bspec [OF ascii that] by simp
  have nb: "of_runes (map byte b) = b" "of_runes (map byte d) = d"
    using ascii by (auto intro!: of_runes_ascii)
  have at: "map byte ?s ! 0 = byte a" "map byte ?s ! ?i = byte c" "map byte ?s ! (length ?s - 1) = byte e"
    by (simp_all add: nth_append nth_Cons)
  have parts: "take (?i - 1) (drop 1 (map byte ?s)) = map byte b"
    "take (length ?s - 1 - (?i + 1)) (drop (?i + 1) (map byte ?s)) = map byte d" by simp_all
  have len: "length (map byte ?s) = length b + length d + 3" by simp
  show ?thesis
    unfolding parseCompactTags_def r Let_def f option.case length_map at parts nb
    using assms(3) one by (auto simp: spelled_def tag_get_def fun_eq_iff)
qed

lemma ParseTags_spelled:
  assumes "ascii_letter a" "list_all ascii_letter b" "b \<noteq> []" "is_digit c" "list_all ascii_letter d" "ascii_letter e"
  shows "ParseTags ([a] @ b @ [c] @ d @ [e]) = spelled [a] b [c] d [e]"
proof -
  let ?s = "[a] @ b @ [c] @ d @ [e]"
  have p: "\<forall>x \<in> set ?s. byte x < 128 \<and> \<not> is_space (byte x) \<and> \<not> comma_rune (byte x) \<and> x \<noteq> CHR ''.''"
    using assms letter_facts digit_facts by (auto simp: list_all_iff)
  have t: "trim_space ?s = ?s" using p by (intro trim_space_ascii) blast
  have "runes ?s = map of_char ?s" using p by (intro runes_all_ascii) blast
  then have c: "\<not> list_ex comma_rune (runes ?s)" using p by (auto simp: list_ex_iff)
  have d: "\<not> str_contains ?s ''.''" using p unfolding str_contains_char by blast
  have n: "?s \<noteq> []" by simp
  show ?thesis unfolding ParseTags_def t Let_def
    using c d n parseCompactTags_spelled [OF assms] by presburger
qed

section \<open>Accepting a tag\<close>

definition legal_value :: "TagDict \<Rightarrow> tagmap \<Rightarrow> axis \<Rightarrow> bool" where
  "legal_value d tags ax \<longleftrightarrow>
     (if tag_get tags ax = [] then ax = AxD else tag_get tags ax \<in> set (axisSyms d ax))"

lemma axis_violations_Nil: "axis_violations tags raw d ax = [] \<longleftrightarrow> legal_value d tags ax"
  by (auto simp: axis_violations_def legal_value_def Let_def)

lemma axis_violations_axis: "v \<in> set (axis_violations tags raw d ax) \<Longrightarrow> tvAxis v = ax \<and> tvValue v = tag_get tags ax"
  by (auto simp: axis_violations_def Let_def split: if_splits)

lemma validate_axes:
  "\<not> no_tags tags \<Longrightarrow> map tvAxis (ValidateTagAgainstDict tags raw (Some d)) = filter (\<lambda>ax. \<not> legal_value d tags ax) all_axes"
proof -
  have "map tvAxis (axis_violations tags raw d ax) = (if legal_value d tags ax then [] else [ax])" for ax
    by (auto simp: axis_violations_def legal_value_def Let_def)
  then have "map tvAxis (concat (map (axis_violations tags raw d) axs)) = filter (\<lambda>ax. \<not> legal_value d tags ax) axs" for axs
    by (induction axs) auto
  then show "\<not> no_tags tags \<Longrightarrow> ?thesis" by (simp add: ValidateTagAgainstDict_def)
qed

text \<open>
  A tag is judged exactly by membership: the violations \<open>ValidateTagAgainstDict\<close> reports name,
  in axis order and once each, the axes whose symbol is not in the dictionary, where only the trait
  axis may be left out; so there are none exactly when every symbol is declared.
\<close>

theorem ValidateTagAgainstDict_exact:
  assumes "\<not> no_tags tags"
  shows "map tvAxis (ValidateTagAgainstDict tags raw (Some d)) = filter (\<lambda>ax. \<not> legal_value d tags ax) all_axes \<and>
    (ValidateTagAgainstDict tags raw (Some d) = [] \<longleftrightarrow>
       (tag_get tags AxA \<in> set (axisSyms d AxA) - {[]} \<and> tag_get tags AxB \<in> set (axisSyms d AxB) - {[]} \<and>
        tag_get tags AxC \<in> set (axisSyms d AxC) - {[]} \<and> tag_get tags AxE \<in> set (axisSyms d AxE) - {[]} \<and>
        tag_get tags AxD \<in> insert [] (set (axisSyms d AxD))))"
proof -
  note m = validate_axes [OF assms, of raw d]
  have "ValidateTagAgainstDict tags raw (Some d) = [] \<longleftrightarrow> filter (\<lambda>ax. \<not> legal_value d tags ax) all_axes = []"
    using m by (metis list.map_disc_iff)
  then show ?thesis using m by (auto simp: all_axes_def legal_value_def split: if_splits)
qed

theorem ValidateTagAgainstDict_exact_witness:
  "map tvAxis (ValidateTagAgainstDict (ParseTags ''QCx8Z'') [] (Some (ExtractTagDict ''# A Layer: C-core''))) = [AxA, AxB, AxC, AxE]"
proof -
  have n: "\<not> no_tags (ParseTags ''QCx8Z'')" by code_simp
  have f: "filter (\<lambda>ax. \<not> legal_value (ExtractTagDict ''# A Layer: C-core'') (ParseTags ''QCx8Z'') ax) all_axes = [AxA, AxB, AxC, AxE]"
    by code_simp
  show ?thesis using ValidateTagAgainstDict_exact [OF n, of "[]" "ExtractTagDict ''# A Layer: C-core''"] unfolding f by blast
qed

lemma symbol_okD:
  "symbol_ok AxA s \<Longrightarrow> \<exists>c. s = [c] \<and> ascii_letter c" "symbol_ok AxE s \<Longrightarrow> \<exists>c. s = [c] \<and> ascii_letter c"
  "symbol_ok AxB s \<Longrightarrow> s \<noteq> [] \<and> list_all ascii_letter s" "symbol_ok AxD s \<Longrightarrow> s \<noteq> [] \<and> list_all ascii_letter s"
  "symbol_ok AxC s \<Longrightarrow> \<exists>c. s = [c] \<and> is_digit c"
  by (cases s; auto simp: symbol_ok_def)+

text \<open>
  The dictionary and the tag grammar agree: whatever a header declares, the compact tag
  spelled from one declared symbol per axis (the trait left out or declared) is read back by
  \<open>ParseTags\<close> into exactly these symbols, and the dictionary gate accepts it. So no extraction can
  put a symbol in a dictionary that tags cannot use.
\<close>

theorem dictionary_tag_accepted:
  assumes "a \<in> set (axisSyms (ExtractTagDict h) AxA)" and "b \<in> set (axisSyms (ExtractTagDict h) AxB)"
    and "c \<in> set (axisSyms (ExtractTagDict h) AxC)" and "d \<in> insert [] (set (axisSyms (ExtractTagDict h) AxD))"
    and "e \<in> set (axisSyms (ExtractTagDict h) AxE)"
  shows "ParseTags (a @ b @ c @ d @ e) = spelled a b c d e \<and>
    ValidateTagAgainstDict (ParseTags (a @ b @ c @ d @ e)) raw (Some (ExtractTagDict h)) = []"
proof -
  let ?d = "ExtractTagDict h"
  have ok: "symbol_ok ax s" if "s \<in> set (axisSyms ?d ax)" for ax s
    using that ExtractTagDict_ok [of h] by (simp add: dict_ok_def)
  obtain a' where a: "a = [a']" "ascii_letter a'" using symbol_okD(1) ok assms(1) by blast
  obtain e' where e: "e = [e']" "ascii_letter e'" using symbol_okD(2) ok assms(5) by blast
  obtain c' where c: "c = [c']" "is_digit c'" using symbol_okD(5) ok assms(3) by blast
  have b: "list_all ascii_letter b" "b \<noteq> []" using symbol_okD(3) ok assms(2) by blast+
  have d: "list_all ascii_letter d" using symbol_okD(4) ok assms(4) by auto
  have p: "ParseTags (a @ b @ c @ d @ e) = spelled a b c d e"
    using ParseTags_spelled [OF a(2) b c(2) d e(2)] unfolding a(1) c(1) e(1) by simp
  have "legal_value ?d (spelled a b c d e) ax" for ax
    using assms a(1) b(2) c(1) e(1) by (cases ax) (auto simp: legal_value_def spelled_def tag_get_def)
  then have "axis_violations (spelled a b c d e) raw ?d ax = []" for ax by (simp only: axis_violations_Nil)
  then show ?thesis unfolding p by (simp add: ValidateTagAgainstDict_def)
qed

definition sample_header :: string where
  "sample_header = ''# A Layer: C-core I-io'' @ [LF] @ ''#B Module (notes): Ix-index'' @ [LF] @
     ''#C Importance: 9-vital 8'' @ [LF] @ ''#D Trait: p-parser''"

theorem dictionary_tag_accepted_witness:
  "ParseTags ''CIx9pL'' = spelled ''C'' ''Ix'' ''9'' ''p'' ''L'' \<and>
   ValidateTagAgainstDict (ParseTags ''CIx9pL'') [] (Some (ExtractTagDict sample_header)) = []"
proof -
  have "map (axisSyms (ExtractTagDict sample_header)) all_axes = [[''C'', ''I''], [''Ix''], [''9'', ''8''], [''p''], [''L'', ''M'', ''S'', ''T'']]"
    by code_simp
  then have "''C'' \<in> set (axisSyms (ExtractTagDict sample_header) AxA)" "''Ix'' \<in> set (axisSyms (ExtractTagDict sample_header) AxB)"
    "''9'' \<in> set (axisSyms (ExtractTagDict sample_header) AxC)" "''p'' \<in> insert [] (set (axisSyms (ExtractTagDict sample_header) AxD))"
    "''L'' \<in> set (axisSyms (ExtractTagDict sample_header) AxE)" by (simp_all add: all_axes_def)
  note r = dictionary_tag_accepted [OF this, of "[]"]
  have "''C'' @ ''Ix'' @ ''9'' @ ''p'' @ ''L'' = ''CIx9pL''" by simp
  then show ?thesis using r by argo
qed

section \<open>The object contract\<close>

lemma uniq_adj_Nil [simp]: "uniq_adj xs = [] \<longleftrightarrow> xs = []"
  by (metis set_empty set_uniq_adj)

lemma sort_strings_Nil [simp]: "sort_strings xs = [] \<longleftrightarrow> xs = []"
  by (metis set_empty set_sort_strings)

lemma dict_line_declared:
  "\<forall>ax. declared (fst st) ax \<longleftrightarrow> DimAxis ax \<in> set (snd (snd st)) \<Longrightarrow>
   \<forall>ax. declared (fst (dict_line st line)) ax \<longleftrightarrow> DimAxis ax \<in> set (snd (snd (dict_line st line)))"
proof -
  assume st: "\<forall>ax. declared (fst st) ax \<longleftrightarrow> DimAxis ax \<in> set (snd (snd st))"
  have w: "declared (fst (collect_word ax (d, b) w)) = declared d" for ax d b w
    by (auto simp: collect_word_def Let_def split: option.splits)
  have ws: "declared (fst (foldl (collect_word ax) db ws)) = declared (fst db)" for ax db ws
  proof (induction ws arbitrary: db)
    case (Cons v ws)
    then show ?case using w [of ax "fst db" "snd db" v] by simp
  qed simp
  have c: "declared (collectDimension ax s d) = (declared d)(ax := True)" for ax s d
    using ws [of ax "(d\<lparr>declared := (declared d)(ax := True)\<rparr>, False)" "Go_Strings.fields s"]
    by (auto simp: collectDimension_def Let_def split: prod.splits)
  show ?thesis using st
    by (auto simp: dict_line_def c split: prod.splits option.splits dimension.splits)
qed

lemma dict_lines_declared:
  "\<forall>ax. declared (fst st) ax \<longleftrightarrow> DimAxis ax \<in> set (snd (snd st)) \<Longrightarrow>
   \<forall>ax. declared (fst (foldl dict_line st ls)) ax \<longleftrightarrow> DimAxis ax \<in> set (snd (snd (foldl dict_line st ls)))"
  by (induction ls arbitrary: st) (simp_all add: dict_line_declared)

lemma near_misses_before: "nearMisses (fst (foldl dict_line st ls)) = nearMisses (fst st)"
proof (induction ls arbitrary: st)
  case (Cons l ls)
  have w: "nearMisses (fst (collect_word ax (d, b) w)) = nearMisses d" for ax d b w
    by (auto simp: collect_word_def Let_def split: option.splits)
  have ws: "nearMisses (fst (foldl (collect_word ax) db ws)) = nearMisses (fst db)" for ax db ws
  proof (induction ws arbitrary: db)
    case (Cons v ws)
    then show ?case using w [of ax "fst db" "snd db" v] by simp
  qed simp
  have c: "nearMisses (collectDimension ax s d) = nearMisses d" for ax s d
    using ws [of ax "(d\<lparr>declared := (declared d)(ax := True)\<rparr>, False)" "Go_Strings.fields s"]
    by (auto simp: collectDimension_def Let_def split: prod.splits)
  have "nearMisses (fst (dict_line st l)) = nearMisses (fst st)"
    by (auto simp: dict_line_def c split: prod.splits option.splits dimension.splits)
  then show ?case using Cons by simp
qed simp

lemma near_miss_undeclared:
  assumes "nm \<in> set (nearMisses (ExtractTagDict h))" and "Canonical nm = DimAxis ax"
  shows "ax \<noteq> AxD \<and> \<not> declared (ExtractTagDict h) ax"
proof -
  obtain d cs ex where f: "foldl dict_line (empty_dict, [], []) (str_split h [LF]) = (d, cs, ex)" by (metis prod_cases3)
  have "\<forall>ax. declared d ax \<longleftrightarrow> DimAxis ax \<in> set ex"
    using dict_lines_declared [of "(empty_dict, [], [])" "str_split h [LF]"] f by (simp add: empty_dict_def)
  moreover have "nearMisses d = []"
    using near_misses_before [of "(empty_dict, [], [])" "str_split h [LF]"] f by (simp add: empty_dict_def)
  ultimately show ?thesis using assms by (auto simp: ExtractTagDict_def f Let_def split: if_splits)
qed

lemma HasObjectContract_Some:
  "HasObjectContract (Some d) \<longleftrightarrow>
     (\<forall>ax \<in> {AxA, AxB, AxC, AxE}. declared d ax \<and> axisSyms d ax \<noteq> []) \<and>
     (declared d AxD \<longrightarrow> axisSyms d AxD \<noteq> []) \<and> malformed d = [] \<and> conflicts d = []"
  by (auto simp: HasObjectContract_def ObjectContractProblems_def)

text \<open>
  A dictionary is a complete authority for an object exactly when the layer, module,
  importance and scale axes are declared with at least one symbol, a declared trait axis has one,
  no line was unreadable and no symbol has two meanings; the problems reported otherwise come
  strictly sorted. A misspelled mandatory axis never passes: when the extraction records a near
  miss of a tag axis, the contract is already refused.
\<close>

theorem object_contract:
  "(HasObjectContract (Some (ExtractTagDict h)) \<longleftrightarrow>
     (\<forall>ax \<in> {AxA, AxB, AxC, AxE}. declared (ExtractTagDict h) ax \<and> axisSyms (ExtractTagDict h) ax \<noteq> []) \<and>
     (declared (ExtractTagDict h) AxD \<longrightarrow> axisSyms (ExtractTagDict h) AxD \<noteq> []) \<and>
     malformed (ExtractTagDict h) = [] \<and> conflicts (ExtractTagDict h) = []) \<and>
   sorted_wrt str_less (ObjectContractProblems (Some (ExtractTagDict h))) \<and>
   (\<forall>nm \<in> set (nearMisses (ExtractTagDict h)). Canonical nm \<noteq> DimQuota \<longrightarrow> \<not> HasObjectContract (Some (ExtractTagDict h)))"
proof (intro conjI ballI impI)
  show "HasObjectContract (Some (ExtractTagDict h)) \<longleftrightarrow>
     (\<forall>ax \<in> {AxA, AxB, AxC, AxE}. declared (ExtractTagDict h) ax \<and> axisSyms (ExtractTagDict h) ax \<noteq> []) \<and>
     (declared (ExtractTagDict h) AxD \<longrightarrow> axisSyms (ExtractTagDict h) AxD \<noteq> []) \<and>
     malformed (ExtractTagDict h) = [] \<and> conflicts (ExtractTagDict h) = []"
    by (rule HasObjectContract_Some)
  show "sorted_wrt str_less (ObjectContractProblems (Some (ExtractTagDict h)))"
    by (simp add: ObjectContractProblems_def sorted_uniq_adj sorted_sort_strings)
  fix nm assume nm: "nm \<in> set (nearMisses (ExtractTagDict h))" "Canonical nm \<noteq> DimQuota"
  then obtain ax where "Canonical nm = DimAxis ax" by (cases "Canonical nm") auto
  then have "ax \<noteq> AxD \<and> \<not> declared (ExtractTagDict h) ax" using near_miss_undeclared nm(1) by blast
  then show "\<not> HasObjectContract (Some (ExtractTagDict h))"
    unfolding HasObjectContract_Some by (cases ax) auto
qed

definition misspelled_header :: string where
  "misspelled_header = ''#A Layer: C'' @ [LF] @ ''#B module: Ix''"

theorem object_contract_witness:
  "nearMisses (ExtractTagDict misspelled_header) = [\<lparr>Canonical = DimAxis AxB, Written = ''B module''\<rparr>] \<and>
   \<not> HasObjectContract (Some (ExtractTagDict misspelled_header))"
proof -
  have n: "nearMisses (ExtractTagDict misspelled_header) = [\<lparr>Canonical = DimAxis AxB, Written = ''B module''\<rparr>]" by code_simp
  then have m: "\<lparr>Canonical = DimAxis AxB, Written = ''B module''\<rparr> \<in> set (nearMisses (ExtractTagDict misspelled_header))" by simp
  have "\<forall>nm \<in> set (nearMisses (ExtractTagDict misspelled_header)).
      Canonical nm \<noteq> DimQuota \<longrightarrow> \<not> HasObjectContract (Some (ExtractTagDict misspelled_header))"
    using object_contract [of misspelled_header] by blast
  from bspec [OF this m] n show ?thesis by simp
qed

text \<open>
  The comment on \<open>stripParens\<close> promises that an unmatched closing parenthesis is kept; the loop drops it.
\<close>

lemma stripParens_drops_unmatched: "stripParens ''a)b'' = ''ab''"
  by code_simp

end
