(* ===== verification/Index_EScale.thy ===== *)
theory Index_EScale
  imports Index_Dict "HOL-Library.AList"
begin

text \<open>
  The scale gate (\<open>internal/index/escale.go\<close>, \<open>escale_path.go\<close>): the line-count thresholds a header
  declares for the scale symbols, the check of an Entry's scale against the line count of its
  file, and the paths that take part. Counts are Go's 64-bit \<open>int\<close>: the one addition that can leave
  its range is written with the wrap-around. A nil table is \<open>None\<close>.
\<close>

section \<open>Leading numbers\<close>

definition leadingIntRest :: "string \<Rightarrow> (int \<times> string) option" where
  "leadingIntRest s =
     (let ds = takeWhile is_digit s in
      if ds = [] then None
      else map_option (\<lambda>n. (n, dropWhile is_digit s)) (atoi ds))"

definition leadingInt :: "string \<Rightarrow> int option" where
  "leadingInt s = map_option fst (leadingIntRest s)"

section \<open>Thresholds\<close>

record escaleRange =
  rmin :: int
  rmax :: int

record EScaleThresholds =
  ranges :: "(string \<times> escaleRange) list"
  sawLine :: bool

definition HasThresholds :: "EScaleThresholds option \<Rightarrow> bool" where
  "HasThresholds ot = (case ot of None \<Rightarrow> False | Some t \<Rightarrow> ranges t \<noteq> [])"

definition EScaleSymbols :: "EScaleThresholds option \<Rightarrow> string list" where
  "EScaleSymbols ot = (case ot of None \<Rightarrow> [] | Some t \<Rightarrow> sort_strings (map fst (ranges t)))"

definition SawEScaleLine :: "EScaleThresholds option \<Rightarrow> bool" where
  "SawEScaleLine ot = (case ot of None \<Rightarrow> False | Some t \<Rightarrow> sawLine t)"

text \<open>The full-width operators U+FF1E, U+FF1C and U+FF1D.\<close>

definition escaleFullWidthOps :: "(string \<times> string) list" where
  "escaleFullWidthOps =
     [([CHR 0xEF, CHR 0xBC, CHR 0x9E], ''>''), ([CHR 0xEF, CHR 0xBC, CHR 0x9C], ''<''),
      ([CHR 0xEF, CHR 0xBC, CHR 0x9D], ''='')]"

text \<open>The number after an operator at the head of \<open>s\<close>, and whether the operator has an equals sign.\<close>

definition bound_after :: "string \<Rightarrow> (bool \<times> int) option" where
  "bound_after s =
     (let eq = has_prefix s ''='' in
      map_option (\<lambda>n. (eq, n)) (leadingInt (if eq then tl s else s)))"

definition spec_start :: "char \<Rightarrow> bool" where
  "spec_start c \<longleftrightarrow> c = CHR ''<'' \<or> c = CHR ''>'' \<or> is_digit c"

definition parseEScaleSpec :: "string \<Rightarrow> escaleRange option" where
  "parseEScaleSpec rest0 =
     (case dropWhile (\<lambda>c. \<not> spec_start c) (replacer escaleFullWidthOps rest0) of
        [] \<Rightarrow> None
      | c # r \<Rightarrow>
          if c = CHR ''>'' then
            map_option (\<lambda>(eq, n). \<lparr>rmin = (if eq then n else wrap_int (n + 1)), rmax = MaxInt\<rparr>) (bound_after r)
          else if c = CHR ''<'' then
            map_option (\<lambda>(eq, n). \<lparr>rmin = 0, rmax = (if eq then n else n - 1)\<rparr>) (bound_after r)
          else
            (case leadingIntRest (c # r) of
               None \<Rightarrow> None
             | Some (n1, rest2) \<Rightarrow>
                 if \<not> has_prefix rest2 ''-'' then None
                 else (case leadingInt (tl rest2) of
                         None \<Rightarrow> None
                       | Some n2 \<Rightarrow> if n2 < n1 then None else Some \<lparr>rmin = n1, rmax = n2\<rparr>)))"

definition escale_word :: "(string \<times> escaleRange) list \<Rightarrow> string \<Rightarrow> (string \<times> escaleRange) list" where
  "escale_word rs word =
     (let symb = leadingASCIILetters word in
      if symb = [] then rs
      else case parseEScaleSpec (drop (length symb) word) of
             Some r \<Rightarrow> AList.update symb r rs
           | None \<Rightarrow> rs)"

definition escale_line :: "EScaleThresholds \<Rightarrow> string \<Rightarrow> EScaleThresholds" where
  "escale_line t line =
     (case parseDictLine line of
        Some (DimAxis AxE, content) \<Rightarrow>
          \<lparr>ranges = foldl escale_word (ranges t) (Go_Strings.fields content), sawLine = True\<rparr>
      | _ \<Rightarrow> t)"

definition ExtractEScaleThresholds :: "string \<Rightarrow> EScaleThresholds" where
  "ExtractEScaleThresholds headerText = foldl escale_line \<lparr>ranges = [], sawLine = False\<rparr> (str_split headerText [LF])"

section \<open>The check\<close>

definition in_range :: "int \<Rightarrow> escaleRange \<Rightarrow> bool" where
  "in_range n r \<longleftrightarrow> rmin r \<le> n \<and> n \<le> rmax r"

definition ExpectedEScaleSymbols :: "int \<Rightarrow> EScaleThresholds option \<Rightarrow> string list" where
  "ExpectedEScaleSymbols fileLines ot =
     (case ot of
        None \<Rightarrow> []
      | Some t \<Rightarrow> sort_strings (map fst (filter (\<lambda>(_, r). in_range fileLines r) (ranges t))))"

record EScaleMismatch =
  FileLines :: int
  Expected :: "string list"
  Actual :: string

definition CheckEScaleDetail :: "string \<Rightarrow> int \<Rightarrow> EScaleThresholds option \<Rightarrow> EScaleMismatch option" where
  "CheckEScaleDetail line fileLines ot =
     (case ot of
        None \<Rightarrow> None
      | Some t \<Rightarrow>
          if ranges t = [] then None
          else case EntryTagSpan line of
            None \<Rightarrow> None
          | Some (_, tagStart, tagEnd) \<Rightarrow>
              let tags = ParseTags (slice tagStart tagEnd line); e = tag_get tags AxE in
              if no_tags tags \<or> e = [] then None
              else case map_of (ranges t) e of
                None \<Rightarrow> None
              | Some r \<Rightarrow>
                  if in_range fileLines r then None
                  else
                    let expected = ExpectedEScaleSymbols fileLines ot in
                    if expected = [] then None
                    else Some \<lparr>FileLines = fileLines, Expected = expected, Actual = e\<rparr>)"

definition CheckEScale :: "string \<Rightarrow> int \<Rightarrow> EScaleThresholds option \<Rightarrow> Violation option" where
  "CheckEScale line fileLines ot =
     map_option (\<lambda>m. \<lparr>Level = LevelWarning, Msg = MsgEScale (FileLines m) (Expected m) (Actual m)\<rparr>)
       (CheckEScaleDetail line fileLines ot)"

section \<open>Scoped dictionaries and paths\<close>

fun scoped_text_lines :: "string \<Rightarrow> string list \<Rightarrow> bool \<Rightarrow> bool \<Rightarrow> bool \<times> string list" where
  "scoped_text_lines marker [] inSections collect = (inSections, [])"
| "scoped_text_lines marker (line # rest) inSections collect =
     (let trimmed = trim_space line in
      if has_prefix trimmed dict_marker
      then let c = (trimmed = marker); (b, out) = scoped_text_lines marker rest True c
           in (b, if c then line # out else out)
      else let (b, out) = scoped_text_lines marker rest inSections collect
           in (b, if \<not> inSections \<or> collect then line # out else out))"

definition ScopedDictionaryText :: "string \<Rightarrow> string \<Rightarrow> string" where
  "ScopedDictionaryText metaText profile =
     (case scoped_text_lines (''#[Tag dictionary: '' @ profile @ '']'') (str_split (fold_crlf metaText) [LF]) False False of
        (inSections, out) \<Rightarrow> if \<not> inSections then metaText else str_join out [LF])"

text \<open>\<open>filepath.ToSlash\<close> is the identity on Linux.\<close>

fun strip_dot_slash :: "string \<Rightarrow> string" where
  "strip_dot_slash (c # d # s) = (if c = CHR ''.'' \<and> d = CHR ''/'' then strip_dot_slash s else c # d # s)"
| "strip_dot_slash s = s"

definition normalizeEScalePath :: "string \<Rightarrow> string" where
  "normalizeEScalePath rel0 = trim_right_char (strip_dot_slash (replace_all (trim_space rel0) [CHR 0x5C] ''/'')) ''/''"

definition ShouldCheckEScalePath :: "string \<Rightarrow> bool" where
  "ShouldCheckEScalePath rel0 =
     (let n = normalizeEScalePath rel0 in
      if n = [] \<or> n = ''.'' then False
      else if n = ''aoci.txt'' then False
      else n \<noteq> ''.aoci'' \<and> \<not> has_prefix n ''.aoci/'')"

end
