(* ===== verification/Index_EScale_Laws.thy ===== *)
theory Index_EScale_Laws
  imports Index_EScale
begin

text \<open>
  The properties of the scale gate: what each written threshold means as a set of line counts, up to
  the largest \<open>int\<close>, and that the gate warns exactly when the tagged scale does not contain the
  count although another declared scale does, naming precisely the scales that would be accepted.
\<close>

section \<open>Reading a threshold\<close>

lemma takeWhile_digits_itoa:
  assumes "suf = [] \<or> \<not> is_digit (hd suf)"
  shows "takeWhile is_digit (itoa n @ suf) = itoa n" "dropWhile is_digit (itoa n @ suf) = suf"
proof -
  have d: "\<And>c. c \<in> set (itoa n) \<Longrightarrow> is_digit c" using itoa_digits [of n] by (simp add: list_all_iff)
  show "takeWhile is_digit (itoa n @ suf) = itoa n" "dropWhile is_digit (itoa n @ suf) = suf"
    using assms d by (cases suf; auto simp: takeWhile_append2 dropWhile_append2)+
qed

lemma leadingIntRest_itoa:
  assumes "int n \<le> MaxInt" and "suf = [] \<or> \<not> is_digit (hd suf)"
  shows "leadingIntRest (itoa n @ suf) = Some (int n, suf)"
  using itoa_digits [of n] atoi_itoa [OF assms(1)]
  by (simp add: leadingIntRest_def takeWhile_digits_itoa [OF assms(2)])

lemma leadingInt_itoa:
  "int n \<le> MaxInt \<Longrightarrow> suf = [] \<or> \<not> is_digit (hd suf) \<Longrightarrow> leadingInt (itoa n @ suf) = Some (int n)"
  by (simp add: leadingInt_def leadingIntRest_itoa)

lemma atoi_digits_nonneg: "list_all is_digit s \<Longrightarrow> atoi s = Some n \<Longrightarrow> 0 \<le> n \<and> n \<le> MaxInt"
proof -
  assume a: "list_all is_digit s" and n: "atoi s = Some n"
  have "\<not> has_prefix s ''-''" using a by (cases s) (auto simp: is_digit_def)
  then show ?thesis using n by (auto simp: atoi_def Let_def split: if_splits)
qed

lemma leadingIntRest_bounds: "leadingIntRest s = Some (n, r) \<Longrightarrow> 0 \<le> n \<and> n \<le> MaxInt"
  unfolding leadingIntRest_def Let_def
  using atoi_digits_nonneg [of "takeWhile is_digit s"] list_all_takeWhile [of is_digit s] by (auto split: if_splits)

lemma leadingInt_bounds: "leadingInt s = Some n \<Longrightarrow> 0 \<le> n \<and> n \<le> MaxInt"
  unfolding leadingInt_def using leadingIntRest_bounds by auto

text \<open>A word around a threshold: nothing in front that could start one, no digit behind, no full-width lead byte.\<close>

definition plain_prefix :: "string \<Rightarrow> bool" where
  "plain_prefix p \<longleftrightarrow> list_all (\<lambda>c. \<not> spec_start c \<and> c \<noteq> CHR 0xEF) p"

definition plain_suffix :: "string \<Rightarrow> bool" where
  "plain_suffix s \<longleftrightarrow> CHR 0xEF \<notin> set s \<and> (s = [] \<or> \<not> is_digit (hd s))"

lemma replacer_id: "CHR 0xEF \<notin> set s \<Longrightarrow> replacer escaleFullWidthOps s = s"
  using replacer_skip [of s escaleFullWidthOps "[]"] by (fastforce simp: escaleFullWidthOps_def)

lemma itoa_no_lead: "CHR 0xEF \<notin> set (itoa n)"
  using itoa_digits [of n] by (fastforce simp: list_all_iff is_digit_def)

lemma spec_found:
  assumes "plain_prefix pre" and "spec_start c" and "CHR 0xEF \<notin> set (c # r)"
  shows "dropWhile (\<lambda>c. \<not> spec_start c) (replacer escaleFullWidthOps (pre @ c # r)) = c # r"
proof -
  have "CHR 0xEF \<notin> set (pre @ c # r)" using assms by (auto simp: plain_prefix_def list_all_iff)
  then have "replacer escaleFullWidthOps (pre @ c # r) = pre @ c # r" by (rule replacer_id)
  then show ?thesis using assms(1,2)
    by (simp add: plain_prefix_def list_all_iff dropWhile_append2)
qed

lemma bound_after_itoa:
  assumes "int n \<le> MaxInt" and "plain_suffix suf"
  shows "bound_after (itoa n @ suf) = Some (False, int n)" "bound_after (''='' @ itoa n @ suf) = Some (True, int n)"
proof -
  have s: "suf = [] \<or> \<not> is_digit (hd suf)" using assms(2) by (simp add: plain_suffix_def)
  have "\<not> has_prefix (itoa n @ suf) ''=''"
    using itoa_digits [of n] by (cases "itoa n") (auto simp: is_digit_def)
  then show "bound_after (itoa n @ suf) = Some (False, int n)" "bound_after (''='' @ itoa n @ suf) = Some (True, int n)"
    using leadingInt_itoa [OF assms(1) s] by (simp_all add: bound_after_def)
qed

text \<open>The written forms of a threshold.\<close>

lemma parseEScaleSpec_forms:
  assumes "plain_prefix pre" and "plain_suffix suf" and "int n \<le> MaxInt" and "int m \<le> MaxInt"
  shows "parseEScaleSpec (pre @ ''>='' @ itoa n @ suf) = Some \<lparr>rmin = int n, rmax = MaxInt\<rparr>"
    and "parseEScaleSpec (pre @ ''>'' @ itoa n @ suf) = Some \<lparr>rmin = wrap_int (int n + 1), rmax = MaxInt\<rparr>"
    and "parseEScaleSpec (pre @ ''<='' @ itoa n @ suf) = Some \<lparr>rmin = 0, rmax = int n\<rparr>"
    and "parseEScaleSpec (pre @ ''<'' @ itoa n @ suf) = Some \<lparr>rmin = 0, rmax = int n - 1\<rparr>"
    and "n \<le> m \<Longrightarrow> parseEScaleSpec (pre @ itoa n @ ''-'' @ itoa m @ suf) = Some \<lparr>rmin = int n, rmax = int m\<rparr>"
proof -
  have suf: "CHR 0xEF \<notin> set suf" "suf = [] \<or> \<not> is_digit (hd suf)" using assms(2) by (simp_all add: plain_suffix_def)
  note lead = suf(1) itoa_no_lead [of n] itoa_no_lead [of m]
  note f = spec_found [OF assms(1)] and b = bound_after_itoa [OF assms(3,2)]
  have gt: "spec_start (CHR ''>'')" "spec_start (CHR ''<'')" by (simp_all add: spec_start_def)
  show "parseEScaleSpec (pre @ ''>='' @ itoa n @ suf) = Some \<lparr>rmin = int n, rmax = MaxInt\<rparr>"
    using f [OF gt(1), of "''='' @ itoa n @ suf"] lead b(2) by (simp add: parseEScaleSpec_def)
  show "parseEScaleSpec (pre @ ''>'' @ itoa n @ suf) = Some \<lparr>rmin = wrap_int (int n + 1), rmax = MaxInt\<rparr>"
    using f [OF gt(1), of "itoa n @ suf"] lead b(1) by (simp add: parseEScaleSpec_def)
  show "parseEScaleSpec (pre @ ''<='' @ itoa n @ suf) = Some \<lparr>rmin = 0, rmax = int n\<rparr>"
    using f [OF gt(2), of "''='' @ itoa n @ suf"] lead b(2) by (simp add: parseEScaleSpec_def)
  show "parseEScaleSpec (pre @ ''<'' @ itoa n @ suf) = Some \<lparr>rmin = 0, rmax = int n - 1\<rparr>"
    using f [OF gt(2), of "itoa n @ suf"] lead b(1) by (simp add: parseEScaleSpec_def)
  obtain d ds where d: "itoa n = d # ds" "is_digit d" using itoa_digits [of n] by (cases "itoa n") auto
  have nd: "spec_start d" "d \<noteq> CHR ''<''" "d \<noteq> CHR ''>''" using d(2) by (auto simp: spec_start_def is_digit_def)
  have i: "leadingIntRest (d # ds @ ''-'' @ itoa m @ suf) = Some (int n, ''-'' @ itoa m @ suf)"
    using leadingIntRest_itoa [OF assms(3), of "''-'' @ itoa m @ suf"] by (simp add: d(1) is_digit_def)
  show "parseEScaleSpec (pre @ itoa n @ ''-'' @ itoa m @ suf) = Some \<lparr>rmin = int n, rmax = int m\<rparr>" if "n \<le> m"
    using f [OF nd(1), of "ds @ ''-'' @ itoa m @ suf"] lead d(1) nd i that leadingInt_itoa [OF assms(4) suf(2)]
    by (simp add: parseEScaleSpec_def)
qed

text \<open>
  A written threshold means what it says: inside a word, with any description in front and
  any unit behind, \<open>>=N\<close>, \<open>>N\<close>, \<open><=N\<close>, \<open><N\<close> and \<open>N-M\<close> are read as the intervals that contain exactly
  the line counts their notation denotes, for every number up to the largest \<open>int\<close> (for \<open>>N\<close>, below it).
\<close>

theorem parseEScaleSpec_meaning:
  assumes "plain_prefix pre" and "plain_suffix suf" and "int n < MaxInt" and "n \<le> m" and "int m \<le> MaxInt"
    and "int k \<le> MaxInt"
  shows "(\<exists>r. parseEScaleSpec (pre @ ''>='' @ itoa n @ suf) = Some r \<and> (in_range (int k) r \<longleftrightarrow> n \<le> k)) \<and>
    (\<exists>r. parseEScaleSpec (pre @ ''>'' @ itoa n @ suf) = Some r \<and> (in_range (int k) r \<longleftrightarrow> n < k)) \<and>
    (\<exists>r. parseEScaleSpec (pre @ ''<='' @ itoa n @ suf) = Some r \<and> (in_range (int k) r \<longleftrightarrow> k \<le> n)) \<and>
    (\<exists>r. parseEScaleSpec (pre @ ''<'' @ itoa n @ suf) = Some r \<and> (in_range (int k) r \<longleftrightarrow> k < n)) \<and>
    (\<exists>r. parseEScaleSpec (pre @ itoa n @ ''-'' @ itoa m @ suf) = Some r \<and> (in_range (int k) r \<longleftrightarrow> n \<le> k \<and> k \<le> m))"
proof -
  have n: "int n \<le> MaxInt" using assms(3) by simp
  have w: "wrap_int (int n + 1) = int n + 1" using assms(3) by (intro wrap_int_id) auto
  show ?thesis
    unfolding parseEScaleSpec_forms [OF assms(1,2) n assms(5)] parseEScaleSpec_forms(5) [OF assms(1,2) n assms(5,4)] w
    using assms(6) by (auto simp: in_range_def)
qed

theorem parseEScaleSpec_meaning_witness:
  "\<exists>r. parseEScaleSpec ''arge(>400 lines)'' = Some r \<and> \<not> in_range 400 r"
proof -
  have i: "itoa 400 = ''400''" by code_simp
  have p: "plain_prefix ''arge(''" "plain_suffix '' lines)''" by code_simp+
  have "\<exists>r. parseEScaleSpec (''arge('' @ ''>'' @ itoa 400 @ '' lines)'') = Some r \<and> (in_range (int 400) r \<longleftrightarrow> (400::nat) < 400)"
    using parseEScaleSpec_meaning [OF p, of 400 400 400] by (auto simp: MaxInt_def)
  then show ?thesis by (simp add: i)
qed

text \<open>At the largest \<open>int\<close> the lower bound of \<open>>N\<close> wraps around, and the scale contains every count.\<close>

lemma parseEScaleSpec_overflow:
  "\<exists>r. parseEScaleSpec ''>9223372036854775807'' = Some r \<and> (\<forall>k. int k \<le> MaxInt \<longrightarrow> in_range (int k) r)"
proof -
  have "parseEScaleSpec ''>9223372036854775807'' = Some \<lparr>rmin = -9223372036854775808, rmax = MaxInt\<rparr>" by code_simp
  then show ?thesis by (auto simp: in_range_def)
qed

section \<open>The verdict\<close>

lemma distinct_escale_words: "distinct (map fst rs) \<Longrightarrow> distinct (map fst (foldl escale_word rs ws))"
  by (induction ws arbitrary: rs) (simp_all add: escale_word_def Let_def distinct_update split: option.splits)

lemma distinct_escale_line: "distinct (map fst (ranges t)) \<Longrightarrow> distinct (map fst (ranges (escale_line t l)))"
proof -
  assume "distinct (map fst (ranges t))"
  then have w: "distinct (map fst (foldl escale_word (ranges t) ws))" for ws by (rule distinct_escale_words)
  then show ?thesis using w [of "[]"]
    by (simp add: escale_line_def split: option.splits prod.splits dimension.splits axis.splits)
qed

lemma distinct_thresholds: "distinct (map fst (ranges (ExtractEScaleThresholds h)))"
proof -
  have "distinct (map fst (ranges t)) \<Longrightarrow> distinct (map fst (ranges (foldl escale_line t ls)))" for t ls
    by (induction ls arbitrary: t) (simp_all add: distinct_escale_line)
  then show ?thesis by (simp add: ExtractEScaleThresholds_def)
qed

definition scale_of :: "string \<Rightarrow> string option" where
  "scale_of line =
     (case EntryTagSpan line of
        None \<Rightarrow> None
      | Some (_, s, e) \<Rightarrow> ParseTags (slice s e line) AxE)"

definition scales_containing :: "EScaleThresholds \<Rightarrow> int \<Rightarrow> string set" where
  "scales_containing t n = {s. \<exists>r. map_of (ranges t) s = Some r \<and> in_range n r}"

lemma Expected_set:
  "distinct (map fst (ranges t)) \<Longrightarrow> set (ExpectedEScaleSymbols n (Some t)) = scales_containing t n"
  by (force simp: ExpectedEScaleSymbols_def scales_containing_def)

lemma sorted_distinct_strict: "sorted_wrt str_le xs \<Longrightarrow> distinct xs \<Longrightarrow> sorted_wrt str_less xs"
  using str_less_linear by (induction xs) (auto simp: str_le_def)

lemma distinct_insort_str: "distinct (insort_str x xs) \<longleftrightarrow> distinct (x # xs)"
  by (induction xs) auto

lemma distinct_sort_strings: "distinct (sort_strings xs) \<longleftrightarrow> distinct xs"
proof -
  have "distinct (foldr insort_str xs []) \<longleftrightarrow> distinct xs" and "set (foldr insort_str xs []) = set xs" for xs
    by (induction xs) (auto simp: distinct_insort_str)
  then show ?thesis by (simp add: sort_strings_def)
qed

lemma CheckEScaleDetail_Some:
  assumes "distinct (map fst (ranges t))"
  shows "CheckEScaleDetail line n (Some t) = Some m \<longleftrightarrow>
    (\<exists>e r. scale_of line = Some e \<and> e \<noteq> [] \<and> map_of (ranges t) e = Some r \<and> \<not> in_range n r \<and>
       scales_containing t n \<noteq> {} \<and> m = \<lparr>FileLines = n, Expected = ExpectedEScaleSymbols n (Some t), Actual = e\<rparr>)"
proof (cases "EntryTagSpan line")
  case (Some p)
  obtain b i j where p: "EntryTagSpan line = Some (b, i, j)" using Some by (cases p) simp
  let ?g = "ParseTags (slice i j line)"
  have s: "scale_of line = ?g AxE" by (simp add: scale_of_def p)
  have x: "ExpectedEScaleSymbols n (Some t) = [] \<longleftrightarrow> scales_containing t n = {}"
    using Expected_set [OF assms, of n] by (metis set_empty)
  show ?thesis
  proof (cases "?g AxE")
    case None
    then show ?thesis by (auto simp: CheckEScaleDetail_def p s tag_get_def Let_def)
  next
    case (Some e)
    then have "\<not> no_tags ?g" by (metis no_tags_iff option.distinct(1))
    then show ?thesis using x Some
      by (auto simp: CheckEScaleDetail_def p s tag_get_def Let_def split: option.splits if_splits)
  qed
qed (auto simp: CheckEScaleDetail_def scale_of_def split: if_splits)

text \<open>
  The scale gate is exact and its advice works: with the thresholds of any header, it reports
  a mismatch for a line exactly when the tagged scale is declared, does not contain the file's line
  count, and some declared scale does; the scales it proposes are exactly those containing the
  count, in strictly increasing order; and a line retagged with any of them is accepted.
\<close>

theorem CheckEScale_exact:
  assumes "t = ExtractEScaleThresholds h"
  shows "(CheckEScaleDetail line n (Some t) \<noteq> None \<longleftrightarrow>
      (\<exists>e r. scale_of line = Some e \<and> e \<noteq> [] \<and> map_of (ranges t) e = Some r \<and> \<not> in_range n r \<and> scales_containing t n \<noteq> {})) \<and>
    (\<forall>m. CheckEScaleDetail line n (Some t) = Some m \<longrightarrow>
      set (Expected m) = scales_containing t n \<and> sorted_wrt str_less (Expected m) \<and>
      (\<forall>line'. scale_of line' \<in> Some ` set (Expected m) \<longrightarrow> CheckEScaleDetail line' n (Some t) = None))"
proof -
  have d: "distinct (map fst (ranges t))" using assms distinct_thresholds by simp
  note iff = CheckEScaleDetail_Some [OF d] and ex = Expected_set [OF d]
  have "distinct (map fst (filter (\<lambda>(_, r). in_range n r) (ranges t)))"
    using d distinct_map_filter by blast
  then have st: "sorted_wrt str_less (ExpectedEScaleSymbols n (Some t))"
    by (simp add: ExpectedEScaleSymbols_def sorted_distinct_strict sorted_sort_strings distinct_sort_strings)
  have none: "CheckEScaleDetail line' n (Some t) = None" if "scale_of line' \<in> Some ` scales_containing t n" for line'
  proof (rule ccontr)
    assume "CheckEScaleDetail line' n (Some t) \<noteq> None"
    then obtain m where "CheckEScaleDetail line' n (Some t) = Some m" by blast
    then show False using that unfolding iff by (auto simp: scales_containing_def)
  qed
  have "CheckEScaleDetail line n (Some t) \<noteq> None \<longleftrightarrow> (\<exists>m. CheckEScaleDetail line n (Some t) = Some m)" by auto
  then show ?thesis using iff [of line n] ex [of n] st none by auto
qed

theorem CheckEScale_exact_witness:
  "CheckEScaleDetail ''a.go[CIx9L]: F:x'' 12 (Some (ExtractEScaleThresholds ''#E Scale: L>400 M100-400 S<100'')) \<noteq> None"
proof -
  let ?t = "ExtractEScaleThresholds ''#E Scale: L>400 M100-400 S<100''"
  have r: "ranges ?t = [(''L'', \<lparr>rmin = 401, rmax = MaxInt\<rparr>), (''M'', \<lparr>rmin = 100, rmax = 400\<rparr>), (''S'', \<lparr>rmin = 0, rmax = 99\<rparr>)]"
    by code_simp
  have s: "scale_of ''a.go[CIx9L]: F:x'' = Some ''L''" by code_simp
  have "''S'' \<in> scales_containing ?t 12" by (simp add: scales_containing_def r in_range_def)
  then have "scale_of ''a.go[CIx9L]: F:x'' = Some ''L'' \<and> ''L'' \<noteq> [] \<and> map_of (ranges ?t) ''L'' = Some \<lparr>rmin = 401, rmax = MaxInt\<rparr> \<and>
      \<not> in_range 12 \<lparr>rmin = 401, rmax = MaxInt\<rparr> \<and> scales_containing ?t 12 \<noteq> {}"
    using s by (auto simp: r in_range_def)
  then show ?thesis
    using CheckEScale_exact [OF refl, of "''a.go[CIx9L]: F:x''" 12 "''#E Scale: L>400 M100-400 S<100''"] by blast
qed

end
