(* ===== verification/Index_Quota.thy ===== *)
theory Index_Quota
  imports Index_EScale
begin

text \<open>
  The S quota gate (\<open>internal/index/quota.go\<close>) over the machine defaults of
  \<open>internal/machinecontract/numeric.go\<close>: which length of the S field each importance allows, by the
  declaration of a header or by default, and the check of an Entry line. A nil table is \<open>None\<close>.
\<close>

section \<open>Machine defaults\<close>

record SQuotaBand =
  MinC :: int
  MaxC :: int
  MaxRunes :: int

definition DefaultSQuotaBands :: "SQuotaBand list" where
  "DefaultSQuotaBands =
     [\<lparr>MinC = 8, MaxC = 9, MaxRunes = 600\<rparr>, \<lparr>MinC = 4, MaxC = 7, MaxRunes = 200\<rparr>, \<lparr>MinC = 1, MaxC = 3, MaxRunes = 50\<rparr>]"

definition DefaultSQuotaForC :: "int \<Rightarrow> int" where
  "DefaultSQuotaForC c = (if 8 \<le> c then 600 else if 4 \<le> c then 200 else 50)"

section \<open>Declarations\<close>

record SQuotaThresholds =
  quotas :: "(int \<times> int) list"
  sawQuotaLine :: bool
  unrecognizedName :: string

definition UnrecognizedName :: "SQuotaThresholds option \<Rightarrow> string" where
  "UnrecognizedName ot = (case ot of None \<Rightarrow> [] | Some t \<Rightarrow> unrecognizedName t)"

definition HasQuotas :: "SQuotaThresholds option \<Rightarrow> bool" where
  "HasQuotas ot = (case ot of None \<Rightarrow> False | Some t \<Rightarrow> quotas t \<noteq> [])"

definition SawSQuotaLine :: "SQuotaThresholds option \<Rightarrow> bool" where
  "SawSQuotaLine ot = (case ot of None \<Rightarrow> False | Some t \<Rightarrow> sawQuotaLine t)"

text \<open>U+2264, U+FF1C and U+FF1D.\<close>

definition sQuotaFullWidth :: "(string \<times> string) list" where
  "sQuotaFullWidth =
     [([CHR 0xE2, CHR 0x89, CHR 0xA4], ''<=''), ([CHR 0xEF, CHR 0xBC, CHR 0x9C], ''<''),
      ([CHR 0xEF, CHR 0xBC, CHR 0x9D], ''='')]"

definition quotaForC :: "int \<Rightarrow> SQuotaThresholds option \<Rightarrow> int \<times> bool" where
  "quotaForC c ot =
     (case (if HasQuotas ot then map_of (quotas (the ot)) c else None) of
        Some q \<Rightarrow> (q, True)
      | None \<Rightarrow> (DefaultSQuotaForC c, False))"

definition LimitForC :: "SQuotaThresholds option \<Rightarrow> int \<Rightarrow> int \<times> bool" where
  "LimitForC ot c =
     (let (quota, custom) = quotaForC c ot; machine = DefaultSQuotaForC c in
      if quota < machine then (machine, custom) else (quota, custom))"

text \<open>The importance range at the head of a quota word: \<open>C9-8\<close>, \<open>C9-C8\<close> or \<open>C5\<close>.\<close>

definition quota_range :: "string \<Rightarrow> (int \<times> int \<times> string) option" where
  "quota_range w =
     (case leadingIntRest w of
        None \<Rightarrow> None
      | Some (c1, rest) \<Rightarrow>
          if c1 < 1 \<or> 9 < c1 then None
          else if has_prefix rest ''-'' then
            (case leadingIntRest (trim_prefix (tl rest) ''C'') of
               None \<Rightarrow> None
             | Some (c2, rest') \<Rightarrow> if c2 < 1 \<or> 9 < c2 then None else Some (c1, c2, rest'))
          else Some (c1, c1, rest))"

text \<open>The operator, and whether it is strict.\<close>

definition quota_operator :: "string \<Rightarrow> (bool \<times> string) option" where
  "quota_operator rest =
     (if has_prefix rest ''<='' then Some (False, drop 2 rest)
      else if has_prefix rest ''='' then Some (False, drop 1 rest)
      else if has_prefix rest ''<'' then Some (True, drop 1 rest)
      else None)"

definition parseSQuotaField :: "string \<Rightarrow> (int \<times> int \<times> int) option" where
  "parseSQuotaField word =
     (let w = replacer sQuotaFullWidth word in
      if \<not> has_prefix w ''C'' then None
      else case quota_range (tl w) of
        None \<Rightarrow> None
      | Some (c1, c2, rest) \<Rightarrow>
          (case quota_operator rest of
             None \<Rightarrow> None
           | Some (strict, rest') \<Rightarrow>
               (case leadingInt rest' of
                  None \<Rightarrow> None
                | Some q \<Rightarrow>
                    if q \<le> 0 then None
                    else
                      let q' = (if strict then q - 1 else q) in
                      if q' \<le> 0 then None
                      else if c2 < c1 then Some (c2, c1, q') else Some (c1, c2, q'))))"

definition quota_word :: "(int \<times> int) list \<Rightarrow> string \<Rightarrow> (int \<times> int) list" where
  "quota_word qs word =
     (case parseSQuotaField word of
        None \<Rightarrow> qs
      | Some (cmin, cmax, q) \<Rightarrow> foldl (\<lambda>acc c. AList.update c q acc) qs [cmin..cmax])"

definition quota_line :: "SQuotaThresholds \<Rightarrow> string \<Rightarrow> SQuotaThresholds" where
  "quota_line t line =
     (case parseDictLine line of
        None \<Rightarrow>
          (case DimensionNameNearMiss line of
             Some nm \<Rightarrow>
               if Canonical nm = DimQuota
               then t\<lparr>sawQuotaLine := True,
                      unrecognizedName := (if unrecognizedName t = [] then Written nm else unrecognizedName t)\<rparr>
               else t
           | None \<Rightarrow> t)
      | Some (DimQuota, content) \<Rightarrow>
          \<lparr>quotas = foldl quota_word (quotas t) (Go_Strings.fields content), sawQuotaLine = True, unrecognizedName = []\<rparr>
      | Some (DimAxis _, content) \<Rightarrow> t)"

definition ExtractSQuotaThresholds :: "string \<Rightarrow> SQuotaThresholds" where
  "ExtractSQuotaThresholds headerText =
     foldl quota_line \<lparr>quotas = [], sawQuotaLine = False, unrecognizedName = []\<rparr> (str_split headerText [LF])"

section \<open>The effective contract\<close>

text \<open>Adding one importance to the bands: the last band grows when it is adjacent with the same quota.\<close>

definition add_band :: "(int \<Rightarrow> int) \<Rightarrow> SQuotaBand list \<Rightarrow> int \<Rightarrow> SQuotaBand list" where
  "add_band f bands importance =
     (if bands \<noteq> [] \<and> MaxRunes (last bands) = f importance \<and> MinC (last bands) = importance + 1
      then butlast bands @ [(last bands)\<lparr>MinC := importance\<rparr>]
      else bands @ [\<lparr>MinC = importance, MaxC = importance, MaxRunes = f importance\<rparr>])"

definition render_band :: "SQuotaBand \<Rightarrow> string" where
  "render_band b =
     ''C'' @ itoa (nat (MaxC b)) @ (if MinC b \<noteq> MaxC b then ''-'' @ itoa (nat (MinC b)) else []) @
     [CHR 0xE2, CHR 0x89, CHR 0xA4] @ itoa (nat (MaxRunes b))"

definition EffectiveSQuotaContract :: "string \<Rightarrow> string" where
  "EffectiveSQuotaContract headerText =
     (let thresholds = Some (ExtractSQuotaThresholds headerText) in
      str_join (map render_band
        (foldl (add_band (\<lambda>c. fst (quotaForC c thresholds))) [] (rev [1..9]))) '' '')"

section \<open>The check\<close>

fun c_of_runes :: "rune list \<Rightarrow> int" where
  "c_of_runes [] = 0"
| "c_of_runes (r # rs) = (if 49 \<le> r \<and> r \<le> 57 then int (r - 48) else if r = 48 then 0 else c_of_runes rs)"

definition extractCFromTags :: "string \<Rightarrow> int" where
  "extractCFromTags tags = c_of_runes (runes tags)"

definition cutSPrefix :: "string \<Rightarrow> string option" where
  "cutSPrefix seg =
     (if has_prefix seg ''S:'' then Some (drop 2 seg)
      else if 3 \<le> length seg \<and> seg ! 0 = CHR ''S'' \<and> is_digit (seg ! 1) \<and> seg ! 2 = CHR '':'' then Some (drop 3 seg)
      else None)"

definition sContentLength :: "string \<Rightarrow> nat" where
  "sContentLength line =
     sum_list (map (\<lambda>seg. case cutSPrefix seg of Some rest \<Rightarrow> rune_count rest | None \<Rightarrow> 0) (str_split line '' | ''))"

definition CheckSQuotaWith :: "string \<Rightarrow> SQuotaThresholds option \<Rightarrow> Violation option" where
  "CheckSQuotaWith line th =
     (case EntryTagSpan line of
        None \<Rightarrow> None
      | Some (_, tagStart, tagEnd) \<Rightarrow>
          let c = extractCFromTags (slice tagStart tagEnd line) in
          if c = 0 then None
          else
            let (quota, custom) = quotaForC c th; got = sContentLength line in
            if int got \<le> quota then None
            else Some \<lparr>Level = LevelWarning, Msg = MsgQuota got c quota custom\<rparr>)"

definition CheckSQuota :: "string \<Rightarrow> Violation option" where
  "CheckSQuota line = CheckSQuotaWith line None"

end
