(* ===== verification/Index_Quota_Laws.thy ===== *)
theory Index_Quota_Laws
  imports Index_Quota Index_EScale_Laws
begin

text \<open>
  The properties of the S quota: the effective contract of a header, written into a header, declares
  exactly the effective quotas; the limit of the error-level gate is never below the machine
  default, whatever is declared; and the importance it looks up is the one of the parsed tag.
\<close>

section \<open>Extracted tables\<close>

definition quotas_ok :: "(int \<times> int) list \<Rightarrow> bool" where
  "quotas_ok qs \<longleftrightarrow> (\<forall>x v. map_of qs x = Some v \<longrightarrow> 1 \<le> x \<and> x \<le> 9 \<and> 0 < v \<and> v \<le> MaxInt)"

lemma quotas_okD: "quotas_ok qs \<Longrightarrow> map_of qs x = Some v \<Longrightarrow> 1 \<le> x \<and> x \<le> 9 \<and> 0 < v \<and> v \<le> MaxInt"
  by (simp add: quotas_ok_def)

lemma parseSQuotaField_bounds:
  assumes "parseSQuotaField w = Some (a, b, q)"
  shows "1 \<le> a \<and> a \<le> b \<and> b \<le> 9 \<and> 0 < q \<and> q \<le> MaxInt"
proof -
  obtain c1 c2 r strict r' n where r: "quota_range (tl (replacer sQuotaFullWidth w)) = Some (c1, c2, r)"
    and "leadingInt r' = Some n"
    and q: "0 < n" "q = (if strict then n - 1 else n)" "0 < q"
    and ab: "(a, b) = (if c2 < c1 then (c2, c1) else (c1, c2))"
    using assms by (auto simp: parseSQuotaField_def Let_def split: if_splits option.splits prod.splits)
  moreover have "1 \<le> c1 \<and> c1 \<le> 9 \<and> 1 \<le> c2 \<and> c2 \<le> 9"
    using r by (auto simp: quota_range_def split: if_splits option.splits prod.splits)
  moreover have "n \<le> MaxInt" using leadingInt_bounds [OF \<open>leadingInt r' = Some n\<close>] by simp
  ultimately show ?thesis by (auto split: if_splits)
qed

lemma map_of_updates:
  "map_of (foldl (\<lambda>acc c. AList.update c q acc) qs cs) x = (if x \<in> set cs then Some q else map_of qs x)"
  by (induction cs arbitrary: qs) (auto simp: update_conv')

lemma quota_word_map:
  "map_of (quota_word qs w) x =
     (case parseSQuotaField w of
        Some (a, b, q) \<Rightarrow> if a \<le> x \<and> x \<le> b then Some q else map_of qs x
      | None \<Rightarrow> map_of qs x)"
  by (auto simp: quota_word_def map_of_updates split: option.splits)

lemma quota_word_ok: "quotas_ok qs \<Longrightarrow> quotas_ok (quota_word qs w)"
  using parseSQuotaField_bounds [of w] unfolding quotas_ok_def
  by (auto simp: quota_word_map split: option.splits if_splits)

lemma quota_words_ok: "quotas_ok qs \<Longrightarrow> quotas_ok (foldl quota_word qs ws)"
  by (induction ws arbitrary: qs) (simp_all add: quota_word_ok)

lemma quota_line_ok: "quotas_ok (quotas t) \<Longrightarrow> quotas_ok (quotas (quota_line t l))"
proof -
  assume t: "quotas_ok (quotas t)"
  show ?thesis
  proof (cases "parseDictLine l")
    case None
    then show ?thesis using t by (cases "DimensionNameNearMiss l") (simp_all add: quota_line_def)
  next
    case (Some p)
    then show ?thesis using t by (cases p, cases "fst p") (simp_all add: quota_line_def quota_words_ok)
  qed
qed

lemma ExtractSQuotaThresholds_ok: "quotas_ok (quotas (ExtractSQuotaThresholds h))"
proof -
  have "quotas_ok (quotas t) \<Longrightarrow> quotas_ok (quotas (foldl quota_line t ls))" for t ls
    by (induction ls arbitrary: t) (simp_all add: quota_line_ok)
  moreover have "quotas_ok []" by (simp add: quotas_ok_def)
  ultimately show ?thesis by (simp add: ExtractSQuotaThresholds_def)
qed

lemma quotaForC_table:
  "quotaForC c (Some t) = (case map_of (quotas t) c of Some q \<Rightarrow> (q, True) | None \<Rightarrow> (DefaultSQuotaForC c, False))"
  by (auto simp: quotaForC_def HasQuotas_def)

lemma quotaForC_bounds: "0 < fst (quotaForC c (Some (ExtractSQuotaThresholds h))) \<and> fst (quotaForC c (Some (ExtractSQuotaThresholds h))) \<le> MaxInt"
  using quotas_okD [OF ExtractSQuotaThresholds_ok, of h c]
  by (cases "map_of (quotas (ExtractSQuotaThresholds h)) c") (simp_all add: quotaForC_table DefaultSQuotaForC_def MaxInt_def)

text \<open>
  The limit of the error-level gate only ever loosens: for every header and every importance
  it is the larger of the machine default and the declared quota, never below the default, and it
  stays a positive \<open>int\<close>; an importance outside 1 to 9 always has the default.
\<close>

theorem LimitForC_loosens:
  "fst (LimitForC (Some (ExtractSQuotaThresholds h)) c) =
     max (DefaultSQuotaForC c) (fst (quotaForC c (Some (ExtractSQuotaThresholds h)))) \<and>
   DefaultSQuotaForC c \<le> fst (LimitForC (Some (ExtractSQuotaThresholds h)) c) \<and>
   fst (LimitForC (Some (ExtractSQuotaThresholds h)) c) \<le> MaxInt \<and>
   (c < 1 \<or> 9 < c \<longrightarrow> LimitForC (Some (ExtractSQuotaThresholds h)) c = (DefaultSQuotaForC c, False))"
proof -
  have d: "DefaultSQuotaForC c \<le> MaxInt" by (simp add: DefaultSQuotaForC_def MaxInt_def)
  have "map_of (quotas (ExtractSQuotaThresholds h)) c = None" if "c < 1 \<or> 9 < c"
    using that quotas_okD [OF ExtractSQuotaThresholds_ok, of h c]
    by (cases "map_of (quotas (ExtractSQuotaThresholds h)) c") auto
  then show ?thesis using d quotaForC_bounds [of c h]
    by (auto simp: LimitForC_def Let_def quotaForC_table split: prod.splits option.splits)
qed

theorem LimitForC_loosens_witness:
  "LimitForC (Some (ExtractSQuotaThresholds ''#S quota: C9-1<=100'')) 12 = (600, False)"
proof -
  have "(12::int) < 1 \<or> 9 < (12::int)" by simp
  then have "LimitForC (Some (ExtractSQuotaThresholds ''#S quota: C9-1<=100'')) 12 = (DefaultSQuotaForC 12, False)"
    using LimitForC_loosens [of "''#S quota: C9-1<=100''" 12] by blast
  then show ?thesis by (simp add: DefaultSQuotaForC_def)
qed

lemma default_bands:
  "b \<in> set DefaultSQuotaBands \<Longrightarrow> MinC b \<le> c \<Longrightarrow> c \<le> MaxC b \<Longrightarrow> DefaultSQuotaForC c = MaxRunes b"
  by (auto simp: DefaultSQuotaBands_def DefaultSQuotaForC_def)

section \<open>Reading the effective contract back\<close>

abbreviation le_sign :: string where
  "le_sign \<equiv> [CHR 0xE2, CHR 0x89, CHR 0xA4]"

definition band_ok :: "(int \<Rightarrow> int) \<Rightarrow> SQuotaBand \<Rightarrow> bool" where
  "band_ok f b \<longleftrightarrow> 1 \<le> MinC b \<and> MinC b \<le> MaxC b \<and> MaxC b \<le> 9 \<and> 0 < MaxRunes b \<and> MaxRunes b \<le> MaxInt \<and>
     (\<forall>c. MinC b \<le> c \<and> c \<le> MaxC b \<longrightarrow> f c = MaxRunes b)"

definition bands_from :: "(int \<Rightarrow> int) \<Rightarrow> int \<Rightarrow> SQuotaBand list \<Rightarrow> bool" where
  "bands_from f i bs \<longleftrightarrow> (\<forall>b \<in> set bs. band_ok f b) \<and> (\<forall>c. i \<le> c \<and> c \<le> 9 \<longrightarrow> (\<exists>b \<in> set bs. MinC b \<le> c \<and> c \<le> MaxC b))"

lemma add_band_from:
  assumes "bands_from f (i + 1) bs" and "1 \<le> i" and "i \<le> 9" and "0 < f i" and "f i \<le> MaxInt"
  shows "bands_from f i (add_band f bs i)"
proof (cases "bs \<noteq> [] \<and> MaxRunes (last bs) = f i \<and> MinC (last bs) = i + 1")
  case True
  let ?b = "last bs" and ?b' = "(last bs)\<lparr>MinC := i\<rparr>"
  have bs: "bs = butlast bs @ [?b]" using True by simp
  have ok: "band_ok f ?b" "\<forall>b \<in> set (butlast bs). band_ok f b"
    using assms(1) True by (auto simp: bands_from_def dest: in_set_butlastD)
  have b': "band_ok f ?b'"
  proof -
    have "f c = MaxRunes ?b" if "i \<le> c" "c \<le> MaxC ?b" for c
    proof (cases "c = i")
      case False
      then have "MinC ?b \<le> c" using that True by simp
      then show ?thesis using that ok(1) unfolding band_ok_def by blast
    qed (use True in simp)
    moreover have "i \<le> MaxC ?b" using ok(1) True unfolding band_ok_def by linarith
    moreover have "MaxC ?b \<le> 9 \<and> 0 < MaxRunes ?b \<and> MaxRunes ?b \<le> MaxInt" using ok(1) unfolding band_ok_def by blast
    ultimately show ?thesis using assms(2) by (simp add: band_ok_def)
  qed
  have "\<exists>b \<in> set (butlast bs @ [?b']). MinC b \<le> c \<and> c \<le> MaxC b" if c: "i \<le> c" "c \<le> 9" for c
  proof (cases "i \<le> c \<and> c \<le> MaxC ?b")
    case True
    then show ?thesis by simp
  next
    case False
    then have "i + 1 \<le> c" using ok(1) \<open>bs \<noteq> [] \<and> _\<close> c by (auto simp: band_ok_def)
    then obtain b where "b \<in> set bs" "MinC b \<le> c" "c \<le> MaxC b"
      using assms(1) c unfolding bands_from_def by blast
    moreover have "b \<noteq> ?b" using False c \<open>c \<le> MaxC b\<close> by auto
    ultimately have "b \<in> set (butlast bs)" using bs by (metis in_set_conv_decomp_last rotate1.simps(2) set_ConsD set_rotate1)
    then show ?thesis using \<open>MinC b \<le> c\<close> \<open>c \<le> MaxC b\<close> by auto
  qed
  then show ?thesis using True ok(2) b' unfolding bands_from_def add_band_def by auto
next
  case False
  let ?n = "\<lparr>MinC = i, MaxC = i, MaxRunes = f i\<rparr>"
  have a: "add_band f bs i = bs @ [?n]" using False by (auto simp: add_band_def)
  have "c = i" if "i \<le> c \<and> c \<le> i" for c using that by linarith
  then have "\<forall>c. i \<le> c \<and> c \<le> i \<longrightarrow> f c = f i" by blast
  then have "band_ok f ?n" unfolding band_ok_def SQuotaBand.select_convs using assms(2-5) order_refl [of i] by blast
  moreover have "\<exists>b \<in> set (bs @ [?n]). MinC b \<le> c \<and> c \<le> MaxC b" if "i \<le> c" "c \<le> 9" for c
    using that assms(1) unfolding bands_from_def by (cases "c = i") auto
  ultimately show ?thesis using assms(1) unfolding a bands_from_def by auto
qed

lemma effective_bands:
  assumes "\<forall>c. 0 < f c \<and> f c \<le> MaxInt"
  shows "bands_from f 1 (foldl (add_band f) [] (rev [1..9]))"
proof -
  have e: "rev [1..9::int] = [9, 8, 7, 6, 5, 4, 3, 2, 1]" by (simp add: upto.simps)
  have s: "bands_from f i (add_band f bs i)" if "bands_from f j bs" "j = i + 1" "1 \<le> i" "i \<le> 9" for i j bs
    using add_band_from that assms by blast
  have "bands_from f 10 []" by (simp add: bands_from_def)
  from s [OF this] have "bands_from f 9 (add_band f [] 9)" by simp
  from s [OF this] have "bands_from f 8 (foldl (add_band f) [] [9, 8])" by simp
  from s [OF this] have "bands_from f 7 (foldl (add_band f) [] [9, 8, 7])" by simp
  from s [OF this] have "bands_from f 6 (foldl (add_band f) [] [9, 8, 7, 6])" by simp
  from s [OF this] have "bands_from f 5 (foldl (add_band f) [] [9, 8, 7, 6, 5])" by simp
  from s [OF this] have "bands_from f 4 (foldl (add_band f) [] [9, 8, 7, 6, 5, 4])" by simp
  from s [OF this] have "bands_from f 3 (foldl (add_band f) [] [9, 8, 7, 6, 5, 4, 3])" by simp
  from s [OF this] have "bands_from f 2 (foldl (add_band f) [] [9, 8, 7, 6, 5, 4, 3, 2])" by simp
  from s [OF this] show ?thesis unfolding e by simp
qed

lemma replacer_band:
  assumes "\<forall>c \<in> set u. byte c < 128" and "\<forall>c \<in> set v. byte c < 128"
  shows "replacer sQuotaFullWidth (u @ le_sign @ v) = u @ ''<='' @ v"
proof -
  have skip: "replacer sQuotaFullWidth (w @ t) = w @ replacer sQuotaFullWidth t" if "\<forall>c \<in> set w. byte c < 128" for w t
    using that by (intro replacer_skip) (auto simp: sQuotaFullWidth_def)
  have "replacer sQuotaFullWidth (le_sign @ v) = ''<='' @ replacer sQuotaFullWidth v"
    by (simp add: sQuotaFullWidth_def)
  then show ?thesis using skip [OF assms(1)] skip [OF assms(2), of "[]"] by simp
qed

lemma itoa_ascii: "c \<in> set (itoa n) \<Longrightarrow> byte c < 128"
  using itoa_digits [of n] by (auto simp: list_all_iff is_digit_def)

definition band_range :: "SQuotaBand \<Rightarrow> string" where
  "band_range b = itoa (nat (MaxC b)) @ (if MinC b \<noteq> MaxC b then ''-'' @ itoa (nat (MinC b)) else [])"

lemma quota_range_band:
  assumes "band_ok f b"
  shows "quota_range (band_range b @ ''<='' @ v) = Some (MaxC b, MinC b, ''<='' @ v)"
proof -
  have m: "int (nat (MaxC b)) = MaxC b" "int (nat (MinC b)) = MinC b" "MaxC b \<le> MaxInt" "MinC b \<le> MaxInt"
    using assms by (auto simp: band_ok_def MaxInt_def)
  have l: "leadingIntRest (itoa (nat (MaxC b)) @ s) = Some (MaxC b, s)"
    "leadingIntRest (itoa (nat (MinC b)) @ s) = Some (MinC b, s)" if "s = [] \<or> \<not> is_digit (hd s)" for s
    using leadingIntRest_itoa [OF _ that] m by metis+
  have nd: "\<not> is_digit (CHR ''-'')" "\<not> is_digit (CHR ''<'')" by (simp_all add: is_digit_def)
  have c: "\<not> has_prefix (itoa n @ s) ''C''" for n s
    using itoa_digits [of n] by (cases "itoa n") (auto simp: is_digit_def)
  show ?thesis
    using assms l(1) [of "''<='' @ v"] l(1) [of "''-'' @ itoa (nat (MinC b)) @ ''<='' @ v"] l(2) [of "''<='' @ v"] nd c
    by (auto simp: quota_range_def band_range_def band_ok_def trim_prefix_def)
qed

lemma parseSQuotaField_band:
  assumes "band_ok f b"
  shows "parseSQuotaField (render_band b) = Some (MinC b, MaxC b, MaxRunes b)"
proof -
  have "int (nat (MaxRunes b)) \<le> MaxInt" "int (nat (MaxRunes b)) = MaxRunes b" using assms by (auto simp: band_ok_def)
  then have q: "leadingInt (itoa (nat (MaxRunes b))) = Some (MaxRunes b)"
    using leadingInt_itoa [of "nat (MaxRunes b)" "[]"] by simp
  have r: "render_band b = (''C'' @ band_range b) @ le_sign @ itoa (nat (MaxRunes b))"
    by (simp add: render_band_def band_range_def)
  have w: "replacer sQuotaFullWidth (render_band b) = ''C'' @ band_range b @ ''<='' @ itoa (nat (MaxRunes b))"
    unfolding r by (subst replacer_band) (auto simp: band_range_def itoa_ascii split: if_splits)
  show ?thesis
    using assms q quota_range_band [OF assms, of "itoa (nat (MaxRunes b))"]
    by (auto simp: parseSQuotaField_def Let_def w quota_operator_def band_ok_def)
qed

lemma field_word_band: "field_word (render_band b)"
proof -
  let ?u = "''C'' @ band_range b" and ?v = "itoa (nat (MaxRunes b))"
  have r: "render_band b = ?u @ le_sign @ ?v" by (simp add: render_band_def band_range_def)
  have v: "?v = [] \<or> \<not> is_cont (hd ?v)"
    using itoa_digits [of "nat (MaxRunes b)"] by (cases ?v) (auto simp: is_digit_def is_cont_def)
  have l: "runes le_sign = [8804]" by code_simp
  have "runes (render_band b) = runes ?u @ runes (le_sign @ ?v)"
    unfolding r by (rule runes_append) (simp add: is_cont_def)
  also have "\<dots> = map of_char ?u @ [8804] @ map of_char ?v"
    unfolding runes_append [OF v] l by (subst (1 2) runes_all_ascii) (auto simp: band_range_def itoa_ascii split: if_splits)
  finally have e: "runes (render_band b) = map of_char ?u @ [8804] @ map of_char ?v" .
  have d: "\<not> is_space (byte c)" if "c \<in> set (itoa n)" for c n
    using that itoa_digits [of n] by (auto simp: list_all_iff is_digit_def is_space_def)
  then have "\<forall>r \<in> set (map of_char ?u @ [8804] @ map of_char ?v). \<not> is_space r"
    by (auto simp: band_range_def is_space_def split: if_splits)
  then have "list_all (\<lambda>r. \<not> is_space r) (runes (render_band b))" unfolding e list_all_iff .
  then show ?thesis by (simp add: field_word_def r)
qed

lemma quota_words_bands:
  assumes "\<forall>b \<in> set bs. band_ok f b" and "\<forall>x v. map_of qs x = Some v \<longrightarrow> v = f x"
  shows "(\<forall>x v. map_of (foldl quota_word qs (map render_band bs)) x = Some v \<longrightarrow> v = f x) \<and>
    (\<forall>x. map_of (foldl quota_word qs (map render_band bs)) x \<noteq> None \<longleftrightarrow>
       map_of qs x \<noteq> None \<or> (\<exists>b \<in> set bs. MinC b \<le> x \<and> x \<le> MaxC b))"
  using assms
proof (induction bs arbitrary: qs)
  case (Cons b bs)
  have b: "band_ok f b" using Cons.prems by simp
  have w: "map_of (quota_word qs (render_band b)) x = (if MinC b \<le> x \<and> x \<le> MaxC b then Some (MaxRunes b) else map_of qs x)" for x
    by (simp add: quota_word_map parseSQuotaField_band [OF b])
  have "\<forall>x v. map_of (quota_word qs (render_band b)) x = Some v \<longrightarrow> v = f x"
    using Cons.prems(2) b by (auto simp: w band_ok_def)
  from Cons.IH [OF _ this] show ?case using Cons.prems(1) by (auto simp: w)
qed simp

lemma ascii_no_wide: "\<forall>c \<in> set s. c \<noteq> CHR 0xEF \<Longrightarrow> str_index s wide_colon = None"
proof (induction s)
  case (Cons c s)
  then show ?case by (auto simp: wide_colon_def)
qed (simp add: wide_colon_def)

lemma render_band_bytes: "c \<in> set (render_band b) \<Longrightarrow> c \<noteq> CHR 0xEF \<and> c \<noteq> LF"
proof -
  have "x \<noteq> CHR 0xEF \<and> x \<noteq> LF" if "x \<in> set (itoa n)" for x n
    using that itoa_digits [of n] by (auto simp: list_all_iff is_digit_def)
  then show "c \<in> set (render_band b) \<Longrightarrow> ?thesis" by (auto simp: render_band_def split: if_splits)
qed

lemma last_str_join: "xs \<noteq> [] \<Longrightarrow> last xs \<noteq> [] \<Longrightarrow> str_join xs sep \<noteq> [] \<and> last (str_join xs sep) = last (last xs)"
  by (induction xs sep rule: str_join.induct) auto

lemma render_band_last: "render_band b \<noteq> [] \<and> is_digit (last (render_band b))"
  using itoa_digits [of "nat (MaxRunes b)"] by (auto simp: render_band_def list_all_iff)

lemma parseDictLine_quota:
  assumes "bs \<noteq> []"
  shows "parseDictLine (''#S quota: '' @ str_join (map render_band bs) '' '') =
    Some (DimQuota, '' '' @ str_join (map render_band bs) '' '')"
proof -
  let ?c = "str_join (map render_band bs) '' ''"
  have c: "?c \<noteq> []" "is_digit (last ?c)"
    using last_str_join [of "map render_band bs" "'' ''"] render_band_last assms by (auto simp: last_map)
  have d: "byte (last ?c) < 128" "\<not> is_space (byte (last ?c))" using c(2) by (auto simp: is_digit_def is_space_def)
  have t: "trim_space (''#S quota: '' @ ?c) = ''#S quota: '' @ ?c" "trim_space (''S quota: '' @ ?c) = ''S quota: '' @ ?c"
    using c(1) d by (intro trim_space_ends; simp add: is_space_def)+
  have n: "\<forall>x \<in> set (''S quota: '' @ ?c). x \<noteq> CHR 0xEF"
  proof -
    have "x \<noteq> CHR 0xEF" if "x \<in> set ?c" for x using set_str_join [OF that] render_band_bytes by auto
    then show ?thesis by auto
  qed
  have h: "str_index (''S quota: '' @ ?c) '':'' = Some 7" by simp
  have f: "first_colon (''S quota: '' @ ?c) = Some (7, 1)"
    unfolding first_colon_def h ascii_no_wide [OF n] by simp
  have s: "canonicalDimensionName (trim_space (stripParens ''S quota'')) = Some DimQuota" by code_simp
  have p: "trim_prefix (''#S quota: '' @ ?c) ''#'' = ''S quota: '' @ ?c" by (simp add: trim_prefix_def)
  show ?thesis unfolding parseDictLine_def Let_def t(1) p t(2) f using s by simp
qed

text \<open>
  \<^bold>\<open>C33\<close>. The effective contract is a faithful declaration: written as the quota line of a header, the
  text \<open>EffectiveSQuotaContract\<close> renders for any header is read back as a declaration of exactly the
  quotas in effect under that header, for every importance from 1 to 9.
\<close>

theorem EffectiveSQuotaContract_roundtrip:
  assumes "1 \<le> c" and "c \<le> 9"
  shows "quotaForC c (Some (ExtractSQuotaThresholds (''#S quota: '' @ EffectiveSQuotaContract h))) =
    (fst (quotaForC c (Some (ExtractSQuotaThresholds h))), True)"
proof -
  define f where "f = (\<lambda>c. fst (quotaForC c (Some (ExtractSQuotaThresholds h))))"
  define bs where "bs = foldl (add_band f) [] (rev [1..9])"
  have b: "bands_from f 1 bs" unfolding bs_def by (rule effective_bands) (simp add: f_def quotaForC_bounds)
  then have ne: "bs \<noteq> []" unfolding bands_from_def by fastforce
  have e: "EffectiveSQuotaContract h = str_join (map render_band bs) '' ''"
    by (simp add: EffectiveSQuotaContract_def bs_def f_def)
  let ?L = "''#S quota: '' @ str_join (map render_band bs) '' ''"
  have "LF \<notin> set ?L" using set_str_join [of LF "map render_band bs" "'' ''"] render_band_bytes by auto
  then have l: "str_split ?L [LF] = [?L]" by (rule str_split_char_single)
  have w: "Go_Strings.fields ('' '' @ str_join (map render_band bs) '' '') = map render_band bs"
    using fields_join_words [of "map render_band bs"] field_word_band by simp
  let ?qs = "foldl quota_word [] (map render_band bs)"
  have x: "quotas (ExtractSQuotaThresholds ?L) = ?qs"
    unfolding ExtractSQuotaThresholds_def l
    by (simp only: foldl.simps quota_line_def parseDictLine_quota [OF ne] w option.case prod.case dimension.case SQuotaThresholds.select_convs)
  have ok: "\<forall>b \<in> set bs. band_ok f b" and cov: "\<exists>b \<in> set bs. MinC b \<le> c \<and> c \<le> MaxC b"
    using b assms by (auto simp: bands_from_def)
  have "map_of ?qs c = Some (f c)"
    using quota_words_bands [OF ok, of "[]"] cov by force
  then show ?thesis unfolding e quotaForC_table x by (simp add: f_def quotaForC_table)
qed

theorem EffectiveSQuotaContract_roundtrip_witness:
  "quotaForC 7 (Some (ExtractSQuotaThresholds (''#S quota: '' @ EffectiveSQuotaContract ''#S quota: C7<90''))) = (89, True)"
proof -
  have "fst (quotaForC 7 (Some (ExtractSQuotaThresholds ''#S quota: C7<90''))) = 89" by code_simp
  then show ?thesis using EffectiveSQuotaContract_roundtrip [of 7 "''#S quota: C7<90''"] by simp
qed

section \<open>The importance of a tag\<close>

lemma c_of_runes_first: "c_of_runes rs = (case first_digit rs of None \<Rightarrow> 0 | Some d \<Rightarrow> int (rs ! d - 48))"
  by (induction rs) (auto simp: digit_rune_def split: option.splits)

lemma c_of_runes_skip: "\<forall>r \<in> set ps. is_space r \<Longrightarrow> c_of_runes (ps @ rs) = c_of_runes rs"
  by (induction ps) (auto simp: is_space_def)

lemma c_of_runes_append: "first_digit rs = Some d \<Longrightarrow> c_of_runes (rs @ qs) = int (rs ! d - 48)"
proof (induction rs arbitrary: d)
  case (Cons r rs)
  then show ?case by (auto simp: digit_rune_def split: if_splits)
qed simp

lemma extractCFromTags_trim:
  assumes "first_digit (runes (trim_space raw)) = Some d"
  shows "extractCFromTags raw = int (runes (trim_space raw) ! d - 48)"
proof -
  let ?m = "dropWhile is_space (runes raw)"
  obtain v where v: "?m = runes (trim_space raw) @ v"
    using dropWhile_rev_prefix [of ?m is_space] unfolding runes_trim_space by blast
  have "runes raw = takeWhile is_space (runes raw) @ ?m" by simp
  moreover have "\<forall>r \<in> set (takeWhile is_space (runes raw)). is_space r" using set_takeWhileD by fast
  ultimately have "extractCFromTags raw = c_of_runes ?m" unfolding extractCFromTags_def using c_of_runes_skip by metis
  then show ?thesis unfolding v using c_of_runes_append [OF assms] by simp
qed

text \<open>
  The quota gate reads the importance without the tag parser, and the two agree: whenever
  \<open>ParseTags\<close> accepts a compact tag, its importance is one digit character and \<open>extractCFromTags\<close>
  returns the value of that digit.
\<close>

theorem extractCFromTags_agrees:
  assumes "ParseTags raw \<noteq> Map.empty" and "\<not> str_contains (trim_space raw) ''.''"
  shows "\<exists>r. digit_rune r \<and> ParseTags raw AxC = Some (of_runes [r]) \<and> extractCFromTags raw = int (r - 48)"
proof -
  have p: "ParseTags raw = parseCompactTags (trim_space raw)"
    using assms by (auto simp: ParseTags_def Let_def split: if_splits)
  then obtain d where d: "first_digit (runes (trim_space raw)) = Some d"
    "parseCompactTags (trim_space raw) AxC = Some (of_runes [runes (trim_space raw) ! d])"
    using assms(1) parseCompactTags_parts [of "trim_space raw"] by metis
  then show ?thesis using extractCFromTags_trim [OF d(1)] first_digit_Some [OF d(1)] p by auto
qed

theorem extractCFromTags_agrees_witness: "extractCFromTags ''CIx9pL'' = 9"
proof -
  have n: "ParseTags ''CIx9pL'' AxC = Some ''9''" by code_simp
  then have ne: "ParseTags ''CIx9pL'' \<noteq> Map.empty" by (metis option.distinct(1))
  have dot: "\<not> str_contains (trim_space ''CIx9pL'') ''.''" by code_simp
  obtain r where r: "digit_rune r" "Some ''9'' = Some (of_runes [r])" "extractCFromTags ''CIx9pL'' = int (r - 48)"
    using extractCFromTags_agrees [OF ne dot] n by auto
  have "runes (of_runes [r]) = [r]" using r(1) by (intro runes_of_runes) (simp add: digit_rune_def valid_rune_def)
  then have "runes ''9'' = [r]" using r(2) by simp
  moreover have "runes ''9'' = [57]" by code_simp
  ultimately show ?thesis using r(3) by simp
qed

end
