(* ===== verification/Index_Validator.thy ===== *)
theory Index_Validator
  imports Index_Quota Index_Parser
begin

text \<open>
  The entry gates in front of every write (\<open>internal/index/validator.go\<close>, \<open>validator_tagparse.go\<close>,
  \<open>relations.go\<close>) and the vocabulary they read (\<open>internal/machinecontract/lexical.go\<close>). A violation's
  message is a constructor of \<open>vmsg\<close> with the interpolated values; its Chinese wording is not
  reproduced, except that classifying messages by their wording becomes matching the constructor.
\<close>

section \<open>Input cleaning\<close>

definition HasError :: "Violation list \<Rightarrow> bool" where
  "HasError vs \<longleftrightarrow> list_ex (\<lambda>v. Level v = LevelError) vs"

definition blank :: "string \<Rightarrow> bool" where
  "blank l \<longleftrightarrow> trim_space l = []"

definition fence_line :: "string \<Rightarrow> bool" where
  "fence_line l \<longleftrightarrow> has_prefix (trim_space l) [CHR 0x60, CHR 0x60, CHR 0x60]"

definition StripFences :: "string \<Rightarrow> string" where
  "StripFences raw =
     (let ls = str_split (fold_crlf raw) [LF];
          ls = rev (dropWhile blank (rev (dropWhile blank ls)));
          ls = (if ls \<noteq> [] \<and> fence_line (hd ls) then tl ls else ls);
          ls = (if ls \<noteq> [] \<and> fence_line (last ls) then butlast ls else ls)
      in trim_space (str_join ls [LF]))"

section \<open>The format gate\<close>

text \<open>The terms as UTF-8 bytes.\<close>

definition EvolutionNarrativeTerms :: "string list" where
  "EvolutionNarrativeTerms =
    [[CHR 0xE6, CHR 0x9C, CHR 0xAC, CHR 0xE6, CHR 0xAC, CHR 0xA1, CHR 0xE4, CHR 0xBF, CHR 0xAE, CHR 0xE6, CHR 0x94, CHR 0xB9],
     [CHR 0xE6, CHR 0x9C, CHR 0xAC, CHR 0xE6, CHR 0xAC, CHR 0xA1, CHR 0xE6, CHR 0x96, CHR 0xB0, CHR 0xE5, CHR 0xA2, CHR 0x9E],
     [CHR 0xE6, CHR 0x9C, CHR 0xAC, CHR 0xE6, CHR 0xAC, CHR 0xA1, CHR 0xE8, CHR 0xB0, CHR 0x83, CHR 0xE6, CHR 0x95, CHR 0xB4],
     [CHR 0xE6, CHR 0x94, CHR 0xB9, CHR 0xE4, CHR 0xB8, CHR 0xBA],
     [CHR 0xE6, CHR 0x96, CHR 0xB0, CHR 0xE5, CHR 0xA2, CHR 0x9E, CHR 0xE4, CHR 0xBA, CHR 0x86],
     [CHR 0xE4, CHR 0xBF, CHR 0xAE, CHR 0xE5, CHR 0xA4, CHR 0x8D, CHR 0xE4, CHR 0xBA, CHR 0x86],
     [CHR 0xE7, CHR 0x8E, CHR 0xB0, CHR 0xE5, CHR 0x9C, CHR 0xA8, CHR 0xE6, CHR 0x94, CHR 0xB9],
     [CHR 0xE5, CHR 0x8E, CHR 0x9F, CHR 0xE6, CHR 0x9D, CHR 0xA5, CHR 0xE6, CHR 0x98, CHR 0xAF],
     [CHR 0xE6, CHR 0xAD, CHR 0xA4, CHR 0xE5, CHR 0x89, CHR 0x8D, CHR 0xE6, CHR 0x98, CHR 0xAF],
     [CHR 0xE4, CHR 0xB9, CHR 0x8B, CHR 0xE5, CHR 0x89, CHR 0x8D, CHR 0xE6, CHR 0x98, CHR 0xAF]]"

definition body_segments :: "string \<Rightarrow> string list" where
  "body_segments rest = map trim_space (str_split rest '' | '')"

definition part_count :: "string \<Rightarrow> string \<Rightarrow> nat" where
  "part_count label rest = length (filter (\<lambda>seg. has_prefix seg label) (body_segments rest))"

definition has_s_part :: "string \<Rightarrow> bool" where
  "has_s_part rest \<longleftrightarrow> list_ex (\<lambda>seg. has_prefix seg ''S:'' \<or> regexpSVariant seg) (body_segments rest)"

definition missing_parts :: "string \<Rightarrow> string list" where
  "missing_parts rest =
     (if part_count ''F:'' rest = 0 then [''F''] else []) @
     (if part_count ''R:'' rest = 0 then [''R''] else []) @
     (if part_count ''A:'' rest = 0 then [''A''] else []) @
     (if \<not> has_s_part rest then [''S''] else [])"

definition repeated_parts :: "string \<Rightarrow> (string \<times> nat) list" where
  "repeated_parts rest =
     filter (\<lambda>(_, n). 1 < n)
       [(''F'', part_count ''F:'' rest), (''R'', part_count ''R:'' rest), (''A'', part_count ''A:'' rest)]"

definition want_base :: "string \<Rightarrow> string" where
  "want_base relPath = path_base (trim_suffix (replace_all relPath [CHR 0x5C] ''/'') ''/'')"

definition ValidateEntryLineWith :: "string \<Rightarrow> string \<Rightarrow> SQuotaThresholds option \<Rightarrow> Violation list" where
  "ValidateEntryLineWith relPath line th =
     (if str_contains line [LF] then [\<lparr>Level = LevelError, Msg = MsgMultiLine\<rparr>]
      else if blank line then [\<lparr>Level = LevelError, Msg = MsgEmpty\<rparr>]
      else case matchEntryLine line of
        None \<Rightarrow> [\<lparr>Level = LevelError, Msg = MsgStructure\<rparr>]
      | Some (m1, m2, rest) \<Rightarrow>
          let wantBase = want_base relPath;
              gotBase = path_base (trim_suffix (trim_space m1) ''/'');
              tagsRaw = trim_space m2
          in
            (if wantBase \<noteq> gotBase then [\<lparr>Level = LevelError, Msg = MsgFilename gotBase wantBase\<rparr>] else []) @
            (if no_tags (ParseTags tagsRaw) then [\<lparr>Level = LevelWarning, Msg = MsgTagUnparseable tagsRaw\<rparr>] else []) @
            (if missing_parts rest \<noteq> [] then [\<lparr>Level = LevelError, Msg = MsgMissing (missing_parts rest)\<rparr>] else []) @
            (if repeated_parts rest \<noteq> [] then [\<lparr>Level = LevelError, Msg = MsgRepeated (repeated_parts rest)\<rparr>] else []) @
            (case find (str_contains line) EvolutionNarrativeTerms of
               Some w \<Rightarrow> [\<lparr>Level = LevelWarning, Msg = MsgNarrative w\<rparr>]
             | None \<Rightarrow> []) @
            (case CheckSQuotaWith line th of Some v \<Rightarrow> [v] | None \<Rightarrow> []))"

definition ValidateEntryLine :: "string \<Rightarrow> string \<Rightarrow> Violation list" where
  "ValidateEntryLine relPath line = ValidateEntryLineWith relPath line None"

definition HasTagParseWarning :: "Violation list \<Rightarrow> bool" where
  "HasTagParseWarning vs \<longleftrightarrow>
     list_ex (\<lambda>v. Level v = LevelWarning \<and> (case Msg v of MsgTagUnparseable _ \<Rightarrow> True | _ \<Rightarrow> False)) vs"

section \<open>The relation gate\<close>

definition relationWarning :: "vmsg \<Rightarrow> Violation" where
  "relationWarning m = \<lparr>Level = LevelWarning, Msg = m\<rparr>"

abbreviation wide_comma :: string where
  "wide_comma \<equiv> [CHR 0xEF, CHR 0xBC, CHR 0x8C]"

definition maxRelationTargetsToReport :: nat where
  "maxRelationTargetsToReport = 64"

definition relation_target_hints :: "nat \<times> string \<Rightarrow> Violation list" where
  "relation_target_hints p =
     (case p of (position, rawTarget) \<Rightarrow>
      let target = trim_space rawTarget in
      if target = [] then [relationWarning (MsgREmptyItem (position + 1))]
      else if target = ''-'' then [relationWarning MsgRPlaceholder]
      else [])"

text \<open>The arguments \<open>repoRoot\<close> and \<open>relPath\<close> of the source are not used by it.\<close>

definition ValidateEntryRelations :: "string \<Rightarrow> Violation list" where
  "ValidateEntryRelations line =
     (case matchEntryLine line of
        None \<Rightarrow> []
      | Some (_, _, rest) \<Rightarrow>
          let relationText = trim_space (fst (snd (splitFRAS rest))) in
          if relationText = [] then [relationWarning MsgREmpty]
          else if relationText = ''-'' then []
          else
            let wide = str_contains relationText wide_comma;
                rawTargets = str_split (if wide then replace_all relationText wide_comma '','' else relationText) '','';
                many = maxRelationTargetsToReport < length rawTargets;
                checkTargets = (if many then take maxRelationTargetsToReport rawTargets else rawTargets)
            in (if wide then [relationWarning MsgRWideComma] else []) @
               (if many then [relationWarning (MsgRTooMany (length rawTargets))] else []) @
               concat (map relation_target_hints (ranged checkTargets)))"

section \<open>What the gates accept\<close>

lemma CheckSQuotaWith_warning: "CheckSQuotaWith line th = Some v \<Longrightarrow> Level v = LevelWarning"
  by (auto simp: CheckSQuotaWith_def Let_def split: option.splits prod.splits if_splits)

lemma missing_parts_Nil:
  "missing_parts rest = [] \<longleftrightarrow> 0 < part_count ''F:'' rest \<and> 0 < part_count ''R:'' rest \<and> 0 < part_count ''A:'' rest \<and> has_s_part rest"
  by (simp add: missing_parts_def)

lemma repeated_parts_Nil:
  "repeated_parts rest = [] \<longleftrightarrow> part_count ''F:'' rest \<le> 1 \<and> part_count ''R:'' rest \<le> 1 \<and> part_count ''A:'' rest \<le> 1"
  by (auto simp: repeated_parts_def)

lemma no_error_iff:
  "\<not> HasError (ValidateEntryLineWith relPath line th) \<longleftrightarrow>
     LF \<notin> set line \<and> \<not> blank line \<and>
     (\<exists>n t rest. matchEntryLine line = Some (n, t, rest) \<and> path_base (trim_suffix (trim_space n) ''/'') = want_base relPath \<and>
        part_count ''F:'' rest = 1 \<and> part_count ''R:'' rest = 1 \<and> part_count ''A:'' rest = 1 \<and> has_s_part rest)"
proof (cases "LF \<in> set line \<or> blank line \<or> matchEntryLine line = None")
  case True
  then show ?thesis by (auto simp: ValidateEntryLineWith_def HasError_def str_contains_char)
next
  case False
  then obtain n t rest where m: "matchEntryLine line = Some (n, t, rest)" by (cases "matchEntryLine line") auto
  have q: "\<not> HasError (case CheckSQuotaWith line th of Some v \<Rightarrow> [v] | None \<Rightarrow> [])"
    using CheckSQuotaWith_warning [of line th] by (auto simp: HasError_def split: option.splits)
  have w: "\<not> HasError (case find (str_contains line) EvolutionNarrativeTerms of
      Some w \<Rightarrow> [\<lparr>Level = LevelWarning, Msg = MsgNarrative w\<rparr>] | None \<Rightarrow> [])"
    by (auto simp: HasError_def split: option.splits)
  have app: "HasError (xs @ ys) \<longleftrightarrow> HasError xs \<or> HasError ys" for xs ys by (simp add: HasError_def)
  have "\<not> HasError (ValidateEntryLineWith relPath line th) \<longleftrightarrow>
      path_base (trim_suffix (trim_space n) ''/'') = want_base relPath \<and> missing_parts rest = [] \<and> repeated_parts rest = []"
    using False m q w by (auto simp: ValidateEntryLineWith_def Let_def str_contains_char app) (auto simp: HasError_def)
  then show ?thesis using False m by (auto simp: missing_parts_Nil repeated_parts_Nil)
qed

end
