(* ===== verification/Index_Validator_Laws.thy ===== *)
theory Index_Validator_Laws
  imports Index_Validator
begin

text \<open>
  The properties of the entry gates: exactly which lines pass the format gate, that a passing line is
  read back by the parser without losing a part, that rendered Entries pass, that fences around an
  Entry are removed and nothing else, and that relation hints are bounded and never refuse.
\<close>

section \<open>Parts and parser fields\<close>

text \<open>The last part of a label decides the parser's field.\<close>

definition last_part :: "string \<Rightarrow> string \<Rightarrow> string list \<Rightarrow> string" where
  "last_part label old segs =
     (case filter (\<lambda>s. has_prefix s label) (map trim_space segs) of [] \<Rightarrow> old | xs \<Rightarrow> trim_space (drop 2 (last xs)))"

lemma last_part_Nil [simp]: "last_part l old [] = old"
  by (simp add: last_part_def)

lemma last_part_Cons:
  "last_part l old (seg # segs) =
     last_part l (if has_prefix (trim_space seg) l then trim_space (drop 2 (trim_space seg)) else old) segs"
  by (auto simp: last_part_def split: list.splits)

lemma fras_fold:
  "frasF (foldl splitFRAS_step st segs) = last_part ''F:'' (frasF st) segs \<and>
   frasR (foldl splitFRAS_step st segs) = last_part ''R:'' (frasR st) segs \<and>
   frasApi (foldl splitFRAS_step st segs) = last_part ''A:'' (frasApi st) segs"
proof (induction segs arbitrary: st)
  case (Cons seg segs)
  have disj: "\<not> (has_prefix s (a # u) \<and> has_prefix s (b # v))" if "a \<noteq> b" for s a b u v
    using that by (cases s) auto
  have "frasF (splitFRAS_step st seg) = (if has_prefix (trim_space seg) ''F:'' then trim_space (drop 2 (trim_space seg)) else frasF st)"
    "frasR (splitFRAS_step st seg) = (if has_prefix (trim_space seg) ''R:'' then trim_space (drop 2 (trim_space seg)) else frasR st)"
    "frasApi (splitFRAS_step st seg) = (if has_prefix (trim_space seg) ''A:'' then trim_space (drop 2 (trim_space seg)) else frasApi st)"
    using disj [of "CHR ''F''" "CHR ''R''" "trim_space seg" "'':''" "'':''"] disj [of "CHR ''F''" "CHR ''A''" "trim_space seg" "'':''" "'':''"]
      disj [of "CHR ''R''" "CHR ''A''" "trim_space seg" "'':''" "'':''"]
    by (auto simp: splitFRAS_step_def Let_def)
  then show ?case using Cons [of "splitFRAS_step st seg"] by (simp add: last_part_Cons)
qed simp

definition parts :: "string \<Rightarrow> string \<Rightarrow> string list" where
  "parts label rest = map (\<lambda>seg. trim_space (drop (length label) seg)) (filter (\<lambda>seg. has_prefix seg label) (body_segments rest))"

lemma length_parts: "length (parts label rest) = part_count label rest"
  by (simp add: parts_def part_count_def)

lemma splitFRAS_unique:
  assumes "splitFRAS rest = (f, r, a, s)"
  shows "part_count ''F:'' rest = 1 \<Longrightarrow> parts ''F:'' rest = [f]"
    and "part_count ''R:'' rest = 1 \<Longrightarrow> parts ''R:'' rest = [r]"
    and "part_count ''A:'' rest = 1 \<Longrightarrow> parts ''A:'' rest = [a]"
proof -
  let ?e = "\<lparr>frasF = [], frasR = [], frasApi = [], frasS = []\<rparr>" and ?segs = "str_split rest '' | ''"
  have one: "parts l rest = [last_part l [] ?segs]" if pc: "part_count l rest = 1" and ll: "length l = 2" for l
  proof -
    obtain x where "filter (\<lambda>s. has_prefix s l) (body_segments rest) = [x]"
      using pc unfolding part_count_def by (cases "filter (\<lambda>s. has_prefix s l) (body_segments rest)") auto
    then show ?thesis using ll by (simp add: parts_def body_segments_def last_part_def)
  qed
  have "f = last_part ''F:'' [] ?segs" "r = last_part ''R:'' [] ?segs" "a = last_part ''A:'' [] ?segs"
    using assms fras_fold [of ?e ?segs] by (simp_all add: splitFRAS_def Let_def)
  then show "part_count ''F:'' rest = 1 \<Longrightarrow> parts ''F:'' rest = [f]" "part_count ''R:'' rest = 1 \<Longrightarrow> parts ''R:'' rest = [r]"
    "part_count ''A:'' rest = 1 \<Longrightarrow> parts ''A:'' rest = [a]"
    using one by simp_all
qed

text \<open>
  \<^bold>\<open>C40\<close>. The format gate is exact and keeps what it accepts: a line passes without an error exactly when it
  is one non-blank line of Entry shape whose name ends like the target path, with one F, one R and
  one A part and at least one S part; and every passing line (not ending in a carriage return) is
  parsed into an Entry whose F, R and A fields are the contents of these single parts.
\<close>

theorem ValidateEntryLine_exact:
  "(\<not> HasError (ValidateEntryLineWith relPath line th) \<longleftrightarrow>
     LF \<notin> set line \<and> \<not> blank line \<and>
     (\<exists>n t rest. matchEntryLine line = Some (n, t, rest) \<and> path_base (trim_suffix (trim_space n) ''/'') = want_base relPath \<and>
        part_count ''F:'' rest = 1 \<and> part_count ''R:'' rest = 1 \<and> part_count ''A:'' rest = 1 \<and> has_s_part rest)) \<and>
   (\<not> HasError (ValidateEntryLineWith relPath line th) \<and> \<not> has_suffix line [CR] \<longrightarrow>
     (\<exists>e n t rest. ParseEntryLine line k = Some e \<and> matchEntryLine line = Some (n, t, rest) \<and>
        path_base (trim_suffix (Filename e) ''/'') = want_base relPath \<and>
        parts ''F:'' rest = [FieldF e] \<and> parts ''R:'' rest = [FieldR e] \<and> parts ''A:'' rest = [FieldApi e]))"
proof (intro conjI impI)
  show iff: "\<not> HasError (ValidateEntryLineWith relPath line th) \<longleftrightarrow>
     LF \<notin> set line \<and> \<not> blank line \<and>
     (\<exists>n t rest. matchEntryLine line = Some (n, t, rest) \<and> path_base (trim_suffix (trim_space n) ''/'') = want_base relPath \<and>
        part_count ''F:'' rest = 1 \<and> part_count ''R:'' rest = 1 \<and> part_count ''A:'' rest = 1 \<and> has_s_part rest)"
    by (rule no_error_iff)
  assume ok: "\<not> HasError (ValidateEntryLineWith relPath line th) \<and> \<not> has_suffix line [CR]"
  then obtain n t rest where m: "matchEntryLine line = Some (n, t, rest)"
    and b: "path_base (trim_suffix (trim_space n) ''/'') = want_base relPath"
    and c: "part_count ''F:'' rest = 1" "part_count ''R:'' rest = 1" "part_count ''A:'' rest = 1"
    and lf: "LF \<notin> set line" using iff by blast
  have "\<not> has_suffix line [LF]" using lf by (auto simp: has_suffix_iff)
  then have p: "ParseEntryLine line k = Some (entry_of_match line k (n, t, rest))"
    using ok m by (simp add: ParseEntryLine_def trim_suffix_def)
  obtain f r a s where f: "splitFRAS rest = (f, r, a, s)" by (metis prod_cases4)
  show "\<exists>e n t rest. ParseEntryLine line k = Some e \<and> matchEntryLine line = Some (n, t, rest) \<and>
        path_base (trim_suffix (Filename e) ''/'') = want_base relPath \<and>
        parts ''F:'' rest = [FieldF e] \<and> parts ''R:'' rest = [FieldR e] \<and> parts ''A:'' rest = [FieldApi e]"
    using p m b splitFRAS_unique [OF f] c by (simp add: entry_of_match_def f)
qed

definition sample_line :: string where
  "sample_line = ''a.go[CIx9L]: F:x | R:b.go | A:- | S:-''"

theorem ValidateEntryLine_exact_witness:
  "\<not> HasError (ValidateEntryLineWith ''d/a.go'' sample_line None) \<and>
   (\<exists>e rest. ParseEntryLine sample_line 1 = Some e \<and> parts ''R:'' rest = [FieldR e])"
proof -
  have v: "\<not> HasError (ValidateEntryLineWith ''d/a.go'' sample_line None)" by code_simp
  have c: "\<not> has_suffix sample_line [CR]" by code_simp
  show ?thesis using ValidateEntryLine_exact [of "''d/a.go''" sample_line None 1] v c by blast
qed

lemma not_space_bracket: "\<not> is_space 91"
  by (simp add: is_space_def)

text \<open>
  What the tools write, the gate accepts: the line rendered from clean parts passes the format gate
  for every path whose last segment is the name, whatever the quota table, so the only possible
  findings about it are warnings.
\<close>

theorem rendered_entry_accepted:
  assumes "clean_name n" and "CHR '']'' \<notin> set t" and "LF \<notin> set t" and "\<forall>v \<in> set [f, r, a, s]. clean_field v"
    and "path_base (trim_suffix n ''/'') = want_base relPath"
  shows "\<not> HasError (ValidateEntryLineWith relPath (render_entry n t f r a s) th)"
proof -
  let ?b = "''F:'' @ f @ '' | R:'' @ r @ '' | A:'' @ a @ '' | S:'' @ s"
  have cf: "clean_field f" "clean_field r" "clean_field a" "clean_field s" using assms(4) by simp_all
  have m: "matchEntryLine (render_entry n t f r a s) = Some (n, t, ?b)" by (rule matchEntryLine_render [OF assms(1,2) cf])
  have nt: "trim_space n = n" using assms(1) by (simp add: clean_name_def)
  have sp: "body_segments ?b = [''F:'' @ f, ''R:'' @ r, ''A:'' @ a, ''S:'' @ s]"
    unfolding body_segments_def split_four_parts [OF cf] using cf by (simp add: trim_space_part)
  have parts: "part_count ''F:'' ?b = 1" "part_count ''R:'' ?b = 1" "part_count ''A:'' ?b = 1" "has_s_part ?b"
    unfolding part_count_def has_s_part_def sp by simp_all
  have lf: "LF \<notin> set (render_entry n t f r a s)"
    using assms(1,3) cf by (auto simp: render_entry_def clean_name_def clean_field_def)
  have "runes (n @ CHR ''['' # u) = runes n @ 91 # runes u" for u
    using runes_append [of "CHR ''['' # u" n] by (simp add: is_cont_def runes_ascii)
  then have "91 \<in> set (runes (render_entry n t f r a s))" by (simp add: render_entry_def)
  then have "\<not> blank (render_entry n t f r a s)"
    unfolding blank_def trim_space_eq_Nil_iff using not_space_bracket by blast
  then show ?thesis unfolding no_error_iff using m nt parts lf assms(5) by auto
qed

theorem rendered_entry_accepted_witness:
  "\<not> HasError (ValidateEntryLineWith ''d/a.go'' (render_entry ''a.go'' ''CIx9L'' ''f'' ''r'' ''a'' ''s'') None)"
proof -
  have "clean_name ''a.go''" by code_simp
  moreover have "CHR '']'' \<notin> set ''CIx9L''" "LF \<notin> set ''CIx9L''" by simp_all
  moreover have "\<forall>v \<in> set [''f'', ''r'', ''a'', ''s'']. clean_field v" by code_simp
  moreover have "path_base (trim_suffix ''a.go'' ''/'') = want_base ''d/a.go''" by code_simp
  ultimately show ?thesis by (rule rendered_entry_accepted)
qed

section \<open>Fences\<close>

definition fence :: string where
  "fence = [CHR 0x60, CHR 0x60, CHR 0x60]"

lemma fence_prefix: "has_prefix (trim_space (fence @ u)) fence"
proof -
  let ?s = "fence @ u"
  have l: "trim_left_func is_space ?s = ?s"
    by (intro trim_left_func_id) (simp add: fence_def decode_rune_ascii is_space_def)
  obtain v where v: "?s = trim_space ?s @ v" unfolding trim_space_def l using trim_right_func_prefix by blast
  have r: "runes ?s = [96, 96, 96] @ runes u" by (simp add: fence_def runes_ascii)
  have d: "dropWhile is_space ([96, 96, 96] @ runes u) = [96, 96, 96] @ runes u" by (simp add: is_space_def)
  have "\<exists>w. rev (dropWhile is_space (rev ([96, 96, 96] @ rs))) = [96, 96, 96] @ w" for rs
  proof (cases "\<forall>x \<in> set rs. is_space x")
    case True
    then have "dropWhile is_space (rev rs @ [96, 96, 96]) = dropWhile is_space [96, 96, 96]"
      by (intro dropWhile_append2) simp
    then show ?thesis by (simp add: is_space_def)
  next
    case False
    then obtain x where "x \<in> set (rev rs)" "\<not> is_space x" by auto
    then have "dropWhile is_space (rev rs @ [96, 96, 96]) = dropWhile is_space (rev rs) @ [96, 96, 96]"
      by (rule dropWhile_append1)
    then show ?thesis by simp
  qed
  then have "\<exists>w. runes (trim_space ?s) = [96, 96, 96] @ w"
    unfolding runes_trim_space r d by blast
  then have "3 \<le> length (trim_space ?s)" using length_runes_le [of "trim_space ?s"] by auto
  then have "take 3 (trim_space ?s) = take 3 (trim_space ?s @ v)" by simp
  also have "\<dots> = fence" by (subst v [symmetric]) (simp add: fence_def)
  finally show ?thesis unfolding has_prefix_iff by (metis append_take_drop_id)
qed

lemma fence_line_fence: "fence_line (fence @ u)" "\<not> blank (fence @ u)"
  using fence_prefix [of u] unfolding fence_line_def blank_def fence_def by auto

lemma StripFences_lines:
  assumes "\<forall>l \<in> set ls. LF \<notin> set l \<and> CR \<notin> set l" and "ls \<noteq> []"
  shows "str_split (fold_crlf (str_join ls [LF])) [LF] = ls"
proof -
  have "CR \<notin> set (str_join ls [LF])" using assms(1) set_str_join [of CR ls "[LF]"] by auto
  then have "\<not> str_contains (str_join ls [LF]) crlf" unfolding str_contains_iff by auto
  then have "fold_crlf (str_join ls [LF]) = str_join ls [LF]" by (rule fold_crlf_id)
  then show ?thesis using assms str_split_join [of ls LF] by auto
qed

text \<open>
  Cleaning an answer recovers the Entry: a trimmed line that is neither empty nor itself a fence is
  returned unchanged, alone or wrapped in a code fence with any language tag and any blank lines
  around the block.
\<close>

theorem StripFences_unwraps:
  assumes "trim_space line = line" and "line \<noteq> []" and "\<not> fence_line line" and "LF \<notin> set line" and "CR \<notin> set line"
    and "LF \<notin> set lang" and "CR \<notin> set lang" and "\<forall>l \<in> set (before @ after). blank l \<and> LF \<notin> set l \<and> CR \<notin> set l"
  shows "StripFences line = line \<and>
    StripFences (str_join (before @ [fence @ lang, line, fence] @ after) [LF]) = line"
proof -
  have nb: "\<not> blank line" using assms(1,2) by (simp add: blank_def)
  have d: "dropWhile blank (bs @ l # ls) = l # ls" if "\<forall>b \<in> set bs. blank b" "\<not> blank l" for bs l ls
    using that by (simp add: dropWhile_append2)
  have one: "str_split (fold_crlf line) [LF] = [line]" using StripFences_lines [of "[line]"] assms(4,5) by simp
  have a: "StripFences line = line"
    unfolding StripFences_def one Let_def using nb assms(1,3) by simp
  let ?ls = "before @ [fence @ lang, line, fence] @ after"
  have m: "str_split (fold_crlf (str_join ?ls [LF])) [LF] = ?ls"
    by (rule StripFences_lines) (use assms in \<open>auto simp: fence_def\<close>)
  have "dropWhile blank ?ls = [fence @ lang, line, fence] @ after"
    using d [of before "fence @ lang" "[line, fence] @ after"] assms(8) fence_line_fence(2) by simp
  moreover have "dropWhile blank (rev ([fence @ lang, line, fence] @ after)) = [fence, line, fence @ lang]"
    using d [of "rev after" "fence @ []" "[line, fence @ lang]"] assms(8) fence_line_fence(2) [of "[]"] by simp
  ultimately have t: "rev (dropWhile blank (rev (dropWhile blank ?ls))) = [fence @ lang, line, fence]" by simp
  have "StripFences (str_join ?ls [LF]) = line"
    unfolding StripFences_def m Let_def t using fence_line_fence(1) [of lang] fence_line_fence(1) [of "[]"] assms(1) by simp
  then show ?thesis using a by simp
qed

theorem StripFences_unwraps_witness:
  "StripFences (str_join ([[]] @ [fence @ ''text'', ''a.go[CI9L]: x'', fence] @ ['' '']) [LF]) = ''a.go[CI9L]: x''"
proof -
  have a: "trim_space ''a.go[CI9L]: x'' = ''a.go[CI9L]: x''" "''a.go[CI9L]: x'' \<noteq> []" "\<not> fence_line ''a.go[CI9L]: x''"
    "LF \<notin> set ''a.go[CI9L]: x''" "CR \<notin> set ''a.go[CI9L]: x''" "LF \<notin> set ''text''" "CR \<notin> set ''text''" by code_simp+
  have b: "\<forall>l \<in> set ([[]] @ ['' '']). blank l \<and> LF \<notin> set l \<and> CR \<notin> set l" by code_simp
  show ?thesis using StripFences_unwraps [OF a b] by simp
qed

section \<open>Relation hints\<close>

lemma relation_target_hints_short: "length (relation_target_hints p) \<le> 1"
  by (cases p) (auto simp: relation_target_hints_def Let_def)

lemma length_concat_le: "\<forall>x \<in> set xs. length (f x) \<le> 1 \<Longrightarrow> length (concat (map f xs)) \<le> length xs"
  by (induction xs) fastforce+

text \<open>
  The relation gate advises and never refuses, and its output is bounded: whatever the line holds,
  it yields at most 66 findings (64 targets and two general hints), all of them warnings.
\<close>

theorem relation_hints_bounded:
  "length (ValidateEntryRelations line) \<le> 66 \<and> \<not> HasError (ValidateEntryRelations line)"
proof -
  have "Level v = LevelWarning" if "v \<in> set (relation_target_hints p)" for v p
    using that by (cases p) (auto simp: relation_target_hints_def relationWarning_def Let_def split: if_splits)
  then have e: "\<not> HasError (ValidateEntryRelations line)"
    by (auto simp: ValidateEntryRelations_def HasError_def list_ex_iff relationWarning_def Let_def split: option.splits)
  have c: "length (concat (map relation_target_hints (ranged ts))) \<le> length ts" for ts
    using length_concat_le [of "ranged ts" relation_target_hints] relation_target_hints_short by simp
  define k where "k ts = length (concat (map relation_target_hints (ranged (if 64 < length ts then take 64 ts else ts))))" for ts
  have k: "k ts \<le> 64" for ts
    using c [of "if 64 < length ts then take 64 ts else ts"] by (auto simp: k_def split: if_splits)
  have "length (ValidateEntryRelations line) \<le> 66"
  proof (cases "matchEntryLine line")
    case (Some p)
    obtain n t rest where m: "matchEntryLine line = Some (n, t, rest)" using Some by (cases p) simp
    let ?rt = "trim_space (fst (snd (splitFRAS rest)))"
    let ?ts = "str_split (if str_contains ?rt wide_comma then replace_all ?rt wide_comma '','' else ?rt) '',''"
    have "length (ValidateEntryRelations line) \<le> 2 + k ?ts"
      unfolding k_def by (simp add: ValidateEntryRelations_def m maxRelationTargetsToReport_def Let_def)
    then show ?thesis using k [of ?ts] by linarith
  qed (simp add: ValidateEntryRelations_def)
  then show ?thesis using e by simp
qed

text \<open>
  The quota gate's segment rule is stricter than the parser's: an S part behind two spaces is read
  as the S field but not counted, and neither is a variant with two digits.
\<close>

lemma sContentLength_misses:
  "snd (snd (snd (splitFRAS ''F:x | R:- | A:- |  S:long''))) = ''long'' \<and>
   sContentLength ''a.go[CIx9L]: F:x | R:- | A:- |  S:long'' = 0 \<and>
   snd (snd (snd (splitFRAS ''F:x | R:- | A:- | S10:long''))) = ''long'' \<and>
   sContentLength ''a.go[CIx9L]: F:x | R:- | A:- | S10:long'' = 0"
  by code_simp

end
