(* ===== verification/Scope_Glob.thy ===== *)
theory Scope_Glob
  imports Go_Strings
begin

text \<open>
  The glob matcher of Managed Scope (\<open>internal/managedscope/glob.go\<close>) and the regular expression that
  defines its dialect (\<open>buildGlobRegexp\<close> in policy.go). The matcher is a token automaton run over the
  runes of a path; its state set is a boolean array, filled in place with an early exit in the
  closure. Characters are Unicode code points: 42 is the asterisk, 63 the question mark, 91 the
  opening bracket, 47 the slash and 10 the newline.
\<close>

section \<open>Compilation\<close>

datatype globToken = GlobLiteral rune | GlobStar | GlobQMark | GlobAny | GlobAnyDirs

record globProgram =
  tokens :: "globToken list"
  gprefix :: "rune list"
  gsuffix :: "rune list"

datatype glob_error = CharacterClassesNotSupported

text \<open>The scanner loop; \<open>None\<close> is the refusal of a bracket.\<close>

fun glob_tokens :: "rune list \<Rightarrow> globToken list option" where
  "glob_tokens [] = Some []"
| "glob_tokens (r # rs) =
     (if r = 42 then
        (case rs of
           r1 # rs1 \<Rightarrow>
             if r1 = 42 then
               (case rs1 of
                  r2 # rs2 \<Rightarrow>
                    if r2 = 47 then map_option ((#) GlobAnyDirs) (glob_tokens rs2)
                    else map_option ((#) GlobAny) (glob_tokens rs1)
                | [] \<Rightarrow> map_option ((#) GlobAny) (glob_tokens rs1))
             else map_option ((#) GlobStar) (glob_tokens rs)
         | [] \<Rightarrow> map_option ((#) GlobStar) (glob_tokens rs))
      else if r = 63 then map_option ((#) GlobQMark) (glob_tokens rs)
      else if r = 91 then None
      else map_option ((#) (GlobLiteral r)) (glob_tokens rs))"

fun is_literal :: "globToken \<Rightarrow> bool" where
  "is_literal (GlobLiteral _) = True" | "is_literal _ = False"

fun literal_rune :: "globToken \<Rightarrow> rune" where
  "literal_rune (GlobLiteral r) = r" | "literal_rune _ = 0"

definition compileGlobProgram :: "string \<Rightarrow> glob_error + globProgram" where
  "compileGlobProgram pattern =
     (case glob_tokens (runes pattern) of
        None \<Rightarrow> Inl CharacterClassesNotSupported
      | Some ts \<Rightarrow>
          Inr \<lparr>tokens = ts,
               gprefix = map literal_rune (takeWhile is_literal ts),
               gsuffix = (if list_all is_literal ts then []
                          else map literal_rune (rev (takeWhile is_literal (rev ts))))\<rparr>)"

section \<open>Matching\<close>

fun hasRunePrefix :: "string \<Rightarrow> rune list \<Rightarrow> bool" where
  "hasRunePrefix s [] = True"
| "hasRunePrefix s (want # ws) =
     (if s = [] then False
      else let (r, size) = decode_rune s in r = want \<and> hasRunePrefix (drop size s) ws)"

text \<open>The loop runs from the last rune of the suffix, so it takes the suffix reversed.\<close>

fun hasRuneSuffix_rev :: "string \<Rightarrow> rune list \<Rightarrow> bool" where
  "hasRuneSuffix_rev s [] = True"
| "hasRuneSuffix_rev s (want # ws) =
     (if s = [] then False
      else let (r, size) = decode_last_rune s in r = want \<and> hasRuneSuffix_rev (take (length s - size) s) ws)"

definition hasRuneSuffix :: "string \<Rightarrow> rune list \<Rightarrow> bool" where
  "hasRuneSuffix s suf = hasRuneSuffix_rev s (rev suf)"

fun star_like :: "globToken \<Rightarrow> bool" where
  "star_like GlobStar = True" | "star_like GlobAny = True" | "star_like GlobAnyDirs = True" | "star_like _ = False"

text \<open>\<open>closure\<close>: the array has one entry per token and one for acceptance.\<close>

function closure :: "globToken list \<Rightarrow> bool list \<Rightarrow> nat \<Rightarrow> bool list" where
  "closure ts states state =
     (if state < length ts then
        if states ! state then states
        else if star_like (ts ! state) then closure ts (states[state := True]) (Suc state)
        else states[state := True]
      else states[state := True])"
  by pat_completeness auto
termination
  by (relation "measure (\<lambda>(ts, _, state). length ts - state)") auto

declare closure.simps [simp del]

text \<open>One state of the inner loop, for the rune \<open>r\<close>: the array of next states and the flag \<open>alive\<close>.\<close>

definition step_state :: "globToken list \<Rightarrow> rune \<Rightarrow> bool list \<Rightarrow> bool list \<times> bool \<Rightarrow> nat \<Rightarrow> bool list \<times> bool" where
  "step_state ts r current acc state =
     (case acc of (nxt, alive) \<Rightarrow>
      if \<not> current ! state then (nxt, alive)
      else case ts ! state of
             GlobLiteral c \<Rightarrow> if r = c then (closure ts nxt (Suc state), True) else (nxt, alive)
           | GlobQMark \<Rightarrow> if r \<noteq> 47 then (closure ts nxt (Suc state), True) else (nxt, alive)
           | GlobStar \<Rightarrow> if r \<noteq> 47 then (closure ts nxt state, True) else (nxt, alive)
           | GlobAny \<Rightarrow> if r \<noteq> 10 then (closure ts nxt state, True) else (nxt, alive)
           | GlobAnyDirs \<Rightarrow>
               if r \<noteq> 10 then
                 (let n1 = nxt[state := True] in (if r = 47 then closure ts n1 (Suc state) else n1, True))
               else (nxt, alive))"

definition step_rune :: "globToken list \<Rightarrow> rune \<Rightarrow> bool list \<Rightarrow> bool list \<times> bool" where
  "step_rune ts r current =
     foldl (step_state ts r current) (replicate (length ts + 1) False, False) [0..<length ts]"

fun run_runes :: "globToken list \<Rightarrow> bool list \<Rightarrow> rune list \<Rightarrow> bool" where
  "run_runes ts current [] = current ! length ts"
| "run_runes ts current (r # rs) =
     (let (nxt, alive) = step_rune ts r current in
      if \<not> alive then False else run_runes ts nxt rs)"

definition glob_match :: "globProgram \<Rightarrow> string \<Rightarrow> bool" where
  "glob_match p s =
     (if \<not> hasRunePrefix s (gprefix p) \<or> \<not> hasRuneSuffix s (gsuffix p) then False
      else if length (tokens p) = length (gprefix p) then rune_count s = length (gprefix p)
      else run_runes (tokens p) (closure (tokens p) (replicate (length (tokens p) + 1) False) 0) (runes s))"

text \<open>\<open>globMatch\<close>, with the compilation cache left out: it stores the value of this pure function.\<close>

definition globMatch :: "string \<Rightarrow> string \<Rightarrow> glob_error + bool" where
  "globMatch pattern s =
     (case compileGlobProgram pattern of
        Inl e \<Rightarrow> Inl e
      | Inr p \<Rightarrow> Inr (glob_match p s))"

section \<open>The defining regular expression\<close>

text \<open>
  The expressions \<open>buildGlobRegexp\<close> emits, with the languages the regexp syntax gives them: a
  literal, \<open>[^/]*\<close>, \<open>[^/]\<close>, \<open>.*\<close> and \<open>(?:.*/)?\<close>, concatenated between the anchors; the dot excludes the newline.
\<close>

datatype rx = RxLit rune | RxNotSlashStar | RxNotSlash | RxDotStar | RxOptDirs

fun rx_matches :: "rx \<Rightarrow> rune list \<Rightarrow> bool" where
  "rx_matches (RxLit c) u \<longleftrightarrow> u = [c]"
| "rx_matches RxNotSlashStar u \<longleftrightarrow> 47 \<notin> set u"
| "rx_matches RxNotSlash u \<longleftrightarrow> (\<exists>c. u = [c] \<and> c \<noteq> 47)"
| "rx_matches RxDotStar u \<longleftrightarrow> 10 \<notin> set u"
| "rx_matches RxOptDirs u \<longleftrightarrow> u = [] \<or> (\<exists>v. u = v @ [47] \<and> 10 \<notin> set v)"

fun rx_lang :: "rx list \<Rightarrow> rune list set" where
  "rx_lang [] = {[]}"
| "rx_lang (x # xs) = {u @ v | u v. rx_matches x u \<and> v \<in> rx_lang xs}"

fun regexp_of :: "rune list \<Rightarrow> rx list option" where
  "regexp_of [] = Some []"
| "regexp_of (r # rs) =
     (if r = 42 then
        (case rs of
           r1 # rs1 \<Rightarrow>
             if r1 = 42 then
               (case rs1 of
                  r2 # rs2 \<Rightarrow>
                    if r2 = 47 then map_option ((#) RxOptDirs) (regexp_of rs2)
                    else map_option ((#) RxDotStar) (regexp_of rs1)
                | [] \<Rightarrow> map_option ((#) RxDotStar) (regexp_of rs1))
             else map_option ((#) RxNotSlashStar) (regexp_of rs)
         | [] \<Rightarrow> map_option ((#) RxNotSlashStar) (regexp_of rs))
      else if r = 63 then map_option ((#) RxNotSlash) (regexp_of rs)
      else if r = 91 then None
      else map_option ((#) (RxLit r)) (regexp_of rs))"

definition buildGlobRegexp :: "string \<Rightarrow> glob_error + rx list" where
  "buildGlobRegexp pattern =
     (case regexp_of (runes pattern) of
        None \<Rightarrow> Inl CharacterClassesNotSupported
      | Some xs \<Rightarrow> Inr xs)"

end
