(* ===== verification/Scope_Glob_Laws.thy ===== *)
theory Scope_Glob_Laws
  imports Scope_Glob
begin

text \<open>
  The token automaton decides exactly the language of the regular expression that defines the glob
  dialect. The proof goes through an abstract automaton on sets of states: the arrays of the program
  represent these sets, the in-place closure with its early exit computes the epsilon closure
  because states are visited in increasing order, and acceptance from a state is membership in the
  language of the remaining tokens.
\<close>

section \<open>The abstract automaton\<close>

definition eps :: "globToken list \<Rightarrow> nat \<Rightarrow> nat set" where
  "eps ts s = {j. s \<le> j \<and> j \<le> length ts \<and> (\<forall>i. s \<le> i \<and> i < j \<longrightarrow> star_like (ts ! i))}"

definition tgt :: "globToken list \<Rightarrow> rune \<Rightarrow> nat \<Rightarrow> nat set" where
  "tgt ts r i =
     (case ts ! i of
        GlobLiteral c \<Rightarrow> if r = c then eps ts (Suc i) else {}
      | GlobQMark \<Rightarrow> if r \<noteq> 47 then eps ts (Suc i) else {}
      | GlobStar \<Rightarrow> if r \<noteq> 47 then eps ts i else {}
      | GlobAny \<Rightarrow> if r \<noteq> 10 then eps ts i else {}
      | GlobAnyDirs \<Rightarrow> if r \<noteq> 10 then insert i (if r = 47 then eps ts (Suc i) else {}) else {})"

fun run :: "globToken list \<Rightarrow> nat set \<Rightarrow> rune list \<Rightarrow> bool" where
  "run ts S [] \<longleftrightarrow> length ts \<in> S"
| "run ts S (r # rs) \<longleftrightarrow> run ts (\<Union>i \<in> S \<inter> {..<length ts}. tgt ts r i) rs"

lemma eps_self: "s \<le> length ts \<Longrightarrow> s \<in> eps ts s"
  by (auto simp: eps_def)

lemma eps_trans: "j \<in> eps ts s \<Longrightarrow> eps ts j \<subseteq> eps ts s"
  unfolding eps_def by (auto, metis not_le)

lemma eps_stop: "s < length ts \<Longrightarrow> \<not> star_like (ts ! s) \<Longrightarrow> eps ts s = {s}"
  by (auto simp: eps_def order_le_less)

lemma eps_step: "s < length ts \<Longrightarrow> star_like (ts ! s) \<Longrightarrow> eps ts s = insert s (eps ts (Suc s))"
  unfolding eps_def by (auto simp: Suc_le_eq order_le_less) (metis le_neq_implies_less less_Suc_eq_le not_less_eq)+

lemma eps_end: "eps ts (length ts) = {length ts}"
  by (auto simp: eps_def)

lemma run_union: "run ts (\<Union>S) w \<longleftrightarrow> (\<exists>s \<in> S. run ts s w)"
proof (induction w arbitrary: S)
  case (Cons r w)
  have "(\<Union>i \<in> \<Union>S \<inter> {..<length ts}. tgt ts r i) = \<Union>((\<lambda>s. \<Union>i \<in> s \<inter> {..<length ts}. tgt ts r i) ` S)" by auto
  then show ?case using Cons [of "(\<lambda>s. \<Union>i \<in> s \<inter> {..<length ts}. tgt ts r i) ` S"] by auto
qed simp

lemma run_empty: "\<not> run ts {} w"
  using run_union [of ts "{}" w] by simp

lemma run_insert: "run ts (insert i S) w \<longleftrightarrow> run ts {i} w \<or> run ts S w"
  using run_union [of ts "{{i}, S}" w] by auto

lemma run_un: "run ts (S \<union> T) w \<longleftrightarrow> run ts S w \<or> run ts T w"
  using run_union [of ts "{S, T}" w] by auto

lemma run_single:
  "i < length ts \<Longrightarrow> run ts {i} w \<longleftrightarrow> (\<exists>r rs. w = r # rs \<and> run ts (tgt ts r i) rs)"
  by (cases w) auto

lemma run_end: "run ts {length ts} w \<longleftrightarrow> w = []"
  by (cases w) (auto simp: run_empty)

section \<open>Acceptance is membership in the language\<close>

fun rx_of :: "globToken \<Rightarrow> rx" where
  "rx_of (GlobLiteral c) = RxLit c" | "rx_of GlobStar = RxNotSlashStar" | "rx_of GlobQMark = RxNotSlash"
| "rx_of GlobAny = RxDotStar" | "rx_of GlobAnyDirs = RxOptDirs"

abbreviation lang :: "globToken list \<Rightarrow> rune list set" where
  "lang ts \<equiv> rx_lang (map rx_of ts)"

lemma regexp_of_tokens: "regexp_of rs = map_option (map rx_of) (glob_tokens rs)"
  by (induction rs rule: glob_tokens.induct)
    (auto split: list.splits option.splits simp: option.map_comp comp_def)

lemma ex_append_Cons:
  "(\<exists>u v. r # w = u @ v \<and> Q u v) \<longleftrightarrow> Q [] (r # w) \<or> (\<exists>u v. w = u @ v \<and> Q (r # u) v)"
proof
  assume "\<exists>u v. r # w = u @ v \<and> Q u v"
  then obtain u v where "r # w = u @ v" "Q u v" by blast
  then show "Q [] (r # w) \<or> (\<exists>u v. w = u @ v \<and> Q (r # u) v)" by (cases u) auto
next
  assume "Q [] (r # w) \<or> (\<exists>u v. w = u @ v \<and> Q (r # u) v)"
  then show "\<exists>u v. r # w = u @ v \<and> Q u v" by (metis append_Nil append_Cons)
qed

text \<open>A run of accepted runes followed by the rest: the loop of a star-like state.\<close>

lemma star_loop:
  assumes "\<And>r w. A (r # w) \<longleftrightarrow> P r \<and> (A w \<or> B w)" and "\<not> A []"
  shows "A w \<or> B w \<longleftrightarrow> (\<exists>u v. w = u @ v \<and> (\<forall>r \<in> set u. P r) \<and> B v)"
proof (induction w)
  case (Cons r w)
  have "(\<exists>u v. r # w = u @ v \<and> (\<forall>r \<in> set u. P r) \<and> B v) \<longleftrightarrow>
      B (r # w) \<or> (P r \<and> (\<exists>u v. w = u @ v \<and> (\<forall>r \<in> set u. P r) \<and> B v))"
    unfolding ex_append_Cons [of r w "\<lambda>u v. (\<forall>r \<in> set u. P r) \<and> B v"] list.set ball_simps by blast
  then show ?case unfolding assms(1) Cons.IH by argo
qed (use assms in auto)

lemma dirs_loop:
  assumes "\<And>r w. A (r # w) \<longleftrightarrow> r \<noteq> (10 :: rune) \<and> (A w \<or> (r = 47 \<and> B w))" and "\<not> A []"
  shows "A w \<longleftrightarrow> (\<exists>v t. w = v @ 47 # t \<and> 10 \<notin> set v \<and> B t)"
proof (induction w)
  case (Cons r w)
  have "(\<exists>v t. r # w = v @ 47 # t \<and> 10 \<notin> set v \<and> B t) \<longleftrightarrow>
      (r = 47 \<and> B w) \<or> (r \<noteq> 10 \<and> (\<exists>v t. w = v @ 47 # t \<and> 10 \<notin> set v \<and> B t))"
  proof -
    let ?Q = "\<lambda>u v. \<exists>t. v = 47 # t \<and> 10 \<notin> set u \<and> B t"
    have q: "(\<exists>v t. x = v @ 47 # t \<and> 10 \<notin> set v \<and> B t) \<longleftrightarrow> (\<exists>u v. x = u @ v \<and> ?Q u v)" for x by blast
    show ?thesis unfolding q ex_append_Cons [of r w ?Q] by (simp only: list.set list.inject insert_iff empty_iff) blast
  qed
  moreover have "r = 47 \<longrightarrow> r \<noteq> 10" by simp
  ultimately show ?case unfolding assms(1) Cons.IH by argo
qed (use assms in auto)

lemma run_eps_lang: "i \<le> length ts \<Longrightarrow> run ts (eps ts i) w \<longleftrightarrow> w \<in> lang (drop i ts)"
proof (induction "length ts - i" arbitrary: i w)
  case 0
  then have "i = length ts" by simp
  then show ?case by (simp only: eps_end run_end) simp
next
  case (Suc k)
  then have i: "i < length ts" by simp
  have ih: "run ts (eps ts (Suc i)) v \<longleftrightarrow> v \<in> lang (drop (Suc i) ts)" for v
    using Suc by simp
  have d: "drop i ts = ts ! i # drop (Suc i) ts" using i by (simp add: Cons_nth_drop_Suc)
  let ?A = "run ts {i}" and ?B = "\<lambda>v. v \<in> lang (drop (Suc i) ts)"
  have nil: "\<not> ?A []" using i by simp
  have ball_ne: "(\<forall>r \<in> set u. r \<noteq> c) \<longleftrightarrow> c \<notin> set u" for u and c :: rune by auto
  show ?case
  proof (cases "ts ! i")
    case (GlobLiteral c)
    then show ?thesis using i ih by (auto simp: d eps_stop run_single tgt_def run_empty)
  next
    case GlobQMark
    then have "run ts (eps ts i) w \<longleftrightarrow> (\<exists>r rs. w = [r] @ rs \<and> r \<noteq> 47 \<and> ?B rs)"
      using i ih by (auto simp: eps_stop run_single tgt_def run_empty simp del: run.simps)
    moreover have "w \<in> lang (drop i ts) \<longleftrightarrow> (\<exists>r rs. w = [r] @ rs \<and> r \<noteq> 47 \<and> ?B rs)"
      unfolding d list.map GlobQMark rx_of.simps rx_lang.simps rx_matches.simps mem_Collect_eq by blast
    ultimately show ?thesis by blast
  next
    case GlobStar
    have e: "run ts (eps ts i) v \<longleftrightarrow> ?A v \<or> ?B v" for v
      using i GlobStar by (simp add: eps_step run_insert [of ts i "eps ts (Suc i)"] ih)
    have "?A (r # v) \<longleftrightarrow> r \<noteq> 47 \<and> (?A v \<or> ?B v)" for r v
      using i GlobStar by (simp add: run_single tgt_def run_empty e del: run.simps)
    from star_loop [of ?A, OF this nil] show ?thesis
      unfolding e d list.map GlobStar rx_of.simps rx_lang.simps rx_matches.simps mem_Collect_eq ball_ne by blast
  next
    case GlobAny
    have e: "run ts (eps ts i) v \<longleftrightarrow> ?A v \<or> ?B v" for v
      using i GlobAny by (simp add: eps_step run_insert [of ts i "eps ts (Suc i)"] ih)
    have "?A (r # v) \<longleftrightarrow> r \<noteq> 10 \<and> (?A v \<or> ?B v)" for r v
      using i GlobAny by (simp add: run_single tgt_def run_empty e del: run.simps)
    from star_loop [of ?A, OF this nil] show ?thesis
      unfolding e d list.map GlobAny rx_of.simps rx_lang.simps rx_matches.simps mem_Collect_eq ball_ne by blast
  next
    case GlobAnyDirs
    have e: "run ts (eps ts i) v \<longleftrightarrow> ?A v \<or> ?B v" for v
      using i GlobAnyDirs by (simp add: eps_step run_insert [of ts i "eps ts (Suc i)"] ih)
    have "?A (r # v) \<longleftrightarrow> r \<noteq> 10 \<and> (?A v \<or> (r = 47 \<and> ?B v))" for r v
      using i GlobAnyDirs ih
      by (simp add: run_single tgt_def run_empty run_insert [of ts i "eps ts (Suc i)"] del: run.simps)
    from dirs_loop [of ?A, OF this nil] have a: "?A w \<longleftrightarrow> (\<exists>x t. w = (x @ [47]) @ t \<and> 10 \<notin> set x \<and> ?B t)" by simp
    have "(\<exists>u v. w = u @ v \<and> (u = [] \<or> (\<exists>x. u = x @ [47] \<and> 10 \<notin> set x)) \<and> ?B v) \<longleftrightarrow>
        ?B w \<or> (\<exists>x t. w = (x @ [47]) @ t \<and> 10 \<notin> set x \<and> ?B t)" by (metis append_Nil)
    then show ?thesis
      unfolding e d list.map GlobAnyDirs rx_of.simps rx_lang.simps rx_matches.simps mem_Collect_eq a by argo
  qed
qed

section \<open>The arrays represent the state sets\<close>

definition marked :: "bool list \<Rightarrow> nat set" where
  "marked bs = {i. i < length bs \<and> bs ! i}"

definition closed_from :: "globToken list \<Rightarrow> nat \<Rightarrow> bool list \<Rightarrow> bool" where
  "closed_from ts k bs \<longleftrightarrow> (\<forall>j \<in> marked bs. k \<le> j \<longrightarrow> eps ts j \<subseteq> marked bs)"

lemma marked_update: "i < length bs \<Longrightarrow> marked (bs[i := True]) = insert i (marked bs)"
  by (auto simp: marked_def nth_list_update)

lemma marked_replicate [simp]: "marked (replicate n False) = {}"
  by (auto simp: marked_def)

lemma closure_marks:
  assumes "length bs = Suc (length ts)" and "s \<le> length ts" and "closed_from ts s bs"
  shows "marked (closure ts bs s) = marked bs \<union> eps ts s \<and> length (closure ts bs s) = Suc (length ts)"
  using assms
proof (induction ts bs s rule: closure.induct)
  case (1 ts bs s)
  show ?case
  proof (cases "s < length ts")
    case False
    then have "s = length ts" using "1.prems" by simp
    then show ?thesis using "1.prems"(1) by (subst (1 2) closure.simps) (simp add: marked_update eps_end)
  next
    case s: True
    show ?thesis
    proof (cases "bs ! s")
      case True
      then have "s \<in> marked bs" using s "1.prems" by (simp add: marked_def)
      then have "eps ts s \<subseteq> marked bs" using "1.prems"(3) by (simp add: closed_from_def)
      then show ?thesis using True s "1.prems"(1) by (subst (1 2) closure.simps) auto
    next
      case unmarked: False
      show ?thesis
      proof (cases "star_like (ts ! s)")
        case True
        have up: "marked (bs[s := True]) = insert s (marked bs)" using s "1.prems"(1) by (intro marked_update) simp
        have "closed_from ts (Suc s) (bs[s := True])"
          using "1.prems"(3) unfolding closed_from_def up by fastforce
        then have ih: "marked (closure ts (bs[s := True]) (Suc s)) = insert s (marked bs) \<union> eps ts (Suc s) \<and>
            length (closure ts (bs[s := True]) (Suc s)) = Suc (length ts)"
          using "1.IH" [OF s unmarked True] "1.prems"(1) s up by simp
        have c: "closure ts bs s = closure ts (bs[s := True]) (Suc s)"
          using s unmarked True by (subst closure.simps) simp
        show ?thesis using ih unfolding c eps_step [OF s True] by auto
      next
        case False
        have "marked (bs[s := True]) = insert s (marked bs)" using s "1.prems"(1) by (intro marked_update) simp
        moreover have "closure ts bs s = bs[s := True]" using s unmarked False by (subst closure.simps) simp
        ultimately show ?thesis using "1.prems"(1) eps_stop [OF s False] by simp
      qed
    qed
  qed
qed

lemma closed_from_closure:
  assumes "length bs = Suc (length ts)" and "s \<le> length ts" and "closed_from ts k bs" and "k \<le> s"
  shows "closed_from ts k (closure ts bs s)"
proof -
  have "closed_from ts s bs" using assms(3,4) by (simp add: closed_from_def)
  then have "marked (closure ts bs s) = marked bs \<union> eps ts s" using closure_marks [OF assms(1,2)] by simp
  moreover have "eps ts j \<subseteq> marked bs \<union> eps ts s" if "j \<in> marked bs \<union> eps ts s" "k \<le> j" for j
    using that assms(3) eps_trans [of j ts s] unfolding closed_from_def by blast
  ultimately show ?thesis unfolding closed_from_def by simp
qed

lemma closed_from_mono: "closed_from ts k bs \<Longrightarrow> k \<le> k' \<Longrightarrow> closed_from ts k' bs"
  by (simp add: closed_from_def)

lemma step_state_marks:
  assumes "length nxt = Suc (length ts)" and "i < length ts" and "closed_from ts i nxt" and "length cur = Suc (length ts)"
    and "step_state ts r cur (nxt, alive) i = (nxt', alive')"
  shows "length nxt' = Suc (length ts) \<and> closed_from ts (Suc i) nxt' \<and>
    marked nxt' = marked nxt \<union> (if i \<in> marked cur then tgt ts r i else {}) \<and>
    (alive' \<longleftrightarrow> alive \<or> (i \<in> marked cur \<and> tgt ts r i \<noteq> {}))"
proof (cases "cur ! i")
  case False
  then show ?thesis using assms closed_from_mono [of ts i nxt "Suc i"] by (auto simp: step_state_def marked_def)
next
  case True
  then have m: "i \<in> marked cur" using assms(2,4) by (simp add: marked_def)
  have c1: "closed_from ts (Suc i) nxt" using assms(3) by (rule closed_from_mono) simp
  have n1: "marked (closure ts nxt (Suc i)) = marked nxt \<union> eps ts (Suc i)" "length (closure ts nxt (Suc i)) = Suc (length ts)"
    "closed_from ts (Suc i) (closure ts nxt (Suc i))"
    using closure_marks [OF assms(1) _ c1] closed_from_closure [OF assms(1) _ c1] assms(2) by auto
  have n0: "marked (closure ts nxt i) = marked nxt \<union> eps ts i" "length (closure ts nxt i) = Suc (length ts)"
    "closed_from ts (Suc i) (closure ts nxt i)"
    using closure_marks [OF assms(1) _ assms(3)] closed_from_closure [OF assms(1) _ assms(3)] assms(2)
      closed_from_mono [of ts i "closure ts nxt i" "Suc i"] by auto
  let ?u = "nxt[i := True]"
  have u: "marked ?u = insert i (marked nxt)" using assms(1,2) by (intro marked_update) simp
  have cu: "closed_from ts (Suc i) ?u" using c1 unfolding closed_from_def u by fastforce
  have nu: "marked (closure ts ?u (Suc i)) = insert i (marked nxt) \<union> eps ts (Suc i)" "length (closure ts ?u (Suc i)) = Suc (length ts)"
    "closed_from ts (Suc i) (closure ts ?u (Suc i))"
    using closure_marks [OF _ _ cu] closed_from_closure [OF _ _ cu] assms(1,2) u by auto
  have e: "eps ts i \<noteq> {}" "eps ts (Suc i) \<noteq> {}" using eps_self [of i ts] eps_self [of "Suc i" ts] assms(2) by auto
  show ?thesis
    using assms(5) True m c1 n1 n0 nu u cu e assms(1)
    by (cases "ts ! i") (auto simp: step_state_def tgt_def Let_def split: if_splits)
qed

lemma step_rune_marks:
  assumes "length cur = Suc (length ts)" and "k \<le> length ts"
    and "foldl (step_state ts r cur) (replicate (length ts + 1) False, False) [0..<k] = (nxt, alive)"
  shows "length nxt = Suc (length ts) \<and> closed_from ts k nxt \<and> marked nxt = (\<Union>i \<in> marked cur \<inter> {..<k}. tgt ts r i) \<and>
    (alive \<longleftrightarrow> marked nxt \<noteq> {})"
  using assms(2,3)
proof (induction k arbitrary: nxt alive)
  case 0
  then show ?case by (auto simp: closed_from_def simp del: replicate.simps)
next
  case (Suc k)
  obtain n a where na: "foldl (step_state ts r cur) (replicate (length ts + 1) False, False) [0..<k] = (n, a)" by (metis surj_pair)
  note ih = Suc.IH [OF _ na]
  have s: "step_state ts r cur (n, a) k = (nxt, alive)" using Suc.prems(2) na by simp
  have st: "length nxt = Suc (length ts) \<and> closed_from ts (Suc k) nxt \<and>
      marked nxt = marked n \<union> (if k \<in> marked cur then tgt ts r k else {}) \<and>
      (alive \<longleftrightarrow> a \<or> (k \<in> marked cur \<and> tgt ts r k \<noteq> {}))"
    using step_state_marks [OF _ _ _ assms(1) s] ih Suc.prems(1) by simp
  have "marked cur \<inter> {..<Suc k} = (if k \<in> marked cur then insert k (marked cur \<inter> {..<k}) else marked cur \<inter> {..<k})"
    by (auto simp: less_Suc_eq)
  then show ?case using st ih Suc.prems(1) by auto
qed

lemma run_runes_run:
  assumes "length cur = Suc (length ts)"
  shows "run_runes ts cur rs \<longleftrightarrow> run ts (marked cur) rs"
  using assms
proof (induction rs arbitrary: cur)
  case Nil
  then show ?case by (simp add: marked_def)
next
  case (Cons r rs)
  obtain nxt alive where s: "step_rune ts r cur = (nxt, alive)" by (metis surj_pair)
  have m: "length nxt = Suc (length ts)" "marked nxt = (\<Union>i \<in> marked cur \<inter> {..<length ts}. tgt ts r i)"
    "alive \<longleftrightarrow> marked nxt \<noteq> {}"
    using step_rune_marks [OF Cons.prems order_refl s [unfolded step_rune_def]] by auto
  show ?case
  proof (cases alive)
    case True
    then show ?thesis using Cons.IH [OF m(1)] m(2) s by simp
  next
    case False
    then have "marked nxt = {}" using m(3) by simp
    then show ?thesis using False m(2) s run_empty [of ts rs] by simp
  qed
qed

section \<open>The literal ends\<close>

lemma hasRunePrefix_runes: "hasRunePrefix s p \<longleftrightarrow> (\<exists>t. runes s = p @ t)"
proof (induction s p rule: hasRunePrefix.induct)
  case (2 s want ws)
  show ?case
  proof (cases "s = []")
    case False
    then show ?thesis using 2 runes_nonempty [OF False] by (auto split: prod.splits)
  qed simp
qed simp

lemma hasRuneSuffix_rev_runes: "hasRuneSuffix_rev s p \<longleftrightarrow> (\<exists>t. runes s = t @ rev p)"
proof (induction s p rule: hasRuneSuffix_rev.induct)
  case (2 s want ws)
  show ?case
  proof (cases "s = []")
    case False
    obtain r n where d: "decode_last_rune s = (r, n)" by (metis surj_pair)
    have "runes s = runes (take (length s - n) s) @ [r]" using decode_last_rune_forward [OF False] d by simp
    then show ?thesis using 2 [OF False d [symmetric] refl] False d by auto
  qed simp
qed simp

lemma hasRuneSuffix_runes: "hasRuneSuffix s p \<longleftrightarrow> (\<exists>t. runes s = t @ p)"
  by (simp add: hasRuneSuffix_def hasRuneSuffix_rev_runes)

lemma rx_lang_append: "rx_lang (xs @ ys) = {u @ v | u v. u \<in> rx_lang xs \<and> v \<in> rx_lang ys}"
proof (induction xs)
  case (Cons x xs)
  have "w \<in> rx_lang ((x # xs) @ ys) \<longleftrightarrow> (\<exists>a u v. w = a @ u @ v \<and> rx_matches x a \<and> u \<in> rx_lang xs \<and> v \<in> rx_lang ys)" for w
    unfolding append_Cons rx_lang.simps Cons.IH mem_Collect_eq by blast
  moreover have "w \<in> {u @ v | u v. u \<in> rx_lang (x # xs) \<and> v \<in> rx_lang ys} \<longleftrightarrow>
      (\<exists>a u v. w = a @ u @ v \<and> rx_matches x a \<and> u \<in> rx_lang xs \<and> v \<in> rx_lang ys)" for w
    unfolding rx_lang.simps mem_Collect_eq by (metis append.assoc)
  ultimately show ?case by blast
qed simp

lemma lang_literals: "list_all is_literal ts \<Longrightarrow> lang ts = {map literal_rune ts}"
proof (induction ts)
  case (Cons t ts)
  then show ?case by (cases t) auto
qed simp

lemma lang_prefix: "w \<in> lang ts \<Longrightarrow> \<exists>v. w = map literal_rune (takeWhile is_literal ts) @ v"
proof -
  assume w: "w \<in> lang ts"
  have "list_all is_literal (takeWhile is_literal ts)" by (auto simp: list_all_iff dest: set_takeWhileD)
  then show ?thesis
    using w rx_lang_append [of "map rx_of (takeWhile is_literal ts)" "map rx_of (dropWhile is_literal ts)"]
      lang_literals [of "takeWhile is_literal ts"] by (auto simp flip: map_append)
qed

lemma lang_suffix: "w \<in> lang ts \<Longrightarrow> \<exists>v. w = v @ map literal_rune (rev (takeWhile is_literal (rev ts)))"
proof -
  assume w: "w \<in> lang ts"
  let ?s = "rev (takeWhile is_literal (rev ts))" and ?p = "rev (dropWhile is_literal (rev ts))"
  have ts: "ts = ?p @ ?s" by (metis rev_append rev_rev_ident takeWhile_dropWhile_id)
  have "list_all is_literal ?s" by (auto simp: list_all_iff dest: set_takeWhileD)
  then have "lang ?s = {map literal_rune ?s}" by (rule lang_literals)
  moreover have "lang ts = {u @ v | u v. u \<in> lang ?p \<and> v \<in> lang ?s}"
    using rx_lang_append [of "map rx_of ?p" "map rx_of ?s"] ts by (metis map_append)
  ultimately show ?thesis using w by auto
qed

text \<open>
  \<^bold>\<open>C1\<close>. The glob matcher implements its definition: for every pattern and every path, \<open>globMatch\<close>
  refuses exactly the patterns \<open>buildGlobRegexp\<close> refuses, and otherwise answers whether the runes of
  the path are in the language of that anchored regular expression, invalid UTF-8, newlines and the
  literal shortcuts included.
\<close>

theorem globMatch_regexp:
  "globMatch pattern path =
     (case buildGlobRegexp pattern of
        Inl e \<Rightarrow> Inl e
      | Inr xs \<Rightarrow> Inr (runes path \<in> rx_lang xs))"
proof (cases "glob_tokens (runes pattern)")
  case None
  then show ?thesis by (simp add: globMatch_def compileGlobProgram_def buildGlobRegexp_def regexp_of_tokens)
next
  case (Some ts)
  let ?p = "\<lparr>tokens = ts, gprefix = map literal_rune (takeWhile is_literal ts),
    gsuffix = (if list_all is_literal ts then [] else map literal_rune (rev (takeWhile is_literal (rev ts))))\<rparr>"
  let ?start = "closure ts (replicate (length ts + 1) False) 0"
  have st: "marked ?start = eps ts 0" "length ?start = Suc (length ts)"
    using closure_marks [of "replicate (length ts + 1) False" ts 0] by (simp_all add: closed_from_def del: replicate.simps)
  have nfa: "run_runes ts ?start (runes path) \<longleftrightarrow> runes path \<in> lang ts"
    using run_runes_run [OF st(2)] run_eps_lang [of 0 ts] st(1) by simp
  have ends: "hasRunePrefix path (gprefix ?p) \<and> hasRuneSuffix path (gsuffix ?p)" if "runes path \<in> lang ts"
    using lang_prefix [OF that] lang_suffix [OF that] by (simp add: hasRunePrefix_runes hasRuneSuffix_runes)
  have "glob_match ?p path \<longleftrightarrow> runes path \<in> lang ts"
  proof (cases "list_all is_literal ts")
    case True
    then have t: "takeWhile is_literal ts = ts" by (simp add: list_all_iff takeWhile_eq_all_conv)
    have "glob_match ?p path \<longleftrightarrow> (\<exists>t. runes path = map literal_rune ts @ t) \<and> length (runes path) = length ts"
      unfolding glob_match_def globProgram.select_convs t hasRunePrefix_runes hasRuneSuffix_runes rune_count_def
      using True by simp
    also have "\<dots> \<longleftrightarrow> runes path = map literal_rune ts" by auto
    finally show ?thesis using lang_literals [OF True] by simp
  next
    case False
    then have "length (takeWhile is_literal ts) \<noteq> length ts"
      by (metis append_Nil2 append_eq_append_conv list_all_iff takeWhile_dropWhile_id takeWhile_eq_all_conv)
    then show ?thesis using ends nfa by (auto simp: glob_match_def)
  qed
  then show ?thesis using Some
    by (simp add: globMatch_def compileGlobProgram_def buildGlobRegexp_def regexp_of_tokens)
qed

end
