(* ===== verification/Fs_Path.thy ===== *)
theory Fs_Path
  imports Go_Path
begin

text \<open>
  Two fact sources of \<open>internal/fs\<close>: the path gate every argument of an agent passes
  (\<open>safe_path.go\<close>), and counting the lines of a stream (\<open>countlines.go\<close>). A reader is the list of what
  its \<open>Read\<close> calls return: the bytes delivered and the error returned with them.
\<close>

section \<open>The path gate\<close>

datatype rel_path_error =
  ErrRelPathEmpty | ErrRelPathAbsolute | ErrRelPathDrive | ErrRelPathUNC | ErrRelPathNoTarget | ErrRelPathEscapes

fun RelPathMessageKey :: "rel_path_error \<Rightarrow> string" where
  "RelPathMessageKey ErrRelPathEmpty = ''path.rejected.empty''"
| "RelPathMessageKey ErrRelPathAbsolute = ''path.rejected.absolute''"
| "RelPathMessageKey ErrRelPathDrive = ''path.rejected.drive''"
| "RelPathMessageKey ErrRelPathUNC = ''path.rejected.unc''"
| "RelPathMessageKey ErrRelPathNoTarget = ''path.rejected.no_target''"
| "RelPathMessageKey ErrRelPathEscapes = ''path.rejected.escape''"

definition has_drive :: "string \<Rightarrow> bool" where
  "has_drive p \<longleftrightarrow> 2 \<le> length p \<and> p ! 1 = CHR '':''"

definition NormalizeRelPath :: "string \<Rightarrow> rel_path_error + string" where
  "NormalizeRelPath raw =
     (if trim_space raw = [] then Inl ErrRelPathEmpty
      else
        let p = replace_all (trim_space raw) [CHR 0x5C] slash in
        if has_prefix p ''//'' then Inl ErrRelPathUNC
        else if has_prefix p slash then Inl ErrRelPathAbsolute
        else if has_drive p then Inl ErrRelPathDrive
        else
          let clean = path_clean p in
          if clean = ''.'' \<or> clean = [] then Inl ErrRelPathNoTarget
          else if clean = ''..'' \<or> has_prefix clean ''../'' then Inl ErrRelPathEscapes
          else if has_drive clean then Inl ErrRelPathDrive
          else Inr (if has_suffix p slash then clean @ slash else clean))"

section \<open>Counting lines\<close>

datatype read_status = ReadOk | ReadEOF | ReadFailed

fun count_reads :: "nat \<Rightarrow> char \<Rightarrow> bool \<Rightarrow> (string \<times> read_status) list \<Rightarrow> (unit + nat) option" where
  "count_reads count lastByte isEmpty [] = None"
| "count_reads count lastByte isEmpty ((buf, rerr) # rest) =
     (let count' = (if buf \<noteq> [] then count + length (filter (\<lambda>c. c = LF) buf) else count);
          lastByte' = (if buf \<noteq> [] then last buf else lastByte);
          isEmpty' = (isEmpty \<and> buf = []) in
      case rerr of
        ReadEOF \<Rightarrow> Some (Inr (if isEmpty' then 0 else if lastByte' \<noteq> LF then count' + 1 else count'))
      | ReadFailed \<Rightarrow> Some (Inl ())
      | ReadOk \<Rightarrow> count_reads count' lastByte' isEmpty' rest)"

definition CountLines :: "(string \<times> read_status) list \<Rightarrow> (unit + nat) option" where
  "CountLines reads = count_reads 0 LF True reads"

section \<open>What the path gate lets through\<close>

definition safe_elems :: "string list \<Rightarrow> bool" where
  "safe_elems es \<longleftrightarrow> es \<noteq> [] \<and> list_all (\<lambda>e. proper_elem e \<and> CHR 0x5C \<notin> set e) es"

lemma path_clean_relative:
  assumes "p \<noteq> []" and "\<not> has_prefix p slash"
  shows "\<exists>k ps. (\<forall>e \<in> set ps. proper_elem e) \<and>
    path_clean p = (if k = 0 \<and> ps = [] then ''.'' else str_join (replicate k ''..'' @ ps) slash)"
proof -
  obtain k ps where c: "clean_elems False (str_split p slash) = replicate k ''..'' @ ps" and ps: "\<forall>e \<in> set ps. proper_elem e"
    using clean_elems_shape by blast
  have ne: "str_join es slash \<noteq> []" if n: "es \<noteq> []" "\<forall>e \<in> set es. e \<noteq> []" for es
  proof -
    obtain x xs where "es = x # xs" "x \<noteq> []" using n by (cases es) auto
    then show ?thesis by (cases xs) simp_all
  qed
  have "\<forall>e \<in> set (replicate k ''..'' @ ps). e \<noteq> []"
  proof
    fix e assume "e \<in> set (replicate k ''..'' @ ps)"
    then have "e = ''..'' \<or> e \<in> set ps" by auto
    then show "e \<noteq> []" using ps unfolding proper_elem_def by blast
  qed
  then have "str_join (replicate k ''..'' @ ps) slash = [] \<longleftrightarrow> replicate k ''..'' @ ps = []"
    using ne [of "replicate k ''..'' @ ps"] by (cases "replicate k ''..'' @ ps = []") simp_all
  then have "str_join (replicate k ''..'' @ ps) slash = [] \<longleftrightarrow> k = 0 \<and> ps = []" by simp
  then have "path_clean p = (if k = 0 \<and> ps = [] then ''.'' else str_join (replicate k ''..'' @ ps) slash)"
    using assms c by (simp add: path_clean_def Let_def)
  then show ?thesis using ps by blast
qed

lemma set_clean_elems: "e \<in> set (clean_elems r es) \<Longrightarrow> e \<in> set es"
proof -
  have "set (foldl (clean_step r) st es) \<subseteq> set st \<union> set es" for st
  proof (induction es arbitrary: st)
    case (Cons x es)
    have "set (clean_step r st x) \<subseteq> insert x (set st)" by (cases st) auto
    then show ?case using Cons [of "clean_step r st x"] by (simp del: clean_step.simps) blast
  qed simp
  then show "e \<in> set (clean_elems r es) \<Longrightarrow> e \<in> set es" unfolding clean_elems_def by fastforce
qed

lemma set_path_clean: "c \<in> set (path_clean p) \<Longrightarrow> c \<in> set p \<or> c = CHR ''/'' \<or> c = CHR ''.''"
proof -
  have s: "\<exists>x \<in> set (str_split p slash). c \<in> set x \<Longrightarrow> c \<in> set p"
    using str_join_split [of slash p] str_join_member [of _ "str_split p slash" c slash] by fastforce
  have "c \<in> set (str_join (clean_elems r (str_split p slash)) slash) \<Longrightarrow> c = CHR ''/'' \<or> c \<in> set p" for r
    using set_str_join [of c "clean_elems r (str_split p slash)" slash] set_clean_elems s by fastforce
  then show "c \<in> set (path_clean p) \<Longrightarrow> ?thesis" by (auto simp: path_clean_def Let_def split: if_splits)
qed

lemma clean_below_root:
  assumes "list_all proper_elem rs" and "safe_elems es" and "p \<in> {str_join es slash, str_join es slash @ slash}"
  shows "path_clean (slash @ str_join (rs @ [p]) slash) = slash @ str_join (rs @ es) slash"
proof -
  have es: "es \<noteq> []" "\<forall>e \<in> set es. proper_elem e" using assms(2) by (auto simp: safe_elems_def list_all_iff)
  have rs: "\<forall>e \<in> set rs. proper_elem e" using assms(1) by (simp add: list_all_iff)
  define tail :: "string list" where "tail = (if p = str_join es slash then [] else [[]])"
  have p: "p = str_join (es @ tail) slash"
    using assms(3) es(1) by (auto simp: tail_def str_join_append)
  have j: "str_join (rs @ [p]) slash = str_join (rs @ es @ tail) slash"
  proof (cases "rs = []")
    case False
    have "str_join (rs @ [p]) slash = str_join rs slash @ slash @ p" using str_join_append [OF False, of "[p]"] by simp
    also have "\<dots> = str_join (rs @ es @ tail) slash" using str_join_append [OF False, of "es @ tail"] es(1) p by simp
    finally show ?thesis .
  qed (use p in simp)
  let ?E = "[] # rs @ es @ tail"
  have w: "slash @ str_join (rs @ [p]) slash = str_join ?E slash" using es(1) by (simp add: j str_join_Cons)
  have "\<forall>e \<in> set ?E. CHR ''/'' \<notin> set e" using es rs by (auto simp: tail_def proper_elem_def)
  then have sp: "str_split (str_join ?E slash) slash = ?E" by (intro str_split_join) auto
  have "foldl (clean_step True) [] ?E = foldl (clean_step True) (rev es @ rev rs) tail"
    using foldl_clean_proper [OF rs, of True "[]"] foldl_clean_proper [OF es(2), of True "rev rs"]
    by (simp del: clean_step.simps) simp
  also have "\<dots> = rev es @ rev rs" by (simp add: tail_def)
  finally have "clean_elems True ?E = rs @ es" by (simp add: clean_elems_def)
  moreover have "str_join ?E slash \<noteq> []" "has_prefix (str_join ?E slash) slash" using w [symmetric] by auto
  ultimately show ?thesis unfolding w path_clean_def sp Let_def by simp
qed

text \<open>
  \<^bold>\<open>C37\<close>. Whatever an agent sends, a path that passes the gate stays inside the repository: it is a
  non-empty sequence of proper names (no empty, \<open>.\<close> or \<open>..\<close> element, no backslash) joined by slashes,
  with at most one trailing slash, no leading slash and no drive; so cleaned below any clean absolute
  root it is exactly that root followed by these names.
\<close>

theorem NormalizeRelPath_contained:
  assumes "NormalizeRelPath raw = Inr p"
  shows "\<exists>es. safe_elems es \<and> p \<in> {str_join es slash, str_join es slash @ slash} \<and>
    \<not> has_prefix p slash \<and> \<not> has_drive (str_join es slash) \<and>
    (\<forall>rs. list_all proper_elem rs \<longrightarrow>
       path_clean (slash @ str_join (rs @ [p]) slash) = slash @ str_join (rs @ es) slash)"
proof -
  define q where "q = replace_all (trim_space raw) [CHR 0x5C] slash"
  have c: "\<not> has_prefix q slash" "path_clean q \<noteq> ''.''" "path_clean q \<noteq> ''..''" "\<not> has_prefix (path_clean q) ''../''"
    "\<not> has_drive (path_clean q)" "p = (if has_suffix q slash then path_clean q @ slash else path_clean q)"
    using assms by (auto simp: NormalizeRelPath_def q_def Let_def split: if_splits)
  have qb: "CHR 0x5C \<notin> set q" unfolding q_def replace_all_char by auto
  have "trim_space raw \<noteq> []" using assms by (auto simp: NormalizeRelPath_def)
  then have "q \<noteq> []" unfolding q_def replace_all_char by simp
  then obtain k ps where ps: "\<forall>e \<in> set ps. proper_elem e"
    and pc: "path_clean q = (if k = 0 \<and> ps = [] then ''.'' else str_join (replicate k ''..'' @ ps) slash)"
    using path_clean_relative c(1) by blast
  have k: "k = 0"
  proof (rule ccontr)
    assume "k \<noteq> 0"
    then obtain k' where "k = Suc k'" by (cases k) auto
    then have "path_clean q = str_join (''..'' # replicate k' ''..'' @ ps) slash" using pc by simp
    then show False using c(3,4) by (cases "replicate k' ''..'' @ ps") auto
  qed
  have ne: "ps \<noteq> []" using k pc c(2) by auto
  have e: "path_clean q = str_join ps slash" using k ne pc by simp
  have "CHR 0x5C \<notin> set x" if "x \<in> set ps" for x
    using set_path_clean [of "CHR 0x5C" q] str_join_member [OF that, of "CHR 0x5C" slash] qb e by auto
  then have safe: "safe_elems ps" using ps ne by (auto simp: safe_elems_def list_all_iff)
  have p: "p \<in> {str_join ps slash, str_join ps slash @ slash}" using c(6) e by auto
  have "\<not> has_prefix p slash" using p str_join_proper_head [OF ne ps] by (cases "str_join ps slash") auto
  then show ?thesis using safe p c(5) e clean_below_root [OF _ safe p] by auto
qed

theorem NormalizeRelPath_contained_witness:
  "\<exists>es. safe_elems es \<and> path_clean (slash @ str_join ([''repo''] @ [''b/'']) slash) = slash @ str_join ([''repo''] @ es) slash"
proof -
  have b: "[CHR 0x5C] \<noteq> []" by simp
  have n: "NormalizeRelPath (''./a/..'' @ [CHR 0x5C] @ ''b/'') = Inr ''b/''" by code_simp
  have r: "list_all proper_elem [''repo'']" by code_simp
  show ?thesis using NormalizeRelPath_contained [OF n] r by blast
qed

text \<open>
  The gate is not idempotent on names with outer blanks: removing a leading element can expose a
  blank that a second call would trim.
\<close>

lemma NormalizeRelPath_not_idempotent:
  "NormalizeRelPath ''./ a'' = Inr '' a'' \<and> NormalizeRelPath '' a'' = Inr ''a''"
  by code_simp

section \<open>Line counts\<close>

definition line_count :: "string \<Rightarrow> nat" where
  "line_count data = length (filter (\<lambda>c. c = LF) data) + (if data \<noteq> [] \<and> last data \<noteq> LF then 1 else 0)"

lemma count_reads_spec:
  assumes "isEmpty \<Longrightarrow> lastByte = LF \<and> count = 0"
  shows "count_reads count lastByte isEmpty (map (\<lambda>b. (b, ReadOk)) bs @ (b, ReadEOF) # rest) =
    Some (Inr (let data = concat bs @ b in
      count + length (filter (\<lambda>c. c = LF) data) +
      (if data \<noteq> [] then (if last data \<noteq> LF then 1 else 0) else if lastByte \<noteq> LF then 1 else 0)))"
  using assms
proof (induction bs arbitrary: count lastByte isEmpty)
  case Nil
  then show ?case by (auto simp: Let_def)
next
  case (Cons x bs)
  then show ?case by (auto simp: Let_def)
qed

text \<open>
  Counting lines does not depend on how the stream is delivered: for every way of cutting the
  data into reads, empty ones included, with the end reported alone or with the last bytes, the count
  is the number of newlines plus one for an unterminated last line; a read error is always reported.
\<close>

theorem CountLines_chunking:
  "CountLines (map (\<lambda>b. (b, ReadOk)) bs @ (b, ReadEOF) # rest) = Some (Inr (line_count (concat bs @ b))) \<and>
   CountLines (map (\<lambda>b. (b, ReadOk)) bs @ (b, ReadFailed) # rest) = Some (Inl ())"
proof -
  have "count_reads n l e (map (\<lambda>b. (b, ReadOk)) bs @ (b, ReadFailed) # rest) = Some (Inl ())" for n l e
    by (induction bs arbitrary: n l e) (simp_all add: Let_def)
  then show ?thesis
    using count_reads_spec [of True LF 0 bs b rest] by (simp add: CountLines_def line_count_def Let_def)
qed

end
