(* ===== verification/Fs_Safety.thy ===== *)
theory Fs_Safety
  imports Fs_Path
begin

text \<open>
  The name based safety boundary of \<open>internal/fs\<close>: which relative paths are secrets, runtime state or
  generated output (\<open>safe_inventory.go\<close>) and which the project configuration excludes (\<open>walk.go\<close>). Paths
  are those of a host whose separator is the slash. Lower-casing of characters outside ASCII is the
  argument \<open>uni\<close>.
\<close>

section \<open>Rule sets and options\<close>

record WalkOptions =
  ExcludeDirs :: "string list"
  ExcludeRootDirs :: "string list"
  ExcludeFiles :: "string list"
  HighRiskOptIn :: "string list"
  IncludeIgnoredCandidates :: bool
  SensitiveNameRules :: string

abbreviation SafetySensitive :: string where "SafetySensitive \<equiv> ''sensitive''"
abbreviation SafetyRuntime :: string where "SafetyRuntime \<equiv> ''runtime''"
abbreviation SafetyGenerated :: string where "SafetyGenerated \<equiv> ''generated''"
abbreviation SafetyConfigured :: string where "SafetyConfigured \<equiv> ''configured''"
abbreviation SafetyIgnored :: string where "SafetyIgnored \<equiv> ''git_ignored''"
abbreviation SafetyUnsafe :: string where "SafetyUnsafe \<equiv> ''unsafe_filesystem_object''"

definition NormalizeSensitiveNameRules :: "string \<Rightarrow> string" where
  "NormalizeSensitiveNameRules rules = (if rules = ''v2'' then ''v2'' else ''v1'')"

definition ValidSensitiveNameRules :: "string \<Rightarrow> bool" where
  "ValidSensitiveNameRules rules \<longleftrightarrow> rules = [] \<or> rules = ''v1'' \<or> rules = ''v2''"

definition safeRelativePath :: "string \<Rightarrow> string \<times> bool" where
  "safeRelativePath value0 =
     (let v = trim_space value0; clean = path_clean v in
      (clean, v \<noteq> [] \<and> clean \<noteq> ''.'' \<and> clean \<noteq> ''..'' \<and> \<not> has_prefix clean ''../'' \<and> \<not> has_prefix v slash))"

section \<open>Sensitive names\<close>

definition sensitiveBaseV1 :: "string \<Rightarrow> bool" where
  "sensitiveBaseV1 base =
     (if has_prefix base ''.env.'' \<and> (has_suffix base ''.example'' \<or> has_suffix base ''.sample'' \<or> has_suffix base ''.template'')
      then False
      else if base = ''.env'' \<or> has_prefix base ''.env.'' then True
      else if base \<in> set [''.netrc'', ''.npmrc'', ''.pypirc'', ''credentials'', ''credentials.json'', ''credential.json''] \<or>
              has_prefix base ''secrets.'' then True
      else if list_ex (has_suffix base) [''.pem'', ''.key'', ''.p12'', ''.pfx'', ''.jks'', ''.keystore''] then True
      else base = ''id_rsa'' \<or> base = ''id_ed25519'')"

definition sensitiveNameTemplateSuffixes :: "string list" where
  "sensitiveNameTemplateSuffixes = [''.example'', ''.sample'', ''.template'', ''.dist'']"

definition sensitiveNameDataExtensions :: "string list" where
  "sensitiveNameDataExtensions =
    [''env'', ''yaml'', ''yml'', ''json'', ''toml'', ''ini'', ''cfg'', ''conf'', ''config'', ''properties'', ''txt'', ''secret'', ''secrets'', ''xml'', ''csv'',
     ''list'', ''lst'', ''cred'', ''creds'', ''auth'', ''token'', ''tokens'']"

definition sensitiveNameKeywords :: "string list" where
  "sensitiveNameKeywords =
    [''credential'', ''credentials'', ''secret'', ''secrets'', ''password'', ''passwords'', ''passwd'', ''apikey'', ''apikeys'', ''token'', ''tokens'']"

text \<open>\<open>strings.FieldsFunc\<close> for separators that are ASCII characters, which no longer rune contains.\<close>

fun split_on :: "(char \<Rightarrow> bool) \<Rightarrow> string \<Rightarrow> string list" where
  "split_on P [] = [[]]"
| "split_on P (c # s) =
     (if P c then [] # split_on P s
      else case split_on P s of [] \<Rightarrow> [[c]] | w # ws \<Rightarrow> (c # w) # ws)"

definition fields_func :: "(char \<Rightarrow> bool) \<Rightarrow> string \<Rightarrow> string list" where
  "fields_func P s = filter (\<lambda>w. w \<noteq> []) (split_on P s)"

fun keyword_words :: "string list \<Rightarrow> bool" where
  "keyword_words [] = False"
| "keyword_words (w # ws) =
     (w \<in> set sensitiveNameKeywords \<or>
      (w = ''api'' \<and> (case ws of [] \<Rightarrow> False | v # _ \<Rightarrow> v = ''key'')) \<or>
      keyword_words ws)"

definition sensitiveBaseV2 :: "string \<Rightarrow> bool" where
  "sensitiveBaseV2 base =
     (if list_ex (has_suffix base) sensitiveNameTemplateSuffixes then False
      else if sensitiveBaseV1 base then True
      else
        let components = str_split base ''.'';
            extension = (if 1 < length components then last components else []) in
        if list_ex (\<lambda>component. component = ''env'') (tl components) then True
        else if extension \<noteq> [] \<and> extension \<notin> set sensitiveNameDataExtensions then False
        else keyword_words (fields_func (\<lambda>c. c = CHR ''.'' \<or> c = CHR ''-'' \<or> c = CHR ''_'') base))"

definition sensitiveBase :: "string \<Rightarrow> string \<Rightarrow> bool" where
  "sensitiveBase base rules =
     (if NormalizeSensitiveNameRules rules = ''v2'' then sensitiveBaseV2 base else sensitiveBaseV1 base)"

section \<open>Built-in categories\<close>

text \<open>The switch over one path element; \<open>None\<close> is no matching case.\<close>

definition part_category :: "string \<Rightarrow> (string \<times> string) option" where
  "part_category part =
     (if part = ''.git'' then Some (SafetyGenerated, ''builtin_vcs'')
      else if part = ''.aoci'' then Some (SafetyRuntime, ''builtin_aoci_runtime'')
      else if part \<in> set [''.runtime'', ''.pm2'', ''pm2'', ''pids'', ''mysql-data'', ''postgres-data'', ''postgresql-data'', ''pgdata'', ''pg_wal'',
                           ''pg_xact'', ''redis-data'']
      then Some (SafetyRuntime, ''builtin_runtime_directory'')
      else if part = ''.codegraph'' then Some (SafetyRuntime, ''builtin_tool_runtime'')
      else if part \<in> set [''node_modules'', ''__pycache__'', ''.cache'', ''.next'', ''.nuxt'', ''.output'', ''third-party-dist'', ''third_party_dist'']
      then Some (SafetyGenerated, ''builtin_generated_directory'')
      else None)"

fun first_part_category :: "string list \<Rightarrow> (string \<times> string) option" where
  "first_part_category [] = None"
| "first_part_category (p # ps) = (case part_category p of Some c \<Rightarrow> Some c | None \<Rightarrow> first_part_category ps)"

definition database_runtime :: "string \<Rightarrow> bool" where
  "database_runtime low \<longleftrightarrow>
     list_ex (str_contains low) [''/mysql/data/'', ''/postgres/data/'', ''/postgresql/data/'', ''/redis/data/'']"

definition runtime_file :: "string \<Rightarrow> bool" where
  "runtime_file base \<longleftrightarrow>
     list_ex (has_suffix base) [''.log'', ''.pid'', ''.sock'', ''.socket'', ''.rdb'', ''.aof'', ''.ibd'', ''.frm'', ''.sqlite'', ''.sqlite3'', ''.db''] \<or>
     base = ''dump.rdb'' \<or> base = ''ibdata1''"

definition generated_file :: "string \<Rightarrow> bool" where
  "generated_file base \<longleftrightarrow>
     base \<in> set [''.gitkeep'', ''.ds_store'', ''thumbs.db'', ''desktop.ini''] \<or>
     list_ex (has_suffix base) [''.tmp'', ''.swp'', ''~'', ''.pyc'', ''.class'', ''.o'', ''.dll'', ''.dylib'', ''.so'', ''.exe'']"

definition BuiltInSafetyCategory :: "(rune \<Rightarrow> rune) \<Rightarrow> string \<Rightarrow> string \<Rightarrow> string \<times> string" where
  "BuiltInSafetyCategory uni rel rules =
     (let (clean, ok) = safeRelativePath rel in
      if \<not> ok then (SafetyUnsafe, ''path_boundary'')
      else
        let low = to_lower uni clean; parts = str_split low slash; base = last parts in
        case first_part_category parts of
          Some c \<Rightarrow> c
        | None \<Rightarrow>
            if database_runtime low then (SafetyRuntime, ''builtin_database_runtime'')
            else if sensitiveBase base rules then (SafetySensitive, ''builtin_sensitive_name'')
            else if runtime_file base then (SafetyRuntime, ''builtin_runtime_file'')
            else if generated_file base then (SafetyGenerated, ''builtin_generated_file'')
            else ([], []))"

definition SensitiveNameUpgradeCandidates :: "(rune \<Rightarrow> rune) \<Rightarrow> string list \<Rightarrow> string list" where
  "SensitiveNameUpgradeCandidates uni paths =
     filter (\<lambda>rel. fst (BuiltInSafetyCategory uni rel ''v1'') = [] \<and> fst (BuiltInSafetyCategory uni rel ''v2'') = SafetySensitive) paths"

section \<open>Configured exclusions\<close>

definition match_exclude_one :: "string \<Rightarrow> string \<Rightarrow> bool" where
  "match_exclude_one relPath pat0 =
     (let pat = trim_space pat0; base = last (str_split relPath slash) in
      if pat = [] then False
      else if \<not> str_contains pat ''*'' then pat = base \<or> pat = relPath
      else if has_prefix pat ''*'' \<and> has_suffix pat ''*'' then
        (let mid = trim_chars pat ''*'' in mid \<noteq> [] \<and> str_contains base mid)
      else if has_prefix pat ''*'' then has_suffix base (trim_prefix pat ''*'')
      else if has_suffix pat ''*'' then has_prefix base (trim_suffix pat ''*'')
      else case str_index pat ''*'' of
        None \<Rightarrow> False
      | Some i \<Rightarrow> has_prefix base (take i pat) \<and> has_suffix base (drop (i + 1) pat))"

definition MatchExcludePattern :: "string \<Rightarrow> string list \<Rightarrow> bool" where
  "MatchExcludePattern relPath patterns = list_ex (match_exclude_one relPath) patterns"

text \<open>The first path element that an entry of a list names.\<close>

definition named_part :: "string list \<Rightarrow> string list \<Rightarrow> string option" where
  "named_part parts entries = find (\<lambda>part. list_ex (\<lambda>entry. part = trim_space entry) entries) parts"

definition ignoredArtifactSource :: "string \<Rightarrow> WalkOptions \<Rightarrow> string option" where
  "ignoredArtifactSource rel opt =
     map_option (\<lambda>part. ''exclude_root_dirs:'' @ part) (named_part (butlast (str_split rel slash)) (ExcludeRootDirs opt))"

definition ConfiguredExclusionSource :: "string \<Rightarrow> WalkOptions \<Rightarrow> string option" where
  "ConfiguredExclusionSource rel opt =
     (let parts = str_split rel slash in
      if 1 < length parts \<and> list_ex (\<lambda>entry. hd parts = trim_space entry) (ExcludeRootDirs opt)
      then Some (''exclude_root_dirs:'' @ hd parts)
      else case named_part (butlast parts) (ExcludeDirs opt) of
        Some part \<Rightarrow> Some (''exclude_dirs:'' @ part)
      | None \<Rightarrow>
          map_option (\<lambda>pattern. ''exclude_files:'' @ trim_space pattern)
            (find (\<lambda>pattern. MatchExcludePattern rel [pattern]) (ExcludeFiles opt)))"

definition PathExcludedByConfig :: "string \<Rightarrow> WalkOptions \<Rightarrow> bool" where
  "PathExcludedByConfig rel opt \<longleftrightarrow> ConfiguredExclusionSource rel opt \<noteq> None"

definition collapsedCategoryProbe :: string where
  "collapsedCategoryProbe = ''aoci-collapse-probe''"

definition HardExcludedDirectory :: "(rune \<Rightarrow> rune) \<Rightarrow> string \<Rightarrow> WalkOptions \<Rightarrow> (string \<times> string) option" where
  "HardExcludedDirectory uni dir opt =
     (let probe = dir @ slash @ collapsedCategoryProbe; c = BuiltInSafetyCategory uni probe (SensitiveNameRules opt) in
      if fst c \<noteq> [] then Some c
      else case ignoredArtifactSource probe opt of
        Some source \<Rightarrow> Some (SafetyConfigured, source)
      | None \<Rightarrow>
          map_option (\<lambda>part. (SafetyConfigured, ''exclude_dirs:'' @ part)) (named_part (str_split dir slash) (ExcludeDirs opt)))"

end
