(* ===== verification/Fs_Inventory.thy ===== *)
theory Fs_Inventory
  imports Fs_Safety
begin

text \<open>
  The Safe Inventory of a repository (\<open>internal/fs/safe_inventory.go\<close>): what Git lists, or a walk that
  reads Git through every child repository, sorted into managed candidates and exclusions.

  What the host answers is an argument. A directory tree is a \<open>fs_node\<close>, in which a directory carries
  what is found at its \<open>.git\<close> entry, and a Git directory answers a command line with its output
  or with the chunks it wrote to its standard error. \<open>regular\<close> says which paths are plain files (the \<open>Lstat\<close>
  of the candidate loop) and \<open>sha\<close> is the hexadecimal SHA-256 digest of a byte string.
\<close>

section \<open>The tail of a process's standard error\<close>

record tailWriter =
  twLimit :: nat
  twData :: string

definition tail_write :: "tailWriter \<Rightarrow> string \<Rightarrow> tailWriter" where
  "tail_write w p =
     (if twLimit w \<le> length p then w\<lparr>twData := drop (length p - twLimit w) p\<rparr>
      else
        let kept = (if twLimit w < length (twData w) + length p
                    then drop (length (twData w) + length p - twLimit w) (twData w) else twData w) in
        w\<lparr>twData := kept @ p\<rparr>)"

definition gitStderrTailBytes :: nat where
  "gitStderrTailBytes = 2048"

definition gitStderrTail :: "tailWriter \<Rightarrow> string" where
  "gitStderrTail w = trim_space (dropWhile is_cont (twData w))"

definition captured_tail :: "string list \<Rightarrow> string" where
  "captured_tail chunks = gitStderrTail (foldl tail_write \<lparr>twLimit = gitStderrTailBytes, twData = []\<rparr> chunks)"

section \<open>What Git answers\<close>

datatype inventory_error =
    RootInvalid | HighRiskOptInInvalid | HighRiskOptInForbidden
  | GitBoundaryUnavailable | GitUnavailable | GitBoundaryMismatch
  | GitQueryError string
  | CasefoldConflict

datatype stat_answer = StatFound | StatMissing | StatFailed

datatype probe_answer = ProbeUnavailable | ProbeFailed "string list" | ProbeOutput string

record git_host =
  dotGit :: stat_answer
  probe :: probe_answer
  sameDirectory :: bool
  gitCommand :: "string list \<Rightarrow> string list + string"

definition sameGitRootPath :: "string \<Rightarrow> string \<Rightarrow> bool \<Rightarrow> bool" where
  "sameGitRootPath gitRoot inventoryRoot same \<longleftrightarrow> path_clean (trim_space gitRoot) = path_clean inventoryRoot \<or> same"

definition safe_records :: "string list \<Rightarrow> string list" where
  "safe_records rs = map fst (filter snd (map safeRelativePath rs))"

definition splitNULPaths :: "string \<Rightarrow> string list" where
  "splitNULPaths data = sort_strings (safe_records (str_split data [CHR 0x00]))"

definition stage_path :: "string \<Rightarrow> string option" where
  "stage_path record =
     (case str_index record [TAB] of
        None \<Rightarrow> None
      | Some tab \<Rightarrow> (let (clean, ok) = safeRelativePath (drop (tab + 1) record) in if ok then Some clean else None))"

definition splitNULStageEntries :: "string \<Rightarrow> string list \<times> string list" where
  "splitNULStageEntries data =
     (let records = str_split data [CHR 0x00] in
      (sort_strings (List.map_filter stage_path records),
       List.map_filter stage_path (filter (\<lambda>r. has_prefix r ''160000 '') records)))"

text \<open>The variables of the loop over the status records; the sets \<open>seen\<close> of the source are the lists.\<close>

record status_lists =
  slFiles :: "string list"
  slCollapsed :: "string list"
  slUntracked :: "string list"
  slExpand :: "string list"
  slExpandUntracked :: "string list"

definition append_new :: "string \<Rightarrow> string list \<Rightarrow> string list" where
  "append_new x xs = (if x \<in> set xs then xs else xs @ [x])"

definition status_record :: "(string \<Rightarrow> bool) \<Rightarrow> status_lists \<Rightarrow> string \<Rightarrow> status_lists" where
  "status_record collapsible s record =
     (if has_prefix record ''?? '' then
        (let value = drop 3 record; (clean, ok) = safeRelativePath value in
         if \<not> ok then s
         else if has_suffix value slash then s\<lparr>slExpandUntracked := slExpandUntracked s @ [clean]\<rparr>
         else s\<lparr>slUntracked := append_new clean (slUntracked s)\<rparr>)
      else if \<not> has_prefix record ''!! '' then s
      else
        let value = drop 3 record; isDirectory = has_suffix value slash; (clean, ok) = safeRelativePath value in
        if \<not> ok then s
        else if isDirectory \<and> collapsible clean then s\<lparr>slCollapsed := slCollapsed s @ [clean]\<rparr>
        else if isDirectory then s\<lparr>slExpand := slExpand s @ [clean]\<rparr>
        else s\<lparr>slFiles := append_new clean (slFiles s)\<rparr>)"

definition literal_spec :: "string \<Rightarrow> string" where
  "literal_spec dir = '':(literal)'' @ dir @ slash"

fun pathspec_batches :: "string list list \<Rightarrow> string list \<Rightarrow> nat \<Rightarrow> string list \<Rightarrow> string list list" where
  "pathspec_batches batches current sz [] = (if current \<noteq> [] then batches @ [current] else batches)"
| "pathspec_batches batches current sz (dir # dirs) =
     (let spec = literal_spec dir in
      if current \<noteq> [] \<and> 16384 < sz + length spec
      then pathspec_batches (batches @ [current]) [spec] (length spec + 1) dirs
      else pathspec_batches batches (current @ [spec]) (sz + length spec + 1) dirs)"

definition literalPathspecBatches :: "string list \<Rightarrow> string list list" where
  "literalPathspecBatches dirs = pathspec_batches [] [] 0 dirs"

type_synonym git_run = "string list \<Rightarrow> (inventory_error, string) result"

fun expand_batches :: "git_run \<Rightarrow> string list \<Rightarrow> string list list \<Rightarrow> string list \<Rightarrow> (inventory_error, string list) result" where
  "expand_batches run args [] acc = Inr acc"
| "expand_batches run args (b # bs) acc =
     (case run (args @ b) of
        Inl e \<Rightarrow> Inl e
      | Inr data \<Rightarrow> expand_batches run args bs (foldl (\<lambda>xs p. append_new p xs) acc (splitNULPaths data)))"

definition status_args :: "string list" where
  "status_args = [''status'', ''--porcelain=v1'', ''-z'', ''--ignored=matching'', ''--untracked-files=all'', ''--no-renames'', ''--ignore-submodules=all'']"

text \<open>The files, the collapsed directories, the untracked paths, and whether the latter were listed.\<close>

definition gitIgnoredPaths ::
  "git_run \<Rightarrow> (string \<Rightarrow> bool) \<Rightarrow> (inventory_error, string list \<times> string list \<times> string list \<times> bool) result" where
  "gitIgnoredPaths run collapsible =
     (case run status_args of
        Inl _ \<Rightarrow>
          (case run [''ls-files'', ''-z'', ''--others'', ''--ignored'', ''--exclude-standard''] of
             Inl e \<Rightarrow> Inl e
           | Inr data \<Rightarrow> Inr (splitNULPaths data, [], [], False))
      | Inr data \<Rightarrow>
          let s = foldl (status_record collapsible)
                    \<lparr>slFiles = [], slCollapsed = [], slUntracked = [], slExpand = [], slExpandUntracked = []\<rparr>
                    (str_split data [CHR 0x00]) in
          case expand_batches run [''ls-files'', ''-z'', ''--others'', ''--ignored'', ''--exclude-standard'', ''--'']
                 (literalPathspecBatches (slExpand s)) (slFiles s) of
            Inl e \<Rightarrow> Inl e
          | Inr files \<Rightarrow>
              case expand_batches run [''ls-files'', ''-z'', ''--others'', ''--exclude-standard'', ''--'']
                     (literalPathspecBatches (slExpandUntracked s)) (slUntracked s) of
                Inl e \<Rightarrow> Inl e
              | Inr untracked \<Rightarrow> Inr (sort_strings files, sort_strings (slCollapsed s), sort_strings untracked, True))"

record listing =
  liTracked :: "string list"
  liUntracked :: "string list"
  liIgnored :: "string list"
  liCollapsed :: "string list"
  liGitlinks :: "string list"
  liRepository :: bool

definition no_listing :: listing where
  "no_listing = \<lparr>liTracked = [], liUntracked = [], liIgnored = [], liCollapsed = [], liGitlinks = [], liRepository = False\<rparr>"

definition run_git :: "git_host \<Rightarrow> git_run" where
  "run_git h args =
     (case gitCommand h ([''-c'', ''core.quotepath=false''] @ args) of
        Inl chunks \<Rightarrow> Inl (GitQueryError (captured_tail chunks))
      | Inr data \<Rightarrow> Inr data)"

definition list_git :: "git_host \<Rightarrow> (string \<Rightarrow> bool) \<Rightarrow> (inventory_error, listing) result" where
  "list_git h collapsible =
     (case run_git h [''ls-files'', ''-z'', ''--cached'', ''--stage''] of
        Inl e \<Rightarrow> Inl e
      | Inr data \<Rightarrow>
          let (tracked, gitlinks) = splitNULStageEntries data in
          case gitIgnoredPaths (run_git h) collapsible of
            Inl e \<Rightarrow> Inl e
          | Inr (ignored, collapsed, untracked, listed) \<Rightarrow>
              case (if listed then Inr untracked
                    else map_sum id splitNULPaths (run_git h [''ls-files'', ''-z'', ''--others'', ''--exclude-standard''])) of
                Inl e \<Rightarrow> Inl e
              | Inr unt \<Rightarrow>
                  Inr \<lparr>liTracked = tracked, liUntracked = unt, liIgnored = ignored, liCollapsed = collapsed,
                        liGitlinks = gitlinks, liRepository = True\<rparr>)"

definition gitInventory :: "git_host \<Rightarrow> string \<Rightarrow> (string \<Rightarrow> bool) \<Rightarrow> (inventory_error, listing) result" where
  "gitInventory h root collapsible =
     (case dotGit h of
        StatMissing \<Rightarrow> Inr no_listing
      | StatFailed \<Rightarrow> Inl GitBoundaryUnavailable
      | StatFound \<Rightarrow>
          case probe h of
            ProbeUnavailable \<Rightarrow> Inl GitUnavailable
          | ProbeFailed chunks \<Rightarrow> Inl (GitQueryError (captured_tail chunks))
          | ProbeOutput out \<Rightarrow>
              if \<not> sameGitRootPath (trim_space out) root (sameDirectory h) then Inl GitBoundaryMismatch
              else list_git h collapsible)"

section \<open>The report\<close>

record SafeInventoryExclusion =
  PathSummary :: string
  Category :: string
  exRuleSource :: string
  exGitTracked :: bool

record SafeInventorySummary =
  siVersion :: string
  siGitRepository :: bool
  siGitTracked :: nat
  NonignoredUntracked :: nat
  Ignored :: nat
  BuiltinSensitiveExcluded :: nat
  RuntimeExcluded :: nat
  GeneratedExcluded :: nat
  ConfiguredExcluded :: nat
  CurationExcluded :: nat
  UnsafeFilesystemExcluded :: nat
  FinalManagedCandidates :: nat
  ReviewVisibleCount :: nat
  AutoBlockerCount :: nat
  RequiredHumanReview :: nat
  RulesIdentity :: string
  siSensitiveNameRules :: string
  InclusionExclusionIdentity :: string
  ChildRepositories :: nat

record SafeInventory =
  Summary :: SafeInventorySummary
  ManagedCandidates :: "string list"
  TrackedPaths :: "string list"
  IgnoredPaths :: "string list"
  Exclusions :: "SafeInventoryExclusion list"
  ChildRepositoryRoots :: "string list"

definition addReviewVisible :: "nat \<Rightarrow> SafeInventorySummary \<Rightarrow> SafeInventorySummary" where
  "addReviewVisible n s =
     (if n = 0 then s
      else s\<lparr>ReviewVisibleCount := ReviewVisibleCount s + n, RequiredHumanReview := RequiredHumanReview s + n\<rparr>)"

definition count_exclusion :: "string \<Rightarrow> SafeInventorySummary \<Rightarrow> SafeInventorySummary" where
  "count_exclusion category s =
     (if category = SafetySensitive then s\<lparr>BuiltinSensitiveExcluded := BuiltinSensitiveExcluded s + 1\<rparr>
      else if category = SafetyRuntime then s\<lparr>RuntimeExcluded := RuntimeExcluded s + 1\<rparr>
      else if category = SafetyGenerated then s\<lparr>GeneratedExcluded := GeneratedExcluded s + 1\<rparr>
      else if category = SafetyConfigured then s\<lparr>ConfiguredExcluded := ConfiguredExcluded s + 1\<rparr>
      else if category = SafetyUnsafe then s\<lparr>UnsafeFilesystemExcluded := UnsafeFilesystemExcluded s + 1\<rparr>
      else s)"

definition addExclusion :: "string \<Rightarrow> string \<Rightarrow> string \<Rightarrow> bool \<Rightarrow> SafeInventory \<Rightarrow> SafeInventory" where
  "addExclusion path category source tracked report =
     report\<lparr>Exclusions := Exclusions report @ [\<lparr>PathSummary = path, Category = category, exRuleSource = source, exGitTracked = tracked\<rparr>],
            Summary := (let s = count_exclusion category (Summary report) in if tracked then addReviewVisible 1 s else s)\<rparr>"

section \<open>Walking a container\<close>

text \<open>
  A directory entry that is not a directory, or a directory: whether the platform calls it unsafe,
  whether it is a link, what is found at its \<open>.git\<close> entry, and what it lists in lexical order
  (nothing, when it cannot be read).
\<close>

datatype fs_node = FsFile bool | FsDir bool bool "git_host option" fs_entries
  and fs_entries = FsNil | FsCons string fs_node fs_entries

record containerInventory =
  cTracked :: "string list"
  cUntracked :: "string list"
  cIgnored :: "string list"
  cIgnoredDirs :: "string list"
  cGitlinks :: "string list"
  cPruned :: "SafeInventoryExclusion list"
  cChildRoots :: "string list"

definition prune_line :: "string \<Rightarrow> string \<times> string \<Rightarrow> SafeInventoryExclusion" where
  "prune_line rel c = \<lparr>PathSummary = rel, Category = fst c, exRuleSource = snd c, exGitTracked = False\<rparr>"

definition child_path :: "string \<Rightarrow> string \<Rightarrow> string" where
  "child_path rel child = rel @ slash @ child"

definition addChildRepository ::
  "(rune \<Rightarrow> rune) \<Rightarrow> string \<Rightarrow> (string \<Rightarrow> bool) \<Rightarrow> string \<Rightarrow> git_host \<Rightarrow> containerInventory
   \<Rightarrow> (inventory_error, containerInventory) result" where
  "addChildRepository uni root collapsible rel h c =
     (case gitInventory h (child_path root rel) (\<lambda>dir. collapsible (child_path rel dir)) of
        Inl e \<Rightarrow> Inl e
      | Inr l \<Rightarrow>
          if \<not> liRepository l then Inl GitBoundaryUnavailable
          else Inr (c\<lparr>cChildRoots := cChildRoots c @ [rel],
                     cPruned := cPruned c @ [prune_line (child_path rel ''.git'') (BuiltInSafetyCategory uni (child_path rel ''.git'') ''v1'')],
                     cTracked := cTracked c @ map (child_path rel) (liTracked l),
                     cUntracked := cUntracked c @ map (child_path rel) (liUntracked l),
                     cIgnored := cIgnored c @ map (child_path rel) (liIgnored l),
                     cIgnoredDirs := cIgnoredDirs c @ map (child_path rel) (liCollapsed l),
                     cGitlinks := cGitlinks c @ map (child_path rel) (liGitlinks l)\<rparr>))"

text \<open>\<open>filepath.Join\<close> of the container with the relative path so far; the container itself is the empty one.\<close>

definition join_rel :: "string \<Rightarrow> string \<Rightarrow> string" where
  "join_rel rel name = (if rel = [] then name else child_path rel name)"

fun walk_node ::
  "(rune \<Rightarrow> rune) \<Rightarrow> WalkOptions \<Rightarrow> string \<Rightarrow> (string \<Rightarrow> bool) \<Rightarrow> string \<Rightarrow> fs_node \<Rightarrow> containerInventory
   \<Rightarrow> (inventory_error, containerInventory) result"
  and walk_entries ::
  "(rune \<Rightarrow> rune) \<Rightarrow> WalkOptions \<Rightarrow> string \<Rightarrow> (string \<Rightarrow> bool) \<Rightarrow> string \<Rightarrow> fs_entries \<Rightarrow> containerInventory
   \<Rightarrow> (inventory_error, containerInventory) result" where
  "walk_node uni opt root collapsible rel (FsFile unsafe) c =
     (if unsafe then Inr (c\<lparr>cPruned := cPruned c @ [prune_line rel (SafetyUnsafe, ''filesystem_boundary'')]\<rparr>)
      else Inr (c\<lparr>cUntracked := cUntracked c @ [rel]\<rparr>))"
| "walk_node uni opt root collapsible rel (FsDir unsafe link gitdir entries) c =
     (let category = BuiltInSafetyCategory uni rel ''v1'' in
      if unsafe then Inr (c\<lparr>cPruned := cPruned c @ [prune_line rel (SafetyUnsafe, ''filesystem_boundary'')]\<rparr>)
      else if fst category \<noteq> [] then Inr (c\<lparr>cPruned := cPruned c @ [prune_line rel category]\<rparr>)
      else if link then Inr (c\<lparr>cPruned := cPruned c @ [prune_line rel (SafetyUnsafe, ''filesystem_boundary'')]\<rparr>)
      else case gitdir of
        Some h \<Rightarrow> addChildRepository uni root collapsible rel h c
      | None \<Rightarrow> walk_entries uni opt root collapsible rel entries c)"
| "walk_entries uni opt root collapsible rel FsNil c = Inr c"
| "walk_entries uni opt root collapsible rel (FsCons name node rest) c =
     (case walk_node uni opt root collapsible (join_rel rel name) node c of
        Inl e \<Rightarrow> Inl e
      | Inr c' \<Rightarrow> walk_entries uni opt root collapsible rel rest c')"

text \<open>\<open>sort.Slice\<close> by the path shown, which fixes the order of lines with different paths.\<close>

fun insort_exclusion :: "SafeInventoryExclusion \<Rightarrow> SafeInventoryExclusion list \<Rightarrow> SafeInventoryExclusion list" where
  "insort_exclusion x [] = [x]"
| "insort_exclusion x (y # ys) = (if str_le (PathSummary x) (PathSummary y) then x # y # ys else y # insort_exclusion x ys)"

definition sort_exclusions :: "SafeInventoryExclusion list \<Rightarrow> SafeInventoryExclusion list" where
  "sort_exclusions xs = foldr insort_exclusion xs []"

definition traverseContainer ::
  "(rune \<Rightarrow> rune) \<Rightarrow> WalkOptions \<Rightarrow> string \<Rightarrow> (string \<Rightarrow> bool) \<Rightarrow> fs_entries \<Rightarrow> (inventory_error, containerInventory) result" where
  "traverseContainer uni opt root collapsible entries =
     (case walk_entries uni opt root collapsible [] entries
             \<lparr>cTracked = [], cUntracked = [], cIgnored = [], cIgnoredDirs = [], cGitlinks = [], cPruned = [], cChildRoots = []\<rparr> of
        Inl e \<Rightarrow> Inl e
      | Inr c \<Rightarrow> Inr (c\<lparr>cTracked := sort_strings (cTracked c), cUntracked := sort_strings (cUntracked c),
                        cIgnored := sort_strings (cIgnored c), cIgnoredDirs := sort_strings (cIgnoredDirs c),
                        cChildRoots := sort_strings (cChildRoots c), cPruned := sort_exclusions (cPruned c)\<rparr>))"

section \<open>Building the inventory\<close>

definition digestStrings :: "(string \<Rightarrow> string) \<Rightarrow> string list \<Rightarrow> string" where
  "digestStrings sha vs = sha (concat (map (\<lambda>v. v @ [CHR 0x00]) vs))"

definition SafeInventoryVersion :: string where
  "SafeInventoryVersion = ''safe-inventory/v2''"

definition safeInventoryRulesIdentity :: "(string \<Rightarrow> string) \<Rightarrow> WalkOptions \<Rightarrow> string" where
  "safeInventoryRulesIdentity sha opt =
     digestStrings sha
       ([SafeInventoryVersion, ''sensitive-'' @ NormalizeSensitiveNameRules (SensitiveNameRules opt), ''runtime-v1'', ''generated-v3'',
         if IncludeIgnoredCandidates opt then ''true'' else ''false''] @
        ExcludeDirs opt @ ExcludeFiles opt @ HighRiskOptIn opt @
        (if ExcludeRootDirs opt \<noteq> [] then ''exclude_root_dirs:v1'' # ExcludeRootDirs opt else []))"

definition ManagedSelectionIdentity :: "(string \<Rightarrow> string) \<Rightarrow> string \<Rightarrow> string list \<Rightarrow> string" where
  "ManagedSelectionIdentity sha rulesIdentity paths = digestStrings sha (rulesIdentity # sort_strings paths)"

fun check_opt_in :: "(rune \<Rightarrow> rune) \<Rightarrow> string \<Rightarrow> string list \<Rightarrow> (inventory_error, string list) result" where
  "check_opt_in uni rules [] = Inr []"
| "check_opt_in uni rules (p # ps) =
     (if contains_any p ''*?['' then Inl HighRiskOptInInvalid
      else
        let (clean, ok) = safeRelativePath p in
        if \<not> ok then Inl HighRiskOptInInvalid
        else if fst (BuiltInSafetyCategory uni clean rules) \<noteq> SafetySensitive then Inl HighRiskOptInForbidden
        else case check_opt_in uni rules ps of Inl e \<Rightarrow> Inl e | Inr cs \<Rightarrow> Inr (clean # cs))"

text \<open>One Git ignored name: an exclusion line, or a path that joins the untracked ones.\<close>

definition ignored_path :: "(rune \<Rightarrow> rune) \<Rightarrow> WalkOptions \<Rightarrow> string list \<Rightarrow> string list \<times> SafeInventory \<Rightarrow> string \<Rightarrow> string list \<times> SafeInventory" where
  "ignored_path uni opt optIn st rel =
     (let (untracked, report) = st; (category, source) = BuiltInSafetyCategory uni rel (SensitiveNameRules opt) in
      if category \<noteq> [] \<and> rel \<notin> set optIn then (untracked, addExclusion rel category source False report)
      else case ignoredArtifactSource rel opt of
        Some artifact \<Rightarrow> (untracked, addExclusion rel SafetyConfigured artifact False report)
      | None \<Rightarrow>
          if rel \<in> set optIn then (untracked @ [rel], report)
          else if IncludeIgnoredCandidates opt then (untracked @ [rel], report\<lparr>IgnoredPaths := IgnoredPaths report @ [rel]\<rparr>)
          else (untracked, addExclusion rel SafetyIgnored ''gitignore'' False report))"

definition recordCasefoldPath :: "(rune \<Rightarrow> rune) \<Rightarrow> (string \<rightharpoonup> string) \<Rightarrow> string \<Rightarrow> (inventory_error, string \<rightharpoonup> string) result" where
  "recordCasefoldPath uni seen path =
     (let folded = to_lower uni path in
      case seen folded of
        Some previous \<Rightarrow> if previous \<noteq> path then Inl CasefoldConflict else Inr (seen(folded \<mapsto> path))
      | None \<Rightarrow> Inr (seen(folded \<mapsto> path)))"

definition add_candidate :: "string \<Rightarrow> bool \<Rightarrow> bool \<Rightarrow> SafeInventory \<Rightarrow> SafeInventory" where
  "add_candidate rel highRisk tracked report =
     (let s = (if highRisk then (addReviewVisible 1 (Summary report))\<lparr>AutoBlockerCount := AutoBlockerCount (Summary report) + 1\<rparr>
               else Summary report) in
      report\<lparr>Summary := s, ManagedCandidates := ManagedCandidates report @ [rel],
             TrackedPaths := (if tracked then TrackedPaths report @ [rel] else TrackedPaths report)\<rparr>)"

fun candidate_loop ::
  "(rune \<Rightarrow> rune) \<Rightarrow> WalkOptions \<Rightarrow> (string \<Rightarrow> bool) \<Rightarrow> string list \<Rightarrow> string list \<Rightarrow> string list
   \<Rightarrow> string list \<Rightarrow> (string \<rightharpoonup> string) \<Rightarrow> SafeInventory \<Rightarrow> string list \<Rightarrow> (inventory_error, SafeInventory) result" where
  "candidate_loop uni opt regular optIn trackedSet gitlinks seen casefold report [] = Inr report"
| "candidate_loop uni opt regular optIn trackedSet gitlinks seen casefold report (raw # rest) =
     (let (rel, ok) = safeRelativePath raw in
      if \<not> ok \<or> rel \<in> set seen
      then candidate_loop uni opt regular optIn trackedSet gitlinks seen casefold report rest
      else
        let tracked = (rel \<in> set trackedSet);
            (category, source) = BuiltInSafetyCategory uni rel (SensitiveNameRules opt) in
        if rel \<in> set gitlinks then
          candidate_loop uni opt regular optIn trackedSet gitlinks (rel # seen) casefold
            (addExclusion rel SafetyUnsafe ''git_submodule'' tracked report) rest
        else if category \<noteq> [] \<and> rel \<notin> set optIn then
          candidate_loop uni opt regular optIn trackedSet gitlinks (rel # seen) casefold
            (addExclusion rel category source tracked report) rest
        else case ConfiguredExclusionSource rel opt of
          Some configured \<Rightarrow>
            candidate_loop uni opt regular optIn trackedSet gitlinks (rel # seen) casefold
              (addExclusion rel SafetyConfigured configured tracked report) rest
        | None \<Rightarrow>
            if \<not> regular rel then
              candidate_loop uni opt regular optIn trackedSet gitlinks (rel # seen) casefold
                (addExclusion rel SafetyUnsafe ''filesystem_boundary'' tracked report) rest
            else case recordCasefoldPath uni casefold rel of
              Inl e \<Rightarrow> Inl e
            | Inr casefold' \<Rightarrow>
                candidate_loop uni opt regular optIn trackedSet gitlinks (rel # seen) casefold'
                  (add_candidate rel (category \<noteq> []) tracked report) rest)"

definition empty_report :: "bool \<Rightarrow> nat \<Rightarrow> nat \<Rightarrow> nat \<Rightarrow> string list \<Rightarrow> SafeInventory" where
  "empty_report repository tracked untracked ignored childRoots =
     \<lparr>Summary = \<lparr>siVersion = SafeInventoryVersion, siGitRepository = repository, siGitTracked = tracked, NonignoredUntracked = untracked,
        Ignored = ignored, BuiltinSensitiveExcluded = 0, RuntimeExcluded = 0, GeneratedExcluded = 0, ConfiguredExcluded = 0,
        CurationExcluded = 0, UnsafeFilesystemExcluded = 0, FinalManagedCandidates = 0, ReviewVisibleCount = 0, AutoBlockerCount = 0,
        RequiredHumanReview = 0, RulesIdentity = [], siSensitiveNameRules = [], InclusionExclusionIdentity = [],
        ChildRepositories = length childRoots\<rparr>,
      ManagedCandidates = [], TrackedPaths = [], IgnoredPaths = [], Exclusions = [], ChildRepositoryRoots = childRoots\<rparr>"

definition sort_report :: "SafeInventory \<Rightarrow> SafeInventory" where
  "sort_report r =
     r\<lparr>ManagedCandidates := sort_strings (ManagedCandidates r), TrackedPaths := sort_strings (TrackedPaths r),
       IgnoredPaths := sort_strings (IgnoredPaths r), Exclusions := sort_exclusions (Exclusions r)\<rparr>"

definition seal_report :: "(string \<Rightarrow> string) \<Rightarrow> WalkOptions \<Rightarrow> SafeInventory \<Rightarrow> SafeInventory" where
  "seal_report sha opt r =
     r\<lparr>Summary := (Summary r)\<lparr>FinalManagedCandidates := length (ManagedCandidates r),
         RulesIdentity := safeInventoryRulesIdentity sha opt,
         siSensitiveNameRules := NormalizeSensitiveNameRules (SensitiveNameRules opt),
         InclusionExclusionIdentity := ManagedSelectionIdentity sha (safeInventoryRulesIdentity sha opt) (ManagedCandidates r)\<rparr>\<rparr>"

definition exclude_collapsed :: "(rune \<Rightarrow> rune) \<Rightarrow> WalkOptions \<Rightarrow> SafeInventory \<Rightarrow> string \<Rightarrow> SafeInventory" where
  "exclude_collapsed uni opt report dir =
     (case HardExcludedDirectory uni dir opt of
        Some (category, source) \<Rightarrow> addExclusion (dir @ slash) category source False report
      | None \<Rightarrow> addExclusion (dir @ slash) [] [] False report)"

text \<open>From the lists of paths to the report.\<close>

definition inventory_of ::
  "(rune \<Rightarrow> rune) \<Rightarrow> (string \<Rightarrow> string) \<Rightarrow> (string \<Rightarrow> bool) \<Rightarrow> WalkOptions \<Rightarrow> string list \<Rightarrow> bool \<Rightarrow> containerInventory
   \<Rightarrow> (inventory_error, SafeInventory) result" where
  "inventory_of uni sha regular opt optIn repository c =
     (let report0 = empty_report repository (length (cTracked c)) (length (cUntracked c))
                      (length (cIgnored c) + length (cIgnoredDirs c)) (cChildRoots c);
          report1 = foldl (\<lambda>r x. addExclusion (PathSummary x) (Category x) (exRuleSource x) False r) report0 (cPruned c);
          report2 = foldl (exclude_collapsed uni opt) report1 (cIgnoredDirs c);
          (untracked, report3) = foldl (ignored_path uni opt optIn) (cUntracked c, report2) (cIgnored c) in
      case candidate_loop uni opt regular optIn (cTracked c) (cGitlinks c) [] Map.empty report3
             (sort_strings (cTracked c @ untracked)) of
        Inl e \<Rightarrow> Inl e
      | Inr report \<Rightarrow> Inr (seal_report sha opt (sort_report report)))"

definition listing_container :: "listing \<Rightarrow> containerInventory" where
  "listing_container l =
     \<lparr>cTracked = liTracked l, cUntracked = liUntracked l, cIgnored = liIgnored l, cIgnoredDirs = liCollapsed l,
      cGitlinks = liGitlinks l, cPruned = [], cChildRoots = []\<rparr>"

definition BuildSafeInventory ::
  "(rune \<Rightarrow> rune) \<Rightarrow> (string \<Rightarrow> string) \<Rightarrow> (string \<Rightarrow> bool) \<Rightarrow> string option \<Rightarrow> git_host \<Rightarrow> fs_entries \<Rightarrow> WalkOptions
   \<Rightarrow> (inventory_error, SafeInventory) result" where
  "BuildSafeInventory uni sha regular absolute host entries opt =
     (case absolute of
        None \<Rightarrow> Inl RootInvalid
      | Some root \<Rightarrow>
          case check_opt_in uni (SensitiveNameRules opt) (HighRiskOptIn opt) of
            Inl e \<Rightarrow> Inl e
          | Inr optIn \<Rightarrow>
              let collapsible = (\<lambda>dir. HardExcludedDirectory uni dir opt \<noteq> None) in
              case gitInventory host root collapsible of
                Inl e \<Rightarrow> Inl e
              | Inr l \<Rightarrow>
                  if liRepository l then inventory_of uni sha regular opt optIn True (listing_container l)
                  else case traverseContainer uni opt root collapsible entries of
                    Inl e \<Rightarrow> Inl e
                  | Inr c \<Rightarrow> inventory_of uni sha regular opt optIn False c)"

definition WalkRepo ::
  "(rune \<Rightarrow> rune) \<Rightarrow> (string \<Rightarrow> string) \<Rightarrow> (string \<Rightarrow> bool) \<Rightarrow> string option \<Rightarrow> git_host \<Rightarrow> fs_entries \<Rightarrow> WalkOptions
   \<Rightarrow> (inventory_error, string list) result" where
  "WalkRepo uni sha regular absolute host entries opt =
     map_sum id ManagedCandidates (BuildSafeInventory uni sha regular absolute host entries opt)"

end
