(* ===== verification/Fs_Inventory_Laws.thy ===== *)
theory Fs_Inventory_Laws
  imports Fs_Inventory "HOL-Library.Multiset"
begin

text \<open>
  What the Safe Inventory promises: the candidate loop admits only paths the boundary allows, loses
  none, and keeps its counters; collapsing an ignored directory hides no candidate.
\<close>

section \<open>Sorting\<close>

lemma mset_insort_exclusion: "mset (insort_exclusion x xs) = add_mset x (mset xs)"
  by (induction xs) auto

lemma mset_sort_exclusions: "mset (sort_exclusions xs) = mset xs"
  unfolding sort_exclusions_def by (induction xs) (auto simp: mset_insort_exclusion)

lemma set_sort_exclusions [simp]: "set (sort_exclusions xs) = set xs"
  by (rule mset_eq_setD [OF mset_sort_exclusions])

lemma mset_insort_str: "mset (insort_str x xs) = add_mset x (mset xs)"
  by (induction xs) auto

lemma mset_sort_strings: "mset (sort_strings xs) = mset xs"
  unfolding sort_strings_def by (induction xs) (auto simp: mset_insort_str)

lemma length_filter_mset: "mset xs = mset ys \<Longrightarrow> length (filter P xs) = length (filter P ys)"
  by (metis mset_filter size_mset)

section \<open>Induction over the candidate loop\<close>

text \<open>What the loop has established of a path when it makes it a candidate.\<close>

definition admitted :: "(rune \<Rightarrow> rune) \<Rightarrow> WalkOptions \<Rightarrow> (string \<Rightarrow> bool) \<Rightarrow> string list \<Rightarrow> string list \<Rightarrow> string \<Rightarrow> bool" where
  "admitted uni opt regular optIn gitlinks rel \<longleftrightarrow>
     (fst (BuiltInSafetyCategory uni rel (SensitiveNameRules opt)) = [] \<or> rel \<in> set optIn) \<and>
     ConfiguredExclusionSource rel opt = None \<and> regular rel \<and> rel \<notin> set gitlinks"

definition cleaned :: "string list \<Rightarrow> string set" where
  "cleaned raws = {fst (safeRelativePath raw) | raw. raw \<in> set raws \<and> snd (safeRelativePath raw)}"

lemma cleaned_Nil: "cleaned [] = {}"
  by (simp add: cleaned_def)

lemma cleaned_Cons: "cleaned (x # xs) = (if snd (safeRelativePath x) then insert (fst (safeRelativePath x)) (cleaned xs) else cleaned xs)"
  by (auto simp: cleaned_def)

lemma cleaned_member: "x \<in> set xs \<Longrightarrow> snd (safeRelativePath x) \<Longrightarrow> fst (safeRelativePath x) \<in> cleaned xs"
  by (auto simp: cleaned_def)

lemma cleaned_sort [simp]: "cleaned (sort_strings xs) = cleaned xs"
  by (simp add: cleaned_def)

lemma cleaned_append: "cleaned (xs @ ys) = cleaned xs \<union> cleaned ys"
  by (auto simp: cleaned_def)

text \<open>
  An invariant of the variables \<open>seen\<close>, \<open>casefold\<close> and \<open>report\<close> holds at the end, when every safe
  path has been seen.
\<close>

lemma candidate_loop_induct [consumes 1, case_names start exclude admit]:
  assumes "candidate_loop uni opt regular optIn trackedSet gitlinks seen casefold report raws = Inr r"
    and "P seen casefold report"
    and "\<And>seen casefold rel c s t r. rel \<notin> set seen \<Longrightarrow> \<not> admitted uni opt regular optIn gitlinks rel \<Longrightarrow> P seen casefold r \<Longrightarrow>
           P (rel # seen) casefold (addExclusion rel c s t r)"
    and "\<And>seen casefold casefold' rel t r. rel \<notin> set seen \<Longrightarrow> admitted uni opt regular optIn gitlinks rel \<Longrightarrow>
           recordCasefoldPath uni casefold rel = Inr casefold' \<Longrightarrow> P seen casefold r \<Longrightarrow>
           P (rel # seen) casefold' (add_candidate rel (fst (BuiltInSafetyCategory uni rel (SensitiveNameRules opt)) \<noteq> []) t r)"
  shows "\<exists>seen' casefold'. P seen' casefold' r \<and> set seen' = set seen \<union> cleaned raws"
  using assms(1,2)
proof (induction raws arbitrary: seen casefold report)
  case Nil
  then show ?case by (auto simp: cleaned_Nil)
next
  case (Cons raw raws)
  obtain rel ok where safe: "safeRelativePath raw = (rel, ok)" by fastforce
  obtain category source where cat: "BuiltInSafetyCategory uni rel (SensitiveNameRules opt) = (category, source)" by fastforce
  note step = Cons.prems(1) [unfolded candidate_loop.simps, simplified safe cat Let_def prod.case]
  have again: ?case if ok and h: "candidate_loop uni opt regular optIn trackedSet gitlinks (rel # seen) cf rep raws = Inr r" "P (rel # seen) cf rep" for cf rep
  proof -
    obtain seen' casefold' where *: "P seen' casefold' r" "set seen' = set (rel # seen) \<union> cleaned raws"
      using Cons.IH [OF h] by blast
    show ?thesis
      by (intro exI [of _ seen'] exI [of _ casefold'] conjI) (use * safe \<open>ok\<close> in \<open>simp_all add: cleaned_Cons\<close>)
  qed
  consider "\<not> ok \<or> rel \<in> set seen" | c s where "ok" "rel \<notin> set seen" "\<not> admitted uni opt regular optIn gitlinks rel"
      "candidate_loop uni opt regular optIn trackedSet gitlinks (rel # seen) casefold (addExclusion rel c s (rel \<in> set trackedSet) report) raws = Inr r"
    | cf where "ok" "rel \<notin> set seen" "admitted uni opt regular optIn gitlinks rel" "recordCasefoldPath uni casefold rel = Inr cf"
      "candidate_loop uni opt regular optIn trackedSet gitlinks (rel # seen) cf (add_candidate rel (category \<noteq> []) (rel \<in> set trackedSet) report) raws = Inr r"
    using step cat unfolding admitted_def
    by (auto split: if_splits option.splits sum.splits)
  then show ?case
  proof cases
    case 1
    then have "candidate_loop uni opt regular optIn trackedSet gitlinks seen casefold report raws = Inr r" using step by auto
    from Cons.IH [OF this Cons.prems(2)] obtain seen' casefold' where
      *: "P seen' casefold' r" "set seen' = set seen \<union> cleaned raws" by blast
    show ?thesis
      by (intro exI [of _ seen'] exI [of _ casefold'] conjI) (use * 1 safe in \<open>auto simp: cleaned_Cons\<close>)
  next
    case 2
    then show ?thesis using again [OF 2(1,4)] assms(3) [OF 2(2,3) Cons.prems(2)] by blast
  next
    case 3
    then show ?thesis using again [OF 3(1,5)] assms(4) [OF 3(2,3,4) Cons.prems(2)] cat by (metis fst_conv)
  qed
qed

section \<open>Counters\<close>

definition counters_ok :: "SafeInventory \<Rightarrow> bool" where
  "counters_ok r \<longleftrightarrow>
     (let s = Summary r; n = (\<lambda>c. length (filter (\<lambda>x. Category x = c) (Exclusions r))) in
      BuiltinSensitiveExcluded s = n SafetySensitive \<and> RuntimeExcluded s = n SafetyRuntime \<and>
      GeneratedExcluded s = n SafetyGenerated \<and> ConfiguredExcluded s = n SafetyConfigured \<and>
      UnsafeFilesystemExcluded s = n SafetyUnsafe \<and>
      ReviewVisibleCount s = length (filter exGitTracked (Exclusions r)) + AutoBlockerCount s \<and>
      RequiredHumanReview s = ReviewVisibleCount s)"

lemma counters_ok_addExclusion: "counters_ok r \<Longrightarrow> counters_ok (addExclusion p c s t r)"
  by (auto simp: counters_ok_def addExclusion_def count_exclusion_def addReviewVisible_def Let_def)

lemma counters_ok_add_candidate: "counters_ok r \<Longrightarrow> counters_ok (add_candidate p h t r)"
  by (auto simp: counters_ok_def add_candidate_def addReviewVisible_def Let_def)

section \<open>Before the loop\<close>

text \<open>What the lines written before the candidate loop keep: no candidates, correct counters.\<close>

definition prelude_ok :: "SafeInventory \<Rightarrow> bool" where
  "prelude_ok r \<longleftrightarrow> counters_ok r \<and> ManagedCandidates r = [] \<and> AutoBlockerCount (Summary r) = 0"

lemma prelude_ok_addExclusion: "prelude_ok r \<Longrightarrow> prelude_ok (addExclusion p c s t r)"
  by (simp add: prelude_ok_def counters_ok_addExclusion)
    (simp add: addExclusion_def count_exclusion_def addReviewVisible_def Let_def)

lemma prelude_ok_foldl: "(\<And>r x. prelude_ok r \<Longrightarrow> prelude_ok (f r x)) \<Longrightarrow> prelude_ok r \<Longrightarrow> prelude_ok (foldl f r xs)"
  by (induction xs arbitrary: r) auto

lemma prelude_ok_ignored: "prelude_ok (snd st) \<Longrightarrow> prelude_ok (snd (ignored_path uni opt optIn st rel))"
  unfolding ignored_path_def
  by (auto split: prod.splits option.splits intro!: prelude_ok_addExclusion)
    (auto simp: prelude_ok_def counters_ok_def)

lemma prelude_ok_foldl_ignored: "prelude_ok (snd st) \<Longrightarrow> prelude_ok (snd (foldl (ignored_path uni opt optIn) st xs))"
  by (induction xs arbitrary: st) (auto simp: prelude_ok_ignored)

lemma prelude_ok_collapsed: "prelude_ok r \<Longrightarrow> prelude_ok (exclude_collapsed uni opt r d)"
  unfolding exclude_collapsed_def by (auto split: option.splits prod.splits intro: prelude_ok_addExclusion)

lemma prelude_ok_empty: "prelude_ok (empty_report b t u i c)"
  by (simp add: prelude_ok_def counters_ok_def empty_report_def Let_def)

definition before_loop :: "(rune \<Rightarrow> rune) \<Rightarrow> WalkOptions \<Rightarrow> string list \<Rightarrow> bool \<Rightarrow> containerInventory \<Rightarrow> string list \<times> SafeInventory" where
  "before_loop uni opt optIn repository c =
     foldl (ignored_path uni opt optIn)
       (cUntracked c,
        foldl (exclude_collapsed uni opt)
          (foldl (\<lambda>r x. addExclusion (PathSummary x) (Category x) (exRuleSource x) False r)
             (empty_report repository (length (cTracked c)) (length (cUntracked c))
                (length (cIgnored c) + length (cIgnoredDirs c)) (cChildRoots c)) (cPruned c))
          (cIgnoredDirs c)) (cIgnored c)"

lemma prelude_ok_before_loop: "prelude_ok (snd (before_loop uni opt optIn repository c))"
  unfolding before_loop_def
  by (intro prelude_ok_foldl_ignored) (simp add: prelude_ok_foldl prelude_ok_collapsed prelude_ok_addExclusion prelude_ok_empty)

lemma inventory_of_loop:
  assumes "inventory_of uni sha regular opt optIn repository c = Inr si"
  obtains report where
    "candidate_loop uni opt regular optIn (cTracked c) (cGitlinks c) [] Map.empty (snd (before_loop uni opt optIn repository c))
       (sort_strings (cTracked c @ fst (before_loop uni opt optIn repository c))) = Inr report"
    "si = seal_report sha opt (sort_report report)"
  using assms unfolding inventory_of_def before_loop_def [symmetric] Let_def
  by (auto split: prod.splits sum.splits)

section \<open>Options\<close>

lemma check_opt_in_spec:
  "check_opt_in uni rules ps = Inr cs \<Longrightarrow>
   cs = map (fst \<circ> safeRelativePath) ps \<and> (\<forall>c \<in> set cs. fst (BuiltInSafetyCategory uni c rules) = SafetySensitive)"
  by (induction ps arbitrary: cs) (auto simp: Let_def split: if_splits prod.splits sum.splits)

lemma BuildSafeInventory_inventory_of:
  assumes "BuildSafeInventory uni sha regular absolute host entries opt = Inr si"
  obtains optIn repository c where
    "check_opt_in uni (SensitiveNameRules opt) (HighRiskOptIn opt) = Inr optIn"
    "inventory_of uni sha regular opt optIn repository c = Inr si"
  using assms unfolding BuildSafeInventory_def Let_def
  by (auto split: option.splits sum.splits if_splits)

section \<open>The boundary\<close>

lemma recordCasefoldPath_Inr:
  "recordCasefoldPath uni casefold rel = Inr casefold' \<Longrightarrow>
   casefold' = casefold(to_lower uni rel \<mapsto> rel) \<and> (casefold (to_lower uni rel) = None \<or> casefold (to_lower uni rel) = Some rel)"
  by (auto simp: recordCasefoldPath_def Let_def split: option.splits if_splits)

definition loop_inv ::
  "(rune \<Rightarrow> rune) \<Rightarrow> WalkOptions \<Rightarrow> (string \<Rightarrow> bool) \<Rightarrow> string list \<Rightarrow> string list \<Rightarrow> string set
   \<Rightarrow> string list \<Rightarrow> (string \<rightharpoonup> string) \<Rightarrow> SafeInventory \<Rightarrow> bool" where
  "loop_inv uni opt regular optIn gitlinks before seen casefold r \<longleftrightarrow>
     counters_ok r \<and> (\<forall>p \<in> set (ManagedCandidates r). admitted uni opt regular optIn gitlinks p) \<and>
     distinct (ManagedCandidates r) \<and> set (ManagedCandidates r) \<subseteq> set seen \<and>
     (\<forall>p \<in> set (ManagedCandidates r). casefold (to_lower uni p) = Some p) \<and>
     AutoBlockerCount (Summary r) = length (filter (\<lambda>p. fst (BuiltInSafetyCategory uni p (SensitiveNameRules opt)) \<noteq> []) (ManagedCandidates r)) \<and>
     before \<subseteq> PathSummary ` set (Exclusions r) \<and>
     set seen \<subseteq> set (ManagedCandidates r) \<union> PathSummary ` set (Exclusions r) \<and>
     (\<forall>p \<in> set seen. admitted uni opt regular optIn gitlinks p \<longrightarrow> p \<in> set (ManagedCandidates r))"

lemma loop_inv_casefold:
  assumes "loop_inv uni opt regular optIn gitlinks before seen casefold r" "p \<in> set (ManagedCandidates r)"
  shows "casefold (to_lower uni p) = Some p"
proof -
  have "\<forall>p \<in> set (ManagedCandidates r). casefold (to_lower uni p) = Some p" using assms(1) unfolding loop_inv_def by (elim conjE)
  then show ?thesis using assms(2) by (rule bspec)
qed

lemma loop_inv_exclude:
  assumes "loop_inv uni opt regular optIn gitlinks before seen casefold r" "\<not> admitted uni opt regular optIn gitlinks rel"
  shows "loop_inv uni opt regular optIn gitlinks before (rel # seen) casefold (addExclusion rel c s t r)"
proof -
  have "counters_ok (addExclusion rel c s t r)" using assms counters_ok_addExclusion by (auto simp: loop_inv_def)
  moreover have "ManagedCandidates (addExclusion rel c s t r) = ManagedCandidates r"
    "AutoBlockerCount (Summary (addExclusion rel c s t r)) = AutoBlockerCount (Summary r)"
    "PathSummary ` set (Exclusions (addExclusion rel c s t r)) = insert rel (PathSummary ` set (Exclusions r))"
    by (simp_all add: addExclusion_def count_exclusion_def addReviewVisible_def Let_def)
  ultimately show ?thesis using assms unfolding loop_inv_def by auto
qed

lemma loop_inv_admit:
  assumes "loop_inv uni opt regular optIn gitlinks before seen casefold r" "rel \<notin> set seen"
    "admitted uni opt regular optIn gitlinks rel" "recordCasefoldPath uni casefold rel = Inr casefold'"
  shows "loop_inv uni opt regular optIn gitlinks before (rel # seen) casefold'
    (add_candidate rel (fst (BuiltInSafetyCategory uni rel (SensitiveNameRules opt)) \<noteq> []) t r)"
proof -
  let ?h = "fst (BuiltInSafetyCategory uni rel (SensitiveNameRules opt)) \<noteq> []"
  have cands: "ManagedCandidates (add_candidate rel ?h t r) = ManagedCandidates r @ [rel]"
    "Exclusions (add_candidate rel ?h t r) = Exclusions r"
    "AutoBlockerCount (Summary (add_candidate rel ?h t r)) = AutoBlockerCount (Summary r) + (if ?h then 1 else 0)"
    by (simp_all add: add_candidate_def Let_def)
  have cf: "casefold' = casefold(to_lower uni rel \<mapsto> rel)" "casefold (to_lower uni rel) = None \<or> casefold (to_lower uni rel) = Some rel"
    using recordCasefoldPath_Inr [OF assms(4)] by auto
  have "to_lower uni p \<noteq> to_lower uni rel" if "p \<in> set (ManagedCandidates r)" for p
    using assms(1,2) that cf(2) unfolding loop_inv_def by force
  then show ?thesis
    using assms cands cf(1) counters_ok_add_candidate [of r rel ?h t] unfolding loop_inv_def by auto
qed

lemma candidate_loop_result:
  assumes "candidate_loop uni opt regular optIn trackedSet gitlinks [] Map.empty r0 raws = Inr r" "prelude_ok r0"
  obtains seen casefold where "loop_inv uni opt regular optIn gitlinks (PathSummary ` set (Exclusions r0)) seen casefold r"
    "set seen = cleaned raws"
proof -
  have "loop_inv uni opt regular optIn gitlinks (PathSummary ` set (Exclusions r0)) [] Map.empty r0"
    using assms(2) by (auto simp: loop_inv_def prelude_ok_def)
  then have "\<exists>seen casefold. loop_inv uni opt regular optIn gitlinks (PathSummary ` set (Exclusions r0)) seen casefold r \<and>
      set seen = set [] \<union> cleaned raws"
    by (rule candidate_loop_induct [OF assms(1)]) (rule loop_inv_exclude loop_inv_admit, assumption+)+
  then show ?thesis using that by force
qed

lemma sealed_fields [simp]:
  "ManagedCandidates (seal_report sha opt (sort_report r)) = sort_strings (ManagedCandidates r)"
  "Exclusions (seal_report sha opt (sort_report r)) = sort_exclusions (Exclusions r)"
  "AutoBlockerCount (Summary (seal_report sha opt (sort_report r))) = AutoBlockerCount (Summary r)"
  "FinalManagedCandidates (Summary (seal_report sha opt (sort_report r))) = length (ManagedCandidates r)"
  by (simp_all add: seal_report_def sort_report_def)

lemma counters_ok_sealed: "counters_ok r \<Longrightarrow> counters_ok (seal_report sha opt (sort_report r))"
  using length_filter_mset [OF mset_sort_exclusions [of "Exclusions r"]]
  by (simp add: counters_ok_def seal_report_def sort_report_def Let_def)

lemma sorted_strict:
  assumes "distinct xs"
  shows "sorted_wrt str_less (sort_strings xs)"
proof -
  have d: "distinct (sort_strings xs)" using assms mset_sort_strings mset_eq_imp_distinct_iff by metis
  show ?thesis unfolding sorted_wrt_iff_nth_less
  proof (intro allI impI)
    fix i j assume ij: "i < j" "j < length (sort_strings xs)"
    have "str_le (sort_strings xs ! i) (sort_strings xs ! j)" using sorted_sort_strings ij by (simp add: sorted_wrt_iff_nth_less)
    moreover have "sort_strings xs ! i \<noteq> sort_strings xs ! j" using d ij by (simp add: nth_eq_iff_index_eq)
    ultimately show "str_less (sort_strings xs ! i) (sort_strings xs ! j)" using str_less_linear by (auto simp: str_le_def)
  qed
qed

text \<open>What every successful inventory has, whichever way its lists of paths came about.\<close>

lemma inventory_of_report:
  assumes "inventory_of uni sha regular opt optIn repository c = Inr si"
  obtains r seen casefold where "si = seal_report sha opt (sort_report r)"
    "loop_inv uni opt regular optIn (cGitlinks c) (PathSummary ` set (Exclusions (snd (before_loop uni opt optIn repository c)))) seen casefold r"
    "set seen = cleaned (cTracked c) \<union> cleaned (fst (before_loop uni opt optIn repository c))"
proof -
  obtain r where r: "si = seal_report sha opt (sort_report r)"
    and loop: "candidate_loop uni opt regular optIn (cTracked c) (cGitlinks c) [] Map.empty (snd (before_loop uni opt optIn repository c))
       (sort_strings (cTracked c @ fst (before_loop uni opt optIn repository c))) = Inr r"
    using inventory_of_loop [OF assms] by blast
  obtain seen casefold where
    "loop_inv uni opt regular optIn (cGitlinks c) (PathSummary ` set (Exclusions (snd (before_loop uni opt optIn repository c)))) seen casefold r"
    "set seen = cleaned (sort_strings (cTracked c @ fst (before_loop uni opt optIn repository c)))"
    using candidate_loop_result [OF loop prelude_ok_before_loop] by blast
  then show ?thesis using that r by (simp add: cleaned_append)
qed

lemma inventory_boundary:
  assumes "BuildSafeInventory uni sha regular absolute host entries opt = Inr si"
    and "p \<in> set (ManagedCandidates si)"
  shows "regular p \<and> ConfiguredExclusionSource p opt = None \<and>
    (fst (BuiltInSafetyCategory uni p (SensitiveNameRules opt)) = [] \<or>
     (fst (BuiltInSafetyCategory uni p (SensitiveNameRules opt)) = SafetySensitive \<and>
      (\<exists>q \<in> set (HighRiskOptIn opt). p = fst (safeRelativePath q))))"
proof -
  obtain optIn repository c where opt: "check_opt_in uni (SensitiveNameRules opt) (HighRiskOptIn opt) = Inr optIn"
    and inventory: "inventory_of uni sha regular opt optIn repository c = Inr si"
    using BuildSafeInventory_inventory_of [OF assms(1)] by blast
  obtain r seen casefold where r: "si = seal_report sha opt (sort_report r)"
    and loop: "loop_inv uni opt regular optIn (cGitlinks c) (PathSummary ` set (Exclusions (snd (before_loop uni opt optIn repository c)))) seen casefold r"
    using inventory_of_report [OF inventory] by blast
  have adm: "admitted uni opt regular optIn (cGitlinks c) p" using loop assms(2) r by (auto simp: loop_inv_def)
  have opted: "fst (BuiltInSafetyCategory uni p (SensitiveNameRules opt)) = SafetySensitive \<and> (\<exists>q \<in> set (HighRiskOptIn opt). p = fst (safeRelativePath q))"
    if "p \<in> set optIn" using check_opt_in_spec [OF opt] that by (force simp: comp_def)
  have "fst (BuiltInSafetyCategory uni p (SensitiveNameRules opt)) = [] \<or> p \<in> set optIn" using adm unfolding admitted_def by (elim conjE)
  from disj_forward [OF this _ opted] have "fst (BuiltInSafetyCategory uni p (SensitiveNameRules opt)) = [] \<or>
     (fst (BuiltInSafetyCategory uni p (SensitiveNameRules opt)) = SafetySensitive \<and> (\<exists>q \<in> set (HighRiskOptIn opt). p = fst (safeRelativePath q)))" .
  then show ?thesis using adm unfolding admitted_def by (intro conjI) (elim conjE, assumption)+
qed

text \<open>
  \<^bold>\<open>C2\<close>. The Safe Inventory is a boundary: a path it hands out as a managed candidate is a regular file, is
  excluded by no project configuration, and carries no built-in safety category, unless it is a
  sensitive name that the caller opted in exactly; in particular runtime, generated and unsafe
  objects cannot be opted in. The candidates are strictly sorted and no two of them differ only in
  letter case.
\<close>

theorem BuildSafeInventory_boundary:
  assumes "BuildSafeInventory uni sha regular absolute host entries opt = Inr si"
    and "p \<in> set (ManagedCandidates si)"
  shows "regular p \<and> ConfiguredExclusionSource p opt = None \<and>
    (fst (BuiltInSafetyCategory uni p (SensitiveNameRules opt)) = [] \<or>
     (fst (BuiltInSafetyCategory uni p (SensitiveNameRules opt)) = SafetySensitive \<and>
      (\<exists>q \<in> set (HighRiskOptIn opt). p = fst (safeRelativePath q)))) \<and>
    sorted_wrt str_less (ManagedCandidates si) \<and>
    (\<forall>q \<in> set (ManagedCandidates si). to_lower uni q = to_lower uni p \<longrightarrow> q = p)"
proof -
  obtain optIn repository c where inventory: "inventory_of uni sha regular opt optIn repository c = Inr si"
    using BuildSafeInventory_inventory_of [OF assms(1)] by blast
  obtain r seen casefold where r: "si = seal_report sha opt (sort_report r)"
    and loop: "loop_inv uni opt regular optIn (cGitlinks c) (PathSummary ` set (Exclusions (snd (before_loop uni opt optIn repository c)))) seen casefold r"
    using inventory_of_report [OF inventory] by blast
  have p: "p \<in> set (ManagedCandidates r)" using assms(2) r by simp
  have "q = p" if "q \<in> set (ManagedCandidates si)" "to_lower uni q = to_lower uni p" for q
  proof -
    have "q \<in> set (ManagedCandidates r)" using that(1) r by simp
    from loop_inv_casefold [OF loop this, unfolded that(2)] loop_inv_casefold [OF loop p]
    have "Some q = Some p" by (rule trans [OF sym])
    then show ?thesis by (rule option.inject [THEN iffD1])
  qed
  moreover have "sorted_wrt str_less (ManagedCandidates si)" using loop r sorted_strict by (simp add: loop_inv_def)
  ultimately show ?thesis using inventory_boundary [OF assms] by (intro conjI ballI impI) (elim conjE, assumption)+
qed

text \<open>
  The counters of the summary are those of the report: each category counts its exclusion lines, the
  paths that need a look are the excluded ones Git tracks together with the high-risk candidates
  (\<open>required_human_review\<close> is the same number), the candidates that block automatic runs are exactly
  those with a built-in category, and the number of candidates is the length of their list.
\<close>

theorem BuildSafeInventory_counters:
  assumes "BuildSafeInventory uni sha regular absolute host entries opt = Inr si"
  shows "counters_ok si \<and> FinalManagedCandidates (Summary si) = length (ManagedCandidates si) \<and>
    AutoBlockerCount (Summary si) =
      length (filter (\<lambda>p. fst (BuiltInSafetyCategory uni p (SensitiveNameRules opt)) \<noteq> []) (ManagedCandidates si))"
proof -
  obtain optIn repository c where inventory: "inventory_of uni sha regular opt optIn repository c = Inr si"
    using BuildSafeInventory_inventory_of [OF assms(1)] by blast
  obtain r seen casefold where r: "si = seal_report sha opt (sort_report r)"
    and loop: "loop_inv uni opt regular optIn (cGitlinks c) (PathSummary ` set (Exclusions (snd (before_loop uni opt optIn repository c)))) seen casefold r"
    using inventory_of_report [OF inventory] by blast
  show ?thesis
    using loop r counters_ok_sealed length_filter_mset [OF mset_sort_strings, of _ "ManagedCandidates r"]
    by (simp add: loop_inv_def)
qed

section \<open>Nothing is lost\<close>

definition reported :: "SafeInventory \<Rightarrow> string set" where
  "reported r = set (ManagedCandidates r) \<union> PathSummary ` set (Exclusions r)"

lemma Exclusions_addExclusion [simp]: "PathSummary ` set (Exclusions (addExclusion p c s t r)) = insert p (PathSummary ` set (Exclusions r))"
  by (simp add: addExclusion_def)

lemma ignored_path_reaches:
  "rel \<in> set (fst (ignored_path uni opt optIn st rel)) \<or> rel \<in> PathSummary ` set (Exclusions (snd (ignored_path uni opt optIn st rel)))"
  unfolding ignored_path_def by (simp add: Let_def split: prod.splits option.splits)

lemma ignored_path_keeps:
  "set (fst st) \<subseteq> set (fst (ignored_path uni opt optIn st rel))"
  "PathSummary ` set (Exclusions (snd st)) \<subseteq> PathSummary ` set (Exclusions (snd (ignored_path uni opt optIn st rel)))"
  unfolding ignored_path_def by (auto simp: Let_def split: prod.splits option.splits)

lemma foldl_ignored_keeps:
  "set (fst st) \<subseteq> set (fst (foldl (ignored_path uni opt optIn) st xs)) \<and>
   PathSummary ` set (Exclusions (snd st)) \<subseteq> PathSummary ` set (Exclusions (snd (foldl (ignored_path uni opt optIn) st xs)))"
proof (induction xs arbitrary: st)
  case (Cons x xs)
  from Cons.IH [of "ignored_path uni opt optIn st x"] ignored_path_keeps [of st uni opt optIn x]
  show ?case unfolding foldl_Cons by (intro conjI) (elim conjE, erule order_trans, assumption)+
qed simp

lemma foldl_ignored_reaches:
  "x \<in> set xs \<Longrightarrow> x \<in> set (fst (foldl (ignored_path uni opt optIn) st xs)) \<or>
     x \<in> PathSummary ` set (Exclusions (snd (foldl (ignored_path uni opt optIn) st xs)))"
proof (induction xs arbitrary: st)
  case (Cons y ys)
  let ?st = "ignored_path uni opt optIn st y"
  note keeps = foldl_ignored_keeps [of ?st uni opt optIn ys]
  show ?case
  proof (cases "x \<in> set ys")
    case True
    then show ?thesis using Cons.IH [of ?st] by simp
  next
    case False
    then have "x \<in> set (fst ?st) \<or> x \<in> PathSummary ` set (Exclusions (snd ?st))"
      using Cons.prems ignored_path_reaches [of y uni opt optIn st] by simp
    then show ?thesis unfolding foldl_Cons
      by (rule disj_forward) (erule subsetD [OF conjunct1 [OF keeps]] subsetD [OF conjunct2 [OF keeps]])+
  qed
qed simp

lemma exclude_collapsed_path: "PathSummary ` set (Exclusions (exclude_collapsed uni opt r d)) = insert (d @ slash) (PathSummary ` set (Exclusions r))"
  by (simp add: exclude_collapsed_def split: option.splits prod.splits)

lemma foldl_collapsed_paths:
  "PathSummary ` set (Exclusions (foldl (exclude_collapsed uni opt) r ds)) = (\<lambda>d. d @ slash) ` set ds \<union> PathSummary ` set (Exclusions r)"
  by (induction ds arbitrary: r) (simp_all add: exclude_collapsed_path)

text \<open>
  \<^bold>\<open>C39\<close>. No path disappears. In a Git repository every tracked and every untracked path Git lists is, under
  its cleaned spelling, a managed candidate or the subject of an exclusion line; an ignored one is an
  exclusion line or treated alike; and a directory listed as a whole has its own line.
\<close>

theorem BuildSafeInventory_complete:
  assumes "BuildSafeInventory uni sha regular (Some root) host entries opt = Inr si"
    and "gitInventory host root (\<lambda>dir. HardExcludedDirectory uni dir opt \<noteq> None) = Inr l" "liRepository l"
  shows "(\<forall>p \<in> set (liTracked l) \<union> set (liUntracked l). snd (safeRelativePath p) \<longrightarrow> fst (safeRelativePath p) \<in> reported si) \<and>
    (\<forall>p \<in> set (liIgnored l). p \<in> reported si \<or> \<not> snd (safeRelativePath p) \<or> fst (safeRelativePath p) \<in> reported si) \<and>
    (\<forall>d \<in> set (liCollapsed l). d @ slash \<in> reported si)"
proof -
  obtain optIn where inventory: "inventory_of uni sha regular opt optIn True (listing_container l) = Inr si"
    using assms unfolding BuildSafeInventory_def Let_def by (auto split: sum.splits)
  let ?b = "before_loop uni opt optIn True (listing_container l)"
  obtain r seen casefold where r: "si = seal_report sha opt (sort_report r)"
    and loop: "loop_inv uni opt regular optIn (cGitlinks (listing_container l)) (PathSummary ` set (Exclusions (snd ?b))) seen casefold r"
    and seen: "set seen = cleaned (liTracked l) \<union> cleaned (fst ?b)"
    using inventory_of_report [OF inventory] by (auto simp: listing_container_def)
  have rep: "reported si = reported r" using r by (simp add: reported_def)
  have seen_rep: "set seen \<subseteq> reported si" and before_rep: "PathSummary ` set (Exclusions (snd ?b)) \<subseteq> reported si"
    using loop rep by (auto simp: loop_inv_def reported_def)
  have untracked: "set (liUntracked l) \<subseteq> set (fst ?b)" and collapsed: "(\<lambda>d. d @ slash) ` set (liCollapsed l) \<subseteq> PathSummary ` set (Exclusions (snd ?b))"
  proof -
    define c where "c = listing_container l"
    define r2 where "r2 = foldl (exclude_collapsed uni opt)
          (foldl (\<lambda>r x. addExclusion (PathSummary x) (Category x) (exRuleSource x) False r)
             (empty_report True (length (cTracked c)) (length (cUntracked c))
                (length (cIgnored c) + length (cIgnoredDirs c)) (cChildRoots c)) (cPruned c))
          (cIgnoredDirs c)"
    have b: "?b = foldl (ignored_path uni opt optIn) (cUntracked c, r2) (cIgnored c)"
      by (simp add: before_loop_def r2_def c_def)
    have dirs: "(\<lambda>d. d @ slash) ` set (cIgnoredDirs c) \<subseteq> PathSummary ` set (Exclusions r2)"
      unfolding r2_def foldl_collapsed_paths by simp
    note keeps = foldl_ignored_keeps [of "(cUntracked c, r2)" uni opt optIn "cIgnored c", folded b]
    have c: "cUntracked c = liUntracked l" "cIgnoredDirs c = liCollapsed l" by (simp_all add: c_def listing_container_def)
    show "set (liUntracked l) \<subseteq> set (fst ?b)" using conjunct1 [OF keeps] c(1) by simp
    show "(\<lambda>d. d @ slash) ` set (liCollapsed l) \<subseteq> PathSummary ` set (Exclusions (snd ?b))"
      using order_trans [OF dirs] conjunct2 [OF keeps] c(2) by simp
  qed
  have ignored: "p \<in> set (fst ?b) \<or> p \<in> PathSummary ` set (Exclusions (snd ?b))" if "p \<in> set (liIgnored l)" for p
    using foldl_ignored_reaches that unfolding before_loop_def listing_container_def containerInventory.simps by blast
  have step: "fst (safeRelativePath p) \<in> reported si"
    if "p \<in> set (liTracked l) \<or> p \<in> set (fst ?b)" "snd (safeRelativePath p)" for p
    using seen that subsetD [OF seen_rep] cleaned_member by (metis UnCI)
  show ?thesis
  proof (intro conjI ballI impI)
    fix p assume "p \<in> set (liTracked l) \<union> set (liUntracked l)" "snd (safeRelativePath p)"
    then show "fst (safeRelativePath p) \<in> reported si" using step subsetD [OF untracked] by (auto simp only: Un_iff)
  next
    fix p assume "p \<in> set (liIgnored l)"
    from ignored [OF this] show "p \<in> reported si \<or> \<not> snd (safeRelativePath p) \<or> fst (safeRelativePath p) \<in> reported si"
    proof
      assume "p \<in> set (fst ?b)"
      then show ?thesis using step by simp
    next
      assume "p \<in> PathSummary ` set (Exclusions (snd ?b))"
      then show ?thesis by (rule disjI1 [OF subsetD [OF before_rep]])
    qed
  next
    fix d assume "d \<in> set (liCollapsed l)"
    then have "d @ slash \<in> (\<lambda>d. d @ slash) ` set (liCollapsed l)" by (rule imageI)
    then show "d @ slash \<in> reported si" by (rule subsetD [OF before_rep, OF subsetD [OF collapsed]])
  qed
qed

section \<open>A sample repository\<close>

text \<open>
  A Git directory with a tracked secret and a tracked submodule, an ignored \<open>.git\<close> directory and an
  untracked source file.
\<close>

definition nul :: string where "nul = [CHR 0x00]"

definition sample_host :: git_host where
  "sample_host =
     \<lparr>dotGit = StatFound, probe = ProbeOutput (''/r'' @ [LF]), sameDirectory = False,
      gitCommand = (\<lambda>args.
        if args = [''-c'', ''core.quotepath=false'', ''ls-files'', ''-z'', ''--cached'', ''--stage''] then
          Inr (''1 a 0'' @ [TAB] @ ''.env'' @ nul @ ''160000 a 0'' @ [TAB] @ ''s'')
        else if args = [''-c'', ''core.quotepath=false''] @ status_args then
          Inr (''!! .git/'' @ nul @ ''?? n.go'')
        else Inl [''fatal''])\<rparr>"

definition sample_options :: WalkOptions where
  "sample_options = \<lparr>ExcludeDirs = [''out''], ExcludeRootDirs = [], ExcludeFiles = [''*.bak''], HighRiskOptIn = [''.env''],
     IncludeIgnoredCandidates = True, SensitiveNameRules = []\<rparr>"

definition sample_inventory :: "(inventory_error, SafeInventory) result" where
  "sample_inventory = BuildSafeInventory id id (\<lambda>_. True) (Some ''/r'') sample_host FsNil sample_options"

lemma sample_inventory_value:
  "case sample_inventory of Inl _ \<Rightarrow> False | Inr si \<Rightarrow>
     ManagedCandidates si = [''.env'', ''n.go''] \<and> map PathSummary (Exclusions si) = [''.git/'', ''s'']"
  by code_simp

lemma sample_listing_value:
  "case gitInventory sample_host ''/r'' (\<lambda>dir. HardExcludedDirectory id dir sample_options \<noteq> None) of Inl _ \<Rightarrow> False | Inr l \<Rightarrow>
     liRepository l \<and> liTracked l = [''.env'', ''s''] \<and> liCollapsed l = [''.git'']"
  by code_simp

theorem BuildSafeInventory_boundary_witness:
  "\<exists>si. sample_inventory = Inr si \<and> ''.env'' \<in> set (ManagedCandidates si) \<and>
     ConfiguredExclusionSource ''.env'' sample_options = None \<and> sorted_wrt str_less (ManagedCandidates si)"
proof -
  obtain si where si: "sample_inventory = Inr si" "ManagedCandidates si = [''.env'', ''n.go'']"
    using result_case_ex [OF sample_inventory_value] by blast
  then have "''.env'' \<in> set (ManagedCandidates si)" by simp
  with BuildSafeInventory_boundary [OF si(1) [unfolded sample_inventory_def] this] si(1) show ?thesis
    by (intro exI [of _ si] conjI) (assumption | elim conjE, assumption)+
qed

theorem BuildSafeInventory_counters_witness:
  "\<exists>si. sample_inventory = Inr si \<and> counters_ok si \<and> FinalManagedCandidates (Summary si) = 2"
proof -
  obtain si where si: "sample_inventory = Inr si" "ManagedCandidates si = [''.env'', ''n.go'']"
    using result_case_ex [OF sample_inventory_value] by blast
  with BuildSafeInventory_counters [OF si(1) [unfolded sample_inventory_def]] show ?thesis
    by (intro exI [of _ si] conjI) (assumption | elim conjE, assumption | simp)+
qed

theorem BuildSafeInventory_complete_witness:
  "\<exists>si. sample_inventory = Inr si \<and> ''.git/'' \<in> reported si"
proof -
  obtain si where si: "sample_inventory = Inr si" using result_case_ex [OF sample_inventory_value] by blast
  obtain l where l: "gitInventory sample_host ''/r'' (\<lambda>dir. HardExcludedDirectory id dir sample_options \<noteq> None) = Inr l"
    "liRepository l" "liCollapsed l = [''.git'']"
    using result_case_ex [OF sample_listing_value] by blast
  from BuildSafeInventory_complete [OF si [unfolded sample_inventory_def] l(1,2)]
  have "\<forall>d \<in> set (liCollapsed l). d @ slash \<in> reported si" by (elim conjE)
  with si l(3) show ?thesis by (intro exI [of _ si]) simp
qed

end
