(* ===== verification/Fs_Collapse.thy ===== *)
theory Fs_Collapse
  imports Fs_Inventory_Laws
begin

text \<open>
  Collapsing a Git ignored directory to one line (\<open>HardExcludedDirectory\<close>, \<open>gitIgnoredPaths\<close>) against the
  full listing of its files: the managed candidates are the same.
\<close>

section \<open>Categories beneath a directory\<close>

lemma first_part_category_append:
  "first_part_category (xs @ ys) = (case first_part_category xs of Some c \<Rightarrow> Some c | None \<Rightarrow> first_part_category ys)"
  by (induction xs) (auto split: option.splits)

lemma part_category_hard: "part_category p = Some c \<Longrightarrow> fst c = SafetyRuntime \<or> fst c = SafetyGenerated"
proof -
  have "pred_option (\<lambda>c. fst c = SafetyRuntime \<or> fst c = SafetyGenerated) (part_category p)"
    unfolding part_category_def by (simp only: if_split option.pred_inject fst_conv) simp
  moreover assume "part_category p = Some c"
  ultimately show ?thesis by (simp only: option.pred_inject)
qed

lemma first_part_category_hard: "first_part_category ps = Some c \<Longrightarrow> fst c = SafetyRuntime \<or> fst c = SafetyGenerated"
  by (induction ps) (auto dest: part_category_hard split: option.splits)

lemma probe_harmless:
  "first_part_category [collapsedCategoryProbe] = None" "\<not> sensitiveBase collapsedCategoryProbe rules"
  "\<not> runtime_file collapsedCategoryProbe" "\<not> generated_file collapsedCategoryProbe"
  "to_lower uni collapsedCategoryProbe = collapsedCategoryProbe"
  "str_split collapsedCategoryProbe slash = [collapsedCategoryProbe]"
proof -
  show "first_part_category [collapsedCategoryProbe] = None" by code_simp
  have "\<not> sensitiveBaseV1 collapsedCategoryProbe" "\<not> sensitiveBaseV2 collapsedCategoryProbe" by code_simp+
  then show "\<not> sensitiveBase collapsedCategoryProbe rules" by (simp add: sensitiveBase_def)
  show "\<not> runtime_file collapsedCategoryProbe" "\<not> generated_file collapsedCategoryProbe" by code_simp+
  have a: "\<forall>c \<in> set collapsedCategoryProbe. byte c < 128" "\<forall>c \<in> set collapsedCategoryProbe. \<not> (65 \<le> byte c \<and> byte c \<le> 90)" by code_simp+
  then have "map (\<lambda>r. if 65 \<le> r \<and> r \<le> 90 then r + 32 else if r < 128 then r else uni r) (map of_char collapsedCategoryProbe)
      = map of_char collapsedCategoryProbe" by simp
  then show "to_lower uni collapsedCategoryProbe = collapsedCategoryProbe"
    unfolding to_lower_def runes_all_ascii [OF a(1)] using of_runes_ascii [OF a(1)] by (simp only:)
  show "str_split collapsedCategoryProbe slash = [collapsedCategoryProbe]" by code_simp
qed

lemma probe_no_slash: "CHR ''/'' \<notin> set collapsedCategoryProbe"
  by code_simp

text \<open>A name between slashes that ends in one cannot reach into a last element without slashes.\<close>

lemma contains_before_last:
  assumes "str_contains (u @ CHR ''/'' # v) (w @ ''/'')" "CHR ''/'' \<notin> set v" 
  shows "str_contains (u @ CHR ''/'' # v') (w @ ''/'')"
proof -
  obtain a b where "u @ CHR ''/'' # v = (a @ w) @ CHR ''/'' # b" using assms(1) by (auto simp: str_contains_iff)
  then obtain us where "u = (a @ w) @ us \<and> us @ CHR ''/'' # v = CHR ''/'' # b \<or> u @ us = a @ w \<and> CHR ''/'' # v = us @ CHR ''/'' # b"
    unfolding append_eq_append_conv2 [of u] by blast
  then have "\<exists>c. u @ CHR ''/'' # v' = a @ (w @ ''/'') @ c"
  proof (elim disjE conjE)
    assume "u @ us = a @ w" "CHR ''/'' # v = us @ CHR ''/'' # b"
    then have "us = []" using assms(2) by (cases us) auto
    then show ?thesis using \<open>u @ us = a @ w\<close> by simp
  next
    assume "u = (a @ w) @ us" "us @ CHR ''/'' # v = CHR ''/'' # b"
    then show ?thesis by (cases us) auto
  qed
  then show ?thesis by (simp only: str_contains_iff) blast
qed

lemma database_runtime_beneath:
  assumes "database_runtime (u @ CHR ''/'' # v)" "CHR ''/'' \<notin> set v"
  shows "database_runtime (u @ CHR ''/'' # v')"
proof -
  note move = contains_before_last [OF _ assms(2), where u = u and v' = v']
  show ?thesis
    using assms(1) move [of "''/mysql/data''"] move [of "''/postgres/data''"] move [of "''/postgresql/data''"] move [of "''/redis/data''"]
    unfolding database_runtime_def by auto
qed

text \<open>
  When the probe beneath a directory has a built-in category, so does every path beneath it, and that
  category is not the one an opt-in can lift.
\<close>

lemma category_beneath:
  assumes "fst (BuiltInSafetyCategory uni (dir @ slash @ collapsedCategoryProbe) rules) \<noteq> []"
    and "safeRelativePath (dir @ slash @ collapsedCategoryProbe) = (dir @ slash @ collapsedCategoryProbe, True)"
    and "safeRelativePath (dir @ slash @ child) = (dir @ slash @ child, True)"
  shows "fst (BuiltInSafetyCategory uni (dir @ slash @ child) rules) \<in> {SafetyRuntime, SafetyGenerated}"
proof -
  let ?d = "to_lower uni dir" and ?c = "to_lower uni child"
  have lows: "to_lower uni (dir @ slash @ collapsedCategoryProbe) = ?d @ CHR ''/'' # collapsedCategoryProbe"
    "to_lower uni (dir @ slash @ child) = ?d @ CHR ''/'' # ?c"
    by (simp_all add: to_lower_slash probe_harmless(5))
  have parts: "str_split (?d @ CHR ''/'' # x) slash = str_split ?d slash @ str_split x slash" for x
    by (rule str_split_char_after)
  have last: "last (str_split ?d slash @ str_split collapsedCategoryProbe slash) = collapsedCategoryProbe"
    by (simp add: probe_harmless(6))
  have "first_part_category (str_split ?d slash @ str_split collapsedCategoryProbe slash) \<noteq> None \<or> database_runtime (?d @ CHR ''/'' # collapsedCategoryProbe)"
    using assms(1) probe_harmless(2-4)
    unfolding BuiltInSafetyCategory_def assms(2) lows Let_def prod.case parts last
    by (auto split: option.splits if_splits)
  then consider c where "first_part_category (str_split ?d slash) = Some c" | "database_runtime (?d @ CHR ''/'' # ?c)"
    using probe_harmless(1) database_runtime_beneath [of ?d collapsedCategoryProbe ?c, OF _ probe_no_slash]
    unfolding first_part_category_append probe_harmless(6) by (auto split: option.splits)
  then show ?thesis
  proof cases
    case 1
    then show ?thesis using first_part_category_hard [OF 1]
      unfolding BuiltInSafetyCategory_def assms(3) lows Let_def prod.case parts first_part_category_append by simp
  next
    case 2
    then show ?thesis
      unfolding BuiltInSafetyCategory_def assms(3) lows Let_def prod.case parts
      by (auto dest: first_part_category_hard split: option.splits)
  qed
qed

lemma named_part_append: "named_part xs es \<noteq> None \<Longrightarrow> named_part (xs @ ys) es \<noteq> None"
  by (auto simp: named_part_def find_None_iff)

lemma butlast_split_beneath: "butlast (str_split (dir @ slash @ child) slash) = str_split dir slash @ butlast (str_split child slash)"
  using str_split_char_after [of dir "CHR ''/''" child] by (simp add: butlast_append)

section \<open>The two listings\<close>

definition kept_ignored :: "(rune \<Rightarrow> rune) \<Rightarrow> WalkOptions \<Rightarrow> string list \<Rightarrow> string \<Rightarrow> bool" where
  "kept_ignored uni opt optIn rel \<longleftrightarrow>
     \<not> (fst (BuiltInSafetyCategory uni rel (SensitiveNameRules opt)) \<noteq> [] \<and> rel \<notin> set optIn) \<and>
     ignoredArtifactSource rel opt = None \<and> (rel \<in> set optIn \<or> IncludeIgnoredCandidates opt)"

lemma fst_ignored_path: "fst (ignored_path uni opt optIn st rel) = (if kept_ignored uni opt optIn rel then fst st @ [rel] else fst st)"
  unfolding ignored_path_def kept_ignored_def by (auto simp: Let_def split: prod.splits option.splits)

lemma fst_foldl_ignored: "fst (foldl (ignored_path uni opt optIn) st xs) = fst st @ filter (kept_ignored uni opt optIn) xs"
  by (induction xs arbitrary: st) (simp_all add: fst_ignored_path)

text \<open>A path beneath a collapsed directory does not survive both filters.\<close>

lemma hidden_not_admitted:
  assumes hard: "HardExcludedDirectory uni dir opt \<noteq> None"
    and optIn: "\<forall>p \<in> set optIn. fst (BuiltInSafetyCategory uni p (SensitiveNameRules opt)) = SafetySensitive"
    and safe: "safeRelativePath (dir @ slash @ collapsedCategoryProbe) = (dir @ slash @ collapsedCategoryProbe, True)"
      "safeRelativePath (dir @ slash @ child) = (dir @ slash @ child, True)"
    and kept: "kept_ignored uni opt optIn (dir @ slash @ child)"
  shows "\<not> admitted uni opt regular optIn gitlinks (dir @ slash @ child)"
proof -
  let ?p = "dir @ slash @ child"
  have art: "ignoredArtifactSource ?p opt = None" using kept unfolding kept_ignored_def by (elim conjE)
  have "fst (BuiltInSafetyCategory uni (dir @ slash @ collapsedCategoryProbe) (SensitiveNameRules opt)) = []"
  proof (rule ccontr)
    assume "\<not> ?thesis"
    then have hardcat: "fst (BuiltInSafetyCategory uni ?p (SensitiveNameRules opt)) \<in> {SafetyRuntime, SafetyGenerated}"
      using category_beneath safe by blast
    then have "?p \<notin> set optIn" using optIn by force
    moreover have "fst (BuiltInSafetyCategory uni ?p (SensitiveNameRules opt)) \<noteq> []" using hardcat by force
    ultimately show False using kept unfolding kept_ignored_def by argo
  qed
  moreover have "ignoredArtifactSource (dir @ slash @ collapsedCategoryProbe) opt = None"
    using art named_part_append [of "str_split dir slash" "ExcludeRootDirs opt" "butlast (str_split child slash)"]
    unfolding ignoredArtifactSource_def butlast_split_beneath probe_harmless(6) by (auto simp del: not_None_eq)
  ultimately have "named_part (str_split dir slash) (ExcludeDirs opt) \<noteq> None"
    using hard unfolding HardExcludedDirectory_def Let_def by simp
  then have "named_part (butlast (str_split ?p slash)) (ExcludeDirs opt) \<noteq> None"
    unfolding butlast_split_beneath by (rule named_part_append)
  then have "ConfiguredExclusionSource ?p opt \<noteq> None"
    unfolding ConfiguredExclusionSource_def Let_def by (auto split: option.splits)
  then show ?thesis unfolding admitted_def by blast
qed

lemma strict_sorted_unique: "sorted_wrt str_less xs \<Longrightarrow> sorted_wrt str_less ys \<Longrightarrow> set xs = set ys \<Longrightarrow> xs = ys"
proof (induction xs arbitrary: ys)
  case (Cons x xs)
  then obtain y ys' where ys: "ys = y # ys'" by (cases ys) auto
  have "x = y"
  proof (rule ccontr)
    assume "x \<noteq> y"
    then have "str_less y x" "str_less x y" using Cons.prems ys by (auto simp: set_eq_iff)
    then show False using str_less_trans str_less_irrefl by blast
  qed
  moreover have "set xs = set ys'"
    using Cons.prems ys \<open>x = y\<close> str_less_sorted_distinct [of "x # xs"] str_less_sorted_distinct [of "y # ys'"]
    by (metis distinct.simps(2) insert_ident list.simps(15))
  ultimately show ?case using Cons ys by simp
qed simp

lemma inventory_candidates:
  assumes "inventory_of uni sha regular opt optIn repository c = Inr si"
  shows "set (ManagedCandidates si) = {p \<in> cleaned (cTracked c) \<union> cleaned (cUntracked c @ filter (kept_ignored uni opt optIn) (cIgnored c)).
      admitted uni opt regular optIn (cGitlinks c) p} \<and> sorted_wrt str_less (ManagedCandidates si)"
proof -
  obtain r seen casefold where r: "si = seal_report sha opt (sort_report r)"
    and loop: "loop_inv uni opt regular optIn (cGitlinks c) (PathSummary ` set (Exclusions (snd (before_loop uni opt optIn repository c)))) seen casefold r"
    and seen: "set seen = cleaned (cTracked c) \<union> cleaned (fst (before_loop uni opt optIn repository c))"
    using inventory_of_report [OF assms] by blast
  have before: "fst (before_loop uni opt optIn repository c) = cUntracked c @ filter (kept_ignored uni opt optIn) (cIgnored c)"
    by (simp add: before_loop_def fst_foldl_ignored)
  note parts = loop [unfolded loop_inv_def]
  have inv1: "distinct (ManagedCandidates r)" using parts by (elim conjE)
  have inv2: "\<forall>p \<in> set (ManagedCandidates r). admitted uni opt regular optIn (cGitlinks c) p" using parts by (elim conjE)
  have inv3: "set (ManagedCandidates r) \<subseteq> set seen" using parts by (elim conjE)
  have inv4: "\<forall>p \<in> set seen. admitted uni opt regular optIn (cGitlinks c) p \<longrightarrow> p \<in> set (ManagedCandidates r)" using parts by (elim conjE)
  have "set (ManagedCandidates r) = {p \<in> set seen. admitted uni opt regular optIn (cGitlinks c) p}"
    using inv2 inv3 inv4 by blast
  then show ?thesis unfolding seen before r sealed_fields set_sort_strings using sorted_strict [OF inv1] by simp
qed

text \<open>
  \<^bold>\<open>C32\<close>. Collapsing is invisible to everything that uses the inventory: when the files beneath the collapsed
  directories are listed one by one among the ignored paths instead, the managed candidates are the
  same list. The spelling of a path beneath a directory is the clean one, as Git prints it.
\<close>

theorem collapse_same_candidates:
  assumes "inventory_of uni sha regular opt optIn repository c = Inr si"
    and "inventory_of uni sha regular opt optIn repository (c\<lparr>cIgnoredDirs := [], cIgnored := cIgnored c @ beneath\<rparr>) = Inr full"
    and "check_opt_in uni (SensitiveNameRules opt) (HighRiskOptIn opt) = Inr optIn"
    and "\<forall>p \<in> set beneath. \<exists>dir \<in> set (cIgnoredDirs c). \<exists>child. p = dir @ slash @ child \<and> HardExcludedDirectory uni dir opt \<noteq> None \<and>
      safeRelativePath (dir @ slash @ collapsedCategoryProbe) = (dir @ slash @ collapsedCategoryProbe, True) \<and> safeRelativePath p = (p, True)"
  shows "ManagedCandidates full = ManagedCandidates si"
proof (rule strict_sorted_unique)
  note short = inventory_candidates [OF assms(1)] and long = inventory_candidates [OF assms(2), simplified]
  show "sorted_wrt str_less (ManagedCandidates full)" "sorted_wrt str_less (ManagedCandidates si)" using short long by blast+
  have optIn: "\<forall>p \<in> set optIn. fst (BuiltInSafetyCategory uni p (SensitiveNameRules opt)) = SafetySensitive"
    using check_opt_in_spec [OF assms(3)] by (elim conjE)
  have hidden: "\<not> admitted uni opt regular optIn (cGitlinks c) p" if hp: "p \<in> cleaned (filter (kept_ignored uni opt optIn) beneath)" for p
  proof -
    obtain q where q: "q \<in> set beneath" "kept_ignored uni opt optIn q" "p = fst (safeRelativePath q)"
      using hp by (auto simp: cleaned_def)
    obtain dir child where d: "q = dir @ slash @ child" "HardExcludedDirectory uni dir opt \<noteq> None"
      "safeRelativePath (dir @ slash @ collapsedCategoryProbe) = (dir @ slash @ collapsedCategoryProbe, True)" "safeRelativePath q = (q, True)"
      using bspec [OF assms(4) q(1)] by (elim bexE exE conjE)
    have "p = dir @ slash @ child" using q(3) d(1,4) by simp
    then show ?thesis using hidden_not_admitted [OF d(2) optIn d(3) d(4) [unfolded d(1)] q(2) [unfolded d(1)]] by simp
  qed
  show "set (ManagedCandidates full) = set (ManagedCandidates si)"
    unfolding conjunct1 [OF short] conjunct1 [OF long] filter_append append_assoc [symmetric] cleaned_append
    using hidden by blast
qed

text \<open>The sample repository with its cache directory, and with the file in it.\<close>

definition sample_lists :: containerInventory where
  "sample_lists = \<lparr>cTracked = [''m.go''], cUntracked = [], cIgnored = [''x.log'', ''g.txt''], cIgnoredDirs = [''out/node_modules''], cGitlinks = [],
     cPruned = [], cChildRoots = []\<rparr>"

definition sample_full :: containerInventory where
  "sample_full = sample_lists\<lparr>cIgnoredDirs := [], cIgnored := cIgnored sample_lists @ [''out/node_modules/a.js'']\<rparr>"

theorem collapse_same_candidates_witness:
  "\<exists>si full. inventory_of id id (\<lambda>_. True) sample_options [''.env''] True sample_lists = Inr si \<and>
     inventory_of id id (\<lambda>_. True) sample_options [''.env''] True sample_full = Inr full \<and>
     ManagedCandidates si = [''g.txt'', ''m.go''] \<and> ManagedCandidates full = ManagedCandidates si"
proof -
  have "case inventory_of id id (\<lambda>_. True) sample_options [''.env''] True sample_lists of Inl _ \<Rightarrow> False | Inr si \<Rightarrow> ManagedCandidates si = [''g.txt'', ''m.go'']"
    by code_simp
  then obtain si where si: "inventory_of id id (\<lambda>_. True) sample_options [''.env''] True sample_lists = Inr si" "ManagedCandidates si = [''g.txt'', ''m.go'']"
    by (blast dest: result_case_ex)
  have "case inventory_of id id (\<lambda>_. True) sample_options [''.env''] True sample_full of Inl _ \<Rightarrow> False | Inr si \<Rightarrow> True"
    by code_simp
  then obtain full where full: "inventory_of id id (\<lambda>_. True) sample_options [''.env''] True sample_full = Inr full"
    by (blast dest: result_case_ex)
  have "check_opt_in id (SensitiveNameRules sample_options) (HighRiskOptIn sample_options) = Inr [''.env'']" by code_simp
  moreover have "HardExcludedDirectory id ''out/node_modules'' sample_options \<noteq> None" by code_simp
  moreover have "safeRelativePath (''out/node_modules'' @ slash @ collapsedCategoryProbe) = (''out/node_modules'' @ slash @ collapsedCategoryProbe, True)"
    "safeRelativePath ''out/node_modules/a.js'' = (''out/node_modules/a.js'', True)" by code_simp+
  moreover have "''out/node_modules/a.js'' = ''out/node_modules'' @ slash @ ''a.js''" "''out/node_modules'' \<in> set (cIgnoredDirs sample_lists)" by code_simp+
  ultimately have "ManagedCandidates full = ManagedCandidates si"
    using collapse_same_candidates [OF si(1) full [unfolded sample_full_def]] by (metis empty_iff empty_set set_ConsD)
  then show ?thesis using si full by (intro exI [of _ si] exI [of _ full] conjI)
qed

end
