(* ===== verification/Fs_Git_Laws.thy ===== *)
theory Fs_Git_Laws
  imports Fs_Inventory
begin

text \<open>
  The bounded parts of talking to Git: the tail kept of a process's standard error, and the batches of
  path arguments. At the end, three inputs on which the name rules do not do what is said of them.
\<close>

section \<open>The tail writer\<close>

definition last_bytes :: "nat \<Rightarrow> string \<Rightarrow> string" where
  "last_bytes n s = drop (length s - n) s"

lemma tail_write_step: "twData w = last_bytes (twLimit w) s \<Longrightarrow> twData (tail_write w p) = last_bytes (twLimit w) (s @ p)"
  by (auto simp: tail_write_def last_bytes_def Let_def intro!: arg_cong2 [of _ _ _ _ drop])

lemma twLimit_tail_write [simp]: "twLimit (tail_write w p) = twLimit w"
  by (simp add: tail_write_def Let_def)

text \<open>
  However a process splits what it writes to its standard error into chunks, the writer holds exactly the
  last bytes of the whole, and never more than its limit.
\<close>

theorem tail_write_last:
  "twData (foldl tail_write \<lparr>twLimit = n, twData = []\<rparr> chunks) = last_bytes n (concat chunks) \<and>
   length (twData (foldl tail_write \<lparr>twLimit = n, twData = []\<rparr> chunks)) = min n (length (concat chunks))"
proof -
  have "twData (foldl tail_write w chunks) = last_bytes (twLimit w) (s @ concat chunks)" if "twData w = last_bytes (twLimit w) s" for w s
    using that
  proof (induction chunks arbitrary: w s)
    case (Cons p ps)
    then show ?case using Cons.IH [OF tail_write_step [THEN trans, OF Cons.prems]] by simp
  qed simp
  from this [of "\<lparr>twLimit = n, twData = []\<rparr>" "[]"] have "twData (foldl tail_write \<lparr>twLimit = n, twData = []\<rparr> chunks) = last_bytes n (concat chunks)"
    by (simp add: last_bytes_def)
  then show ?thesis by (simp add: last_bytes_def)
qed

section \<open>Batches of path arguments\<close>

definition spec_bytes :: "string list \<Rightarrow> nat" where
  "spec_bytes specs = sum_list (map (\<lambda>s. length s + 1) specs)"

definition batch_fits :: "string list \<Rightarrow> bool" where
  "batch_fits b \<longleftrightarrow> b \<noteq> [] \<and> (length b = 1 \<or> spec_bytes b \<le> 16385)"

lemma pathspec_batches_spec:
  assumes "sz = spec_bytes current" "\<forall>b \<in> set batches. batch_fits b" "current \<noteq> [] \<longrightarrow> batch_fits current"
  shows "concat (pathspec_batches batches current sz dirs) = concat batches @ current @ map literal_spec dirs \<and>
    (\<forall>b \<in> set (pathspec_batches batches current sz dirs). batch_fits b)"
  using assms
proof (induction batches current sz dirs rule: pathspec_batches.induct)
  case (2 batches current sz dir dirs)
  show ?case
  proof (cases "current \<noteq> [] \<and> 16384 < sz + length (literal_spec dir)")
    case True
    have "concat (pathspec_batches (batches @ [current]) [literal_spec dir] (length (literal_spec dir) + 1) dirs)
        = concat (batches @ [current]) @ [literal_spec dir] @ map literal_spec dirs \<and>
      (\<forall>b \<in> set (pathspec_batches (batches @ [current]) [literal_spec dir] (length (literal_spec dir) + 1) dirs). batch_fits b)"
      using True 2(3-5) by (intro 2(1)) (auto simp: spec_bytes_def batch_fits_def)
    then show ?thesis using True by (simp add: Let_def)
  next
    case False
    have "batch_fits (current @ [literal_spec dir])"
      using False 2(3) by (auto simp: batch_fits_def spec_bytes_def)
    then have "concat (pathspec_batches batches (current @ [literal_spec dir]) (sz + length (literal_spec dir) + 1) dirs)
        = concat batches @ (current @ [literal_spec dir]) @ map literal_spec dirs \<and>
      (\<forall>b \<in> set (pathspec_batches batches (current @ [literal_spec dir]) (sz + length (literal_spec dir) + 1) dirs). batch_fits b)"
      using False 2(3,4) by (intro 2(2)) (auto simp: spec_bytes_def)
    then show ?thesis unfolding pathspec_batches.simps Let_def if_not_P [OF False] by simp
  qed
qed simp

text \<open>
  The batches hold every directory once, in order and as a literal path argument; none is empty, and one
  with more than one argument takes at most 16384 bytes with a separator between arguments.
\<close>

theorem literalPathspecBatches_bounded:
  "concat (literalPathspecBatches dirs) = map literal_spec dirs \<and>
   list_all (\<lambda>b. b \<noteq> [] \<and> (length b = 1 \<or> sum_list (map length b) + (length b - 1) \<le> 16384)) (literalPathspecBatches dirs)"
proof -
  have batches: "concat (literalPathspecBatches dirs) = map literal_spec dirs \<and> (\<forall>b \<in> set (literalPathspecBatches dirs). batch_fits b)"
    using pathspec_batches_spec [of 0 "[]" "[]" dirs] by (simp add: literalPathspecBatches_def spec_bytes_def)
  have "spec_bytes b = sum_list (map length b) + length b" for b
    by (simp add: spec_bytes_def sum_list_Suc)
  then have "b \<noteq> [] \<and> (length b = 1 \<or> sum_list (map length b) + (length b - 1) \<le> 16384)" if "batch_fits b" for b
    using that by (cases b) (auto simp: batch_fits_def)
  then show ?thesis using batches by (simp add: list_all_iff)
qed

section \<open>Names that are misread\<close>

text \<open>A name Git lists with a space at its start is recorded as the name without it.\<close>

lemma splitNULPaths_trims: "splitNULPaths ('' a'' @ [CHR 0x00] @ ''b '' @ [CHR 0x00]) = [''a'', ''b'']"
  by code_simp

text \<open>The second rule set is not a superset of the first.\<close>

lemma sensitiveBaseV2_not_superset: "sensitiveBaseV1 ''.env.dist'' \<and> \<not> sensitiveBaseV2 ''.env.dist''"
  by code_simp

text \<open>The two ends of a pattern with a star inside may overlap.\<close>

lemma MatchExcludePattern_overlap: "MatchExcludePattern ''aba'' [''ab*ba'']"
  by code_simp

end
