(* ===== verification/Scope_Policy.thy ===== *)
theory Scope_Policy
  imports Scope_Glob Fs_Path
begin

text \<open>
  Managed Scope policies (\<open>internal/managedscope/types.go\<close>, \<open>policy.go\<close>) over the vocabulary of
  \<open>internal/machinecontract/managed_scope.go\<close>: normalizing a policy, normalizing and matching patterns.
  Lower-casing of characters outside ASCII is Unicode data and an argument (\<open>uni\<close>) of the
  definitions that use it. \<open>Normalize\<close> works on a copy here; the source rewrites the rules of its
  argument in place and returns them, so its caller's slice changes too.
\<close>

section \<open>Vocabulary\<close>

definition ScopeRoles :: "string list" where
  "ScopeRoles = [''index'', ''observe'', ''exclude'']"

definition ScopeProfiles :: "string list" where
  "ScopeProfiles = [''production'', ''full'', ''custom'']"

definition ScopePatternKinds :: "string list" where
  "ScopePatternKinds = [''file'', ''directory'', ''glob'']"

definition ScopeRuleSources :: "string list" where
  "ScopeRuleSources = [''builtin'', ''profile'', ''user'', ''curation'', ''safety'']"

definition ScopeDecisionBases :: "string list" where
  "ScopeDecisionBases =
    [''unspecified'', ''semantic_density'', ''test_responsibility_delegation'', ''generated_asset'', ''locale_delegation'',
     ''public_private_boundary'', ''duplicate_semantics'', ''transport_constraint'', ''maintainer_direction'']"

definition ScopeApprovalModes :: "string list" where
  "ScopeApprovalModes = [''inherit'', ''auto'', ''review'']"

definition ManagedScopePolicyV2 :: string where
  "ManagedScopePolicyV2 = ''managed-scope-policy/v2''"

section \<open>Records\<close>

record Rule =
  RuleID :: string
  Action :: string
  Pattern :: string
  PatternKind :: string
  Reason :: string
  DecisionBasis :: string
  Source :: string
  CreatedBy :: string
  Order :: int
  Enabled :: bool
  Exceptions :: "string list"

record ApprovalThresholds =
  EntryRemovalCount :: int
  EntryRemovalPercent :: int

record Policy =
  Version :: string
  Profile :: string
  ObserveChangePolicy :: string
  ApprovalMode :: string
  Thresholds :: ApprovalThresholds
  Rules :: "Rule list"

definition DefaultApprovalThresholds :: ApprovalThresholds where
  "DefaultApprovalThresholds = \<lparr>EntryRemovalCount = 25, EntryRemovalPercent = 25\<rparr>"

definition LegacyPolicy :: Policy where
  "LegacyPolicy = \<lparr>Version = ManagedScopePolicyV2, Profile = ''custom'', ObserveChangePolicy = ''review_required'',
     ApprovalMode = ''inherit'', Thresholds = DefaultApprovalThresholds,
     Rules = [\<lparr>RuleID = ''legacy-index-all'', Action = ''index'', Pattern = ''**'', PatternKind = ''glob'',
       Reason = ''legacy managed candidates remain indexed'', DecisionBasis = [], Source = ''profile'',
       CreatedBy = ''aoci-legacy-compatibility'', Order = 0, Enabled = True, Exceptions = []\<rparr>]\<rparr>"

definition DefaultPolicy :: "string \<Rightarrow> Policy" where
  "DefaultPolicy profile = \<lparr>Version = ManagedScopePolicyV2, Profile = profile, ObserveChangePolicy = ''review_required'',
     ApprovalMode = ''inherit'', Thresholds = DefaultApprovalThresholds, Rules = []\<rparr>"

section \<open>Patterns\<close>

datatype scope_error =
    PathNotRepositoryRelative | WildcardRequiresGlobKind | PathEscapeOrEmptySegment | PathEscape
  | GlobRefused glob_error
  | PolicyVersionUnsupported | ProfileInvalid | ObserveChangePolicyInvalid | ApprovalModeInvalid
  | ApprovalThresholdsInvalid | RuleIDInvalid | RuleContractInvalid string | SafetyRuleRefused
  | RuleMetadataInvalid string | DecisionBasisInvalid string
  | RulePatternInvalid string scope_error | RuleExceptionInvalid string scope_error
  | CurationPathInvalid

definition ascii_alpha :: "char \<Rightarrow> bool" where
  "ascii_alpha c \<longleftrightarrow> (65 \<le> byte c \<and> byte c \<le> 90) \<or> (97 \<le> byte c \<and> byte c \<le> 122)"

definition drive_pattern :: "string \<Rightarrow> bool" where
  "drive_pattern v \<longleftrightarrow> (case v of c # d # _ \<Rightarrow> ascii_alpha c \<and> d = CHR '':'' | _ \<Rightarrow> False)"

definition NormalizePattern :: "string \<Rightarrow> string \<Rightarrow> scope_error + string" where
  "NormalizePattern value0 kind =
     (let v1 = trim_space (replace_all value0 [CHR 0x5C] slash);
          v = (if kind = ''directory'' then trim_suffix v1 slash else v1) in
      if v = [] \<or> has_prefix v slash \<or> drive_pattern v then Inl PathNotRepositoryRelative
      else if kind \<noteq> ''glob'' \<and> list_ex (\<lambda>c. c = CHR ''*'' \<or> c = CHR ''?'') v then Inl WildcardRequiresGlobKind
      else if list_ex (\<lambda>part. part = ''..'' \<or> part = ''.'' \<or> part = []) (str_split v slash) then Inl PathEscapeOrEmptySegment
      else
        let clean = path_clean v in
        if clean = ''.'' \<or> clean = ''..'' \<or> has_prefix clean ''../'' then Inl PathEscape
        else if kind = ''glob'' then
          (case compileGlobProgram clean of Inl e \<Rightarrow> Inl (GlobRefused e) | Inr _ \<Rightarrow> Inr clean)
        else Inr clean)"

definition glob_hit :: "string \<Rightarrow> string \<Rightarrow> bool" where
  "glob_hit pattern p = (case globMatch pattern p of Inr b \<Rightarrow> b | Inl _ \<Rightarrow> False)"

definition Match :: "Rule \<Rightarrow> string \<Rightarrow> bool" where
  "Match rule rel0 =
     (case NormalizeRelPath rel0 of
        Inl _ \<Rightarrow> False
      | Inr p \<Rightarrow>
          if \<not> Enabled rule then False
          else if list_ex (\<lambda>x. glob_hit x p) (Exceptions rule) then False
          else if PatternKind rule = ''file'' then p = Pattern rule
          else if PatternKind rule = ''directory'' then p = Pattern rule \<or> has_prefix p (Pattern rule @ slash)
          else if PatternKind rule = ''glob'' then glob_hit (Pattern rule) p
          else False)"

definition sourcePriority :: "string \<Rightarrow> int" where
  "sourcePriority source =
     (if source = ''safety'' then 700 else if source = ''user'' then 500 else if source = ''curation'' then 400
      else if source = ''profile'' then 300 else if source = ''builtin'' then 200 else 0)"

section \<open>Normalizing a policy\<close>

definition id_head :: "char \<Rightarrow> bool" where
  "id_head c \<longleftrightarrow> (97 \<le> byte c \<and> byte c \<le> 122) \<or> is_digit c"

definition ruleIDPattern :: "string \<Rightarrow> bool" where
  "ruleIDPattern s \<longleftrightarrow>
     (case s of
        [] \<Rightarrow> False
      | c # r \<Rightarrow> id_head c \<and> 1 \<le> length r \<and> length r \<le> 127 \<and>
          list_all (\<lambda>c. id_head c \<or> c = CHR ''.'' \<or> c = CHR ''_'' \<or> c = CHR ''-'') r)"

definition trim_rule :: "(rune \<Rightarrow> rune) \<Rightarrow> Rule \<Rightarrow> Rule" where
  "trim_rule uni r =
     r\<lparr>RuleID := trim_space (RuleID r), Action := to_lower uni (trim_space (Action r)),
       PatternKind := to_lower uni (trim_space (PatternKind r)), Source := to_lower uni (trim_space (Source r)),
       Reason := trim_space (Reason r), DecisionBasis := to_lower uni (trim_space (DecisionBasis r)),
       CreatedBy := trim_space (CreatedBy r)\<rparr>"

fun normalize_exceptions :: "string list \<Rightarrow> scope_error + string list" where
  "normalize_exceptions [] = Inr []"
| "normalize_exceptions (x # xs) =
     (case NormalizePattern x ''glob'' of
        Inl e \<Rightarrow> Inl e
      | Inr n \<Rightarrow> (case normalize_exceptions xs of Inl e \<Rightarrow> Inl e | Inr ns \<Rightarrow> Inr (n # ns)))"

definition normalize_rule :: "(rune \<Rightarrow> rune) \<Rightarrow> string list \<Rightarrow> Rule \<Rightarrow> scope_error + Rule" where
  "normalize_rule uni seen r0 =
     (let r = trim_rule uni r0 in
      if \<not> ruleIDPattern (RuleID r) \<or> RuleID r \<in> set seen then Inl RuleIDInvalid
      else if Action r \<notin> set ScopeRoles \<or> PatternKind r \<notin> set ScopePatternKinds \<or> Source r \<notin> set ScopeRuleSources
      then Inl (RuleContractInvalid (RuleID r))
      else if Source r = ''safety'' then Inl SafetyRuleRefused
      else if Reason r = [] \<or> CreatedBy r = [] \<or> Order r < 0 then Inl (RuleMetadataInvalid (RuleID r))
      else if DecisionBasis r \<noteq> [] \<and> DecisionBasis r \<notin> set ScopeDecisionBases then Inl (DecisionBasisInvalid (RuleID r))
      else case NormalizePattern (Pattern r) (PatternKind r) of
        Inl e \<Rightarrow> Inl (RulePatternInvalid (RuleID r) e)
      | Inr p \<Rightarrow>
          (case normalize_exceptions (Exceptions r) of
             Inl e \<Rightarrow> Inl (RuleExceptionInvalid (RuleID r) e)
           | Inr xs \<Rightarrow> Inr (r\<lparr>Pattern := p, Exceptions := uniq_adj (sort_strings xs)\<rparr>)))"

fun normalize_rules :: "(rune \<Rightarrow> rune) \<Rightarrow> string list \<Rightarrow> Rule list \<Rightarrow> scope_error + Rule list" where
  "normalize_rules uni seen [] = Inr []"
| "normalize_rules uni seen (r # rs) =
     (case normalize_rule uni seen r of
        Inl e \<Rightarrow> Inl e
      | Inr n \<Rightarrow> (case normalize_rules uni (RuleID n # seen) rs of Inl e \<Rightarrow> Inl e | Inr ns \<Rightarrow> Inr (n # ns)))"

text \<open>The comparison of \<open>sort.SliceStable\<close>, and the stable insertion sort it selects.\<close>

definition rule_less :: "Rule \<Rightarrow> Rule \<Rightarrow> bool" where
  "rule_less a b =
     (if sourcePriority (Source a) \<noteq> sourcePriority (Source b) then sourcePriority (Source a) < sourcePriority (Source b)
      else if Order a \<noteq> Order b then Order a < Order b
      else str_less (RuleID a) (RuleID b))"

fun insert_rule :: "Rule \<Rightarrow> Rule list \<Rightarrow> Rule list" where
  "insert_rule r [] = [r]"
| "insert_rule r (x # xs) = (if rule_less x r then x # insert_rule r xs else r # x # xs)"

definition sort_rules :: "Rule list \<Rightarrow> Rule list" where
  "sort_rules rs = foldr insert_rule rs []"

definition default_text :: "string \<Rightarrow> string \<Rightarrow> string" where
  "default_text d v = (if v = [] then d else v)"

definition thresholds_of :: "Policy \<Rightarrow> ApprovalThresholds" where
  "thresholds_of p =
     (if EntryRemovalCount (Thresholds p) = 0 \<and> EntryRemovalPercent (Thresholds p) = 0
      then DefaultApprovalThresholds else Thresholds p)"

definition Normalize :: "(rune \<Rightarrow> rune) \<Rightarrow> Policy \<Rightarrow> scope_error + Policy" where
  "Normalize uni p =
     (let ver = default_text ManagedScopePolicyV2 (Version p);
          obs = default_text ''review_required'' (ObserveChangePolicy p);
          mode = to_lower uni (trim_space (default_text ''inherit'' (ApprovalMode p)));
          th = thresholds_of p in
      if ver \<noteq> ManagedScopePolicyV2 then Inl PolicyVersionUnsupported
      else if Profile p \<notin> set ScopeProfiles then Inl ProfileInvalid
      else if obs \<noteq> ''review_required'' \<and> obs \<noteq> ''informational'' then Inl ObserveChangePolicyInvalid
      else if mode \<notin> set ScopeApprovalModes then Inl ApprovalModeInvalid
      else if EntryRemovalCount th < 1 \<or> 100000 < EntryRemovalCount th \<or> EntryRemovalPercent th < 1 \<or> 100 < EntryRemovalPercent th
      then Inl ApprovalThresholdsInvalid
      else case normalize_rules uni [] (Rules p) of
        Inl e \<Rightarrow> Inl e
      | Inr rs \<Rightarrow> Inr \<lparr>Version = ver, Profile = Profile p, ObserveChangePolicy = obs, ApprovalMode = mode,
                      Thresholds = th, Rules = sort_rules rs\<rparr>)"

end
