(* ===== verification/Scope_Eval.thy ===== *)
theory Scope_Eval
  imports Scope_Policy Fs_Inventory
begin

text \<open>
  Evaluating paths under a policy (\<open>internal/managedscope/evaluate.go\<close>, \<open>starter.go\<close>, \<open>proposal.go\<close>) and
  the ownership of formal assets it consults (\<open>internal/cognition/ownership.go\<close>, \<open>registry.go\<close>). The
  layout of the repository, the JSON text of a policy (\<open>json\<close>) and the SHA-256 digest (\<open>sha\<close>) are
  arguments. The process-wide memo of \<open>Build\<close>, which returns an earlier result for equal inputs, is
  left out.
\<close>

section \<open>Formal assets\<close>

text \<open>
  \<open>strings.EqualFold\<close> against an ASCII string: besides the two cases of a letter, the Kelvin sign folds
  to k and the long s to s.
\<close>

definition fold_rune :: "rune \<Rightarrow> rune" where
  "fold_rune r = (if 65 \<le> r \<and> r \<le> 90 then r + 32 else if r = 8490 then 107 else if r = 383 then 115 else r)"

definition equal_fold :: "string \<Rightarrow> string \<Rightarrow> bool" where
  "equal_fold s t \<longleftrightarrow> map fold_rune (runes s) = map fold_rune (runes t)"

text \<open>The kind and the path of each registered Volume.\<close>

definition volumeRegistryEntries :: "(string \<times> string) list" where
  "volumeRegistryEntries = [(''meta'', ''aoci.meta.txt''), (''code'', ''aoci.code.txt''), (''database'', ''aoci.database.txt'')]"

definition FormalAssetOwner :: "string \<Rightarrow> string option" where
  "FormalAssetOwner path =
     (let normalized = trim_space path in
      if equal_fold normalized ''aoci.txt'' then Some ''root''
      else map_option fst (find (\<lambda>(_, p). equal_fold normalized p) volumeRegistryEntries))"

definition ExpectedOwner :: "string \<Rightarrow> string" where
  "ExpectedOwner identity =
     (let value = trim_space identity in
      if has_prefix value ''database://'' then ''database''
      else case FormalAssetOwner (trim_prefix value ''code:'') of Some owner \<Rightarrow> owner | None \<Rightarrow> ''code'')"

section \<open>Profile rules\<close>

definition profile_rule :: "string \<Rightarrow> string \<Rightarrow> string \<Rightarrow> string \<Rightarrow> nat \<Rightarrow> Rule" where
  "profile_rule rid act pat reason n =
     \<lparr>RuleID = rid, Action = act, Pattern = pat, PatternKind = ''glob'', Reason = reason, DecisionBasis = [], Source = ''profile'',
      CreatedBy = ''aoci-profile'', Order = int n, Enabled = True, Exceptions = []\<rparr>"

definition production_tests :: "(string \<times> string) list" where
  "production_tests =
   [(''profile-production-go-tests'', ''**/*_test.go''), (''profile-production-tests'', ''tests/**''),
     (''profile-production-test-dir'', ''**/tests/**''),
     (''profile-production-integration-tests'', ''integration-tests/**''),
     (''profile-production-test-scripts'', ''**/*_test.sh''),
     (''profile-production-python-test-prefix'', ''**/test_*.py''),
     (''profile-production-shell-test-prefix'', ''**/test-*.sh''),
     (''profile-production-shell-test-suffix'', ''**/*-test.sh''),
     (''profile-production-python-test-suffix'', ''**/*_test.py''),
     (''profile-production-js-tests'', ''**/*.test.js''), (''profile-production-ts-tests'', ''**/*.test.ts''),
     (''profile-production-js-specs'', ''**/*.spec.js''), (''profile-production-ts-specs'', ''**/*.spec.ts''),
     (''profile-production-jsx-tests'', ''**/*.test.jsx''), (''profile-production-tsx-tests'', ''**/*.test.tsx''),
     (''profile-production-powershell-tests'', ''**/*_test.ps1''),
     (''profile-production-windows-tests'', ''**/*_test.cmd''),
     (''profile-production-blackbox-tests'', ''**/*blackbox_test*'')]"

definition production_data :: "(string \<times> string) list" where
  "production_data =
   [(''profile-production-testdata'', ''testdata/**''), (''profile-production-nested-testdata'', ''**/testdata/**''),
     (''profile-production-fixtures'', ''fixtures/**''),
     (''profile-production-nested-fixtures'', ''**/fixtures/**''), (''profile-production-golden'', ''golden/**''),
     (''profile-production-nested-golden'', ''**/golden/**''), (''profile-production-snapshots'', ''snapshots/**''),
     (''profile-production-nested-snapshots'', ''**/snapshots/**''),
     (''profile-production-golden-files'', ''**/*.golden''), (''profile-production-snapshot-files'', ''**/*.snap'')]"

definition profileRules :: "string \<Rightarrow> Rule list" where
  "profileRules profile =
     (if profile = ''custom'' then []
      else if profile = ''full'' then
        [profile_rule ''profile-full-index'' ''index'' ''**'' ''full profile indexes every Safe Inventory candidate'' 1]
      else
        map (\<lambda>(n, act, reason, rid, pat). profile_rule rid act pat reason (n + 1))
          (ranged
            (map (\<lambda>(rid, pat). (''observe'', ''production profile observes test responsibilities'', rid, pat)) production_tests @
             map (\<lambda>(rid, pat). (''exclude'', ''production profile excludes test data and generated comparison bodies'', rid, pat)) production_data)))"

definition starterRuleReason :: string where
  "starterRuleReason = ''vendored static assets and generated bundles are observed, not indexed; '' @
     ''delete this rule before the first scan if the path holds your own code''"

definition starterThirdPartyReason :: string where
  "starterThirdPartyReason = ''third-party source trees are observed, not indexed; '' @
     ''delete this rule before the first scan if the path holds your own code''"

definition starterAssetReason :: string where
  "starterAssetReason = ''vector images and public certificates are observed, not indexed; '' @
     ''delete this rule before the first scan to author Entries for them''"

definition starterLockfileReason :: string where
  "starterLockfileReason = ''dependency lockfiles are generated pins and are observed, not indexed; '' @
     ''the manifest beside each one carries its semantics''"

definition starter_items :: "(string \<times> string \<times> string) list" where
  "starter_items =
   [(''static-libs'', ''**/static/**/libs/**'', starterRuleReason),
     (''static-lib'', ''**/static/**/lib/**'', starterRuleReason),
     (''static-plugins'', ''**/static/**/plugins/**'', starterRuleReason),
     (''min-js'', ''**/*.min.js'', starterRuleReason), (''min-css'', ''**/*.min.css'', starterRuleReason),
     (''source-map'', ''**/*.map'', starterRuleReason), (''fonts'', ''**/fonts/**'', starterRuleReason),
     (''third-party'', ''**/third_party/**'', starterThirdPartyReason),
     (''third-party-dash'', ''**/third-party/**'', starterThirdPartyReason),
     (''svg'', ''**/*.svg'', starterAssetReason), (''certificate-crt'', ''**/*.crt'', starterAssetReason),
     (''certificate-cer'', ''**/*.cer'', starterAssetReason),
     (''npm-lock'', ''**/package-lock.json'', starterLockfileReason),
     (''yarn-lock'', ''**/yarn.lock'', starterLockfileReason),
     (''pnpm-lock'', ''**/pnpm-lock.yaml'', starterLockfileReason),
     (''cargo-lock'', ''**/Cargo.lock'', starterLockfileReason),
     (''poetry-lock'', ''**/poetry.lock'', starterLockfileReason),
     (''gemfile-lock'', ''**/Gemfile.lock'', starterLockfileReason),
     (''composer-lock'', ''**/composer.lock'', starterLockfileReason),
     (''go-sum'', ''**/go.sum'', starterLockfileReason)]"

definition StarterRules :: "string \<Rightarrow> Rule list" where
  "StarterRules profile =
     (if profile \<noteq> ''production'' then []
      else map (\<lambda>(n, slug, pat, reason).
             \<lparr>RuleID = ''starter-vendored-'' @ slug, Action = ''observe'', Pattern = pat, PatternKind = ''glob'', Reason = reason,
              DecisionBasis = [], Source = ''builtin'', CreatedBy = ''aoci-init'', Order = 100 + int n, Enabled = True, Exceptions = []\<rparr>)
           (ranged starter_items))"

section \<open>Evaluating one path\<close>

definition ManagedScopeEvaluationV2 :: string where
  "ManagedScopeEvaluationV2 = ''managed-scope-evaluation/v2''"

record PathEvaluation =
  peVersion :: string
  pePath :: string
  Role :: string
  MatchedRule :: "Rule option"
  RuleSource :: string
  RulePriority :: int
  SafetyStatus :: string
  GitStatus :: string
  ReadsContent :: bool
  EntersWholeIndex :: bool
  EntersObserveFingerprint :: bool
  peReason :: string

definition gitStatus :: "bool \<Rightarrow> bool \<Rightarrow> string" where
  "gitStatus tracked ignored = (if ignored then ''ignored'' else if tracked then ''tracked'' else ''untracked_or_non_git'')"

definition safeRuleSuffix :: "string \<Rightarrow> string" where
  "safeRuleSuffix value =
     take 96 (map (\<lambda>r. if (97 \<le> r \<and> r \<le> 122) \<or> (48 \<le> r \<and> r \<le> 57) \<or> r = 45 \<or> r = 95 \<or> r = 46
                       then char_of r else CHR ''-'') (runes value))"

definition curation_rule :: "string \<Rightarrow> Rule" where
  "curation_rule p =
     \<lparr>RuleID = ''curation-exact-'' @ safeRuleSuffix p, Action = ''exclude'', Pattern = p, PatternKind = ''file'',
      Reason = ''exact Curation exclusion'', DecisionBasis = [], Source = ''curation'', CreatedBy = ''curation'',
      Order = 0, Enabled = True, Exceptions = []\<rparr>"

text \<open>The variables of the selection loop.\<close>

record selection =
  selRole :: string
  selReason :: string
  selSource :: string
  selPriority :: int
  selWinner :: "Rule option"

definition select_rule :: "string \<Rightarrow> selection \<Rightarrow> Rule \<Rightarrow> selection" where
  "select_rule p s rule =
     (if \<not> Match rule p then s
      else
        let candidate = sourcePriority (Source rule) in
        if candidate < selPriority s \<or>
           (candidate = selPriority s \<and> (case selWinner s of Some w \<Rightarrow> Order rule < Order w | None \<Rightarrow> False))
        then s
        else \<lparr>selRole = Action rule, selReason = Reason rule, selSource = Source rule, selPriority = candidate, selWinner = Some rule\<rparr>)"

definition default_selection :: "Policy \<Rightarrow> bool \<Rightarrow> selection" where
  "default_selection policy gitIgnored =
     (if gitIgnored then
        \<lparr>selRole = ''exclude'', selReason = ''Git ignored path'', selSource = ''git_ignored'', selPriority = 150, selWinner = None\<rparr>
      else if Profile policy = ''custom'' then
        \<lparr>selRole = ''exclude'', selReason = ''custom profile requires an explicit matching rule'', selSource = ''default'',
         selPriority = 100, selWinner = None\<rparr>
      else
        \<lparr>selRole = ''index'', selReason = ''default production role'', selSource = ''default'', selPriority = 100, selWinner = None\<rparr>)"

definition candidate_rules :: "Policy \<Rightarrow> string \<Rightarrow> bool \<Rightarrow> Rule list" where
  "candidate_rules policy p curationExcluded =
     profileRules (Profile policy) @ Rules policy @ (if curationExcluded then [curation_rule p] else [])"

definition evaluateTrackedPath :: "Policy \<Rightarrow> string \<Rightarrow> bool \<Rightarrow> bool \<Rightarrow> bool \<Rightarrow> bool \<Rightarrow> PathEvaluation" where
  "evaluateTrackedPath policy p gitTracked gitIgnored curationExcluded formalPinned =
     (if formalPinned \<and> FormalAssetOwner p \<noteq> None \<and> \<not> gitIgnored then
        \<lparr>peVersion = ManagedScopeEvaluationV2, pePath = p, Role = ''index'', MatchedRule = None, RuleSource = ''builtin'', RulePriority = sourcePriority ''builtin'',
         SafetyStatus = ''safe_inventory_allowed'', GitStatus = gitStatus gitTracked gitIgnored, ReadsContent = True,
         EntersWholeIndex = True, EntersObserveFingerprint = False,
         peReason = ''formal cognition asset: Managed Scope rules do not apply''\<rparr>
      else
        let s = foldl (select_rule p) (default_selection policy gitIgnored) (candidate_rules policy p curationExcluded) in
        \<lparr>peVersion = ManagedScopeEvaluationV2, pePath = p, Role = selRole s, MatchedRule = selWinner s, RuleSource = selSource s, RulePriority = selPriority s,
         SafetyStatus = ''safe_inventory_allowed'', GitStatus = gitStatus gitTracked gitIgnored,
         ReadsContent = (selRole s \<noteq> ''exclude''), EntersWholeIndex = (selRole s = ''index''),
         EntersObserveFingerprint = (selRole s = ''observe''), peReason = selReason s\<rparr>)"

definition EvaluatePath :: "Policy \<Rightarrow> string \<Rightarrow> string \<Rightarrow> bool \<Rightarrow> bool \<Rightarrow> PathEvaluation" where
  "EvaluatePath policy layout p gitIgnored curationExcluded =
     evaluateTrackedPath policy p False gitIgnored curationExcluded (layout = ''volumes-v1'')"

section \<open>Evaluating a repository\<close>

record BuildOptions =
  boWalkOptions :: WalkOptions
  boHighRiskOptIn :: "string list"
  CurationExclude :: "string list"

record Evaluation =
  evVersion :: string
  PolicyIdentity :: string
  evSafeInventory :: SafeInventorySummary
  Index :: "PathEvaluation list"
  Observe :: "PathEvaluation list"
  Exclude :: "PathEvaluation list"
  IndexCount :: nat
  ObserveCount :: nat
  ExcludeCount :: nat
  SafetyExcluded :: nat
  evRequiredHumanReview :: nat

datatype build_error = ScopeError scope_error | InventoryError inventory_error

definition Identity :: "(rune \<Rightarrow> rune) \<Rightarrow> (Policy \<Rightarrow> string) \<Rightarrow> (string \<Rightarrow> string) \<Rightarrow> Policy \<Rightarrow> (scope_error, string) result" where
  "Identity uni json sha policy = (case Normalize uni policy of Inl e \<Rightarrow> Inl e | Inr n \<Rightarrow> Inr (sha (json n)))"

definition evaluationIdentity :: "(string \<Rightarrow> string) \<Rightarrow> string \<Rightarrow> string \<Rightarrow> string list \<Rightarrow> string" where
  "evaluationIdentity sha policyIdentity inventoryRulesIdentity curated =
     sha (concat (map (\<lambda>v. v @ [CHR 0x00])
       ([''managed-scope-applied-identity/v2'', policyIdentity, inventoryRulesIdentity, ''true''] @ curated)))"

definition appendEvaluation :: "Evaluation \<Rightarrow> PathEvaluation \<Rightarrow> Evaluation" where
  "appendEvaluation r e =
     (if Role e = ''index'' then r\<lparr>Index := Index r @ [e]\<rparr>
      else if Role e = ''observe'' then r\<lparr>Observe := Observe r @ [e]\<rparr>
      else r\<lparr>Exclude := Exclude r @ [e]\<rparr>)"

text \<open>\<open>sort.Slice\<close> by path, which fixes the order of lines with different paths.\<close>

fun insort_evaluation :: "PathEvaluation \<Rightarrow> PathEvaluation list \<Rightarrow> PathEvaluation list" where
  "insort_evaluation x [] = [x]"
| "insort_evaluation x (y # ys) = (if str_le (pePath x) (pePath y) then x # y # ys else y # insort_evaluation x ys)"

definition sortEvaluations :: "PathEvaluation list \<Rightarrow> PathEvaluation list" where
  "sortEvaluations xs = foldr insort_evaluation xs []"

fun curated_paths :: "string list \<Rightarrow> (build_error, string list) result" where
  "curated_paths [] = Inr []"
| "curated_paths (rel # rels) =
     (case NormalizeRelPath rel of
        Inl _ \<Rightarrow> Inl (ScopeError CurationPathInvalid)
      | Inr clean \<Rightarrow> (case curated_paths rels of Inl e \<Rightarrow> Inl e | Inr cs \<Rightarrow> Inr (clean # cs)))"

definition opted_in :: "string list \<Rightarrow> string list" where
  "opted_in rels = List.map_filter (\<lambda>rel. case NormalizeRelPath rel of Inl _ \<Rightarrow> None | Inr clean \<Rightarrow> Some clean) rels"

definition candidate_evaluation :: "Policy \<Rightarrow> SafeInventory \<Rightarrow> string list \<Rightarrow> string list \<Rightarrow> bool \<Rightarrow> string \<Rightarrow> PathEvaluation" where
  "candidate_evaluation policy inventory curated optedIn formalPinned rel =
     (let e = evaluateTrackedPath policy rel (rel \<in> set (TrackedPaths inventory)) (rel \<in> set (IgnoredPaths inventory))
                (rel \<in> set curated) formalPinned in
      if rel \<in> set optedIn
      then e\<lparr>SafetyStatus := ''high_risk_exact_opt_in'', peReason := ''approved high-risk exact opt-in; '' @ peReason e\<rparr>
      else e)"

definition exclusion_evaluation :: "SafeInventoryExclusion \<Rightarrow> PathEvaluation" where
  "exclusion_evaluation x =
     \<lparr>peVersion = ManagedScopeEvaluationV2, pePath = PathSummary x, Role = ''exclude'', MatchedRule = None, RuleSource = ''safety'',
      RulePriority = sourcePriority ''safety'', SafetyStatus = Category x, GitStatus = gitStatus (exGitTracked x) (Category x = SafetyIgnored),
      ReadsContent = False, EntersWholeIndex = False, EntersObserveFingerprint = False, peReason = exRuleSource x @ '':'' @ Category x\<rparr>"

definition count_evaluation :: "Evaluation \<Rightarrow> Evaluation" where
  "count_evaluation r =
     r\<lparr>Index := sortEvaluations (Index r), Observe := sortEvaluations (Observe r), Exclude := sortEvaluations (Exclude r),
       IndexCount := length (Index r), ObserveCount := length (Observe r), ExcludeCount := length (Exclude r),
       evRequiredHumanReview := RequiredHumanReview (evSafeInventory r)\<rparr>"

definition evaluate_inventory :: "Policy \<Rightarrow> string \<Rightarrow> SafeInventory \<Rightarrow> string list \<Rightarrow> string list \<Rightarrow> bool \<Rightarrow> Evaluation" where
  "evaluate_inventory policy identity inventory curated optedIn formalPinned =
     (let r0 = \<lparr>evVersion = ManagedScopeEvaluationV2, PolicyIdentity = identity, evSafeInventory = Summary inventory, Index = [], Observe = [],
                Exclude = [], IndexCount = 0, ObserveCount = 0, ExcludeCount = 0, SafetyExcluded = 0, evRequiredHumanReview = 0\<rparr>;
          r1 = foldl (\<lambda>r rel. appendEvaluation r (candidate_evaluation policy inventory curated optedIn formalPinned rel)) r0
                 (ManagedCandidates inventory);
          r2 = foldl (\<lambda>r x. (appendEvaluation r (exclusion_evaluation x))\<lparr>SafetyExcluded := SafetyExcluded r + 1\<rparr>) r1
                 (Exclusions inventory) in
      count_evaluation r2)"

definition walk_options :: "BuildOptions \<Rightarrow> WalkOptions" where
  "walk_options options =
     (let w = (if boHighRiskOptIn options \<noteq> [] then (boWalkOptions options)\<lparr>HighRiskOptIn := boHighRiskOptIn options\<rparr> else boWalkOptions options) in
      w\<lparr>IncludeIgnoredCandidates := True\<rparr>)"

definition Build ::
  "(rune \<Rightarrow> rune) \<Rightarrow> (Policy \<Rightarrow> string) \<Rightarrow> (string \<Rightarrow> string) \<Rightarrow> (string \<Rightarrow> bool) \<Rightarrow> string option \<Rightarrow> git_host \<Rightarrow> fs_entries
   \<Rightarrow> string \<Rightarrow> Policy \<Rightarrow> BuildOptions \<Rightarrow> (build_error, Evaluation) result" where
  "Build uni json sha regular absolute host entries layout policy options =
     (case Normalize uni policy of
        Inl e \<Rightarrow> Inl (ScopeError e)
      | Inr normalized \<Rightarrow>
          case Identity uni json sha normalized of
            Inl e \<Rightarrow> Inl (ScopeError e)
          | Inr baseIdentity \<Rightarrow>
              case BuildSafeInventory uni sha regular absolute host entries (walk_options options) of
                Inl e \<Rightarrow> Inl (InventoryError e)
              | Inr inventory \<Rightarrow>
                  case curated_paths (CurationExclude options) of
                    Inl e \<Rightarrow> Inl e
                  | Inr curated \<Rightarrow>
                      Inr (evaluate_inventory normalized
                            (evaluationIdentity sha baseIdentity (RulesIdentity (Summary inventory)) (uniq_adj (sort_strings curated)))
                            inventory curated (opted_in (HighRiskOptIn (walk_options options))) (layout = ''volumes-v1'')))"

section \<open>The proposal shown before a change\<close>

record DirectoryImpact =
  Directory :: string
  diIndex :: nat
  diObserve :: nat
  diExclude :: nat
  Total :: nat

record Proposal =
  prVersion :: string
  prPolicyIdentity :: string
  prGitTracked :: nat
  NewSourceFiles :: nat
  IndexObjects :: nat
  ObserveObjects :: nat
  ExcludeObjects :: nat
  prSafetyExcluded :: nat
  EstimatedWholeIndexTokens :: nat
  LargestDirectories :: "DirectoryImpact list"
  HighRiskRules :: nat
  RequiredHumanDecisions :: nat
  RequiresHumanApproval :: bool

definition evaluation_directory :: "PathEvaluation \<Rightarrow> string" where
  "evaluation_directory e = (let d = path_dir (pePath e) in if d = ''.'' then ''./'' else d)"

definition directory_impact :: "Evaluation \<Rightarrow> string \<Rightarrow> DirectoryImpact" where
  "directory_impact ev d =
     (let n = (\<lambda>es. length (filter (\<lambda>e. evaluation_directory e = d) es)) in
      \<lparr>Directory = d, diIndex = n (Index ev), diObserve = n (Observe ev), diExclude = n (Exclude ev),
       Total = n (Index ev) + n (Observe ev) + n (Exclude ev)\<rparr>)"

definition impact_before :: "DirectoryImpact \<Rightarrow> DirectoryImpact \<Rightarrow> bool" where
  "impact_before a b = (if Total a \<noteq> Total b then Total a > Total b else str_less (Directory a) (Directory b))"

fun insort_impact :: "DirectoryImpact \<Rightarrow> DirectoryImpact list \<Rightarrow> DirectoryImpact list" where
  "insort_impact x [] = [x]"
| "insort_impact x (y # ys) = (if impact_before y x then y # insort_impact x ys else x # y # ys)"

definition largest_directories :: "Evaluation \<Rightarrow> DirectoryImpact list" where
  "largest_directories ev =
     take 5 (foldr insort_impact
       (map (directory_impact ev) (remdups (map evaluation_directory (Index ev @ Observe ev @ Exclude ev)))) [])"

definition BuildProposal :: "Evaluation option \<Rightarrow> nat \<Rightarrow> Proposal" where
  "BuildProposal evaluation highRiskExactCount =
     (case evaluation of
        None \<Rightarrow>
          \<lparr>prVersion = ''managed-scope-proposal/v1'', prPolicyIdentity = [], prGitTracked = 0, NewSourceFiles = 0, IndexObjects = 0,
           ObserveObjects = 0, ExcludeObjects = 0, prSafetyExcluded = 0, EstimatedWholeIndexTokens = 0, LargestDirectories = [],
           HighRiskRules = highRiskExactCount, RequiredHumanDecisions = 0, RequiresHumanApproval = False\<rparr>
      | Some ev \<Rightarrow>
          \<lparr>prVersion = ''managed-scope-proposal/v1'', prPolicyIdentity = PolicyIdentity ev, prGitTracked = siGitTracked (evSafeInventory ev),
           NewSourceFiles = NonignoredUntracked (evSafeInventory ev), IndexObjects = IndexCount ev, ObserveObjects = ObserveCount ev,
           ExcludeObjects = ExcludeCount ev, prSafetyExcluded = SafetyExcluded ev, EstimatedWholeIndexTokens = 1800 + IndexCount ev * 110,
           LargestDirectories = largest_directories ev, HighRiskRules = highRiskExactCount, RequiredHumanDecisions = evRequiredHumanReview ev,
           RequiresHumanApproval = (0 < highRiskExactCount \<or> 0 < AutoBlockerCount (evSafeInventory ev) \<or>
             (IndexCount ev = 0 \<and> 0 < FinalManagedCandidates (evSafeInventory ev)))\<rparr>)"

end
