(* ===== verification/Scope_Policy_Laws.thy ===== *)
theory Scope_Policy_Laws
  imports Scope_Policy Scope_Glob_Laws "HOL-Library.Multiset"
begin

text \<open>
  The properties of policy normalization: what a normalized policy satisfies, that normalizing again
  changes nothing, and what a normalized pattern can name.
\<close>

section \<open>Patterns\<close>

lemma path_clean_split:
  assumes "v \<noteq> []" and "\<not> list_ex (\<lambda>part. part = ''..'' \<or> part = ''.'' \<or> part = []) (str_split v slash)"
  shows "path_clean v = v" "list_all proper_elem (str_split v slash)"
proof -
  have p: "\<forall>e \<in> set (str_split v slash). proper_elem e"
    using assms(2) str_split_char_no_sep [of _ v "CHR ''/''"] by (auto simp: proper_elem_def list_ex_iff)
  then show "list_all proper_elem (str_split v slash)" by (simp add: list_all_iff)
  show "path_clean v = v"
    using path_clean_proper [OF str_split_nonempty p] str_join_split [of slash v] by simp
qed

lemma not_proper: "\<not> proper_elem []" "\<not> proper_elem ''.''" "\<not> proper_elem ''..''"
  by (simp_all add: proper_elem_def)

definition pattern_ok :: "string \<Rightarrow> string \<Rightarrow> bool" where
  "pattern_ok kind p \<longleftrightarrow>
     list_all proper_elem (str_split p slash) \<and> CHR 0x5C \<notin> set p \<and> \<not> drive_pattern p \<and>
     (kind \<noteq> ''glob'' \<longrightarrow> CHR ''*'' \<notin> set p \<and> CHR ''?'' \<notin> set p) \<and>
     (kind = ''glob'' \<longrightarrow> is_ok (compileGlobProgram p)) \<and>
     (kind \<noteq> ''directory'' \<longrightarrow> trim_space p = p)"

lemma set_trim_suffix: "set (trim_suffix s p) \<subseteq> set s"
  by (auto simp: trim_suffix_def has_suffix_iff dest: in_set_takeD)

lemma NormalizePattern_ok:
  assumes "NormalizePattern value0 kind = Inr p"
  shows "pattern_ok kind p"
proof -
  define v1 where "v1 = trim_space (replace_all value0 [CHR 0x5C] slash)"
  define v where "v = (if kind = ''directory'' then trim_suffix v1 slash else v1)"
  have c: "v \<noteq> []" "\<not> drive_pattern v" "kind \<noteq> ''glob'' \<longrightarrow> \<not> list_ex (\<lambda>c. c = CHR ''*'' \<or> c = CHR ''?'') v"
    "\<not> list_ex (\<lambda>part. part = ''..'' \<or> part = ''.'' \<or> part = []) (str_split v slash)"
    "p = path_clean v" "kind = ''glob'' \<longrightarrow> is_ok (compileGlobProgram p)"
    using assms by (auto simp: NormalizePattern_def v_def v1_def Let_def split: if_splits sum.splits)
  have "CHR 0x5C \<notin> set v1"
    using set_trim_space [of "replace_all value0 [CHR 0x5C] slash"] by (auto simp: v1_def replace_all_char)
  then have "CHR 0x5C \<notin> set v" using set_trim_suffix [of v1 slash] by (auto simp: v_def split: if_splits)
  moreover have "kind \<noteq> ''directory'' \<longrightarrow> trim_space v = v" by (simp add: v_def v1_def)
  moreover have "kind \<noteq> ''glob'' \<longrightarrow> CHR ''*'' \<notin> set v \<and> CHR ''?'' \<notin> set v" using c(3) unfolding list_ex_iff by blast
  moreover have "p = v" using c(5) path_clean_split(1) [OF c(1,4)] by simp
  ultimately show ?thesis using c(2,6) path_clean_split(2) [OF c(1,4)] unfolding pattern_ok_def by blast
qed

lemma NormalizePattern_again:
  assumes "pattern_ok kind p" and "trim_space p = p"
  shows "NormalizePattern p kind = Inr p"
proof -
  have el: "\<forall>e \<in> set (str_split p slash). proper_elem e" using assms(1) by (simp add: pattern_ok_def list_all_iff)
  have ne: "p \<noteq> []"
  proof
    assume "p = []"
    then have "[] \<in> set (str_split p slash)" by simp
    then show False using el not_proper(1) by blast
  qed
  have j: "str_join (str_split p slash) slash = p" by (rule str_join_split) simp
  have head: "\<not> has_prefix p slash" using str_join_proper_head [OF str_split_nonempty el] j by simp
  have last: "\<not> has_suffix p slash"
  proof
    assume "has_suffix p slash"
    then obtain u where "p = u @ slash @ []" by (auto simp: has_suffix_iff)
    then have "[] \<in> set (str_split p slash)" using str_split_char_after [of u "CHR ''/''" "[]"] by simp
    then show False using el not_proper by blast
  qed
  have r: "replace_all p [CHR 0x5C] slash = p"
    using assms(1) unfolding replace_all_char pattern_ok_def by (intro map_idI) auto
  have pe: "\<not> list_ex (\<lambda>part. part = ''..'' \<or> part = ''.'' \<or> part = []) (str_split p slash)"
    using el not_proper unfolding list_ex_iff by blast
  have cl: "path_clean p = p" by (rule path_clean_split(1) [OF ne pe])
  have esc: "p \<noteq> ''.''" "p \<noteq> ''..''" "\<not> has_prefix p ''../''"
  proof -
    show "p \<noteq> ''.''" "p \<noteq> ''..''"
      using el not_proper(2,3) str_split_char_single [of "CHR ''/''" p] by auto
    show "\<not> has_prefix p ''../''"
    proof
      assume "has_prefix p ''../''"
      then obtain t where "p = ''..'' @ CHR ''/'' # t" by (auto simp: has_prefix_iff)
      then have "''..'' \<in> set (str_split p slash)" using str_split_char_append [of "CHR ''/''" "''..''" t] by simp
      then show False using el not_proper by blast
    qed
  qed
  show ?thesis
  proof (cases "kind = ''glob''")
    case True
    then obtain pr where "compileGlobProgram p = Inr pr"
      using assms(1) unfolding pattern_ok_def by (cases "compileGlobProgram p") auto
    then show ?thesis using True assms ne head r pe cl esc
      by (simp add: NormalizePattern_def pattern_ok_def)
  next
    case False
    have "\<not> list_ex (\<lambda>c. c = CHR ''*'' \<or> c = CHR ''?'') p" "\<not> drive_pattern p"
      using False assms(1) unfolding pattern_ok_def list_ex_iff by blast+
    moreover have "trim_suffix p slash = p" using last by (simp add: trim_suffix_def)
    ultimately show ?thesis using False assms(2) ne head r pe cl esc
      by (simp add: NormalizePattern_def)
  qed
qed

section \<open>Rules\<close>

text \<open>Words of the vocabularies are lower-case ASCII, so trimming and lower-casing keep them.\<close>

definition lower_word :: "string \<Rightarrow> bool" where
  "lower_word w \<longleftrightarrow> list_all (\<lambda>c. byte c < 128 \<and> \<not> is_space (byte c) \<and> \<not> (65 \<le> byte c \<and> byte c \<le> 90)) w"

lemma lower_word_id:
  assumes "lower_word w"
  shows "to_lower uni (trim_space w) = w"
proof -
  have c: "\<forall>c \<in> set w. byte c < 128 \<and> \<not> is_space (byte c) \<and> \<not> (65 \<le> byte c \<and> byte c \<le> 90)"
    using assms by (simp add: lower_word_def list_all_iff)
  have t: "trim_space w = w" using c by (intro trim_space_ascii) blast
  have r: "runes w = map of_char w" using c by (intro runes_all_ascii) blast
  have "map (\<lambda>r. if 65 \<le> r \<and> r \<le> 90 then r + 32 else if r < 128 then r else uni r) (map of_char w) = map of_char w"
    using c by (intro map_idI) auto
  moreover have "of_runes (map of_char w) = w" using c by (intro of_runes_ascii) blast
  ultimately show ?thesis unfolding to_lower_def t r by argo
qed

lemma vocabulary_lower:
  "list_all lower_word (ScopeRoles @ ScopePatternKinds @ ScopeRuleSources @ ScopeDecisionBases @ ScopeApprovalModes)"
  by code_simp

lemma vocabulary_id:
  assumes "w \<in> set (ScopeRoles @ ScopePatternKinds @ ScopeRuleSources @ ScopeDecisionBases @ ScopeApprovalModes) \<or> w = []"
  shows "to_lower uni (trim_space w) = w"
  using assms vocabulary_lower lower_word_id [of w uni] lower_word_id [of "[]" uni]
  unfolding list_all_iff by (auto simp: lower_word_def)

definition rule_ok :: "Rule \<Rightarrow> bool" where
  "rule_ok r \<longleftrightarrow>
     ruleIDPattern (RuleID r) \<and> Action r \<in> set ScopeRoles \<and> PatternKind r \<in> set ScopePatternKinds \<and>
     Source r \<in> set ScopeRuleSources \<and> Source r \<noteq> ''safety'' \<and>
     Reason r \<noteq> [] \<and> trim_space (Reason r) = Reason r \<and> CreatedBy r \<noteq> [] \<and> trim_space (CreatedBy r) = CreatedBy r \<and>
     0 \<le> Order r \<and> (DecisionBasis r = [] \<or> DecisionBasis r \<in> set ScopeDecisionBases) \<and>
     pattern_ok (PatternKind r) (Pattern r) \<and>
     sorted_wrt str_less (Exceptions r) \<and> list_all (pattern_ok ''glob'') (Exceptions r)"

lemma ruleID_trimmed: "ruleIDPattern s \<Longrightarrow> trim_space s = s"
  by (intro trim_space_ascii)
    (auto simp: ruleIDPattern_def id_head_def is_digit_def is_space_def list_all_iff split: list.splits)

lemma normalize_exceptions_ok: "normalize_exceptions xs = Inr ns \<Longrightarrow> list_all (pattern_ok ''glob'') ns"
  by (induction xs arbitrary: ns) (auto split: sum.splits dest: NormalizePattern_ok)

lemma normalize_exceptions_again: "list_all (pattern_ok ''glob'') xs \<Longrightarrow> normalize_exceptions xs = Inr xs"
proof (induction xs)
  case (Cons x xs)
  then have "trim_space x = x" by (simp add: pattern_ok_def)
  then show ?case using Cons NormalizePattern_again [of "''glob''" x] by simp
qed simp

lemma normalize_rule_ok:
  assumes "normalize_rule uni seen r0 = Inr r"
  shows "rule_ok r \<and> RuleID r \<notin> set seen"
proof -
  let ?t = "trim_rule uni r0"
  obtain p xs where p: "NormalizePattern (Pattern ?t) (PatternKind ?t) = Inr p"
    and xs: "normalize_exceptions (Exceptions ?t) = Inr xs"
    and r: "r = ?t\<lparr>Pattern := p, Exceptions := uniq_adj (sort_strings xs)\<rparr>"
    and c: "ruleIDPattern (RuleID ?t)" "RuleID ?t \<notin> set seen" "Action ?t \<in> set ScopeRoles" "PatternKind ?t \<in> set ScopePatternKinds"
      "Source ?t \<in> set ScopeRuleSources" "Source ?t \<noteq> ''safety''" "Reason ?t \<noteq> []" "CreatedBy ?t \<noteq> []" "0 \<le> Order ?t"
      "DecisionBasis ?t = [] \<or> DecisionBasis ?t \<in> set ScopeDecisionBases"
    using assms unfolding normalize_rule_def Let_def by (auto split: if_splits sum.splits simp: not_less)
  have "list_all (pattern_ok ''glob'') (uniq_adj (sort_strings xs))"
    using normalize_exceptions_ok [OF xs] by (simp add: list_all_iff)
  moreover have "sorted_wrt str_less (uniq_adj (sort_strings xs))" by (simp add: sorted_uniq_adj sorted_sort_strings)
  moreover have "trim_space (Reason ?t) = Reason ?t" "trim_space (CreatedBy ?t) = CreatedBy ?t" by (simp_all add: trim_rule_def)
  ultimately show ?thesis using c NormalizePattern_ok [OF p] unfolding r rule_ok_def by simp
qed

lemma sort_strings_sorted: "sorted_wrt str_less xs \<Longrightarrow> sort_strings xs = xs"
proof (induction xs)
  case (Cons x xs)
  then have "insort_str x xs = x # xs" by (cases xs) (auto simp: str_le_def dest: str_less_trans)
  then show ?case using Cons by (simp add: sort_strings_def)
qed (simp add: sort_strings_def)

lemma uniq_adj_strict: "sorted_wrt str_less xs \<Longrightarrow> uniq_adj xs = xs"
  by (induction xs rule: uniq_adj.induct) auto

lemma normalize_rule_again:
  assumes "rule_ok r" and "RuleID r \<notin> set seen" and "trim_space (Pattern r) = Pattern r"
  shows "normalize_rule uni seen r = Inr r"
proof -
  note ok = assms(1) [unfolded rule_ok_def]
  have "to_lower uni (trim_space (DecisionBasis r)) = DecisionBasis r" using ok by (intro vocabulary_id) auto
  then have t: "trim_rule uni r = r"
    using ok vocabulary_id [of "Action r" uni] vocabulary_id [of "PatternKind r" uni] vocabulary_id [of "Source r" uni]
      ruleID_trimmed [of "RuleID r"]
    by (simp add: trim_rule_def)
  have "uniq_adj (sort_strings (Exceptions r)) = Exceptions r"
    using ok by (simp add: sort_strings_sorted uniq_adj_strict)
  moreover have "NormalizePattern (Pattern r) (PatternKind r) = Inr (Pattern r)"
    using ok assms(3) by (intro NormalizePattern_again) simp_all
  moreover have "normalize_exceptions (Exceptions r) = Inr (Exceptions r)"
    using ok by (intro normalize_exceptions_again) simp
  ultimately show ?thesis using ok assms(2) unfolding normalize_rule_def t Let_def by simp
qed

section \<open>Policies\<close>

lemma normalize_rules_ok:
  "normalize_rules uni seen rs = Inr ns \<Longrightarrow> list_all rule_ok ns \<and> distinct (map RuleID ns) \<and> set (map RuleID ns) \<inter> set seen = {}"
proof (induction rs arbitrary: seen ns)
  case (Cons r rs)
  obtain n ns' where n: "normalize_rule uni seen r = Inr n" "normalize_rules uni (RuleID n # seen) rs = Inr ns'" "ns = n # ns'"
    using Cons.prems by (auto split: sum.splits)
  then show ?case using Cons.IH [OF n(2)] normalize_rule_ok [OF n(1)] by auto
qed simp

lemma normalize_rules_again:
  "list_all rule_ok rs \<Longrightarrow> distinct (map RuleID rs) \<Longrightarrow> set (map RuleID rs) \<inter> set seen = {} \<Longrightarrow>
   \<forall>r \<in> set rs. trim_space (Pattern r) = Pattern r \<Longrightarrow> normalize_rules uni seen rs = Inr rs"
proof (induction rs arbitrary: seen)
  case (Cons r rs)
  have "normalize_rule uni seen r = Inr r" using Cons.prems by (intro normalize_rule_again) auto
  moreover have "normalize_rules uni (RuleID r # seen) rs = Inr rs" using Cons.prems by (intro Cons.IH) auto
  ultimately show ?case by simp
qed simp

lemma rule_less_irrefl: "\<not> rule_less a a"
  by (simp add: rule_less_def)

lemma rule_less_trans: "rule_less a b \<Longrightarrow> rule_less b c \<Longrightarrow> rule_less a c"
  by (auto simp: rule_less_def split: if_splits dest: str_less_trans)

lemma rule_le_trans: "\<not> rule_less b a \<Longrightarrow> \<not> rule_less c b \<Longrightarrow> \<not> rule_less c a"
  using str_less_linear [of "RuleID a" "RuleID b"] str_less_linear [of "RuleID b" "RuleID c"]
  by (auto simp: rule_less_def split: if_splits dest: str_less_trans)

lemma set_insert_rule [simp]: "set (insert_rule r rs) = insert r (set rs)"
  by (induction rs) auto

lemma mset_insert_rule: "mset (insert_rule r rs) = add_mset r (mset rs)"
  by (induction rs) auto

lemma mset_sort_rules: "mset (sort_rules rs) = mset rs"
  unfolding sort_rules_def by (induction rs) (simp_all add: mset_insert_rule)

lemma sorted_insert_rule:
  "sorted_wrt (\<lambda>a b. \<not> rule_less b a) rs \<Longrightarrow> sorted_wrt (\<lambda>a b. \<not> rule_less b a) (insert_rule r rs)"
proof (induction rs)
  case (Cons x xs)
  then show ?case
  proof (cases "rule_less x r")
    case True
    then have "\<not> rule_less r x" using rule_less_trans rule_less_irrefl by blast
    then show ?thesis using Cons True by auto
  next
    case False
    then have "\<forall>y \<in> set xs. \<not> rule_less y r" using Cons.prems rule_le_trans by (meson sorted_wrt.simps(2))
    then show ?thesis using Cons.prems False by auto
  qed
qed simp

lemma sorted_sort_rules: "sorted_wrt (\<lambda>a b. \<not> rule_less b a) (sort_rules rs)"
  unfolding sort_rules_def by (induction rs) (simp_all add: sorted_insert_rule)

lemma sort_rules_sorted: "sorted_wrt (\<lambda>a b. \<not> rule_less b a) rs \<Longrightarrow> sort_rules rs = rs"
proof (induction rs)
  case (Cons r rs)
  then have "insert_rule r rs = r # rs" by (cases rs) auto
  then show ?case using Cons by (simp add: sort_rules_def)
qed (simp add: sort_rules_def)

definition policy_ok :: "Policy \<Rightarrow> bool" where
  "policy_ok q \<longleftrightarrow>
     Version q = ManagedScopePolicyV2 \<and> Profile q \<in> set ScopeProfiles \<and>
     ObserveChangePolicy q \<in> {''review_required'', ''informational''} \<and> ApprovalMode q \<in> set ScopeApprovalModes \<and>
     1 \<le> EntryRemovalCount (Thresholds q) \<and> EntryRemovalCount (Thresholds q) \<le> 100000 \<and>
     1 \<le> EntryRemovalPercent (Thresholds q) \<and> EntryRemovalPercent (Thresholds q) \<le> 100 \<and>
     list_all rule_ok (Rules q) \<and> distinct (map RuleID (Rules q)) \<and> sorted_wrt (\<lambda>a b. \<not> rule_less b a) (Rules q)"

lemma Normalize_policy_ok:
  assumes "Normalize uni p = Inr q"
  shows "policy_ok q"
proof -
  obtain rs where rs: "normalize_rules uni [] (Rules p) = Inr rs" and r: "Rules q = sort_rules rs"
    and c: "Version q = ManagedScopePolicyV2" "Profile q \<in> set ScopeProfiles" "ObserveChangePolicy q \<in> {''review_required'', ''informational''}"
      "ApprovalMode q \<in> set ScopeApprovalModes" "1 \<le> EntryRemovalCount (Thresholds q)" "EntryRemovalCount (Thresholds q) \<le> 100000"
      "1 \<le> EntryRemovalPercent (Thresholds q)" "EntryRemovalPercent (Thresholds q) \<le> 100"
    using assms unfolding Normalize_def Let_def by (auto split: if_split_asm sum.splits simp: not_less)
  have "list_all rule_ok rs" "distinct (map RuleID rs)" using normalize_rules_ok [OF rs] by auto
  moreover have "mset (map RuleID (sort_rules rs)) = mset (map RuleID rs)" by (simp add: mset_sort_rules)
  moreover have "set (sort_rules rs) = set rs" by (rule mset_eq_setD [OF mset_sort_rules])
  ultimately have "list_all rule_ok (sort_rules rs)" "distinct (map RuleID (sort_rules rs))"
    using mset_eq_imp_distinct_iff [of "map RuleID (sort_rules rs)" "map RuleID rs"] unfolding list_all_iff by blast+
  then show ?thesis using c sorted_sort_rules unfolding policy_ok_def r by blast
qed

text \<open>
  A normalized policy is canonical: it is well formed (known version, profile, modes and bounded
  thresholds; rules with unique identifiers, known actions, kinds and sources, no safety rule, only
  repository-relative patterns and exceptions, in precedence order), and normalizing it again returns
  it unchanged, provided no directory pattern kept an outer blank.
\<close>

theorem Normalize_canonical:
  assumes "Normalize uni p = Inr q" and "\<forall>r \<in> set (Rules q). trim_space (Pattern r) = Pattern r"
  shows "policy_ok q \<and> Normalize uni q = Inr q"
proof -
  have ok: "policy_ok q" by (rule Normalize_policy_ok [OF assms(1)])
  note c = ok [unfolded policy_ok_def]
  have m: "to_lower uni (trim_space (ApprovalMode q)) = ApprovalMode q" using c by (intro vocabulary_id) simp
  have "ApprovalMode q \<noteq> []" using c by (auto simp: ScopeApprovalModes_def)
  then have d: "default_text ''inherit'' (ApprovalMode q) = ApprovalMode q"
    "default_text ManagedScopePolicyV2 (Version q) = Version q" "default_text ''review_required'' (ObserveChangePolicy q) = ObserveChangePolicy q"
    "thresholds_of q = Thresholds q"
    using c by (auto simp: default_text_def thresholds_of_def ManagedScopePolicyV2_def)
  have rs: "normalize_rules uni [] (Rules q) = Inr (Rules q)" using c assms(2) by (intro normalize_rules_again) auto
  have st: "sort_rules (Rules q) = Rules q" using c by (intro sort_rules_sorted) simp
  have q: "q = \<lparr>Version = Version q, Profile = Profile q, ObserveChangePolicy = ObserveChangePolicy q,
      ApprovalMode = ApprovalMode q, Thresholds = Thresholds q, Rules = Rules q\<rparr>" by simp
  have "Normalize uni q = Inr \<lparr>Version = Version q, Profile = Profile q, ObserveChangePolicy = ObserveChangePolicy q,
      ApprovalMode = ApprovalMode q, Thresholds = Thresholds q, Rules = Rules q\<rparr>"
    using c unfolding Normalize_def d m rs Let_def sum.case st by auto
  then show ?thesis using ok q by metis
qed

definition sample_policy :: Policy where
  "sample_policy = (DefaultPolicy ''production'')\<lparr>Rules :=
     [\<lparr>RuleID = ''docs'', Action = '' Exclude'', Pattern = ''docs/'', PatternKind = ''directory'', Reason = ''prose'',
       DecisionBasis = [], Source = ''user'', CreatedBy = ''team'', Order = 2, Enabled = True, Exceptions = [''**/*.go'']\<rparr>,
      \<lparr>RuleID = ''gen'', Action = ''observe'', Pattern = ''**/*.pb.go'', PatternKind = ''glob'', Reason = ''generated'',
       DecisionBasis = ''generated_asset'', Source = ''user'', CreatedBy = ''team'', Order = 1, Enabled = True, Exceptions = []\<rparr>]\<rparr>"

theorem Normalize_canonical_witness:
  "\<exists>q. Normalize id sample_policy = Inr q \<and> map RuleID (Rules q) = [''gen'', ''docs''] \<and> Normalize id q = Inr q"
proof -
  have "(case Normalize id sample_policy of Inl _ \<Rightarrow> False | Inr q \<Rightarrow> map RuleID (Rules q) = [''gen'', ''docs''] \<and>
      list_all (\<lambda>r. trim_space (Pattern r) = Pattern r) (Rules q))" by code_simp
  from result_case_ex [OF this] obtain q where q: "Normalize id sample_policy = Inr q" "map RuleID (Rules q) = [''gen'', ''docs'']"
    "\<forall>r \<in> set (Rules q). trim_space (Pattern r) = Pattern r" unfolding list_all_iff by (elim exE conjE)
  have "Normalize id q = Inr q" by (rule conjunct2 [OF Normalize_canonical [OF q(1,3)]])
  with q(1,2) show ?thesis by (intro exI conjI)
qed

text \<open>
  The proviso is needed: for a directory pattern the slash is removed after the blanks, so a blank in
  front of it survives the first normalization and not the second.
\<close>

lemma NormalizePattern_not_idempotent:
  "NormalizePattern ''a /'' ''directory'' = Inr ''a '' \<and> NormalizePattern ''a '' ''directory'' = Inr ''a''"
  by code_simp

end
