(* ===== verification/Scope_Eval_Laws.thy ===== *)
theory Scope_Eval_Laws
  imports Scope_Eval Scope_Policy_Laws Fs_Inventory_Laws
begin

text \<open>
  What an evaluation decides: the rule with the highest rank wins, the lists of an evaluation
  partition what the inventory reports, and nothing outside the inventory's boundary is read.
\<close>

section \<open>The winning rule\<close>

definition outranks :: "Rule \<Rightarrow> Rule \<Rightarrow> bool" where
  "outranks r s \<longleftrightarrow>
     sourcePriority (Source s) < sourcePriority (Source r) \<or>
     (sourcePriority (Source s) = sourcePriority (Source r) \<and> Order s < Order r)"

definition winner_of :: "string \<Rightarrow> Rule list \<Rightarrow> Rule \<Rightarrow> bool" where
  "winner_of p rules w \<longleftrightarrow>
     (\<exists>xs ys. rules = xs @ w # ys \<and> Match w p \<and>
        (\<forall>r \<in> set xs. Match r p \<longrightarrow> \<not> outranks r w) \<and> (\<forall>r \<in> set ys. Match r p \<longrightarrow> outranks w r))"

definition chosen :: "Rule \<Rightarrow> selection" where
  "chosen w = \<lparr>selRole = Action w, selReason = Reason w, selSource = Source w, selPriority = sourcePriority (Source w), selWinner = Some w\<rparr>"

lemma winner_of_snoc_skip: "winner_of p rules w \<Longrightarrow> \<not> Match r p \<or> outranks w r \<Longrightarrow> winner_of p (rules @ [r]) w"
  unfolding winner_of_def by (elim exE conjE, rule_tac x = xs in exI, rule_tac x = "ys @ [r]" in exI) auto

lemma winner_of_snoc_take:
  assumes "winner_of p rules w" "Match r p" "\<not> outranks w r"
  shows "winner_of p (rules @ [r]) r"
proof -
  have "\<not> outranks s r" if "s \<in> set rules" "Match s p" for s
    using assms that unfolding winner_of_def outranks_def by force
  then show ?thesis using assms(2) unfolding winner_of_def by (intro exI [of _ rules] exI [of _ "[]"]) simp
qed

lemma select_chosen:
  "select_rule p (chosen w) r = (if Match r p \<and> \<not> outranks w r then chosen r else chosen w)"
  by (auto simp: select_rule_def chosen_def outranks_def Let_def)

lemma foldl_select:
  assumes "selWinner s0 = None" "\<forall>r \<in> set rules. selPriority s0 \<le> sourcePriority (Source r)"
  shows "if \<exists>r \<in> set rules. Match r p
    then \<exists>w. winner_of p rules w \<and> foldl (select_rule p) s0 rules = chosen w
    else foldl (select_rule p) s0 rules = s0"
  using assms(2)
proof (induction rules rule: rev_induct)
  case (snoc r rules)
  show ?case
  proof (cases "\<exists>r \<in> set rules. Match r p")
    case True
    then obtain w where w: "winner_of p rules w" "foldl (select_rule p) s0 rules = chosen w" using snoc by auto
    then show ?thesis using True winner_of_snoc_skip [OF w(1)] winner_of_snoc_take [OF w(1)]
      by (auto simp: select_chosen)
  next
    case False
    then have none: "foldl (select_rule p) s0 rules = s0" using snoc by auto
    have "select_rule p s0 r = chosen r" if "Match r p"
      using that snoc.prems assms(1) by (simp add: select_rule_def chosen_def Let_def)
    moreover have "select_rule p s0 r = s0" if "\<not> Match r p" using that by (simp add: select_rule_def)
    moreover have "winner_of p (rules @ [r]) r" if "Match r p"
      using that False unfolding winner_of_def by (intro exI [of _ rules] exI [of _ "[]"]) auto
    ultimately show ?thesis using none False by (cases "Match r p") (auto intro!: exI [of _ r])
  qed
qed simp

lemma profile_rule_source: "r \<in> set (profileRules profile) \<Longrightarrow> Source r = ''profile''"
proof -
  have all: "list_all (\<lambda>r. Source r = ''profile'') (profileRules profile)"
    by (simp add: profileRules_def list_all_iff profile_rule_def split: prod.splits)
  assume "r \<in> set (profileRules profile)"
  then show ?thesis using all by (simp add: list_all_iff)
qed

definition rule_source_ok :: "Rule \<Rightarrow> bool" where
  "rule_source_ok r \<longleftrightarrow> Source r \<in> {''builtin'', ''profile'', ''user'', ''curation''}"

lemma rule_source_priority: "rule_source_ok r \<Longrightarrow> 200 \<le> sourcePriority (Source r)"
  by (auto simp: rule_source_ok_def sourcePriority_def)

lemma candidate_sources:
  assumes "policy_ok policy" "r \<in> set (candidate_rules policy p curated)"
  shows "rule_source_ok r"
proof -
  consider "r \<in> set (profileRules (Profile policy))" | "r \<in> set (Rules policy)" | "r = curation_rule p"
    using assms(2) by (auto simp: candidate_rules_def split: if_splits)
  then show ?thesis
  proof cases
    case 2
    then have "rule_ok r" using assms(1) by (simp add: policy_ok_def list_all_iff)
    then show ?thesis unfolding rule_ok_def rule_source_ok_def ScopeRuleSources_def by auto
  next
    case 3
    then show ?thesis by (simp add: rule_source_ok_def curation_rule_def)
  qed (simp add: rule_source_ok_def profile_rule_source)
qed

lemma default_selection_fields: "selWinner (default_selection policy ignored) = None" "selPriority (default_selection policy ignored) \<le> 150"
  by (simp_all add: default_selection_def)

lemma evaluate_selection:
  assumes "Normalize uni policy0 = Inr policy"
  shows "if \<exists>r \<in> set (candidate_rules policy p curated). Match r p
    then \<exists>w. winner_of p (candidate_rules policy p curated) w \<and>
      foldl (select_rule p) (default_selection policy ignored) (candidate_rules policy p curated) = chosen w
    else foldl (select_rule p) (default_selection policy ignored) (candidate_rules policy p curated) = default_selection policy ignored"
proof -
  have ok: "policy_ok policy" by (rule Normalize_policy_ok [OF assms(1)])
  have low: "\<forall>r \<in> set (candidate_rules policy p curated). selPriority (default_selection policy ignored) \<le> sourcePriority (Source r)"
    using candidate_sources [OF ok] rule_source_priority default_selection_fields(2) [of policy ignored] by fastforce
  show ?thesis by (rule foldl_select [OF default_selection_fields(1) low])
qed

text \<open>
  \<^bold>\<open>C9\<close>. Under a normalized policy the role of a path is decided by rank. The Root and its Volumes are indexed
  under the Volumes layout unless Git hides them. Otherwise, when no profile, policy or Curation
  rule matches the default stands (excluded when Git ignores the path or the profile is custom,
  indexed otherwise); when rules match, the winner is the one of highest source priority and, among
  equals, of highest order, the later one on a tie: the evaluation has its action, reason and
  source. A path is read exactly when its role is not exclude.
\<close>

theorem evaluateTrackedPath_decides:
  assumes "Normalize uni policy0 = Inr policy"
  shows "let e = evaluateTrackedPath policy p tracked ignored curated pinned; rules = candidate_rules policy p curated in
    (ReadsContent e \<longleftrightarrow> Role e \<noteq> ''exclude'') \<and> (EntersWholeIndex e \<longleftrightarrow> Role e = ''index'') \<and>
    (if pinned \<and> FormalAssetOwner p \<noteq> None \<and> \<not> ignored then Role e = ''index'' \<and> MatchedRule e = None
     else if \<exists>r \<in> set rules. Match r p
     then \<exists>w. winner_of p rules w \<and> MatchedRule e = Some w \<and> Role e = Action w \<and> peReason e = Reason w \<and> RuleSource e = Source w
     else MatchedRule e = None \<and> Role e = (if ignored \<or> Profile policy = ''custom'' then ''exclude'' else ''index''))"
proof -
  note select = evaluate_selection [OF assms, of p curated ignored]
  show ?thesis
  proof (cases "pinned \<and> FormalAssetOwner p \<noteq> None \<and> \<not> ignored")
    case True
    then show ?thesis by (simp add: evaluateTrackedPath_def Let_def)
  next
    case notpinned: False
    show ?thesis
    proof (cases "\<exists>r \<in> set (candidate_rules policy p curated). Match r p")
      case True
      from select [unfolded if_P [OF True]] obtain w where "winner_of p (candidate_rules policy p curated) w"
        "foldl (select_rule p) (default_selection policy ignored) (candidate_rules policy p curated) = chosen w" by blast
      then show ?thesis unfolding evaluateTrackedPath_def Let_def if_not_P [OF notpinned] if_P [OF True]
        by (simp add: chosen_def)
    next
      case False
      from select [unfolded if_not_P [OF False]] show ?thesis
        unfolding evaluateTrackedPath_def Let_def if_not_P [OF notpinned] if_not_P [OF False]
        by (simp add: default_selection_def)
    qed
  qed
qed

theorem evaluateTrackedPath_decides_witness:
  "Normalize id (DefaultPolicy ''custom'') = Inr (DefaultPolicy ''custom'') \<and>
   MatchedRule (evaluateTrackedPath (DefaultPolicy ''custom'') ''a.go'' True False False True) = None \<and>
   Role (evaluateTrackedPath (DefaultPolicy ''custom'') ''a.go'' True False False True) = ''exclude''"
proof -
  have n: "Normalize id (DefaultPolicy ''custom'') = Inr (DefaultPolicy ''custom'')" by code_simp
  have f: "FormalAssetOwner ''a.go'' = None" "candidate_rules (DefaultPolicy ''custom'') ''a.go'' False = []" "Profile (DefaultPolicy ''custom'') = ''custom''"
    by code_simp+
  show ?thesis using evaluateTrackedPath_decides [OF n, of "''a.go''" True False False True] n f by (simp add: Let_def)
qed

text \<open>
  A path that Curation excludes is excluded, whatever the profile says and whether or not Git tracks or
  ignores it, as long as no user or curation rule of the policy matches it and it is not a
  pinned formal asset.
\<close>

theorem curation_excludes:
  assumes "Normalize uni policy0 = Inr policy" "NormalizeRelPath p = Inr p"
    and "\<forall>r \<in> set (Rules policy). Match r p \<longrightarrow> Source r \<noteq> ''user'' \<and> Source r \<noteq> ''curation''"
    and "\<not> (pinned \<and> FormalAssetOwner p \<noteq> None)"
  shows "Role (evaluateTrackedPath policy p tracked ignored True pinned) = ''exclude'' \<and>
    \<not> ReadsContent (evaluateTrackedPath policy p tracked ignored True pinned)"
proof -
  let ?e = "evaluateTrackedPath policy p tracked ignored True pinned" and ?rules = "candidate_rules policy p True"
  have mc: "Match (curation_rule p) p" by (simp add: Match_def assms(2) curation_rule_def)
  have any: "\<exists>r \<in> set ?rules. Match r p" using mc by (auto simp: candidate_rules_def)
  obtain w where w: "winner_of p ?rules w" "foldl (select_rule p) (default_selection policy ignored) ?rules = chosen w"
    using evaluate_selection [OF assms(1), of p True ignored, unfolded if_P [OF any]] by blast
  have e: "Role ?e = Action w" "ReadsContent ?e \<longleftrightarrow> Action w \<noteq> ''exclude''"
    using assms(4) w(2) by (auto simp: evaluateTrackedPath_def Let_def chosen_def)
  from w(1) obtain xs ys where split: "?rules = xs @ w # ys" and m: "Match w p" and after: "\<forall>r \<in> set ys. Match r p \<longrightarrow> outranks w r"
    unfolding winner_of_def by blast
  have "ys = []"
  proof (rule ccontr)
    assume "ys \<noteq> []"
    then obtain zs z where ys: "ys = zs @ [z]" by (cases ys rule: rev_exhaust) auto
    have "(profileRules (Profile policy) @ Rules policy) @ [curation_rule p] = (xs @ w # zs) @ [z]"
      using split unfolding candidate_rules_def ys by simp
    then have z: "curation_rule p = z" and front: "profileRules (Profile policy) @ Rules policy = xs @ w # zs"
      unfolding append1_eq_conv by blast+
    have "w \<in> set (profileRules (Profile policy) @ Rules policy)" unfolding front by simp
    then have mem: "w \<in> set (profileRules (Profile policy)) \<or> w \<in> set (Rules policy)" by simp
    have out: "outranks w (curation_rule p)" using after mc unfolding ys z by simp
    have "rule_source_ok w" by (rule candidate_sources [OF Normalize_policy_ok [OF assms(1)], of _ p True]) (simp add: split)
    then have "Source w = ''user'' \<or> Source w = ''curation''"
      using out by (auto simp: outranks_def curation_rule_def sourcePriority_def rule_source_ok_def)
    then show False using mem m assms(3) profile_rule_source by force
  qed
  then have "w = curation_rule p" using split unfolding candidate_rules_def by simp
  then show ?thesis using e by (simp add: curation_rule_def)
qed

theorem curation_excludes_witness:
  "Role (evaluateTrackedPath (DefaultPolicy ''full'') ''a.go'' True False True True) = ''exclude''"
proof -
  have "Normalize id (DefaultPolicy ''full'') = Inr (DefaultPolicy ''full'')" "NormalizeRelPath ''a.go'' = Inr ''a.go''"
    "\<forall>r \<in> set (Rules (DefaultPolicy ''full'')). Match r ''a.go'' \<longrightarrow> Source r \<noteq> ''user'' \<and> Source r \<noteq> ''curation''"
    "\<not> (True \<and> FormalAssetOwner ''a.go'' \<noteq> None)" by code_simp+
  from curation_excludes [OF this, of True False] show ?thesis by (rule conjunct1)
qed

section \<open>Evaluating a repository\<close>

lemma mset_insort_evaluation: "mset (insort_evaluation x xs) = add_mset x (mset xs)"
  by (induction xs) auto

lemma mset_sortEvaluations: "mset (sortEvaluations xs) = mset xs"
  unfolding sortEvaluations_def by (induction xs) (auto simp: mset_insort_evaluation)

lemma set_sortEvaluations [simp]: "set (sortEvaluations xs) = set xs"
  by (rule mset_eq_setD [OF mset_sortEvaluations])

lemma sorted_insort_evaluation:
  assumes "sorted_wrt (\<lambda>a b. str_le (pePath a) (pePath b)) xs"
  shows "sorted_wrt (\<lambda>a b. str_le (pePath a) (pePath b)) (insort_evaluation x xs)"
  using assms
proof (induction xs)
  case (Cons y ys)
  have in_set: "z \<in> set (insort_evaluation x ys) \<longleftrightarrow> z = x \<or> z \<in> set ys" for z
    using mset_eq_setD [OF mset_insort_evaluation [of x ys, folded mset.simps]] by auto
  show ?case
    using Cons in_set str_le_total [of "pePath x" "pePath y"] by (auto intro: str_le_trans)
qed simp

lemma sorted_sortEvaluations: "sorted_wrt (\<lambda>a b. str_le (pePath a) (pePath b)) (sortEvaluations xs)"
  unfolding sortEvaluations_def by (induction xs) (auto simp: sorted_insort_evaluation)

definition filed :: "Evaluation \<Rightarrow> PathEvaluation multiset" where
  "filed r = mset (Index r) + mset (Observe r) + mset (Exclude r)"

definition roles_ok :: "Evaluation \<Rightarrow> bool" where
  "roles_ok r \<longleftrightarrow> (\<forall>e \<in> set (Index r). Role e = ''index'') \<and> (\<forall>e \<in> set (Observe r). Role e = ''observe'') \<and>
     (\<forall>e \<in> set (Exclude r). Role e \<noteq> ''index'' \<and> Role e \<noteq> ''observe'')"

lemma filed_append: "filed (appendEvaluation r e) = add_mset e (filed r)"
  by (simp add: filed_def appendEvaluation_def)

lemma roles_append: "roles_ok r \<Longrightarrow> roles_ok (appendEvaluation r e)"
  by (auto simp: roles_ok_def appendEvaluation_def)

lemma filed_exclusions:
  "filed (foldl (\<lambda>r x. (appendEvaluation r (exclusion_evaluation x))\<lparr>SafetyExcluded := SafetyExcluded r + 1\<rparr>) r xs) =
     filed r + mset (map exclusion_evaluation xs)"
proof (induction xs arbitrary: r)
  case (Cons x xs)
  have "filed ((appendEvaluation r (exclusion_evaluation x))\<lparr>SafetyExcluded := n\<rparr>) = add_mset (exclusion_evaluation x) (filed r)" for n
    using filed_append [of r "exclusion_evaluation x"] by (simp add: filed_def)
  then show ?case using Cons by simp
qed simp

lemma filed_candidates: "filed (foldl (\<lambda>r rel. appendEvaluation r (f rel)) r xs) = filed r + mset (map f xs)"
  by (induction xs arbitrary: r) (simp_all add: filed_append)

lemma roles_foldl: "(\<And>r x. roles_ok r \<Longrightarrow> roles_ok (g r x)) \<Longrightarrow> roles_ok r \<Longrightarrow> roles_ok (foldl g r xs)"
  by (induction xs arbitrary: r) auto

lemma SafetyExcluded_append [simp]: "SafetyExcluded (appendEvaluation r e) = SafetyExcluded r"
  by (simp add: appendEvaluation_def)

lemma SafetyExcluded_candidates: "SafetyExcluded (foldl (\<lambda>r rel. appendEvaluation r (f rel)) r xs) = SafetyExcluded r"
  by (induction xs arbitrary: r) simp_all

lemma SafetyExcluded_exclusions:
  "SafetyExcluded (foldl (\<lambda>r x. (appendEvaluation r (exclusion_evaluation x))\<lparr>SafetyExcluded := SafetyExcluded r + 1\<rparr>) r xs) =
     SafetyExcluded r + length xs"
  by (induction xs arbitrary: r) simp_all

lemma pePath_candidate [simp]: "pePath (candidate_evaluation policy inventory curated optedIn pinned rel) = rel"
  by (simp add: candidate_evaluation_def evaluateTrackedPath_def Let_def)

lemma filed_count: "filed (count_evaluation r) = filed r"
  by (simp add: filed_def count_evaluation_def mset_sortEvaluations)

lemma evaluate_inventory_facts:
  assumes "ev = evaluate_inventory policy identity inventory curated optedIn pinned"
  shows "filed ev = mset (map (candidate_evaluation policy inventory curated optedIn pinned) (ManagedCandidates inventory)) +
      mset (map exclusion_evaluation (Exclusions inventory))" (is ?filed)
    and "roles_ok ev" "SafetyExcluded ev = length (Exclusions inventory)"
    and "IndexCount ev = length (Index ev) \<and> ObserveCount ev = length (Observe ev) \<and> ExcludeCount ev = length (Exclude ev)"
    and "\<forall>es \<in> {Index ev, Observe ev, Exclude ev}. sorted_wrt (\<lambda>a b. str_le (pePath a) (pePath b)) es"
proof -
  let ?empty = "\<lparr>evVersion = ManagedScopeEvaluationV2, PolicyIdentity = identity, evSafeInventory = Summary inventory, Index = [], Observe = [],
     Exclude = [], IndexCount = 0, ObserveCount = 0, ExcludeCount = 0, SafetyExcluded = 0, evRequiredHumanReview = 0\<rparr>"
  define r where "r = foldl (\<lambda>r x. (appendEvaluation r (exclusion_evaluation x))\<lparr>SafetyExcluded := SafetyExcluded r + 1\<rparr>)
     (foldl (\<lambda>r rel. appendEvaluation r (candidate_evaluation policy inventory curated optedIn pinned rel)) ?empty (ManagedCandidates inventory))
     (Exclusions inventory)"
  have ev: "ev = count_evaluation r" using assms by (simp add: evaluate_inventory_def r_def Let_def)
  show ?filed unfolding ev filed_count r_def filed_exclusions filed_candidates by (simp add: filed_def)
  have "roles_ok r" unfolding r_def
  proof (intro roles_foldl)
    fix q x assume "roles_ok q"
    then show "roles_ok ((appendEvaluation q (exclusion_evaluation x))\<lparr>SafetyExcluded := SafetyExcluded q + 1\<rparr>)"
      using roles_append [of q "exclusion_evaluation x"] by (simp add: roles_ok_def)
  qed (erule roles_append, simp add: roles_ok_def)
  then show "roles_ok ev" unfolding ev by (simp add: roles_ok_def count_evaluation_def)
  show "SafetyExcluded ev = length (Exclusions inventory)"
  proof -
    have "SafetyExcluded r = length (Exclusions inventory)" unfolding r_def SafetyExcluded_exclusions SafetyExcluded_candidates by simp
    then show ?thesis by (simp add: ev count_evaluation_def)
  qed
  have len: "length (sortEvaluations xs) = length xs" for xs by (metis mset_sortEvaluations size_mset)
  show "IndexCount ev = length (Index ev) \<and> ObserveCount ev = length (Observe ev) \<and> ExcludeCount ev = length (Exclude ev)"
    unfolding ev count_evaluation_def by (simp add: len)
  show "\<forall>es \<in> {Index ev, Observe ev, Exclude ev}. sorted_wrt (\<lambda>a b. str_le (pePath a) (pePath b)) es"
    unfolding ev count_evaluation_def by (simp add: sorted_sortEvaluations)
qed

lemma Build_inventory:
  assumes "Build uni json sha regular absolute host entries layout policy options = Inr ev"
  obtains normalized identity inventory curated where
    "BuildSafeInventory uni sha regular absolute host entries (walk_options options) = Inr inventory"
    "ev = evaluate_inventory normalized identity inventory curated (opted_in (HighRiskOptIn (walk_options options))) (layout = ''volumes-v1'')"
  using assms unfolding Build_def by (auto split: sum.splits)


text \<open>
  Whatever the policy says, a path that the evaluation marks as read lies inside the safety boundary: it
  is a regular file, no project configuration excludes it, and it has no built-in safety category,
  or it is a sensitive name that was opted in exactly.
\<close>

theorem Build_reads_inside_boundary:
  assumes "Build uni json sha regular absolute host entries layout policy options = Inr ev"
    and "e \<in> set (Index ev) \<union> set (Observe ev) \<union> set (Exclude ev)" "ReadsContent e"
  shows "regular (pePath e) \<and> ConfiguredExclusionSource (pePath e) (walk_options options) = None \<and>
    (fst (BuiltInSafetyCategory uni (pePath e) (SensitiveNameRules (walk_options options))) = [] \<or>
     (fst (BuiltInSafetyCategory uni (pePath e) (SensitiveNameRules (walk_options options))) = SafetySensitive \<and>
      (\<exists>q \<in> set (HighRiskOptIn (walk_options options)). pePath e = fst (safeRelativePath q))))"
proof -
  obtain normalized identity inventory curated where
    inv: "BuildSafeInventory uni sha regular absolute host entries (walk_options options) = Inr inventory"
    and ev: "ev = evaluate_inventory normalized identity inventory curated (opted_in (HighRiskOptIn (walk_options options))) (layout = ''volumes-v1'')"
    by (rule Build_inventory [OF assms(1)])
  have "e \<in># filed ev" using assms(2) by (auto simp: filed_def)
  then have "e \<in> candidate_evaluation normalized inventory curated (opted_in (HighRiskOptIn (walk_options options))) (layout = ''volumes-v1'') ` set (ManagedCandidates inventory)
      \<or> e \<in> exclusion_evaluation ` set (Exclusions inventory)"
    unfolding evaluate_inventory_facts(1) [OF ev] by simp
  then have "pePath e \<in> set (ManagedCandidates inventory)"
  proof
    assume "e \<in> exclusion_evaluation ` set (Exclusions inventory)"
    then have "\<not> ReadsContent e" by (elim imageE) (simp add: exclusion_evaluation_def)
    then show ?thesis using assms(3) by (rule notE)
  next
    assume "e \<in> candidate_evaluation normalized inventory curated (opted_in (HighRiskOptIn (walk_options options))) (layout = ''volumes-v1'') ` set (ManagedCandidates inventory)"
    then show ?thesis by (elim imageE) (simp only: pePath_candidate)
  qed
  from inventory_boundary [OF inv this] show ?thesis .
qed

section \<open>A sample evaluation\<close>

definition sample_build :: "(build_error, Evaluation) result" where
  "sample_build = Build id (\<lambda>_. []) id (\<lambda>_. True) (Some ''/r'') sample_host FsNil ''volumes-v1'' (DefaultPolicy ''full'')
     \<lparr>boWalkOptions = sample_options, boHighRiskOptIn = [], CurationExclude = [''n.go'']\<rparr>"

lemma sample_build_value:
  "case sample_build of Inl _ \<Rightarrow> False | Inr ev \<Rightarrow>
     map pePath (Index ev) = [''.env''] \<and> map ReadsContent (Index ev) = [True] \<and> map pePath (Exclude ev) = [''.git/'', ''n.go'', ''s'']"
  by code_simp

lemma sample_evaluation:
  obtains ev e where "sample_build = Inr ev" "Index ev = [e]" "pePath e = ''.env''" "ReadsContent e" "map pePath (Exclude ev) = [''.git/'', ''n.go'', ''s'']"
proof -
  from result_case_ex [OF sample_build_value] obtain ev where ev: "sample_build = Inr ev" "map pePath (Index ev) = [''.env'']"
    "map ReadsContent (Index ev) = [True]" "map pePath (Exclude ev) = [''.git/'', ''n.go'', ''s'']" by (elim exE conjE)
  then obtain e where "Index ev = [e]" by (cases "Index ev") auto
  then show thesis using that ev by simp
qed


theorem Build_reads_inside_boundary_witness:
  "\<exists>ev e. sample_build = Inr ev \<and> e \<in> set (Index ev) \<and> ReadsContent e \<and> pePath e = ''.env'' \<and>
     ConfiguredExclusionSource ''.env'' (sample_options\<lparr>IncludeIgnoredCandidates := True\<rparr>) = None"
proof -
  obtain ev e where ev: "sample_build = Inr ev" "Index ev = [e]" "pePath e = ''.env''" "ReadsContent e" by (rule sample_evaluation)
  have mem: "e \<in> set (Index ev) \<union> set (Observe ev) \<union> set (Exclude ev)" using ev(2) by simp
  have w: "walk_options \<lparr>boWalkOptions = sample_options, boHighRiskOptIn = [], CurationExclude = [''n.go'']\<rparr> = sample_options\<lparr>IncludeIgnoredCandidates := True\<rparr>"
    by (simp add: walk_options_def)
  have "ConfiguredExclusionSource ''.env'' (sample_options\<lparr>IncludeIgnoredCandidates := True\<rparr>) = None"
    using conjunct1 [OF conjunct2 [OF Build_reads_inside_boundary [OF ev(1) [unfolded sample_build_def] mem ev(4)]]] unfolding ev(3) w .
  then show ?thesis using ev by (intro exI [of _ ev] exI [of _ e] conjI) simp_all
qed

end
