(* ===== verification/Fs_Atomic.thy ===== *)
theory Fs_Atomic
  imports Go_Strings
begin

text \<open>
  The one channel through which files are written (\<open>internal/fs/atomic.go\<close>): the compare-and-swap write with
  its recovery intent, and publishing a file by rename.

  A write runs beside programs that do not take part in the protocol and may be stopped between any
  two system calls, so it is a tree of system calls, each with what follows every answer. The disk
  holds the names of the protocol: the target, the swap file beside it, the recovery intent and the
  quarantined versions. \<open>sha\<close> is the hexadecimal SHA-256 digest. The exchange of two paths is the atomic
  one; its emulation by links (\<open>exchangeAtomicPathsByLink\<close>, \<open>normalizeAtomicExchangeArtifacts\<close>) appears as a call that
  succeeds or fails. Files are written by a rename, so a write happens or does not. Permissions are
  left out, and the lock that serializes writers shows in that one write runs at a time.
\<close>

section \<open>Disk and calls\<close>

record atomicCASIntent =
  ExpectedSHA256 :: string
  NewSHA256 :: string

record cas_disk =
  dTarget :: "string option"
  dSwap :: "string option"
  dIntent :: "atomicCASIntent option"
  dQuarantine :: "string list"

datatype cas_result =
    CasOk
  | ErrAtomicCASConflict
  | ErrAtomicCASRecovery
  | ErrAtomicCASConflictRecovery
  | ErrAtomicCASUnavailable
  | CasFailed

datatype read_answer = RDigest string | RMissing | RFailed

datatype intent_answer = IAbsent | IUnreadable | IIntent atomicCASIntent

datatype cas_prog =
    Return cas_result
  | ReadTarget "string option \<Rightarrow> cas_prog"
  | StatTarget "bool \<Rightarrow> cas_prog"
  | ReadSwap "read_answer \<Rightarrow> cas_prog"
  | LstatSwap "bool \<Rightarrow> cas_prog"
  | ReadIntent "intent_answer \<Rightarrow> cas_prog"
  | NormalizeArtifacts "bool \<Rightarrow> cas_prog"
  | WriteSwap string "bool \<Rightarrow> cas_prog"
  | WriteIntent atomicCASIntent "bool \<Rightarrow> cas_prog"
  | ExchangePaths "bool \<Rightarrow> cas_prog"
  | RemoveSwap "bool \<Rightarrow> cas_prog"
  | RemoveIntent "bool \<Rightarrow> cas_prog"
  | QuarantineSwap "bool \<Rightarrow> cas_prog"

section \<open>The write and its recovery\<close>

text \<open>Each function takes what follows its return; \<open>None\<close> is the error \<open>nil\<close>.\<close>

definition removeAtomicCASIntent :: "(cas_result option \<Rightarrow> cas_prog) \<Rightarrow> cas_prog" where
  "removeAtomicCASIntent k = RemoveIntent (\<lambda>ok. if ok then k None else k (Some CasFailed))"

definition cleanupAtomicCAS :: "(cas_result option \<Rightarrow> cas_prog) \<Rightarrow> cas_prog" where
  "cleanupAtomicCAS k = RemoveSwap (\<lambda>ok. if ok then removeAtomicCASIntent k else k (Some CasFailed))"

definition rollbackAtomicCAS :: "string \<Rightarrow> (cas_result option \<Rightarrow> cas_prog) \<Rightarrow> cas_prog" where
  "rollbackAtomicCAS newSHA k =
     ExchangePaths (\<lambda>ok.
       if \<not> ok then k (Some ErrAtomicCASRecovery)
       else ReadSwap (\<lambda>displaced.
         case displaced of
           RDigest d \<Rightarrow>
             if d = newSHA then cleanupAtomicCAS k
             else ExchangePaths (\<lambda>ok.
               if \<not> ok then k (Some ErrAtomicCASRecovery)
               else ReadSwap (\<lambda>captured.
                 case captured of
                   RDigest _ \<Rightarrow>
                     QuarantineSwap (\<lambda>ok.
                       if \<not> ok then k (Some ErrAtomicCASRecovery)
                       else RemoveIntent (\<lambda>ok.
                         k (Some (if ok then ErrAtomicCASConflictRecovery else ErrAtomicCASRecovery))))
                 | _ \<Rightarrow> k (Some ErrAtomicCASRecovery)))
         | _ \<Rightarrow> k (Some ErrAtomicCASRecovery)))"

definition recoverAtomicCAS :: "(cas_result option \<Rightarrow> cas_prog) \<Rightarrow> cas_prog" where
  "recoverAtomicCAS k =
     ReadIntent (\<lambda>a. case a of
       IAbsent \<Rightarrow> LstatSwap (\<lambda>found. if found then k (Some ErrAtomicCASRecovery) else k None)
     | IUnreadable \<Rightarrow> k (Some ErrAtomicCASRecovery)
     | IIntent i \<Rightarrow>
         NormalizeArtifacts (\<lambda>ok.
           if \<not> ok then k (Some ErrAtomicCASRecovery)
           else ReadTarget (\<lambda>target. ReadSwap (\<lambda>swap.
             case swap of
               RMissing \<Rightarrow> if target \<noteq> None then removeAtomicCASIntent k else k (Some ErrAtomicCASRecovery)
             | RFailed \<Rightarrow> k (Some ErrAtomicCASRecovery)
             | RDigest d \<Rightarrow>
                 if target = None then k (Some ErrAtomicCASRecovery)
                 else if d = NewSHA256 i then cleanupAtomicCAS k
                 else if d = ExpectedSHA256 i then cleanupAtomicCAS k
                 else if target = Some (NewSHA256 i) then rollbackAtomicCAS (NewSHA256 i) k
                 else k (Some ErrAtomicCASRecovery)))))"

definition AtomicWriteCAS :: "(string \<Rightarrow> string) \<Rightarrow> string \<Rightarrow> string \<Rightarrow> cas_prog" where
  "AtomicWriteCAS sha data expected =
     (if trim_space expected = [] then Return ErrAtomicCASConflict
      else recoverAtomicCAS (\<lambda>err. case err of
        Some e \<Rightarrow> Return e
      | None \<Rightarrow>
          ReadTarget (\<lambda>current.
            if current \<noteq> Some expected then Return ErrAtomicCASConflict
            else StatTarget (\<lambda>ok.
              if \<not> ok then Return CasFailed
              else WriteSwap data (\<lambda>ok.
                if \<not> ok then Return CasFailed
                else WriteIntent \<lparr>ExpectedSHA256 = expected, NewSHA256 = sha data\<rparr> (\<lambda>ok.
                  if \<not> ok then RemoveSwap (\<lambda>_. Return CasFailed)
                  else ExchangePaths (\<lambda>ok.
                    if \<not> ok then
                      recoverAtomicCAS (\<lambda>rec. ReadTarget (\<lambda>current.
                        if rec = None \<and> current = Some (sha data) then Return CasOk
                        else case rec of Some e \<Rightarrow> Return e | None \<Rightarrow> Return ErrAtomicCASUnavailable))
                    else ReadSwap (\<lambda>captured.
                      case captured of
                        RDigest d \<Rightarrow>
                          if d = expected
                          then cleanupAtomicCAS (\<lambda>e. Return (case e of None \<Rightarrow> CasOk | Some _ \<Rightarrow> CasFailed))
                          else rollbackAtomicCAS (sha data) (\<lambda>e. Return (case e of None \<Rightarrow> ErrAtomicCASConflict | Some e \<Rightarrow> e))
                      | _ \<Rightarrow> Return ErrAtomicCASRecovery))))))))"

section \<open>Steps\<close>

text \<open>One call: it answers from the disk, changes it, or fails and leaves it as it is.\<close>

inductive cas_step :: "(string \<Rightarrow> string) \<Rightarrow> cas_prog \<times> cas_disk \<Rightarrow> cas_prog \<times> cas_disk \<Rightarrow> bool" for sha where
  read_target: "cas_step sha (ReadTarget k, d) (k (map_option sha (dTarget d)), d)"
| read_target_fails: "cas_step sha (ReadTarget k, d) (k None, d)"
| stat_target: "cas_step sha (StatTarget k, d) (k ok, d)"
| read_swap: "dSwap d = Some s \<Longrightarrow> cas_step sha (ReadSwap k, d) (k (RDigest (sha s)), d)"
| read_swap_missing: "dSwap d = None \<Longrightarrow> cas_step sha (ReadSwap k, d) (k RMissing, d)"
| read_swap_fails: "cas_step sha (ReadSwap k, d) (k RFailed, d)"
| lstat_swap: "cas_step sha (LstatSwap k, d) (k (dSwap d \<noteq> None), d)"
| lstat_swap_fails: "cas_step sha (LstatSwap k, d) (k False, d)"
| read_intent: "dIntent d = Some i \<Longrightarrow> cas_step sha (ReadIntent k, d) (k (IIntent i), d)"
| read_intent_absent: "dIntent d = None \<Longrightarrow> cas_step sha (ReadIntent k, d) (k IAbsent, d)"
| read_intent_fails: "cas_step sha (ReadIntent k, d) (k IUnreadable, d)"
| normalize_artifacts: "cas_step sha (NormalizeArtifacts k, d) (k ok, d)"
| write_swap: "cas_step sha (WriteSwap b k, d) (k True, d\<lparr>dSwap := Some b\<rparr>)"
| write_swap_fails: "cas_step sha (WriteSwap b k, d) (k False, d)"
| write_intent: "cas_step sha (WriteIntent i k, d) (k True, d\<lparr>dIntent := Some i\<rparr>)"
| write_intent_fails: "cas_step sha (WriteIntent i k, d) (k False, d)"
| exchange: "dTarget d = Some t \<Longrightarrow> dSwap d = Some s \<Longrightarrow>
    cas_step sha (ExchangePaths k, d) (k True, d\<lparr>dTarget := Some s, dSwap := Some t\<rparr>)"
| exchange_fails: "cas_step sha (ExchangePaths k, d) (k False, d)"
| remove_swap: "cas_step sha (RemoveSwap k, d) (k True, d\<lparr>dSwap := None\<rparr>)"
| remove_swap_fails: "cas_step sha (RemoveSwap k, d) (k False, d)"
| remove_intent: "cas_step sha (RemoveIntent k, d) (k True, d\<lparr>dIntent := None\<rparr>)"
| remove_intent_fails: "cas_step sha (RemoveIntent k, d) (k False, d)"
| quarantine_swap: "dSwap d = Some s \<Longrightarrow>
    cas_step sha (QuarantineSwap k, d) (k True, d\<lparr>dSwap := None, dQuarantine := s # dQuarantine d\<rparr>)"
| quarantine_swap_fails: "cas_step sha (QuarantineSwap k, d) (k False, d)"

inductive_cases cas_step_Return: "cas_step sha (Return r, d) c"
inductive_cases cas_step_ReadTarget: "cas_step sha (ReadTarget k, d) c"
inductive_cases cas_step_StatTarget: "cas_step sha (StatTarget k, d) c"
inductive_cases cas_step_ReadSwap: "cas_step sha (ReadSwap k, d) c"
inductive_cases cas_step_LstatSwap: "cas_step sha (LstatSwap k, d) c"
inductive_cases cas_step_ReadIntent: "cas_step sha (ReadIntent k, d) c"
inductive_cases cas_step_NormalizeArtifacts: "cas_step sha (NormalizeArtifacts k, d) c"
inductive_cases cas_step_WriteSwap: "cas_step sha (WriteSwap b k, d) c"
inductive_cases cas_step_WriteIntent: "cas_step sha (WriteIntent i k, d) c"
inductive_cases cas_step_ExchangePaths: "cas_step sha (ExchangePaths k, d) c"
inductive_cases cas_step_RemoveSwap: "cas_step sha (RemoveSwap k, d) c"
inductive_cases cas_step_RemoveIntent: "cas_step sha (RemoveIntent k, d) c"
inductive_cases cas_step_QuarantineSwap: "cas_step sha (QuarantineSwap k, d) c"

text \<open>
  The world: a write in progress (or returned), the disk, the foreign versions that no foreign write
  has replaced (\<open>owed\<close>), and the digests that writes were given to replace or to publish (\<open>planned\<close>).
\<close>

record cas_world =
  proc :: cas_prog
  disk :: cas_disk
  owed :: "string set"
  planned :: "string set"

inductive world_step :: "(string \<Rightarrow> string) \<Rightarrow> cas_world \<Rightarrow> cas_world \<Rightarrow> bool" for sha where
  call: "cas_step sha (proc w, disk w) (p, d) \<Longrightarrow> world_step sha w (w\<lparr>proc := p, disk := d\<rparr>)"
| foreign_write: "world_step sha w (w\<lparr>disk := (disk w)\<lparr>dTarget := Some v\<rparr>, owed := insert v (owed w - set_option (dTarget (disk w)))\<rparr>)"
| foreign_delete: "world_step sha w (w\<lparr>disk := (disk w)\<lparr>dTarget := None\<rparr>, owed := owed w - set_option (dTarget (disk w))\<rparr>)"
| crash: "world_step sha w (w\<lparr>proc := Return CasFailed\<rparr>)"
| start: "proc w = Return r \<Longrightarrow>
    world_step sha w (w\<lparr>proc := AtomicWriteCAS sha data expected, planned := planned w \<union> {expected, sha data}\<rparr>)"

definition initial_world :: "string option \<Rightarrow> cas_world" where
  "initial_world t =
     \<lparr>proc = Return CasOk, disk = \<lparr>dTarget = t, dSwap = None, dIntent = None, dQuarantine = []\<rparr>, owed = set_option t, planned = {}\<rparr>"

text \<open>
  Running a write to its end when every call succeeds. The hook \<open>beforeAtomicCASExchange\<close> is where a foreign write
  matters: the list says, for each exchange in turn, what a foreign program puts in the target just
  before it, if anything.
\<close>

definition foreign :: "string option list \<Rightarrow> cas_disk \<Rightarrow> cas_disk" where
  "foreign vs d = (case vs of Some v # _ \<Rightarrow> d\<lparr>dTarget := Some v\<rparr> | _ \<Rightarrow> d)"

primrec cas_run :: "(string \<Rightarrow> string) \<Rightarrow> cas_prog \<Rightarrow> string option list \<Rightarrow> cas_disk \<Rightarrow> cas_result \<times> cas_disk" where
  "cas_run sha (Return r) = (\<lambda>vs d. (r, d))"
| "cas_run sha (ReadTarget k) = (\<lambda>vs d. cas_run sha (k (map_option sha (dTarget d))) vs d)"
| "cas_run sha (StatTarget k) = (\<lambda>vs d. cas_run sha (k (dTarget d \<noteq> None)) vs d)"
| "cas_run sha (ReadSwap k) = (\<lambda>vs d. cas_run sha (k (case dSwap d of Some s \<Rightarrow> RDigest (sha s) | None \<Rightarrow> RMissing)) vs d)"
| "cas_run sha (LstatSwap k) = (\<lambda>vs d. cas_run sha (k (dSwap d \<noteq> None)) vs d)"
| "cas_run sha (ReadIntent k) = (\<lambda>vs d. cas_run sha (k (case dIntent d of Some i \<Rightarrow> IIntent i | None \<Rightarrow> IAbsent)) vs d)"
| "cas_run sha (NormalizeArtifacts k) = (\<lambda>vs d. cas_run sha (k True) vs d)"
| "cas_run sha (WriteSwap b k) = (\<lambda>vs d. cas_run sha (k True) vs (d\<lparr>dSwap := Some b\<rparr>))"
| "cas_run sha (WriteIntent i k) = (\<lambda>vs d. cas_run sha (k True) vs (d\<lparr>dIntent := Some i\<rparr>))"
| "cas_run sha (ExchangePaths k) = (\<lambda>vs d.
     let d1 = foreign vs d in
     if dTarget d1 \<noteq> None \<and> dSwap d1 \<noteq> None
     then cas_run sha (k True) (tl vs) (d1\<lparr>dTarget := dSwap d1, dSwap := dTarget d1\<rparr>)
     else cas_run sha (k False) (tl vs) d1)"
| "cas_run sha (RemoveSwap k) = (\<lambda>vs d. cas_run sha (k True) vs (d\<lparr>dSwap := None\<rparr>))"
| "cas_run sha (RemoveIntent k) = (\<lambda>vs d. cas_run sha (k True) vs (d\<lparr>dIntent := None\<rparr>))"
| "cas_run sha (QuarantineSwap k) = (\<lambda>vs d.
     case dSwap d of
       Some s \<Rightarrow> cas_run sha (k True) vs (d\<lparr>dSwap := None, dQuarantine := s # dQuarantine d\<rparr>)
     | None \<Rightarrow> cas_run sha (k False) vs d)"

section \<open>Publishing by rename\<close>

text \<open>
  \<open>publishAtomicRename\<close> with the outcome of each of its renames: the publication, the move of the target to the
  backup, the retry and the restore. A rename that succeeds moves the source's bytes; one that fails
  changes nothing.
\<close>

type_synonym file_map = "string \<rightharpoonup> string"

definition rename_file :: "bool \<Rightarrow> string \<Rightarrow> string \<Rightarrow> file_map \<Rightarrow> file_map option" where
  "rename_file ok from to fm = (if ok \<and> fm from \<noteq> None then Some ((fm(from := None))(to := fm from)) else None)"

definition remove_file :: "string \<Rightarrow> file_map \<Rightarrow> file_map" where
  "remove_file name fm = fm(name := None)"

datatype publish_error = PublishFailed | PublishRestored | PublishStranded

definition publishAtomicRename ::
  "string \<Rightarrow> string \<Rightarrow> string \<Rightarrow> bool \<Rightarrow> bool \<Rightarrow> bool \<Rightarrow> bool \<Rightarrow> file_map \<Rightarrow> publish_error option \<times> file_map" where
  "publishAtomicRename tmpName targetPath goos first backup retry restore fm =
     (case rename_file first tmpName targetPath fm of
        Some fm1 \<Rightarrow> (None, fm1)
      | None \<Rightarrow>
          let backupName = tmpName @ ''.bak'' in
          case (if goos = ''windows'' then rename_file backup targetPath backupName fm else None) of
            Some fm2 \<Rightarrow>
              (case rename_file retry tmpName targetPath fm2 of
                 Some fm3 \<Rightarrow> (None, remove_file backupName fm3)
               | None \<Rightarrow>
                   (case rename_file restore backupName targetPath fm2 of
                      None \<Rightarrow> (Some PublishStranded, fm2)
                    | Some fm4 \<Rightarrow> (Some PublishRestored, remove_file tmpName fm4)))
          | None \<Rightarrow> (Some PublishFailed, remove_file tmpName fm))"

end
