(* ===== verification/Fs_Atomic_Laws.thy ===== *)
theory Fs_Atomic_Laws
  imports Fs_Atomic
begin

text \<open>
  What the compare-and-swap write keeps under interference, failing calls and crashes at any point,
  and what a later call makes of what an interrupted one left behind.
\<close>

section \<open>A safety condition on programs\<close>

text \<open>
  Foreign programs write the target only, so the swap file and the intent are what the running write
  made them. \<open>resting\<close> is what may be left behind at any moment: the intent names planned digests, and a swap
  file without an intent holds planned bytes.
\<close>

definition planned_bytes :: "(string \<Rightarrow> string) \<Rightarrow> string set \<Rightarrow> string option \<Rightarrow> bool" where
  "planned_bytes sha A sw \<longleftrightarrow> (\<forall>s. sw = Some s \<longrightarrow> sha s \<in> A)"

definition resting :: "(string \<Rightarrow> string) \<Rightarrow> string set \<Rightarrow> string option \<Rightarrow> atomicCASIntent option \<Rightarrow> bool" where
  "resting sha A sw it \<longleftrightarrow>
     (it = None \<longrightarrow> planned_bytes sha A sw) \<and> (\<forall>i. it = Some i \<longrightarrow> ExpectedSHA256 i \<in> A \<and> NewSHA256 i \<in> A)"

text \<open>Every call of the program keeps \<open>resting\<close>, whatever it answers, and only planned bytes are dropped.\<close>

primrec good :: "(string \<Rightarrow> string) \<Rightarrow> string set \<Rightarrow> cas_prog \<Rightarrow> string option \<Rightarrow> atomicCASIntent option \<Rightarrow> bool" where
  "good sha A (Return r) = resting sha A"
| "good sha A (ReadTarget k) = (\<lambda>sw it. resting sha A sw it \<and> (\<forall>a. good sha A (k a) sw it))"
| "good sha A (StatTarget k) = (\<lambda>sw it. resting sha A sw it \<and> (\<forall>a. good sha A (k a) sw it))"
| "good sha A (ReadSwap k) = (\<lambda>sw it. resting sha A sw it \<and> good sha A (k RFailed) sw it \<and>
     good sha A (k (case sw of Some s \<Rightarrow> RDigest (sha s) | None \<Rightarrow> RMissing)) sw it)"
| "good sha A (LstatSwap k) = (\<lambda>sw it. resting sha A sw it \<and> (\<forall>a. good sha A (k a) sw it))"
| "good sha A (ReadIntent k) = (\<lambda>sw it. resting sha A sw it \<and> good sha A (k IUnreadable) sw it \<and>
     good sha A (k (case it of Some i \<Rightarrow> IIntent i | None \<Rightarrow> IAbsent)) sw it)"
| "good sha A (NormalizeArtifacts k) = (\<lambda>sw it. resting sha A sw it \<and> (\<forall>a. good sha A (k a) sw it))"
| "good sha A (WriteSwap b k) = (\<lambda>sw it. resting sha A sw it \<and> planned_bytes sha A sw \<and>
     good sha A (k True) (Some b) it \<and> good sha A (k False) sw it)"
| "good sha A (WriteIntent i k) = (\<lambda>sw it. resting sha A sw it \<and> good sha A (k True) sw (Some i) \<and> good sha A (k False) sw it)"
| "good sha A (ExchangePaths k) = (\<lambda>sw it. resting sha A sw it \<and> (\<forall>t. good sha A (k True) (Some t) it) \<and> good sha A (k False) sw it)"
| "good sha A (RemoveSwap k) = (\<lambda>sw it. resting sha A sw it \<and> planned_bytes sha A sw \<and>
     good sha A (k True) None it \<and> good sha A (k False) sw it)"
| "good sha A (RemoveIntent k) = (\<lambda>sw it. resting sha A sw it \<and> good sha A (k True) sw None \<and> good sha A (k False) sw it)"
| "good sha A (QuarantineSwap k) = (\<lambda>sw it. resting sha A sw it \<and> good sha A (k True) None it \<and> good sha A (k False) sw it)"

lemma good_resting: "good sha A p sw it \<Longrightarrow> resting sha A sw it"
  by (cases p) simp_all

section \<open>The functions satisfy it\<close>

lemma resting_None [simp]: "it \<noteq> None \<or> True \<Longrightarrow> planned_bytes sha A None"
  by (simp add: planned_bytes_def)

lemma resting_empty [simp]: "resting sha A None None"
  by (simp add: resting_def planned_bytes_def)

lemma resting_intent: "resting sha A sw (Some i) \<Longrightarrow> resting sha A sw' (Some i)"
  by (simp add: resting_def)

lemma good_removeIntent:
  assumes "resting sha A None it" "good sha A (k None) None None" "good sha A (k (Some CasFailed)) None it"
  shows "good sha A (removeAtomicCASIntent k) None it"
  using assms by (simp add: removeAtomicCASIntent_def)

lemma good_cleanup:
  assumes "resting sha A sw (Some i)" "planned_bytes sha A sw" "good sha A (k None) None None"
    "\<And>sw e. good sha A (k (Some e)) sw (Some i)"
  shows "good sha A (cleanupAtomicCAS k) sw (Some i)"
  using assms resting_intent [OF assms(1)]
  by (simp add: cleanupAtomicCAS_def good_removeIntent)

lemma good_rollback:
  assumes "resting sha A sw (Some i)" "new \<in> A" "good sha A (k None) None None"
    "\<And>sw e. good sha A (k (Some e)) sw (Some i)" "\<And>e. good sha A (k (Some e)) None None"
  shows "good sha A (rollbackAtomicCAS new k) sw (Some i)"
proof -
  have "good sha A (cleanupAtomicCAS k) (Some t) (Some i)" if "sha t = new" for t
    using that assms resting_intent [OF assms(1)] by (intro good_cleanup) (auto simp: planned_bytes_def)
  then show ?thesis
    using assms(4,5) resting_intent [OF assms(1)] by (simp add: rollbackAtomicCAS_def assms(1))
qed

lemma good_recover:
  assumes "resting sha A sw it" "\<And>sw. planned_bytes sha A sw \<Longrightarrow> good sha A (k None) sw None"
    "\<And>sw it e. resting sha A sw it \<Longrightarrow> good sha A (k (Some e)) sw it"
  shows "good sha A (recoverAtomicCAS k) sw it"
proof (cases it)
  case None
  then have "planned_bytes sha A sw" using assms(1) by (simp add: resting_def)
  then show ?thesis using None assms by (simp add: recoverAtomicCAS_def)
next
  case (Some i)
  have A: "ExpectedSHA256 i \<in> A" "NewSHA256 i \<in> A" using assms(1) Some by (simp_all add: resting_def)
  have any: "resting sha A sw' (Some i)" for sw' using assms(1) Some resting_intent by blast
  have rm: "good sha A (removeAtomicCASIntent k) None (Some i)"
    using any assms(2,3) by (intro good_removeIntent) simp_all
  have cl: "good sha A (cleanupAtomicCAS k) (Some s) (Some i)" if "sha s \<in> A" for s
    using any assms(2,3) that by (intro good_cleanup) (simp_all add: planned_bytes_def)
  have rb: "good sha A (rollbackAtomicCAS (NewSHA256 i) k) sw' (Some i)" for sw'
    using any assms(2,3) A by (intro good_rollback) simp_all
  show ?thesis using Some any assms(3) rm cl rb A
    by (cases sw) (auto simp: recoverAtomicCAS_def)
qed

lemma good_AtomicWriteCAS:
  assumes "resting sha A sw it" "expected \<in> A" "sha data \<in> A"
  shows "good sha A (AtomicWriteCAS sha data expected) sw it"
proof -
  let ?i = "\<lparr>ExpectedSHA256 = expected, NewSHA256 = sha data\<rparr>"
  have any: "resting sha A sw' (Some ?i)" for sw' using assms(2,3) by (simp add: resting_def)
  have planned: "planned_bytes sha A (Some data)" "resting sha A (Some data) None"
    using assms(3) by (simp_all add: planned_bytes_def resting_def)
  have "good sha A (cleanupAtomicCAS (\<lambda>e. Return (case e of None \<Rightarrow> CasOk | Some _ \<Rightarrow> CasFailed))) (Some t) (Some ?i)"
    if "sha t = expected" for t
    using any assms(2) that by (intro good_cleanup) (simp_all add: planned_bytes_def)
  moreover have "good sha A (rollbackAtomicCAS (sha data) (\<lambda>e. Return (case e of None \<Rightarrow> ErrAtomicCASConflict | Some e \<Rightarrow> e))) sw' (Some ?i)" for sw'
    using any assms(3) by (intro good_rollback) simp_all
  moreover have "good sha A (recoverAtomicCAS (\<lambda>rec. ReadTarget (\<lambda>current.
      if rec = None \<and> current = Some (sha data) then Return CasOk
      else case rec of Some e \<Rightarrow> Return e | None \<Rightarrow> Return ErrAtomicCASUnavailable))) (Some data) (Some ?i)"
    using any by (intro good_recover) (auto simp: resting_def)
  ultimately have body: "good sha A (ReadTarget (\<lambda>current.
            if current \<noteq> Some expected then Return ErrAtomicCASConflict
            else StatTarget (\<lambda>ok.
              if \<not> ok then Return CasFailed
              else WriteSwap data (\<lambda>ok.
                if \<not> ok then Return CasFailed
                else WriteIntent ?i (\<lambda>ok.
                  if \<not> ok then RemoveSwap (\<lambda>_. Return CasFailed)
                  else ExchangePaths (\<lambda>ok.
                    if \<not> ok then
                      recoverAtomicCAS (\<lambda>rec. ReadTarget (\<lambda>current.
                        if rec = None \<and> current = Some (sha data) then Return CasOk
                        else case rec of Some e \<Rightarrow> Return e | None \<Rightarrow> Return ErrAtomicCASUnavailable))
                    else ReadSwap (\<lambda>captured.
                      case captured of
                        RDigest d \<Rightarrow>
                          if d = expected
                          then cleanupAtomicCAS (\<lambda>e. Return (case e of None \<Rightarrow> CasOk | Some _ \<Rightarrow> CasFailed))
                          else rollbackAtomicCAS (sha data) (\<lambda>e. Return (case e of None \<Rightarrow> ErrAtomicCASConflict | Some e \<Rightarrow> e))
                      | _ \<Rightarrow> Return ErrAtomicCASRecovery))))))) sw' None" if "planned_bytes sha A sw'" for sw'
    using any planned that by (auto simp: resting_def)
  show ?thesis unfolding AtomicWriteCAS_def
    using assms(1) body by (auto intro!: good_recover)
qed

section \<open>Foreign versions\<close>

definition kept :: "cas_disk \<Rightarrow> string set" where
  "kept d = set_option (dTarget d) \<union> set_option (dSwap d) \<union> set (dQuarantine d)"

lemma cas_step_good:
  assumes "cas_step sha (p, d) (p', d')" "good sha A p (dSwap d) (dIntent d)"
  shows "good sha A p' (dSwap d') (dIntent d') \<and> (\<forall>v \<in> kept d. v \<in> kept d' \<or> sha v \<in> A)"
  using assms by cases (auto simp: kept_def planned_bytes_def split: option.splits)

lemma good_mono_Return: "resting sha A sw it \<Longrightarrow> A \<subseteq> B \<Longrightarrow> resting sha B sw it"
  by (auto simp: resting_def planned_bytes_def)

definition world_ok :: "(string \<Rightarrow> string) \<Rightarrow> cas_world \<Rightarrow> bool" where
  "world_ok sha w \<longleftrightarrow>
     good sha (planned w) (proc w) (dSwap (disk w)) (dIntent (disk w)) \<and>
     (\<forall>v \<in> owed w. v \<in> kept (disk w) \<or> sha v \<in> planned w)"

lemma world_ok_initial: "world_ok sha (initial_world t)"
  by (simp add: world_ok_def initial_world_def kept_def)

lemma world_ok_step:
  assumes "world_step sha w w'" "world_ok sha w"
  shows "world_ok sha w'"
  using assms
proof cases
  case (call p d)
  then show ?thesis using assms(2) cas_step_good [of sha "proc w" "disk w" p d "planned w"]
    unfolding world_ok_def by (simp, blast)
next
  case (foreign_write v)
  then show ?thesis using assms(2) by (auto simp: world_ok_def kept_def)
next
  case foreign_delete
  then show ?thesis using assms(2) by (auto simp: world_ok_def kept_def)
next
  case crash
  then show ?thesis using assms(2) good_resting by (auto simp: world_ok_def)
next
  case (start r expected data)
  then have "resting sha (planned w \<union> {expected, sha data}) (dSwap (disk w)) (dIntent (disk w))"
    using assms(2) good_resting good_mono_Return by (metis Un_upper1 world_ok_def)
  then show ?thesis using start assms(2) good_AtomicWriteCAS by (auto simp: world_ok_def)
qed

lemma world_ok_reachable: "(world_step sha)\<^sup>*\<^sup>* (initial_world t) w \<Longrightarrow> world_ok sha w"
  by (induction rule: rtranclp_induct) (simp_all add: world_ok_initial world_ok_step)

text \<open>
  \<^bold>\<open>C5\<close>. However compare-and-swap writes, foreign writers, failing calls and crashes interleave, a foreign
  version of the file that no foreign program has replaced is still in the target, in the swap file
  or in a quarantined file, unless a write was told to replace or to publish exactly its digest; and an
  unfinished write leaves a swap file without an intent only when that file holds planned bytes.
\<close>

theorem cas_no_foreign_loss:
  assumes "(world_step sha)\<^sup>*\<^sup>* (initial_world t) w"
  shows "(\<forall>v \<in> owed w. sha v \<notin> planned w \<longrightarrow> v \<in> kept (disk w)) \<and>
    (dIntent (disk w) = None \<longrightarrow> (\<forall>s. dSwap (disk w) = Some s \<longrightarrow> sha s \<in> planned w))"
  using world_ok_reachable [OF assms] good_resting [of sha "planned w" "proc w" "dSwap (disk w)" "dIntent (disk w)"]
  by (auto simp: world_ok_def resting_def planned_bytes_def)

text \<open>A foreign write just before the exchange.\<close>

theorem cas_no_foreign_loss_witness:
  "\<exists>w. (world_step id)\<^sup>*\<^sup>* (initial_world (Some ''a'')) w \<and> ''b'' \<in> owed w \<and> ''b'' \<in> kept (disk w)"
proof -
  let ?w0 = "initial_world (Some ''a'')"
  let ?w1 = "?w0\<lparr>disk := (disk ?w0)\<lparr>dTarget := Some ''b''\<rparr>, owed := insert ''b'' (owed ?w0 - set_option (dTarget (disk ?w0)))\<rparr>"
  have reach: "(world_step id)\<^sup>*\<^sup>* ?w0 ?w1" by (rule r_into_rtranclp) (rule world_step.foreign_write)
  have "''b'' \<in> owed ?w1" "id ''b'' \<notin> planned ?w1" by (simp_all add: initial_world_def)
  moreover from this have "''b'' \<in> kept (disk ?w1)"
    using conjunct1 [OF cas_no_foreign_loss [OF reach]] by blast
  ultimately show ?thesis using reach by blast
qed

section \<open>A write that runs to its end\<close>

lemma cas_run_nothing_left:
  assumes "dSwap d = None" "dIntent d = None"
  shows "cas_run sha (recoverAtomicCAS k) vs d = cas_run sha (k None) vs d"
  using assms by (simp add: recoverAtomicCAS_def)

text \<open>
  \<^bold>\<open>C6\<close>. A write over a clean disk: it replaces the target exactly when the digest at the exchange is the
  expected one, and leaves nothing behind. When a foreign version that is not the planned one gets in
  before the exchange the write reports a conflict and the foreign version stands. When a second one
  gets in before the roll-back, the newest stands and the first is quarantined, never dropped.
\<close>

theorem AtomicWriteCAS_outcomes:
  assumes "dSwap d = None" "dIntent d = None" "dTarget d = Some t" "trim_space expected \<noteq> []"
  shows "cas_run sha (AtomicWriteCAS sha data expected) [] d =
      (if sha t = expected then (CasOk, d\<lparr>dTarget := Some data\<rparr>) else (ErrAtomicCASConflict, d)) \<and>
    (sha t = expected \<and> sha v \<noteq> expected \<longrightarrow>
      cas_run sha (AtomicWriteCAS sha data expected) [Some v] d = (ErrAtomicCASConflict, d\<lparr>dTarget := Some v\<rparr>)) \<and>
    (sha t = expected \<and> sha v \<noteq> expected \<and> sha u \<noteq> sha data \<longrightarrow>
      cas_run sha (AtomicWriteCAS sha data expected) [Some v, Some u] d =
        (ErrAtomicCASConflictRecovery, d\<lparr>dTarget := Some u, dQuarantine := v # dQuarantine d\<rparr>))"
  using assms
  by (intro conjI impI; cases d)
    (simp_all add: AtomicWriteCAS_def cas_run_nothing_left cleanupAtomicCAS_def removeAtomicCASIntent_def
      rollbackAtomicCAS_def foreign_def Let_def)

text \<open>A digest that is the content itself.\<close>

definition sample_disk :: cas_disk where
  "sample_disk = \<lparr>dTarget = Some ''a'', dSwap = None, dIntent = None, dQuarantine = []\<rparr>"

theorem AtomicWriteCAS_outcomes_witness:
  "cas_run id (AtomicWriteCAS id ''n'' ''a'') [] sample_disk = (CasOk, sample_disk\<lparr>dTarget := Some ''n''\<rparr>) \<and>
   cas_run id (AtomicWriteCAS id ''n'' ''a'') [Some ''v'', Some ''u''] sample_disk =
     (ErrAtomicCASConflictRecovery, sample_disk\<lparr>dTarget := Some ''u'', dQuarantine := [''v'']\<rparr>)"
proof -
  have "dSwap sample_disk = None" "dIntent sample_disk = None" "dTarget sample_disk = Some ''a''" "trim_space ''a'' \<noteq> []" by code_simp+
  from AtomicWriteCAS_outcomes [OF this, of id "''n''" "''v''" "''u''"] show ?thesis by (simp add: sample_disk_def)
qed

section \<open>After an interruption\<close>

text \<open>
  \<^bold>\<open>C38\<close>. A write converges what an interrupted one left beside an intent: when the swap file is gone or holds a
  planned version the target stands, when the exchange captured a foreign version that version goes
  back to the target, and then the write goes through against the digest of what stands, leaving
  neither swap file nor intent.
\<close>

theorem AtomicWriteCAS_recovers:
  assumes "dIntent d = Some i" "dTarget d = Some t" "trim_space expected \<noteq> []"
    and "dSwap d = None \<or> (\<exists>s. dSwap d = Some s \<and> (sha s = NewSHA256 i \<or> sha s = ExpectedSHA256 i)) \<or> sha t = NewSHA256 i"
    and "expected = sha (case dSwap d of None \<Rightarrow> t | Some s \<Rightarrow> if sha s = NewSHA256 i \<or> sha s = ExpectedSHA256 i then t else s)"
  shows "cas_run sha (AtomicWriteCAS sha data expected) [] d =
    (CasOk, d\<lparr>dTarget := Some data, dSwap := None, dIntent := None\<rparr>)"
  using assms
  by (cases d; cases "dSwap d") (auto simp: AtomicWriteCAS_def recoverAtomicCAS_def cleanupAtomicCAS_def removeAtomicCASIntent_def
      rollbackAtomicCAS_def foreign_def Let_def)

theorem AtomicWriteCAS_recovers_witness:
  "cas_run id (AtomicWriteCAS id ''n'' ''v'') [] (sample_disk\<lparr>dTarget := Some ''m'', dSwap := Some ''v'', dIntent := Some \<lparr>ExpectedSHA256 = ''a'', NewSHA256 = ''m''\<rparr>\<rparr>)
     = (CasOk, sample_disk\<lparr>dTarget := Some ''n''\<rparr>)"
proof -
  have "trim_space ''v'' \<noteq> []" by code_simp
  then show ?thesis
    using AtomicWriteCAS_recovers [of "sample_disk\<lparr>dTarget := Some ''m'', dSwap := Some ''v'', dIntent := Some \<lparr>ExpectedSHA256 = ''a'', NewSHA256 = ''m''\<rparr>\<rparr>"
        "\<lparr>ExpectedSHA256 = ''a'', NewSHA256 = ''m''\<rparr>" "''m''" "''v''" id "''n''"]
    by (simp add: sample_disk_def)
qed

text \<open>
  The convergence stops short of one interruption: between writing the swap file and writing the
  intent. Every later write then reports that a decision is needed and changes nothing.
\<close>

lemma orphan_swap_blocks:
  assumes "dIntent d = None" "dSwap d = Some s" "trim_space expected \<noteq> []"
  shows "cas_run sha (AtomicWriteCAS sha data expected) vs d = (ErrAtomicCASRecovery, d)"
  using assms by (simp add: AtomicWriteCAS_def recoverAtomicCAS_def)

section \<open>Publishing by rename\<close>

text \<open>
  Publishing by rename never destroys the old bytes before the new ones stand: when it succeeds the target
  holds the new bytes; when it fails the target still holds what it held, except that on Windows a
  failed restore leaves the old bytes in the backup and the new ones in the temporary file.
\<close>

theorem publishAtomicRename_preserves:
  assumes "fm tmpName = Some new" "tmpName \<noteq> targetPath" "tmpName @ ''.bak'' \<noteq> targetPath" "fm (tmpName @ ''.bak'') = None"
    and "publishAtomicRename tmpName targetPath goos first backup retry restore fm = (err, fm')"
  shows "case err of
      None \<Rightarrow> fm' targetPath = Some new \<and> fm' tmpName = None \<and> fm' (tmpName @ ''.bak'') = None
    | Some PublishStranded \<Rightarrow> goos = ''windows'' \<and> fm targetPath \<noteq> None \<and> fm' (tmpName @ ''.bak'') = fm targetPath \<and> fm' tmpName = Some new
    | Some _ \<Rightarrow> fm' targetPath = fm targetPath \<and> fm' tmpName = None \<and> fm' (tmpName @ ''.bak'') = None"
proof -
  have bak: "tmpName @ ''.bak'' \<noteq> tmpName" by simp
  show ?thesis
    using assms bak unfolding publishAtomicRename_def rename_file_def remove_file_def Let_def
    by (auto split: if_splits)
qed

theorem publishAtomicRename_preserves_witness:
  "\<exists>fm'. publishAtomicRename ''t'' ''f'' ''windows'' False True False True [''t'' \<mapsto> ''n'', ''f'' \<mapsto> ''o''] = (Some PublishRestored, fm') \<and>
     fm' ''f'' = Some ''o'' \<and> fm' ''t'' = None"
proof -
  let ?fm = "[''t'' \<mapsto> ''n'', ''f'' \<mapsto> ''o'']"
  obtain fm' where run: "publishAtomicRename ''t'' ''f'' ''windows'' False True False True ?fm = (Some PublishRestored, fm')"
    by (simp add: publishAtomicRename_def rename_file_def)
  have "?fm ''t'' = Some ''n''" "''t'' \<noteq> ''f''" "''t'' @ ''.bak'' \<noteq> ''f''" "?fm (''t'' @ ''.bak'') = None" by simp_all
  from publishAtomicRename_preserves [OF this run] run show ?thesis by simp
qed

end
