(* ===== verification/Go_Sort.thy ===== *)
theory Go_Sort
  imports Go_Strings "HOL-Library.Multiset"
begin

text \<open>
  \<open>sort.Slice\<close> with a comparison of the caller's. The order in which equal elements end up is open in Go;
  here they keep their order. What is proved of a sorted slice only speaks of its elements and their order.
\<close>

fun insort_by :: "('a \<Rightarrow> 'a \<Rightarrow> bool) \<Rightarrow> 'a \<Rightarrow> 'a list \<Rightarrow> 'a list" where
  "insort_by le x [] = [x]"
| "insort_by le x (y # ys) = (if le x y then x # y # ys else y # insort_by le x ys)"

definition sort_by :: "('a \<Rightarrow> 'a \<Rightarrow> bool) \<Rightarrow> 'a list \<Rightarrow> 'a list" where
  "sort_by le xs = foldr (insort_by le) xs []"

lemma sort_by_simps [simp]: "sort_by le [] = []" "sort_by le (x # xs) = insort_by le x (sort_by le xs)"
  by (simp_all add: sort_by_def)

lemma mset_insort_by [simp]: "mset (insort_by le x xs) = add_mset x (mset xs)"
  by (induction xs) auto

lemma mset_sort_by [simp]: "mset (sort_by le xs) = mset xs"
  by (induction xs) auto

lemma set_sort_by [simp]: "set (sort_by le xs) = set xs"
  by (rule mset_eq_setD) simp

lemma length_sort_by [simp]: "length (sort_by le xs) = length xs"
  by (rule mset_eq_length) simp

lemma list_all_sort_by [simp]: "list_all P (sort_by le xs) = list_all P xs"
  by (simp add: list_all_iff)

text \<open>The comparisons the program passes are total preorders.\<close>

locale total_preorder =
  fixes le :: "'a \<Rightarrow> 'a \<Rightarrow> bool"
  assumes le_total: "le x y \<or> le y x" and le_trans: "le x y \<Longrightarrow> le y z \<Longrightarrow> le x z"
begin

lemma insort_by_sorted: "sorted_wrt le xs \<Longrightarrow> sorted_wrt le (insort_by le x xs)"
proof (induction xs)
  case (Cons y ys)
  have "set (insort_by le x ys) = insert x (set ys)" by (metis mset_insort_by set_mset_add_mset_insert set_mset_mset)
  then show ?case using Cons le_total le_trans by auto
qed simp

lemma sort_by_sorted: "sorted_wrt le (sort_by le xs)"
  by (induction xs) (auto simp: insort_by_sorted)

lemma sort_by_id: "sorted_wrt le xs \<Longrightarrow> sort_by le xs = xs"
proof (induction xs)
  case (Cons x xs)
  then show ?case by (cases xs) auto
qed simp

lemma sort_by_idem [simp]: "sort_by le (sort_by le xs) = sort_by le xs"
  by (rule sort_by_id) (rule sort_by_sorted)

text \<open>A prefix of a sorted slice comes before everything behind it.\<close>

lemma take_sort_by:
  assumes "x \<in> set (take n (sort_by le xs))" "y \<in> set (drop n (sort_by le xs))"
  shows "le x y"
  using sort_by_sorted [of xs] assms
  by (metis append_take_drop_id sorted_wrt_append)

end

text \<open>A comparison that no two different elements tie under sorts a collection in one way.\<close>

locale total_order_on = total_preorder le
  for le :: "'a \<Rightarrow> 'a \<Rightarrow> bool" +
  fixes D :: "'a set"
  assumes le_antisym: "x \<in> D \<Longrightarrow> y \<in> D \<Longrightarrow> le x y \<Longrightarrow> le y x \<Longrightarrow> x = y"
begin

lemma sorted_unique:
  "sorted_wrt le xs \<Longrightarrow> sorted_wrt le ys \<Longrightarrow> mset xs = mset ys \<Longrightarrow> set xs \<subseteq> D \<Longrightarrow> xs = ys"
proof (induction xs arbitrary: ys)
  case (Cons x xs)
  then obtain y ys' where ys: "ys = y # ys'" by (cases ys) auto
  have sets: "insert x (set xs) = insert y (set ys')" using Cons.prems(3) ys by (metis list.simps(15) mset_eq_setD)
  have "x = y"
  proof (rule ccontr)
    assume n: "x \<noteq> y"
    then have "x \<in> set ys'" "y \<in> set xs" using sets by auto
    then have "le y x" "le x y" using Cons.prems(1,2) ys by auto
    then show False using le_antisym [of x y] Cons.prems(4) sets n by auto
  qed
  then show ?case using Cons ys by simp
qed simp

lemma sort_by_permuted: "mset xs = mset ys \<Longrightarrow> set xs \<subseteq> D \<Longrightarrow> sort_by le xs = sort_by le ys"
  by (rule sorted_unique) (auto simp: sort_by_sorted)

end

interpretation str_order: total_order_on str_le UNIV
  by unfold_locales (use str_le_total str_le_trans str_le_antisym in blast)+

lemma sort_strings_by: "sort_strings xs = sort_by str_le xs"
proof -
  have "insort_str = insort_by str_le"
  proof (intro ext)
    show "insort_str x ys = insort_by str_le x ys" for x ys by (induction ys) auto
  qed
  then show ?thesis by (simp add: sort_strings_def sort_by_def)
qed

lemma sort_strings_permuted: "mset xs = mset ys \<Longrightarrow> sort_strings xs = sort_strings ys"
  unfolding sort_strings_by by (rule str_order.sort_by_permuted) simp_all

end
