(* ===== verification/Budget_Policy.thy ===== *)
theory Budget_Policy
  imports Go_Sort
begin

text \<open>
  The density budget of a project (\<open>internal/cognitionbudget/policy.go\<close>): the whole-index limits, the bands of
  token limits for the R and S fields by importance, their normal form and its identity. The JSON encoding of a policy
  (\<open>json\<close>) and the hexadecimal SHA-256 digest (\<open>sha\<close>) are arguments. Go's \<open>int\<close> is \<open>int\<close>: no operation of the
  policy computes a number.
\<close>

section \<open>Data\<close>

record WholeIndexPolicy =
  wTargetTokens :: int
  wWarningTokens :: int
  wMaxTokens :: int

record FieldBand =
  fbMinC :: int
  fbMaxC :: int
  fbTargetTokens :: int
  fbMaxTokens :: int

record BudgetPolicy =
  bpVersion :: string
  bpMode :: string
  bpWholeIndex :: WholeIndexPolicy
  bpR :: "FieldBand list"
  bpS :: "FieldBand list"

definition CognitionBudgetPolicyV1 :: string where
  "CognitionBudgetPolicyV1 = ''cognition-budget-policy/v1''"

datatype band_error = BandsMissing | BandInvalid | BandOverlap | BandGap

datatype budget_error =
    BudgetVersionUnsupported
  | BudgetModeInvalid
  | BudgetWholeIndexInvalid
  | BudgetBands string band_error

definition field_band :: "int \<Rightarrow> int \<Rightarrow> int \<Rightarrow> int \<Rightarrow> FieldBand" where
  "field_band lo hi target most = \<lparr>fbMinC = lo, fbMaxC = hi, fbTargetTokens = target, fbMaxTokens = most\<rparr>"

definition budget_DefaultPolicy :: "string \<Rightarrow> BudgetPolicy" where
  "budget_DefaultPolicy mode =
     \<lparr>bpVersion = CognitionBudgetPolicyV1, bpMode = mode,
      bpWholeIndex = \<lparr>wTargetTokens = 200000, wWarningTokens = 300000, wMaxTokens = 400000\<rparr>,
      bpR = [field_band 9 9 90 180, field_band 8 8 70 140, field_band 5 7 45 90, field_band 1 4 25 50],
      bpS = [field_band 9 9 100 200, field_band 8 8 70 140, field_band 5 7 40 80, field_band 1 4 20 40]\<rparr>"

definition budget_LegacyPolicy :: BudgetPolicy where
  "budget_LegacyPolicy =
     \<lparr>bpVersion = CognitionBudgetPolicyV1, bpMode = ''observe'',
      bpWholeIndex = \<lparr>wTargetTokens = 120000, wWarningTokens = 180000, wMaxTokens = 240000\<rparr>,
      bpR = [field_band 9 9 90 180, field_band 8 8 70 140, field_band 5 7 45 90, field_band 1 4 25 50],
      bpS = [field_band 9 9 100 200, field_band 8 8 70 140, field_band 5 7 40 80, field_band 1 4 20 40]\<rparr>"

section \<open>The normal form\<close>

definition band_le :: "FieldBand \<Rightarrow> FieldBand \<Rightarrow> bool" where
  "band_le a b \<longleftrightarrow> (if fbMinC a \<noteq> fbMinC b then fbMinC a < fbMinC b else fbMaxC a \<le> fbMaxC b)"

definition band_valid :: "FieldBand \<Rightarrow> bool" where
  "band_valid b \<longleftrightarrow>
     \<not> (fbMinC b < 1 \<or> 9 < fbMaxC b \<or> fbMaxC b < fbMinC b \<or> fbTargetTokens b < 0 \<or> fbMaxTokens b \<le> 0 \<or>
        fbMaxTokens b < fbTargetTokens b)"

text \<open>The inner loop: \<open>None\<close> when an importance is covered already.\<close>

fun cover_range :: "int list \<Rightarrow> int list \<Rightarrow> int list option" where
  "cover_range covered [] = Some covered"
| "cover_range covered (i # is) = (if i \<in> set covered then None else cover_range (i # covered) is)"

fun check_bands :: "int list \<Rightarrow> FieldBand list \<Rightarrow> (band_error, int list) result" where
  "check_bands covered [] = Inr covered"
| "check_bands covered (b # bs) =
     (if \<not> band_valid b then Inl BandInvalid
      else case cover_range covered [fbMinC b..fbMaxC b] of
        None \<Rightarrow> Inl BandOverlap
      | Some covered' \<Rightarrow> check_bands covered' bs)"

definition normalizeBands :: "FieldBand list \<Rightarrow> (band_error, FieldBand list) result" where
  "normalizeBands bands =
     (if bands = [] then Inl BandsMissing
      else
        let sorted = sort_by band_le bands in
        case check_bands [] sorted of
          Inl e \<Rightarrow> Inl e
        | Inr covered \<Rightarrow> if list_all (\<lambda>i. i \<in> set covered) [1..9] then Inr sorted else Inl BandGap)"

definition budget_Normalize :: "BudgetPolicy \<Rightarrow> (budget_error, BudgetPolicy) result" where
  "budget_Normalize p =
     (let ver = (if bpVersion p = [] then CognitionBudgetPolicyV1 else bpVersion p); whole = bpWholeIndex p in
      if ver \<noteq> CognitionBudgetPolicyV1 then Inl BudgetVersionUnsupported
      else if bpMode p \<noteq> ''observe'' \<and> bpMode p \<noteq> ''enforce'' then Inl BudgetModeInvalid
      else if wTargetTokens whole \<le> 0 \<or> wWarningTokens whole < wTargetTokens whole \<or> wMaxTokens whole < wWarningTokens whole
      then Inl BudgetWholeIndexInvalid
      else case normalizeBands (bpR p) of
        Inl e \<Rightarrow> Inl (BudgetBands ''r'' e)
      | Inr r \<Rightarrow>
          (case normalizeBands (bpS p) of
             Inl e \<Rightarrow> Inl (BudgetBands ''s'' e)
           | Inr s \<Rightarrow> Inr (p\<lparr>bpVersion := ver, bpR := r, bpS := s\<rparr>)))"

definition in_band :: "int \<Rightarrow> FieldBand \<Rightarrow> bool" where
  "in_band c b \<longleftrightarrow> fbMinC b \<le> c \<and> c \<le> fbMaxC b"

definition LimitFor :: "FieldBand list \<Rightarrow> int \<Rightarrow> FieldBand option" where
  "LimitFor bands c = find (in_band c) bands"

definition budget_Identity :: "(BudgetPolicy \<Rightarrow> string) \<Rightarrow> (string \<Rightarrow> string) \<Rightarrow> BudgetPolicy \<Rightarrow> (budget_error, string) result" where
  "budget_Identity json sha p = (case budget_Normalize p of Inl e \<Rightarrow> Inl e | Inr q \<Rightarrow> Inr (sha (json q)))"

section \<open>Laws\<close>

interpretation band_order: total_preorder band_le
  by unfold_locales (auto simp: band_le_def split: if_splits)

lemma cover_range_Some:
  assumes "distinct is"
  shows "cover_range covered is = Some covered' \<longleftrightarrow> set covered \<inter> set is = {} \<and> covered' = rev is @ covered"
  using assms by (induction "is" arbitrary: covered) auto

lemma band_upto: "i \<in> set [fbMinC b..fbMaxC b] \<longleftrightarrow> in_band i b"
  by (simp add: in_band_def)

text \<open>The loop accepts the bands exactly when each is valid and no two of them share an importance.\<close>

lemma check_bands_Inr:
  "(\<exists>covered'. check_bands covered bs = Inr covered') \<longleftrightarrow>
     list_all band_valid bs \<and> (\<forall>i. (if i \<in> set covered then 1 else 0) + length (filter (in_band i) bs) \<le> 1)"
proof (induction bs arbitrary: covered)
  case (Cons b bs)
  show ?case
  proof (cases "band_valid b \<and> (\<forall>i. in_band i b \<longrightarrow> i \<notin> set covered)")
    case True
    then have c: "cover_range covered [fbMinC b..fbMaxC b] = Some (rev [fbMinC b..fbMaxC b] @ covered)"
      by (auto simp: cover_range_Some in_band_def)
    have "(if i \<in> set (rev [fbMinC b..fbMaxC b] @ covered) then 1 else 0) + length (filter (in_band i) bs) =
        (if i \<in> set covered then 1 else 0) + length (filter (in_band i) (b # bs))" for i
      using True by (simp add: in_band_def)
    then show ?thesis using Cons.IH [of "rev [fbMinC b..fbMaxC b] @ covered"] True c by simp
  next
    case False
    show ?thesis
    proof (cases "band_valid b")
      case v: True
      then obtain i where i: "in_band i b" "i \<in> set covered" using False by auto
      then have "i \<in> set covered \<inter> set [fbMinC b..fbMaxC b]" by (simp add: in_band_def)
      then have "cover_range covered [fbMinC b..fbMaxC b] = None"
        using cover_range_Some [OF distinct_upto] by (metis empty_iff option.exhaust)
      moreover have "\<not> (if i \<in> set covered then 1 else 0) + length (filter (in_band i) (b # bs)) \<le> (1::nat)"
        using i by simp
      ultimately show ?thesis using v by fastforce
    qed simp
  qed
qed auto

lemma check_bands_covered:
  "check_bands covered bs = Inr covered' \<Longrightarrow> i \<in> set covered' \<longleftrightarrow> i \<in> set covered \<or> (\<exists>b\<in>set bs. in_band i b)"
  by (induction bs arbitrary: covered) (auto simp: cover_range_Some in_band_def split: if_splits option.splits)

text \<open>Each importance lies in one band.\<close>

definition bands_partition :: "FieldBand list \<Rightarrow> bool" where
  "bands_partition bands \<longleftrightarrow> list_all band_valid bands \<and> list_all (\<lambda>i. length (filter (in_band i) bands) = 1) [1..9]"

lemma in_valid_band: "band_valid b \<Longrightarrow> in_band i b \<Longrightarrow> 1 \<le> i \<and> i \<le> 9"
  by (auto simp: band_valid_def in_band_def)

lemma length_filter_permuted: "mset xs = mset ys \<Longrightarrow> length (filter P xs) = length (filter P ys)"
  by (metis mset_filter size_mset)

lemma bands_partition_permuted: "mset xs = mset ys \<Longrightarrow> bands_partition xs = bands_partition ys"
  unfolding bands_partition_def by (simp add: list_all_iff length_filter_permuted [of xs ys] mset_eq_setD [of xs ys])

lemma bands_partition_sorted [simp]: "bands_partition (sort_by band_le bands) = bands_partition bands"
  by (rule bands_partition_permuted) simp

lemma bands_partition_overlap:
  assumes "list_all band_valid bands"
  shows "bands_partition bands \<longleftrightarrow>
    (\<forall>i. length (filter (in_band i) bands) \<le> 1) \<and> list_all (\<lambda>i. \<exists>b\<in>set bands. in_band i b) [1..9]"
proof -
  have out: "filter (in_band i) bands = []" if "i < 1 \<or> 9 < i" for i
    using that assms in_valid_band by (fastforce simp: filter_empty_conv list_all_iff)
  have one: "length (filter (in_band i) bands) = 1 \<longleftrightarrow> length (filter (in_band i) bands) \<le> 1 \<and> (\<exists>b\<in>set bands. in_band i b)" for i
  proof -
    have "(\<exists>b\<in>set bands. in_band i b) \<longleftrightarrow> length (filter (in_band i) bands) \<noteq> 0" by (auto simp: filter_empty_conv)
    then show ?thesis by linarith
  qed
  have "(\<forall>i. length (filter (in_band i) bands) \<le> 1) \<longleftrightarrow> (\<forall>i. 1 \<le> i \<and> i \<le> 9 \<longrightarrow> length (filter (in_band i) bands) \<le> 1)"
    using out by (metis leI list.size(3) zero_le_one)
  then show ?thesis using assms one by (auto simp: bands_partition_def list_all_iff)
qed

lemma normalizeBands_Inr: "normalizeBands bands = Inr bs \<longleftrightarrow> bands_partition bands \<and> bs = sort_by band_le bands"
proof (cases "bands = []")
  case True
  have "(1::int) \<in> set [1..9]" by simp
  then have "\<not> bands_partition []" by (auto simp: bands_partition_def list_all_iff)
  then show ?thesis using True by (simp add: normalizeBands_def)
next
  case ne: False
  let ?s = "sort_by band_le bands"
  show ?thesis
  proof (cases "\<exists>covered. check_bands [] ?s = Inr covered")
    case True
    then obtain covered where c: "check_bands [] ?s = Inr covered" by blast
    have ok: "list_all band_valid ?s" "\<forall>i. length (filter (in_band i) ?s) \<le> 1" using True check_bands_Inr [of "[]" ?s] by auto
    have cov: "i \<in> set covered \<longleftrightarrow> (\<exists>b\<in>set ?s. in_band i b)" for i using check_bands_covered [OF c] by simp
    have "list_all (\<lambda>i. i \<in> set covered) [1..9] \<longleftrightarrow> bands_partition ?s"
      using bands_partition_overlap [OF ok(1)] ok(2) cov by simp
    then show ?thesis using ne c by (auto simp: normalizeBands_def)
  next
    case False
    then have "\<not> bands_partition ?s"
      using check_bands_Inr [of "[]" ?s] bands_partition_overlap [of ?s] by (auto simp: bands_partition_def)
    moreover have "\<nexists>r. check_bands [] ?s = Inr r" using False by blast
    ultimately show ?thesis using ne by (cases "check_bands [] ?s") (auto simp: normalizeBands_def)
  qed
qed

lemma LimitFor_unique:
  assumes "length (filter (in_band c) bands) = 1" "mset bs = mset bands" "b \<in> set bands" "in_band c b"
  shows "LimitFor bs c = Some b"
proof -
  obtain b' where b': "filter (in_band c) bs = [b']"
    using assms(1) length_filter_permuted [OF assms(2), of "in_band c"] by (auto simp: length_Suc_conv)
  have "b \<in> set (filter (in_band c) bs)" using assms(3,4) mset_eq_setD [OF assms(2)] by simp
  then have "b' = b" using b' by simp
  moreover have "LimitFor bs c = (case filter (in_band c) bs of [] \<Rightarrow> None | x # _ \<Rightarrow> Some x)"
    unfolding LimitFor_def by (induction bs) auto
  ultimately show ?thesis using b' by simp
qed

lemma band_order_antisym:
  assumes "bands_partition bands"
  shows "total_order_on band_le (set bands)"
proof
  fix x y assume xy: "x \<in> set bands" "y \<in> set bands" "band_le x y" "band_le y x"
  have "band_valid x" using assms xy(1) by (auto simp: bands_partition_def list_all_iff)
  then have c: "in_band (fbMinC x) x" "fbMinC x \<in> set [1..9]" by (auto simp: band_valid_def in_band_def)
  moreover have "in_band (fbMinC x) y" using xy(3,4) c by (auto simp: band_le_def in_band_def split: if_splits)
  moreover have "length (filter (in_band (fbMinC x)) bands) = 1" using assms c(2) by (auto simp: bands_partition_def list_all_iff)
  ultimately show "x = y" using LimitFor_unique [OF _ refl xy(1), of "fbMinC x"] LimitFor_unique [OF _ refl xy(2), of "fbMinC x"] by simp
qed

lemma sort_bands_permuted:
  assumes "bands_partition bands" "mset bands = mset bands'"
  shows "sort_by band_le bands = sort_by band_le bands'"
  using total_order_on.sort_by_permuted [OF band_order_antisym [OF assms(1)] assms(2)] by simp

section \<open>The policy\<close>

text \<open>What a policy must say apart from its bands.\<close>

definition budget_frame_ok :: "BudgetPolicy \<Rightarrow> bool" where
  "budget_frame_ok p \<longleftrightarrow>
     bpVersion p \<in> {[], CognitionBudgetPolicyV1} \<and> bpMode p \<in> {''observe'', ''enforce''} \<and>
     0 < wTargetTokens (bpWholeIndex p) \<and> wTargetTokens (bpWholeIndex p) \<le> wWarningTokens (bpWholeIndex p) \<and>
     wWarningTokens (bpWholeIndex p) \<le> wMaxTokens (bpWholeIndex p)"

lemma CognitionBudgetPolicyV1_ne [simp]: "CognitionBudgetPolicyV1 \<noteq> []"
  by (simp add: CognitionBudgetPolicyV1_def)

lemma budget_Normalize_Inr:
  "budget_Normalize p = Inr q \<longleftrightarrow>
     budget_frame_ok p \<and> bands_partition (bpR p) \<and> bands_partition (bpS p) \<and>
     q = p\<lparr>bpVersion := CognitionBudgetPolicyV1, bpR := sort_by band_le (bpR p), bpS := sort_by band_le (bpS p)\<rparr>"
proof (cases "budget_frame_ok p")
  case True
  then have ver: "(if bpVersion p = [] then CognitionBudgetPolicyV1 else bpVersion p) = CognitionBudgetPolicyV1"
    by (auto simp: budget_frame_ok_def)
  have "budget_Normalize p =
     (case normalizeBands (bpR p) of Inl e \<Rightarrow> Inl (BudgetBands ''r'' e)
      | Inr r \<Rightarrow> (case normalizeBands (bpS p) of Inl e \<Rightarrow> Inl (BudgetBands ''s'' e)
           | Inr s \<Rightarrow> Inr (p\<lparr>bpVersion := CognitionBudgetPolicyV1, bpR := r, bpS := s\<rparr>)))"
    using True unfolding budget_Normalize_def Let_def ver by (auto simp: budget_frame_ok_def)
  then show ?thesis using True normalizeBands_Inr [of "bpR p"] normalizeBands_Inr [of "bpS p"]
    by (auto split: sum.splits)
next
  case False
  then have "\<exists>e. budget_Normalize p = Inl e"
    by (auto simp: budget_Normalize_def budget_frame_ok_def Let_def not_le not_less)
  then show ?thesis using False by auto
qed

text \<open>
  A list of bands is accepted exactly when every band is valid and every importance from 1 to 9 lies in
  exactly one of them, and then the normal form is the same bands sorted. In the normal form the lookup
  answers for each of these importances with the one band that contains it, and for no other.
\<close>

theorem normalizeBands_exact:
  "case normalizeBands bands of
     Inl e \<Rightarrow> \<not> bands_partition bands
   | Inr bs \<Rightarrow> bands_partition bands \<and> mset bs = mset bands \<and> sorted_wrt band_le bs \<and>
       (\<forall>c b. LimitFor bs c = Some b \<longleftrightarrow> b \<in> set bands \<and> fbMinC b \<le> c \<and> c \<le> fbMaxC b) \<and>
       (\<forall>c. (\<exists>b. LimitFor bs c = Some b) \<longleftrightarrow> 1 \<le> c \<and> c \<le> 9)"
proof (cases "bands_partition bands")
  case p: True
  define bs where "bs = sort_by band_le bands"
  have m: "mset bs = mset bands" by (simp add: bs_def)
  have one: "length (filter (in_band c) bands) = 1" if "1 \<le> c" "c \<le> 9" for c
    using p that by (auto simp: bands_partition_def list_all_iff)
  have found: "b \<in> set bands \<and> in_band c b" if "LimitFor bs c = Some b" for b c
    using that mset_eq_setD [OF m] by (auto simp: LimitFor_def find_Some_iff)
  have range: "1 \<le> c \<and> c \<le> 9" if "b \<in> set bands" "in_band c b" for b c
    using p that in_valid_band by (auto simp: bands_partition_def list_all_iff)
  have limit: "LimitFor bs c = Some b \<longleftrightarrow> b \<in> set bands \<and> fbMinC b \<le> c \<and> c \<le> fbMaxC b" for b c
    using found LimitFor_unique [OF one m] range unfolding in_band_def by metis
  have "\<exists>b. LimitFor bs c = Some b" if c: "1 \<le> c" "c \<le> 9" for c
  proof -
    obtain b where "filter (in_band c) bands = [b]" using one [OF c] by (auto simp: length_Suc_conv)
    then have "b \<in> set bands" "in_band c b" by (auto simp: filter_eq_Cons_iff)
    then show ?thesis using LimitFor_unique [OF one [OF c] m] by blast
  qed
  then have "(\<exists>b. LimitFor bs c = Some b) \<longleftrightarrow> 1 \<le> c \<and> c \<le> 9" for c using found range by blast
  moreover have "normalizeBands bands = Inr bs" using p by (simp add: normalizeBands_Inr bs_def)
  moreover have "sorted_wrt band_le bs" by (simp add: bs_def band_order.sort_by_sorted)
  ultimately show ?thesis using p m limit by simp
next
  case False
  then show ?thesis by (cases "normalizeBands bands") (simp_all add: normalizeBands_Inr)
qed

text \<open>
  The identity of a policy is that of its normal form: normalizing is idempotent, and two accepted
  policies that differ only in the order of their bands (or in leaving out the version) have the same normal form and
  the same identity.
\<close>

theorem budget_Identity_canonical:
  assumes "budget_Normalize p = Inr q"
    and "bpMode p' = bpMode p" "bpWholeIndex p' = bpWholeIndex p" "bpVersion p' \<in> {[], CognitionBudgetPolicyV1}"
    and "mset (bpR p') = mset (bpR p)" "mset (bpS p') = mset (bpS p)"
  shows "budget_Normalize q = Inr q \<and> budget_Normalize p' = Inr q \<and> budget_Identity json sha p' = budget_Identity json sha p"
proof -
  have p: "budget_frame_ok p" "bands_partition (bpR p)" "bands_partition (bpS p)"
    and q: "q = p\<lparr>bpVersion := CognitionBudgetPolicyV1, bpR := sort_by band_le (bpR p), bpS := sort_by band_le (bpS p)\<rparr>"
    using assms(1) by (simp_all add: budget_Normalize_Inr)
  have qq: "budget_Normalize q = Inr q"
    using p unfolding budget_Normalize_Inr q by (simp add: budget_frame_ok_def band_order.sort_by_idem)
  have bands: "sort_by band_le (bpR p') = sort_by band_le (bpR p)" "sort_by band_le (bpS p') = sort_by band_le (bpS p)"
    using sort_bands_permuted [OF p(2) assms(5) [symmetric]] sort_bands_permuted [OF p(3) assms(6) [symmetric]] by simp_all
  have p': "budget_frame_ok p'" "bands_partition (bpR p')" "bands_partition (bpS p')"
    using p assms(2-4) bands_partition_permuted [OF assms(5)] bands_partition_permuted [OF assms(6)]
    by (auto simp: budget_frame_ok_def)
  have "q = p'\<lparr>bpVersion := CognitionBudgetPolicyV1, bpR := sort_by band_le (bpR p'), bpS := sort_by band_le (bpS p')\<rparr>"
    unfolding q bands using assms(2,3) by simp
  then have "budget_Normalize p' = Inr q" using p' by (simp add: budget_Normalize_Inr)
  then show ?thesis using qq assms(1) by (simp add: budget_Identity_def)
qed

theorem budget_Identity_canonical_witness:
  "let p = budget_LegacyPolicy; p' = p\<lparr>bpVersion := [], bpR := rev (bpR p)\<rparr> in
   budget_Normalize p' = budget_Normalize p \<and> budget_Identity (\<lambda>_. []) id p' = budget_Identity (\<lambda>_. []) id p"
proof -
  let ?p = budget_LegacyPolicy
  have "\<not> isl (budget_Normalize ?p)" by code_simp
  then obtain q where q: "budget_Normalize ?p = Inr q" by (cases "budget_Normalize ?p") simp_all
  have "budget_Normalize q = Inr q \<and> budget_Normalize (?p\<lparr>bpVersion := [], bpR := rev (bpR ?p)\<rparr>) = Inr q \<and>
    budget_Identity (\<lambda>_. []) id (?p\<lparr>bpVersion := [], bpR := rev (bpR ?p)\<rparr>) = budget_Identity (\<lambda>_. []) id ?p"
    by (rule budget_Identity_canonical [OF q]) simp_all
  then show ?thesis using q by (simp add: Let_def)
qed

end
