(* ===== verification/Budget_Report.thy ===== *)
theory Budget_Report
  imports Budget_Policy Index_Quota Index_Resolve Index_Parser
begin

text \<open>
  The budget report (\<open>internal/cognitionbudget/report.go\<close>): the token costs of an index and of its Entries, the
  S coverage tally, the violations of the R and S bands, the verdicts on an index, on a projected index and on one
  Entry line. A token is estimated as three bytes. A nil S quota is \<open>None\<close>.
\<close>

section \<open>Data\<close>

record EntryCost =
  ecPath :: string
  ecImportance :: int
  ecFTokens :: int
  ecRTokens :: int
  ecATokens :: int
  ecSTokens :: int
  ecTotalTokens :: int

record BudgetViolation =
  bvCode :: string
  bvPath :: string
  bvField :: string
  bvImportance :: int
  bvActual :: int
  bvMaximum :: int

record SCoverageBand =
  scMinC :: int
  scMaxC :: int
  scEntries :: int
  scSPresent :: int

record SCoverageTally =
  tBands :: "SCoverageBand list"
  tHighImportanceEntries :: int
  tHighImportanceSAbsent :: int

record Report =
  rVersion :: string
  rMode :: string
  rStatus :: string
  rWholeIndexTokens :: int
  rTargetTokens :: int
  rWarningTokens :: int
  rMaxTokens :: int
  rHeaderTokens :: int
  rFTokens :: int
  rRTokens :: int
  rATokens :: int
  rSTokens :: int
  rStructureTokens :: int
  rEntryCount :: int
  rLargestEntries :: "EntryCost list"
  rLargestR :: "EntryCost list"
  rLargestS :: "EntryCost list"
  rViolations :: "BudgetViolation list"
  rPolicy :: WholeIndexPolicy
  rSCoverage :: "SCoverageBand list"
  rHighImportanceEntries :: int
  rHighImportanceSAbsent :: int
  rHighImportanceSAbsentPercent :: int

datatype report_error = ReportPolicy budget_error | ReportParseWarnings nat

definition HighImportanceMinC :: int where
  "HighImportanceMinC = 7"

definition HighImportanceSAbsentHintPercent :: int where
  "HighImportanceSAbsentHintPercent = 25"

section \<open>Measures\<close>

definition EstimateTokensOfSize :: "nat \<Rightarrow> int" where
  "EstimateTokensOfSize byteCount = int (byteCount div 3)"

definition EstimateTokens :: "string \<Rightarrow> int" where
  "EstimateTokens data = EstimateTokensOfSize (length data)"

definition entryImportance :: "Entry \<Rightarrow> int" where
  "entryImportance e =
     (case atoi (tag_get (TagsParsed e) AxC) of
        None \<Rightarrow> 0
      | Some c \<Rightarrow> if c < 1 \<or> 9 < c then 0 else c)"

definition SPresent :: "string \<Rightarrow> bool" where
  "SPresent s = (let t = trim_space s in t \<noteq> [] \<and> t \<noteq> ''-'')"

definition SFieldMaxTokens :: "FieldBand \<Rightarrow> int \<Rightarrow> SQuotaThresholds option \<Rightarrow> int" where
  "SFieldMaxTokens band c quota =
     (let limit = fst (LimitForC quota c) in if limit < fbMaxTokens band then fbMaxTokens band else limit)"

definition statusFor :: "int \<Rightarrow> WholeIndexPolicy \<Rightarrow> string" where
  "statusFor tokens p =
     (if wMaxTokens p < tokens then ''exceeded''
      else if wWarningTokens p \<le> tokens then ''warning''
      else if wTargetTokens p < tokens then ''near_budget''
      else ''healthy'')"

definition cost_le :: "(EntryCost \<Rightarrow> int) \<Rightarrow> EntryCost \<Rightarrow> EntryCost \<Rightarrow> bool" where
  "cost_le score a b \<longleftrightarrow> (if score a \<noteq> score b then score b < score a else str_le (ecPath a) (ecPath b))"

definition topEntries :: "EntryCost list \<Rightarrow> (EntryCost \<Rightarrow> int) \<Rightarrow> EntryCost list" where
  "topEntries entries score = take 10 (sort_by (cost_le score) entries)"

section \<open>S coverage\<close>

definition NewSCoverageTally :: "FieldBand list \<Rightarrow> SCoverageTally" where
  "NewSCoverageTally sBands =
     \<lparr>tBands = map (\<lambda>b. \<lparr>scMinC = fbMinC b, scMaxC = fbMaxC b, scEntries = 0, scSPresent = 0\<rparr>) sBands,
      tHighImportanceEntries = 0, tHighImportanceSAbsent = 0\<rparr>"

text \<open>The loop of \<open>Add\<close> stops at the first band that contains the importance.\<close>

fun tally_bands :: "int \<Rightarrow> bool \<Rightarrow> SCoverageBand list \<Rightarrow> SCoverageBand list" where
  "tally_bands c present [] = []"
| "tally_bands c present (b # bs) =
     (if c < scMinC b \<or> scMaxC b < c then b # tally_bands c present bs
      else b\<lparr>scEntries := scEntries b + 1, scSPresent := (if present then scSPresent b + 1 else scSPresent b)\<rparr> # bs)"

definition tally_Add :: "SCoverageTally \<Rightarrow> Entry \<Rightarrow> SCoverageTally" where
  "tally_Add t e =
     (let c = entryImportance e; present = SPresent (FieldS e);
          t1 = t\<lparr>tBands := tally_bands c present (tBands t)\<rparr> in
      if HighImportanceMinC \<le> c then
        t1\<lparr>tHighImportanceEntries := tHighImportanceEntries t1 + 1,
           tHighImportanceSAbsent := (if present then tHighImportanceSAbsent t1 else tHighImportanceSAbsent t1 + 1)\<rparr>
      else t1)"

definition HighImportanceSAbsentPercent :: "SCoverageTally \<Rightarrow> int" where
  "HighImportanceSAbsentPercent t =
     (if tHighImportanceEntries t = 0 then 0 else tHighImportanceSAbsent t * 100 div tHighImportanceEntries t)"

definition HighImportanceSAbsentHint :: "int \<Rightarrow> int \<Rightarrow> bool" where
  "HighImportanceSAbsentHint n percent \<longleftrightarrow> 0 < n \<and> HighImportanceSAbsentHintPercent \<le> percent"

section \<open>Building a report\<close>

definition entry_cost :: "Entry \<Rightarrow> EntryCost" where
  "entry_cost e =
     \<lparr>ecPath = RelPath e, ecImportance = entryImportance e, ecFTokens = EstimateTokens (FieldF e),
      ecRTokens = EstimateTokens (FieldR e), ecATokens = EstimateTokens (FieldApi e), ecSTokens = EstimateTokens (FieldS e),
      ecTotalTokens = EstimateTokens (FullLine e)\<rparr>"

definition entry_violations :: "BudgetPolicy \<Rightarrow> SQuotaThresholds option \<Rightarrow> EntryCost \<Rightarrow> BudgetViolation list" where
  "entry_violations p quota cost =
     (case LimitFor (bpR p) (ecImportance cost) of
        Some band \<Rightarrow>
          if fbMaxTokens band < ecRTokens cost
          then [\<lparr>bvCode = ''entry_field_budget_exceeded'', bvPath = ecPath cost, bvField = ''R'',
                 bvImportance = ecImportance cost, bvActual = ecRTokens cost, bvMaximum = fbMaxTokens band\<rparr>]
          else []
      | None \<Rightarrow> []) @
     (case LimitFor (bpS p) (ecImportance cost) of
        Some band \<Rightarrow>
          let limit = SFieldMaxTokens band (ecImportance cost) quota in
          if limit < ecSTokens cost
          then [\<lparr>bvCode = ''entry_field_budget_exceeded'', bvPath = ecPath cost, bvField = ''S'',
                 bvImportance = ecImportance cost, bvActual = ecSTokens cost, bvMaximum = limit\<rparr>]
          else []
      | None \<Rightarrow> [])"

text \<open>The variables of the loop over the Entries.\<close>

record budget_acc =
  baEntries :: "EntryCost list"
  baCoverage :: SCoverageTally
  baF :: int
  baR :: int
  baA :: int
  baS :: int
  baViolations :: "BudgetViolation list"

definition budget_entry :: "BudgetPolicy \<Rightarrow> SQuotaThresholds option \<Rightarrow> budget_acc \<Rightarrow> Entry \<Rightarrow> budget_acc" where
  "budget_entry p quota acc e =
     (let cost = entry_cost e in
      \<lparr>baEntries = baEntries acc @ [cost], baCoverage = tally_Add (baCoverage acc) e,
       baF = baF acc + ecFTokens cost, baR = baR acc + ecRTokens cost, baA = baA acc + ecATokens cost,
       baS = baS acc + ecSTokens cost, baViolations = baViolations acc @ entry_violations p quota cost\<rparr>)"

definition header_bytes :: "Document \<Rightarrow> string \<Rightarrow> nat" where
  "header_bytes doc raw =
     (case Sections doc of
        [] \<Rightarrow> length raw
      | sec # _ \<Rightarrow> sum_list (map (\<lambda>l. length l + 1) (take (StartLine sec - 1) (str_split raw [LF]))))"

definition clamp_structure :: "int \<Rightarrow> int" where
  "clamp_structure n = (if n < 0 then 0 else n)"

definition violation_le :: "BudgetViolation \<Rightarrow> BudgetViolation \<Rightarrow> bool" where
  "violation_le a b \<longleftrightarrow> (if bvPath a \<noteq> bvPath b then str_less (bvPath a) (bvPath b) else str_le (bvField a) (bvField b))"

definition BuildWithSQuota ::
  "string \<Rightarrow> string \<Rightarrow> BudgetPolicy \<Rightarrow> SQuotaThresholds option \<Rightarrow> (report_error, Report) result" where
  "BuildWithSQuota root raw policy quota =
     (case budget_Normalize policy of
        Inl e \<Rightarrow> Inl (ReportPolicy e)
      | Inr p \<Rightarrow>
          let (doc0, warnings) = Parse raw in
          if warnings \<noteq> [] then Inl (ReportParseWarnings (length warnings))
          else
            let doc = ResolveRelPaths doc0 root;
                acc = foldl (budget_entry p quota)
                  \<lparr>baEntries = [], baCoverage = NewSCoverageTally (bpS p), baF = 0, baR = 0, baA = 0, baS = 0, baViolations = []\<rparr>
                  (all_entries doc);
                whole = EstimateTokens raw;
                header = EstimateTokensOfSize (header_bytes doc raw) in
            Inr \<lparr>rVersion = ''cognition-budget-report/v1'', rMode = bpMode p, rStatus = statusFor whole (bpWholeIndex p),
                 rWholeIndexTokens = whole, rTargetTokens = wTargetTokens (bpWholeIndex p),
                 rWarningTokens = wWarningTokens (bpWholeIndex p), rMaxTokens = wMaxTokens (bpWholeIndex p),
                 rHeaderTokens = header, rFTokens = baF acc, rRTokens = baR acc, rATokens = baA acc, rSTokens = baS acc,
                 rStructureTokens = clamp_structure (whole - header - baF acc - baR acc - baA acc - baS acc),
                 rEntryCount = int (length (baEntries acc)),
                 rLargestEntries = topEntries (baEntries acc) ecTotalTokens, rLargestR = topEntries (baEntries acc) ecRTokens,
                 rLargestS = topEntries (baEntries acc) ecSTokens,
                 rViolations = sort_by violation_le (baViolations acc), rPolicy = bpWholeIndex p,
                 rSCoverage = tBands (baCoverage acc), rHighImportanceEntries = tHighImportanceEntries (baCoverage acc),
                 rHighImportanceSAbsent = tHighImportanceSAbsent (baCoverage acc),
                 rHighImportanceSAbsentPercent = HighImportanceSAbsentPercent (baCoverage acc)\<rparr>)"

definition budget_Build :: "string \<Rightarrow> string \<Rightarrow> BudgetPolicy \<Rightarrow> (report_error, Report) result" where
  "budget_Build root raw policy = BuildWithSQuota root raw policy (Some (ExtractSQuotaThresholds raw))"

definition RebindWholeIndexTokens :: "Report \<Rightarrow> int \<Rightarrow> BudgetPolicy \<Rightarrow> (budget_error, Report) result" where
  "RebindWholeIndexTokens r tokens policy =
     (case budget_Normalize policy of
        Inl e \<Rightarrow> Inl e
      | Inr p \<Rightarrow>
          Inr (r\<lparr>rWholeIndexTokens := tokens,
                 rStructureTokens := clamp_structure (tokens - rHeaderTokens r - rFTokens r - rRTokens r - rATokens r - rSTokens r),
                 rStatus := statusFor tokens (bpWholeIndex p)\<rparr>))"

section \<open>Verdicts\<close>

record Validation =
  vVersion :: string
  vAllowed :: bool
  vMode :: string
  vReport :: Report
  vViolations :: "BudgetViolation list"

definition budget_allowed :: "Report \<Rightarrow> bool" where
  "budget_allowed r \<longleftrightarrow> rMode r \<noteq> ''enforce'' \<or> rViolations r = []"

definition budget_Validate :: "string \<Rightarrow> string \<Rightarrow> BudgetPolicy \<Rightarrow> (report_error, Validation) result" where
  "budget_Validate root raw policy =
     (case budget_Build root raw policy of
        Inl e \<Rightarrow> Inl e
      | Inr r \<Rightarrow> Inr \<lparr>vVersion = ''cognition-budget-validation/v1'', vAllowed = budget_allowed r, vMode = rMode r, vReport = r,
                     vViolations = rViolations r\<rparr>)"

record Projection =
  pVersion :: string
  pAllowed :: bool
  pMode :: string
  pCurrentTokens :: int
  pProjectedWholeIndexTokens :: int
  pTargetTokens :: int
  pWarningTokens :: int
  pMaxTokens :: int
  pBatchDeltaTokens :: int
  pLargestR :: "EntryCost list"
  pLargestS :: "EntryCost list"
  pLargestEntries :: "EntryCost list"
  pSuggestedCompression :: "EntryCost list"
  pViolations :: "BudgetViolation list"

text \<open>The two loops that collect the suggestions; \<open>seen\<close> holds the paths already suggested.\<close>

definition suggest_violation :: "EntryCost list \<Rightarrow> EntryCost list \<times> string list \<Rightarrow> BudgetViolation \<Rightarrow> EntryCost list \<times> string list" where
  "suggest_violation largest acc v =
     (case acc of (suggested, seen) \<Rightarrow>
        if bvPath v = [] \<or> bvPath v \<in> set seen then acc
        else case find (\<lambda>e. ecPath e = bvPath v) largest of
          Some e \<Rightarrow> (suggested @ [e], ecPath e # seen)
        | None \<Rightarrow> acc)"

fun suggest_largest :: "EntryCost list \<times> string list \<Rightarrow> EntryCost list \<Rightarrow> EntryCost list" where
  "suggest_largest (suggested, seen) [] = suggested"
| "suggest_largest (suggested, seen) (e # es) =
     (if 10 \<le> length suggested then suggested
      else if ecPath e \<notin> set seen then suggest_largest (suggested @ [e], ecPath e # seen) es
      else suggest_largest (suggested, seen) es)"

definition ValidateProjected :: "string \<Rightarrow> string \<Rightarrow> string \<Rightarrow> BudgetPolicy \<Rightarrow> (report_error, Projection) result" where
  "ValidateProjected root current projected policy =
     (case budget_Build root current policy of
        Inl e \<Rightarrow> Inl e
      | Inr cur \<Rightarrow>
          (case budget_Build root projected policy of
             Inl e \<Rightarrow> Inl e
           | Inr pr \<Rightarrow>
               let allLargest = rLargestEntries pr @ rLargestR pr @ rLargestS pr;
                   suggested = suggest_largest (foldl (suggest_violation allLargest) ([], []) (rViolations pr)) (rLargestEntries pr) in
               Inr \<lparr>pVersion = ''cognition-budget-validation/v1'', pAllowed = budget_allowed pr, pMode = rMode pr,
                    pCurrentTokens = rWholeIndexTokens cur, pProjectedWholeIndexTokens = rWholeIndexTokens pr,
                    pTargetTokens = rTargetTokens pr, pWarningTokens = rWarningTokens pr, pMaxTokens = rMaxTokens pr,
                    pBatchDeltaTokens = rWholeIndexTokens pr - rWholeIndexTokens cur,
                    pLargestR = rLargestR pr, pLargestS = rLargestS pr, pLargestEntries = rLargestEntries pr,
                    pSuggestedCompression = suggested, pViolations = rViolations pr\<rparr>))"

text \<open>One step of the loop over the R and the S field of \<open>ValidateEntryWithSQuota\<close>.\<close>

definition field_violation ::
  "int \<Rightarrow> SQuotaThresholds option \<Rightarrow> string \<times> string \<times> FieldBand list \<Rightarrow> BudgetViolation list" where
  "field_violation c quota item =
     (case item of (name, value, bands) \<Rightarrow>
        let actual = EstimateTokens value in
        case LimitFor bands c of
          None \<Rightarrow> []
        | Some band \<Rightarrow>
            let limit = (if name = ''S'' then SFieldMaxTokens band c quota else fbMaxTokens band) in
            if limit < actual
            then [\<lparr>bvCode = ''entry_field_budget_exceeded'', bvPath = [], bvField = name, bvImportance = c, bvActual = actual,
                   bvMaximum = limit\<rparr>]
            else [])"

definition ValidateEntryWithSQuota :: "string \<Rightarrow> BudgetPolicy \<Rightarrow> SQuotaThresholds option \<Rightarrow> BudgetViolation list" where
  "ValidateEntryWithSQuota line policy quota =
     (case budget_Normalize policy of
        Inl _ \<Rightarrow> [\<lparr>bvCode = ''cognition_budget_policy_invalid'', bvPath = [], bvField = [], bvImportance = 0, bvActual = 0, bvMaximum = 0\<rparr>]
      | Inr p \<Rightarrow>
          (case ParseEntryLine line 1 of
             None \<Rightarrow> []
           | Some e \<Rightarrow>
               concat (map (field_violation (entryImportance e) quota) [(''R'', FieldR e, bpR p), (''S'', FieldS e, bpS p)])))"

definition ValidateEntry :: "string \<Rightarrow> BudgetPolicy \<Rightarrow> BudgetViolation list" where
  "ValidateEntry line policy = ValidateEntryWithSQuota line policy None"

section \<open>Human lines\<close>

definition itoa_int :: "int \<Rightarrow> string" where
  "itoa_int i = (if i < 0 then CHR ''-'' # itoa (nat (- i)) else itoa (nat i))"

definition FormatSCoverageBands :: "SCoverageBand list \<Rightarrow> string" where
  "FormatSCoverageBands bands =
     str_join (map (\<lambda>b.
       (if scMaxC b \<noteq> scMinC b then ''C'' @ itoa_int (scMinC b) @ ''-'' @ itoa_int (scMaxC b) else ''C'' @ itoa_int (scMinC b)) @
       '' '' @ itoa_int (scSPresent b) @ ''/'' @ itoa_int (scEntries b)) bands) '', ''"

definition budget_Summary :: "Report option \<Rightarrow> string" where
  "budget_Summary rep =
     (case rep of
        None \<Rightarrow> []
      | Some r \<Rightarrow>
          ''whole_index='' @ itoa_int (rWholeIndexTokens r) @ '' target='' @ itoa_int (rTargetTokens r) @
          '' warning='' @ itoa_int (rWarningTokens r) @ '' max='' @ itoa_int (rMaxTokens r) @ '' status='' @ rStatus r @
          '' | S coverage: C'' @ itoa_int HighImportanceMinC @ ''+ '' @
          itoa_int (rHighImportanceEntries r - rHighImportanceSAbsent r) @ ''/'' @ itoa_int (rHighImportanceEntries r) @ '' have S'')"

end
