(* ===== verification/Budget_Laws.thy ===== *)
theory Budget_Laws
  imports Budget_Report
begin

text \<open>
  What a budget report says: its violations are those of the single Entry lines, its S coverage counts every Entry
  once, and an S within its rune quota costs no violation unless it uses runes of four bytes.
\<close>

section \<open>Runes and tokens\<close>

lemma decode_rune_width_4: "snd (decode_rune s) = 4 \<Longrightarrow> 65536 \<le> fst (decode_rune s)"
proof (cases s)
  case (Cons c0 t)
  assume w: "snd (decode_rune s) = 4"
  have b: "240 \<le> byte c0" "byte c0 \<le> 244"
    using w Cons by (auto simp: decode_rune_def Let_def split: list.splits if_splits)
  then obtain c1 c2 c3 u where t: "t = c1 # c2 # c3 # u" and ok: "second_ok (byte c0) c1"
    and v: "fst (decode_rune s) = (byte c0 - 240) * 262144 + cont_bits c1 * 4096 + cont_bits c2 * 64 + cont_bits c3"
    using w Cons by (simp add: decode_rune_def Let_def split: list.splits if_splits)
  show ?thesis
  proof (cases "byte c0 = 240")
    case True
    then have "16 \<le> cont_bits c1" using ok by (auto simp: second_ok_def cont_bits_def)
    then show ?thesis using v by simp
  next
    case False
    then show ?thesis using v b by simp
  qed
qed simp

lemma bmp_bytes:
  assumes "list_all (\<lambda>r. r < 65536) (runes s)"
  shows "length s \<le> 3 * rune_count s"
  using assms
proof (induction s rule: runes.induct)
  case (1 s)
  show ?case
  proof (cases "s = []")
    case False
    let ?w = "snd (decode_rune s)"
    have r: "runes s = fst (decode_rune s) # runes (drop ?w s)" using False by (rule runes_nonempty)
    then have "?w \<noteq> 4" using "1.prems" decode_rune_width_4 [of s] by auto
    then have "?w \<le> 3" using decode_rune_width_le_4 [of s] by linarith
    moreover have "length (drop ?w s) \<le> 3 * rune_count (drop ?w s)" using 1 False r by simp
    ultimately show ?thesis by (simp add: rune_count_def r)
  qed simp
qed

lemma tokens_le_runes: "list_all (\<lambda>r. r < 65536) (runes s) \<Longrightarrow> EstimateTokens s \<le> int (rune_count s)"
  using bmp_bytes [of s] by (simp add: EstimateTokens_def EstimateTokensOfSize_def)

lemma SFieldMaxTokens_quota: "fst (LimitForC quota c) \<le> SFieldMaxTokens band c quota"
  by (simp add: SFieldMaxTokens_def Let_def)

text \<open>
  The S gates agree where the runes fit in three bytes: an Entry line whose S stays within the
  rune limit of its importance has no S violation under any budget policy, as long as no rune of the S lies beyond the
  Basic Multilingual Plane.
\<close>

theorem S_quota_within_budget:
  assumes "ParseEntryLine line 1 = Some e" and "budget_Normalize policy = Inr p"
    and "int (rune_count (FieldS e)) \<le> fst (LimitForC quota (entryImportance e))"
    and "list_all (\<lambda>r. r < 65536) (runes (FieldS e))"
  shows "list_all (\<lambda>v. bvField v = ''R'') (ValidateEntryWithSQuota line policy quota)"
proof -
  let ?c = "entryImportance e"
  have "EstimateTokens (FieldS e) \<le> SFieldMaxTokens band ?c quota" for band
    using tokens_le_runes [OF assms(4)] assms(3) SFieldMaxTokens_quota [of quota ?c band] by linarith
  then have "field_violation ?c quota (''S'', FieldS e, bpS p) = []"
    by (cases "LimitFor (bpS p) ?c") (simp_all add: field_violation_def Let_def not_less)
  moreover have "list_all (\<lambda>v. bvField v = ''R'') (field_violation ?c quota (''R'', FieldR e, bpR p))"
    by (simp add: field_violation_def Let_def split: option.splits)
  ultimately show ?thesis using assms(1,2) by (simp add: ValidateEntryWithSQuota_def)
qed

definition sample_line :: "string \<Rightarrow> string" where
  "sample_line s = ''a.go[Core.X.2.S]: F:x | S:'' @ s"

lemma sample_entry: "\<exists>e. ParseEntryLine (sample_line ''ab'') 1 = Some e \<and> FieldS e = ''ab'' \<and> entryImportance e = 2"
proof -
  have "case ParseEntryLine (sample_line ''ab'') 1 of None \<Rightarrow> False | Some e \<Rightarrow> FieldS e = ''ab'' \<and> entryImportance e = 2" by code_simp
  then show ?thesis by (auto split: option.splits)
qed

lemma legacy_normal: "\<exists>p. budget_Normalize budget_LegacyPolicy = Inr p"
proof -
  have "\<not> isl (budget_Normalize budget_LegacyPolicy)" by code_simp
  then show ?thesis by (cases "budget_Normalize budget_LegacyPolicy") simp_all
qed

theorem S_quota_within_budget_witness:
  "list_all (\<lambda>v. bvField v = ''R'') (ValidateEntryWithSQuota (sample_line ''ab'') budget_LegacyPolicy None)"
proof -
  obtain e where e: "ParseEntryLine (sample_line ''ab'') 1 = Some e" "FieldS e = ''ab''" "entryImportance e = 2"
    using sample_entry by blast
  obtain p where p: "budget_Normalize budget_LegacyPolicy = Inr p" using legacy_normal by blast
  have r: "runes (FieldS e) = [97, 98]" unfolding e by code_simp
  have q: "int (rune_count (FieldS e)) \<le> fst (LimitForC None (entryImportance e))" unfolding e by code_simp
  show ?thesis by (rule S_quota_within_budget [OF e(1) p q]) (simp add: r)
qed

text \<open>
  Beyond that plane the bound does not hold: 39 runes of four bytes are within the 50 runes the quota gives to
  importance 2, and cost 52 tokens, over the limit of 50.
\<close>

definition emoji :: "nat \<Rightarrow> string" where
  "emoji n = concat (replicate n [CHR 0xF0, CHR 0x9F, CHR 0x98, CHR 0x80])"

lemma emoji_Suc: "emoji (Suc n) = CHR 0xF0 # CHR 0x9F # CHR 0x98 # CHR 0x80 # emoji n"
  by (simp add: emoji_def)

lemma emoji_runes: "rune_count (emoji n) = n" and emoji_bytes: "length (emoji n) = 4 * n"
proof -
  have "decode_rune (emoji (Suc n)) = (128512, 4)" for n
    unfolding emoji_Suc by (simp add: decode_rune_def second_ok_def is_cont_def cont_bits_def)
  then have "runes (emoji (Suc n)) = 128512 # runes (emoji n)" for n
    using runes_nonempty [of "emoji (Suc n)"] by (simp add: emoji_Suc)
  then have "length (runes (emoji n)) = n" by (induction n) (simp_all add: emoji_def)
  then show "rune_count (emoji n) = n" by (simp add: rune_count_def)
  show "length (emoji n) = 4 * n" by (induction n) (simp_all add: emoji_def)
qed

lemma four_byte_runes_exceed_budget:
  "int (rune_count (emoji 39)) \<le> fst (LimitForC None 2)"
  "map bvActual (field_violation 2 None (''S'', emoji 39, bpS budget_LegacyPolicy)) = [52]"
proof -
  have l: "fst (LimitForC None 2) = 50" by code_simp
  show "int (rune_count (emoji 39)) \<le> fst (LimitForC None 2)" unfolding emoji_runes l by simp
  have b: "LimitFor (bpS budget_LegacyPolicy) 2 = Some (field_band 1 4 20 40)" by code_simp
  have "SFieldMaxTokens (field_band 1 4 20 40) 2 None = 50" by code_simp
  then show "map bvActual (field_violation 2 None (''S'', emoji 39, bpS budget_LegacyPolicy)) = [52]"
    by (simp add: field_violation_def b Let_def EstimateTokens_def EstimateTokensOfSize_def emoji_bytes)
qed

section \<open>The Entries of a report\<close>

lemma foldl_budget_entry:
  "baViolations (foldl (budget_entry p quota) acc es) = baViolations acc @ concat (map (entry_violations p quota \<circ> entry_cost) es)"
  "baEntries (foldl (budget_entry p quota) acc es) = baEntries acc @ map entry_cost es"
  "baCoverage (foldl (budget_entry p quota) acc es) = foldl tally_Add (baCoverage acc) es"
  by (induction es arbitrary: acc) (simp_all add: budget_entry_def Let_def)

lemma BuildWithSQuota_Inr:
  assumes "BuildWithSQuota root raw policy quota = Inr r"
  obtains p where "budget_Normalize policy = Inr p" "snd (Parse raw) = []" "rMode r = bpMode p"
    "rViolations r = sort_by violation_le (concat (map (entry_violations p quota \<circ> entry_cost) (all_entries (ResolveRelPaths (fst (Parse raw)) root))))"
    "rSCoverage r = tBands (foldl tally_Add (NewSCoverageTally (bpS p)) (all_entries (ResolveRelPaths (fst (Parse raw)) root)))"
    "rHighImportanceEntries r = tHighImportanceEntries (foldl tally_Add (NewSCoverageTally (bpS p)) (all_entries (ResolveRelPaths (fst (Parse raw)) root)))"
    "rHighImportanceSAbsent r = tHighImportanceSAbsent (foldl tally_Add (NewSCoverageTally (bpS p)) (all_entries (ResolveRelPaths (fst (Parse raw)) root)))"
    "rHighImportanceSAbsentPercent r = HighImportanceSAbsentPercent (foldl tally_Add (NewSCoverageTally (bpS p)) (all_entries (ResolveRelPaths (fst (Parse raw)) root)))"
proof (cases "budget_Normalize policy")
  case (Inr p)
  have w: "snd (Parse raw) = []" using assms Inr by (auto simp: BuildWithSQuota_def split: prod.splits if_splits)
  show ?thesis
    using assms w by (intro that [OF Inr w]) (auto simp: BuildWithSQuota_def Inr Let_def foldl_budget_entry split: prod.splits)
qed (use assms in \<open>simp add: BuildWithSQuota_def\<close>)

text \<open>Resolving fills in the path of an Entry and nothing else.\<close>

definition located :: "Entry \<Rightarrow> Entry \<Rightarrow> bool" where
  "located e' e \<longleftrightarrow> (\<exists>p. e' = e\<lparr>RelPath := p\<rparr>)"

lemma located_refl: "located e e"
  unfolding located_def by (rule exI [of _ "RelPath e"]) simp

lemma resolve_section_located: "list_all2 located (Entries (resolve_section d sec)) (Entries sec)"
  by (auto simp: resolve_section_def list_all2_conv_all_nth located_def located_refl [unfolded located_def] split: option.splits)

lemma ResolveRelPaths_located: "list_all2 located (all_entries (ResolveRelPaths doc root)) (all_entries doc)"
proof -
  have s: "Sections (ResolveRelPaths doc root) ! k = resolve_section (resolveSectionRels (Sections doc) root k) (Sections doc ! k)"
    if "k < length (Sections doc)" for k
    using that by (simp add: ResolveRelPaths_def ranged_def)
  have "list_all2 (\<lambda>s' s. list_all2 located (Entries s') (Entries s)) (Sections (ResolveRelPaths doc root)) (Sections doc)"
    by (subst list_all2_conv_all_nth) (auto simp: s resolve_section_located ResolveRelPaths_def ranged_def)
  then have "list_all2 (list_all2 located) (map Entries (Sections (ResolveRelPaths doc root))) (map Entries (Sections doc))"
    by (simp add: list_all2_map1 list_all2_map2)
  then show ?thesis unfolding all_entries_def by (rule concat_transfer [THEN rel_funD])
qed

lemma located_fields:
  assumes "located e' e"
  shows "FieldR e' = FieldR e" "FieldS e' = FieldS e" "entryImportance e' = entryImportance e" "FullLine e' = FullLine e"
  using assms by (auto simp: located_def entryImportance_def)

lemma map_located: "list_all2 located es' es \<Longrightarrow> (\<And>e' e. located e' e \<Longrightarrow> f e' = g e) \<Longrightarrow> map f es' = map g es"
  by (induction rule: list_all2_induct) auto

text \<open>The violations of a costed Entry are those of its line, up to the path.\<close>

lemma entry_violations_line:
  assumes "located e' e" and "ParseEntryLine (FullLine e) 1 = Some e1" and "budget_Normalize policy = Inr p"
    and "FieldR e1 = FieldR e" "FieldS e1 = FieldS e" "entryImportance e1 = entryImportance e"
  shows "map (\<lambda>v. v\<lparr>bvPath := []\<rparr>) (entry_violations p quota (entry_cost e')) = ValidateEntryWithSQuota (FullLine e) policy quota"
  using assms located_fields [OF assms(1)]
  by (simp add: entry_violations_def entry_cost_def ValidateEntryWithSQuota_def field_violation_def Let_def split: option.splits)

lemma parsed_entry_line:
  assumes "e \<in> set (all_entries (fst (Parse raw)))" "\<not> has_suffix (FullLine e) [CR]"
  shows "\<exists>e1. ParseEntryLine (FullLine e) 1 = Some e1 \<and> FieldR e1 = FieldR e \<and> FieldS e1 = FieldS e \<and>
    entryImportance e1 = entryImportance e"
proof -
  let ?ls = "str_split (fold_crlf (stripBOM raw)) [LF]"
  obtain sec where sec: "sec \<in> set (psSections (parse_lines ?ls))" "e \<in> set (Entries sec)"
    using assms(1) by (auto simp: all_entries_def)
  have "section_ok ?ls sec" by (rule parsed_ok_section [OF parse_lines_parsed_ok sec(1)])
  then have ok: "entry_ok ?ls sec e" using sec(2) by (simp add: section_ok_def)
  then obtain m where m: "matchEntryLine (FullLine e) = Some m" "e = entry_of_match (FullLine e) (LineNo e) m"
    by (auto simp: entry_ok_def)
  have "FullLine e = ?ls ! (LineNo e - 1)" "LineNo e - 1 < length ?ls" using ok by (auto simp: entry_ok_def)
  then have "FullLine e \<in> set ?ls" by simp
  then have "LF \<notin> set (FullLine e)" by (rule str_split_char_no_sep)
  then have "\<not> has_suffix (FullLine e) [LF]" by (auto simp: has_suffix_def) (metis in_set_dropD list.set_intros(1))
  then have "trim_suffix (FullLine e) [LF] = FullLine e" by (simp add: trim_suffix_def)
  then have "ParseEntryLine (FullLine e) 1 = Some (entry_of_match (FullLine e) 1 m)"
    using assms(2) m(1) by (simp add: ParseEntryLine_def trim_suffix_def Let_def)
  moreover have "FieldR (entry_of_match (FullLine e) 1 m) = FieldR e" "FieldS (entry_of_match (FullLine e) 1 m) = FieldS e"
    "TagsParsed (entry_of_match (FullLine e) 1 m) = TagsParsed e"
    by (subst m(2), simp add: entry_of_match_def split: prod.splits)+
  ultimately show ?thesis by (simp add: entryImportance_def)
qed

text \<open>
  The budget report of an index judges its Entries as the gate for single Entry lines does: apart from
  the path it adds, the violations of the report are exactly those \<open>ValidateEntryWithSQuota\<close> finds in the lines of the
  Entries, and the index is allowed exactly when the policy only observes or each of these lines passes. (A line that still
  ends in a carriage return after line ends are folded is set aside: the single line gate trims it.)
\<close>

theorem report_judges_lines:
  assumes "BuildWithSQuota root raw policy quota = Inr r"
    and "list_all (\<lambda>e. \<not> has_suffix (FullLine e) [CR]) (all_entries (fst (Parse raw)))"
  shows "mset (map (\<lambda>v. v\<lparr>bvPath := []\<rparr>) (rViolations r)) =
      mset (concat (map (\<lambda>e. ValidateEntryWithSQuota (FullLine e) policy quota) (all_entries (fst (Parse raw))))) \<and>
    (budget_allowed r \<longleftrightarrow> bpMode policy \<noteq> ''enforce'' \<or>
       list_all (\<lambda>e. ValidateEntryWithSQuota (FullLine e) policy quota = []) (all_entries (fst (Parse raw))))"
proof -
  let ?es = "all_entries (fst (Parse raw))" and ?es' = "all_entries (ResolveRelPaths (fst (Parse raw)) root)"
  let ?erase = "map (\<lambda>v. v\<lparr>bvPath := []\<rparr>)"
  obtain p where p: "budget_Normalize policy = Inr p" "rMode r = bpMode p"
    and v: "rViolations r = sort_by violation_le (concat (map (entry_violations p quota \<circ> entry_cost) ?es'))"
    using BuildWithSQuota_Inr [OF assms(1)] by metis
  have line: "?erase (entry_violations p quota (entry_cost e')) = ValidateEntryWithSQuota (FullLine e) policy quota"
    if "located e' e" "e \<in> set ?es" for e' e
    using parsed_entry_line [OF that(2)] assms(2) that(2) entry_violations_line [OF that(1) _ p(1)] by (auto simp: list_all_iff)
  have "list_all2 (\<lambda>e' e. located e' e \<and> e \<in> set ?es) ?es' ?es"
    using ResolveRelPaths_located [of "fst (Parse raw)" root] by (auto simp: list_all2_conv_all_nth)
  then have lists: "map (?erase \<circ> (entry_violations p quota \<circ> entry_cost)) ?es' =
      map (\<lambda>e. ValidateEntryWithSQuota (FullLine e) policy quota) ?es"
    by (auto simp: list_all2_conv_all_nth line intro: nth_equalityI)
  have all: "mset (?erase (rViolations r)) = mset (concat (map (\<lambda>e. ValidateEntryWithSQuota (FullLine e) policy quota) ?es))"
    unfolding v mset_map mset_sort_by mset_map [symmetric] map_concat map_map lists by simp
  have "bpMode p = bpMode policy" using p(1) by (auto simp: budget_Normalize_Inr)
  moreover have "rViolations r = [] \<longleftrightarrow> list_all (\<lambda>e. ValidateEntryWithSQuota (FullLine e) policy quota = []) ?es"
  proof -
    have "rViolations r = [] \<longleftrightarrow> mset (?erase (rViolations r)) = {#}" by simp
    then show ?thesis unfolding all by (simp add: list_all_iff)
  qed
  ultimately show ?thesis using all p(2) by (simp add: budget_allowed_def)
qed

definition sample_index :: string where
  "sample_index = ''===/r/==='' @ [LF] @ sample_line ''ab'' @ [LF]"

lemma sample_report: "\<exists>r. BuildWithSQuota ''/r'' sample_index budget_LegacyPolicy None = Inr r"
proof -
  have "\<not> isl (BuildWithSQuota ''/r'' sample_index budget_LegacyPolicy None)" by code_simp
  then show ?thesis by (cases "BuildWithSQuota ''/r'' sample_index budget_LegacyPolicy None") simp_all
qed

lemma sample_entries: "map FullLine (all_entries (fst (Parse sample_index))) = [sample_line ''ab'']"
  by code_simp

theorem report_judges_lines_witness:
  "\<exists>r. BuildWithSQuota ''/r'' sample_index budget_LegacyPolicy None = Inr r \<and>
     mset (map (\<lambda>v. v\<lparr>bvPath := []\<rparr>) (rViolations r)) = mset (ValidateEntryWithSQuota (sample_line ''ab'') budget_LegacyPolicy None)"
proof -
  obtain r where r: "BuildWithSQuota ''/r'' sample_index budget_LegacyPolicy None = Inr r" using sample_report by blast
  obtain e where e: "all_entries (fst (Parse sample_index)) = [e]" "FullLine e = sample_line ''ab''"
    using sample_entries by (auto simp: map_eq_Cons_conv)
  have "\<not> has_suffix (sample_line ''ab'') [CR]" by code_simp
  then have "list_all (\<lambda>e. \<not> has_suffix (FullLine e) [CR]) (all_entries (fst (Parse sample_index)))" by (simp add: e)
  from report_judges_lines [OF r this] show ?thesis using r by (simp add: e)
qed

section \<open>S coverage\<close>

text \<open>How a band of the tally counts one Entry.\<close>

definition counted :: "Entry \<Rightarrow> SCoverageBand \<Rightarrow> SCoverageBand" where
  "counted e b =
     (if scMinC b \<le> entryImportance e \<and> entryImportance e \<le> scMaxC b
      then b\<lparr>scEntries := scEntries b + 1, scSPresent := (if SPresent (FieldS e) then scSPresent b + 1 else scSPresent b)\<rparr> else b)"

definition in_sc :: "int \<Rightarrow> SCoverageBand \<Rightarrow> bool" where
  "in_sc c b \<longleftrightarrow> scMinC b \<le> c \<and> c \<le> scMaxC b"

lemma tally_bands_counted:
  assumes "length (filter (in_sc (entryImportance e)) bs) \<le> 1"
  shows "tally_bands (entryImportance e) (SPresent (FieldS e)) bs = map (counted e) bs"
  using assms
proof (induction bs)
  case (Cons b bs)
  show ?case
  proof (cases "in_sc (entryImportance e) b")
    case True
    then have "filter (in_sc (entryImportance e)) bs = []" using Cons.prems by simp
    then have "map (counted e) bs = bs" by (intro map_idI) (auto simp: counted_def in_sc_def filter_empty_conv)
    then show ?thesis using True by (auto simp: counted_def [of e b] in_sc_def)
  next
    case False
    then show ?thesis using Cons by (auto simp: counted_def in_sc_def)
  qed
qed simp

text \<open>The tally of a list of Entries, counted band by band.\<close>

definition count_if :: "('a \<Rightarrow> bool) \<Rightarrow> 'a list \<Rightarrow> int" where
  "count_if P xs = int (length (filter P xs))"

lemma count_if_simps [simp]:
  "count_if P [] = 0" "count_if P (x # xs) = (if P x then count_if P xs + 1 else count_if P xs)"
  by (simp_all add: count_if_def)

definition coverage_of :: "Entry list \<Rightarrow> FieldBand \<Rightarrow> SCoverageBand" where
  "coverage_of es b =
     \<lparr>scMinC = fbMinC b, scMaxC = fbMaxC b, scEntries = count_if (\<lambda>e. in_band (entryImportance e) b) es,
      scSPresent = count_if (\<lambda>e. in_band (entryImportance e) b \<and> SPresent (FieldS e)) es\<rparr>"

lemma foldl_tally:
  assumes "\<And>c. length (filter (in_sc c) (tBands t)) \<le> 1"
  shows "foldl tally_Add t es =
    \<lparr>tBands = map (\<lambda>b. b\<lparr>scEntries := scEntries b + count_if (\<lambda>e. in_sc (entryImportance e) b) es,
        scSPresent := scSPresent b + count_if (\<lambda>e. in_sc (entryImportance e) b \<and> SPresent (FieldS e)) es\<rparr>) (tBands t),
     tHighImportanceEntries = tHighImportanceEntries t + count_if (\<lambda>e. HighImportanceMinC \<le> entryImportance e) es,
     tHighImportanceSAbsent = tHighImportanceSAbsent t + count_if (\<lambda>e. HighImportanceMinC \<le> entryImportance e \<and> \<not> SPresent (FieldS e)) es\<rparr>"
  using assms
proof (induction es arbitrary: t)
  case Nil
  then show ?case by (cases t) simp
next
  case (Cons e es)
  have add: "tally_Add t e =
      \<lparr>tBands = map (counted e) (tBands t),
       tHighImportanceEntries = tHighImportanceEntries t + (if HighImportanceMinC \<le> entryImportance e then 1 else 0),
       tHighImportanceSAbsent = tHighImportanceSAbsent t + (if HighImportanceMinC \<le> entryImportance e \<and> \<not> SPresent (FieldS e) then 1 else 0)\<rparr>"
    unfolding tally_Add_def Let_def tally_bands_counted [OF Cons.prems] by simp
  have frame: "in_sc c (counted e b) = in_sc c b" for c b by (simp add: counted_def in_sc_def)
  have one: "length (filter (in_sc c) (tBands (tally_Add t e))) \<le> 1" for c
    using Cons.prems [of c] by (simp add: add filter_map comp_def frame)
  show ?case unfolding foldl.simps Cons.IH [OF one] unfolding add
    by (auto simp: frame counted_def in_sc_def)
qed

lemma coverage_exact:
  assumes "bands_partition bands"
  shows "foldl tally_Add (NewSCoverageTally bands) es =
    \<lparr>tBands = map (coverage_of es) bands,
     tHighImportanceEntries = count_if (\<lambda>e. HighImportanceMinC \<le> entryImportance e) es,
     tHighImportanceSAbsent = count_if (\<lambda>e. HighImportanceMinC \<le> entryImportance e \<and> \<not> SPresent (FieldS e)) es\<rparr>"
proof -
  have "length (filter (in_sc c) (tBands (NewSCoverageTally bands))) = length (filter (in_band c) bands)" for c
    by (simp add: NewSCoverageTally_def filter_map comp_def in_sc_def flip: in_band_def)
  moreover have "length (filter (in_band c) bands) \<le> 1" for c
    using assms bands_partition_overlap [of bands] by (auto simp: bands_partition_def)
  ultimately have one: "length (filter (in_sc c) (tBands (NewSCoverageTally bands))) \<le> 1" for c by simp
  show ?thesis unfolding foldl_tally [OF one]
    by (simp add: NewSCoverageTally_def coverage_of_def in_sc_def in_band_def)
qed

lemma count_if_partition:
  assumes "bands_partition bands"
  shows "sum_list (map (\<lambda>b. count_if (\<lambda>e. in_band (f e) b) es) bands) = count_if (\<lambda>e. 1 \<le> f e \<and> f e \<le> 9) es"
proof (induction es)
  case (Cons e es)
  have "sum_list (map (\<lambda>b. count_if (\<lambda>e. in_band (f e) b) (e # es)) bands) =
      sum_list (map (\<lambda>b. count_if (\<lambda>e. in_band (f e) b) es) bands) + count_if (in_band (f e)) bands"
    by (induction bands) auto
  moreover have "count_if (in_band (f e)) bands = (if 1 \<le> f e \<and> f e \<le> 9 then 1 else 0)"
  proof (cases "1 \<le> f e \<and> f e \<le> 9")
    case True
    then show ?thesis using assms by (auto simp: count_if_def bands_partition_def list_all_iff)
  next
    case False
    then have "filter (in_band (f e)) bands = []"
      using assms in_valid_band by (fastforce simp: bands_partition_def list_all_iff filter_empty_conv)
    then show ?thesis using False by (simp add: count_if_def)
  qed
  ultimately show ?case using Cons by simp
qed simp

lemma entryImportance_range: "entryImportance e = 0 \<or> 1 \<le> entryImportance e \<and> entryImportance e \<le> 9"
  by (simp add: entryImportance_def split: option.splits)

lemma count_if_le: "(\<And>x. P x \<Longrightarrow> Q x) \<Longrightarrow> count_if P xs \<le> count_if Q xs" and count_if_nonneg [simp]: "0 \<le> count_if P xs"
  by (induction xs) auto

text \<open>
  The S coverage of a report counts exactly: each band of the normalized policy holds the number of
  Entries of its importances and how many of them carry an S, every Entry with a readable importance is counted in one
  band, the high-importance figures are those counts, and the percentage lies between 0 and 100.
\<close>

theorem report_coverage_exact:
  assumes "BuildWithSQuota root raw policy quota = Inr r"
  defines "es \<equiv> all_entries (ResolveRelPaths (fst (Parse raw)) root)"
  shows "rSCoverage r = map (coverage_of es) (sort_by band_le (bpS policy)) \<and>
    sum_list (map scEntries (rSCoverage r)) = count_if (\<lambda>e. entryImportance e \<noteq> 0) es \<and>
    rHighImportanceEntries r = count_if (\<lambda>e. HighImportanceMinC \<le> entryImportance e) es \<and>
    rHighImportanceSAbsent r = count_if (\<lambda>e. HighImportanceMinC \<le> entryImportance e \<and> \<not> SPresent (FieldS e)) es \<and>
    0 \<le> rHighImportanceSAbsentPercent r \<and> rHighImportanceSAbsentPercent r \<le> 100"
proof -
  obtain p where p: "budget_Normalize policy = Inr p"
    and cov: "rSCoverage r = tBands (foldl tally_Add (NewSCoverageTally (bpS p)) es)"
      "rHighImportanceEntries r = tHighImportanceEntries (foldl tally_Add (NewSCoverageTally (bpS p)) es)"
      "rHighImportanceSAbsent r = tHighImportanceSAbsent (foldl tally_Add (NewSCoverageTally (bpS p)) es)"
      "rHighImportanceSAbsentPercent r = HighImportanceSAbsentPercent (foldl tally_Add (NewSCoverageTally (bpS p)) es)"
    using BuildWithSQuota_Inr [OF assms(1)] unfolding es_def by metis
  have part: "bands_partition (bpS p)" and bS: "bpS p = sort_by band_le (bpS policy)"
    using p by (auto simp: budget_Normalize_Inr)
  have "(\<lambda>e. entryImportance e \<noteq> 0) = (\<lambda>e. 1 \<le> entryImportance e \<and> entryImportance e \<le> 9)"
    using entryImportance_range by fastforce
  then have sum: "sum_list (map scEntries (map (coverage_of es) (bpS p))) = count_if (\<lambda>e. entryImportance e \<noteq> 0) es"
    using count_if_partition [OF part, of entryImportance es] by (simp add: comp_def coverage_of_def)
  let ?a = "rHighImportanceSAbsent r" and ?n = "rHighImportanceEntries r"
  have le: "0 \<le> ?a" "?a \<le> ?n" unfolding cov coverage_exact [OF part] by (auto intro: count_if_le)
  have "0 \<le> ?a * 100 div ?n \<and> ?a * 100 div ?n \<le> 100" if "?n \<noteq> 0"
  proof -
    have "?a * 100 div ?n \<le> ?n * 100 div ?n" using le that by (intro zdiv_mono1) auto
    then show ?thesis using le that by (simp add: pos_imp_zdiv_nonneg_iff)
  qed
  then have "0 \<le> rHighImportanceSAbsentPercent r \<and> rHighImportanceSAbsentPercent r \<le> 100"
    unfolding cov(4) HighImportanceSAbsentPercent_def using cov(2,3) by auto
  then show ?thesis using sum cov(1-3) unfolding coverage_exact [OF part] by (simp add: bS)
qed

theorem report_coverage_exact_witness:
  "\<exists>r. BuildWithSQuota ''/r'' sample_index budget_LegacyPolicy None = Inr r \<and> rHighImportanceSAbsentPercent r \<le> 100"
proof -
  obtain r where r: "BuildWithSQuota ''/r'' sample_index budget_LegacyPolicy None = Inr r" using sample_report by blast
  from report_coverage_exact [OF r] r show ?thesis by blast
qed

end
