(* ===== verification/Baseline_Hash.thy ===== *)
theory Baseline_Hash
  imports Fs_Path
begin

text \<open>
  File fingerprints (\<open>internal/baseline/hash.go\<close>): the streaming computation over what a file's \<open>Read\<close> calls
  deliver, and the one over bytes in memory. A running hash is the bytes written to it. The
  hexadecimal SHA-256 digest (\<open>sha\<close>) and the Go source formatter (\<open>gofmt\<close>, \<open>None\<close> when the source does not
  parse) are arguments, and a path enters through its extension.
\<close>

section \<open>Fingerprints\<close>

record Fingerprint =
  fpRole :: string
  SHA256 :: string
  fpSize :: nat
  NormalizedSHA256 :: string
  FormatSHA256 :: string
  FormatKind :: string

definition normalizedFingerprintMaxBytes :: nat where
  "normalizedFingerprintMaxBytes = 4194304"

definition normalizedFingerprintBinarySniffBytes :: nat where
  "normalizedFingerprintBinarySniffBytes = 8000"

section \<open>Folding line ends across chunks\<close>

text \<open>The loop of \<open>foldCRLFInto\<close> behind the pending carriage return: what it writes, and whether one is pending.\<close>

fun fold_chunk :: "string \<Rightarrow> string \<times> bool" where
  "fold_chunk [] = ([], False)"
| "fold_chunk (c # cs) =
     (if c \<noteq> CR then apfst ((#) c) (fold_chunk cs)
      else case cs of
        [] \<Rightarrow> ([], True)
      | c' # cs' \<Rightarrow> if c' = LF then apfst ((#) LF) (fold_chunk cs') else apfst ((#) CR) (fold_chunk cs))"

definition foldCRLFInto :: "string \<Rightarrow> string \<Rightarrow> bool \<Rightarrow> string \<times> bool" where
  "foldCRLFInto dst chunk pendingCR =
     (if chunk = [] then (dst, pendingCR)
      else
        let (first, start) = (if pendingCR then (if hd chunk = LF then ([LF], 1) else ([CR], 0)) else ([], 0));
            (out, pending) = fold_chunk (drop start chunk) in
        (dst @ first @ out, pending))"

section \<open>The streaming fingerprint\<close>

text \<open>The variables of the read loop.\<close>

record hash_state =
  rawHash :: string
  normalizedHash :: string
  totalBytes :: nat
  sniffedBytes :: nat
  normalizedEligible :: bool
  binaryDetected :: bool
  pendingCR :: bool
  collectGoSource :: bool
  goSource :: string

definition hash_init :: "bool \<Rightarrow> hash_state" where
  "hash_init go =
     \<lparr>rawHash = [], normalizedHash = [], totalBytes = 0, sniffedBytes = 0, normalizedEligible = True, binaryDetected = False,
      pendingCR = False, collectGoSource = go, goSource = []\<rparr>"

definition collect_source :: "string \<Rightarrow> hash_state \<Rightarrow> hash_state" where
  "collect_source chunk s =
     (if \<not> collectGoSource s then s
      else if normalizedFingerprintMaxBytes < totalBytes s + length chunk then s\<lparr>collectGoSource := False, goSource := []\<rparr>
      else s\<lparr>goSource := goSource s @ chunk\<rparr>)"

definition sniff_binary :: "string \<Rightarrow> hash_state \<Rightarrow> hash_state" where
  "sniff_binary chunk s =
     (if sniffedBytes s < normalizedFingerprintBinarySniffBytes then
        let sniffCount = min (length chunk) (normalizedFingerprintBinarySniffBytes - sniffedBytes s) in
        s\<lparr>binaryDetected := (binaryDetected s \<or> CHR 0x00 \<in> set (take sniffCount chunk)), sniffedBytes := sniffedBytes s + sniffCount\<rparr>
      else s)"

definition normalize_chunk :: "string \<Rightarrow> hash_state \<Rightarrow> hash_state" where
  "normalize_chunk chunk s =
     (if \<not> normalizedEligible s then s
      else if normalizedFingerprintMaxBytes < totalBytes s then s\<lparr>normalizedEligible := False, pendingCR := False\<rparr>
      else
        let (dst, pending) = foldCRLFInto (normalizedHash s) chunk (pendingCR s) in
        s\<lparr>normalizedHash := dst, pendingCR := pending\<rparr>)"

definition hash_chunk :: "string \<Rightarrow> hash_state \<Rightarrow> hash_state" where
  "hash_chunk chunk s =
     (if chunk = [] then s
      else
        let s1 = collect_source chunk s;
            s2 = s1\<lparr>rawHash := rawHash s1 @ chunk, totalBytes := totalBytes s1 + length chunk\<rparr> in
        normalize_chunk chunk (sniff_binary chunk s2))"

text \<open>\<open>None\<close> is a reader that never reports its end; \<open>Inl\<close> is the read error.\<close>

fun hash_reads :: "hash_state \<Rightarrow> (string \<times> read_status) list \<Rightarrow> (unit + hash_state) option" where
  "hash_reads s [] = None"
| "hash_reads s ((chunk, status) # rest) =
     (let s' = hash_chunk chunk s in
      case status of ReadEOF \<Rightarrow> Some (Inr s') | ReadFailed \<Rightarrow> Some (Inl ()) | ReadOk \<Rightarrow> hash_reads s' rest)"

definition finish_hash :: "(string \<Rightarrow> string) \<Rightarrow> (string \<Rightarrow> string option) \<Rightarrow> Fingerprint option \<Rightarrow> hash_state \<Rightarrow> Fingerprint" where
  "finish_hash sha gofmt reuse s =
     (let normalized = (if normalizedEligible s \<and> pendingCR s then normalizedHash s @ [CR] else normalizedHash s);
          result = \<lparr>fpRole = [], SHA256 = sha (rawHash s), fpSize = totalBytes s,
                    NormalizedSHA256 = (if normalizedEligible s \<and> \<not> binaryDetected s then sha normalized else []),
                    FormatSHA256 = [], FormatKind = []\<rparr> in
      case reuse of
        Some r \<Rightarrow>
          if collectGoSource s \<and> \<not> binaryDetected s \<and> SHA256 r = SHA256 result \<and> fpSize r = fpSize result \<and>
             NormalizedSHA256 r \<noteq> [] \<and> NormalizedSHA256 r = NormalizedSHA256 result \<and> FormatKind r = ''gofmt'' \<and> FormatSHA256 r \<noteq> []
          then result\<lparr>FormatSHA256 := FormatSHA256 r, FormatKind := FormatKind r\<rparr>
          else if collectGoSource s \<and> \<not> binaryDetected s then
            (case gofmt (goSource s) of Some f \<Rightarrow> result\<lparr>FormatSHA256 := sha f, FormatKind := ''gofmt''\<rparr> | None \<Rightarrow> result)
          else result
      | None \<Rightarrow>
          if collectGoSource s \<and> \<not> binaryDetected s then
            (case gofmt (goSource s) of Some f \<Rightarrow> result\<lparr>FormatSHA256 := sha f, FormatKind := ''gofmt''\<rparr> | None \<Rightarrow> result)
          else result)"

definition hashFile ::
  "(string \<Rightarrow> string) \<Rightarrow> (string \<Rightarrow> string option) \<Rightarrow> string \<Rightarrow> (string \<times> read_status) list \<Rightarrow> Fingerprint option \<Rightarrow> (unit + Fingerprint) option" where
  "hashFile sha gofmt ext reads reuse =
     map_option (map_sum id (finish_hash sha gofmt reuse)) (hash_reads (hash_init (ext = ''.go'')) reads)"

definition HashFile :: "(string \<Rightarrow> string) \<Rightarrow> (string \<Rightarrow> string option) \<Rightarrow> string \<Rightarrow> (string \<times> read_status) list \<Rightarrow> (unit + Fingerprint) option" where
  "HashFile sha gofmt ext reads = hashFile sha gofmt ext reads None"

definition HashFileReusing ::
  "(string \<Rightarrow> string) \<Rightarrow> (string \<Rightarrow> string option) \<Rightarrow> string \<Rightarrow> (string \<times> read_status) list \<Rightarrow> Fingerprint \<Rightarrow> (unit + Fingerprint) option" where
  "HashFileReusing sha gofmt ext reads prior = hashFile sha gofmt ext reads (Some prior)"

section \<open>The fingerprint of bytes\<close>

definition HashBytes :: "(string \<Rightarrow> string) \<Rightarrow> (string \<Rightarrow> string option) \<Rightarrow> string \<Rightarrow> string \<Rightarrow> Fingerprint" where
  "HashBytes sha gofmt ext data =
     (let result = \<lparr>fpRole = [], SHA256 = sha data, fpSize = length data, NormalizedSHA256 = [], FormatSHA256 = [], FormatKind = []\<rparr> in
      if length data \<le> normalizedFingerprintMaxBytes \<and> CHR 0x00 \<notin> set (take normalizedFingerprintBinarySniffBytes data) then
        let r = result\<lparr>NormalizedSHA256 := sha (replace_all data crlf [LF])\<rparr> in
        if ext = ''.go'' then
          (case gofmt data of Some f \<Rightarrow> r\<lparr>FormatSHA256 := sha f, FormatKind := ''gofmt''\<rparr> | None \<Rightarrow> r)
        else r
      else result)"

definition IsFormatOnlyChange :: "Fingerprint \<Rightarrow> Fingerprint \<Rightarrow> bool" where
  "IsFormatOnlyChange before after \<longleftrightarrow>
     SHA256 before \<noteq> SHA256 after \<and> FormatKind before \<noteq> [] \<and> FormatKind before = FormatKind after \<and>
     FormatSHA256 before \<noteq> [] \<and> FormatSHA256 before = FormatSHA256 after"

definition EquivalentFingerprints :: "Fingerprint \<Rightarrow> Fingerprint \<Rightarrow> bool \<Rightarrow> bool \<times> bool" where
  "EquivalentFingerprints before current tolerate =
     (if SHA256 before = SHA256 current then (True, False)
      else if \<not> tolerate then (False, False)
      else if NormalizedSHA256 before = [] \<or> NormalizedSHA256 current = [] then (False, False)
      else if NormalizedSHA256 before = NormalizedSHA256 current then (True, True)
      else (False, False))"

end
