(* ===== verification/Baseline_Hash_Laws.thy ===== *)
theory Baseline_Hash_Laws
  imports Baseline_Hash
begin

text \<open>
  The streaming fingerprint is the fingerprint of the bytes, however the reader cuts them into chunks, and
  reusing a recorded fingerprint does not change the result.
\<close>

section \<open>Folding line ends chunk by chunk\<close>

lemma fold_chunk_fold:
  "fst (fold_chunk c) @ (if snd (fold_chunk c) then [CR] else []) = fold_crlf c"
proof (induction c rule: fold_chunk.induct)
  case 1
  then show ?case by simp
next
  case (2 c cs)
  show ?case
  proof (cases "c = CR")
    case False
    then show ?thesis using "2.IH"(1) by (simp add: fold_crlf_Cons)
  next
    case c: True
    show ?thesis
    proof (cases cs)
      case Nil
      then show ?thesis using c by (simp add: fold_crlf_Cons)
    next
      case (Cons c' cs')
      show ?thesis
      proof (cases "c' = LF")
        case True
        then show ?thesis using "2.IH"(2) c Cons by (simp add: fold_crlf_Cons [of CR])
      next
        case False
        then show ?thesis using "2.IH"(3) c Cons by (simp add: fold_crlf_Cons [of CR])
      qed
    qed
  qed
qed

lemma fold_chunk_pending: "snd (fold_chunk c) \<longleftrightarrow> c \<noteq> [] \<and> last c = CR"
  by (induction c rule: fold_chunk.induct) (auto split: list.splits)

definition waits_lf :: "string \<Rightarrow> bool" where
  "waits_lf d \<longleftrightarrow> d \<noteq> [] \<and> last d = CR"

lemma waits_lf_Nil [simp]: "\<not> waits_lf []"
  by (simp add: waits_lf_def)

lemma waits_lf_append: "waits_lf (d @ e) \<longleftrightarrow> (if e = [] then waits_lf d else waits_lf e)"
  by (simp add: waits_lf_def)

text \<open>What is folded of \<open>d\<close> when its last carriage return waits for the next byte.\<close>

definition folded_part :: "string \<Rightarrow> string" where
  "folded_part d = fst (fold_chunk d)"

lemma folded_part_pending: "folded_part d @ (if waits_lf d then [CR] else []) = fold_crlf d"
  using fold_chunk_fold [of d] by (simp add: folded_part_def fold_chunk_pending waits_lf_def)

lemma folded_part_Nil [simp]: "folded_part [] = []"
  by (simp add: folded_part_def)

lemma folded_part_Cons:
  "folded_part (c # cs) =
     (if c \<noteq> CR then c # folded_part cs
      else if cs = [] then [] else if hd cs = LF then LF # folded_part (tl cs) else CR # folded_part cs)"
  by (cases cs) (simp_all add: folded_part_def)

lemma folded_part_append:
  assumes "e \<noteq> []"
  shows "folded_part (d @ e) =
     (if waits_lf d then folded_part d @ (if hd e = LF then LF # folded_part (tl e) else CR # folded_part e)
      else folded_part d @ folded_part e)"
proof (induction d rule: fold_chunk.induct)
  case 1
  then show ?case by simp
next
  case (2 c cs)
  consider "c \<noteq> CR" | "c = CR" "cs = []" | c' cs' where "c = CR" "cs = c' # cs'" by (cases cs) auto
  then show ?case
  proof cases
    case 1
    then show ?thesis using "2.IH"(1) by (cases "cs = []") (simp_all add: folded_part_Cons [of c] waits_lf_def)
  next
    case 2
    then show ?thesis using assms by (simp add: folded_part_Cons [of CR] waits_lf_def)
  next
    case (3 c' cs')
    show ?thesis
    proof (cases "c' = LF")
      case True
      then show ?thesis using "2.IH"(2) 3 by (cases "cs' = []") (simp_all add: folded_part_Cons [of CR] waits_lf_def)
    next
      case False
      then show ?thesis using "2.IH"(3) 3 by (simp add: folded_part_Cons [of CR] waits_lf_def)
    qed
  qed
qed

lemma foldCRLFInto_step: "foldCRLFInto (folded_part d) c (waits_lf d) = (folded_part (d @ c), waits_lf (d @ c))"
proof (cases "c = []")
  case True
  then show ?thesis by (simp add: foldCRLFInto_def)
next
  case False
  have chunk: "fold_chunk x = (folded_part x, waits_lf x)" for x
    by (rule prod_eqI) (simp_all add: folded_part_def fold_chunk_pending waits_lf_def)
  obtain x c' where c: "c = x # c'" using False by (cases c) auto
  have lf: "waits_lf c' = waits_lf (LF # c')" by (cases c') (simp_all add: waits_lf_def)
  show ?thesis using folded_part_append [OF False, of d] lf
    by (cases "waits_lf d"; cases "x = LF") (simp_all add: c foldCRLFInto_def chunk waits_lf_append)
qed

section \<open>The read loop\<close>

text \<open>What the variables of the loop hold once the bytes \<open>d\<close> have been read.\<close>

definition hash_after :: "bool \<Rightarrow> string \<Rightarrow> hash_state \<Rightarrow> bool" where
  "hash_after go d s \<longleftrightarrow>
     rawHash s = d \<and> totalBytes s = length d \<and> sniffedBytes s = min (length d) normalizedFingerprintBinarySniffBytes \<and>
     binaryDetected s = (CHR 0x00 \<in> set (take normalizedFingerprintBinarySniffBytes d)) \<and>
     normalizedEligible s = (length d \<le> normalizedFingerprintMaxBytes) \<and>
     collectGoSource s = (go \<and> length d \<le> normalizedFingerprintMaxBytes) \<and>
     (collectGoSource s \<longrightarrow> goSource s = d) \<and>
     (normalizedEligible s \<longrightarrow> normalizedHash s = folded_part d \<and> pendingCR s = waits_lf d)"

lemma hash_after_init: "hash_after go [] (hash_init go)"
  by (simp add: hash_after_def hash_init_def folded_part_def)

lemma collect_source_sniff [simp]:
  "sniffedBytes (collect_source c s) = sniffedBytes s" "binaryDetected (collect_source c s) = binaryDetected s"
  by (simp_all add: collect_source_def)

lemma sniff_binary_other [simp]:
  "rawHash (sniff_binary c s) = rawHash s" "totalBytes (sniff_binary c s) = totalBytes s"
  "normalizedHash (sniff_binary c s) = normalizedHash s" "normalizedEligible (sniff_binary c s) = normalizedEligible s"
  "pendingCR (sniff_binary c s) = pendingCR s" "collectGoSource (sniff_binary c s) = collectGoSource s"
  "goSource (sniff_binary c s) = goSource s"
  by (simp_all add: sniff_binary_def Let_def)

lemma normalize_chunk_other [simp]:
  "rawHash (normalize_chunk c s) = rawHash s" "totalBytes (normalize_chunk c s) = totalBytes s"
  "sniffedBytes (normalize_chunk c s) = sniffedBytes s" "binaryDetected (normalize_chunk c s) = binaryDetected s"
  "collectGoSource (normalize_chunk c s) = collectGoSource s" "goSource (normalize_chunk c s) = goSource s"
  by (simp_all add: normalize_chunk_def split: prod.splits)

lemma collect_source_other [simp]:
  "normalizedHash (collect_source c s) = normalizedHash s" "normalizedEligible (collect_source c s) = normalizedEligible s"
  "pendingCR (collect_source c s) = pendingCR s"
  by (simp_all add: collect_source_def)

lemma take_sniffed:
  "x \<in> set (take n (d @ c)) \<longleftrightarrow> x \<in> set (take n d) \<or> length d < n \<and> x \<in> set (take (min (length c) (n - length d)) c)"
  by (cases "length d < n") (auto simp: min_def)

lemma hash_after_chunk:
  assumes "hash_after go d s"
  shows "hash_after go (d @ c) (hash_chunk c s)"
proof (cases "c = []")
  case True
  then show ?thesis using assms by (simp add: hash_chunk_def)
next
  case False
  have fold: "foldCRLFInto (normalizedHash s) c (pendingCR s) = (folded_part (d @ c), waits_lf (d @ c))"
    if "length d \<le> normalizedFingerprintMaxBytes"
    using assms that foldCRLFInto_step [of d c] by (simp add: hash_after_def)
  let ?s1 = "(collect_source c s)\<lparr>rawHash := d @ c, totalBytes := length (d @ c)\<rparr>"
  have step: "hash_chunk c s = normalize_chunk c (sniff_binary c ?s1)"
    using False assms by (simp add: hash_chunk_def collect_source_def Let_def hash_after_def)
  have src: "collectGoSource (collect_source c s) = (go \<and> length (d @ c) \<le> normalizedFingerprintMaxBytes)"
    "collectGoSource (collect_source c s) \<longrightarrow> goSource (collect_source c s) = d @ c"
    using assms by (auto simp: hash_after_def collect_source_def)
  let ?n = normalizedFingerprintBinarySniffBytes
  have sniff_bytes: "(if min (length d) ?n < ?n then min (length d) ?n + min (length c) (?n - min (length d) ?n)
      else min (length d) ?n) = min (length (d @ c)) ?n"
    by (cases "length d < ?n"; cases "length c \<le> ?n - length d") auto
  have sniff: "sniffedBytes (sniff_binary c ?s1) = min (length (d @ c)) normalizedFingerprintBinarySniffBytes"
    "binaryDetected (sniff_binary c ?s1) = (CHR 0x00 \<in> set (take normalizedFingerprintBinarySniffBytes (d @ c)))"
    using assms sniff_bytes
    by (cases "length d < ?n"; simp add: hash_after_def sniff_binary_def Let_def take_sniffed del: take_append)+
  show ?thesis
  proof (cases "length d + length c \<le> normalizedFingerprintMaxBytes")
    case True
    then have "length d \<le> normalizedFingerprintMaxBytes" by simp
    note f = fold [OF this]
    show ?thesis unfolding step hash_after_def using assms f sniff True src
      by (simp add: hash_after_def normalize_chunk_def del: take_append)
  next
    case False
    then show ?thesis unfolding step hash_after_def using assms sniff False src
      by (simp add: hash_after_def normalize_chunk_def del: take_append)
  qed
qed

lemma hash_reads_all:
  assumes "hash_after go d s"
  shows "\<exists>s'. hash_reads s (map (\<lambda>b. (b, ReadOk)) bs @ (b, ReadEOF) # rest) = Some (Inr s') \<and> hash_after go (d @ concat bs @ b) s'"
  using assms
proof (induction bs arbitrary: d s)
  case Nil
  then show ?case using hash_after_chunk by (simp add: Let_def)
next
  case (Cons x xs)
  from Cons.IH [OF hash_after_chunk [OF Cons.prems, of x]] show ?case by (simp add: Let_def)
qed

lemma finish_hash_bytes:
  assumes "hash_after (ext = ''.go'') d s"
  shows "finish_hash sha gofmt None s = HashBytes sha gofmt ext d"
proof (cases "length d \<le> normalizedFingerprintMaxBytes \<and> \<not> binaryDetected s")
  case True
  have "fold_crlf d = (if waits_lf d then folded_part d @ [CR] else folded_part d)"
    using folded_part_pending [of d] by (simp split: if_splits)
  then show ?thesis using assms True
    by (cases "gofmt d") (simp_all add: finish_hash_def hash_after_def HashBytes_def Let_def flip: fold_crlf_def)
next
  case False
  then show ?thesis using assms folded_part_pending [of d]
    by (auto simp: finish_hash_def hash_after_def HashBytes_def Let_def)
qed

text \<open>What a recorded fingerprint must say of the bytes it is compared with: nothing, or what the formatter says.\<close>

definition faithful_prior :: "(string \<Rightarrow> string) \<Rightarrow> (string \<Rightarrow> string option) \<Rightarrow> string \<Rightarrow> Fingerprint \<Rightarrow> bool" where
  "faithful_prior sha gofmt d prior \<longleftrightarrow>
     SHA256 prior = sha d \<and> FormatKind prior = ''gofmt'' \<longrightarrow> (\<exists>f. gofmt d = Some f \<and> FormatSHA256 prior = sha f)"

lemma finish_hash_reuse:
  assumes after: "hash_after (ext = ''.go'') d s" and prior: "faithful_prior sha gofmt d prior"
  shows "finish_hash sha gofmt (Some prior) s = finish_hash sha gofmt None s"
proof (cases "collectGoSource s \<and> SHA256 prior = sha d \<and> FormatKind prior = ''gofmt''")
  case True
  then obtain f where "gofmt d = Some f" "FormatSHA256 prior = sha f" using prior by (auto simp: faithful_prior_def)
  then show ?thesis using after True by (simp add: finish_hash_def hash_after_def Let_def)
next
  case False
  then consider "\<not> collectGoSource s" | "SHA256 prior \<noteq> sha d" | "FormatKind prior \<noteq> ''gofmt''" by blast
  then show ?thesis
    by cases (use after in \<open>simp_all add: finish_hash_def hash_after_def Let_def\<close>)
qed

section \<open>Fingerprints of files\<close>

text \<open>The reads of a file that delivers the chunks \<open>bs\<close> and then \<open>b\<close> together with its end.\<close>

definition chunked :: "string list \<Rightarrow> string \<Rightarrow> (string \<times> read_status) list" where
  "chunked bs b = map (\<lambda>b. (b, ReadOk)) bs @ [(b, ReadEOF)]"

lemma hash_reads_chunked:
  "\<exists>s. hash_reads (hash_init go) (chunked bs b) = Some (Inr s) \<and> hash_after go (concat bs @ b) s"
  using hash_reads_all [OF hash_after_init, of go bs b "[]"] by (simp add: chunked_def)

text \<open>
  \<open>HashFile\<close> computes in one pass over the chunks of the file exactly the fingerprint that
  \<open>HashBytes\<close> computes from its whole contents, wherever the reader cuts: a carriage return at the end of a chunk, the
  end of the sniffed prefix and the size limits all fall inside chunks.
\<close>

theorem HashFile_is_HashBytes:
  "HashFile sha gofmt ext (chunked bs b) = Some (Inr (HashBytes sha gofmt ext (concat bs @ b)))"
proof -
  obtain s where "hash_reads (hash_init (ext = ''.go'')) (chunked bs b) = Some (Inr s)" "hash_after (ext = ''.go'') (concat bs @ b) s"
    using hash_reads_chunked by blast
  then show ?thesis by (simp add: HashFile_def hashFile_def finish_hash_bytes)
qed

lemma HashBytes_SHA256 [simp]: "SHA256 (HashBytes sha gofmt ext d) = sha d"
  by (cases "gofmt d") (simp_all add: HashBytes_def Let_def)

lemma faithful_prior_HashBytes:
  assumes "inj sha" and fmt: "FormatKind prior = ''gofmt'' \<Longrightarrow> prior = HashBytes sha gofmt e old"
  shows "faithful_prior sha gofmt d prior"
proof -
  have "\<exists>f. gofmt d = Some f \<and> FormatSHA256 prior = sha f" if h: "SHA256 prior = sha d" "FormatKind prior = ''gofmt''"
  proof -
    have p: "prior = HashBytes sha gofmt e old" using fmt h(2) .
    have "sha old = sha d" using h(1) unfolding p by (simp add: HashBytes_SHA256)
    then have "old = d" using assms(1) by (simp add: inj_eq)
    then show ?thesis using h(2) unfolding p
      by (cases "gofmt d") (simp_all add: HashBytes_def Let_def split: if_splits)
  qed
  then show ?thesis by (simp add: faithful_prior_def)
qed

text \<open>
  Reusing a recorded fingerprint changes nothing but the cost: when the digest is injective and the
  recorded fingerprint claims a formatted digest only where \<open>HashBytes\<close> gave it that one, \<open>HashFileReusing\<close>
  returns what \<open>HashFile\<close> returns on the same reads.
\<close>

theorem HashFileReusing_same:
  assumes "inj sha" and "FormatKind prior = ''gofmt'' \<Longrightarrow> prior = HashBytes sha gofmt e old"
  shows "HashFileReusing sha gofmt ext (chunked bs b) prior = HashFile sha gofmt ext (chunked bs b)"
proof -
  obtain s where s: "hash_reads (hash_init (ext = ''.go'')) (chunked bs b) = Some (Inr s)"
    "hash_after (ext = ''.go'') (concat bs @ b) s"
    using hash_reads_chunked by blast
  note reuse = finish_hash_reuse [OF s(2) faithful_prior_HashBytes [OF assms]]
  show ?thesis using s(1) by (simp add: HashFileReusing_def HashFile_def hashFile_def reuse)
qed

theorem HashFileReusing_same_witness:
  "HashFileReusing (\<lambda>x. x) Some ''.go'' (chunked [''a''] ''b'') (HashBytes (\<lambda>x. x) Some ''.go'' ''ab'') =
   HashFile (\<lambda>x. x) Some ''.go'' (chunked [''a''] ''b'')"
  by (rule HashFileReusing_same [of "\<lambda>x. x" _ Some "''.go''" "''ab''"]) simp_all

end
