(* ===== verification/Baseline_State.thy ===== *)
theory Baseline_State
  imports Baseline_Hash Budget_Policy "HOL-Library.AList"
begin

text \<open>
  The Baseline document (\<open>internal/baseline/baseline.go\<close>): its data, its validation, the database binding set inside
  it, exact encoding, saving and loading. A Go map is an association list in iteration order, which Go leaves open; keys are
  distinct, and a nil map, which only a document built by hand can hold, is not told from an empty one. The JSON codec (\<open>encode\<close>, \<open>decode\<close>), the digest \<open>sha\<close> and the clock are arguments. An operation that changes
  the document it is given returns the changed document also next to an error.
\<close>

section \<open>Data\<close>

record ManagedScopeState =
  msVersion :: string
  msPolicyIdentity :: string
  msObserveChangePolicy :: string
  msBudgetPolicyIdentity :: string
  msBudgetPolicy :: "BudgetPolicy option"
  msApplyAuthorizationMode :: string
  msHighRiskApprovalDigest :: string

record DatabaseCognitionBinding =
  ObjectRef :: string
  SourceID :: string
  EvidenceVersion :: string
  TableEvidenceSHA256 :: string
  EntrySHA256 :: string

record DatabaseCognitionBindings =
  dbVersion :: string
  dbEntries :: "DatabaseCognitionBinding list"

type_synonym fingerprints = "(string \<times> Fingerprint) list"

record Baseline =
  blVersion :: int
  blCreatedAt :: string
  blUpdatedAt :: string
  blFiles :: fingerprints
  blManagedScope :: "ManagedScopeState option"
  blDatabaseCognition :: "DatabaseCognitionBindings option"

definition DatabaseCognitionBindingVersion :: string where
  "DatabaseCognitionBindingVersion = ''database-cognition-binding/v1''"

definition ManagedScopeBaselineV1 :: string where
  "ManagedScopeBaselineV1 = ''managed-scope-baseline/v1''"

datatype baseline_error =
    BaselineNil
  | BaselineIncomplete
  | BindingVersionUnsupported string
  | BindingInvalid string
  | BindingUnavailable
  | BindingMissing
  | RoleInvalid string
  | ManagedScopeIncomplete
  | BudgetBindingInvalid

definition NewBaseline :: "string \<Rightarrow> fingerprints \<Rightarrow> Baseline" where
  "NewBaseline now files =
     \<lparr>blVersion = 1, blCreatedAt = now, blUpdatedAt = now, blFiles = files, blManagedScope = None, blDatabaseCognition = None\<rparr>"

section \<open>Validation\<close>

definition validBaselineSHA256 :: "string \<Rightarrow> bool" where
  "validBaselineSHA256 v \<longleftrightarrow> length v = 64 \<and> trim_chars v ''0123456789abcdef'' = []"

definition EffectiveRole :: "Fingerprint \<Rightarrow> string" where
  "EffectiveRole f = (if fpRole f = [] then ''index'' else fpRole f)"

definition validObjectRef :: "DatabaseCognitionBinding \<Rightarrow> bool" where
  "validObjectRef b =
     (let parts = str_split (trim_prefix (ObjectRef b) ''database://'') slash in
      has_prefix (ObjectRef b) ''database://'' \<and> length parts = 3 \<and> parts ! 0 = SourceID b \<and>
      parts ! 0 \<noteq> [] \<and> parts ! 1 \<noteq> [] \<and> parts ! 2 \<noteq> [])"

definition valid_binding :: "DatabaseCognitionBinding \<Rightarrow> bool" where
  "valid_binding b \<longleftrightarrow>
     validObjectRef b \<and> SourceID b \<noteq> [] \<and> EvidenceVersion b \<noteq> [] \<and>
     validBaselineSHA256 (TableEvidenceSHA256 b) \<and> validBaselineSHA256 (EntrySHA256 b)"

fun validate_bindings :: "string \<Rightarrow> DatabaseCognitionBinding list \<Rightarrow> baseline_error option" where
  "validate_bindings previous [] = None"
| "validate_bindings previous (b # bs) =
     (if str_le (ObjectRef b) previous \<or> \<not> valid_binding b then Some (BindingInvalid (ObjectRef b))
      else validate_bindings (ObjectRef b) bs)"

definition validateDatabaseCognitionBindings :: "DatabaseCognitionBindings option \<Rightarrow> baseline_error option" where
  "validateDatabaseCognitionBindings bindings =
     (case bindings of
        None \<Rightarrow> None
      | Some bs \<Rightarrow>
          if dbVersion bs \<noteq> DatabaseCognitionBindingVersion then Some (BindingVersionUnsupported (dbVersion bs))
          else validate_bindings [] (dbEntries bs))"

definition binding_le :: "DatabaseCognitionBinding \<Rightarrow> DatabaseCognitionBinding \<Rightarrow> bool" where
  "binding_le a b \<longleftrightarrow> str_le (ObjectRef a) (ObjectRef b)"

definition normalizeDatabaseCognitionBindings ::
  "DatabaseCognitionBindings option \<Rightarrow> DatabaseCognitionBindings option \<times> baseline_error option" where
  "normalizeDatabaseCognitionBindings bindings =
     (case bindings of
        None \<Rightarrow> (None, None)
      | Some bs \<Rightarrow>
          let sorted = Some (bs\<lparr>dbEntries := sort_by binding_le (dbEntries bs)\<rparr>) in
          (sorted, validateDatabaseCognitionBindings sorted))"

fun validate_roles :: "fingerprints \<Rightarrow> baseline_error option" where
  "validate_roles [] = None"
| "validate_roles ((path, f) # fs) =
     (if EffectiveRole f \<noteq> ''index'' \<and> EffectiveRole f \<noteq> ''observe'' then Some (RoleInvalid path) else validate_roles fs)"

definition validateManagedScope :: "(BudgetPolicy \<Rightarrow> string) \<Rightarrow> (string \<Rightarrow> string) \<Rightarrow> Baseline \<Rightarrow> baseline_error option" where
  "validateManagedScope json sha b =
     (case validate_roles (blFiles b) of
        Some e \<Rightarrow> Some e
      | None \<Rightarrow>
          (case blManagedScope b of
             None \<Rightarrow> None
           | Some st \<Rightarrow>
               if msVersion st \<noteq> ManagedScopeBaselineV1 \<or> \<not> validBaselineSHA256 (msPolicyIdentity st) \<or>
                  (msBudgetPolicyIdentity st \<noteq> [] \<and> \<not> validBaselineSHA256 (msBudgetPolicyIdentity st)) \<or>
                  (msHighRiskApprovalDigest st \<noteq> [] \<and> \<not> validBaselineSHA256 (msHighRiskApprovalDigest st)) \<or>
                  (msObserveChangePolicy st \<noteq> ''review_required'' \<and> msObserveChangePolicy st \<noteq> ''informational'')
               then Some ManagedScopeIncomplete
               else case msBudgetPolicy st of
                 None \<Rightarrow> None
               | Some p \<Rightarrow>
                   if budget_Identity json sha p = Inr (msBudgetPolicyIdentity st) then None else Some BudgetBindingInvalid))"

section \<open>The binding set\<close>

definition FindDatabaseCognitionBinding :: "Baseline option \<Rightarrow> string \<Rightarrow> DatabaseCognitionBinding option" where
  "FindDatabaseCognitionBinding ob ref =
     (case ob of
        None \<Rightarrow> None
      | Some b \<Rightarrow>
          (case blDatabaseCognition b of
             None \<Rightarrow> None
           | Some bs \<Rightarrow> find (\<lambda>x. ObjectRef x = ref) (dbEntries bs)))"

text \<open>The loop replaces the first entry with the reference; \<open>None\<close> when there is none.\<close>

fun replace_binding :: "DatabaseCognitionBinding \<Rightarrow> DatabaseCognitionBinding list \<Rightarrow> DatabaseCognitionBinding list option" where
  "replace_binding x [] = None"
| "replace_binding x (y # ys) =
     (if ObjectRef y = ObjectRef x then Some (x # ys) else map_option ((#) y) (replace_binding x ys))"

definition UpdateDatabaseCognitionBinding :: "Baseline \<Rightarrow> DatabaseCognitionBinding \<Rightarrow> Baseline \<times> baseline_error option" where
  "UpdateDatabaseCognitionBinding b x =
     (let bs = (case blDatabaseCognition b of
                  None \<Rightarrow> \<lparr>dbVersion = DatabaseCognitionBindingVersion, dbEntries = []\<rparr>
                | Some bs \<Rightarrow> bs);
          es = (case replace_binding x (dbEntries bs) of Some es \<Rightarrow> es | None \<Rightarrow> dbEntries bs @ [x]);
          (bs', err) = normalizeDatabaseCognitionBindings (Some (bs\<lparr>dbEntries := es\<rparr>)) in
      (b\<lparr>blDatabaseCognition := bs'\<rparr>, err))"

definition RemoveDatabaseCognitionBinding :: "Baseline \<Rightarrow> string \<Rightarrow> Baseline \<times> baseline_error option" where
  "RemoveDatabaseCognitionBinding b ref =
     (case blDatabaseCognition b of
        None \<Rightarrow> (b, Some BindingUnavailable)
      | Some bs \<Rightarrow>
          if \<not> list_ex (\<lambda>x. ObjectRef x = ref) (dbEntries bs) then (b, Some BindingMissing)
          else
            let (bs', err) = normalizeDatabaseCognitionBindings (Some (bs\<lparr>dbEntries := filter (\<lambda>x. ObjectRef x \<noteq> ref) (dbEntries bs)\<rparr>)) in
            (b\<lparr>blDatabaseCognition := bs'\<rparr>, err))"

section \<open>Encoding, saving, loading\<close>

definition MarshalExact ::
  "(Baseline \<Rightarrow> string) \<Rightarrow> (BudgetPolicy \<Rightarrow> string) \<Rightarrow> (string \<Rightarrow> string) \<Rightarrow> Baseline \<Rightarrow> Baseline \<times> (baseline_error, string) result" where
  "MarshalExact encode json sha b =
     (if blVersion b \<noteq> 1 \<or> trim_space (blCreatedAt b) = [] \<or> trim_space (blUpdatedAt b) = [] then (b, Inl BaselineIncomplete)
      else
        let (bs, err) = normalizeDatabaseCognitionBindings (blDatabaseCognition b); b' = b\<lparr>blDatabaseCognition := bs\<rparr> in
        case err of
          Some e \<Rightarrow> (b', Inl e)
        | None \<Rightarrow>
            (case validateManagedScope json sha b' of
               Some e \<Rightarrow> (b', Inl e)
             | None \<Rightarrow> (b', Inr (encode b' @ [LF]))))"

datatype save_error = SaveInvalid baseline_error | SaveMkdirFailed | SaveBackupFailed | SaveWriteFailed

definition baselinePath :: "string \<Rightarrow> string" where
  "baselinePath root = path_join2 root ''.aoci/baseline.json''"

text \<open>
  \<open>SaveUnderIndexLock\<close> on the files of a host: \<open>mkdirOk\<close>, \<open>bakOk\<close> and \<open>writeOk\<close> say whether creating the directory
  and the two atomic writes succeed; a write that fails leaves its target alone. The old Baseline is backed up when it can
  be read.
\<close>

definition SaveUnderIndexLock ::
  "(Baseline \<Rightarrow> string) \<Rightarrow> (BudgetPolicy \<Rightarrow> string) \<Rightarrow> (string \<Rightarrow> string) \<Rightarrow> string \<Rightarrow> bool \<Rightarrow> bool \<Rightarrow> bool \<Rightarrow>
   (string \<rightharpoonup> string) \<Rightarrow> string \<Rightarrow> Baseline \<Rightarrow> (string \<rightharpoonup> string) \<times> Baseline \<times> save_error option" where
  "SaveUnderIndexLock encode json sha now mkdirOk bakOk writeOk files root b0 =
     (let (bs, err) = normalizeDatabaseCognitionBindings (blDatabaseCognition b0); b = b0\<lparr>blDatabaseCognition := bs\<rparr>; path = baselinePath root in
      case err of
        Some e \<Rightarrow> (files, b, Some (SaveInvalid e))
      | None \<Rightarrow>
          if \<not> mkdirOk then (files, b, Some SaveMkdirFailed)
          else
            case (case files path of
                    None \<Rightarrow> Some files
                  | Some old \<Rightarrow> if bakOk then Some (files(path @ ''.bak'' \<mapsto> old)) else None) of
              None \<Rightarrow> (files, b, Some SaveBackupFailed)
            | Some files1 \<Rightarrow>
                (case MarshalExact encode json sha (b\<lparr>blUpdatedAt := now\<rparr>) of
                   (b', Inl e) \<Rightarrow> (files1, b', Some (SaveInvalid e))
                 | (b', Inr data) \<Rightarrow>
                     if writeOk then (files1(path \<mapsto> data), b', None) else (files1, b', Some SaveWriteFailed)))"

datatype load_result = LoadMissing | LoadReadFailed | LoadCorrupt | LoadInvalid baseline_error | LoadOk Baseline

text \<open>What the bytes of a Baseline file load as.\<close>

definition load_bytes :: "(string \<Rightarrow> Baseline option) \<Rightarrow> (BudgetPolicy \<Rightarrow> string) \<Rightarrow> (string \<Rightarrow> string) \<Rightarrow> string \<Rightarrow> load_result" where
  "load_bytes decode json sha data =
     (case decode data of
        None \<Rightarrow> LoadCorrupt
      | Some b \<Rightarrow>
          (case validateDatabaseCognitionBindings (blDatabaseCognition b) of
             Some e \<Rightarrow> LoadInvalid e
           | None \<Rightarrow>
               (case validateManagedScope json sha b of
                  Some e \<Rightarrow> LoadInvalid e
                | None \<Rightarrow> LoadOk b)))"

definition UpdateOne :: "Baseline \<Rightarrow> string \<Rightarrow> Fingerprint \<Rightarrow> Baseline" where
  "UpdateOne b rel f = b\<lparr>blFiles := AList.update rel f (blFiles b)\<rparr>"

end
