(* ===== verification/Baseline_State_Laws.thy ===== *)
theory Baseline_State_Laws
  imports Baseline_State
begin

text \<open>
  The database binding set is a keyed store in canonical order; what \<open>Save\<close> writes \<open>Load\<close> reads back.
\<close>

section \<open>Keyed stores\<close>

text \<open>
  A store in which each key has at most one value and every content has one representation: what a client may rely on when it
  puts and deletes values.
\<close>

locale keyed_store =
  fixes wf :: "'s \<Rightarrow> bool" and ok :: "'v \<Rightarrow> bool" and key :: "'v \<Rightarrow> 'k"
    and get :: "'s \<Rightarrow> 'k \<Rightarrow> 'v option" and put :: "'s \<Rightarrow> 'v \<Rightarrow> 's option" and del :: "'s \<Rightarrow> 'k \<Rightarrow> 's option"
  assumes put_accepts: "wf s \<Longrightarrow> put s v \<noteq> None \<longleftrightarrow> ok v"
    and put_wf: "wf s \<Longrightarrow> put s v = Some s' \<Longrightarrow> wf s'"
    and get_put: "wf s \<Longrightarrow> put s v = Some s' \<Longrightarrow> get s' k = (if k = key v then Some v else get s k)"
    and del_accepts: "wf s \<Longrightarrow> del s k \<noteq> None \<longleftrightarrow> get s k \<noteq> None"
    and del_wf: "wf s \<Longrightarrow> del s k = Some s' \<Longrightarrow> wf s'"
    and get_del: "wf s \<Longrightarrow> del s k = Some s' \<Longrightarrow> get s' k' = (if k' = k then None else get s k')"
    and canonical: "wf s \<Longrightarrow> wf s' \<Longrightarrow> get s = get s' \<Longrightarrow> s = s'"
begin

lemma put_last_wins:
  assumes "wf s" "put s v = Some s1" "put s1 w = Some s2" "key v = key w"
  shows "put s w = Some s2"
proof -
  have w1: "wf s1" by (rule put_wf [OF assms(1,2)])
  then have "ok w" using put_accepts [OF w1, of w] assms(3) by simp
  then obtain s3 where s3: "put s w = Some s3" using put_accepts [OF assms(1), of w] by auto
  have "get s3 = get s2"
    using get_put [OF assms(1) s3] get_put [OF w1 assms(3)] get_put [OF assms(1,2)] assms(4) by auto
  then show ?thesis using canonical [OF put_wf [OF assms(1) s3] put_wf [OF w1 assms(3)]] s3 by simp
qed

lemma put_commute:
  assumes "wf s" "put s v = Some s1" "put s1 w = Some s2" "key v \<noteq> key w"
  shows "\<exists>s3. put s w = Some s3 \<and> put s3 v = Some s2"
proof -
  have w1: "wf s1" by (rule put_wf [OF assms(1,2)])
  then have okw: "ok w" and okv: "ok v"
    using put_accepts [OF w1, of w] put_accepts [OF assms(1), of v] assms(2,3) by simp_all
  obtain s3 where s3: "put s w = Some s3" using okw put_accepts [OF assms(1), of w] by auto
  have w3: "wf s3" by (rule put_wf [OF assms(1) s3])
  obtain s4 where s4: "put s3 v = Some s4" using okv put_accepts [OF w3, of v] by auto
  have "get s4 = get s2"
    using get_put [OF assms(1) s3] get_put [OF w1 assms(3)] get_put [OF assms(1,2)] get_put [OF w3 s4] assms(4) by auto
  then have "s4 = s2" using canonical [OF put_wf [OF w3 s4] put_wf [OF w1 assms(3)]] by simp
  then show ?thesis using s3 s4 by blast
qed

lemma del_put:
  assumes "wf s" "get s (key v) = None" "put s v = Some s1"
  shows "del s1 (key v) = Some s"
proof -
  have w1: "wf s1" by (rule put_wf [OF assms(1,3)])
  have "get s1 (key v) = Some v" using get_put [OF assms(1,3)] by simp
  then obtain s2 where s2: "del s1 (key v) = Some s2" using del_accepts [OF w1, of "key v"] by auto
  have "get s2 = get s" using get_del [OF w1 s2] get_put [OF assms(1,3)] assms(2) by auto
  then have "s2 = s" using canonical [OF del_wf [OF w1 s2] assms(1)] by simp
  then show ?thesis using s2 by simp
qed

end

section \<open>The binding set\<close>

interpretation binding_order: total_preorder binding_le
  by unfold_locales (use str_le_total str_le_trans in \<open>auto simp: binding_le_def\<close>)

definition refs_sorted :: "DatabaseCognitionBinding list \<Rightarrow> bool" where
  "refs_sorted es \<longleftrightarrow> sorted_wrt (\<lambda>a b. str_less (ObjectRef a) (ObjectRef b)) es"

lemma validate_bindings_None:
  "validate_bindings previous es = None \<longleftrightarrow>
     list_all valid_binding es \<and> refs_sorted es \<and> (es \<noteq> [] \<longrightarrow> str_less previous (ObjectRef (hd es)))"
proof (induction es arbitrary: previous)
  case (Cons e es)
  have "str_less (ObjectRef e) (ObjectRef x)" if "x \<in> set es" "refs_sorted es" "str_less (ObjectRef e) (ObjectRef (hd es))" for x
  proof -
    have "x = hd es \<or> str_less (ObjectRef (hd es)) (ObjectRef x)"
      using that(1,2) by (cases es) (auto simp: refs_sorted_def)
    then show ?thesis using that(3) str_less_trans by blast
  qed
  then have "refs_sorted (e # es) \<longleftrightarrow> refs_sorted es \<and> (es \<noteq> [] \<longrightarrow> str_less (ObjectRef e) (ObjectRef (hd es)))"
    by (cases es) (auto simp: refs_sorted_def)
  then show ?case using Cons.IH [of "ObjectRef e"] by (auto simp: str_le_def)
qed (simp add: refs_sorted_def)

lemma validObjectRef_ne: "validObjectRef b \<Longrightarrow> str_less [] (ObjectRef b)"
  by (cases "ObjectRef b") (auto simp: validObjectRef_def Let_def has_prefix_def)

definition bindings_ok :: "DatabaseCognitionBindings \<Rightarrow> bool" where
  "bindings_ok bs \<longleftrightarrow> dbVersion bs = DatabaseCognitionBindingVersion \<and> list_all valid_binding (dbEntries bs) \<and> refs_sorted (dbEntries bs)"

lemma validate_ok: "validateDatabaseCognitionBindings (Some bs) = None \<longleftrightarrow> bindings_ok bs"
proof -
  have "str_less [] (ObjectRef (hd es))" if "list_all valid_binding es" "es \<noteq> []" for es
    using that by (intro validObjectRef_ne) (cases es, auto simp: valid_binding_def)
  then show ?thesis by (auto simp: validateDatabaseCognitionBindings_def bindings_ok_def validate_bindings_None)
qed

lemma refs_sorted_distinct: "refs_sorted es \<Longrightarrow> distinct (map ObjectRef es)"
  unfolding refs_sorted_def by (induction es) auto

lemma sort_refs: "distinct (map ObjectRef es) \<Longrightarrow> refs_sorted (sort_by binding_le es)"
proof -
  assume "distinct (map ObjectRef es)"
  then have d: "distinct (map ObjectRef (sort_by binding_le es))" by (metis mset_map mset_sort_by mset_eq_imp_distinct_iff)
  have "refs_sorted xs" if "sorted_wrt binding_le xs" "distinct (map ObjectRef xs)" for xs
    using that
  proof (induction xs)
    case (Cons x xs)
    have "str_less (ObjectRef x) (ObjectRef y)" if "y \<in> set xs" for y
      using Cons.prems that str_less_linear [of "ObjectRef x" "ObjectRef y"] by (auto simp: binding_le_def str_le_def image_iff)
    then show ?case using Cons by (simp add: refs_sorted_def)
  qed (simp add: refs_sorted_def)
  then show ?thesis using d binding_order.sort_by_sorted by blast
qed

lemma find_ref:
  assumes "distinct (map ObjectRef es)"
  shows "find (\<lambda>x. ObjectRef x = k) es = Some y \<longleftrightarrow> y \<in> set es \<and> ObjectRef y = k"
  using assms by (induction es) (auto simp: image_iff)

definition put_entries :: "DatabaseCognitionBinding \<Rightarrow> DatabaseCognitionBinding list \<Rightarrow> DatabaseCognitionBinding list" where
  "put_entries x es = (case replace_binding x es of Some es' \<Rightarrow> es' | None \<Rightarrow> es @ [x])"

lemma put_entries_simps:
  "put_entries x [] = [x]"
  "put_entries x (y # ys) = (if ObjectRef y = ObjectRef x then x # ys else y # put_entries x ys)"
  by (simp_all add: put_entries_def split: option.splits)

lemma put_entries_set:
  assumes "distinct (map ObjectRef es)"
  shows "set (put_entries x es) = insert x {y \<in> set es. ObjectRef y \<noteq> ObjectRef x}" "distinct (map ObjectRef (put_entries x es))"
proof -
  show "set (put_entries x es) = insert x {y \<in> set es. ObjectRef y \<noteq> ObjectRef x}"
    using assms by (induction es) (auto simp: put_entries_simps image_iff)
  have "set (map ObjectRef (put_entries x es)) = insert (ObjectRef x) (set (map ObjectRef es))" for es
    by (induction es) (auto simp: put_entries_simps)
  then show "distinct (map ObjectRef (put_entries x es))"
    using assms by (induction es) (auto simp: put_entries_simps)
qed

lemma normalize_ok:
  assumes "distinct (map ObjectRef (dbEntries bs))" "dbVersion bs = DatabaseCognitionBindingVersion"
  shows "normalizeDatabaseCognitionBindings (Some bs) = (Some (bs\<lparr>dbEntries := sort_by binding_le (dbEntries bs)\<rparr>), err) \<Longrightarrow>
    err = None \<longleftrightarrow> list_all valid_binding (dbEntries bs)"
  using sort_refs [OF assms(1)] assms(2) validate_ok [of "bs\<lparr>dbEntries := sort_by binding_le (dbEntries bs)\<rparr>"]
  by (auto simp: normalizeDatabaseCognitionBindings_def bindings_ok_def Let_def)

text \<open>The store seen from a Baseline document with an arbitrary rest.\<close>

definition with_bindings :: "Baseline \<Rightarrow> DatabaseCognitionBindings \<Rightarrow> Baseline" where
  "with_bindings b bs = b\<lparr>blDatabaseCognition := Some bs\<rparr>"

definition accepted :: "Baseline \<times> baseline_error option \<Rightarrow> DatabaseCognitionBindings option" where
  "accepted r = (case r of (b, None) \<Rightarrow> blDatabaseCognition b | (_, Some _) \<Rightarrow> None)"

lemma find_bindings: "FindDatabaseCognitionBinding (Some (with_bindings b bs)) k = find (\<lambda>x. ObjectRef x = k) (dbEntries bs)"
  by (simp add: FindDatabaseCognitionBinding_def with_bindings_def)

lemma update_bindings:
  assumes "bindings_ok bs"
  shows "accepted (UpdateDatabaseCognitionBinding (with_bindings b bs) x) =
    (if valid_binding x then Some (bs\<lparr>dbEntries := sort_by binding_le (put_entries x (dbEntries bs))\<rparr>) else None)"
proof -
  let ?es = "put_entries x (dbEntries bs)"
  have d: "distinct (map ObjectRef (dbEntries bs))" using assms refs_sorted_distinct by (simp add: bindings_ok_def)
  obtain err where n: "normalizeDatabaseCognitionBindings (Some (bs\<lparr>dbEntries := ?es\<rparr>)) =
      (Some (bs\<lparr>dbEntries := sort_by binding_le ?es\<rparr>), err)"
    by (simp add: normalizeDatabaseCognitionBindings_def Let_def)
  have "err = None \<longleftrightarrow> list_all valid_binding ?es"
    using normalize_ok [of "bs\<lparr>dbEntries := ?es\<rparr>" err] n put_entries_set(2) [OF d] assms by (simp add: bindings_ok_def)
  moreover have "list_all valid_binding ?es \<longleftrightarrow> valid_binding x"
    using assms put_entries_set(1) [OF d] by (auto simp: list_all_iff bindings_ok_def)
  ultimately show ?thesis using n
    by (cases err) (simp_all add: UpdateDatabaseCognitionBinding_def with_bindings_def accepted_def flip: put_entries_def)
qed

lemma remove_bindings:
  assumes "bindings_ok bs"
  shows "accepted (RemoveDatabaseCognitionBinding (with_bindings b bs) k) =
    (if find (\<lambda>x. ObjectRef x = k) (dbEntries bs) = None then None
     else Some (bs\<lparr>dbEntries := sort_by binding_le (filter (\<lambda>x. ObjectRef x \<noteq> k) (dbEntries bs))\<rparr>))"
proof -
  let ?es = "filter (\<lambda>x. ObjectRef x \<noteq> k) (dbEntries bs)"
  have d: "distinct (map ObjectRef ?es)"
    using assms refs_sorted_distinct by (auto simp: bindings_ok_def intro: distinct_map_filter)
  obtain err where n: "normalizeDatabaseCognitionBindings (Some (bs\<lparr>dbEntries := ?es\<rparr>)) =
      (Some (bs\<lparr>dbEntries := sort_by binding_le ?es\<rparr>), err)"
    by (simp add: normalizeDatabaseCognitionBindings_def Let_def)
  have "err = None"
    using normalize_ok [of "bs\<lparr>dbEntries := ?es\<rparr>" err] n d assms by (auto simp: bindings_ok_def list_all_iff)
  then show ?thesis using n
    by (auto simp: RemoveDatabaseCognitionBinding_def with_bindings_def accepted_def find_None_iff list_ex_iff)
qed

lemma filter_refs_sorted: "refs_sorted es \<Longrightarrow> sort_by binding_le (filter P es) = filter P es"
proof -
  assume "refs_sorted es"
  then have "sorted_wrt binding_le es" unfolding refs_sorted_def
    by (rule sorted_wrt_mono_rel [rotated]) (metis binding_le_def str_le_def str_less_irrefl str_less_trans)
  then show ?thesis by (intro binding_order.sort_by_id sorted_wrt_filter)
qed

lemma sorted_refs_unique: "refs_sorted xs \<Longrightarrow> refs_sorted ys \<Longrightarrow> set xs = set ys \<Longrightarrow> xs = ys"
proof (induction xs arbitrary: ys)
  case (Cons x xs)
  then obtain y ys' where ys: "ys = y # ys'" by (cases ys) auto
  have d: "distinct (map ObjectRef (x # xs))" "distinct (map ObjectRef ys)" using Cons.prems refs_sorted_distinct by blast+
  have "x = y"
  proof (rule ccontr)
    assume "x \<noteq> y"
    then have "str_less (ObjectRef y) (ObjectRef x)" "str_less (ObjectRef x) (ObjectRef y)"
      using Cons.prems ys by (auto simp: refs_sorted_def)
    then show False using str_less_trans str_less_irrefl by blast
  qed
  moreover have "set xs = set ys'"
  proof -
    have "x \<notin> set xs" "y \<notin> set ys'" using d ys by auto
    then show ?thesis using Cons.prems(3) ys \<open>x = y\<close> by auto
  qed
  ultimately show ?case using Cons ys by (auto simp: refs_sorted_def)
qed simp

definition binding_get :: "DatabaseCognitionBindings \<Rightarrow> string \<Rightarrow> DatabaseCognitionBinding option" where
  "binding_get bs k = FindDatabaseCognitionBinding (Some (with_bindings (NewBaseline [] []) bs)) k"

definition binding_put :: "DatabaseCognitionBindings \<Rightarrow> DatabaseCognitionBinding \<Rightarrow> DatabaseCognitionBindings option" where
  "binding_put bs x = accepted (UpdateDatabaseCognitionBinding (with_bindings (NewBaseline [] []) bs) x)"

definition binding_del :: "DatabaseCognitionBindings \<Rightarrow> string \<Rightarrow> DatabaseCognitionBindings option" where
  "binding_del bs k = accepted (RemoveDatabaseCognitionBinding (with_bindings (NewBaseline [] []) bs) k)"

lemma bindings_distinct: "bindings_ok bs \<Longrightarrow> distinct (map ObjectRef (dbEntries bs))"
  by (simp add: bindings_ok_def refs_sorted_distinct)

lemma find_ref_None: "find (\<lambda>x. ObjectRef x = k) es = None \<longleftrightarrow> (\<forall>x \<in> set es. ObjectRef x \<noteq> k)"
  by (auto simp: find_None_iff)

lemma find_ref_eq:
  assumes "distinct (map ObjectRef es)" "distinct (map ObjectRef es')"
    and "\<And>y. ObjectRef y = k \<Longrightarrow> y \<in> set es \<longleftrightarrow> y \<in> set es'"
  shows "find (\<lambda>x. ObjectRef x = k) es = find (\<lambda>x. ObjectRef x = k) es'"
proof (cases "find (\<lambda>x. ObjectRef x = k) es'")
  case None
  then have "find (\<lambda>x. ObjectRef x = k) es = None" using assms(3) unfolding find_ref_None by blast
  then show ?thesis using None by simp
next
  case (Some y)
  then have "y \<in> set es'" "ObjectRef y = k" using find_ref [OF assms(2)] by auto
  then have "find (\<lambda>x. ObjectRef x = k) es = Some y" using find_ref [OF assms(1)] assms(3) by blast
  then show ?thesis using Some by simp
qed

interpretation binding_store: keyed_store bindings_ok valid_binding ObjectRef binding_get binding_put binding_del
proof
  fix s s' :: DatabaseCognitionBindings and v :: DatabaseCognitionBinding and k k' :: string
  assume wf: "bindings_ok s"
  note d = bindings_distinct [OF wf]
  show "binding_put s v \<noteq> None \<longleftrightarrow> valid_binding v" by (simp add: binding_put_def update_bindings [OF wf])
  show "binding_del s k \<noteq> None \<longleftrightarrow> binding_get s k \<noteq> None"
    by (simp add: binding_del_def binding_get_def find_bindings remove_bindings [OF wf])
  {
    assume "binding_put s v = Some s'"
    then have v: "valid_binding v" and s': "s' = s\<lparr>dbEntries := sort_by binding_le (put_entries v (dbEntries s))\<rparr>"
      by (simp_all add: binding_put_def update_bindings [OF wf] split: if_splits)
    show ok: "bindings_ok s'"
      using wf v sort_refs [OF put_entries_set(2) [OF d]] put_entries_set(1) [OF d, of v] by (auto simp: bindings_ok_def s' list_all_iff)
    have in_s': "y \<in> set (dbEntries s') \<longleftrightarrow> y = v \<or> y \<in> set (dbEntries s) \<and> ObjectRef y \<noteq> ObjectRef v" for y
      using put_entries_set(1) [OF d, of v] by (auto simp: s')
    show "binding_get s' k = (if k = ObjectRef v then Some v else binding_get s k)"
    proof (cases "k = ObjectRef v")
      case True
      then show ?thesis using in_s' by (simp add: binding_get_def find_bindings find_ref [OF bindings_distinct [OF ok]])
    next
      case False
      then show ?thesis using find_ref_eq [OF bindings_distinct [OF ok] d, of k] in_s' by (auto simp: binding_get_def find_bindings)
    qed
  }
  {
    assume "binding_del s k = Some s'"
    then have s': "s' = s\<lparr>dbEntries := filter (\<lambda>x. ObjectRef x \<noteq> k) (dbEntries s)\<rparr>"
      using wf by (simp add: binding_del_def remove_bindings [OF wf] bindings_ok_def filter_refs_sorted split: if_splits)
    show ok: "bindings_ok s'" using wf by (auto simp: bindings_ok_def s' list_all_iff refs_sorted_def intro: sorted_wrt_filter)
    show "binding_get s' k' = (if k' = k then None else binding_get s k')"
    proof (cases "k' = k")
      case True
      then show ?thesis by (auto simp: binding_get_def find_bindings find_ref_None s')
    next
      case False
      then show ?thesis using find_ref_eq [OF bindings_distinct [OF ok] d, of k'] by (auto simp: binding_get_def find_bindings s')
    qed
  }
  {
    assume wf': "bindings_ok s'" and g: "binding_get s = binding_get s'"
    have "y \<in> set (dbEntries s) \<longleftrightarrow> y \<in> set (dbEntries s')" for y
      using fun_cong [OF g, of "ObjectRef y"] find_ref [OF d, of "ObjectRef y" y]
        find_ref [OF bindings_distinct [OF wf'], of "ObjectRef y" y] by (auto simp: binding_get_def find_bindings)
    then have "dbEntries s = dbEntries s'"
      using wf wf' sorted_refs_unique by (auto simp: bindings_ok_def)
    then show "s = s'" using wf wf' by (auto simp: bindings_ok_def intro: DatabaseCognitionBindings.equality)
  }
qed

text \<open>From the store back to the document it lives in.\<close>

lemma with_bindings_id: "blDatabaseCognition b = Some bs \<Longrightarrow> with_bindings b bs = b"
  by (simp add: with_bindings_def)

lemma find_binding_get: "blDatabaseCognition b = Some bs \<Longrightarrow> FindDatabaseCognitionBinding (Some b) k = binding_get bs k"
  by (simp add: binding_get_def FindDatabaseCognitionBinding_def with_bindings_def)

lemma update_frame: "fst (UpdateDatabaseCognitionBinding b x) = b\<lparr>blDatabaseCognition := blDatabaseCognition (fst (UpdateDatabaseCognitionBinding b x))\<rparr>"
  by (simp add: UpdateDatabaseCognitionBinding_def Let_def split: prod.splits)

lemma remove_frame: "fst (RemoveDatabaseCognitionBinding b k) = b\<lparr>blDatabaseCognition := blDatabaseCognition (fst (RemoveDatabaseCognitionBinding b k))\<rparr>"
  by (simp add: RemoveDatabaseCognitionBinding_def Let_def split: prod.splits option.splits)

lemma update_binding_put:
  assumes "blDatabaseCognition b = Some bs" "bindings_ok bs"
  shows "binding_put bs x = Some bs' \<longleftrightarrow> UpdateDatabaseCognitionBinding b x = (b\<lparr>blDatabaseCognition := Some bs'\<rparr>, None)"
proof -
  let ?r = "UpdateDatabaseCognitionBinding b x"
  have "binding_put bs x = accepted ?r"
    using update_bindings [OF assms(2), of b x] by (simp add: binding_put_def update_bindings [OF assms(2)] with_bindings_id [OF assms(1)])
  moreover have "accepted ?r = Some bs' \<longleftrightarrow> ?r = (b\<lparr>blDatabaseCognition := Some bs'\<rparr>, None)"
    using update_frame [of b x] by (cases ?r) (auto simp: accepted_def split: option.splits)
  ultimately show ?thesis by simp
qed

lemma remove_binding_del:
  assumes "blDatabaseCognition b = Some bs" "bindings_ok bs"
  shows "binding_del bs k = Some bs' \<longleftrightarrow> RemoveDatabaseCognitionBinding b k = (b\<lparr>blDatabaseCognition := Some bs'\<rparr>, None)"
proof -
  let ?r = "RemoveDatabaseCognitionBinding b k"
  have "binding_del bs k = accepted ?r"
    using remove_bindings [OF assms(2), of b k] by (simp add: binding_del_def remove_bindings [OF assms(2)] with_bindings_id [OF assms(1)])
  moreover have "accepted ?r = Some bs' \<longleftrightarrow> ?r = (b\<lparr>blDatabaseCognition := Some bs'\<rparr>, None)"
    using remove_frame [of b k] by (cases ?r) (auto simp: accepted_def split: option.splits)
  ultimately show ?thesis by simp
qed

text \<open>
  The database bindings of a Baseline behave as a keyed store: on a valid set an update is accepted
  exactly for a valid binding, afterwards the lookup finds it under its reference and every other reference as before, and the set is
  valid again; removing a reference that the update added gives the document of before, and two updates of different references
  commute to the same document.
\<close>

theorem database_bindings_store:
  assumes "blDatabaseCognition b = Some bs" "validateDatabaseCognitionBindings (Some bs) = None"
    and "valid_binding x" "valid_binding y" "ObjectRef x \<noteq> ObjectRef y"
  shows "\<exists>b'. UpdateDatabaseCognitionBinding b x = (b', None) \<and>
    validateDatabaseCognitionBindings (blDatabaseCognition b') = None \<and>
    (\<forall>k. FindDatabaseCognitionBinding (Some b') k = (if k = ObjectRef x then Some x else FindDatabaseCognitionBinding (Some b) k)) \<and>
    (FindDatabaseCognitionBinding (Some b) (ObjectRef x) = None \<longrightarrow> RemoveDatabaseCognitionBinding b' (ObjectRef x) = (b, None)) \<and>
    UpdateDatabaseCognitionBinding b' y = UpdateDatabaseCognitionBinding (fst (UpdateDatabaseCognitionBinding b y)) x"
proof -
  have wf: "bindings_ok bs" using assms(2) by (simp add: validate_ok)
  obtain bs1 where bs1: "binding_put bs x = Some bs1" using binding_store.put_accepts [OF wf, of x] assms(3) by auto
  let ?b1 = "b\<lparr>blDatabaseCognition := Some bs1\<rparr>"
  have wf1: "bindings_ok bs1" by (rule binding_store.put_wf [OF wf bs1])
  obtain bs2 where bs2: "binding_put bs1 y = Some bs2" using binding_store.put_accepts [OF wf1, of y] assms(4) by auto
  obtain bs3 where bs3: "binding_put bs y = Some bs3" "binding_put bs3 x = Some bs2"
    using binding_store.put_commute [OF wf bs1 bs2 assms(5)] by blast
  have wf3: "bindings_ok bs3" by (rule binding_store.put_wf [OF wf bs3(1)])
  have u1: "UpdateDatabaseCognitionBinding b x = (?b1, None)" using update_binding_put [OF assms(1) wf] bs1 by blast
  have u2: "UpdateDatabaseCognitionBinding ?b1 y = (b\<lparr>blDatabaseCognition := Some bs2\<rparr>, None)"
    using update_binding_put [of ?b1 bs1 y bs2] wf1 bs2 by simp
  have u3: "UpdateDatabaseCognitionBinding b y = (b\<lparr>blDatabaseCognition := Some bs3\<rparr>, None)"
    using update_binding_put [OF assms(1) wf] bs3(1) by blast
  have u4: "UpdateDatabaseCognitionBinding (b\<lparr>blDatabaseCognition := Some bs3\<rparr>) x = (b\<lparr>blDatabaseCognition := Some bs2\<rparr>, None)"
    using update_binding_put [of "b\<lparr>blDatabaseCognition := Some bs3\<rparr>" bs3 x bs2] wf3 bs3(2) by simp
  have find1: "FindDatabaseCognitionBinding (Some ?b1) k = (if k = ObjectRef x then Some x else FindDatabaseCognitionBinding (Some b) k)" for k
    using binding_store.get_put [OF wf bs1] by (simp add: find_binding_get [of ?b1 bs1] find_binding_get [OF assms(1)])
  have "b = b\<lparr>blDatabaseCognition := Some bs\<rparr>" using assms(1) by simp
  then have r: "RemoveDatabaseCognitionBinding ?b1 (ObjectRef x) = (b, None)" if "FindDatabaseCognitionBinding (Some b) (ObjectRef x) = None"
    using binding_store.del_put [OF wf _ bs1] that remove_binding_del [of ?b1 bs1 "ObjectRef x" bs] wf1
    by (simp add: find_binding_get [OF assms(1)])
  show ?thesis using u1 u2 u3 u4 find1 r validate_ok [of bs1] wf1 by simp
qed

definition sample_binding :: "string \<Rightarrow> DatabaseCognitionBinding" where
  "sample_binding t =
     \<lparr>ObjectRef = ''database://main/db/'' @ t, SourceID = ''main'', EvidenceVersion = ''v1'',
      TableEvidenceSHA256 = replicate 64 (CHR ''a''), EntrySHA256 = replicate 64 (CHR ''b'')\<rparr>"

theorem database_bindings_store_witness:
  "let b = (NewBaseline [] [])\<lparr>blDatabaseCognition := Some \<lparr>dbVersion = DatabaseCognitionBindingVersion, dbEntries = []\<rparr>\<rparr> in
   \<exists>b'. UpdateDatabaseCognitionBinding b (sample_binding ''t'') = (b', None) \<and>
     FindDatabaseCognitionBinding (Some b') ''database://main/db/t'' = Some (sample_binding ''t'')"
proof -
  define bs where "bs = \<lparr>dbVersion = DatabaseCognitionBindingVersion, dbEntries = []\<rparr>"
  define b where "b = (NewBaseline [] [])\<lparr>blDatabaseCognition := Some bs\<rparr>"
  have 1: "blDatabaseCognition b = Some bs" by (simp add: b_def)
  have 2: "validateDatabaseCognitionBindings (Some bs) = None" by (simp add: validateDatabaseCognitionBindings_def bs_def)
  have v: "valid_binding (sample_binding ''t'')" "valid_binding (sample_binding ''u'')" by code_simp+
  have n: "ObjectRef (sample_binding ''t'') \<noteq> ObjectRef (sample_binding ''u'')" by code_simp
  have r: "ObjectRef (sample_binding ''t'') = ''database://main/db/t''" by (simp add: sample_binding_def)
  from database_bindings_store [OF 1 2 v n] obtain b' where b': "UpdateDatabaseCognitionBinding b (sample_binding ''t'') = (b', None)"
    and f: "\<forall>k. FindDatabaseCognitionBinding (Some b') k = (if k = ObjectRef (sample_binding ''t'') then Some (sample_binding ''t'') else FindDatabaseCognitionBinding (Some b) k)"
    by blast
  have "FindDatabaseCognitionBinding (Some b') ''database://main/db/t'' = Some (sample_binding ''t'')" using f r by simp
  then show ?thesis using b' by (auto simp: Let_def b_def bs_def)
qed

section \<open>Saving and loading\<close>

lemma MarshalExact_ok:
  assumes "MarshalExact encode json sha b = (b', Inr data)"
  shows "data = encode b' @ [LF] \<and> validateDatabaseCognitionBindings (blDatabaseCognition b') = None \<and>
    validateManagedScope json sha b' = None \<and> b' = b\<lparr>blDatabaseCognition := blDatabaseCognition b'\<rparr>"
  using assms
  by (auto simp: MarshalExact_def normalizeDatabaseCognitionBindings_def Let_def validateDatabaseCognitionBindings_def
      split: if_splits prod.splits option.splits)

text \<open>
  \<^bold>\<open>C26\<close>. What \<open>Save\<close> writes \<open>Load\<close> reads back: when the codec decodes what it encoded of the document, a save that
  reports no error leaves a Baseline file that loads as the saved document, with the same files, the given update time and
  valid bindings, keeps the previous Baseline as the backup and changes no other file. A save that reports an error leaves the
  Baseline file as it was.
\<close>

theorem Save_Load:
  assumes "decode (encode b' @ [LF]) = Some b'"
    and "SaveUnderIndexLock encode json sha now mkdirOk bakOk writeOk files root b = (files', b', err)"
  shows "(case err of
      Some _ \<Rightarrow> files' (baselinePath root) = files (baselinePath root)
    | None \<Rightarrow> map_option (load_bytes decode json sha) (files' (baselinePath root)) = Some (LoadOk b') \<and>
        blFiles b' = blFiles b \<and> blUpdatedAt b' = now \<and>
        (files (baselinePath root) \<noteq> None \<longrightarrow> files' (baselinePath root @ ''.bak'') = files (baselinePath root))) \<and>
    (\<forall>p. p \<noteq> baselinePath root \<longrightarrow> p \<noteq> baselinePath root @ ''.bak'' \<longrightarrow> files' p = files p)"
proof -
  let ?path = "baselinePath root"
  obtain bs e0 where n: "normalizeDatabaseCognitionBindings (blDatabaseCognition b) = (bs, e0)" by (cases "normalizeDatabaseCognitionBindings (blDatabaseCognition b)") simp
  let ?b = "b\<lparr>blDatabaseCognition := bs\<rparr>"
  define files1 where "files1 = (case files ?path of None \<Rightarrow> files | Some old \<Rightarrow> files(?path @ ''.bak'' \<mapsto> old))"
  have keep: "files1 ?path = files ?path" "\<And>p. p \<noteq> ?path @ ''.bak'' \<Longrightarrow> files1 p = files p"
    "files ?path \<noteq> None \<Longrightarrow> files1 (?path @ ''.bak'') = files ?path"
    by (auto simp: files1_def split: option.splits)
  obtain b2 res where m: "MarshalExact encode json sha (?b\<lparr>blUpdatedAt := now\<rparr>) = (b2, res)" by (cases "MarshalExact encode json sha (?b\<lparr>blUpdatedAt := now\<rparr>)") simp
  have out: "e0 \<noteq> None \<and> (files', err \<noteq> None) = (files, True) \<or>
      e0 = None \<and> (\<not> mkdirOk \<or> files ?path \<noteq> None \<and> \<not> bakOk) \<and> (files', err \<noteq> None) = (files, True) \<or>
      (files', err \<noteq> None) = (files1, True) \<or>
      (\<exists>data. res = Inr data \<and> files' = files1(?path \<mapsto> data) \<and> b' = b2 \<and> err = None)"
    using assms(2) n m by (auto simp: SaveUnderIndexLock_def files1_def Let_def split: option.splits if_splits sum.splits)
  show ?thesis
  proof (cases err)
    case None
    then obtain data where data: "res = Inr data" "files' = files1(?path \<mapsto> data)" "b' = b2" using out by auto
    have ok: "data = encode b2 @ [LF]" "validateDatabaseCognitionBindings (blDatabaseCognition b2) = None" "validateManagedScope json sha b2 = None"
      and fr: "b2 = (?b\<lparr>blUpdatedAt := now\<rparr>)\<lparr>blDatabaseCognition := blDatabaseCognition b2\<rparr>"
      using MarshalExact_ok [of encode json sha "?b\<lparr>blUpdatedAt := now\<rparr>" b2 data] m data(1) by auto
    have "load_bytes decode json sha data = LoadOk b2" using ok assms(1) data(3) by (simp add: load_bytes_def)
    moreover have "blFiles b2 = blFiles b" "blUpdatedAt b2 = now" by (subst fr, simp)+
    ultimately show ?thesis using None data keep by simp
  next
    case (Some e)
    then have "files' = files \<or> files' = files1" using out by auto
    then show ?thesis using Some keep by auto
  qed
qed

theorem Save_Load_witness:
  "let b = NewBaseline ''t'' []; (files', b', err) = SaveUnderIndexLock (\<lambda>_. []) (\<lambda>_. []) id ''t'' True True True Map.empty ''/r'' b in
   err = None \<and> map_option (load_bytes (\<lambda>_. Some b) (\<lambda>_. []) id) (files' (baselinePath ''/r'')) = Some (LoadOk b)"
proof -
  let ?b = "NewBaseline ''t'' []" and ?files' = "[baselinePath ''/r'' \<mapsto> [LF]]"
  have t: "trim_space ''t'' = ''t''" by code_simp
  have s: "SaveUnderIndexLock (\<lambda>_. []) (\<lambda>_. []) id ''t'' True True True Map.empty ''/r'' ?b = (?files', ?b, None)"
    by (simp add: SaveUnderIndexLock_def MarshalExact_def NewBaseline_def normalizeDatabaseCognitionBindings_def
        validateManagedScope_def t)
  from Save_Load [of "\<lambda>_. Some ?b" "\<lambda>_. []" ?b, OF _ s] show ?thesis using s by simp
qed

end
