(* ===== verification/Baseline_Detect.thy ===== *)
theory Baseline_Detect
  imports Baseline_State Fs_Safety Index_Resolve
begin

text \<open>
  Drift between index, disk and Baseline (\<open>internal/baseline/detect.go\<close>, \<open>scope_detect.go\<close>): the four raw states, the
  line-end information, and the separation of formal and observed drift under a Managed Scope. A Go map is ranged over in the
  order of its list; the sorted results do not depend on it. What \<open>os.Stat\<close> answers for a directory is the argument \<open>isDir\<close>,
  lower-casing outside ASCII is \<open>uni\<close>.
\<close>

section \<open>Data\<close>

record DetectResult =
  Missing :: "string list"
  Orphan :: "string list"
  Stale :: "string list"
  Unbaselined :: "string list"
  LineEndingOnly :: "string list"
  ObservedNew :: "string list"
  ObservedChanged :: "string list"
  ObservedRemoved :: "string list"

definition empty_result :: DetectResult where
  "empty_result =
     \<lparr>Missing = [], Orphan = [], Stale = [], Unbaselined = [], LineEndingOnly = [], ObservedNew = [], ObservedChanged = [],
      ObservedRemoved = []\<rparr>"

section \<open>The index side\<close>

definition isExcludedRel :: "(rune \<Rightarrow> rune) \<Rightarrow> string \<Rightarrow> WalkOptions \<Rightarrow> bool" where
  "isExcludedRel uni path opt =
     (if fst (BuiltInSafetyCategory uni path (SensitiveNameRules opt)) \<noteq> [] then True
      else
        let clean = trim_suffix path slash;
            parts = str_split clean slash;
            directories = (if has_suffix path slash then parts else butlast parts) in
        if ''.aoci'' \<in> set directories then True
        else if ConfiguredExclusionSource path
             \<lparr>ExcludeDirs = ExcludeDirs opt, ExcludeRootDirs = ExcludeRootDirs opt, ExcludeFiles = [], HighRiskOptIn = [],
              IncludeIgnoredCandidates = False, SensitiveNameRules = []\<rparr> \<noteq> None
        then True
        else MatchExcludePattern clean (ExcludeFiles opt))"

definition indexed_paths :: "(rune \<Rightarrow> rune) \<Rightarrow> Document \<Rightarrow> WalkOptions \<Rightarrow> string list" where
  "indexed_paths uni doc opt = filter (\<lambda>path. path \<noteq> [] \<and> \<not> isExcludedRel uni path opt) (map RelPath (all_entries doc))"

definition indexFiles :: "(rune \<Rightarrow> rune) \<Rightarrow> Document \<Rightarrow> WalkOptions \<Rightarrow> string list" where
  "indexFiles uni doc opt = remdups (filter (\<lambda>path. \<not> has_suffix path slash) (indexed_paths uni doc opt))"

definition indexDirectories :: "(rune \<Rightarrow> rune) \<Rightarrow> Document \<Rightarrow> WalkOptions \<Rightarrow> string list" where
  "indexDirectories uni doc opt = filter (\<lambda>path. has_suffix path slash) (indexed_paths uni doc opt)"

section \<open>The four states\<close>

definition baseline_fingerprint :: "Baseline option \<Rightarrow> string \<Rightarrow> Fingerprint option" where
  "baseline_fingerprint ob path = (case ob of None \<Rightarrow> None | Some b \<Rightarrow> map_of (blFiles b) path)"

text \<open>One round of the loop over the indexed files.\<close>

definition classify_file :: "Baseline option \<Rightarrow> fingerprints \<Rightarrow> bool \<Rightarrow> DetectResult \<Rightarrow> string \<Rightarrow> DetectResult" where
  "classify_file ob snapshot tolerate r path =
     (case map_of snapshot path of
        None \<Rightarrow> r\<lparr>Orphan := Orphan r @ [path]\<rparr>
      | Some current \<Rightarrow>
          (case baseline_fingerprint ob path of
             None \<Rightarrow> r\<lparr>Unbaselined := Unbaselined r @ [path]\<rparr>
           | Some before \<Rightarrow>
               let (equal, lineEndingOnly) = EquivalentFingerprints before current tolerate in
               if equal then (if lineEndingOnly then r\<lparr>LineEndingOnly := LineEndingOnly r @ [path]\<rparr> else r)
               else r\<lparr>Stale := Stale r @ [path]\<rparr>))"

definition DetectWith ::
  "(rune \<Rightarrow> rune) \<Rightarrow> (string \<Rightarrow> bool) \<Rightarrow> Document \<Rightarrow> Baseline option \<Rightarrow> fingerprints \<Rightarrow> WalkOptions \<Rightarrow> bool \<Rightarrow> DetectResult" where
  "DetectWith uni isDir doc ob snapshot opt tolerate =
     (let files = indexFiles uni doc opt;
          r0 = empty_result\<lparr>Missing := filter (\<lambda>path. path \<notin> set files) (map fst snapshot)\<rparr>;
          r1 = foldl (classify_file ob snapshot tolerate) r0 files;
          r2 = r1\<lparr>Orphan := Orphan r1 @ filter (\<lambda>d. \<not> isDir (trim_suffix d slash)) (indexDirectories uni doc opt)\<rparr> in
      r2\<lparr>Missing := sort_strings (Missing r2), Orphan := sort_strings (Orphan r2), Stale := sort_strings (Stale r2),
         Unbaselined := sort_strings (Unbaselined r2), LineEndingOnly := sort_strings (LineEndingOnly r2)\<rparr>)"

definition Detect :: "(rune \<Rightarrow> rune) \<Rightarrow> (string \<Rightarrow> bool) \<Rightarrow> Document \<Rightarrow> Baseline option \<Rightarrow> fingerprints \<Rightarrow> WalkOptions \<Rightarrow> DetectResult" where
  "Detect uni isDir doc ob snapshot opt = DetectWith uni isDir doc ob snapshot opt False"

text \<open>The quick check of one file: \<open>hashed\<close> is what \<open>HashFile\<close> returns for it; \<open>(stale, unbaselined, lineEndingOnly)\<close>.\<close>

definition IsStaleFileWith :: "string \<Rightarrow> Baseline option \<Rightarrow> bool \<Rightarrow> (unit + Fingerprint) \<Rightarrow> bool \<times> bool \<times> bool" where
  "IsStaleFileWith path ob tolerate hashed =
     (case baseline_fingerprint ob path of
        None \<Rightarrow> (False, True, False)
      | Some before \<Rightarrow>
          (case hashed of
             Inl _ \<Rightarrow> (False, False, False)
           | Inr current \<Rightarrow>
               let (equal, lineEndingOnly) = EquivalentFingerprints before current tolerate in (\<not> equal, False, lineEndingOnly)))"

definition IsStaleFile :: "string \<Rightarrow> Baseline option \<Rightarrow> (unit + Fingerprint) \<Rightarrow> bool \<times> bool" where
  "IsStaleFile path ob hashed = (let (stale, unbaselined, _) = IsStaleFileWith path ob False hashed in (stale, unbaselined))"

section \<open>Managed Scope\<close>

definition sortedUnique :: "string list \<Rightarrow> string list" where
  "sortedUnique values = uniq_adj (sort_strings values)"

text \<open>One round of the loop over the snapshot.\<close>

definition scope_current :: "string list \<Rightarrow> Baseline option \<Rightarrow> bool \<Rightarrow> DetectResult \<Rightarrow> string \<times> Fingerprint \<Rightarrow> DetectResult" where
  "scope_current files ob tolerate r item =
     (case item of (path, current) \<Rightarrow>
        let before = baseline_fingerprint ob path in
        if EffectiveRole current = ''index'' then
          let r1 = (if path \<notin> set files then r\<lparr>Missing := Missing r @ [path]\<rparr> else r) in
          (case before of
             Some b \<Rightarrow>
               if EffectiveRole b \<noteq> ''index'' then r1\<lparr>Unbaselined := Unbaselined r1 @ [path]\<rparr>
               else
                 let (equal, lineEndingOnly) = EquivalentFingerprints b current tolerate in
                 if \<not> equal then r1\<lparr>Stale := Stale r1 @ [path]\<rparr>
                 else if lineEndingOnly then r1\<lparr>LineEndingOnly := LineEndingOnly r1 @ [path]\<rparr>
                 else r1
           | None \<Rightarrow> r1\<lparr>Unbaselined := Unbaselined r1 @ [path]\<rparr>)
        else if EffectiveRole current = ''observe'' then
          let r1 = (if path \<in> set files then r\<lparr>Orphan := Orphan r @ [path]\<rparr> else r) in
          (case before of
             Some b \<Rightarrow>
               if EffectiveRole b \<noteq> ''observe'' then r1\<lparr>ObservedNew := ObservedNew r1 @ [path]\<rparr>
               else if \<not> fst (EquivalentFingerprints b current tolerate) then r1\<lparr>ObservedChanged := ObservedChanged r1 @ [path]\<rparr>
               else r1
           | None \<Rightarrow> r1\<lparr>ObservedNew := ObservedNew r1 @ [path]\<rparr>)
        else r)"

definition scope_before :: "string list \<Rightarrow> fingerprints \<Rightarrow> DetectResult \<Rightarrow> string \<times> Fingerprint \<Rightarrow> DetectResult" where
  "scope_before files snapshot r item =
     (case item of (path, before) \<Rightarrow>
        if map_of snapshot path \<noteq> None then r
        else if EffectiveRole before = ''observe'' then r\<lparr>ObservedRemoved := ObservedRemoved r @ [path]\<rparr>
        else if path \<in> set files then r\<lparr>Orphan := Orphan r @ [path]\<rparr>
        else r)"

definition DetectManagedScope ::
  "(rune \<Rightarrow> rune) \<Rightarrow> (string \<Rightarrow> bool) \<Rightarrow> Document \<Rightarrow> Baseline option \<Rightarrow> fingerprints \<Rightarrow> WalkOptions \<Rightarrow> bool \<Rightarrow> DetectResult" where
  "DetectManagedScope uni isDir doc ob snapshot opt tolerate =
     (let files = indexFiles uni doc opt;
          r1 = foldl (scope_current files ob tolerate) empty_result snapshot;
          r2 = (case ob of None \<Rightarrow> r1 | Some b \<Rightarrow> foldl (scope_before files snapshot) r1 (blFiles b));
          r3 = r2\<lparr>Orphan := Orphan r2 @ filter (\<lambda>path. map_of snapshot path = None) files @
                  filter (\<lambda>d. \<not> isDir (trim_suffix d slash)) (indexDirectories uni doc opt)\<rparr> in
      \<lparr>Missing = sortedUnique (Missing r3), Orphan = sortedUnique (Orphan r3), Stale = sortedUnique (Stale r3),
       Unbaselined = sortedUnique (Unbaselined r3), LineEndingOnly = sortedUnique (LineEndingOnly r3),
       ObservedNew = sortedUnique (ObservedNew r3), ObservedChanged = sortedUnique (ObservedChanged r3),
       ObservedRemoved = sortedUnique (ObservedRemoved r3)\<rparr>)"

section \<open>Snapshot\<close>

text \<open>The loop of \<open>SnapshotWithInventory\<close> over the candidates: \<open>hash path\<close> is what the cached \<open>HashFile\<close> returns for one.\<close>

definition snapshot_of :: "(string \<Rightarrow> unit + Fingerprint) \<Rightarrow> string list \<Rightarrow> fingerprints \<times> string list" where
  "snapshot_of hash paths =
     (List.map_filter (\<lambda>path. case hash path of Inr f \<Rightarrow> Some (path, f) | Inl _ \<Rightarrow> None) paths,
      filter (\<lambda>path. isl (hash path)) paths)"

end
