(* ===== verification/Baseline_Detect_Laws.thy ===== *)
theory Baseline_Detect_Laws
  imports Baseline_Detect
begin

text \<open>
  What the drift lists contain, exactly: which indexed, on-disk and recorded files make each of them, that a fresh Baseline
  shows no drift, and how the two detectors agree on a repository without observed files.
\<close>

section \<open>The four states\<close>

definition on_disk :: "fingerprints \<Rightarrow> string \<Rightarrow> bool" where
  "on_disk snapshot p \<longleftrightarrow> map_of snapshot p \<noteq> None"

text \<open>The verdict on a file that is on disk and in the Baseline.\<close>

definition verdict :: "Baseline option \<Rightarrow> fingerprints \<Rightarrow> bool \<Rightarrow> string \<Rightarrow> (bool \<times> bool) option" where
  "verdict ob snapshot tolerate p =
     (case (baseline_fingerprint ob p, map_of snapshot p) of
        (Some before, Some current) \<Rightarrow> Some (EquivalentFingerprints before current tolerate)
      | _ \<Rightarrow> None)"

lemma on_disk_iff: "on_disk snapshot p \<longleftrightarrow> p \<in> fst ` set snapshot"
  by (metis map_of_eq_None_iff on_disk_def)

lemma classify_fold:
  "foldl (classify_file ob snapshot tolerate) r files =
     r\<lparr>Orphan := Orphan r @ filter (\<lambda>p. \<not> on_disk snapshot p) files,
       Unbaselined := Unbaselined r @ filter (\<lambda>p. on_disk snapshot p \<and> baseline_fingerprint ob p = None) files,
       Stale := Stale r @ filter (\<lambda>p. map_option fst (verdict ob snapshot tolerate p) = Some False) files,
       LineEndingOnly := LineEndingOnly r @ filter (\<lambda>p. verdict ob snapshot tolerate p = Some (True, True)) files\<rparr>"
proof (induction files arbitrary: r)
  case (Cons p files)
  have step: "classify_file ob snapshot tolerate r p =
     r\<lparr>Orphan := Orphan r @ filter (\<lambda>p. \<not> on_disk snapshot p) [p],
       Unbaselined := Unbaselined r @ filter (\<lambda>p. on_disk snapshot p \<and> baseline_fingerprint ob p = None) [p],
       Stale := Stale r @ filter (\<lambda>p. map_option fst (verdict ob snapshot tolerate p) = Some False) [p],
       LineEndingOnly := LineEndingOnly r @ filter (\<lambda>p. verdict ob snapshot tolerate p = Some (True, True)) [p]\<rparr>"
    by (auto simp: classify_file_def on_disk_def verdict_def Let_def split: option.splits prod.splits)
  show ?case unfolding foldl.simps Cons.IH step by simp
qed simp

definition dead_directories :: "(rune \<Rightarrow> rune) \<Rightarrow> (string \<Rightarrow> bool) \<Rightarrow> Document \<Rightarrow> WalkOptions \<Rightarrow> string list" where
  "dead_directories uni isDir doc opt = filter (\<lambda>d. \<not> isDir (trim_suffix d slash)) (indexDirectories uni doc opt)"

lemma DetectWith_lists:
  "DetectWith uni isDir doc ob snapshot opt tolerate =
     empty_result
      \<lparr>Missing := sort_strings (filter (\<lambda>p. p \<notin> set (indexFiles uni doc opt)) (map fst snapshot)),
       Orphan := sort_strings (filter (\<lambda>p. \<not> on_disk snapshot p) (indexFiles uni doc opt) @ dead_directories uni isDir doc opt),
       Stale := sort_strings (filter (\<lambda>p. map_option fst (verdict ob snapshot tolerate p) = Some False) (indexFiles uni doc opt)),
       Unbaselined := sort_strings (filter (\<lambda>p. on_disk snapshot p \<and> baseline_fingerprint ob p = None) (indexFiles uni doc opt)),
       LineEndingOnly := sort_strings (filter (\<lambda>p. verdict ob snapshot tolerate p = Some (True, True)) (indexFiles uni doc opt))\<rparr>"
  by (simp add: DetectWith_def Let_def classify_fold dead_directories_def empty_result_def)

text \<open>
  \<^bold>\<open>C14\<close>. The drift report is exact. A path is missing iff it is on disk and not indexed; orphaned iff it
  is indexed and not on disk, or an indexed directory that is none; unbaselined iff it is indexed and on disk without a
  recorded fingerprint; stale iff both fingerprints exist and are not equivalent; and only its line ends changed iff they are
  equivalent in that way only. All lists are sorted, and no indexed file is in two of the last four.
\<close>

theorem DetectWith_exact:
  "let r = DetectWith uni isDir doc ob snapshot opt tolerate; idx = set (indexFiles uni doc opt) in
   set (Missing r) = fst ` set snapshot - idx \<and>
   set (Orphan r) = {p \<in> idx. p \<notin> fst ` set snapshot} \<union> {d \<in> set (indexDirectories uni doc opt). \<not> isDir (trim_suffix d slash)} \<and>
   set (Unbaselined r) = {p \<in> idx \<inter> fst ` set snapshot. baseline_fingerprint ob p = None} \<and>
   set (Stale r) = {p \<in> idx. \<exists>f g. baseline_fingerprint ob p = Some f \<and> map_of snapshot p = Some g \<and> \<not> fst (EquivalentFingerprints f g tolerate)} \<and>
   set (LineEndingOnly r) = {p \<in> idx. \<exists>f g. baseline_fingerprint ob p = Some f \<and> map_of snapshot p = Some g \<and> EquivalentFingerprints f g tolerate = (True, True)} \<and>
   list_all (sorted_wrt str_le) [Missing r, Orphan r, Unbaselined r, Stale r, LineEndingOnly r] \<and>
   distinct (filter (\<lambda>p. p \<in> idx) (Orphan r) @ Unbaselined r @ Stale r @ LineEndingOnly r)"
proof -
  let ?idx = "indexFiles uni doc opt"
  define r where "r = DetectWith uni isDir doc ob snapshot opt tolerate"
  note lists = DetectWith_lists [of uni isDir doc ob snapshot opt tolerate, folded r_def]
  have stale: "map_option fst (verdict ob snapshot tolerate p) = Some False \<longleftrightarrow>
      (\<exists>f g. baseline_fingerprint ob p = Some f \<and> map_of snapshot p = Some g \<and> \<not> fst (EquivalentFingerprints f g tolerate))" for p
    by (auto simp: verdict_def split: option.splits) (metis prod.collapse)
  have eol: "verdict ob snapshot tolerate p = Some (True, True) \<longleftrightarrow>
      (\<exists>f g. baseline_fingerprint ob p = Some f \<and> map_of snapshot p = Some g \<and> EquivalentFingerprints f g tolerate = (True, True))" for p
    by (auto simp: verdict_def split: option.splits)
  have d: "distinct ?idx" by (simp add: indexFiles_def)
  have dirs: "p \<notin> set ?idx" if "p \<in> set (dead_directories uni isDir doc opt)" for p
    using that by (auto simp: dead_directories_def indexDirectories_def indexFiles_def)
  have sd: "distinct (sort_strings xs) = distinct xs" for xs unfolding sort_strings_by by (metis mset_sort_by mset_eq_imp_distinct_iff)
  have fs: "filter P (sort_strings xs) = sort_strings (filter P xs)" for P xs
    unfolding sort_strings_by by (rule str_order.sorted_unique) (auto intro: sorted_wrt_filter str_order.sort_by_sorted)
  have orphans: "filter (\<lambda>p. p \<in> set ?idx) (dead_directories uni isDir doc opt) = []" using dirs by (auto simp: filter_empty_conv)
  have idem: "filter (\<lambda>p. p \<in> set ?idx \<and> \<not> on_disk snapshot p) ?idx = filter (\<lambda>p. \<not> on_disk snapshot p) ?idx"
    by (auto intro: filter_cong)
  have dj: "distinct (filter (\<lambda>p. p \<in> set ?idx) (Orphan r) @ Unbaselined r @ Stale r @ LineEndingOnly r)"
    unfolding lists using d orphans idem
    by (auto simp: fs sd distinct_filter on_disk_def verdict_def filter_filter split: option.splits)
  have sets: "set (Missing r) = fst ` set snapshot - set ?idx"
    "set (Orphan r) = {p \<in> set ?idx. p \<notin> fst ` set snapshot} \<union> {d \<in> set (indexDirectories uni doc opt). \<not> isDir (trim_suffix d slash)}"
    "set (Unbaselined r) = {p \<in> set ?idx \<inter> fst ` set snapshot. baseline_fingerprint ob p = None}"
    unfolding lists by (auto simp: on_disk_iff dead_directories_def)
  have sets2: "set (Stale r) = {p \<in> set ?idx. \<exists>f g. baseline_fingerprint ob p = Some f \<and> map_of snapshot p = Some g \<and> \<not> fst (EquivalentFingerprints f g tolerate)}"
    "set (LineEndingOnly r) = {p \<in> set ?idx. \<exists>f g. baseline_fingerprint ob p = Some f \<and> map_of snapshot p = Some g \<and> EquivalentFingerprints f g tolerate = (True, True)}"
    unfolding lists DetectResult.simps set_sort_strings set_filter stale eol by simp_all
  have sorted: "list_all (sorted_wrt str_le) [Missing r, Orphan r, Unbaselined r, Stale r, LineEndingOnly r]"
    unfolding lists by (simp add: sorted_sort_strings)
  show ?thesis unfolding Let_def r_def [symmetric] using sets sets2 sorted dj by blast
qed

text \<open>
  \<^bold>\<open>C21\<close>. A Baseline recorded from a snapshot shows no drift against it: nothing is stale, unbaselined or
  changed in its line ends, so what is left to report is only where index and disk differ. And the report does not depend
  on the order in which Go ranges over the snapshot.
\<close>

theorem fresh_baseline_no_drift:
  assumes "distinct (map fst snapshot)" "mset snapshot' = mset snapshot"
  shows "let r = DetectWith uni isDir doc (Some (NewBaseline now snapshot)) snapshot opt tolerate in
    Stale r = [] \<and> Unbaselined r = [] \<and> LineEndingOnly r = [] \<and>
    DetectWith uni isDir doc ob snapshot' opt tolerate = DetectWith uni isDir doc ob snapshot opt tolerate"
proof -
  have bf: "baseline_fingerprint (Some (NewBaseline now snapshot)) = map_of snapshot"
    by (auto simp: baseline_fingerprint_def NewBaseline_def)
  have refl: "EquivalentFingerprints f f tolerate = (True, False)" for f by (simp add: EquivalentFingerprints_def)
  have "distinct (map fst snapshot')" using assms by (metis mset_map mset_eq_imp_distinct_iff)
  then have mo: "map_of snapshot' = map_of snapshot" using assms(1) mset_eq_setD [OF assms(2)] by (intro map_of_eqI) (auto simp: map_of_inject_set)
  have v: "verdict ob snapshot' tolerate = verdict ob snapshot tolerate" by (simp add: verdict_def mo fun_eq_iff)
  have od: "on_disk snapshot' = on_disk snapshot" by (simp add: on_disk_def mo fun_eq_iff)
  have "mset (filter P (map fst snapshot')) = mset (filter P (map fst snapshot))" for P
    using assms(2) by (metis mset_filter mset_map)
  then have "sort_strings (filter P (map fst snapshot')) = sort_strings (filter P (map fst snapshot))" for P
    by (rule sort_strings_permuted)
  then have "DetectWith uni isDir doc ob snapshot' opt tolerate = DetectWith uni isDir doc ob snapshot opt tolerate"
    unfolding DetectWith_lists v od by simp
  moreover have fine: "verdict (Some (NewBaseline now snapshot)) snapshot tolerate p = None \<or>
      verdict (Some (NewBaseline now snapshot)) snapshot tolerate p = Some (True, False)" for p
    by (auto simp: verdict_def bf refl split: option.splits)
  moreover have "map_option fst (verdict (Some (NewBaseline now snapshot)) snapshot tolerate p) \<noteq> Some False" for p
    using fine [of p] by auto
  moreover have "verdict (Some (NewBaseline now snapshot)) snapshot tolerate p \<noteq> Some (True, True)" for p
    using fine [of p] by auto
  moreover have fe: "filter (\<lambda>p. on_disk snapshot p \<and> map_of snapshot p = None) xs = []" for xs
    by (auto simp: on_disk_def filter_empty_conv)
  ultimately show ?thesis unfolding Let_def DetectWith_lists [of uni isDir doc "Some (NewBaseline now snapshot)"]
    by (simp add: bf fe sort_strings_by empty_result_def)
qed

theorem fresh_baseline_no_drift_witness:
  "let f = \<lparr>fpRole = [], SHA256 = ''x'', fpSize = 1, NormalizedSHA256 = [], FormatSHA256 = [], FormatKind = []\<rparr>;
       opt = \<lparr>ExcludeDirs = [], ExcludeRootDirs = [], ExcludeFiles = [], HighRiskOptIn = [], IncludeIgnoredCandidates = False, SensitiveNameRules = []\<rparr>;
       doc = \<lparr>HeaderLines = [], Sections = [], RawText = []\<rparr> in
   Stale (DetectWith id (\<lambda>_. True) doc (Some (NewBaseline ''t'' [(''a'', f), (''b'', f)])) [(''a'', f), (''b'', f)] opt True) = [] \<and>
   DetectWith id (\<lambda>_. True) doc None [(''b'', f), (''a'', f)] opt True = DetectWith id (\<lambda>_. True) doc None [(''a'', f), (''b'', f)] opt True"
proof -
  have d: "distinct (map fst [(''a'', f), (''b'', f)])" "mset [(''b'', f), (''a'', f)] = mset [(''a'', f), (''b'', f)]"
    for f :: Fingerprint by simp_all
  show ?thesis using fresh_baseline_no_drift [OF d] unfolding Let_def by blast
qed

section \<open>Managed Scope\<close>

text \<open>The role under which a path is recorded, if it is.\<close>

definition recorded_as :: "Baseline option \<Rightarrow> string \<Rightarrow> string \<Rightarrow> bool" where
  "recorded_as ob role p \<longleftrightarrow> (\<exists>b. baseline_fingerprint ob p = Some b \<and> EffectiveRole b = role)"

definition equivalence :: "Baseline option \<Rightarrow> bool \<Rightarrow> string \<Rightarrow> Fingerprint \<Rightarrow> bool \<times> bool" where
  "equivalence ob tolerate p f = (case baseline_fingerprint ob p of Some b \<Rightarrow> EquivalentFingerprints b f tolerate | None \<Rightarrow> (False, False))"

text \<open>The lists after the loop over the snapshot.\<close>

definition current_lists :: "string list \<Rightarrow> Baseline option \<Rightarrow> bool \<Rightarrow> fingerprints \<Rightarrow> DetectResult" where
  "current_lists files ob tolerate snapshot =
     (let idx = filter (\<lambda>(p, f). EffectiveRole f = ''index'') snapshot;
          obs = filter (\<lambda>(p, f). EffectiveRole f = ''observe'') snapshot;
          names = (\<lambda>P xs. map fst (filter (\<lambda>(p, f). P p f) xs)) in
      \<lparr>Missing = names (\<lambda>p f. p \<notin> set files) idx,
       Orphan = names (\<lambda>p f. p \<in> set files) obs,
       Stale = names (\<lambda>p f. recorded_as ob ''index'' p \<and> \<not> fst (equivalence ob tolerate p f)) idx,
       Unbaselined = names (\<lambda>p f. \<not> recorded_as ob ''index'' p) idx,
       LineEndingOnly = names (\<lambda>p f. recorded_as ob ''index'' p \<and> equivalence ob tolerate p f = (True, True)) idx,
       ObservedNew = names (\<lambda>p f. \<not> recorded_as ob ''observe'' p) obs,
       ObservedChanged = names (\<lambda>p f. recorded_as ob ''observe'' p \<and> \<not> fst (equivalence ob tolerate p f)) obs,
       ObservedRemoved = []\<rparr>)"

definition append_lists :: "DetectResult \<Rightarrow> DetectResult \<Rightarrow> DetectResult" where
  "append_lists r s =
     \<lparr>Missing = Missing r @ Missing s, Orphan = Orphan r @ Orphan s, Stale = Stale r @ Stale s,
      Unbaselined = Unbaselined r @ Unbaselined s, LineEndingOnly = LineEndingOnly r @ LineEndingOnly s,
      ObservedNew = ObservedNew r @ ObservedNew s, ObservedChanged = ObservedChanged r @ ObservedChanged s,
      ObservedRemoved = ObservedRemoved r @ ObservedRemoved s\<rparr>"

lemma append_lists_assoc: "append_lists (append_lists r s) t = append_lists r (append_lists s t)"
  by (simp add: append_lists_def)

lemma current_lists_Cons:
  "current_lists files ob tolerate (x # xs) = append_lists (current_lists files ob tolerate [x]) (current_lists files ob tolerate xs)"
  by (simp add: current_lists_def append_lists_def Let_def case_prod_unfold)

lemma current_lists_Nil: "append_lists r (current_lists files ob tolerate []) = r"
  by (simp add: current_lists_def append_lists_def Let_def)

lemma scope_current_step: "scope_current files ob tolerate r x = append_lists r (current_lists files ob tolerate [x])"
proof (cases x)
  case (Pair p f)
  consider "EffectiveRole f = ''index''" | "EffectiveRole f = ''observe''" | "EffectiveRole f \<noteq> ''index''" "EffectiveRole f \<noteq> ''observe''" by blast
  then show ?thesis
  proof cases
    case 1
    show ?thesis
    proof (cases "baseline_fingerprint ob p")
      case None
      then show ?thesis using 1 Pair
        by (simp add: scope_current_def current_lists_def append_lists_def recorded_as_def equivalence_def Let_def)
    next
      case (Some b)
      obtain eq eol where e: "EquivalentFingerprints b f tolerate = (eq, eol)" by force
      show ?thesis using 1 Pair Some e
        by (cases eq; cases eol) (simp_all add: scope_current_def current_lists_def append_lists_def recorded_as_def equivalence_def Let_def)
    qed
  next
    case 2
    then show ?thesis using Pair
      by (cases "baseline_fingerprint ob p")
        (simp_all add: scope_current_def current_lists_def append_lists_def recorded_as_def equivalence_def Let_def)
  next
    case 3
    then show ?thesis using Pair
      by (simp add: scope_current_def current_lists_def append_lists_def Let_def)
  qed
qed

lemma scope_current_fold: "foldl (scope_current files ob tolerate) r snapshot = append_lists r (current_lists files ob tolerate snapshot)"
proof (induction snapshot arbitrary: r)
  case Nil
  show ?case by (simp add: current_lists_Nil)
next
  case (Cons x xs)
  show ?case unfolding foldl.simps Cons.IH unfolding scope_current_step append_lists_assoc current_lists_Cons [symmetric] ..
qed

lemma scope_before_fold:
  "foldl (scope_before files snapshot) r recorded =
     r\<lparr>ObservedRemoved := ObservedRemoved r @ map fst (filter (\<lambda>(p, b). \<not> on_disk snapshot p \<and> EffectiveRole b = ''observe'') recorded),
       Orphan := Orphan r @ map fst (filter (\<lambda>(p, b). \<not> on_disk snapshot p \<and> EffectiveRole b \<noteq> ''observe'' \<and> p \<in> set files) recorded)\<rparr>"
proof (induction recorded arbitrary: r)
  case (Cons x xs)
  show ?case unfolding foldl.simps Cons.IH by (cases x) (simp add: scope_before_def on_disk_def)
qed simp

lemma sortedUnique_set [simp]: "set (sortedUnique xs) = set xs"
  by (simp add: sortedUnique_def)

lemma sortedUnique_strict: "sorted_wrt str_less (sortedUnique xs)"
  unfolding sortedUnique_def by (rule sorted_uniq_adj [OF sorted_sort_strings])

definition recorded :: "Baseline option \<Rightarrow> fingerprints" where
  "recorded ob = (case ob of None \<Rightarrow> [] | Some b \<Rightarrow> blFiles b)"

lemma DetectManagedScope_lists:
  fixes uni isDir doc ob snapshot opt tolerate
  defines "files \<equiv> indexFiles uni doc opt"
  defines "c \<equiv> current_lists files ob tolerate snapshot"
  shows "DetectManagedScope uni isDir doc ob snapshot opt tolerate =
    \<lparr>Missing = sortedUnique (Missing c),
     Orphan = sortedUnique (Orphan c @ map fst (filter (\<lambda>(p, b). \<not> on_disk snapshot p \<and> EffectiveRole b \<noteq> ''observe'' \<and> p \<in> set files) (recorded ob)) @
       filter (\<lambda>p. \<not> on_disk snapshot p) files @ dead_directories uni isDir doc opt),
     Stale = sortedUnique (Stale c), Unbaselined = sortedUnique (Unbaselined c), LineEndingOnly = sortedUnique (LineEndingOnly c),
     ObservedNew = sortedUnique (ObservedNew c), ObservedChanged = sortedUnique (ObservedChanged c),
     ObservedRemoved = sortedUnique (map fst (filter (\<lambda>(p, b). \<not> on_disk snapshot p \<and> EffectiveRole b = ''observe'') (recorded ob)))\<rparr>"
proof -
  have c0: "append_lists empty_result c = c" by (simp add: append_lists_def empty_result_def)
  have cr: "ObservedRemoved c = []" by (simp add: c_def current_lists_def Let_def)
  have od: "(\<lambda>p. map_of snapshot p = None) = (\<lambda>p. \<not> on_disk snapshot p)" by (simp add: on_disk_def fun_eq_iff)
  show ?thesis
    unfolding DetectManagedScope_def Let_def files_def [symmetric] scope_current_fold c_def [symmetric] c0
    by (cases ob) (simp_all add: scope_before_fold cr recorded_def od dead_directories_def)
qed

text \<open>
  The Managed Scope report is exact and keeps formal and observed drift apart: only paths in the index
  role are missing, unbaselined, stale or changed in their line ends, only paths in the observe role are new, changed or
  removed as observed, and an indexed path is orphaned iff it is gone or only observed. All lists are strictly sorted.
\<close>

theorem DetectManagedScope_exact:
  "let r = DetectManagedScope uni isDir doc ob snapshot opt tolerate; idx = set (indexFiles uni doc opt);
       role = (\<lambda>w. {(p, f) \<in> set snapshot. EffectiveRole f = w}) in
   set (Missing r) = fst ` role ''index'' - idx \<and>
   set (Unbaselined r) = {p \<in> fst ` role ''index''. \<not> recorded_as ob ''index'' p} \<and>
   set (Stale r) = {p. \<exists>f. (p, f) \<in> role ''index'' \<and> recorded_as ob ''index'' p \<and> \<not> fst (equivalence ob tolerate p f)} \<and>
   set (LineEndingOnly r) = {p. \<exists>f. (p, f) \<in> role ''index'' \<and> recorded_as ob ''index'' p \<and> equivalence ob tolerate p f = (True, True)} \<and>
   set (ObservedNew r) = {p \<in> fst ` role ''observe''. \<not> recorded_as ob ''observe'' p} \<and>
   set (ObservedChanged r) = {p. \<exists>f. (p, f) \<in> role ''observe'' \<and> recorded_as ob ''observe'' p \<and> \<not> fst (equivalence ob tolerate p f)} \<and>
   set (ObservedRemoved r) = {p. p \<notin> fst ` set snapshot \<and> (\<exists>f. (p, f) \<in> set (recorded ob) \<and> EffectiveRole f = ''observe'')} \<and>
   set (Orphan r) = {p \<in> idx. p \<notin> fst ` set snapshot} \<union> (idx \<inter> fst ` role ''observe'') \<union>
     {d \<in> set (indexDirectories uni doc opt). \<not> isDir (trim_suffix d slash)} \<and>
   list_all (sorted_wrt str_less) [Missing r, Orphan r, Stale r, Unbaselined r, LineEndingOnly r, ObservedNew r, ObservedChanged r, ObservedRemoved r]"
proof -
  define r where "r = DetectManagedScope uni isDir doc ob snapshot opt tolerate"
  note lists = DetectManagedScope_lists [of uni isDir doc ob snapshot opt tolerate, folded r_def]
  let ?idx = "set (indexFiles uni doc opt)"
  let ?role = "\<lambda>w. {(p, f) \<in> set snapshot. EffectiveRole f = w}"
  have 1: "set (Missing r) = fst ` ?role ''index'' - ?idx"
    "set (Unbaselined r) = {p \<in> fst ` ?role ''index''. \<not> recorded_as ob ''index'' p}"
    "set (ObservedNew r) = {p \<in> fst ` ?role ''observe''. \<not> recorded_as ob ''observe'' p}"
    unfolding lists current_lists_def Let_def DetectResult.simps sortedUnique_set by (auto simp: image_iff; force)+
  have 2: "set (Stale r) = {p. \<exists>f. (p, f) \<in> ?role ''index'' \<and> recorded_as ob ''index'' p \<and> \<not> fst (equivalence ob tolerate p f)}"
    "set (LineEndingOnly r) = {p. \<exists>f. (p, f) \<in> ?role ''index'' \<and> recorded_as ob ''index'' p \<and> equivalence ob tolerate p f = (True, True)}"
    "set (ObservedChanged r) = {p. \<exists>f. (p, f) \<in> ?role ''observe'' \<and> recorded_as ob ''observe'' p \<and> \<not> fst (equivalence ob tolerate p f)}"
    unfolding lists current_lists_def Let_def DetectResult.simps sortedUnique_set by (auto simp: image_iff; force)+
  have 3: "set (ObservedRemoved r) = {p. p \<notin> fst ` set snapshot \<and> (\<exists>f. (p, f) \<in> set (recorded ob) \<and> EffectiveRole f = ''observe'')}"
    unfolding lists DetectResult.simps sortedUnique_set by (auto simp: on_disk_iff image_iff; force)
  have 4: "set (Orphan r) = {p \<in> ?idx. p \<notin> fst ` set snapshot} \<union> (?idx \<inter> fst ` ?role ''observe'') \<union>
     {d \<in> set (indexDirectories uni doc opt). \<not> isDir (trim_suffix d slash)}"
    unfolding lists current_lists_def Let_def DetectResult.simps sortedUnique_set
    by (auto simp: on_disk_iff image_iff dead_directories_def; force)
  have 5: "list_all (sorted_wrt str_less) [Missing r, Orphan r, Stale r, Unbaselined r, LineEndingOnly r, ObservedNew r, ObservedChanged r, ObservedRemoved r]"
    unfolding lists by (simp add: sortedUnique_strict)
  show ?thesis unfolding Let_def r_def [symmetric] using 1 2 3 4 5 by blast
qed

end
