(* ===== verification/Baseline_Cache.thy ===== *)
theory Baseline_Cache
  imports Baseline_State
begin

text \<open>
  The fingerprint cache (\<open>internal/baseline/fingerprint_cache.go\<close>) and the in-process memos of decoded documents
  (\<open>process_memo.go\<close>). What the host answers during one call (\<open>os.Stat\<close> before and after, the clock, the hash or the line count
  of the file) are arguments of the operation; \<open>None\<close> is a failing \<open>os.Stat\<close>. Times are nanoseconds in Go's \<open>int64\<close>. A nil cache
  is \<open>None\<close>.
\<close>

section \<open>Data\<close>

record file_stat =
  stRegular :: bool
  stSize :: int
  stMtime :: int

record fingerprintCacheEntry =
  ceSize :: int
  ceMtimeNS :: int
  ceHashedAtNS :: int
  ceFingerprint :: Fingerprint
  ceLines :: "int option"

type_synonym cache_entries = "(string \<times> fingerprintCacheEntry) list"

record FingerprintCache =
  fcEntries :: cache_entries
  fcSeen :: "string list"
  fcDisabled :: bool
  fcDirty :: bool
  fcHits :: nat
  fcMisses :: nat

definition fingerprintCacheRacyWindow :: int where
  "fingerprintCacheRacyWindow = 2000000000"

text \<open>The rule under which a cached entry is trusted.\<close>

definition entry_current :: "fingerprintCacheEntry \<Rightarrow> file_stat \<Rightarrow> bool" where
  "entry_current e st \<longleftrightarrow>
     ceSize e = stSize st \<and> ceMtimeNS e = stMtime st \<and> wrap_int (ceMtimeNS e + fingerprintCacheRacyWindow) < ceHashedAtNS e"

section \<open>Operations\<close>

definition empty_cache :: "bool \<Rightarrow> FingerprintCache" where
  "empty_cache off = \<lparr>fcEntries = [], fcSeen = [], fcDisabled = off, fcDirty = False, fcHits = 0, fcMisses = 0\<rparr>"

definition cache_HashFile ::
  "FingerprintCache option \<Rightarrow> string \<Rightarrow> file_stat option \<Rightarrow> int \<Rightarrow> (unit + Fingerprint) \<Rightarrow> file_stat option \<Rightarrow>
   FingerprintCache option \<times> (unit + Fingerprint)" where
  "cache_HashFile oc path before hashedAt hashed after =
     (case oc of
        None \<Rightarrow> (None, hashed)
      | Some c \<Rightarrow>
          if fcDisabled c then (Some c, hashed)
          else
            let c1 = c\<lparr>fcSeen := path # fcSeen c\<rparr>;
                regular = (case before of None \<Rightarrow> False | Some st \<Rightarrow> stRegular st) in
            case (if regular then (case map_of (fcEntries c1) path of
                                     Some e \<Rightarrow> if SHA256 (ceFingerprint e) \<noteq> [] \<and> entry_current e (the before) then Some e else None
                                   | None \<Rightarrow> None)
                  else None) of
              Some e \<Rightarrow> (Some (c1\<lparr>fcHits := fcHits c1 + 1\<rparr>), Inr ((ceFingerprint e)\<lparr>fpRole := []\<rparr>))
            | None \<Rightarrow>
                (case hashed of
                   Inl err \<Rightarrow> (Some c1, Inl err)
                 | Inr f \<Rightarrow>
                     let c2 = c1\<lparr>fcMisses := fcMisses c1 + 1\<rparr> in
                     (if regular \<and> (case after of None \<Rightarrow> False
                                     | Some st \<Rightarrow> stSize st = stSize (the before) \<and> stMtime st = stMtime (the before))
                      then Some (c2\<lparr>fcEntries := AList.update path
                                      \<lparr>ceSize = stSize (the before), ceMtimeNS = stMtime (the before), ceHashedAtNS = hashedAt,
                                       ceFingerprint = f\<lparr>fpRole := []\<rparr>, ceLines = None\<rparr> (fcEntries c2),
                                    fcDirty := True\<rparr>)
                      else Some c2, Inr f)))"

definition cache_FileLines ::
  "FingerprintCache option \<Rightarrow> string \<Rightarrow> file_stat option \<Rightarrow> (unit + int) \<Rightarrow> file_stat option \<Rightarrow>
   FingerprintCache option \<times> (unit + int)" where
  "cache_FileLines oc path before counted after =
     (case oc of
        None \<Rightarrow> (None, counted)
      | Some c \<Rightarrow>
          if fcDisabled c then (Some c, counted)
          else
            case (case (map_of (fcEntries c) path, before) of
                    (Some e, Some st) \<Rightarrow> if stRegular st \<and> entry_current e st then ceLines e else None
                  | _ \<Rightarrow> None) of
              Some n \<Rightarrow> (Some (c\<lparr>fcHits := fcHits c + 1\<rparr>), Inr n)
            | None \<Rightarrow>
                (case counted of
                   Inl err \<Rightarrow> (Some c, Inl err)
                 | Inr n \<Rightarrow>
                     (case (map_of (fcEntries c) path, after) of
                        (Some e, Some st) \<Rightarrow>
                          if ceSize e = stSize st \<and> ceMtimeNS e = stMtime st
                          then Some (c\<lparr>fcEntries := AList.update path (e\<lparr>ceLines := Some n\<rparr>) (fcEntries c), fcDirty := True\<rparr>)
                          else Some c
                      | _ \<Rightarrow> Some c, Inr n)))"

definition KnownLines :: "FingerprintCache option \<Rightarrow> string \<Rightarrow> file_stat option \<Rightarrow> FingerprintCache option \<times> int option" where
  "KnownLines oc path st0 =
     (case oc of
        None \<Rightarrow> (None, None)
      | Some c \<Rightarrow>
          if fcDisabled c then (Some c, None)
          else
            case (case (map_of (fcEntries c) path, st0) of
                    (Some e, Some st) \<Rightarrow> if stRegular st \<and> entry_current e st then ceLines e else None
                  | _ \<Rightarrow> None) of
              None \<Rightarrow> (Some c, None)
            | Some n \<Rightarrow> (Some (c\<lparr>fcHits := fcHits c + 1\<rparr>), Some n))"

text \<open>
  \<open>Save\<close>: \<open>writes\<close> is the process switch, \<open>dirOk\<close> whether the directory exists, \<open>writeOk\<close> whether the atomic write succeeds;
  the second component is what was written.
\<close>

definition cache_Save ::
  "FingerprintCache option \<Rightarrow> bool \<Rightarrow> bool \<Rightarrow> bool \<Rightarrow> bool \<Rightarrow> FingerprintCache option \<times> cache_entries option" where
  "cache_Save oc pruneUnseen writes dirOk writeOk =
     (case oc of
        None \<Rightarrow> (None, None)
      | Some c \<Rightarrow>
          if fcDisabled c \<or> \<not> writes then (Some c, None)
          else
            let kept = (if pruneUnseen then filter (\<lambda>(p, _). p \<in> set (fcSeen c)) (fcEntries c) else fcEntries c);
                pruned = (pruneUnseen \<and> list_ex (\<lambda>(p, _). p \<notin> set (fcSeen c)) (fcEntries c));
                c1 = c\<lparr>fcEntries := kept, fcDirty := (fcDirty c \<or> pruned)\<rparr> in
            if \<not> fcDirty c1 \<or> \<not> dirOk then (Some c1, None)
            else if writeOk then (Some (c1\<lparr>fcDirty := False\<rparr>), Some kept)
            else (Some c1, None))"

section \<open>Document memos\<close>

text \<open>\<open>off\<close> is \<open>ProcessMemoDisabled\<close>. A memo holds one document per path.\<close>

record fingerprintCacheMemoRecord =
  fmDigest :: string
  fmEntries :: cache_entries

definition lookupFingerprintCacheMemo ::
  "(string \<Rightarrow> string) \<Rightarrow> bool \<Rightarrow> (string \<rightharpoonup> fingerprintCacheMemoRecord) \<Rightarrow> string \<Rightarrow> string \<Rightarrow> cache_entries option" where
  "lookupFingerprintCacheMemo sha off memo path data =
     (if off then None
      else case memo path of
        None \<Rightarrow> None
      | Some rec \<Rightarrow> if fmDigest rec \<noteq> sha data then None else Some (fmEntries rec))"

definition storeFingerprintCacheMemo ::
  "(string \<Rightarrow> string) \<Rightarrow> bool \<Rightarrow> (string \<rightharpoonup> fingerprintCacheMemoRecord) \<Rightarrow> string \<Rightarrow> string \<Rightarrow> cache_entries \<Rightarrow>
   (string \<rightharpoonup> fingerprintCacheMemoRecord)" where
  "storeFingerprintCacheMemo sha off memo path data entries =
     (if off then memo else memo(path \<mapsto> \<lparr>fmDigest = sha data, fmEntries = entries\<rparr>))"

text \<open>
  \<open>decode\<close> reads a stored document: its version and its entries (\<open>None\<close> for a null map). The cache of a file that is missing,
  corrupt or of another version is empty.
\<close>

definition OpenFingerprintCache ::
  "(string \<Rightarrow> (string \<times> cache_entries option) option) \<Rightarrow> (string \<Rightarrow> string) \<Rightarrow> bool \<Rightarrow> bool \<Rightarrow>
   (string \<rightharpoonup> fingerprintCacheMemoRecord) \<Rightarrow> string \<Rightarrow> string option \<Rightarrow>
   (string \<rightharpoonup> fingerprintCacheMemoRecord) \<times> FingerprintCache" where
  "OpenFingerprintCache decode sha cacheOff memoOff memo path file =
     (if cacheOff then (memo, empty_cache True)
      else case file of
        None \<Rightarrow> (memo, empty_cache False)
      | Some data \<Rightarrow>
          (case lookupFingerprintCacheMemo sha memoOff memo path data of
             Some entries \<Rightarrow> (memo, (empty_cache False)\<lparr>fcEntries := entries\<rparr>)
           | None \<Rightarrow>
               (case decode data of
                  Some (ver, Some entries) \<Rightarrow>
                    if ver \<noteq> ''aoci-fingerprint-cache/v1'' then (memo, empty_cache False)
                    else (storeFingerprintCacheMemo sha memoOff memo path data entries, (empty_cache False)\<lparr>fcEntries := entries\<rparr>)
                | _ \<Rightarrow> (memo, empty_cache False))))"

record baselineMemoRecord =
  bmDigest :: string
  bmHeader :: string
  bmFiles :: fingerprints

text \<open>A hit decodes the small header again and copies the file map.\<close>

definition lookupBaselineMemo ::
  "(string \<Rightarrow> Baseline option) \<Rightarrow> (string \<Rightarrow> string) \<Rightarrow> bool \<Rightarrow> (string \<rightharpoonup> baselineMemoRecord) \<Rightarrow> string \<Rightarrow> string \<Rightarrow> Baseline option" where
  "lookupBaselineMemo decode sha off memo path data =
     (if off then None
      else case memo path of
        None \<Rightarrow> None
      | Some rec \<Rightarrow>
          if bmDigest rec \<noteq> sha data then None
          else map_option (\<lambda>b. b\<lparr>blFiles := bmFiles rec\<rparr>) (decode (bmHeader rec)))"

definition storeBaselineMemo ::
  "(Baseline \<Rightarrow> string) \<Rightarrow> (string \<Rightarrow> string) \<Rightarrow> bool \<Rightarrow> (string \<rightharpoonup> baselineMemoRecord) \<Rightarrow> string \<Rightarrow> string \<Rightarrow> Baseline \<Rightarrow>
   (string \<rightharpoonup> baselineMemoRecord)" where
  "storeBaselineMemo encode sha off memo path data b =
     (if off then memo
      else memo(path \<mapsto> \<lparr>bmDigest = sha data, bmHeader = encode (b\<lparr>blFiles := []\<rparr>), bmFiles = blFiles b\<rparr>))"

datatype file_read = FileAbsent | FileUnreadable | FileBytes string

definition baseline_Load ::
  "(Baseline \<Rightarrow> string) \<Rightarrow> (string \<Rightarrow> Baseline option) \<Rightarrow> (BudgetPolicy \<Rightarrow> string) \<Rightarrow> (string \<Rightarrow> string) \<Rightarrow> bool \<Rightarrow>
   (string \<rightharpoonup> baselineMemoRecord) \<Rightarrow> string \<Rightarrow> file_read \<Rightarrow> (string \<rightharpoonup> baselineMemoRecord) \<times> load_result" where
  "baseline_Load encode decode json sha off memo path file =
     (case file of
        FileAbsent \<Rightarrow> (memo, LoadMissing)
      | FileUnreadable \<Rightarrow> (memo, LoadReadFailed)
      | FileBytes data \<Rightarrow>
          (case lookupBaselineMemo decode sha off memo path data of
             Some b \<Rightarrow> (memo, LoadOk b)
           | None \<Rightarrow>
               (case load_bytes decode json sha data of
                  LoadOk b \<Rightarrow> (storeBaselineMemo encode sha off memo path data b, LoadOk b)
                | res \<Rightarrow> (memo, res))))"

end
