(* ===== verification/Baseline_Cache_Laws.thy ===== *)
theory Baseline_Cache_Laws
  imports Baseline_Cache Baseline_Hash_Laws
begin

text \<open>
  The fingerprint cache never answers with the digest of other bytes, on any file system that stamps a write with a
  time at most the racy window before it; and the memo of the decoded Baseline is invisible.
\<close>

section \<open>Files over time\<close>

text \<open>
  The history of the files: \<open>content p t\<close> and \<open>mtime p t\<close> are the bytes and the recorded modification time of \<open>p\<close> at time
  \<open>t\<close>. Between two moments a file is as it was, or a write has stamped it with a time that is older than the write by the
  window at most; \<open>times_fit\<close> keeps the times clear of the end of \<open>int64\<close>.
\<close>

definition writes_stamped :: "(string \<Rightarrow> int \<Rightarrow> string) \<Rightarrow> (string \<Rightarrow> int \<Rightarrow> int) \<Rightarrow> bool" where
  "writes_stamped content mtime \<longleftrightarrow>
     (\<forall>p t t'. t \<le> t' \<longrightarrow>
        content p t' = content p t \<and> mtime p t' = mtime p t \<or> t - fingerprintCacheRacyWindow \<le> mtime p t')"

definition times_fit :: "(string \<Rightarrow> int \<Rightarrow> int) \<Rightarrow> bool" where
  "times_fit mtime \<longleftrightarrow> (\<forall>p t. - 9223372036854775808 \<le> mtime p t \<and> mtime p t + fingerprintCacheRacyWindow \<le> MaxInt)"

definition stat_at :: "(string \<Rightarrow> int \<Rightarrow> string) \<Rightarrow> (string \<Rightarrow> int \<Rightarrow> int) \<Rightarrow> string \<Rightarrow> int \<Rightarrow> file_stat \<Rightarrow> bool" where
  "stat_at content mtime p t st \<longleftrightarrow> stSize st = int (length (content p t)) \<and> stMtime st = mtime p t"

definition opt_stat_at :: "(string \<Rightarrow> int \<Rightarrow> string) \<Rightarrow> (string \<Rightarrow> int \<Rightarrow> int) \<Rightarrow> string \<Rightarrow> int \<Rightarrow> file_stat option \<Rightarrow> bool" where
  "opt_stat_at content mtime p t ost \<longleftrightarrow> (\<forall>st. ost = Some st \<longrightarrow> stat_at content mtime p t st)"

text \<open>
  The states a cache can be in at a time: opened without entries, after hashing a file, counting its lines, asking for known
  lines, saving, reopening what is held, or later. A read that spans the moments from \<open>t2\<close> to \<open>t4\<close> delivers the value of the
  bytes when they did not change in between, and anything otherwise.
\<close>

inductive cache_run ::
  "(string \<Rightarrow> int \<Rightarrow> string) \<Rightarrow> (string \<Rightarrow> int \<Rightarrow> int) \<Rightarrow> (string \<Rightarrow> string \<Rightarrow> Fingerprint) \<Rightarrow> (string \<Rightarrow> int) \<Rightarrow> int \<Rightarrow> FingerprintCache \<Rightarrow> bool"
  for content mtime fp lines where
  run_open: "cache_run content mtime fp lines t (empty_cache off)"
| run_wait: "cache_run content mtime fp lines t c \<Longrightarrow> t \<le> t' \<Longrightarrow> cache_run content mtime fp lines t' c"
| run_hash: "cache_run content mtime fp lines t1 c \<Longrightarrow> t1 \<le> t2 \<Longrightarrow> t2 \<le> t4 \<Longrightarrow>
    opt_stat_at content mtime p t1 before \<Longrightarrow> opt_stat_at content mtime p t4 after \<Longrightarrow>
    (\<And>f. hashed = Inr f \<Longrightarrow> (\<forall>s. t2 \<le> s \<and> s \<le> t4 \<longrightarrow> content p s = content p t2) \<Longrightarrow> f = fp p (content p t2)) \<Longrightarrow>
    cache_HashFile (Some c) p before t2 hashed after = (Some c', res) \<Longrightarrow> cache_run content mtime fp lines t4 c'"
| run_lines: "cache_run content mtime fp lines t1 c \<Longrightarrow> t1 \<le> t2 \<Longrightarrow> t2 \<le> t4 \<Longrightarrow>
    opt_stat_at content mtime p t4 after \<Longrightarrow>
    (\<And>n. counted = Inr n \<Longrightarrow> (\<forall>s. t2 \<le> s \<and> s \<le> t4 \<longrightarrow> content p s = content p t2) \<Longrightarrow> n = lines (content p t2)) \<Longrightarrow>
    cache_FileLines (Some c) p before counted after = (Some c', res') \<Longrightarrow> cache_run content mtime fp lines t4 c'"
| run_known: "cache_run content mtime fp lines t c \<Longrightarrow> KnownLines (Some c) p st = (Some c', res'') \<Longrightarrow> cache_run content mtime fp lines t c'"
| run_save: "cache_run content mtime fp lines t c \<Longrightarrow> cache_Save (Some c) prune writes dirOk writeOk = (Some c', written) \<Longrightarrow>
    cache_run content mtime fp lines t c'"
| run_reopen: "cache_run content mtime fp lines t c \<Longrightarrow> cache_run content mtime fp lines t ((empty_cache off)\<lparr>fcEntries := fcEntries c\<rparr>)"

text \<open>An entry that will be trusted describes the bytes of the moment it was hashed.\<close>

definition entry_sound :: "(string \<Rightarrow> int \<Rightarrow> string) \<Rightarrow> (string \<Rightarrow> int \<Rightarrow> int) \<Rightarrow> (string \<Rightarrow> string \<Rightarrow> Fingerprint) \<Rightarrow> (string \<Rightarrow> int) \<Rightarrow>
    int \<Rightarrow> string \<Rightarrow> fingerprintCacheEntry \<Rightarrow> bool" where
  "entry_sound content mtime fp lines now p e \<longleftrightarrow>
     ceHashedAtNS e \<le> now \<and> - 9223372036854775808 \<le> ceMtimeNS e \<and> ceMtimeNS e + fingerprintCacheRacyWindow \<le> MaxInt \<and>
     (ceMtimeNS e + fingerprintCacheRacyWindow < ceHashedAtNS e \<longrightarrow>
        mtime p (ceHashedAtNS e) = ceMtimeNS e \<and> ceFingerprint e = (fp p (content p (ceHashedAtNS e)))\<lparr>fpRole := []\<rparr> \<and>
        (\<forall>n. ceLines e = Some n \<longrightarrow> n = lines (content p (ceHashedAtNS e))))"

lemma sound_wrap:
  assumes "entry_sound content mtime fp lines now p e"
  shows "wrap_int (ceMtimeNS e + fingerprintCacheRacyWindow) = ceMtimeNS e + fingerprintCacheRacyWindow"
  using assms by (intro wrap_int_id) (auto simp: entry_sound_def fingerprintCacheRacyWindow_def)

text \<open>While the recorded time of a trusted entry stands, so do the bytes.\<close>

lemma unchanged_while_stamped:
  assumes "writes_stamped content mtime" "m + fingerprintCacheRacyWindow < h" "h \<le> t" "mtime p t = m" "h \<le> s" "s \<le> t"
  shows "content p s = content p h \<and> mtime p s = m \<and> content p t = content p h"
proof -
  have "content p t = content p u \<and> mtime p t = mtime p u" if u: "h \<le> u" "u \<le> t" for u
  proof -
    have "content p t = content p u \<and> mtime p t = mtime p u \<or> u - fingerprintCacheRacyWindow \<le> mtime p t"
      using assms(1) u(2) unfolding writes_stamped_def by blast
    then show ?thesis using u(1) assms(2,4) by linarith
  qed
  from this [of s] this [of h] show ?thesis using assms(3-6) by simp
qed

lemma stored_entry_sound:
  assumes ws: "writes_stamped content mtime" and fit: "times_fit mtime"
    and t: "t1 \<le> t2" "t2 \<le> t4" and b: "stat_at content mtime p t1 before" and a: "stat_at content mtime p t4 after"
    and same: "stMtime after = stMtime before"
    and f: "(\<forall>s. t2 \<le> s \<and> s \<le> t4 \<longrightarrow> content p s = content p t2) \<Longrightarrow> f = fp p (content p t2)"
  shows "entry_sound content mtime fp lines t4 p
    \<lparr>ceSize = n, ceMtimeNS = stMtime before, ceHashedAtNS = t2, ceFingerprint = f\<lparr>fpRole := []\<rparr>, ceLines = None\<rparr>"
proof -
  have m: "mtime p t4 = stMtime before" using a same by (simp add: stat_at_def)
  have main: "mtime p t2 = stMtime before \<and> f = fp p (content p t2)" if w: "stMtime before + fingerprintCacheRacyWindow < t2"
  proof -
    have u: "content p s = content p t2 \<and> mtime p s = stMtime before" if "t2 \<le> s" "s \<le> t4" for s
      using unchanged_while_stamped [of content mtime "stMtime before" t2 t4 p s, OF ws w t(2) m that] by blast
    have "f = fp p (content p t2)" by (rule f) (use u in blast)
    then show ?thesis using u [of t2] t(2) by simp
  qed
  have fits: "- 9223372036854775808 \<le> stMtime before" "stMtime before + fingerprintCacheRacyWindow \<le> MaxInt"
    using fit m unfolding times_fit_def by metis+
  show ?thesis using t fits main by (simp add: entry_sound_def)
qed

section \<open>The invariant\<close>

definition cache_sound :: "(string \<Rightarrow> int \<Rightarrow> string) \<Rightarrow> (string \<Rightarrow> int \<Rightarrow> int) \<Rightarrow> (string \<Rightarrow> string \<Rightarrow> Fingerprint) \<Rightarrow> (string \<Rightarrow> int) \<Rightarrow>
    int \<Rightarrow> FingerprintCache \<Rightarrow> bool" where
  "cache_sound content mtime fp lines now c \<longleftrightarrow>
     (\<forall>p e. map_of (fcEntries c) p = Some e \<longrightarrow> entry_sound content mtime fp lines now p e)"

lemma entry_sound_later: "entry_sound content mtime fp lines now p e \<Longrightarrow> now \<le> later \<Longrightarrow> entry_sound content mtime fp lines later p e"
  by (auto simp: entry_sound_def)

lemma cache_sound_later: "cache_sound content mtime fp lines now c \<Longrightarrow> now \<le> later \<Longrightarrow> cache_sound content mtime fp lines later c"
  by (auto simp: cache_sound_def intro: entry_sound_later)

lemma cache_sound_same: "cache_sound content mtime fp lines now c \<Longrightarrow> fcEntries c' = fcEntries c \<Longrightarrow> cache_sound content mtime fp lines now c'"
  by (simp add: cache_sound_def)

lemma cache_sound_update:
  assumes "cache_sound content mtime fp lines now c" "entry_sound content mtime fp lines now p e" "fcEntries c' = AList.update p e (fcEntries c)"
  shows "cache_sound content mtime fp lines now c'"
  using assms by (auto simp: cache_sound_def update_conv')

lemma HashFile_entries:
  assumes "cache_HashFile (Some c) p before hashedAt hashed after = (Some c', res)"
  obtains "fcEntries c' = fcEntries c"
  | f b a where "hashed = Inr f" "before = Some b" "after = Some a" "stMtime a = stMtime b"
      "fcEntries c' = AList.update p \<lparr>ceSize = stSize b, ceMtimeNS = stMtime b, ceHashedAtNS = hashedAt, ceFingerprint = f\<lparr>fpRole := []\<rparr>,
         ceLines = None\<rparr> (fcEntries c)"
  using assms by (auto simp: cache_HashFile_def Let_def split: option.splits if_splits sum.splits)

lemma FileLines_entries:
  assumes "cache_FileLines (Some c) p before counted after = (Some c', res)"
  obtains "fcEntries c' = fcEntries c"
  | n e a where "counted = Inr n" "map_of (fcEntries c) p = Some e" "after = Some a" "ceMtimeNS e = stMtime a"
      "fcEntries c' = AList.update p (e\<lparr>ceLines := Some n\<rparr>) (fcEntries c)"
  using assms by (auto simp: cache_FileLines_def Let_def split: option.splits if_splits sum.splits)

lemma Save_entries:
  assumes "cache_Save (Some c) prune writes dirOk writeOk = (Some c', written)" "map_of (fcEntries c') p = Some e" "distinct (map fst (fcEntries c))"
  shows "map_of (fcEntries c) p = Some e"
proof -
  have "fcEntries c' = fcEntries c \<or> fcEntries c' = filter (\<lambda>(p, _). p \<in> set (fcSeen c)) (fcEntries c)"
    using assms(1) by (auto simp: cache_Save_def Let_def split: if_splits)
  moreover have "(p, e) \<in> set (fcEntries c')" using assms(2) by (rule map_of_SomeD)
  ultimately have "(p, e) \<in> set (fcEntries c)" by auto
  then show ?thesis using assms(3) by simp
qed

lemma Save_distinct:
  assumes "cache_Save (Some c) prune writes dirOk writeOk = (Some c', written)" "distinct (map fst (fcEntries c))"
  shows "distinct (map fst (fcEntries c'))"
  using assms by (auto simp: cache_Save_def Let_def distinct_map_filter split: if_splits)

lemma cache_run_sound:
  assumes "cache_run content mtime fp lines t c" and ws: "writes_stamped content mtime" and fit: "times_fit mtime"
  shows "cache_sound content mtime fp lines t c \<and> distinct (map fst (fcEntries c))"
  using assms(1)
proof induction
  case (run_open t off)
  then show ?case by (simp add: cache_sound_def empty_cache_def)
next
  case (run_wait t c t')
  then show ?case by (auto intro: cache_sound_later)
next
  case (run_hash t1 c t2 t4 p before after hashed c' res)
  have late: "cache_sound content mtime fp lines t4 c" 
    using run_hash.IH run_hash.hyps(2,3) by (auto intro: cache_sound_later)
  from run_hash.hyps(7) show ?case
  proof (cases rule: HashFile_entries)
    case 1
    then show ?thesis using late cache_sound_same run_hash.IH by auto
  next
    case (2 f b a)
    have "entry_sound content mtime fp lines t4 p \<lparr>ceSize = stSize b, ceMtimeNS = stMtime b, ceHashedAtNS = t2,
        ceFingerprint = f\<lparr>fpRole := []\<rparr>, ceLines = None\<rparr>"
    proof (rule stored_entry_sound [of content mtime t1 t2 t4 p b a, OF ws fit run_hash.hyps(2,3)])
      show "stat_at content mtime p t1 b" "stat_at content mtime p t4 a" using run_hash.hyps(4,5) 2(2,3) by (simp_all add: opt_stat_at_def)
      show "stMtime a = stMtime b" by (rule 2(4))
      show "f = fp p (content p t2)" if "\<forall>s. t2 \<le> s \<and> s \<le> t4 \<longrightarrow> content p s = content p t2"
        using run_hash.hyps(6) [OF 2(1) that] .
    qed
    then show ?thesis using cache_sound_update [OF late _ 2(5)] run_hash.IH by (simp add: 2(5) distinct_update)
  qed
next
  case (run_lines t1 c t2 t4 p after counted before c' res)
  have late: "cache_sound content mtime fp lines t4 c" 
    using run_lines.IH run_lines.hyps(2,3) by (auto intro: cache_sound_later)
  from run_lines.hyps(6) show ?case
  proof (cases rule: FileLines_entries)
    case 1
    then show ?thesis using late cache_sound_same run_lines.IH by auto
  next
    case (2 n e a)
    have e1: "entry_sound content mtime fp lines t1 p e" using run_lines.IH 2(2) by (simp add: cache_sound_def)
    have m: "mtime p t4 = ceMtimeNS e" using run_lines.hyps(4) 2(3,4) by (simp add: opt_stat_at_def stat_at_def)
    have n: "n = lines (content p (ceHashedAtNS e))" if w: "ceMtimeNS e + fingerprintCacheRacyWindow < ceHashedAtNS e"
    proof -
      have h: "ceHashedAtNS e \<le> t1" using e1 by (simp add: entry_sound_def)
      have u: "content p s = content p (ceHashedAtNS e)" if "t2 \<le> s" "s \<le> t4" for s
        using unchanged_while_stamped [of content mtime "ceMtimeNS e" "ceHashedAtNS e" t4 p s, OF ws w _ m] h that run_lines.hyps(2,3) by simp
      have "n = lines (content p t2)" by (rule run_lines.hyps(5) [OF 2(1)]) (use u run_lines.hyps(3) in auto)
      then show ?thesis using u [of t2] run_lines.hyps(3) by simp
    qed
    have "entry_sound content mtime fp lines t4 p (e\<lparr>ceLines := Some n\<rparr>)"
      using entry_sound_later [OF e1, of t4] run_lines.hyps(2,3) n by (auto simp: entry_sound_def)
    then show ?thesis using cache_sound_update [OF late _ 2(5)] run_lines.IH by (simp add: 2(5) distinct_update)
  qed
next
  case (run_known t c p st c' res)
  then have "fcEntries c' = fcEntries c" by (auto simp: KnownLines_def split: option.splits if_splits)
  then show ?case using run_known cache_sound_same by auto
next
  case (run_save t c prune writes dirOk writeOk c' written)
  then show ?case using Save_entries Save_distinct unfolding cache_sound_def by blast
next
  case (run_reopen t c off)
  then show ?case by (simp add: cache_sound_def)
qed

text \<open>
  \<^bold>\<open>C10\<close>. The fingerprint cache is sound against racing writers: in every state a cache can reach while other
  processes write the files, a call of its \<open>HashFile\<close> gives what hashing the bytes the file has at that moment gives,
  and known line counts are those of the current bytes, as long as the file system stamps a write with a time no more than the racy
  window (two seconds) before it.
\<close>

theorem fingerprint_cache_sound:
  assumes "cache_run content mtime (\<lambda>p d. HashBytes sha gofmt (ext p) d) lines t c" and "writes_stamped content mtime" "times_fit mtime"
    and "stat_at content mtime p t st"
  shows "snd (cache_HashFile (Some c) p (Some st) now (Inr (HashBytes sha gofmt (ext p) (content p t))) after) =
      Inr (HashBytes sha gofmt (ext p) (content p t)) \<and>
    snd (KnownLines (Some c) p (Some st)) \<in> {None, Some (lines (content p t))}"
proof -
  let ?fp = "\<lambda>p d. HashBytes sha gofmt (ext p) d"
  have sound: "entry_sound content mtime ?fp lines t p e" if "map_of (fcEntries c) p = Some e" for e
    using cache_run_sound [OF assms(1-3)] that by (simp add: cache_sound_def)
  have role: "(HashBytes sha gofmt x d)\<lparr>fpRole := []\<rparr> = HashBytes sha gofmt x d" for x d
    by (cases "gofmt d") (simp_all add: HashBytes_def Let_def)
  have hit: "ceFingerprint e = ?fp p (content p t) \<and> (\<forall>n. ceLines e = Some n \<longrightarrow> n = lines (content p t))"
    if e: "map_of (fcEntries c) p = Some e" "entry_current e st" for e
  proof -
    have s: "entry_sound content mtime ?fp lines t p e" by (rule sound [OF e(1)])
    have w: "ceMtimeNS e + fingerprintCacheRacyWindow < ceHashedAtNS e" and m: "mtime p t = ceMtimeNS e"
      using e(2) assms(4) sound_wrap [OF s] by (simp_all add: entry_current_def stat_at_def)
    have h: "ceHashedAtNS e \<le> t" using s by (simp add: entry_sound_def)
    have "content p t = content p (ceHashedAtNS e)"
      using unchanged_while_stamped [OF assms(2) w h m h order_refl] by simp
    then show ?thesis using s w by (simp add: entry_sound_def role)
  qed
  have 1: "snd (cache_HashFile (Some c) p (Some st) now (Inr (?fp p (content p t))) after) = Inr (?fp p (content p t))"
    using hit by (auto simp: cache_HashFile_def Let_def role split: option.splits if_splits)
  have 2: "snd (KnownLines (Some c) p (Some st)) \<in> {None, Some (lines (content p t))}"
    using hit by (auto simp: KnownLines_def split: option.splits if_splits)
  show ?thesis using 1 2 by blast
qed

theorem fingerprint_cache_sound_witness:
  "let f = HashBytes id (\<lambda>_. None) [] ''a''; st = \<lparr>stRegular = True, stSize = 1, stMtime = 0\<rparr>;
       c = fst (cache_HashFile (Some (empty_cache False)) ''p'' (Some st) 3000000000 (Inr f) (Some st)) in
   c \<noteq> None \<and> snd (cache_HashFile c ''p'' (Some st) 4000000000 (Inr f) None) = Inr f"
proof -
  define f where "f = HashBytes id (\<lambda>_. None) [] ''a''"
  define st where "st = \<lparr>stRegular = True, stSize = 1, stMtime = 0\<rparr>"
  let ?content = "\<lambda>p t. ''a''" and ?mtime = "\<lambda>p t. 0" and ?fp = "\<lambda>p d. HashBytes id (\<lambda>_. None) [] d"
  obtain c res where c: "cache_HashFile (Some (empty_cache False)) ''p'' (Some st) 3000000000 (Inr f) (Some st) = (Some c, res)"
    by (simp add: cache_HashFile_def empty_cache_def st_def Let_def)
  have st: "stat_at ?content ?mtime ''p'' t st" for t by (simp add: stat_at_def st_def)
  have "cache_run ?content ?mtime ?fp (\<lambda>_. 0) 3000000000 c"
    by (rule run_hash [OF run_open [of _ _ _ _ 3000000000 False] order_refl order_refl _ _ _ c]) (simp_all add: opt_stat_at_def st f_def)
  moreover have "writes_stamped ?content ?mtime" "times_fit ?mtime"
    by (simp_all add: writes_stamped_def times_fit_def fingerprintCacheRacyWindow_def MaxInt_def)
  ultimately have "snd (cache_HashFile (Some c) ''p'' (Some st) 4000000000 (Inr f) None) = Inr f"
    using fingerprint_cache_sound [of ?content ?mtime id "\<lambda>_. None" "\<lambda>_. []" "\<lambda>_. 0" 3000000000 c "''p''" st 4000000000 None] st
    by (simp add: f_def)
  then show ?thesis using c by (simp add: Let_def f_def st_def)
qed

section \<open>The memo of the decoded Baseline\<close>

definition memo_sound ::
  "(Baseline \<Rightarrow> string) \<Rightarrow> (string \<Rightarrow> Baseline option) \<Rightarrow> (BudgetPolicy \<Rightarrow> string) \<Rightarrow> (string \<Rightarrow> string) \<Rightarrow> (string \<rightharpoonup> baselineMemoRecord) \<Rightarrow> bool" where
  "memo_sound encode decode json sha memo \<longleftrightarrow>
     (\<forall>path r. memo path = Some r \<longrightarrow>
        (\<exists>data b. load_bytes decode json sha data = LoadOk b \<and> bmDigest r = sha data \<and> bmHeader r = encode (b\<lparr>blFiles := []\<rparr>) \<and> bmFiles r = blFiles b))"

definition header_codec :: "(Baseline \<Rightarrow> string) \<Rightarrow> (string \<Rightarrow> Baseline option) \<Rightarrow> (BudgetPolicy \<Rightarrow> string) \<Rightarrow> (string \<Rightarrow> string) \<Rightarrow> bool" where
  "header_codec encode decode json sha \<longleftrightarrow>
     (\<forall>data b. load_bytes decode json sha data = LoadOk b \<longrightarrow> decode (encode (b\<lparr>blFiles := []\<rparr>)) = Some (b\<lparr>blFiles := []\<rparr>))"

text \<open>What \<open>Load\<close> returns when nothing is remembered.\<close>

definition plain_Load :: "(string \<Rightarrow> Baseline option) \<Rightarrow> (BudgetPolicy \<Rightarrow> string) \<Rightarrow> (string \<Rightarrow> string) \<Rightarrow> file_read \<Rightarrow> load_result" where
  "plain_Load decode json sha file =
     (case file of FileAbsent \<Rightarrow> LoadMissing | FileUnreadable \<Rightarrow> LoadReadFailed | FileBytes data \<Rightarrow> load_bytes decode json sha data)"

lemma baseline_Load_step:
  assumes inj: "inj sha" and codec: "header_codec encode decode json sha" and memo: "memo_sound encode decode json sha memo"
  shows "snd (baseline_Load encode decode json sha off memo path file) = plain_Load decode json sha file \<and>
    memo_sound encode decode json sha (fst (baseline_Load encode decode json sha off memo path file))"
proof (cases "file")
  case (FileBytes data)
  show ?thesis
  proof (cases "lookupBaselineMemo decode sha off memo path data")
    case None
    have "memo_sound encode decode json sha (storeBaselineMemo encode sha off memo path data b)"
      if "load_bytes decode json sha data = LoadOk b" for b
      using memo that by (auto simp: memo_sound_def storeBaselineMemo_def)
    then show ?thesis using None memo by (auto simp: baseline_Load_def plain_Load_def FileBytes split: load_result.splits)
  next
    case (Some b)
    then obtain r h where r: "memo path = Some r" "bmDigest r = sha data" "decode (bmHeader r) = Some h" "b = h\<lparr>blFiles := bmFiles r\<rparr>"
      by (auto simp: lookupBaselineMemo_def split: if_splits option.splits)
    then obtain data' b' where d: "load_bytes decode json sha data' = LoadOk b'" "bmDigest r = sha data'"
      "bmHeader r = encode (b'\<lparr>blFiles := []\<rparr>)" "bmFiles r = blFiles b'"
      using memo unfolding memo_sound_def by blast
    have "data' = data" using inj d(2) r(2) by (simp add: inj_eq)
    moreover have "h = b'\<lparr>blFiles := []\<rparr>" using codec d(1,3) r(3) unfolding header_codec_def by auto
    then have "b = b'" using r(4) d(4) by simp
    ultimately show ?thesis using Some memo d(1) by (simp add: baseline_Load_def plain_Load_def FileBytes)
  qed
qed (use memo in \<open>simp_all add: baseline_Load_def plain_Load_def\<close>)

text \<open>A process that loads Baselines one after the other, carrying its memo.\<close>

fun load_all ::
  "(Baseline \<Rightarrow> string) \<Rightarrow> (string \<Rightarrow> Baseline option) \<Rightarrow> (BudgetPolicy \<Rightarrow> string) \<Rightarrow> (string \<Rightarrow> string) \<Rightarrow> bool \<Rightarrow> (string \<rightharpoonup> baselineMemoRecord) \<Rightarrow>
   (string \<times> file_read) list \<Rightarrow> load_result list" where
  "load_all encode decode json sha off memo [] = []"
| "load_all encode decode json sha off memo ((path, file) # reads) =
     (let (memo', res) = baseline_Load encode decode json sha off memo path file in
      res # load_all encode decode json sha off memo' reads)"

lemma load_all_sound:
  assumes "inj sha" "header_codec encode decode json sha" "memo_sound encode decode json sha memo"
  shows "load_all encode decode json sha off memo reads = map (plain_Load decode json sha \<circ> snd) reads"
  using assms(3)
proof (induction reads arbitrary: memo)
  case (Cons x reads)
  then show ?case using baseline_Load_step [OF assms(1,2) Cons.prems, of off "fst x" "snd x"] by (cases x) (auto simp: split: prod.splits)
qed simp

text \<open>
  \<^bold>\<open>C19\<close>. The memo is invisible: a process that loads Baselines one after the other, while the files change under
  it in any way, gets from every load what decoding and validating the bytes it read gives, errors included. Needed are a
  digest without collisions and a codec that decodes the header it encoded of a document it had loaded.
\<close>

theorem Load_memo_refines:
  assumes "inj sha" "header_codec encode decode json sha"
  shows "load_all encode decode json sha off Map.empty reads = map (\<lambda>(_, file). plain_Load decode json sha file) reads"
proof -
  have "memo_sound encode decode json sha Map.empty" by (simp add: memo_sound_def)
  from load_all_sound [OF assms this] show ?thesis by (simp add: comp_def case_prod_unfold)
qed

theorem Load_memo_refines_witness:
  "load_all (\<lambda>_. []) (\<lambda>_. Some (NewBaseline ''t'' [])) (\<lambda>_. []) id False Map.empty [(''p'', FileBytes ''x''), (''p'', FileBytes ''x''), (''p'', FileAbsent)] =
   [LoadOk (NewBaseline ''t'' []), LoadOk (NewBaseline ''t'' []), LoadMissing]"
proof -
  have l: "load_bytes (\<lambda>_. Some (NewBaseline ''t'' [])) (\<lambda>_. []) id d = LoadOk (NewBaseline ''t'' [])" for d
    by (simp add: load_bytes_def NewBaseline_def validateDatabaseCognitionBindings_def validateManagedScope_def)
  have "header_codec (\<lambda>_. []) (\<lambda>_. Some (NewBaseline ''t'' [])) (\<lambda>_. []) id"
    unfolding header_codec_def l by (simp add: NewBaseline_def)
  from Load_memo_refines [OF inj_on_id this] show ?thesis by (simp add: plain_Load_def l del: load_all.simps)
qed

end
