(* ===== verification/Fs_Lock.thy ===== *)
theory Fs_Lock
  imports Go_Prelude
begin

text \<open>
  The cross-process lock (\<open>internal/fs/lock.go\<close>) on a file system with hard links, as processes that make one system call
  at a time. Each attempt to take the lock prepares a file of its own, named here by a number that stands for its inode and for the
  token and identity written in it; publishing links it to the lock's name, which fails when the name is taken. A stale lock
  whose owner has exited is moved away under a tombstone name that its content determines. The directory lock of file
  systems without hard links (\<open>publishPreparedDirectoryLock\<close>, \<open>sameDirectoryLockGeneration\<close>) is left out, and so are the lengths of the
  waits: whether a lock file is older than the staleness threshold is an answer of the clock.
\<close>

section \<open>One attempt\<close>

text \<open>
  What an attempt comes to: the lock, another attempt at once, a wait, an error, or the directory lock, when the link fails for
  another reason than a name that is taken or missing.
\<close>

datatype round_result = Acquired | RetryNow | Waiting | RoundFailed | UseDirectory

datatype link_answer = LinkOk | LinkExists | LinkMissing | LinkError

datatype remove_answer = RemoveOk | RemoveMissing | RemoveError

text \<open>
  Where an attempt stands: before which system call. \<open>f\<close> is the lock file it has observed: \<open>Recheck\<close> compares the name
  with it, \<open>JudgeOwner\<close> asks for its age and its owner's process, \<open>LinkTomb\<close> links the lock's name to its tombstone,
  \<open>StatFresh\<close> and \<open>StatRelay\<close> compare tombstone and name with it, \<open>RemoveFresh\<close> and \<open>RemoveRelay\<close> remove the lock's name,
  \<open>DropTomb\<close> removes the tombstone again.
\<close>

datatype lock_pc =
    LinkLock
  | OpenOwner
  | Recheck nat
  | JudgeOwner nat
  | LinkTomb nat
  | StatFresh nat
  | StatRelay nat
  | RemoveFresh nat
  | RemoveRelay nat
  | DropTomb nat round_result
  | Round round_result

definition tryCreateLock :: "link_answer \<Rightarrow> lock_pc" where
  "tryCreateLock ans =
     (case ans of LinkOk \<Rightarrow> Round Acquired | LinkExists \<Rightarrow> OpenOwner | LinkMissing \<Rightarrow> Round RoundFailed | LinkError \<Rightarrow> Round UseDirectory)"

text \<open>The owner file is gone, the name has changed: released in between, so the loop goes round at once.\<close>

definition observe_open :: "nat option \<Rightarrow> lock_pc" where
  "observe_open ans = (case ans of None \<Rightarrow> Round RetryNow | Some f \<Rightarrow> Recheck f)"

definition observe_recheck :: "nat \<Rightarrow> bool \<Rightarrow> lock_pc" where
  "observe_recheck f same = (if same then JudgeOwner f else Round RetryNow)"

text \<open>\<open>staleOwnerIsDead\<close> over what the operating system says of the recorded process.\<close>

datatype process_answer = ProcessUnknown | ProcessGone | ProcessAlive string

definition staleOwnerIsDead :: "string \<Rightarrow> process_answer \<Rightarrow> bool" where
  "staleOwnerIsDead recordedIdentity ans =
     (case ans of
        ProcessUnknown \<Rightarrow> False
      | ProcessGone \<Rightarrow> True
      | ProcessAlive identity \<Rightarrow> recordedIdentity \<noteq> [] \<and> identity \<noteq> [] \<and> recordedIdentity \<noteq> identity)"

definition judge_owner :: "nat \<Rightarrow> bool \<Rightarrow> bool \<Rightarrow> lock_pc" where
  "judge_owner f olderThanStale ownerDead = (if olderThanStale \<and> ownerDead then LinkTomb f else Round Waiting)"

definition quarantine_link :: "nat \<Rightarrow> link_answer \<Rightarrow> lock_pc" where
  "quarantine_link f ans =
     (case ans of LinkMissing \<Rightarrow> Round Waiting | LinkExists \<Rightarrow> StatRelay f | LinkError \<Rightarrow> Round RoundFailed | LinkOk \<Rightarrow> StatFresh f)"

definition quarantine_stat_relay :: "nat \<Rightarrow> bool \<Rightarrow> lock_pc" where
  "quarantine_stat_relay f same = (if same then RemoveRelay f else Round Waiting)"

definition quarantine_remove_relay :: "remove_answer \<Rightarrow> lock_pc" where
  "quarantine_remove_relay ans =
     (case ans of RemoveOk \<Rightarrow> Round RetryNow | RemoveMissing \<Rightarrow> Round Waiting | RemoveError \<Rightarrow> Round RoundFailed)"

definition quarantine_stat_fresh :: "nat \<Rightarrow> bool \<Rightarrow> lock_pc" where
  "quarantine_stat_fresh f same = (if same then RemoveFresh f else DropTomb f Waiting)"

definition quarantine_remove_fresh :: "nat \<Rightarrow> remove_answer \<Rightarrow> lock_pc" where
  "quarantine_remove_fresh f ans =
     (case ans of RemoveOk \<Rightarrow> Round RetryNow | RemoveMissing \<Rightarrow> DropTomb f Waiting | RemoveError \<Rightarrow> DropTomb f RoundFailed)"

section \<open>Processes and the directory\<close>

text \<open>
  A process is idle, trying with the file it prepared, in its critical section, about to read the owner or to remove the
  name in \<open>Release\<close>, or gone.
\<close>

datatype lock_proc = PIdle | PTry nat lock_pc | PHold nat | PReadOwner nat | PRemoveOwn nat | PGone

record lock_world =
  lwCanon :: "nat option"
  lwTomb :: "nat \<Rightarrow> nat option"
  lwOwner :: "nat \<Rightarrow> nat"
  lwNext :: nat
  lwProc :: "nat \<Rightarrow> lock_proc"

definition initial_lock_world :: lock_world where
  "initial_lock_world = \<lparr>lwCanon = None, lwTomb = (\<lambda>_. None), lwOwner = (\<lambda>_. 0), lwNext = 0, lwProc = (\<lambda>_. PIdle)\<rparr>"

definition set_proc :: "lock_world \<Rightarrow> nat \<Rightarrow> lock_proc \<Rightarrow> lock_world" where
  "set_proc w p s = w\<lparr>lwProc := (lwProc w)(p := s)\<rparr>"

text \<open>\<open>Release\<close> removes the lock only when the file under the lock's name carries its own token.\<close>

definition Release_read :: "nat \<Rightarrow> nat option \<Rightarrow> lock_proc" where
  "Release_read own ans = (case ans of None \<Rightarrow> PIdle | Some f \<Rightarrow> if f \<noteq> own then PIdle else PRemoveOwn own)"

text \<open>An attempt is recovering from the moment it has found the owner dead until its last call.\<close>

fun recovering :: "lock_proc \<Rightarrow> bool" where
  "recovering (PTry _ (LinkTomb _)) = True"
| "recovering (PTry _ (StatFresh _)) = True"
| "recovering (PTry _ (StatRelay _)) = True"
| "recovering (PTry _ (RemoveFresh _)) = True"
| "recovering (PTry _ (RemoveRelay _)) = True"
| "recovering (PTry _ (DropTomb _ _)) = True"
| "recovering _ = False"

text \<open>
  One system call of one process, or its death. What the operating system says of a recorded process is true: it calls an owner dead
  only when that process is gone. With \<open>excl\<close>, a process starts to recover a lock only while no other process
  does.
\<close>

inductive lock_step :: "bool \<Rightarrow> lock_world \<Rightarrow> lock_world \<Rightarrow> bool" for excl where
  prepare: "lwProc w p = PIdle \<or> (\<exists>f. lwProc w p = PTry f (Round RetryNow)) \<or> (\<exists>f. lwProc w p = PTry f (Round Waiting)) \<Longrightarrow>
    lock_step excl w (set_proc (w\<lparr>lwOwner := (lwOwner w)(lwNext w := p), lwNext := Suc (lwNext w)\<rparr>) p (PTry (lwNext w) LinkLock))"
| give_up: "lwProc w p = PTry f (Round Waiting) \<or> lwProc w p = PTry f (Round RoundFailed) \<Longrightarrow> lock_step excl w (set_proc w p PIdle)"
| link_ok: "lwProc w p = PTry f LinkLock \<Longrightarrow> lwCanon w = None \<Longrightarrow>
    lock_step excl w (set_proc (w\<lparr>lwCanon := Some f\<rparr>) p (PTry f (tryCreateLock LinkOk)))"
| link_exists: "lwProc w p = PTry f LinkLock \<Longrightarrow> lwCanon w \<noteq> None \<Longrightarrow> lock_step excl w (set_proc w p (PTry f (tryCreateLock LinkExists)))"
| link_fails: "lwProc w p = PTry f LinkLock \<Longrightarrow> lock_step excl w (set_proc w p (PTry f (tryCreateLock LinkError)))"
| open_owner: "lwProc w p = PTry f OpenOwner \<Longrightarrow> lock_step excl w (set_proc w p (PTry f (observe_open (lwCanon w))))"
| recheck: "lwProc w p = PTry f (Recheck g) \<Longrightarrow> lock_step excl w (set_proc w p (PTry f (observe_recheck g (lwCanon w = Some g))))"
| judge: "lwProc w p = PTry f (JudgeOwner g) \<Longrightarrow> (staleOwnerIsDead identity ans \<Longrightarrow> lwProc w (lwOwner w g) = PGone) \<Longrightarrow>
    (excl \<Longrightarrow> judge_owner g old (staleOwnerIsDead identity ans) = LinkTomb g \<Longrightarrow> \<forall>q. \<not> recovering (lwProc w q)) \<Longrightarrow>
    lock_step excl w (set_proc w p (PTry f (judge_owner g old (staleOwnerIsDead identity ans))))"
| tomb_link: "lwProc w p = PTry f (LinkTomb g) \<Longrightarrow> lwTomb w g = None \<Longrightarrow> lwCanon w = Some h \<Longrightarrow>
    lock_step excl w (set_proc (w\<lparr>lwTomb := (lwTomb w)(g := Some h)\<rparr>) p (PTry f (quarantine_link g LinkOk)))"
| tomb_exists: "lwProc w p = PTry f (LinkTomb g) \<Longrightarrow> lwTomb w g \<noteq> None \<Longrightarrow> lwCanon w \<noteq> None \<Longrightarrow>
    lock_step excl w (set_proc w p (PTry f (quarantine_link g LinkExists)))"
| tomb_missing: "lwProc w p = PTry f (LinkTomb g) \<Longrightarrow> lwCanon w = None \<Longrightarrow> lock_step excl w (set_proc w p (PTry f (quarantine_link g LinkMissing)))"
| tomb_fails: "lwProc w p = PTry f (LinkTomb g) \<Longrightarrow> lock_step excl w (set_proc w p (PTry f (quarantine_link g LinkError)))"
| stat_fresh: "lwProc w p = PTry f (StatFresh g) \<Longrightarrow>
    lock_step excl w (set_proc w p (PTry f (quarantine_stat_fresh g (lwTomb w g = Some g \<and> lwCanon w = Some g))))"
| stat_relay: "lwProc w p = PTry f (StatRelay g) \<Longrightarrow>
    lock_step excl w (set_proc w p (PTry f (quarantine_stat_relay g (lwTomb w g = Some g \<and> lwCanon w = Some g))))"
| remove_fresh: "lwProc w p = PTry f (RemoveFresh g) \<Longrightarrow>
    lock_step excl w (set_proc (w\<lparr>lwCanon := None\<rparr>) p (PTry f (quarantine_remove_fresh g (if lwCanon w = None then RemoveMissing else RemoveOk))))"
| remove_fresh_fails: "lwProc w p = PTry f (RemoveFresh g) \<Longrightarrow> lock_step excl w (set_proc w p (PTry f (quarantine_remove_fresh g RemoveError)))"
| remove_relay: "lwProc w p = PTry f (RemoveRelay g) \<Longrightarrow>
    lock_step excl w (set_proc (w\<lparr>lwCanon := None\<rparr>) p (PTry f (quarantine_remove_relay (if lwCanon w = None then RemoveMissing else RemoveOk))))"
| remove_relay_fails: "lwProc w p = PTry f (RemoveRelay g) \<Longrightarrow> lock_step excl w (set_proc w p (PTry f (quarantine_remove_relay RemoveError)))"
| drop_tomb: "lwProc w p = PTry f (DropTomb g r) \<Longrightarrow> lock_step excl w (set_proc (w\<lparr>lwTomb := (lwTomb w)(g := None)\<rparr>) p (PTry f (Round r)))"
| enter: "lwProc w p = PTry f (Round Acquired) \<Longrightarrow> lock_step excl w (set_proc w p (PHold f))"
| release: "lwProc w p = PHold f \<Longrightarrow> lock_step excl w (set_proc w p (PReadOwner f))"
| release_read: "lwProc w p = PReadOwner f \<Longrightarrow> lock_step excl w (set_proc w p (Release_read f (lwCanon w)))"
| release_remove: "lwProc w p = PRemoveOwn f \<Longrightarrow> lock_step excl w (set_proc (w\<lparr>lwCanon := None\<rparr>) p PIdle)"
| die: "lock_step excl w (set_proc w p PGone)"

definition lock_reachable :: "bool \<Rightarrow> lock_world \<Rightarrow> bool" where
  "lock_reachable excl w \<longleftrightarrow> (lock_step excl)\<^sup>*\<^sup>* initial_lock_world w"

text \<open>In the critical section.\<close>

definition holds_lock :: "lock_world \<Rightarrow> nat \<Rightarrow> bool" where
  "holds_lock w p \<longleftrightarrow> (\<exists>f. lwProc w p = PHold f)"

section \<open>Running a process\<close>

text \<open>
  The next step of a process when no call fails, the observed lock is old and a dead owner is known to be dead; a waiting attempt goes
  round again.
\<close>

definition lock_run1 :: "nat \<Rightarrow> lock_world \<Rightarrow> lock_world" where
  "lock_run1 p w =
     (let next_try = set_proc (w\<lparr>lwOwner := (lwOwner w)(lwNext w := p), lwNext := Suc (lwNext w)\<rparr>) p (PTry (lwNext w) LinkLock) in
      case lwProc w p of
        PIdle \<Rightarrow> next_try
      | PGone \<Rightarrow> w
      | PHold f \<Rightarrow> set_proc w p (PReadOwner f)
      | PReadOwner f \<Rightarrow> set_proc w p (Release_read f (lwCanon w))
      | PRemoveOwn f \<Rightarrow> set_proc (w\<lparr>lwCanon := None\<rparr>) p PIdle
      | PTry f pc \<Rightarrow>
          (case pc of
             LinkLock \<Rightarrow>
               if lwCanon w = None then set_proc (w\<lparr>lwCanon := Some f\<rparr>) p (PTry f (tryCreateLock LinkOk))
               else set_proc w p (PTry f (tryCreateLock LinkExists))
           | OpenOwner \<Rightarrow> set_proc w p (PTry f (observe_open (lwCanon w)))
           | Recheck g \<Rightarrow> set_proc w p (PTry f (observe_recheck g (lwCanon w = Some g)))
           | JudgeOwner g \<Rightarrow>
               set_proc w p (PTry f (judge_owner g True (staleOwnerIsDead [] (if lwProc w (lwOwner w g) = PGone then ProcessGone else ProcessUnknown))))
           | LinkTomb g \<Rightarrow>
               (case lwCanon w of
                  None \<Rightarrow> set_proc w p (PTry f (quarantine_link g LinkMissing))
                | Some h \<Rightarrow>
                    if lwTomb w g = None then set_proc (w\<lparr>lwTomb := (lwTomb w)(g := Some h)\<rparr>) p (PTry f (quarantine_link g LinkOk))
                    else set_proc w p (PTry f (quarantine_link g LinkExists)))
           | StatFresh g \<Rightarrow> set_proc w p (PTry f (quarantine_stat_fresh g (lwTomb w g = Some g \<and> lwCanon w = Some g)))
           | StatRelay g \<Rightarrow> set_proc w p (PTry f (quarantine_stat_relay g (lwTomb w g = Some g \<and> lwCanon w = Some g)))
           | RemoveFresh g \<Rightarrow>
               set_proc (w\<lparr>lwCanon := None\<rparr>) p (PTry f (quarantine_remove_fresh g (if lwCanon w = None then RemoveMissing else RemoveOk)))
           | RemoveRelay g \<Rightarrow>
               set_proc (w\<lparr>lwCanon := None\<rparr>) p (PTry f (quarantine_remove_relay (if lwCanon w = None then RemoveMissing else RemoveOk)))
           | DropTomb g r \<Rightarrow> set_proc (w\<lparr>lwTomb := (lwTomb w)(g := None)\<rparr>) p (PTry f (Round r))
           | Round r \<Rightarrow>
               (case r of Acquired \<Rightarrow> set_proc w p (PHold f) | RetryNow \<Rightarrow> next_try | Waiting \<Rightarrow> next_try | RoundFailed \<Rightarrow> set_proc w p PIdle
                | UseDirectory \<Rightarrow> w)))"

end
