(* ===== verification/Fs_Lock_Laws.thy ===== *)
theory Fs_Lock_Laws
  imports Fs_Lock
begin

text \<open>
  Mutual exclusion: two processes never hold the lock together as long as no two processes recover a stale lock at the same time; and
  a run in which two of them do, and both end in the critical section.
\<close>

section \<open>The invariant\<close>

fun pc_ok :: "lock_world \<Rightarrow> nat \<Rightarrow> lock_pc \<Rightarrow> bool" where
  "pc_ok w f (Recheck g) = (g < lwNext w)"
| "pc_ok w f (JudgeOwner g) = (g < lwNext w)"
| "pc_ok w f (LinkTomb g) = (g < lwNext w \<and> lwProc w (lwOwner w g) = PGone)"
| "pc_ok w f (StatFresh g) = (g < lwNext w \<and> lwProc w (lwOwner w g) = PGone)"
| "pc_ok w f (StatRelay g) = (g < lwNext w \<and> lwProc w (lwOwner w g) = PGone)"
| "pc_ok w f (RemoveFresh g) = (g < lwNext w \<and> lwProc w (lwOwner w g) = PGone \<and> lwCanon w = Some g)"
| "pc_ok w f (RemoveRelay g) = (g < lwNext w \<and> lwProc w (lwOwner w g) = PGone \<and> lwCanon w = Some g)"
| "pc_ok w f (Round r) = (r = Acquired \<longrightarrow> lwCanon w = Some f)"
| "pc_ok w f (DropTomb g r) = (r \<noteq> Acquired)"
| "pc_ok w f LinkLock = True"
| "pc_ok w f OpenOwner = True"

fun proc_ok :: "lock_world \<Rightarrow> nat \<Rightarrow> lock_proc \<Rightarrow> bool" where
  "proc_ok w p (PTry f pc) = (f < lwNext w \<and> lwOwner w f = p \<and> pc_ok w f pc)"
| "proc_ok w p (PHold f) = (f < lwNext w \<and> lwOwner w f = p \<and> lwCanon w = Some f)"
| "proc_ok w p (PReadOwner f) = (f < lwNext w \<and> lwOwner w f = p \<and> lwCanon w = Some f)"
| "proc_ok w p (PRemoveOwn f) = (f < lwNext w \<and> lwOwner w f = p \<and> lwCanon w = Some f)"
| "proc_ok w p PIdle = True"
| "proc_ok w p PGone = True"

definition lock_inv :: "lock_world \<Rightarrow> bool" where
  "lock_inv w \<longleftrightarrow>
     (\<forall>f. lwCanon w = Some f \<longrightarrow> f < lwNext w) \<and> (\<forall>p. proc_ok w p (lwProc w p)) \<and>
     (\<forall>p q. recovering (lwProc w p) \<longrightarrow> recovering (lwProc w q) \<longrightarrow> p = q)"

text \<open>What other processes rely on is kept by a step that changes the name of the lock only when nobody relies on it.\<close>

lemma proc_ok_frame:
  assumes "proc_ok w q s" "lwNext w \<le> lwNext w'" "\<And>f. f < lwNext w \<Longrightarrow> lwOwner w' f = lwOwner w f"
    and "\<And>r. lwProc w r = PGone \<Longrightarrow> lwProc w' r = PGone" "lwCanon w' = lwCanon w"
  shows "proc_ok w' q s"
proof (cases s)
  case (PTry f pc)
  then show ?thesis using assms by (cases pc) auto
qed (use assms in auto)

text \<open>A process relies on the name when it holds the lock or is about to remove a dead one.\<close>

fun relies :: "lock_proc \<Rightarrow> nat \<Rightarrow> bool" where
  "relies (PHold f) g = (f = g)"
| "relies (PReadOwner f) g = (f = g)"
| "relies (PRemoveOwn f) g = (f = g)"
| "relies (PTry f (Round Acquired)) g = (f = g)"
| "relies (PTry f (RemoveFresh h)) g = (h = g)"
| "relies (PTry f (RemoveRelay h)) g = (h = g)"
| "relies _ g = False"

lemma relies_canon: "proc_ok w p s \<Longrightarrow> relies s g \<Longrightarrow> lwCanon w = Some g"
  by (cases "(s, g)" rule: relies.cases) auto

lemma proc_ok_frame_canon:
  assumes "proc_ok w q s" "lwNext w \<le> lwNext w'" "\<And>f. f < lwNext w \<Longrightarrow> lwOwner w' f = lwOwner w f"
    and "\<And>r. lwProc w r = PGone \<Longrightarrow> lwProc w' r = PGone" "\<And>g. \<not> relies s g"
  shows "proc_ok w' q s"
proof (cases s)
  case (PTry f pc)
  show ?thesis
  proof (cases pc)
    case (Round r)
    then show ?thesis using assms(1-4) assms(5) [of f] PTry by (cases r) auto
  next
    case (RemoveFresh g)
    then show ?thesis using assms(5) [of g] PTry by simp
  next
    case (RemoveRelay g)
    then show ?thesis using assms(5) [of g] PTry by simp
  qed (use assms(1-4) PTry in auto)
next
  case (PHold f)
  then show ?thesis using assms(5) [of f] by simp
next
  case (PReadOwner f)
  then show ?thesis using assms(5) [of f] by simp
next
  case (PRemoveOwn f)
  then show ?thesis using assms(5) [of f] by simp
qed simp_all

text \<open>A step of \<open>p\<close> that leaves the lock's name alone.\<close>

lemma lock_inv_local:
  assumes "lock_inv w" "lwProc w p \<noteq> PGone \<or> s = PGone"
    and "lwNext w \<le> lwNext w'" "\<And>f. f < lwNext w \<Longrightarrow> lwOwner w' f = lwOwner w f"
    and "lwCanon w' = lwCanon w" "lwProc w' = (lwProc w)(p := s)" "proc_ok w' p s"
    and "recovering s \<Longrightarrow> recovering (lwProc w p) \<or> (\<forall>q. \<not> recovering (lwProc w q))"
  shows "lock_inv w'"
proof -
  have gone: "lwProc w' r = PGone" if "lwProc w r = PGone" for r using that assms(2,6) by auto
  have "proc_ok w' q (lwProc w' q)" for q
  proof (cases "q = p")
    case True
    then show ?thesis using assms(6,7) by simp
  next
    case False
    have "proc_ok w q (lwProc w q)" using assms(1) by (simp add: lock_inv_def)
    from proc_ok_frame [OF this assms(3,4) gone assms(5)] show ?thesis using assms(6) False by simp
  qed
  moreover have "a = b" if "recovering (lwProc w' a)" "recovering (lwProc w' b)" for a b
    using that assms(1,6,8) unfolding lock_inv_def by (metis fun_upd_apply)
  moreover have "f < lwNext w'" if "lwCanon w' = Some f" for f
    using that assms(1,3,5) unfolding lock_inv_def by (metis less_le_trans)
  ultimately show ?thesis by (simp add: lock_inv_def)
qed

text \<open>A step of \<open>p\<close> that changes the lock's name when no other process relies on it.\<close>

lemma lock_inv_canon:
  assumes "lock_inv w" "lwProc w p \<noteq> PGone"
    and "lwNext w' = lwNext w" "lwOwner w' = lwOwner w" "lwProc w' = (lwProc w)(p := s)" "proc_ok w' p s"
    and "recovering s \<Longrightarrow> recovering (lwProc w p)" "\<And>f. lwCanon w' = Some f \<Longrightarrow> f < lwNext w"
    and "\<And>q g. q \<noteq> p \<Longrightarrow> \<not> relies (lwProc w q) g"
  shows "lock_inv w'"
proof -
  have gone: "lwProc w' r = PGone" if "lwProc w r = PGone" for r using that assms(2,5) by auto
  have "proc_ok w' q (lwProc w' q)" for q
  proof (cases "q = p")
    case True
    then show ?thesis using assms(5,6) by simp
  next
    case False
    have "proc_ok w q (lwProc w q)" using assms(1) by (simp add: lock_inv_def)
    then have "proc_ok w' q (lwProc w q)"
      by (rule proc_ok_frame_canon) (use assms(3,4,9) gone False in auto)
    then show ?thesis using assms(5) False by simp
  qed
  moreover have "a = b" if "recovering (lwProc w' a)" "recovering (lwProc w' b)" for a b
    using that assms(1,5,7) unfolding lock_inv_def by (metis fun_upd_apply)
  moreover have "f < lwNext w'" if "lwCanon w' = Some f" for f using that assms(3,8) by simp
  ultimately show ?thesis by (simp add: lock_inv_def)
qed

lemma lock_inv_set:
  assumes "lock_inv w" "lwProc w p \<noteq> PGone \<or> s = PGone"
    and "lwProc w1 = lwProc w" "lwNext w \<le> lwNext w1" "\<And>f. f < lwNext w \<Longrightarrow> lwOwner w1 f = lwOwner w f"
    and "lwCanon w1 = lwCanon w" "proc_ok (set_proc w1 p s) p s"
    and "recovering s \<Longrightarrow> recovering (lwProc w p) \<or> (\<forall>q. \<not> recovering (lwProc w q))"
  shows "lock_inv (set_proc w1 p s)"
  by (rule lock_inv_local [OF assms(1,2) _ _ _ _ assms(7,8)]) (use assms(3-6) in \<open>simp_all add: set_proc_def\<close>)

lemma lock_inv_set_canon:
  assumes "lock_inv w" "lwProc w p \<noteq> PGone"
    and "lwProc w1 = lwProc w" "lwNext w1 = lwNext w" "lwOwner w1 = lwOwner w" "proc_ok (set_proc w1 p s) p s"
    and "recovering s \<Longrightarrow> recovering (lwProc w p)" "\<And>f. lwCanon w1 = Some f \<Longrightarrow> f < lwNext w"
    and "\<And>q g. q \<noteq> p \<Longrightarrow> \<not> relies (lwProc w q) g"
  shows "lock_inv (set_proc w1 p s)"
  by (rule lock_inv_canon [OF assms(1,2) _ _ _ assms(6,7) _ assms(9)]) (use assms(3-5,8) in \<open>simp_all add: set_proc_def\<close>)

lemma relies_kind:
  "proc_ok w p s \<Longrightarrow> relies s g \<Longrightarrow>
     lwOwner w g = p \<and> s \<noteq> PGone \<and> \<not> recovering s \<or> recovering s \<and> lwProc w (lwOwner w g) = PGone"
  by (cases "(s, g)" rule: relies.cases) auto

lemma relies_excl:
  assumes "lock_inv w" "relies (lwProc w p) g" "relies (lwProc w q) h"
  shows "p = q"
proof -
  have ok: "proc_ok w p (lwProc w p)" "proc_ok w q (lwProc w q)" using assms(1) by (simp_all add: lock_inv_def)
  have "g = h" using relies_canon [OF ok(1) assms(2)] relies_canon [OF ok(2) assms(3)] by simp
  moreover have "p = q" if "recovering (lwProc w p)" "recovering (lwProc w q)" using assms(1) that by (simp add: lock_inv_def)
  ultimately show ?thesis using relies_kind [OF ok(1) assms(2)] relies_kind [OF ok(2) assms(3)] by auto
qed

lemma lock_inv_remove:
  assumes "lock_inv w" "relies (lwProc w p) g" "lwProc w p \<noteq> PGone" "proc_ok (set_proc (w\<lparr>lwCanon := None\<rparr>) p s) p s"
    and "recovering s \<Longrightarrow> recovering (lwProc w p)"
  shows "lock_inv (set_proc (w\<lparr>lwCanon := None\<rparr>) p s)"
proof (rule lock_inv_set_canon [OF assms(1,3)])
  show "\<not> relies (lwProc w q) h" if "q \<noteq> p" for q h using relies_excl [OF assms(1,2)] that by blast
qed (use assms(4,5) in \<open>simp_all add: set_proc_def\<close>)

lemmas lock_calls =
  tryCreateLock_def observe_open_def observe_recheck_def judge_owner_def quarantine_link_def quarantine_stat_relay_def
  quarantine_remove_relay_def quarantine_stat_fresh_def quarantine_remove_fresh_def Release_read_def

lemma lock_step_inv:
  assumes "lock_step True w w'" "lock_inv w"
  shows "lock_inv w'"
proof -
  have canon: "lwCanon w = Some f \<Longrightarrow> f < lwNext w" for f using assms(2) by (simp add: lock_inv_def)
  have ok: "proc_ok w p (lwProc w p)" for p using assms(2) by (simp add: lock_inv_def)
  from assms(1) show ?thesis
  proof cases
    case (prepare p)
    show ?thesis unfolding prepare(1)
      by (intro lock_inv_set [OF assms(2)]) (use prepare ok [of p] in \<open>auto simp: set_proc_def lock_calls split: option.splits\<close>)
  next
    case (link_ok p f)
    have "\<not> relies (lwProc w q) g" for q g using relies_canon [OF ok [of q]] link_ok(3) by fastforce
    then show ?thesis unfolding link_ok(1)
      by (intro lock_inv_set_canon [OF assms(2)]) (use link_ok(2,3) ok [of p] in \<open>auto simp: set_proc_def lock_calls\<close>)
  next
    case (open_owner p f)
    show ?thesis unfolding open_owner(1)
      by (intro lock_inv_set [OF assms(2)]) (use open_owner ok [of p] canon in \<open>auto simp: set_proc_def lock_calls split: option.splits\<close>)
  next
    case (judge p f g identity ans old)
    show ?thesis
    proof (cases "old \<and> staleOwnerIsDead identity ans")
      case True
      then have j: "judge_owner g old (staleOwnerIsDead identity ans) = LinkTomb g" by (simp add: judge_owner_def)
      then have "\<forall>q. \<not> recovering (lwProc w q)" "lwProc w (lwOwner w g) = PGone" using judge(3,4) True by simp_all
      then show ?thesis unfolding judge(1) j
        by (intro lock_inv_set [OF assms(2)]) (use judge(2) ok [of p] in \<open>auto simp: set_proc_def\<close>)
    next
      case False
      then show ?thesis unfolding judge(1)
        by (intro lock_inv_set [OF assms(2)]) (use judge(2) ok [of p] in \<open>auto simp: set_proc_def judge_owner_def\<close>)
    qed
  next
    case (stat_fresh p f g)
    show ?thesis unfolding stat_fresh(1)
      by (intro lock_inv_set [OF assms(2)]) (use stat_fresh ok [of p] in \<open>auto simp: set_proc_def lock_calls split: option.splits\<close>)
  next
    case (stat_relay p f g)
    show ?thesis unfolding stat_relay(1)
      by (intro lock_inv_set [OF assms(2)]) (use stat_relay ok [of p] in \<open>auto simp: set_proc_def lock_calls split: option.splits\<close>)
  next
    case (remove_fresh p f g)
    show ?thesis unfolding remove_fresh(1)
      by (intro lock_inv_remove [OF assms(2), of p g]) (use remove_fresh(2) ok [of p] in \<open>auto simp: set_proc_def lock_calls\<close>)
  next
    case (remove_relay p f g)
    show ?thesis unfolding remove_relay(1)
      by (intro lock_inv_remove [OF assms(2), of p g]) (use remove_relay(2) ok [of p] in \<open>auto simp: set_proc_def lock_calls\<close>)
  next
    case (release_remove p f)
    show ?thesis unfolding release_remove(1)
      by (intro lock_inv_remove [OF assms(2), of p f]) (use release_remove(2) ok [of p] in \<open>auto simp: set_proc_def lock_calls\<close>)
  next
    case (release_read p f)
    show ?thesis unfolding release_read(1)
      by (intro lock_inv_set [OF assms(2)]) (use release_read ok [of p] in \<open>auto simp: set_proc_def lock_calls split: option.splits\<close>)
  next
    case (die p)
    show ?thesis unfolding die(1)
      by (intro lock_inv_set [OF assms(2)]) (use die ok [of p] in \<open>auto simp: set_proc_def lock_calls split: option.splits\<close>)
  next
    case (drop_tomb p f g r)
    show ?thesis unfolding drop_tomb(1)
      by (intro lock_inv_set [OF assms(2)]) (use drop_tomb ok [of p] in \<open>auto simp: set_proc_def lock_calls split: option.splits\<close>)
  next
    case (recheck p f g)
    show ?thesis unfolding recheck(1)
      by (intro lock_inv_set [OF assms(2)]) (use recheck ok [of p] in \<open>auto simp: set_proc_def lock_calls split: if_splits\<close>)
  next
    case (tomb_link p f g h)
    show ?thesis unfolding tomb_link(1)
      by (intro lock_inv_set [OF assms(2)]) (use tomb_link ok [of p] in \<open>auto simp: set_proc_def lock_calls split: option.splits\<close>)
  next
    case (enter p f)
    show ?thesis unfolding enter(1)
      by (intro lock_inv_set [OF assms(2)]) (use enter ok [of p] in \<open>auto simp: set_proc_def lock_calls split: option.splits\<close>)
  next
    case (release p f)
    show ?thesis unfolding release(1)
      by (intro lock_inv_set [OF assms(2)]) (use release ok [of p] in \<open>auto simp: set_proc_def lock_calls split: option.splits\<close>)
  next
    case (give_up p f)
    show ?thesis unfolding give_up(1)
      by (intro lock_inv_set [OF assms(2)]) (use give_up ok [of p] in \<open>auto simp: set_proc_def lock_calls split: option.splits\<close>)
  next
    case (link_exists p f)
    show ?thesis unfolding link_exists(1)
      by (intro lock_inv_set [OF assms(2)]) (use link_exists ok [of p] in \<open>auto simp: set_proc_def lock_calls split: option.splits\<close>)
  next
    case (link_fails p f)
    show ?thesis unfolding link_fails(1)
      by (intro lock_inv_set [OF assms(2)]) (use link_fails ok [of p] in \<open>auto simp: set_proc_def lock_calls split: option.splits\<close>)
  next
    case (tomb_exists p f g)
    show ?thesis unfolding tomb_exists(1)
      by (intro lock_inv_set [OF assms(2)]) (use tomb_exists ok [of p] in \<open>auto simp: set_proc_def lock_calls split: option.splits\<close>)
  next
    case (tomb_missing p f g)
    show ?thesis unfolding tomb_missing(1)
      by (intro lock_inv_set [OF assms(2)]) (use tomb_missing ok [of p] in \<open>auto simp: set_proc_def lock_calls split: option.splits\<close>)
  next
    case (tomb_fails p f g)
    show ?thesis unfolding tomb_fails(1)
      by (intro lock_inv_set [OF assms(2)]) (use tomb_fails ok [of p] in \<open>auto simp: set_proc_def lock_calls split: option.splits\<close>)
  next
    case (remove_fresh_fails p f g)
    show ?thesis unfolding remove_fresh_fails(1)
      by (intro lock_inv_set [OF assms(2)]) (use remove_fresh_fails ok [of p] in \<open>auto simp: set_proc_def lock_calls split: option.splits\<close>)
  next
    case (remove_relay_fails p f g)
    show ?thesis unfolding remove_relay_fails(1)
      by (intro lock_inv_set [OF assms(2)]) (use remove_relay_fails ok [of p] in \<open>auto simp: set_proc_def lock_calls split: option.splits\<close>)
  qed
qed

lemma lock_reachable_inv: "lock_reachable True w \<Longrightarrow> lock_inv w"
  unfolding lock_reachable_def
proof (induction rule: rtranclp_induct)
  case base
  show ?case by (simp add: lock_inv_def initial_lock_world_def)
next
  case (step y z)
  then show ?case using lock_step_inv by blast
qed

text \<open>
  \<^bold>\<open>C11\<close>. The lock excludes: in every state that processes can reach by taking, observing, recovering and releasing the
  lock in any interleaving, and dying anywhere, at most one of them is in its critical section, and the lock's name is its own file,
  as long as no two of them recover a stale lock at the same time.
\<close>

theorem lock_mutual_exclusion:
  assumes "lock_reachable True w" "holds_lock w p" "holds_lock w q"
  shows "p = q \<and> (\<exists>f. lwProc w p = PHold f \<and> lwCanon w = Some f \<and> lwOwner w f = p)"
proof -
  have inv: "lock_inv w" by (rule lock_reachable_inv [OF assms(1)])
  obtain f g where f: "lwProc w p = PHold f" and g: "lwProc w q = PHold g" using assms(2,3) by (auto simp: holds_lock_def)
  have "p = q" by (rule relies_excl [OF inv, of p f q g]) (simp_all add: f g)
  moreover have "proc_ok w p (lwProc w p)" using inv by (simp add: lock_inv_def)
  ultimately show ?thesis using f by simp
qed

theorem lock_mutual_exclusion_witness:
  "\<exists>w. lock_reachable True w \<and> holds_lock w 0 \<and> (\<exists>f. lwProc w 0 = PHold f \<and> lwCanon w = Some f \<and> lwOwner w f = 0)"
proof -
  let ?w0 = initial_lock_world
  let ?w1 = "set_proc (?w0\<lparr>lwOwner := (lwOwner ?w0)(lwNext ?w0 := 0), lwNext := Suc (lwNext ?w0)\<rparr>) 0 (PTry (lwNext ?w0) LinkLock)"
  let ?w2 = "set_proc (?w1\<lparr>lwCanon := Some 0\<rparr>) 0 (PTry 0 (tryCreateLock LinkOk))"
  let ?w3 = "set_proc ?w2 0 (PHold 0)"
  have "lock_step True ?w0 ?w1" by (rule prepare) (simp add: initial_lock_world_def)
  moreover have "lock_step True ?w1 ?w2" by (rule link_ok) (simp_all add: initial_lock_world_def set_proc_def)
  moreover have "lock_step True ?w2 ?w3" by (rule enter) (simp add: initial_lock_world_def set_proc_def tryCreateLock_def)
  ultimately have r: "lock_reachable True ?w3" unfolding lock_reachable_def by (auto intro: rtranclp.rtrancl_into_rtrancl)
  have h: "holds_lock ?w3 0" by (simp add: holds_lock_def set_proc_def)
  show ?thesis using r h lock_mutual_exclusion [OF r h h] by blast
qed

section \<open>Runs\<close>

lemma lock_run1_step: "lock_run1 p w = w \<or> lock_step False w (lock_run1 p w)"
proof (cases "lwProc w p")
  case PIdle
  then show ?thesis by (auto simp: lock_run1_def Let_def intro!: prepare)
next
  case (PTry f pc)
  show ?thesis
  proof (cases pc)
    case (JudgeOwner g)
    have "lock_step False w (set_proc w p (PTry f (judge_owner g True
        (staleOwnerIsDead [] (if lwProc w (lwOwner w g) = PGone then ProcessGone else ProcessUnknown)))))"
      by (rule judge) (use PTry JudgeOwner in \<open>auto simp: staleOwnerIsDead_def split: if_splits\<close>)
    then show ?thesis using PTry JudgeOwner by (simp add: lock_run1_def Let_def)
  next
    case (LinkTomb g)
    then show ?thesis using PTry
      by (auto simp: lock_run1_def Let_def split: option.splits intro!: tomb_link tomb_exists tomb_missing)
  next
    case (Round r)
    then show ?thesis using PTry by (cases r) (auto simp: lock_run1_def Let_def intro!: prepare enter give_up)
  next
    case (DropTomb g r)
    then show ?thesis using PTry drop_tomb [of w p f g r False] by (simp add: lock_run1_def Let_def)
  next
    case LinkLock
    then show ?thesis using PTry link_ok [of w p f False] link_exists [of w p f False] by (simp add: lock_run1_def Let_def)
  next
    case OpenOwner
    then show ?thesis using PTry open_owner [of w p f False] by (simp add: lock_run1_def Let_def)
  next
    case (Recheck g)
    then show ?thesis using PTry recheck [of w p f g False] by (simp add: lock_run1_def Let_def)
  next
    case (StatFresh g)
    then show ?thesis using PTry stat_fresh [of w p f g False] by (simp add: lock_run1_def Let_def)
  next
    case (StatRelay g)
    then show ?thesis using PTry stat_relay [of w p f g False] by (simp add: lock_run1_def Let_def)
  next
    case (RemoveFresh g)
    then show ?thesis using PTry remove_fresh [of w p f g False] by (simp add: lock_run1_def Let_def)
  next
    case (RemoveRelay g)
    then show ?thesis using PTry remove_relay [of w p f g False] by (simp add: lock_run1_def Let_def)
  qed
next
  case (PHold f)
  then show ?thesis using release [of w p f False] by (simp add: lock_run1_def Let_def)
next
  case (PReadOwner f)
  then show ?thesis using release_read [of w p f False] by (simp add: lock_run1_def Let_def)
next
  case (PRemoveOwn f)
  then show ?thesis using release_remove [of w p f False] by (simp add: lock_run1_def Let_def)
qed (simp add: lock_run1_def)

lemma lock_run_reachable: "lock_reachable False w \<Longrightarrow> lock_reachable False (foldl (\<lambda>w p. lock_run1 p w) w ps)"
proof (induction ps arbitrary: w)
  case (Cons p ps)
  have "lock_reachable False (lock_run1 p w)"
    using Cons.prems lock_run1_step [of p w] unfolding lock_reachable_def by (auto intro: rtranclp.rtrancl_into_rtrancl)
  then show ?case using Cons.IH by simp
qed simp

text \<open>
  Process 0 takes the lock and dies in its critical section. Processes 1 and 2 both find it stale: 1 publishes the tombstone, 2 finds it
  published, both see that nothing has changed. Process 1 removes the name and takes the lock again; then process 2 removes the name,
  which by now is the lock of process 1, and takes the lock as well.
\<close>

definition relay_race :: lock_world where
  "relay_race =
     foldl (\<lambda>w p. lock_run1 p w)
       (set_proc (foldl (\<lambda>w p. lock_run1 p w) initial_lock_world [0, 0, 0]) 0 PGone)
       ([1, 1, 1, 1, 1] @ [2, 2, 2, 2, 2] @ [1, 1] @ [2, 2] @ [1, 1, 1, 1] @ [2, 2, 2, 2])"

lemma relay_race_reachable: "lock_reachable False relay_race"
proof -
  let ?w = "foldl (\<lambda>w p. lock_run1 p w) initial_lock_world [0, 0, 0]"
  have "lock_reachable False ?w" by (rule lock_run_reachable) (simp add: lock_reachable_def)
  then have "lock_reachable False (set_proc ?w 0 PGone)"
    unfolding lock_reachable_def using die [of False ?w 0] by (rule rtranclp.rtrancl_into_rtrancl)
  then show ?thesis unfolding relay_race_def by (rule lock_run_reachable)
qed

lemma relay_race_procs: "(lwProc relay_race 1, lwProc relay_race 2) = (PHold 3, PHold 4)"
  by (simp add: relay_race_def lock_run1_def set_proc_def initial_lock_world_def lock_calls staleOwnerIsDead_def Let_def)

lemma relay_race_two_holders: "\<exists>w. lock_reachable False w \<and> holds_lock w 1 \<and> holds_lock w 2"
  using relay_race_reachable relay_race_procs by (auto simp: holds_lock_def)

end
