(* ===== verification/Txn_Ledger.thy ===== *)
theory Txn_Ledger
  imports Go_Strings
begin

text \<open>
  The event ledger (\<open>internal/ledger/ledger.go\<close>) and the terminal event of a cognition transaction (\<open>EnsureLedger\<close> in
  \<open>internal/cognitiontxn/transaction.go\<close>). The ledger is the text of its file, \<open>None\<close> when there is none. The JSON codec of one
  event, the clock, the random identifier and the environment are arguments. Of the event's fields the ones with a part in the logic
  have names; \<open>evRest\<close> stands for the others, which are only carried.
\<close>

section \<open>Events\<close>

record Event =
  evSchemaVersion :: int
  evEventID :: string
  evTs :: string
  evOp :: string
  evSource :: string
  evResult :: string
  evAppliedCount :: int
  evRecoveredCount :: int
  evContext :: "string list"
  evIndexSHA256 :: string
  evRecoveryTransactionID :: string
  evPreIndexSHA256 :: string
  evPostIndexSHA256 :: string
  evBaselineSHA256 :: string
  evRest :: string

definition EventSchemaVersion :: int where
  "EventSchemaVersion = 9"

definition maxLedgerLineBytes :: nat where
  "maxLedgerLineBytes = 1048576"

definition normalizeContextValue :: "string \<Rightarrow> string" where
  "normalizeContextValue value = (let v = str_join (Go_Strings.fields value) '' '' in if v = [] then [] else of_runes (take 256 (runes v)))"

definition fillContextField :: "string \<Rightarrow> string \<Rightarrow> string" where
  "fillContextField target environment = (if target \<noteq> [] then target else normalizeContextValue environment)"

text \<open>The nine context fields in order, each with the value of its environment variable.\<close>

definition enrichEvent :: "string \<Rightarrow> string \<Rightarrow> string list \<Rightarrow> Event \<Rightarrow> Event" where
  "enrichEvent eventID now environment ev =
     ev\<lparr>evSchemaVersion := (if evSchemaVersion ev = 0 then EventSchemaVersion else evSchemaVersion ev),
        evEventID := (if evEventID ev = [] then eventID else evEventID ev), evTs := now,
        evResult := (if evResult ev = [] then ''ok'' else evResult ev),
        evContext := map (\<lambda>(t, e). fillContextField t e) (zip (evContext ev) environment)\<rparr>"

section \<open>The file\<close>

text \<open>\<open>writeOk\<close> is whether the file can be opened and written; a failure is reported and changes nothing.\<close>

definition ledger_Append ::
  "(Event \<Rightarrow> string) \<Rightarrow> string \<Rightarrow> string \<Rightarrow> string list \<Rightarrow> bool \<Rightarrow> string option \<Rightarrow> bool \<Rightarrow> Event \<Rightarrow> string option" where
  "ledger_Append encode eventID now environment writeOk file enabled ev =
     (if \<not> enabled \<or> \<not> writeOk then file
      else Some ((case file of None \<Rightarrow> [] | Some content \<Rightarrow> content) @ encode (enrichEvent eventID now environment ev) @ [LF]))"

text \<open>
  The lines \<open>readLedgerLine\<close> delivers: without their terminator, which is a line feed or a carriage return and a line feed; a last
  line without one is delivered like any other.
\<close>

definition ledger_lines :: "string \<Rightarrow> string list" where
  "ledger_lines content =
     (let parts = str_split content [LF] in
      map (\<lambda>l. trim_suffix l [CR]) (butlast parts) @ (if last parts = [] then [] else [last parts]))"

fun read_events :: "(string \<Rightarrow> Event option) \<Rightarrow> string list \<Rightarrow> Event list \<times> nat" where
  "read_events decode [] = ([], 0)"
| "read_events decode (line # rest) =
     (let (events, corrupt) = read_events decode rest in
      if maxLedgerLineBytes < length line then (events, Suc corrupt)
      else if line = [] then (events, corrupt)
      else case decode line of None \<Rightarrow> (events, Suc corrupt) | Some e \<Rightarrow> (e # events, corrupt))"

definition ledger_Recent :: "(string \<Rightarrow> Event option) \<Rightarrow> string option \<Rightarrow> nat \<Rightarrow> Event list \<times> nat" where
  "ledger_Recent decode file n =
     (case file of
        None \<Rightarrow> ([], 0)
      | Some content \<Rightarrow>
          let (events, corrupt) = read_events decode (ledger_lines content) in
          (if 0 < n \<and> n < length events then drop (length events - n) events else events, corrupt))"

section \<open>The terminal event of a transaction\<close>

definition terminalEventEqual :: "Event \<Rightarrow> Event \<Rightarrow> bool" where
  "terminalEventEqual actual expected \<longleftrightarrow>
     evResult actual = evResult expected \<and> evSource actual = evSource expected \<and>
     evAppliedCount actual = evAppliedCount expected \<and> evRecoveredCount actual = evRecoveredCount expected \<and>
     evBaselineSHA256 actual = evBaselineSHA256 expected \<and> evIndexSHA256 actual = evIndexSHA256 expected \<and>
     evPreIndexSHA256 actual = evPreIndexSHA256 expected \<and> evPostIndexSHA256 actual = evPostIndexSHA256 expected"

definition same_transaction :: "Event \<Rightarrow> Event \<Rightarrow> bool" where
  "same_transaction event expected \<longleftrightarrow>
     evOp event = evOp expected \<and> evRecoveryTransactionID event = evRecoveryTransactionID expected"

datatype ledger_error = LedgerRequired | TerminalEventConflict | TerminalEventMissing

definition EnsureLedger ::
  "(Event \<Rightarrow> string) \<Rightarrow> (string \<Rightarrow> Event option) \<Rightarrow> string \<Rightarrow> string \<Rightarrow> string list \<Rightarrow> bool \<Rightarrow> string option \<Rightarrow> bool \<Rightarrow> Event \<Rightarrow>
   string option \<times> ledger_error option" where
  "EnsureLedger encode decode eventID now environment writeOk file enabled expected =
     (if \<not> enabled then (file, Some LedgerRequired)
      else case find (\<lambda>e. same_transaction e expected) (fst (ledger_Recent decode file 0)) of
        Some e \<Rightarrow> (file, if terminalEventEqual e expected then None else Some TerminalEventConflict)
      | None \<Rightarrow>
          let file' = ledger_Append encode eventID now environment writeOk file True expected in
          (file', if list_ex (\<lambda>e. same_transaction e expected \<and> terminalEventEqual e expected) (fst (ledger_Recent decode file' 0))
                  then None else Some TerminalEventMissing))"

definition ledger_EstimateTokens :: "string \<Rightarrow> nat" where
  "ledger_EstimateTokens content = rune_count content * 6 div 10"

section \<open>Laws\<close>

lemma trim_suffix_nil [simp]: "trim_suffix [] p = []"
  by (simp add: trim_suffix_def)

text \<open>Appending a line replaces at most the unterminated last line.\<close>

lemma ledger_lines_append:
  assumes "LF \<notin> set line"
  shows "\<exists>pre. ledger_lines (content @ line @ [LF]) = pre @ [trim_suffix (last (str_split content [LF]) @ line) [CR]] \<and>
    ledger_lines content = pre @ (if last (str_split content [LF]) = [] then [] else [last (str_split content [LF])])"
proof -
  obtain pre l where p: "str_split content [LF] = pre @ [l]" by (metis rev_exhaust str_split_nonempty)
  have l: "LF \<notin> set l" using str_split_char_no_sep [of l content LF] p by simp
  have "content = str_join (pre @ [l]) [LF]" using str_join_split [of "[LF]" content] p by simp
  have "str_split (content @ line @ [LF]) [LF] = pre @ [l @ line, []]"
  proof (cases "pre = []")
    case True
    then have "content = l" using \<open>content = str_join (pre @ [l]) [LF]\<close> by simp
    moreover have "LF \<notin> set (l @ line)" using l assms by simp
    ultimately show ?thesis using True str_split_char_after [of "l @ line" LF "[]"] str_split_char_single [of LF "l @ line"] by simp
  next
    case False
    then have t: "content = str_join pre [LF] @ LF # l" using \<open>content = str_join (pre @ [l]) [LF]\<close> by (simp add: str_join_append)
    then have "str_split (str_join pre [LF]) [LF] @ str_split l [LF] = pre @ [l]"
      using p str_split_char_after [of "str_join pre [LF]" LF l] by simp
    then have pre: "str_split (str_join pre [LF]) [LF] = pre" using str_split_char_single [OF l] by simp
    have "LF \<notin> set (l @ line)" using l assms by simp
    then have "str_split (l @ line @ [LF]) [LF] = [l @ line, []]"
      using str_split_char_after [of "l @ line" LF "[]"] str_split_char_single [of LF "l @ line"] by simp
    then show ?thesis using str_split_char_after [of "str_join pre [LF]" LF "l @ line @ [LF]"] pre by (simp add: t)
  qed
  then show ?thesis using p
    by (intro exI [of _ "map (\<lambda>l. trim_suffix l [CR]) pre"]) (simp add: ledger_lines_def butlast_append)
qed

lemma read_events_append:
  "fst (read_events decode (xs @ ys)) = fst (read_events decode xs) @ fst (read_events decode ys) \<and>
   snd (read_events decode (xs @ ys)) = snd (read_events decode xs) + snd (read_events decode ys)"
  by (induction xs) (auto simp: Let_def split: prod.splits option.splits)

lemma Recent_all: "ledger_Recent decode (Some content) 0 = read_events decode (ledger_lines content)"
  by (simp add: ledger_Recent_def split: prod.splits)

text \<open>What the codec must do for an event to survive in a line of its own.\<close>

definition line_codec_ok :: "(Event \<Rightarrow> string) \<Rightarrow> (string \<Rightarrow> Event option) \<Rightarrow> Event \<Rightarrow> bool" where
  "line_codec_ok encode decode e \<longleftrightarrow>
     decode (encode e) = Some e \<and> encode e \<noteq> [] \<and> LF \<notin> set (encode e) \<and> last (encode e) \<noteq> CR \<and> length (encode e) \<le> maxLedgerLineBytes"

lemma no_suffix_last: "s \<noteq> [] \<Longrightarrow> last s \<noteq> c \<Longrightarrow> trim_suffix s [c] = s"
  by (auto simp: trim_suffix_def has_suffix_iff)

text \<open>A file whose last line is complete.\<close>

definition terminated :: "string option \<Rightarrow> bool" where
  "terminated file \<longleftrightarrow> (case file of None \<Rightarrow> True | Some content \<Rightarrow> content = [] \<or> last content = LF)"

lemma terminated_last: "content = [] \<or> last content = LF \<Longrightarrow> last (str_split content [LF]) = []"
proof -
  assume "content = [] \<or> last content = LF"
  moreover have ?thesis if "content = t @ [LF]" for t using that str_split_char_after [of t LF "[]"] by simp
  ultimately show ?thesis by (metis append_butlast_last_id last.simps str_split_char_Nil)
qed

lemma Recent_Append_pair:
  assumes "terminated file" "line_codec_ok encode decode (enrichEvent eventID now environment ev)"
    and "ledger_Recent decode file 0 = (events, corrupt)"
  shows "ledger_Recent decode (ledger_Append encode eventID now environment True file True ev) 0 =
      (events @ [enrichEvent eventID now environment ev], corrupt)"
proof -
  let ?e = "enrichEvent eventID now environment ev"
  define content where "content = (case file of None \<Rightarrow> [] | Some t \<Rightarrow> t)"
  have t: "last (str_split content [LF]) = []"
    using assms(1) by (intro terminated_last) (auto simp: content_def terminated_def split: option.splits)
  have r: "read_events decode (ledger_lines content) = (events, corrupt)"
  proof (cases "file")
    case None
    then show ?thesis using assms(3) by (simp add: content_def ledger_Recent_def ledger_lines_def)
  next
    case (Some x)
    then show ?thesis using assms(3) by (simp add: content_def Recent_all)
  qed
  have c: "decode (encode ?e) = Some ?e" "encode ?e \<noteq> []" "LF \<notin> set (encode ?e)" "last (encode ?e) \<noteq> CR" "length (encode ?e) \<le> maxLedgerLineBytes"
    using assms(2) by (simp_all add: line_codec_ok_def)
  obtain pre where p: "ledger_lines (content @ encode ?e @ [LF]) = pre @ [trim_suffix (encode ?e) [CR]]" "ledger_lines content = pre"
    using ledger_lines_append [OF c(3), of content] t by auto
  have one: "read_events decode [encode ?e] = ([?e], 0)" using c by simp
  have all: "read_events decode (ledger_lines (content @ encode ?e @ [LF])) = (events @ [?e], corrupt)"
    unfolding p(1) no_suffix_last [OF c(2,4)] using read_events_append [of decode pre "[encode ?e]"] r one
    by (intro prod_eqI) (simp_all only: p(2) fst_conv snd_conv add_0_right)
  have f: "ledger_Append encode eventID now environment True file True ev = Some (content @ encode ?e @ [LF])"
    by (simp add: ledger_Append_def content_def)
  show ?thesis unfolding f Recent_all all ..
qed

text \<open>
  An appended event is read back: when the last line of the ledger is complete, \<open>Recent\<close> delivers after
  \<open>Append\<close> the events of before, corrupt lines counted as before, and then the enriched event; the newest \<open>n\<close> of them
  when asked for \<open>n\<close>.
\<close>

theorem Recent_Append:
  assumes "terminated file" "line_codec_ok encode decode (enrichEvent eventID now environment ev)"
    and "ledger_Recent decode file 0 = (events, corrupt)"
  shows "ledger_Recent decode (ledger_Append encode eventID now environment True file True ev) 0 =
      (events @ [enrichEvent eventID now environment ev], corrupt) \<and>
    fst (ledger_Recent decode (ledger_Append encode eventID now environment True file True ev) 1) = [enrichEvent eventID now environment ev]"
proof -
  have "ledger_Append encode eventID now environment True file True ev \<noteq> None" by (simp add: ledger_Append_def)
  then show ?thesis using Recent_Append_pair [OF assms] by (auto simp: ledger_Recent_def split: prod.splits if_splits)
qed


definition ledger_probe :: Event where
  "ledger_probe = \<lparr>evSchemaVersion = 0, evEventID = [], evTs = [], evOp = ''curate'', evSource = ''cli'', evResult = ''ok'',
     evAppliedCount = 1, evRecoveredCount = 0, evContext = [], evIndexSHA256 = ''i'', evRecoveryTransactionID = ''t1'',
     evPreIndexSHA256 = ''p'', evPostIndexSHA256 = ''q'', evBaselineSHA256 = ''b'', evRest = []\<rparr>"

definition probe_encode :: "Event \<Rightarrow> string" where
  "probe_encode e = evOp e @ '':'' @ evRecoveryTransactionID e"

definition probe_decode :: "string \<Rightarrow> Event option" where
  "probe_decode line = (if line = ''curate:t1'' then Some (enrichEvent ''id'' ''now'' [] ledger_probe) else None)"

lemma probe_codec: "line_codec_ok probe_encode probe_decode (enrichEvent ''id'' ''now'' [] ledger_probe)"
  by (simp add: line_codec_ok_def probe_encode_def probe_decode_def enrichEvent_def ledger_probe_def EventSchemaVersion_def
      maxLedgerLineBytes_def)

lemma Recent_Append_witness:
  "fst (ledger_Recent probe_decode (ledger_Append probe_encode ''id'' ''now'' [] True None True ledger_probe) 1) =
     [enrichEvent ''id'' ''now'' [] ledger_probe]"
  using Recent_Append [of None probe_encode probe_decode "''id''" "''now''" "[]" ledger_probe "[]" 0] probe_codec
  by (simp add: terminated_def ledger_Recent_def)

section \<open>The terminal event\<close>

definition of_transaction :: "(string \<Rightarrow> Event option) \<Rightarrow> string option \<Rightarrow> Event \<Rightarrow> Event list" where
  "of_transaction decode file expected = filter (\<lambda>e. same_transaction e expected) (fst (ledger_Recent decode file 0))"

lemma of_transaction_Some:
  "of_transaction decode (Some content) expected = filter (\<lambda>e. same_transaction e expected) (fst (read_events decode (ledger_lines content)))"
  by (simp add: of_transaction_def Recent_all)

lemma find_none_filter: "find P xs = None \<longleftrightarrow> filter P xs = []"
  by (auto simp: find_None_iff filter_empty_conv)

lemma find_some_filter: "find P xs = Some x \<Longrightarrow> \<exists>ys. filter P xs = x # ys"
  by (induction xs) (auto split: if_splits)

lemma read_events_single: "length (fst (read_events decode [line])) \<le> 1"
  by (simp split: option.splits)

text \<open>An append to a ledger without events of the transaction leaves at most one.\<close>

lemma Append_at_most_one:
  assumes "of_transaction decode file expected = []" "LF \<notin> set (encode (enrichEvent eventID now environment ev))"
  shows "length (of_transaction decode (ledger_Append encode eventID now environment writeOk file enabled ev) expected) \<le> 1"
proof (cases "enabled \<and> writeOk")
  case False
  then have "ledger_Append encode eventID now environment writeOk file enabled ev = file" by (auto simp: ledger_Append_def)
  then show ?thesis using assms(1) by simp
next
  case True
  let ?line = "encode (enrichEvent eventID now environment ev)"
  define content where "content = (case file of None \<Rightarrow> [] | Some t \<Rightarrow> t)"
  have old: "filter (\<lambda>e. same_transaction e expected) (fst (read_events decode (ledger_lines content))) = []"
    using assms(1) by (cases "file") (simp_all add: content_def of_transaction_Some ledger_lines_def)
  obtain pre x rest where p: "ledger_lines (content @ ?line @ [LF]) = pre @ [x]" "ledger_lines content = pre @ rest"
    using ledger_lines_append [OF assms(2)] by blast
  have "filter (\<lambda>e. same_transaction e expected) (fst (read_events decode pre)) = []"
    using old p(2) by (simp add: read_events_append)
  then have "of_transaction decode (Some (content @ ?line @ [LF])) expected =
      filter (\<lambda>e. same_transaction e expected) (fst (read_events decode [x]))"
    by (simp only: of_transaction_Some p(1) read_events_append filter_append append_Nil)
  moreover have "ledger_Append encode eventID now environment writeOk file enabled ev = Some (content @ ?line @ [LF])"
    using True by (simp add: ledger_Append_def content_def)
  ultimately show ?thesis using read_events_single [of decode x] length_filter_le le_trans by metis
qed

lemma EnsureLedger_found:
  assumes "of_transaction decode file expected = e # es"
  shows "EnsureLedger encode decode eventID now environment writeOk file True expected =
    (file, if terminalEventEqual e expected then None else Some TerminalEventConflict)"
proof -
  obtain x where x: "find (\<lambda>e. same_transaction e expected) (fst (ledger_Recent decode file 0)) = Some x"
    using assms find_none_filter [of "\<lambda>e. same_transaction e expected"] by (fastforce simp: of_transaction_def)
  then have "x = e" using find_some_filter [OF x] assms by (simp add: of_transaction_def)
  then show ?thesis using x by (simp add: EnsureLedger_def)
qed

lemma EnsureLedger_absent:
  assumes "of_transaction decode file expected = []"
  shows "EnsureLedger encode decode eventID now environment writeOk file True expected =
    (let file' = ledger_Append encode eventID now environment writeOk file True expected in
     (file', if list_ex (\<lambda>e. terminalEventEqual e expected) (of_transaction decode file' expected) then None else Some TerminalEventMissing))"
proof -
  have "find (\<lambda>e. same_transaction e expected) (fst (ledger_Recent decode file 0)) = None"
    using assms by (simp add: find_none_filter of_transaction_def)
  then show ?thesis by (simp add: EnsureLedger_def of_transaction_def Let_def list_ex_iff) blast
qed

text \<open>
  \<^bold>\<open>C20\<close>. Once \<open>EnsureLedger\<close> has succeeded, whatever it found, every later call for the same event succeeds and leaves
  the ledger as it is; no call adds a second event of the transaction. Of the encoder it is used that a line holds no line feed.
\<close>

theorem EnsureLedger_once:
  assumes "LF \<notin> set (encode (enrichEvent eventID now environment expected))"
    and "EnsureLedger encode decode eventID now environment writeOk file True expected = (file', r)"
  shows "(r = None \<longrightarrow> EnsureLedger encode decode eventID' now' environment' writeOk' file' True expected = (file', None)) \<and>
    length (of_transaction decode file' expected) \<le> max 1 (length (of_transaction decode file expected))"
proof (cases "of_transaction decode file expected")
  case (Cons e es)
  note f = EnsureLedger_found [OF Cons]
  then have "file' = file" "r = None \<Longrightarrow> terminalEventEqual e expected" using assms(2) by (auto split: if_splits)
  then show ?thesis using f by auto
next
  case Nil
  note a = EnsureLedger_absent [OF Nil]
  have f': "file' = ledger_Append encode eventID now environment writeOk file True expected" using assms(2) a by (simp add: Let_def)
  have r: "r = (if list_ex (\<lambda>e. terminalEventEqual e expected) (of_transaction decode file' expected) then None else Some TerminalEventMissing)"
    using assms(2) unfolding a f' by (simp only: Let_def prod.inject)
  have one: "length (of_transaction decode file' expected) \<le> 1"
    unfolding f' using Append_at_most_one Nil assms(1) by blast
  have "EnsureLedger encode decode eventID' now' environment' writeOk' file' True expected = (file', None)" if settled: "r = None"
  proof -
    obtain e where e: "e \<in> set (of_transaction decode file' expected)" "terminalEventEqual e expected"
      using r settled by (auto simp: list_ex_iff split: if_splits)
    then have "of_transaction decode file' expected = [e]" using one by (cases "of_transaction decode file' expected") auto
    then show ?thesis using EnsureLedger_found [of decode file' expected e "[]"] e by simp
  qed
  then show ?thesis using one by simp
qed

lemma probe_first:
  "EnsureLedger probe_encode probe_decode ''id'' ''now'' [] True None True ledger_probe = (Some (''curate:t1'' @ [LF]), None)"
proof -
  have "ledger_Append probe_encode ''id'' ''now'' [] True None True ledger_probe = Some (''curate:t1'' @ [LF])"
    by (simp add: ledger_Append_def probe_encode_def enrichEvent_def ledger_probe_def)
  moreover have "fst (ledger_Recent probe_decode None 0) = []" by (simp add: ledger_Recent_def)
  moreover have "ledger_Recent probe_decode (Some (''curate:t1'' @ [LF])) 0 = ([enrichEvent ''id'' ''now'' [] ledger_probe], 0)"
    using Recent_Append_pair [of None probe_encode probe_decode "''id''" "''now''" "[]" ledger_probe "[]" 0] probe_codec
    by (simp add: terminated_def ledger_Recent_def ledger_Append_def probe_encode_def enrichEvent_def ledger_probe_def)
  ultimately show ?thesis
    by (simp add: EnsureLedger_def same_transaction_def terminalEventEqual_def enrichEvent_def ledger_probe_def)
qed

lemma EnsureLedger_once_witness:
  "EnsureLedger probe_encode probe_decode ''id2'' ''later'' [] False (Some (''curate:t1'' @ [LF])) True ledger_probe =
     (Some (''curate:t1'' @ [LF]), None)"
  using EnsureLedger_once [of probe_encode "''id''" "''now''" "[]" ledger_probe probe_decode True None
      "Some (''curate:t1'' @ [LF])" None "''id2''" "''later''" "[]" False] probe_codec probe_first
  by (simp add: line_codec_ok_def)

text \<open>
  On a writable ledger whose last line is complete, with no event of the transaction, \<open>EnsureLedger\<close> succeeds and
  leaves exactly one event of it, the enriched terminal event, after the old events; the corrupt lines stay out of it.
\<close>

theorem EnsureLedger_records:
  assumes "terminated file" "line_codec_ok encode decode (enrichEvent eventID now environment expected)"
    and "of_transaction decode file expected = []" "evResult expected \<noteq> []"
  shows "\<exists>file'. EnsureLedger encode decode eventID now environment True file True expected = (file', None) \<and>
    of_transaction decode file' expected = [enrichEvent eventID now environment expected] \<and>
    fst (ledger_Recent decode file' 0) = fst (ledger_Recent decode file 0) @ [enrichEvent eventID now environment expected] \<and>
    snd (ledger_Recent decode file' 0) = snd (ledger_Recent decode file 0)"
proof -
  let ?e = "enrichEvent eventID now environment expected"
  let ?file = "ledger_Append encode eventID now environment True file True expected"
  obtain events corrupt where r: "ledger_Recent decode file 0 = (events, corrupt)" by fastforce
  have r': "ledger_Recent decode ?file 0 = (events @ [?e], corrupt)"
    using Recent_Append_pair [OF assms(1,2) r] .
  have "same_transaction ?e expected" by (simp add: same_transaction_def enrichEvent_def)
  then have one: "of_transaction decode ?file expected = [?e]"
    using assms(3) r by (simp add: of_transaction_def r')
  have "terminalEventEqual ?e expected" using assms(4) by (simp add: terminalEventEqual_def enrichEvent_def)
  then have "EnsureLedger encode decode eventID now environment True file True expected = (?file, None)"
    using EnsureLedger_absent [OF assms(3)] one by (simp add: Let_def)
  then show ?thesis using one r r' by (intro exI [of _ ?file]) simp
qed

lemma EnsureLedger_records_witness:
  "\<exists>file'. EnsureLedger probe_encode probe_decode ''id'' ''now'' [] True None True ledger_probe = (file', None) \<and>
    of_transaction probe_decode file' ledger_probe = [enrichEvent ''id'' ''now'' [] ledger_probe]"
  using EnsureLedger_records [of None probe_encode probe_decode "''id''" "''now''" "[]" ledger_probe] probe_codec
  by (simp add: terminated_def of_transaction_def ledger_Recent_def) (auto simp: ledger_probe_def)

text \<open>
  A last line that a crash cut short, without its line feed: the appended event is joined to it, so the first call reports the terminal event
  as missing; the event is recorded by the second call.
\<close>

lemma EnsureLedger_torn_tail:
  "EnsureLedger probe_encode probe_decode ''id'' ''now'' [] True (Some ''cur'') True ledger_probe =
     (Some (''curcurate:t1'' @ [LF]), Some TerminalEventMissing)"
  "EnsureLedger probe_encode probe_decode ''id'' ''now'' [] True (Some (''curcurate:t1'' @ [LF])) True ledger_probe =
     (Some (''curcurate:t1'' @ [LF] @ ''curate:t1'' @ [LF]), None)"
  by code_simp+

end
