(* ===== verification/Txn_Receipts.thy ===== *)
theory Txn_Receipts
  imports Go_Sort
begin

text \<open>
  The receipts of unfinished transactions (\<open>internal/cognitiontxn/transaction.go\<close>): the kind and identifier a filename stands for, the pending
  receipts of the transaction directory, and the two gates that decide whether a transaction may start beside them. The directory
  is the answer of \<open>os.ReadDir\<close>: missing, unreadable, or its entries, each with whether it is a directory.
\<close>

section \<open>Receipt names\<close>

record PendingTransaction =
  txOperation :: string
  txID :: string
  txFilename :: string

definition receiptKinds :: "string list" where
  "receiptKinds =
     [''database-bootstrap'', ''bootstrap'', ''migration'', ''reversal'', ''scope'', ''locale'', ''relocate'', ''remove'', ''entries'', ''header'']"

definition OperationUnknown :: string where
  "OperationUnknown = ''unknown''"

definition LayoutTransaction :: "PendingTransaction \<Rightarrow> bool" where
  "LayoutTransaction t \<longleftrightarrow>
     txOperation t \<in> set [''database-bootstrap'', ''bootstrap'', ''migration'', ''reversal'', ''scope'', ''locale'', ''relocate'']"

definition ParseReceiptName :: "string \<Rightarrow> PendingTransaction option" where
  "ParseReceiptName filename =
     (if \<not> has_suffix filename ''.json'' then None
      else let name = trim_suffix filename ''.json'' in
        case find (\<lambda>prefix. has_prefix name (prefix @ ''-'')) receiptKinds of
          Some prefix \<Rightarrow> Some \<lparr>txOperation = prefix, txID = trim_prefix name (prefix @ ''-''), txFilename = filename\<rparr>
        | None \<Rightarrow> Some \<lparr>txOperation = OperationUnknown, txID = name, txFilename = filename\<rparr>)"

section \<open>Pending receipts\<close>

datatype read_dir = DirMissing | DirFailed | DirEntries "(string \<times> bool) list"

datatype pending_error = ReadDirFailed | OtherPendingTransaction string

definition Pending :: "read_dir \<Rightarrow> (pending_error, PendingTransaction list) result" where
  "Pending dir =
     (case dir of
        DirMissing \<Rightarrow> Inr []
      | DirFailed \<Rightarrow> Inl ReadDirFailed
      | DirEntries entries \<Rightarrow>
          Inr (sort_by (\<lambda>x y. str_le (txFilename x) (txFilename y))
            (List.map_filter (\<lambda>(name, isDir). if isDir \<or> \<not> has_suffix name ''.json'' then None else ParseReceiptName name) entries)))"

definition PendingLayout :: "read_dir \<Rightarrow> (pending_error, PendingTransaction list) result" where
  "PendingLayout dir = result_bind (Pending dir) (\<lambda>all. Inr (filter LayoutTransaction all))"

definition PendingForOperation :: "read_dir \<Rightarrow> string \<Rightarrow> (pending_error, string list) result" where
  "PendingForOperation dir operation =
     result_bind (Pending dir) (\<lambda>all. Inr (map txID (filter (\<lambda>item. txOperation item = operation) all)))"

definition RejectOtherPending :: "read_dir \<Rightarrow> string \<Rightarrow> pending_error option" where
  "RejectOtherPending dir allowedFilename =
     (case Pending dir of
        Inl err \<Rightarrow> Some err
      | Inr pending \<Rightarrow>
          (case find (\<lambda>item. \<not> (txFilename item = allowedFilename \<or> \<not> (LayoutTransaction item \<or> txOperation item = OperationUnknown))) pending of
             Some item \<Rightarrow> Some (OtherPendingTransaction (txFilename item))
           | None \<Rightarrow> None))"

definition OtherPending :: "read_dir \<Rightarrow> string \<Rightarrow> (pending_error, string) result" where
  "OtherPending dir ownFilename =
     result_bind (Pending dir) (\<lambda>pending.
       case find (\<lambda>item. txFilename item \<noteq> ownFilename) pending of Some item \<Rightarrow> Inr (txFilename item) | None \<Rightarrow> Inr [])"

section \<open>Audit actors\<close>

definition actor_first :: "char \<Rightarrow> bool" where
  "actor_first c \<longleftrightarrow> (let b = byte c in (65 \<le> b \<and> b \<le> 90) \<or> (97 \<le> b \<and> b \<le> 122) \<or> (48 \<le> b \<and> b \<le> 57))"

text \<open>The pattern \<open>^[A-Za-z0-9][A-Za-z0-9._@-]{1,127}$\<close>.\<close>

definition auditActorPattern :: "string \<Rightarrow> bool" where
  "auditActorPattern s \<longleftrightarrow>
     2 \<le> length s \<and> length s \<le> 128 \<and> actor_first (hd s) \<and> list_all (\<lambda>c. actor_first c \<or> c \<in> set ''._@-'') (tl s)"

definition ValidAuditActor :: "string \<Rightarrow> bool" where
  "ValidAuditActor actor = auditActorPattern (trim_space actor)"

end
