(* ===== verification/Txn_Receipts_Laws.thy ===== *)
theory Txn_Receipts_Laws
  imports Txn_Receipts
begin

text \<open>
  Laws of the receipts: a filename and a kind with an identifier determine each other, the pending receipts do not depend on the
  order of the directory, and what each gate lets pass, in terms of the names in the directory.
\<close>

section \<open>Names\<close>

lemma kinds_apart: "list_all (\<lambda>k. list_all (\<lambda>l. k = l \<or> \<not> has_prefix (k @ ''-'') (l @ ''-'')) receiptKinds) receiptKinds"
  by code_simp

lemma has_prefix_comparable: "has_prefix s p \<Longrightarrow> has_prefix s q \<Longrightarrow> has_prefix p q \<or> has_prefix q p"
  by (auto simp: has_prefix_iff append_eq_append_conv2)

lemma kind_unique:
  assumes "k \<in> set receiptKinds" "l \<in> set receiptKinds" "has_prefix s (k @ ''-'')" "has_prefix s (l @ ''-'')"
  shows "k = l"
  using has_prefix_comparable [OF assms(3,4)] kinds_apart assms(1,2) by (auto simp: list_all_iff)

lemma find_kind:
  "find (\<lambda>p. has_prefix s (p @ ''-'')) receiptKinds = Some k \<longleftrightarrow> k \<in> set receiptKinds \<and> has_prefix s (k @ ''-'')"
proof
  assume "find (\<lambda>p. has_prefix s (p @ ''-'')) receiptKinds = Some k"
  then show "k \<in> set receiptKinds \<and> has_prefix s (k @ ''-'')" by (auto simp: find_Some_iff)
next
  assume k: "k \<in> set receiptKinds \<and> has_prefix s (k @ ''-'')"
  then obtain l where l: "find (\<lambda>p. has_prefix s (p @ ''-'')) receiptKinds = Some l"
    by (metis (mono_tags, lifting) find_None_iff not_Some_eq)
  then have "l \<in> set receiptKinds" "has_prefix s (l @ ''-'')" by (auto simp: find_Some_iff)
  then show "find (\<lambda>p. has_prefix s (p @ ''-'')) receiptKinds = Some k" using l k kind_unique by blast
qed

lemma parse_stem:
  "ParseReceiptName (s @ ''.json'') =
     (case find (\<lambda>prefix. has_prefix s (prefix @ ''-'')) receiptKinds of
        Some prefix \<Rightarrow> Some \<lparr>txOperation = prefix, txID = trim_prefix s (prefix @ ''-''), txFilename = s @ ''.json''\<rparr>
      | None \<Rightarrow> Some \<lparr>txOperation = OperationUnknown, txID = s, txFilename = s @ ''.json''\<rparr>)"
  by (simp add: ParseReceiptName_def Let_def)

lemma parse_kind: "k \<in> set receiptKinds \<Longrightarrow>
    ParseReceiptName (k @ ''-'' @ i @ ''.json'') = Some \<lparr>txOperation = k, txID = i, txFilename = k @ ''-'' @ i @ ''.json''\<rparr>"
proof -
  assume k: "k \<in> set receiptKinds"
  have p: "k @ ''-'' @ i = (k @ ''-'') @ i" by (simp only: append_assoc)
  have f: "find (\<lambda>p. has_prefix (k @ ''-'' @ i) (p @ ''-'')) receiptKinds = Some k"
    unfolding find_kind p using k by (simp only: has_prefix_append conj_absorb simp_thms)
  have t: "trim_prefix (k @ ''-'' @ i) (k @ ''-'') = i" unfolding p by (rule trim_prefix_append)
  have n: "(k @ ''-'' @ i) @ ''.json'' = k @ ''-'' @ i @ ''.json''" by (simp only: append_assoc)
  show ?thesis using parse_stem [of "k @ ''-'' @ i"] unfolding n by (simp only: f option.case t)
qed

definition names_no_kind :: "string \<Rightarrow> bool" where
  "names_no_kind s \<longleftrightarrow> list_all (\<lambda>k. \<not> has_prefix s (k @ ''-'')) receiptKinds"

lemma names_no_kind_find: "names_no_kind s \<longleftrightarrow> find (\<lambda>p. has_prefix s (p @ ''-'')) receiptKinds = None"
  by (auto simp: names_no_kind_def find_None_iff list_all_iff)

lemma parse_filename: "ParseReceiptName f = Some t \<Longrightarrow> txFilename t = f"
  by (auto simp: ParseReceiptName_def Let_def split: if_splits option.splits)

lemma parse_elim:
  assumes p: "ParseReceiptName filename = Some t"
  obtains "txOperation t \<in> set receiptKinds" "filename = txOperation t @ ''-'' @ txID t @ ''.json''"
  | "txOperation t = OperationUnknown" "filename = txID t @ ''.json''" "names_no_kind (txID t)"
proof -
  obtain s where s: "filename = s @ ''.json''" using p by (auto simp: ParseReceiptName_def has_suffix_iff split: if_splits)
  show thesis
  proof (cases "find (\<lambda>p. has_prefix s (p @ ''-'')) receiptKinds")
    case None
    then show ?thesis using p that(2) by (auto simp: s parse_stem names_no_kind_find)
  next
    case (Some k)
    then have k: "k \<in> set receiptKinds" "has_prefix s (k @ ''-'')" unfolding find_kind by blast+
    then obtain i where "s = k @ ''-'' @ i" by (auto simp: has_prefix_iff)
    then show ?thesis using p parse_kind [OF k(1), of i] that(1) k(1) by (auto simp: s)
  qed
qed

text \<open>
  A receipt's filename and its kind and identifier determine each other: a name is read as kind and identifier exactly when
  it is the kind, a hyphen, the identifier and \<open>.json\<close>, for each of the ten kinds (\<open>bootstrap\<close>, which ends \<open>database-bootstrap\<close>, included);
  every other \<open>.json\<close> name is read as unknown, with its stem for identifier; and names without \<open>.json\<close> are no receipts.
\<close>

theorem ParseReceiptName_roundtrip:
  "ParseReceiptName filename = Some t \<longleftrightarrow>
     txFilename t = filename \<and>
     (txOperation t \<in> set receiptKinds \<and> filename = txOperation t @ ''-'' @ txID t @ ''.json'' \<or>
      txOperation t = OperationUnknown \<and> filename = txID t @ ''.json'' \<and> names_no_kind (txID t))"
proof
  assume p: "ParseReceiptName filename = Some t"
  then show "txFilename t = filename \<and>
     (txOperation t \<in> set receiptKinds \<and> filename = txOperation t @ ''-'' @ txID t @ ''.json'' \<or>
      txOperation t = OperationUnknown \<and> filename = txID t @ ''.json'' \<and> names_no_kind (txID t))"
    using parse_elim [OF p] parse_filename [OF p] by blast
next
  assume a: "txFilename t = filename \<and>
     (txOperation t \<in> set receiptKinds \<and> filename = txOperation t @ ''-'' @ txID t @ ''.json'' \<or>
      txOperation t = OperationUnknown \<and> filename = txID t @ ''.json'' \<and> names_no_kind (txID t))"
  then show "ParseReceiptName filename = Some t"
  proof (cases "txOperation t \<in> set receiptKinds \<and> filename = txOperation t @ ''-'' @ txID t @ ''.json''")
    case True
    then show ?thesis using a parse_kind [of "txOperation t" "txID t"] by (cases t) auto
  next
    case False
    then show ?thesis using a parse_stem [of "txID t"] by (cases t) (auto simp: names_no_kind_find)
  qed
qed

section \<open>Order\<close>

abbreviation receipt_le :: "PendingTransaction \<Rightarrow> PendingTransaction \<Rightarrow> bool" where
  "receipt_le \<equiv> \<lambda>x y. str_le (txFilename x) (txFilename y)"

lemma receipt_antisym:
  "ParseReceiptName (txFilename x) = Some x \<Longrightarrow> ParseReceiptName (txFilename y) = Some y \<Longrightarrow> receipt_le x y \<Longrightarrow> receipt_le y x \<Longrightarrow> x = y"
  by (metis option.inject str_le_antisym)

interpretation receipt_order: total_order_on receipt_le "{t. ParseReceiptName (txFilename t) = Some t}"
proof unfold_locales
  show "receipt_le x y \<or> receipt_le y x" for x y by (rule str_le_total)
  show "receipt_le x z" if "receipt_le x y" "receipt_le y z" for x y z using that by (rule str_le_trans)
  show "x = y" if "x \<in> {t. ParseReceiptName (txFilename t) = Some t}" "y \<in> {t. ParseReceiptName (txFilename t) = Some t}"
    "receipt_le x y" "receipt_le y x" for x y
    using that unfolding mem_Collect_eq by (rule receipt_antisym)
qed

abbreviation receipts :: "(string \<times> bool) list \<Rightarrow> PendingTransaction list" where
  "receipts \<equiv> List.map_filter (\<lambda>(name, isDir). if isDir \<or> \<not> has_suffix name ''.json'' then None else ParseReceiptName name)"

lemma parse_total: "has_suffix f ''.json'' \<Longrightarrow> \<exists>t. ParseReceiptName f = Some t"
  by (auto simp: ParseReceiptName_def Let_def split: option.splits)

lemma receipts_canonical: "set (receipts es) \<subseteq> {t. ParseReceiptName (txFilename t) = Some t}"
  by (auto simp: List.map_filter_def parse_filename split: if_splits)

lemma Pending_entries: "Pending (DirEntries es) = Inr (sort_by receipt_le (receipts es))"
  by (simp add: Pending_def)

lemma receipts_names:
  "mset (map txFilename (filter (\<lambda>t. Q (txFilename t)) (receipts es))) =
     mset (map fst (filter (\<lambda>(name, isDir). \<not> isDir \<and> has_suffix name ''.json'' \<and> Q name) es))"
proof (induction es)
  case (Cons e es)
  obtain name isDir where e: "e = (name, isDir)" by fastforce
  show ?case
  proof (cases "isDir \<or> \<not> has_suffix name ''.json''")
    case False
    then obtain t where "ParseReceiptName name = Some t" "txFilename t = name" using parse_total parse_filename by blast
    then show ?thesis using False Cons e by simp
  qed (use Cons e in auto)
qed simp

lemma sorted_names: "sorted_wrt receipt_le ps \<Longrightarrow> sorted_wrt str_le (map txFilename ps)"
  by (simp add: sorted_wrt_map)

lemma mset_map_filter_eq: "mset xs = mset ys \<Longrightarrow> mset (map f (filter P xs)) = mset (map f (filter P ys))"
  by simp

text \<open>The receipts a condition on the filename selects, in terms of the directory.\<close>

lemma Pending_selects:
  "map txFilename (filter (\<lambda>t. Q (txFilename t)) (sort_by receipt_le (receipts es))) =
     sort_strings (map fst (filter (\<lambda>(name, isDir). \<not> isDir \<and> has_suffix name ''.json'' \<and> Q name) es))"
  (is "?l = sort_strings ?r")
proof -
  have "sorted_wrt receipt_le (filter (\<lambda>t. Q (txFilename t)) (sort_by receipt_le (receipts es)))"
    by (rule sorted_wrt_filter [OF receipt_order.sort_by_sorted])
  then have "sorted_wrt str_le ?l" by (rule sorted_names)
  moreover have "mset ?l = mset ?r"
    using mset_map_filter_eq [OF mset_sort_by] receipts_names by metis
  ultimately show ?thesis
    by (intro str_order.sorted_unique) (simp_all add: sort_strings_by str_order.sort_by_sorted)
qed

lemma map_filter_mset: "mset es = mset es' \<Longrightarrow> mset (List.map_filter f es) = mset (List.map_filter f es')"
  by (simp add: List.map_filter_def)

text \<open>
  The pending receipts are a function of the files in the directory: in whatever order the entries come,
  the list is the same, in increasing order of filename, one receipt for each \<open>.json\<close> file and none for a directory.
\<close>

theorem Pending_order_independent:
  assumes "mset es = mset es'"
  shows "Pending (DirEntries es) = Pending (DirEntries es') \<and>
    (\<exists>ps. Pending (DirEntries es) = Inr ps \<and> sorted_wrt receipt_le ps \<and>
      map txFilename ps = sort_strings (map fst (filter (\<lambda>(name, isDir). \<not> isDir \<and> has_suffix name ''.json'') es)))"
proof -
  have "sort_by receipt_le (receipts es) = sort_by receipt_le (receipts es')"
    by (rule receipt_order.sort_by_permuted [OF map_filter_mset [OF assms] receipts_canonical])
  then show ?thesis using Pending_selects [of "\<lambda>_. True" es] receipt_order.sort_by_sorted [of "receipts es"]
    by (simp add: Pending_entries)
qed

lemma Pending_order_independent_witness:
  "Pending (DirEntries [(''scope-1.json'', False), (''history'', True), (''entries-2.json'', False)]) =
   Pending (DirEntries [(''entries-2.json'', False), (''scope-1.json'', False), (''history'', True)])"
  using Pending_order_independent [of "[(''scope-1.json'', False), (''history'', True), (''entries-2.json'', False)]"
      "[(''entries-2.json'', False), (''scope-1.json'', False), (''history'', True)]"] by simp

section \<open>Gates\<close>

text \<open>The names of the receipts that the write tools leave.\<close>

definition write_receipt_name :: "string \<Rightarrow> bool" where
  "write_receipt_name f \<longleftrightarrow> has_prefix f ''remove-'' \<or> has_prefix f ''entries-'' \<or> has_prefix f ''header-''"

lemma LayoutTransaction_kind: "txOperation t \<in> set receiptKinds \<Longrightarrow>
    LayoutTransaction t \<longleftrightarrow> txOperation t \<notin> {''remove'', ''entries'', ''header''}"
  by (auto simp: LayoutTransaction_def receiptKinds_def)

lemma has_prefix_before_json: "CHR ''-'' \<in> set [last p] \<Longrightarrow> p \<noteq> [] \<Longrightarrow> has_prefix (s @ ''.json'') p \<Longrightarrow> has_prefix s p"
proof -
  assume l: "CHR ''-'' \<in> set [last p]" "p \<noteq> []" and "has_prefix (s @ ''.json'') p"
  then obtain t where t: "s @ ''.json'' = p @ t" by (auto simp: has_prefix_iff)
  then consider u where "s = p @ u" | u where "p = s @ u" "''.json'' = u @ t" "u \<noteq> []"
    unfolding append_eq_append_conv2 by fastforce
  then show ?thesis
  proof cases
    case 2
    have "set u \<subseteq> set ''.json''" using 2(2) by (metis Un_upper1 set_append)
    moreover have "last p \<in> set u" using 2(1,3) by simp
    ultimately show ?thesis using l by auto
  qed simp
qed

lemma write_receipt_kinds: "write_receipt_name f \<longleftrightarrow> (\<exists>k \<in> {''remove'', ''entries'', ''header''}. has_prefix f (k @ ''-''))"
  by (auto simp: write_receipt_name_def)

lemma write_kinds: "{''remove'', ''entries'', ''header''} \<subseteq> set receiptKinds"
  by (simp add: receiptKinds_def)

lemma blocking_receipt:
  assumes "ParseReceiptName (txFilename t) = Some t"
  shows "(LayoutTransaction t \<or> txOperation t = OperationUnknown) \<longleftrightarrow> \<not> write_receipt_name (txFilename t)"
  using assms
proof (cases rule: parse_elim)
  case 1
  have f: "has_prefix (txFilename t) (txOperation t @ ''-'')" by (subst 1(2)) (simp add: has_prefix_iff)
  then have "write_receipt_name (txFilename t) \<longleftrightarrow> txOperation t \<in> {''remove'', ''entries'', ''header''}"
    unfolding write_receipt_kinds using kind_unique [OF 1(1) _ f] write_kinds by blast
  moreover have "txOperation t \<noteq> OperationUnknown" using 1(1) by (auto simp: receiptKinds_def OperationUnknown_def)
  ultimately show ?thesis using LayoutTransaction_kind [OF 1(1)] by blast
next
  case 2
  have "\<not> has_prefix (txFilename t) (k @ ''-'')" if "k \<in> {''remove'', ''entries'', ''header''}" for k
  proof
    assume "has_prefix (txFilename t) (k @ ''-'')"
    then have "has_prefix (txID t) (k @ ''-'')" using has_prefix_before_json [of "k @ ''-''" "txID t"] 2(2) by simp
    then show False using that 2(3) write_kinds by (auto simp: names_no_kind_def list_all_iff)
  qed
  then show ?thesis unfolding write_receipt_kinds using 2(1) by blast
qed

lemma find_hd_filter: "find P xs = (case filter P xs of [] \<Rightarrow> None | x # _ \<Rightarrow> Some x)"
  by (induction xs) auto

text \<open>
  \<^bold>\<open>C27\<close>. A layout transaction is held up by exactly the files of the directory, other than its own receipt, that end in \<open>.json\<close>
  and are no receipt of a write tool: it goes on when there are none, and else is told the least of them. So a pending
  write receipt never holds up a layout transaction, and two closures never wait for each other.
\<close>

theorem RejectOtherPending_decides:
  "RejectOtherPending (DirEntries es) allowed =
     (case sort_strings (map fst (filter (\<lambda>(name, isDir).
        \<not> isDir \<and> has_suffix name ''.json'' \<and> name \<noteq> allowed \<and> \<not> write_receipt_name name) es)) of
        [] \<Rightarrow> None | name # _ \<Rightarrow> Some (OtherPendingTransaction name))"
proof -
  have "filter (\<lambda>t. \<not> (txFilename t = allowed \<or> \<not> (LayoutTransaction t \<or> txOperation t = OperationUnknown))) (sort_by receipt_le (receipts es)) =
      filter (\<lambda>t. txFilename t \<noteq> allowed \<and> \<not> write_receipt_name (txFilename t)) (sort_by receipt_le (receipts es))"
    by (intro filter_cong refl) (use receipts_canonical [of es] blocking_receipt in auto)
  then show ?thesis using Pending_selects [of "\<lambda>f. f \<noteq> allowed \<and> \<not> write_receipt_name f" es]
    by (auto simp: RejectOtherPending_def Pending_entries find_hd_filter split: list.splits)
qed

end
