(* ===== verification/Fs_Create.thy ===== *)
theory Fs_Create
  imports Go_Strings
begin

text \<open>
  Creating and moving files without replacing one (\<open>AtomicCreateCAS\<close>, \<open>AtomicMoveCAS\<close> in \<open>internal/fs/atomic.go\<close> and the platform
  primitive \<open>publishAtomicCreate\<close>). A path is the list of its elements below the root; the file system maps paths to what
  lies there. The answers that are not a matter of the file system's content come from an environment: which calls fail, and what programs that
  do not take part do to the file system just before a publication and just after it. Permissions, flushing and the temporary file's
  own name are left out; the digest \<open>sha\<close> is an argument.
\<close>

section \<open>File system\<close>

type_synonym path = "string list"

datatype file_read = FileBytes string | FileNotExist | FileError

text \<open>A symbolic link carries what reading through it gives.\<close>

datatype node = RegularFile string | DirNode | SymlinkNode file_read | OtherNode

type_synonym fsys = "path \<rightharpoonup> node"

text \<open>
  How a publication to a free name ends: done, refused with nothing changed, or half done, when the new name exists and the
  removal of the old one has failed, which is reported as an error.
\<close>

datatype publish_outcome = PublishDone | PublishRefused | PublishHalf

record fs_env =
  lstatFails :: "path \<Rightarrow> bool"
  readFails :: "path \<Rightarrow> bool"
  lockFails :: "path \<Rightarrow> bool"
  tempFails :: "path \<Rightarrow> bool"
  mkdirFails :: "path \<Rightarrow> bool"
  removeFails :: "path \<Rightarrow> bool"
  publishOutcome :: "path \<Rightarrow> publish_outcome"
  beforePublish :: "fsys \<Rightarrow> fsys"
  afterPublish :: "fsys \<Rightarrow> fsys"

datatype stat_answer = StatMissing | StatFailed | StatNode node

definition os_Lstat :: "fs_env \<Rightarrow> fsys \<Rightarrow> path \<Rightarrow> stat_answer" where
  "os_Lstat env d p = (if lstatFails env p then StatFailed else case d p of None \<Rightarrow> StatMissing | Some n \<Rightarrow> StatNode n)"

definition os_ReadFile :: "fs_env \<Rightarrow> fsys \<Rightarrow> path \<Rightarrow> file_read" where
  "os_ReadFile env d p =
     (if readFails env p then FileError
      else case d p of
        None \<Rightarrow> FileNotExist
      | Some (RegularFile b) \<Rightarrow> FileBytes b
      | Some (SymlinkNode r) \<Rightarrow> r
      | Some _ \<Rightarrow> FileError)"

section \<open>Creation\<close>

datatype create_error = ErrAtomicCreateConflict | ErrAtomicCreateUnavailable | CreateRecovery | MoveConflict | CreateFailed

text \<open>The parent is taken apart at slashes and at backslashes.\<close>

definition parent_components :: "path \<Rightarrow> string list" where
  "parent_components p = concat (map (\<lambda>e. filter (\<lambda>x. x \<noteq> []) (str_split e [CHR 0x5C])) (butlast p))"

fun directories_ok :: "fs_env \<Rightarrow> fsys \<Rightarrow> path \<Rightarrow> string list \<Rightarrow> bool" where
  "directories_ok env d current [] = True"
| "directories_ok env d current (c # cs) =
     (os_Lstat env d (current @ [c]) = StatNode DirNode \<and> directories_ok env d (current @ [c]) cs)"

definition validateAtomicCreateTarget :: "fs_env \<Rightarrow> fsys \<Rightarrow> path \<Rightarrow> create_error option" where
  "validateAtomicCreateTarget env d p =
     (if \<not> directories_ok env d [] (parent_components p) then Some CreateFailed
      else case os_Lstat env d p of
        StatNode _ \<Rightarrow> Some ErrAtomicCreateConflict
      | StatMissing \<Rightarrow> None
      | StatFailed \<Rightarrow> Some CreateFailed)"

definition publish_new :: "fs_env \<Rightarrow> string \<Rightarrow> path \<Rightarrow> fsys \<Rightarrow> bool \<times> fsys" where
  "publish_new env data p d =
     (if d p \<noteq> None then (False, d)
      else case publishOutcome env p of
        PublishDone \<Rightarrow> (True, d(p \<mapsto> RegularFile data))
      | PublishRefused \<Rightarrow> (False, d)
      | PublishHalf \<Rightarrow> (False, d(p \<mapsto> RegularFile data)))"

definition AtomicCreateCASMode :: "(string \<Rightarrow> string) \<Rightarrow> fs_env \<Rightarrow> path \<Rightarrow> string \<Rightarrow> fsys \<Rightarrow> create_error option \<times> fsys" where
  "AtomicCreateCASMode sha env p data d =
     (case validateAtomicCreateTarget env d p of
        Some e \<Rightarrow> (Some e, d)
      | None \<Rightarrow>
          if lockFails env p then (Some CreateFailed, d)
          else case os_Lstat env d p of
            StatNode _ \<Rightarrow> (Some ErrAtomicCreateConflict, d)
          | StatFailed \<Rightarrow> (Some CreateFailed, d)
          | StatMissing \<Rightarrow>
              if tempFails env p then (Some CreateFailed, d)
              else let (ok, d2) = publish_new env data p (beforePublish env d) in
                if \<not> ok
                then (Some (case os_Lstat env d2 p of StatNode _ \<Rightarrow> ErrAtomicCreateConflict | _ \<Rightarrow> ErrAtomicCreateUnavailable), d2)
                else let d3 = afterPublish env d2 in
                  (case os_ReadFile env d3 p of
                     FileBytes got \<Rightarrow> if sha got \<noteq> sha data then Some CreateRecovery else None
                   | _ \<Rightarrow> Some CreateRecovery, d3))"

definition AtomicCreateCAS :: "(string \<Rightarrow> string) \<Rightarrow> fs_env \<Rightarrow> path \<Rightarrow> string \<Rightarrow> fsys \<Rightarrow> create_error option \<times> fsys" where
  "AtomicCreateCAS sha env p data d = AtomicCreateCASMode sha env p data d"

section \<open>Moving\<close>

text \<open>Publishing what lies at one path under another.\<close>

definition publish_move :: "fs_env \<Rightarrow> path \<Rightarrow> path \<Rightarrow> fsys \<Rightarrow> bool \<times> fsys" where
  "publish_move env source target d =
     (case d source of
        None \<Rightarrow> (False, d)
      | Some n \<Rightarrow>
          if d target \<noteq> None then (False, d)
          else case publishOutcome env target of
            PublishDone \<Rightarrow> (True, (d(target \<mapsto> n))(source := None))
          | PublishRefused \<Rightarrow> (False, d)
          | PublishHalf \<Rightarrow> (False, d(target \<mapsto> n)))"

text \<open>Putting captured bytes back, when nothing has come to their path.\<close>

definition restore_captured :: "fs_env \<Rightarrow> path \<Rightarrow> path \<Rightarrow> fsys \<Rightarrow> create_error option \<times> fsys" where
  "restore_captured env source recovery d =
     (case os_Lstat env d source of
        StatMissing \<Rightarrow>
          let (ok, d') = publish_move env recovery source d in
          (Some (if ok then MoveConflict else CreateRecovery), d')
      | _ \<Rightarrow> (Some CreateRecovery, d))"

definition AtomicMoveCAS :: "(string \<Rightarrow> string) \<Rightarrow> fs_env \<Rightarrow> path \<Rightarrow> path \<Rightarrow> string \<Rightarrow> fsys \<Rightarrow> create_error option \<times> fsys" where
  "AtomicMoveCAS sha env source recovery expectedSHA256 d =
     (case validateAtomicCreateTarget env d recovery of
        Some e \<Rightarrow> (Some e, d)
      | None \<Rightarrow>
          if lockFails env source then (Some CreateFailed, d)
          else case os_Lstat env d source of
            StatNode (RegularFile _) \<Rightarrow>
              (case os_ReadFile env d source of
                 FileBytes current \<Rightarrow>
                   if sha current \<noteq> expectedSHA256 then (Some MoveConflict, d)
                   else let (ok, d2) = publish_move env source recovery (beforePublish env d) in
                     if \<not> ok then (Some ErrAtomicCreateUnavailable, d2)
                     else let d3 = afterPublish env d2 in
                       (case os_ReadFile env d3 recovery of
                          FileBytes captured \<Rightarrow> if sha captured = expectedSHA256 then (None, d3) else restore_captured env source recovery d3
                        | _ \<Rightarrow> restore_captured env source recovery d3)
               | _ \<Rightarrow> (Some MoveConflict, d))
          | _ \<Rightarrow> (Some MoveConflict, d))"

end
