(* ===== verification/Txn_Stage.thy ===== *)
theory Txn_Stage
  imports Fs_Create Go_Path
begin

text \<open>
  How a cognition transaction puts its data on disk before it touches the cognition itself (\<open>internal/cognitiontxn/transaction.go\<close>): safe
  directories, the runtime boundary, the staged postimages, and immutable intents and their archive. Errors are values; the fault hook of
  \<open>Stage\<close> is a function from the name of a point to whether the run stops there.
\<close>

section \<open>Directories\<close>

text \<open>\<open>filepath.Join\<close> of a root and a relative slash path.\<close>

definition joined :: "path \<Rightarrow> string \<Rightarrow> path" where
  "joined root relative = clean_elems True (root @ str_split relative slash)"

datatype stage_error =
    RuntimePathInvalid
  | MkdirFailed
  | RuntimeDirectoryUnsafe string
  | RuntimeBoundaryWrongType
  | RuntimeBoundaryConflict
  | StatError
  | ReadError
  | RemoveError
  | CreateError create_error
  | StagingIdentityInvalid string
  | StagingConflict string
  | StagingInvalid string
  | StagingMissing string
  | ImmutableIntentChanged
  | ImmutableArchiveConflict
  | FaultInjected string

fun ensure_components :: "fs_env \<Rightarrow> string \<Rightarrow> path \<Rightarrow> string list \<Rightarrow> fsys \<Rightarrow> stage_error option \<times> fsys" where
  "ensure_components env relative current [] d = (None, d)"
| "ensure_components env relative current (c # cs) d =
     (if c = [] \<or> c = ''.'' \<or> c = ''..'' then (Some RuntimePathInvalid, d)
      else let here = current @ [c] in
        case os_Lstat env d here of
          StatMissing \<Rightarrow>
            if mkdirFails env here then (Some MkdirFailed, d)
            else ensure_components env relative here cs (d(here \<mapsto> DirNode))
        | StatNode DirNode \<Rightarrow> ensure_components env relative here cs d
        | _ \<Rightarrow> (Some (RuntimeDirectoryUnsafe relative), d))"

definition EnsureSafeDirectory :: "fs_env \<Rightarrow> path \<Rightarrow> string \<Rightarrow> fsys \<Rightarrow> stage_error option \<times> fsys" where
  "EnsureSafeDirectory env root relative d = ensure_components env relative root (str_split relative slash) d"

fun ensure_directories :: "fs_env \<Rightarrow> path \<Rightarrow> string list \<Rightarrow> fsys \<Rightarrow> stage_error option \<times> fsys" where
  "ensure_directories env root [] d = (None, d)"
| "ensure_directories env root (rel # rels) d =
     (case EnsureSafeDirectory env root rel d of
        (Some e, d') \<Rightarrow> (Some e, d')
      | (None, d') \<Rightarrow> ensure_directories env root rels d')"

section \<open>Immutable files\<close>

definition SaveImmutable :: "(string \<Rightarrow> string) \<Rightarrow> fs_env \<Rightarrow> path \<Rightarrow> string \<Rightarrow> fsys \<Rightarrow> stage_error option \<times> fsys" where
  "SaveImmutable sha env p data d =
     (case AtomicCreateCAS sha env p data d of
        (Some err, d') \<Rightarrow> (if os_ReadFile env d' p = FileBytes data then None else Some (CreateError err), d')
      | (None, d') \<Rightarrow> (None, d'))"

definition EnsureRuntimeBoundary :: "(string \<Rightarrow> string) \<Rightarrow> fs_env \<Rightarrow> path \<Rightarrow> string \<Rightarrow> string \<Rightarrow> fsys \<Rightarrow> stage_error option \<times> fsys" where
  "EnsureRuntimeBoundary sha env root relativePath data d0 =
     (case ensure_directories env root [''.aoci'', ''.aoci/transactions'', ''.aoci/transactions/history''] d0 of
        (Some e, d) \<Rightarrow> (Some e, d)
      | (None, d) \<Rightarrow>
          let p = joined root relativePath in
          case os_Lstat env d p of
            StatNode (RegularFile _) \<Rightarrow>
              (if os_ReadFile env d p \<noteq> FileBytes data then Some RuntimeBoundaryConflict else None, d)
          | StatNode _ \<Rightarrow> (Some RuntimeBoundaryWrongType, d)
          | StatFailed \<Rightarrow> (Some StatError, d)
          | StatMissing \<Rightarrow>
              (case AtomicCreateCAS sha env p data d of
                 (Some err, d') \<Rightarrow> (if os_ReadFile env d' p = FileBytes data then None else Some (CreateError err), d')
               | (None, d') \<Rightarrow> (None, d')))"

definition ArchiveImmutable :: "(string \<Rightarrow> string) \<Rightarrow> fs_env \<Rightarrow> path \<Rightarrow> path \<Rightarrow> string \<Rightarrow> fsys \<Rightarrow> stage_error option \<times> fsys" where
  "ArchiveImmutable sha env active archive expected d =
     (case os_ReadFile env d active of
        FileNotExist \<Rightarrow> (if os_ReadFile env d archive = FileBytes expected then None else Some ReadError, d)
      | FileError \<Rightarrow> (Some ReadError, d)
      | FileBytes data \<Rightarrow>
          if data \<noteq> expected then (Some ImmutableIntentChanged, d)
          else let (err, d') =
            (case os_ReadFile env d archive of
               FileBytes existing \<Rightarrow> (if existing \<noteq> data then Some ImmutableArchiveConflict else None, d)
             | FileNotExist \<Rightarrow> SaveImmutable sha env archive data d
             | FileError \<Rightarrow> (Some ReadError, d)) in
            case err of
              Some e \<Rightarrow> (Some e, d')
            | None \<Rightarrow> if d' active \<noteq> None \<and> removeFails env active then (Some RemoveError, d') else (None, d'(active := None)))"

section \<open>Staging\<close>

datatype file_state = StatePreimage | StatePostimage | StateUnknown | StateWrongType

definition Classify ::
  "(string \<Rightarrow> string) \<Rightarrow> fs_env \<Rightarrow> fsys \<Rightarrow> path \<Rightarrow> string \<Rightarrow> string \<Rightarrow> bool \<Rightarrow> (stage_error, file_state \<times> string) result" where
  "Classify sha env d p preimageSHA postimageSHA absentPreimage =
     (case os_Lstat env d p of
        StatMissing \<Rightarrow> Inr (if absentPreimage then StatePreimage else StateUnknown, [])
      | StatFailed \<Rightarrow> Inl StatError
      | StatNode (RegularFile _) \<Rightarrow>
          (case os_ReadFile env d p of
             FileBytes data \<Rightarrow>
               let digest = sha data in
               if digest = postimageSHA then Inr (StatePostimage, digest)
               else if \<not> absentPreimage \<and> digest = preimageSHA then Inr (StatePreimage, digest)
               else Inr (StateUnknown, digest)
           | _ \<Rightarrow> Inl ReadError)
      | StatNode _ \<Rightarrow> Inr (StateWrongType, []))"

record Postimage =
  poPath :: string
  poSHA :: string
  poData :: string

record StagedPostimage =
  sgPath :: string
  sgSHA256 :: string
  sgByteSize :: int
  sgStagingRel :: string

text \<open>\<open>%02d.post\<close>.\<close>

definition stage_name :: "nat \<Rightarrow> string" where
  "stage_name i = (if i < 10 then ''0'' @ itoa i else itoa i) @ ''.post''"

definition stage_rel :: "string \<Rightarrow> nat \<Rightarrow> string" where
  "stage_rel base i = path_clean (base @ ''/staging/'' @ stage_name i)"

fun stage_loop ::
  "(string \<Rightarrow> string) \<Rightarrow> fs_env \<Rightarrow> (string \<Rightarrow> bool) \<Rightarrow> path \<Rightarrow> string \<Rightarrow> nat \<Rightarrow> Postimage list \<Rightarrow> fsys \<Rightarrow>
   (stage_error, StagedPostimage list) result \<times> fsys" where
  "stage_loop sha env fault root base index [] d = (Inr [], d)"
| "stage_loop sha env fault root base index (post # posts) d =
     (if poSHA post \<noteq> sha (poData post) then (Inl (StagingIdentityInvalid (poPath post)), d)
      else
        let rel = stage_rel base index;
            p = joined root rel;
            staged = \<lparr>sgPath = poPath post, sgSHA256 = poSHA post, sgByteSize = int (length (poData post)), sgStagingRel = rel\<rparr>;
            continue = (\<lambda>d. let (r, d') = stage_loop sha env fault root base (Suc index) posts d in (map_sum id ((#) staged) r, d'))
        in case Classify sha env d p [] (poSHA post) True of
             Inl e \<Rightarrow> (Inl e, d)
           | Inr (state, _) \<Rightarrow>
               if state = StatePostimage then continue d
               else if state \<noteq> StatePreimage then (Inl (StagingConflict rel), d)
               else if fault (''before_stage_'' @ itoa index) then (Inl (FaultInjected (''before_stage_'' @ itoa index)), d)
               else case AtomicCreateCAS sha env p (poData post) d of
                 (Some e, d') \<Rightarrow> (Inl (CreateError e), d')
               | (None, d') \<Rightarrow>
                   if fault (''after_stage_'' @ itoa index) then (Inl (FaultInjected (''after_stage_'' @ itoa index)), d')
                   else continue d')"

definition stage_base :: "string \<Rightarrow> string \<Rightarrow> string" where
  "stage_base operation transactionID = path_clean (''.aoci/transactions/'' @ operation @ ''-'' @ transactionID)"

definition Stage ::
  "(string \<Rightarrow> string) \<Rightarrow> fs_env \<Rightarrow> (string \<Rightarrow> bool) \<Rightarrow> path \<Rightarrow> string \<Rightarrow> string \<Rightarrow> Postimage list \<Rightarrow> fsys \<Rightarrow>
   (stage_error, StagedPostimage list) result \<times> fsys" where
  "Stage sha env fault root operation transactionID posts d =
     (let base = stage_base operation transactionID in
      case ensure_directories env root [base, path_clean (base @ ''/staging'')] d of
        (Some e, d') \<Rightarrow> (Inl e, d')
      | (None, d') \<Rightarrow> stage_loop sha env fault root base 0 posts d')"

fun ReadStaged :: "(string \<Rightarrow> string) \<Rightarrow> fs_env \<Rightarrow> fsys \<Rightarrow> path \<Rightarrow> StagedPostimage list \<Rightarrow> string \<Rightarrow> (stage_error, string) result" where
  "ReadStaged sha env d root [] targetPath = Inl (StagingMissing targetPath)"
| "ReadStaged sha env d root (item # staged) targetPath =
     (if sgPath item \<noteq> targetPath then ReadStaged sha env d root staged targetPath
      else case os_ReadFile env d (joined root (sgStagingRel item)) of
        FileBytes data \<Rightarrow>
          if sha data \<noteq> sgSHA256 item \<or> int (length data) \<noteq> sgByteSize item then Inl (StagingInvalid targetPath) else Inr data
      | _ \<Rightarrow> Inl (StagingInvalid targetPath))"

end
