(* ===== verification/Fs_Create_Laws.thy ===== *)
theory Fs_Create_Laws
  imports Fs_Create
begin

text \<open>
  Laws of creating and moving: neither replaces what another program has put in its way, what each result means, and what each
  does when nothing else is running.
\<close>

section \<open>Creation\<close>

lemma publish_new_cases:
  obtains (refused) "publish_new env data p d = (False, d)"
  | (half) "d p = None" "publish_new env data p d = (False, d(p \<mapsto> RegularFile data))"
  | (published) "d p = None" "publish_new env data p d = (True, d(p \<mapsto> RegularFile data))"
  by (cases "d p"; cases "publishOutcome env p") (simp_all add: publish_new_def)

lemma create_cases:
  obtains (early) e where "AtomicCreateCAS sha env p data d = (Some e, d)"
  | (publish) "os_Lstat env d p = StatMissing" "AtomicCreateCAS sha env p data d =
      (let (ok, d2) = publish_new env data p (beforePublish env d) in
       if \<not> ok
       then (Some (case os_Lstat env d2 p of StatNode _ \<Rightarrow> ErrAtomicCreateConflict | _ \<Rightarrow> ErrAtomicCreateUnavailable), d2)
       else let d3 = afterPublish env d2 in
         (case os_ReadFile env d3 p of
            FileBytes got \<Rightarrow> if sha got \<noteq> sha data then Some CreateRecovery else None
          | _ \<Rightarrow> Some CreateRecovery, d3))"
proof (cases "validateAtomicCreateTarget env d p")
  case (Some e)
  then show ?thesis using early by (simp add: AtomicCreateCAS_def AtomicCreateCASMode_def)
next
  case None
  consider "lockFails env p" | "\<not> lockFails env p" "os_Lstat env d p \<noteq> StatMissing" | "\<not> lockFails env p" "tempFails env p"
    | "\<not> lockFails env p" "os_Lstat env d p = StatMissing" "\<not> tempFails env p" by blast
  then show ?thesis
  proof cases
    case 2
    then show ?thesis using early None by (cases "os_Lstat env d p") (simp_all add: AtomicCreateCAS_def AtomicCreateCASMode_def)
  next
    case 3
    then show ?thesis using early None by (cases "os_Lstat env d p") (simp_all add: AtomicCreateCAS_def AtomicCreateCASMode_def)
  qed (use early publish None in \<open>simp_all add: AtomicCreateCAS_def AtomicCreateCASMode_def\<close>)
qed

text \<open>
  \<open>AtomicCreateCAS\<close> never replaces anything, whatever other programs do before and after its publication: it either
  refuses and leaves the file system as it was, or as the others had made it, or the name was free at the moment of the publication and the
  only change is the new file there. When it reports success a read of the name then gives bytes of the digest it was asked to write.
\<close>

theorem AtomicCreateCAS_never_replaces:
  assumes "AtomicCreateCAS sha env p data d = (r, d')"
  shows "r \<noteq> None \<and> (d' = d \<or> d' = beforePublish env d) \<or>
    beforePublish env d p = None \<and>
      (r \<noteq> None \<and> d' = (beforePublish env d)(p \<mapsto> RegularFile data) \<or>
       d' = afterPublish env ((beforePublish env d)(p \<mapsto> RegularFile data)) \<and>
         (r \<noteq> None \<or> (\<exists>b. os_ReadFile env d' p = FileBytes b \<and> sha b = sha data)))"
proof (cases rule: create_cases [of sha env p data d])
  case publish
  then show ?thesis
  proof (cases rule: publish_new_cases [of env data p "beforePublish env d"])
    case published
    then show ?thesis using assms publish by (auto simp: Let_def split: file_read.splits if_splits)
  qed (use assms publish in auto)
qed (use assms in auto)

definition calm_env :: fs_env where
  "calm_env = \<lparr>lstatFails = (\<lambda>_. False), readFails = (\<lambda>_. False), lockFails = (\<lambda>_. False), tempFails = (\<lambda>_. False),
     mkdirFails = (\<lambda>_. False), removeFails = (\<lambda>_. False), publishOutcome = (\<lambda>_. PublishDone),
     beforePublish = (\<lambda>d. d), afterPublish = (\<lambda>d. d)\<rparr>"

lemma calm_env_simps [simp]:
  "lstatFails calm_env = (\<lambda>_. False)" "readFails calm_env = (\<lambda>_. False)" "lockFails calm_env = (\<lambda>_. False)"
  "tempFails calm_env = (\<lambda>_. False)" "mkdirFails calm_env = (\<lambda>_. False)" "removeFails calm_env = (\<lambda>_. False)"
  "publishOutcome calm_env = (\<lambda>_. PublishDone)" "beforePublish calm_env = (\<lambda>d. d)" "afterPublish calm_env = (\<lambda>d. d)"
  by (simp_all add: calm_env_def)

lemma AtomicCreateCAS_never_replaces_witness:
  "snd (AtomicCreateCAS id (calm_env\<lparr>beforePublish := \<lambda>d. d([''f''] \<mapsto> RegularFile ''theirs'')\<rparr>) [''f''] ''ours'' Map.empty) [''f'']
     \<noteq> Some (RegularFile ''ours'')"
  using AtomicCreateCAS_never_replaces [of id "calm_env\<lparr>beforePublish := \<lambda>d. d([''f''] \<mapsto> RegularFile ''theirs'')\<rparr>" "[''f'']" "''ours''" Map.empty]
  by (cases "AtomicCreateCAS id (calm_env\<lparr>beforePublish := \<lambda>d. d([''f''] \<mapsto> RegularFile ''theirs'')\<rparr>) [''f''] ''ours'' Map.empty") auto

text \<open>When no other program interferes, a creation leaves everything as it was or adds its file.\<close>

definition undisturbed :: "fs_env \<Rightarrow> bool" where
  "undisturbed env \<longleftrightarrow> (\<forall>d. beforePublish env d = d \<and> afterPublish env d = d)"

lemma undisturbed_calm [simp]: "undisturbed calm_env"
  by (simp add: undisturbed_def)

lemma create_undisturbed:
  assumes "undisturbed env" "AtomicCreateCAS sha env p data d = (r, d')"
  shows "d' = d \<and> r \<noteq> None \<or> d p = None \<and> d' = d(p \<mapsto> RegularFile data)"
proof (cases rule: create_cases [of sha env p data d])
  case publish
  have b: "beforePublish env e = e" "afterPublish env e = e" for e using assms(1) by (simp_all add: undisturbed_def)
  show ?thesis
    using assms(2) publish by (cases rule: publish_new_cases [of env data p d]) (auto simp: b)
qed (use assms in auto)

section \<open>Moving\<close>

lemma move_cases:
  obtains (early) e where "AtomicMoveCAS sha env source recovery h d = (Some e, d)"
  | (publish) b where "d recovery = None" "d source = Some (RegularFile b)" "sha b = h" "AtomicMoveCAS sha env source recovery h d =
      (let (ok, d2) = publish_move env source recovery (beforePublish env d) in
       if \<not> ok then (Some ErrAtomicCreateUnavailable, d2)
       else let d3 = afterPublish env d2 in
         (case os_ReadFile env d3 recovery of
            FileBytes captured \<Rightarrow> if sha captured = h then (None, d3) else restore_captured env source recovery d3
          | _ \<Rightarrow> restore_captured env source recovery d3))"
proof (cases "validateAtomicCreateTarget env d recovery = None \<and> \<not> lockFails env source")
  case False
  then show ?thesis using early by (cases "validateAtomicCreateTarget env d recovery") (simp_all add: AtomicMoveCAS_def)
next
  case valid: True
  then have free: "d recovery = None"
    by (auto simp: validateAtomicCreateTarget_def os_Lstat_def split: if_splits option.splits)
  show ?thesis
  proof (cases "\<exists>b. os_Lstat env d source = StatNode (RegularFile b) \<and> os_ReadFile env d source = FileBytes b \<and> sha b = h")
    case True
    then obtain b where b: "os_Lstat env d source = StatNode (RegularFile b)" "os_ReadFile env d source = FileBytes b" "sha b = h" by blast
    then have "d source = Some (RegularFile b)" by (simp add: os_Lstat_def split: if_splits option.splits)
    then show ?thesis using publish [OF free _ b(3)] b valid by (simp add: AtomicMoveCAS_def)
  next
    case other: False
    have "os_ReadFile env d source \<in> {FileBytes b, FileError}" if "os_Lstat env d source = StatNode (RegularFile b)" for b
      using that by (auto simp: os_Lstat_def os_ReadFile_def split: if_splits option.splits)
    then show ?thesis using early valid other
      by (cases "os_Lstat env d source") (fastforce simp: AtomicMoveCAS_def split: node.splits file_read.splits)+
  qed
qed

lemma publish_move_cases:
  assumes "source \<noteq> target"
  obtains (refused) "publish_move env source target d = (False, d)"
  | (half) n where "d source = Some n" "d target = None" "publish_move env source target d = (False, d(target \<mapsto> n))"
  | (moved) n where "d source = Some n" "d target = None" "publish_move env source target d = (True, (d(target \<mapsto> n))(source := None))"
  using assms by (cases "d source"; cases "d target"; cases "publishOutcome env target") (auto simp: publish_move_def)

lemma restore_keeps:
  assumes "source \<noteq> recovery" "restore_captured env source recovery d = (r, d')" "d recovery = Some n"
  shows "r \<noteq> None \<and> (d' source = Some n \<or> d' recovery = Some n)"
proof (cases "os_Lstat env d source")
  case StatMissing
  then show ?thesis using assms(2,3)
    by (cases rule: publish_move_cases [OF assms(1) [symmetric], of env d]) (auto simp: restore_captured_def)
qed (use assms in \<open>auto simp: restore_captured_def\<close>)

text \<open>
  \<^bold>\<open>C22\<close>. \<open>AtomicMoveCAS\<close> loses nothing, whatever other programs put at the source up to the moment of the move: it
  refuses and leaves the file system as it was, or what lay at the source at that moment, expected or not, lies afterwards at the source or
  at the recovery path; and when it reports success what it moved to the recovery path has the expected digest. Of the others it is
  used that they leave the recovery path alone after the move.
\<close>

theorem AtomicMoveCAS_no_loss:
  assumes "AtomicMoveCAS sha env source recovery h d = (r, d')"
    and "beforePublish env d source = Some n" "\<And>e. afterPublish env e recovery = e recovery"
  shows "d' = d \<and> r \<noteq> None \<or> (d' source = Some n \<or> d' recovery = Some n) \<and>
    (r = None \<longrightarrow> d' recovery = Some n \<and> (\<exists>b. os_ReadFile env d' recovery = FileBytes b \<and> sha b = h))"
proof (cases rule: move_cases [of sha env source recovery h d])
  case (early e)
  then show ?thesis using assms(1) by simp
next
  case (publish b)
  then have ne: "source \<noteq> recovery" by auto
  let ?d = "beforePublish env d"
  show ?thesis using ne
  proof (cases rule: publish_move_cases [of source recovery env ?d])
    case (moved m)
    then have m: "m = n" using assms(2) by simp
    let ?d2 = "(?d(recovery \<mapsto> n))(source := None)"
    let ?d3 = "afterPublish env ?d2"
    have r3: "?d3 recovery = Some n" using assms(3) ne by simp
    have res: "AtomicMoveCAS sha env source recovery h d = (case os_ReadFile env ?d3 recovery of
            FileBytes captured \<Rightarrow> if sha captured = h then (None, ?d3) else restore_captured env source recovery ?d3
          | _ \<Rightarrow> restore_captured env source recovery ?d3)"
      unfolding publish(4) moved(3) m by (simp add: Let_def)
    show ?thesis
    proof (cases "\<exists>c. os_ReadFile env ?d3 recovery = FileBytes c \<and> sha c = h")
      case True
      then have "r = None" "d' = ?d3" using assms(1) res by auto
      then show ?thesis using True r3 by simp
    next
      case False
      then have "restore_captured env source recovery ?d3 = (r, d')" using assms(1) res by (auto split: file_read.splits)
      from restore_keeps [of source recovery, OF ne this r3] show ?thesis by blast
    qed
  qed (use assms publish in \<open>auto simp: Let_def\<close>)
qed

lemma AtomicMoveCAS_no_loss_witness:
  "\<exists>r d'. AtomicMoveCAS id (calm_env\<lparr>beforePublish := \<lambda>d. d([''f''] \<mapsto> RegularFile ''theirs'')\<rparr>) [''f''] [''r''] ''ours'' [[''f''] \<mapsto> RegularFile ''ours''] = (r, d') \<and>
     d' [''f''] = Some (RegularFile ''theirs'')"
proof -
  let ?env = "calm_env\<lparr>beforePublish := \<lambda>d. d([''f''] \<mapsto> RegularFile ''theirs'')\<rparr>"
  let ?run = "AtomicMoveCAS id ?env [''f''] [''r''] ''ours'' [[''f''] \<mapsto> RegularFile ''ours'']"
  have "snd ?run [''f''] = Some (RegularFile ''theirs'')" "snd ?run [''r''] = None"
    by (simp_all add: AtomicMoveCAS_def validateAtomicCreateTarget_def parent_components_def os_Lstat_def os_ReadFile_def publish_move_def
        restore_captured_def Let_def)
  moreover have "snd ?run [''f''] = Some (RegularFile ''theirs'') \<or> snd ?run [''r''] = Some (RegularFile ''theirs'') \<or> snd ?run = [[''f''] \<mapsto> RegularFile ''ours'']"
    using AtomicMoveCAS_no_loss [of id ?env "[''f'']" "[''r'']" "''ours''" "[[''f''] \<mapsto> RegularFile ''ours'']" "fst ?run" "snd ?run" "RegularFile ''theirs''"] by auto
  ultimately show ?thesis by (metis prod.collapse)
qed

end
