(* ===== verification/Txn_Stage_Laws.thy ===== *)
theory Txn_Stage_Laws
  imports Txn_Stage Fs_Create_Laws
begin

text \<open>
  Laws of the staging operations. The interface that they share is \<open>resumable\<close>: whatever a run that failed half way has left behind,
  a later run that nothing hinders comes to the same result and the same file system as if the failed run had not been. Each of the operations
  is shown to have it, and staged data is read back as it was given.
\<close>

section \<open>Resumable operations\<close>

text \<open>
  \<open>run f\<close> is a run under the circumstances \<open>f\<close>, of which \<open>allowed\<close> are the ones considered; \<open>calm\<close> are those under which
  nothing fails.
\<close>

locale resumable =
  fixes run :: "'f \<Rightarrow> 's \<Rightarrow> 'r \<times> 's" and allowed :: "'f \<Rightarrow> bool" and calm :: 'f
  assumes resume: "allowed f \<Longrightarrow> run calm (snd (run f s)) = run calm s"
begin

text \<open>Any number of failed attempts may come before.\<close>

lemma resume_many: "list_all allowed fs \<Longrightarrow> run calm (fold (\<lambda>f s. snd (run f s)) fs s) = run calm s"
  by (induction fs arbitrary: s) (simp_all add: resume)

lemma calm_settles: "allowed calm \<Longrightarrow> run calm s = (r, s') \<Longrightarrow> run calm s' = (r, s')"
  using resume [of calm s] by simp

end

section \<open>What an undisturbed run may add\<close>

lemma calm_Lstat: "os_Lstat calm_env d p = (case d p of None \<Rightarrow> StatMissing | Some n \<Rightarrow> StatNode n)"
  by (simp add: os_Lstat_def)

lemma Lstat_calm: "os_Lstat env d p = StatFailed \<or> os_Lstat env d p = os_Lstat calm_env d p"
  by (simp add: os_Lstat_def)

lemma Read_calm: "os_ReadFile env d p = FileError \<or> os_ReadFile env d p = os_ReadFile calm_env d p"
  by (simp add: os_ReadFile_def)

lemma directories_calm: "directories_ok env d cur cs \<Longrightarrow> directories_ok calm_env d cur cs"
proof (induction cs arbitrary: cur)
  case (Cons c cs)
  then show ?case using Lstat_calm [of env d "cur @ [c]"] by auto
qed simp

lemma directories_add: "directories_ok calm_env d cur cs \<Longrightarrow> d p = None \<Longrightarrow> directories_ok calm_env (d(p \<mapsto> n)) cur cs"
  by (induction cs arbitrary: cur) (auto simp: os_Lstat_def split: option.splits if_splits)

text \<open>A creation that added its file would succeed when nothing hinders it.\<close>

lemma create_added:
  assumes "undisturbed env" "AtomicCreateCAS sha env p data d = (r, d')"
  shows "d' = d \<and> r \<noteq> None \<or> d p = None \<and> d' = d(p \<mapsto> RegularFile data) \<and> AtomicCreateCAS sha calm_env p data d = (None, d')"
proof (cases "d' = d \<and> r \<noteq> None")
  case False
  then have c: "d p = None" "d' = d(p \<mapsto> RegularFile data)" using create_undisturbed [OF assms] by auto
  then have "d' \<noteq> d" by (metis fun_upd_same option.distinct(1))
  then have v: "validateAtomicCreateTarget env d p = None"
    using assms(2) by (auto simp: AtomicCreateCAS_def AtomicCreateCASMode_def split: option.splits)
  then have "directories_ok calm_env d [] (parent_components p)"
    by (auto simp: validateAtomicCreateTarget_def intro: directories_calm split: if_splits)
  then have "validateAtomicCreateTarget calm_env d p = None"
    using c by (simp add: validateAtomicCreateTarget_def calm_Lstat)
  then have "AtomicCreateCAS sha calm_env p data d = (None, d')"
    using c by (simp add: AtomicCreateCAS_def AtomicCreateCASMode_def calm_Lstat publish_new_def os_ReadFile_def)
  then show ?thesis using c by simp
qed simp

lemma create_taken: "d p \<noteq> None \<Longrightarrow> \<exists>e. AtomicCreateCAS sha env p data d = (Some e, d)"
  by (auto simp: AtomicCreateCAS_def AtomicCreateCASMode_def validateAtomicCreateTarget_def os_Lstat_def split: option.splits)

section \<open>Immutable files\<close>

lemma save_outcomes:
  assumes "undisturbed env" "SaveImmutable sha env p data d = (r, d')"
  obtains (same) "d' = d" "r = None \<longrightarrow> os_ReadFile env d p = FileBytes data"
  | (added) "d p = None" "d' = d(p \<mapsto> RegularFile data)" "SaveImmutable sha calm_env p data d = (None, d')"
proof -
  obtain e d1 where c: "AtomicCreateCAS sha env p data d = (e, d1)" by fastforce
  then have "d1 = d'" using assms(2) by (auto simp: SaveImmutable_def split: option.splits)
  then show thesis using create_added [OF assms(1) c] same added assms(2) c by (auto simp: SaveImmutable_def split: option.splits if_splits)
qed

lemma save_present: "os_ReadFile calm_env d p = FileBytes data \<Longrightarrow> SaveImmutable sha calm_env p data d = (None, d)"
  using create_taken [of d p sha calm_env data] by (auto simp: SaveImmutable_def os_ReadFile_def split: option.splits)

lemma save_resume:
  assumes "undisturbed env"
  shows "SaveImmutable sha calm_env p data (snd (SaveImmutable sha env p data d)) = SaveImmutable sha calm_env p data d"
proof -
  obtain r d' where s: "SaveImmutable sha env p data d = (r, d')" by fastforce
  show ?thesis using assms s
  proof (cases rule: save_outcomes)
    case added
    then have "os_ReadFile calm_env d' p = FileBytes data" by (simp add: os_ReadFile_def)
    then show ?thesis using s added save_present by simp
  qed (use s in simp)
qed

interpretation save: resumable "\<lambda>env. SaveImmutable sha env p data" undisturbed calm_env
  by unfold_locales (rule save_resume)

lemma save_success_reads:
  assumes "undisturbed env" "SaveImmutable sha env p data d = (None, d')" "\<not> readFails env p"
  shows "os_ReadFile env d' p = FileBytes data"
proof -
  obtain e d1 where c: "AtomicCreateCAS sha env p data d = (e, d1)" by fastforce
  show ?thesis
  proof (cases e)
    case None
    then show ?thesis using create_undisturbed [OF assms(1) c] assms c by (auto simp: SaveImmutable_def os_ReadFile_def)
  next
    case (Some x)
    then show ?thesis using assms(2) c by (auto simp: SaveImmutable_def split: if_splits)
  qed
qed

section \<open>Archives\<close>

lemma archived_calm:
  assumes "os_ReadFile calm_env d active = FileBytes expected" "os_ReadFile calm_env d archive = FileBytes expected" "active \<noteq> archive"
  shows "ArchiveImmutable sha calm_env active archive expected d = (None, d(active := None))"
    "ArchiveImmutable sha calm_env active archive expected (d(active := None)) = (None, d(active := None))"
proof -
  show "ArchiveImmutable sha calm_env active archive expected d = (None, d(active := None))"
    using assms by (simp add: ArchiveImmutable_def Let_def)
  have "os_ReadFile calm_env (d(active := None)) active = FileNotExist" by (simp add: os_ReadFile_def)
  moreover have "os_ReadFile calm_env (d(active := None)) archive = FileBytes expected" using assms(2,3) by (simp add: os_ReadFile_def)
  ultimately show "ArchiveImmutable sha calm_env active archive expected (d(active := None)) = (None, d(active := None))"
    by (simp add: ArchiveImmutable_def)
qed

lemma read_ok_calm: "os_ReadFile env d p = r \<Longrightarrow> r \<noteq> FileError \<Longrightarrow> os_ReadFile calm_env d p = r"
  using Read_calm by metis

text \<open>
  What one run of \<open>ArchiveImmutable\<close> can do: nothing, remove the active file because the archive has its bytes, write the archive,
  or both.
\<close>

lemma archive_cases:
  assumes "undisturbed env" "ArchiveImmutable sha env active archive expected d = (r, d')" "active \<noteq> archive"
  obtains (same) "d' = d" "r = None \<longrightarrow> os_ReadFile env d active = FileNotExist \<and> os_ReadFile env d archive = FileBytes expected"
  | (removed) "os_ReadFile calm_env d active = FileBytes expected" "os_ReadFile calm_env d archive = FileBytes expected" "d' = d(active := None)"
  | (copied) "os_ReadFile calm_env d active = FileBytes expected" "d archive = None"
      "SaveImmutable sha calm_env archive expected d = (None, d(archive \<mapsto> RegularFile expected))"
      "d' = d(archive \<mapsto> RegularFile expected) \<and> r \<noteq> None \<or> d' = d(archive \<mapsto> RegularFile expected, active := None)"
proof (cases "os_ReadFile env d active = FileBytes expected")
  case False
  then show ?thesis using assms(2) same by (auto simp: ArchiveImmutable_def split: file_read.splits if_splits)
next
  case True
  note active = read_ok_calm [OF True file_read.distinct(3)]
  show ?thesis
  proof (cases "os_ReadFile env d archive")
    case (FileBytes existing)
    then show ?thesis using assms(2) True same removed active read_ok_calm [OF FileBytes file_read.distinct(3)]
      by (auto simp: ArchiveImmutable_def split: if_splits)
  next
    case FileError
    then show ?thesis using assms(2) True same by (auto simp: ArchiveImmutable_def)
  next
    case FileNotExist
    obtain e d1 where save: "SaveImmutable sha env archive expected d = (e, d1)" by fastforce
    show ?thesis using assms(1) save
    proof (cases rule: save_outcomes)
      case unchanged: same
      then have "e \<noteq> None" using FileNotExist by auto
      then show ?thesis using assms(2) True FileNotExist save unchanged(1) same by (auto simp: ArchiveImmutable_def)
    next
      case added
      then show ?thesis using copied [OF active] assms(2) True FileNotExist save by (auto simp: ArchiveImmutable_def split: option.splits if_splits)
    qed
  qed
qed

lemma archive_resume:
  assumes "undisturbed env" "active \<noteq> archive"
  shows "ArchiveImmutable sha calm_env active archive expected (snd (ArchiveImmutable sha env active archive expected d)) =
    ArchiveImmutable sha calm_env active archive expected d"
proof -
  obtain r d' where run: "ArchiveImmutable sha env active archive expected d = (r, d')" by fastforce
  show ?thesis using assms(1) run assms(2)
  proof (cases rule: archive_cases)
    case removed
    then show ?thesis using archived_calm [OF removed(1,2) assms(2)] run by simp
  next
    case copied
    let ?d = "d(archive \<mapsto> RegularFile expected)"
    have "os_ReadFile calm_env ?d active = FileBytes expected" "os_ReadFile calm_env ?d archive = FileBytes expected"
      using copied(1) assms(2) by (simp_all add: os_ReadFile_def)
    note moved = archived_calm [OF this assms(2)]
    have "os_ReadFile calm_env d archive = FileNotExist" using copied(2) by (simp add: os_ReadFile_def)
    then have "ArchiveImmutable sha calm_env active archive expected d = (None, ?d(active := None))"
      using copied(1,3) by (simp add: ArchiveImmutable_def)
    then show ?thesis using copied(4) moved run by auto
  qed (use run in simp)
qed

text \<open>
  Archiving never loses an intent: when the active file holds the expected bytes before \<open>ArchiveImmutable\<close>, then
  afterwards, however the run ended, the active file or the archive holds them; and when it succeeded the archive holds them and
  the active file is gone.
\<close>

theorem ArchiveImmutable_keeps:
  assumes "undisturbed env" "active \<noteq> archive" "os_ReadFile calm_env d active = FileBytes expected"
    and "ArchiveImmutable sha env active archive expected d = (r, d')"
  shows "(os_ReadFile calm_env d' active = FileBytes expected \<or> os_ReadFile calm_env d' archive = FileBytes expected) \<and>
    (r = None \<longrightarrow> d' active = None \<and> os_ReadFile calm_env d' archive = FileBytes expected)"
  using assms(1,4,2)
proof (cases rule: archive_cases)
  case same
  then have "r \<noteq> None" using Read_calm [of env d active] assms(3) by auto
  then show ?thesis using same(1) assms(3) by auto
qed (use assms in \<open>auto simp: os_ReadFile_def\<close>)

lemma ArchiveImmutable_keeps_witness:
  "\<exists>r d'. ArchiveImmutable id calm_env [''a''] [''h''] ''intent'' [[''a''] \<mapsto> RegularFile ''intent''] = (r, d') \<and> d' [''a''] = None \<and>
     os_ReadFile calm_env d' [''h''] = FileBytes ''intent''"
proof -
  let ?run = "ArchiveImmutable id calm_env [''a''] [''h''] ''intent'' [[''a''] \<mapsto> RegularFile ''intent'']"
  have "fst ?run = None" 
    by (simp add: ArchiveImmutable_def SaveImmutable_def AtomicCreateCAS_def AtomicCreateCASMode_def validateAtomicCreateTarget_def
        parent_components_def os_Lstat_def os_ReadFile_def publish_new_def Let_def)
  then show ?thesis
    using ArchiveImmutable_keeps [of calm_env "[''a'']" "[''h'']" "[[''a''] \<mapsto> RegularFile ''intent'']" "''intent''" id "fst ?run" "snd ?run"]
    by (simp add: os_ReadFile_def) (metis prod.collapse)
qed

section \<open>Directories\<close>

abbreviation bad_component :: "string \<Rightarrow> bool" where
  "bad_component c \<equiv> c = [] \<or> c = ''.'' \<or> c = ''..''"

lemma ensure_cases:
  obtains (stop) e where "ensure_components env rel cur (c # cs) d = (Some e, d)"
  | (made) "\<not> bad_component c" "d (cur @ [c]) = None"
      "ensure_components env rel cur (c # cs) d = ensure_components env rel (cur @ [c]) cs (d(cur @ [c] \<mapsto> DirNode))"
  | (there) "\<not> bad_component c" "d (cur @ [c]) = Some DirNode"
      "ensure_components env rel cur (c # cs) d = ensure_components env rel (cur @ [c]) cs d"
proof (cases "bad_component c \<or> lstatFails env (cur @ [c])")
  case True
  then show ?thesis using stop by (cases "bad_component c") (simp_all add: os_Lstat_def Let_def)
next
  case False
  then show ?thesis using stop made there
    by (cases "d (cur @ [c])"; cases "mkdirFails env (cur @ [c])"; cases "the (d (cur @ [c]))") (simp_all add: os_Lstat_def Let_def)
qed

lemma ensure_calm:
  "\<not> bad_component c \<Longrightarrow> d (cur @ [c]) = None \<Longrightarrow>
   ensure_components calm_env rel cur (c # cs) d = ensure_components calm_env rel (cur @ [c]) cs (d(cur @ [c] \<mapsto> DirNode))"
  "\<not> bad_component c \<Longrightarrow> d (cur @ [c]) = Some DirNode \<Longrightarrow>
   ensure_components calm_env rel cur (c # cs) d = ensure_components calm_env rel (cur @ [c]) cs d"
  by (simp_all add: calm_Lstat Let_def)

declare ensure_components.simps(2) [simp del]

lemma map_leD: "m \<subseteq>\<^sub>m m' \<Longrightarrow> m k = Some v \<Longrightarrow> m' k = Some v"
  by (auto simp: map_le_def dom_def)

lemma map_le_added: "d p = None \<Longrightarrow> d(p \<mapsto> n) \<subseteq>\<^sub>m d' \<Longrightarrow> d \<subseteq>\<^sub>m d' \<and> d' p = Some n"
  by (auto simp: map_le_def split: if_splits) (metis domIff option.distinct(1))

lemma ensure_mono: "ensure_components env rel cur cs d = (r, d') \<Longrightarrow> d \<subseteq>\<^sub>m d'"
proof (induction cs arbitrary: cur d)
  case (Cons c cs)
  show ?case
  proof (cases rule: ensure_cases [of env rel cur c cs d])
    case made
    then show ?thesis using Cons map_le_added by metis
  qed (use Cons in auto)
qed simp

lemma ensure_done:
  "ensure_components env rel cur cs d = (None, d') \<Longrightarrow>
   ensure_components calm_env rel cur cs d = (None, d') \<and> (\<forall>d1. d' \<subseteq>\<^sub>m d1 \<longrightarrow> ensure_components calm_env rel cur cs d1 = (None, d1))"
proof (induction cs arbitrary: cur d)
  case (Cons c cs)
  have here: "ensure_components calm_env rel cur (c # cs) d1 = ensure_components calm_env rel (cur @ [c]) cs d1"
    if "\<not> bad_component c" "d2 (cur @ [c]) = Some DirNode" "d2 \<subseteq>\<^sub>m d'" "d' \<subseteq>\<^sub>m d1" for d1 d2
  proof -
    have "d1 (cur @ [c]) = Some DirNode" using map_leD [OF map_le_trans [OF that(3,4)] that(2)] .
    then show ?thesis using that(1) by (rule ensure_calm(2) [rotated])
  qed
  show ?case
  proof (cases rule: ensure_cases [of env rel cur c cs d])
    case made
    then have r: "ensure_components env rel (cur @ [c]) cs (d(cur @ [c] \<mapsto> DirNode)) = (None, d')" using Cons.prems by simp
    show ?thesis using Cons.IH [OF r] ensure_calm(1) [of c d cur rel cs] made(1,2) here [OF made(1) _ ensure_mono [OF r]] by (simp add: fun_upd_def)
  next
    case there
    then have r: "ensure_components env rel (cur @ [c]) cs d = (None, d')" using Cons.prems by simp
    show ?thesis using Cons.IH [OF r] ensure_calm(2) [of c d cur rel cs] there(1,2) here [OF there(1,2) ensure_mono [OF r]] by simp
  qed (use Cons.prems in simp)
qed simp

lemma ensure_resume:
  "ensure_components env rel cur cs d = (r, d') \<Longrightarrow> ensure_components calm_env rel cur cs d' = ensure_components calm_env rel cur cs d"
proof (induction cs arbitrary: cur d)
  case (Cons c cs)
  show ?case
  proof (cases rule: ensure_cases [of env rel cur c cs d])
    case made
    then have r: "ensure_components env rel (cur @ [c]) cs (d(cur @ [c] \<mapsto> DirNode)) = (r, d')" using Cons.prems by simp
    have "d' (cur @ [c]) = Some DirNode" using map_le_added [OF made(2) ensure_mono [OF r]] by simp
    then show ?thesis using Cons.IH [OF r] ensure_calm(1) [of c d cur rel cs] made(1,2) ensure_calm(2) [of c d' cur rel cs] by (simp add: fun_upd_def)
  next
    case there
    then have r: "ensure_components env rel (cur @ [c]) cs d = (r, d')" using Cons.prems by simp
    have "d' (cur @ [c]) = Some DirNode" using map_leD [OF ensure_mono [OF r] there(2)] .
    then show ?thesis using Cons.IH [OF r] ensure_calm(2) [of c d cur rel cs] ensure_calm(2) [of c d' cur rel cs] there(1,2) by simp
  qed (use Cons.prems in simp)
qed simp

text \<open>The same for the directories one after the other.\<close>

lemma dirs_mono: "ensure_directories env root rels d = (r, d') \<Longrightarrow> d \<subseteq>\<^sub>m d'"
proof (induction rels arbitrary: d)
  case (Cons rel rels)
  obtain e d1 where 1: "EnsureSafeDirectory env root rel d = (e, d1)" by fastforce
  then have "d \<subseteq>\<^sub>m d1" using ensure_mono by (auto simp: EnsureSafeDirectory_def)
  then show ?case using Cons 1 map_le_trans by (cases e) fastforce+
qed simp

lemma dirs_done:
  "ensure_directories env root rels d = (None, d') \<Longrightarrow>
   ensure_directories calm_env root rels d = (None, d') \<and> (\<forall>d1. d' \<subseteq>\<^sub>m d1 \<longrightarrow> ensure_directories calm_env root rels d1 = (None, d1))"
proof (induction rels arbitrary: d)
  case (Cons rel rels)
  obtain d1 where 1: "EnsureSafeDirectory env root rel d = (None, d1)" "ensure_directories env root rels d1 = (None, d')"
    using Cons.prems by (auto split: prod.splits option.splits)
  have "EnsureSafeDirectory calm_env root rel d = (None, d1)" "\<And>d2. d1 \<subseteq>\<^sub>m d2 \<Longrightarrow> EnsureSafeDirectory calm_env root rel d2 = (None, d2)"
    using ensure_done 1(1) by (auto simp: EnsureSafeDirectory_def)
  then show ?case using Cons.IH [OF 1(2)] map_le_trans [OF dirs_mono [OF 1(2)]] by simp
qed simp

lemma dirs_resume: "ensure_directories env root rels d = (r, d') \<Longrightarrow> ensure_directories calm_env root rels d' = ensure_directories calm_env root rels d"
proof (induction rels arbitrary: d)
  case (Cons rel rels)
  obtain e d1 where 1: "EnsureSafeDirectory env root rel d = (e, d1)" by fastforce
  show ?case
  proof (cases e)
    case None
    then have 2: "ensure_directories env root rels d1 = (r, d')" using Cons.prems 1 by simp
    have "EnsureSafeDirectory calm_env root rel d = (None, d1)" "EnsureSafeDirectory calm_env root rel d' = (None, d')"
      using ensure_done dirs_mono [OF 2] 1 None by (auto simp: EnsureSafeDirectory_def)
    then show ?thesis using Cons.IH [OF 2] by simp
  next
    case (Some x)
    then have "d1 = d'" using Cons.prems 1 by simp
    then have "EnsureSafeDirectory calm_env root rel d' = EnsureSafeDirectory calm_env root rel d"
      using ensure_resume 1 by (simp add: EnsureSafeDirectory_def)
    then show ?thesis by simp
  qed
qed simp

interpretation archive: resumable "\<lambda>env. ArchiveImmutable sha env active archive expected" "\<lambda>env. undisturbed env \<and> active \<noteq> archive" calm_env
  by unfold_locales (simp add: archive_resume)

section \<open>The runtime boundary\<close>

abbreviation boundary_dirs :: "string list" where
  "boundary_dirs \<equiv> [''.aoci'', ''.aoci/transactions'', ''.aoci/transactions/history'']"

lemma boundary_failed: "ensure_directories env root boundary_dirs d = (Some e, d1) \<Longrightarrow> EnsureRuntimeBoundary sha env root rel data d = (Some e, d1)"
  by (simp only: EnsureRuntimeBoundary_def option.case prod.case)

lemma boundary_file: "ensure_directories env root boundary_dirs d = (None, d1) \<Longrightarrow>
    EnsureRuntimeBoundary sha env root rel data d =
      (case os_Lstat env d1 (joined root rel) of
         StatNode (RegularFile _) \<Rightarrow> (if os_ReadFile env d1 (joined root rel) \<noteq> FileBytes data then Some RuntimeBoundaryConflict else None, d1)
       | StatNode _ \<Rightarrow> (Some RuntimeBoundaryWrongType, d1)
       | StatFailed \<Rightarrow> (Some StatError, d1)
       | StatMissing \<Rightarrow> SaveImmutable sha env (joined root rel) data d1)"
  by (simp only: EnsureRuntimeBoundary_def option.case prod.case SaveImmutable_def Let_def)

lemma boundary_resume:
  assumes "undisturbed env"
  shows "EnsureRuntimeBoundary sha calm_env root rel data (snd (EnsureRuntimeBoundary sha env root rel data d)) =
    EnsureRuntimeBoundary sha calm_env root rel data d"
proof -
  let ?p = "joined root rel"
  obtain e d1 where dirs: "ensure_directories env root boundary_dirs d = (e, d1)" by fastforce
  show ?thesis
  proof (cases e)
    case (Some x)
    then have "EnsureRuntimeBoundary sha env root rel data d = (e, d1)" using boundary_failed dirs by blast
    then show ?thesis using dirs_resume [OF dirs] by (simp only: EnsureRuntimeBoundary_def snd_conv)
  next
    case None
    note ok = dirs [unfolded None]
    have calm: "ensure_directories calm_env root boundary_dirs d = (None, d1)"
      "\<And>d2. d1 \<subseteq>\<^sub>m d2 \<Longrightarrow> ensure_directories calm_env root boundary_dirs d2 = (None, d2)"
      using dirs_done [OF ok] by blast+
    have stays: ?thesis if "snd (EnsureRuntimeBoundary sha env root rel data d) = d1"
      unfolding that boundary_file [OF calm(1)] boundary_file [OF calm(2) [OF map_le_refl]] ..
    show ?thesis
    proof (cases "os_Lstat env d1 ?p = StatMissing")
      case True
      obtain r d' where save: "SaveImmutable sha env ?p data d1 = (r, d')" by fastforce
      then have run: "EnsureRuntimeBoundary sha env root rel data d = (r, d')" using boundary_file [OF ok] True by simp
      show ?thesis using assms save
      proof (cases rule: save_outcomes)
        case added
        have "d1 \<subseteq>\<^sub>m d'" using added(1,2) by (auto simp: map_le_def)
        then have "EnsureRuntimeBoundary sha calm_env root rel data d' = (None, d')"
          using boundary_file [OF calm(2)] added(2) by (simp add: calm_Lstat os_ReadFile_def)
        moreover have "EnsureRuntimeBoundary sha calm_env root rel data d = (None, d')"
          unfolding boundary_file [OF calm(1)] using added by (simp add: calm_Lstat)
        ultimately show ?thesis using run by simp
      qed (use stays run in simp)
    next
      case False
      then have "snd (EnsureRuntimeBoundary sha env root rel data d) = d1"
        unfolding boundary_file [OF ok] by (cases "os_Lstat env d1 ?p") (auto split: node.splits)
      then show ?thesis by (rule stays)
    qed
  qed
qed

interpretation boundary: resumable "\<lambda>env. EnsureRuntimeBoundary sha env root rel data" undisturbed calm_env
  by unfold_locales (rule boundary_resume)

text \<open>
  \<^bold>\<open>C28\<close>. Immutable files survive interruption: after any number of attempts that failed anywhere, saving an immutable file,
  establishing the runtime boundary, and archiving an intent each come to the result and the file system that they would have come to
  at once; and once done, doing them again changes nothing.
\<close>

theorem immutable_operations_resume:
  assumes "list_all undisturbed envs"
  shows "SaveImmutable sha calm_env p data (fold (\<lambda>env d. snd (SaveImmutable sha env p data d)) envs d) = SaveImmutable sha calm_env p data d \<and>
    EnsureRuntimeBoundary sha calm_env root rel data (fold (\<lambda>env d. snd (EnsureRuntimeBoundary sha env root rel data d)) envs d) =
      EnsureRuntimeBoundary sha calm_env root rel data d \<and>
    (p \<noteq> q \<longrightarrow> ArchiveImmutable sha calm_env p q data (fold (\<lambda>env d. snd (ArchiveImmutable sha env p q data d)) envs d) =
      ArchiveImmutable sha calm_env p q data d)"
  using assms by (auto simp: list_all_iff intro!: save.resume_many boundary.resume_many archive.resume_many)

lemma immutable_operations_resume_witness:
  "SaveImmutable id calm_env [''p''] ''x'' (snd (SaveImmutable id (calm_env\<lparr>publishOutcome := \<lambda>_. PublishHalf\<rparr>) [''p''] ''x'' Map.empty)) =
     SaveImmutable id calm_env [''p''] ''x'' Map.empty"
  using immutable_operations_resume [of "[calm_env\<lparr>publishOutcome := \<lambda>_. PublishHalf\<rparr>]" id "[''p'']" "''x''" Map.empty]
  by (simp add: undisturbed_def)

section \<open>Staging\<close>

text \<open>What lies at a path is the postimage of a digest.\<close>

definition is_post :: "(string \<Rightarrow> string) \<Rightarrow> fsys \<Rightarrow> path \<Rightarrow> string \<Rightarrow> bool" where
  "is_post sha d p h \<longleftrightarrow> (\<exists>b. d p = Some (RegularFile b) \<and> sha b = h)"

lemma is_post_mono: "is_post sha d p h \<Longrightarrow> d \<subseteq>\<^sub>m d' \<Longrightarrow> is_post sha d' p h"
  by (auto simp: is_post_def intro: map_leD)

lemma Classify_post: "is_post sha d p h \<Longrightarrow> \<exists>digest. Classify sha calm_env d p [] h True = Inr (StatePostimage, digest)"
  by (auto simp: is_post_def Classify_def calm_Lstat os_ReadFile_def)

lemma Classify_is_post: "Classify sha env d p [] h True = Inr (StatePostimage, digest) \<Longrightarrow> is_post sha d p h"
  by (auto simp: is_post_def Classify_def os_Lstat_def os_ReadFile_def Let_def split: if_splits option.splits node.splits file_read.splits)

lemma Classify_absent: "Classify sha env d p [] h True = Inr (StatePreimage, digest) \<Longrightarrow> d p = None \<and> Classify sha calm_env d p [] h True = Inr (StatePreimage, [])"
  by (auto simp: Classify_def os_Lstat_def os_ReadFile_def Let_def split: if_splits option.splits node.splits file_read.splits)

text \<open>One postimage and what follows it.\<close>

abbreviation calm_loop where
  "calm_loop sha \<equiv> stage_loop sha calm_env (\<lambda>_. False)"

abbreviation staged_of :: "string \<Rightarrow> nat \<Rightarrow> Postimage \<Rightarrow> StagedPostimage" where
  "staged_of base index post \<equiv> \<lparr>sgPath = poPath post, sgSHA256 = poSHA post, sgByteSize = int (length (poData post)), sgStagingRel = stage_rel base index\<rparr>"

lemma stage_cases:
  assumes "undisturbed env" "stage_loop sha env fault root base index (post # posts) d = (r, d')"
  obtains (stop) e where "r = Inl e" "d' = d"
  | (there) q where "poSHA post = sha (poData post)" "is_post sha d (joined root (stage_rel base index)) (poSHA post)"
      "stage_loop sha env fault root base (Suc index) posts d = (q, d')" "r = map_sum id ((#) (staged_of base index post)) q"
  | (created) q d2 where "poSHA post = sha (poData post)" "d (joined root (stage_rel base index)) = None"
      "d2 = d(joined root (stage_rel base index) \<mapsto> RegularFile (poData post))"
      "AtomicCreateCAS sha calm_env (joined root (stage_rel base index)) (poData post) d = (None, d2)"
      "d' = d2 \<and> isl r \<or> stage_loop sha env fault root base (Suc index) posts d2 = (q, d') \<and> r = map_sum id ((#) (staged_of base index post)) q"
proof (cases "poSHA post = sha (poData post)")
  case False
  then show ?thesis using assms(2) stop by auto
next
  case True
  let ?p = "joined root (stage_rel base index)"
  show ?thesis
  proof (cases "Classify sha env d ?p [] (poSHA post) True")
    case (Inl e)
    then show ?thesis using assms(2) True stop by (auto simp: Let_def)
  next
    case (Inr c)
    then obtain state digest where c: "Classify sha env d ?p [] (poSHA post) True = Inr (state, digest)" by (cases c) auto
    consider "state = StatePostimage" | "state = StatePreimage" "\<not> fault (''before_stage_'' @ itoa index)"
      | "state \<noteq> StatePostimage" "state \<noteq> StatePreimage \<or> fault (''before_stage_'' @ itoa index)" by blast
    then show ?thesis
    proof cases
      case 1
      obtain q where "stage_loop sha env fault root base (Suc index) posts d = (q, d')" "r = map_sum id ((#) (staged_of base index post)) q"
        using assms(2) True c 1 by (auto simp: Let_def split: prod.splits)
      then show ?thesis using there True Classify_is_post c 1 by blast
    next
      case 2
      obtain e d2 where create: "AtomicCreateCAS sha env ?p (poData post) d = (e, d2)" by fastforce
      have "e = Some x \<and> r = Inl (CreateError x) \<and> d' = d2" if "e = Some x" for x using that assms(2) True c 2 create by (simp add: Let_def)
      moreover have "isl r \<and> d' = d2 \<or> (\<exists>q. stage_loop sha env fault root base (Suc index) posts d2 = (q, d') \<and> r = map_sum id ((#) (staged_of base index post)) q)" if "e = None"
        using that assms(2) True c 2 create by (auto simp: Let_def split: prod.splits if_splits)
      ultimately show ?thesis using create_added [OF assms(1) create] stop created [OF True] by (cases e) auto
    next
      case 3
      then show ?thesis using assms(2) True c stop by (cases "state = StatePreimage") (auto simp: Let_def)
    qed
  qed
qed

declare stage_loop.simps(2) [simp del]

lemma stage_calm_there:
  "poSHA post = sha (poData post) \<Longrightarrow> is_post sha d (joined root (stage_rel base index)) (poSHA post) \<Longrightarrow>
   calm_loop sha root base index (post # posts) d =
     map_prod (map_sum id ((#) (staged_of base index post))) id (calm_loop sha root base (Suc index) posts d)"
  using Classify_post [of sha d "joined root (stage_rel base index)" "poSHA post"]
  by (auto simp: stage_loop.simps Let_def split: prod.splits)

lemma stage_calm_created:
  "poSHA post = sha (poData post) \<Longrightarrow> d (joined root (stage_rel base index)) = None \<Longrightarrow>
   AtomicCreateCAS sha calm_env (joined root (stage_rel base index)) (poData post) d = (None, d2) \<Longrightarrow>
   calm_loop sha root base index (post # posts) d =
     map_prod (map_sum id ((#) (staged_of base index post))) id (calm_loop sha root base (Suc index) posts d2)"
  by (auto simp: stage_loop.simps Let_def Classify_def calm_Lstat split: prod.splits)

lemma stage_mono: "undisturbed env \<Longrightarrow> stage_loop sha env fault root base index posts d = (r, d') \<Longrightarrow> d \<subseteq>\<^sub>m d'"
proof (induction posts arbitrary: index d r)
  case (Cons post posts)
  show ?case using Cons.prems
  proof (cases rule: stage_cases)
    case (there q)
    then show ?thesis using Cons.IH Cons.prems(1) by blast
  next
    case (created q d2)
    have "d \<subseteq>\<^sub>m d2" using created(2,3) by (auto simp: map_le_def)
    then show ?thesis using Cons.IH [OF Cons.prems(1)] created(5) map_le_trans by blast
  qed simp
qed simp

lemma loop_resume:
  "undisturbed env \<Longrightarrow> stage_loop sha env fault root base index posts d = (r, d') \<Longrightarrow>
   calm_loop sha root base index posts d' = calm_loop sha root base index posts d"
proof (induction posts arbitrary: index d r)
  case (Cons post posts)
  let ?p = "joined root (stage_rel base index)"
  show ?case using Cons.prems
  proof (cases rule: stage_cases)
    case (there q)
    have "is_post sha d' ?p (poSHA post)" using there(2) stage_mono [OF Cons.prems(1) there(3)] by (rule is_post_mono)
    then show ?thesis using Cons.IH [OF Cons.prems(1) there(3)] stage_calm_there there(1,2) by metis
  next
    case (created q d2)
    have post: "is_post sha d2 ?p (poSHA post)" using created(1,3) by (simp add: is_post_def)
    note first = stage_calm_created [OF created(1,2,4), of posts]
    from created(5) show ?thesis
    proof
      assume "d' = d2 \<and> isl r"
      then show ?thesis using first stage_calm_there created(1) post by metis
    next
      assume rest: "stage_loop sha env fault root base (Suc index) posts d2 = (q, d') \<and> r = map_sum id ((#) (staged_of base index post)) q"
      then have "is_post sha d' ?p (poSHA post)" using is_post_mono [OF post] stage_mono [OF Cons.prems(1)] by blast
      then show ?thesis using first stage_calm_there created(1) Cons.IH [OF Cons.prems(1)] rest by metis
    qed
  qed simp
qed simp

lemma Stage_failed: "ensure_directories env root [stage_base op i, path_clean (stage_base op i @ ''/staging'')] d = (Some e, d1) \<Longrightarrow>
    Stage sha env fault root op i posts d = (Inl e, d1)"
  by (simp only: Stage_def Let_def option.case prod.case)

lemma Stage_loop: "ensure_directories env root [stage_base op i, path_clean (stage_base op i @ ''/staging'')] d = (None, d1) \<Longrightarrow>
    Stage sha env fault root op i posts d = stage_loop sha env fault root (stage_base op i) 0 posts d1"
  by (simp only: Stage_def Let_def option.case prod.case)

lemma Stage_resume:
  assumes "undisturbed env"
  shows "Stage sha calm_env (\<lambda>_. False) root op i posts (snd (Stage sha env fault root op i posts d)) =
    Stage sha calm_env (\<lambda>_. False) root op i posts d"
proof -
  let ?dirs = "[stage_base op i, path_clean (stage_base op i @ ''/staging'')]"
  obtain e d1 where dirs: "ensure_directories env root ?dirs d = (e, d1)" by fastforce
  show ?thesis
  proof (cases e)
    case (Some x)
    have "Stage sha env fault root op i posts d = (Inl x, d1)" by (rule Stage_failed [OF dirs [unfolded Some]])
    then show ?thesis using dirs_resume [OF dirs] by (simp only: Stage_def snd_conv Let_def)
  next
    case None
    note ok = dirs [unfolded None]
    have calm: "ensure_directories calm_env root ?dirs d = (None, d1)"
      "\<And>d2. d1 \<subseteq>\<^sub>m d2 \<Longrightarrow> ensure_directories calm_env root ?dirs d2 = (None, d2)"
      using dirs_done [OF ok] by blast+
    obtain r d' where loop: "stage_loop sha env fault root (stage_base op i) 0 posts d1 = (r, d')" by fastforce
    show ?thesis
      unfolding Stage_loop [OF ok] loop snd_conv Stage_loop [OF calm(1)] Stage_loop [OF calm(2) [OF stage_mono [OF assms loop]]]
      by (rule loop_resume [OF assms loop])
  qed
qed

interpretation staging: resumable "\<lambda>(env, fault). Stage sha env fault root op i posts" "\<lambda>(env, fault). undisturbed env" "(calm_env, \<lambda>_. False)"
  by unfold_locales (auto simp: Stage_resume)

text \<open>
  \<^bold>\<open>C15\<close>. Staging survives interruption: after any number of attempts that stopped anywhere, at a fault point, at a
  failing call or half way through a publication, \<open>Stage\<close> comes to the same staged postimages, or the same refusal, and to the same
  file system as if none of them had been.
\<close>

theorem Stage_resumes:
  assumes "list_all (\<lambda>(env, fault). undisturbed env) attempts"
  shows "Stage sha calm_env (\<lambda>_. False) root op i posts (fold (\<lambda>(env, fault) d. snd (Stage sha env fault root op i posts d)) attempts d) =
    Stage sha calm_env (\<lambda>_. False) root op i posts d"
  using staging.resume_many [OF assms, of sha root op i posts d] by (simp add: case_prod_unfold)

lemma Stage_resumes_witness:
  "Stage id calm_env (\<lambda>_. False) [''r''] ''scope'' ''1'' [\<lparr>poPath = ''a'', poSHA = ''x'', poData = ''x''\<rparr>]
     (snd (Stage id calm_env (\<lambda>f. f = ''after_stage_0'') [''r''] ''scope'' ''1'' [\<lparr>poPath = ''a'', poSHA = ''x'', poData = ''x''\<rparr>] [[''r''] \<mapsto> DirNode])) =
   Stage id calm_env (\<lambda>_. False) [''r''] ''scope'' ''1'' [\<lparr>poPath = ''a'', poSHA = ''x'', poData = ''x''\<rparr>] [[''r''] \<mapsto> DirNode]"
  using Stage_resumes [of "[(calm_env, \<lambda>f. f = ''after_stage_0'')]" id "[''r'']" "''scope''" "''1''"
      "[\<lparr>poPath = ''a'', poSHA = ''x'', poData = ''x''\<rparr>]" "[[''r''] \<mapsto> DirNode]"] by simp

section \<open>Reading staged data\<close>

lemma stage_success:
  "undisturbed env \<Longrightarrow> stage_loop sha env fault root base index posts d = (Inr staged, d') \<Longrightarrow>
   staged = map (\<lambda>(i, post). staged_of base i post) (enumerate index posts) \<and>
   list_all (\<lambda>(i, post). poSHA post = sha (poData post) \<and> is_post sha d' (joined root (stage_rel base i)) (poSHA post)) (enumerate index posts)"
proof (induction posts arbitrary: index d staged)
  case (Cons post posts)
  let ?p = "joined root (stage_rel base index)"
  show ?case using Cons.prems
  proof (cases rule: stage_cases)
    case (there q)
    then obtain rest where q: "q = Inr rest" "staged = staged_of base index post # rest" by (cases q) auto
    have "is_post sha d' ?p (poSHA post)" using is_post_mono [OF there(2)] stage_mono [OF Cons.prems(1) there(3)] .
    then show ?thesis using Cons.IH [OF Cons.prems(1) there(3) [unfolded q(1)]] q(2) there(1) by simp
  next
    case (created q d2)
    then have rest: "stage_loop sha env fault root base (Suc index) posts d2 = (q, d')" "Inr staged = map_sum id ((#) (staged_of base index post)) q" by auto
    then obtain tl where q: "q = Inr tl" "staged = staged_of base index post # tl" by (cases q) auto
    have "is_post sha d2 ?p (poSHA post)" using created(1,3) by (simp add: is_post_def)
    then have "is_post sha d' ?p (poSHA post)" using is_post_mono stage_mono [OF Cons.prems(1) rest(1)] by blast
    then show ?thesis using Cons.IH [OF Cons.prems(1) rest(1) [unfolded q(1)]] q(2) created(1) by simp
  qed simp
qed simp

lemma ReadStaged_found:
  assumes "list_all (\<lambda>(i, post). poSHA post = sha (poData post) \<and> is_post sha d (joined root (stage_rel base i)) (poSHA post)) es"
    and "post \<in> set (map snd es)" "distinct (map (poPath \<circ> snd) es)" "\<And>b. sha b = sha (poData post) \<Longrightarrow> b = poData post"
  shows "ReadStaged sha calm_env d root (map (\<lambda>(i, post). staged_of base i post) es) (poPath post) = Inr (poData post)"
  using assms(1-3)
proof (induction es)
  case (Cons e es)
  obtain i x where e: "e = (i, x)" by fastforce
  show ?case
  proof (cases "poPath x = poPath post")
    case True
    then have "post = x" using Cons.prems(2,3) by (auto simp: e)
    moreover obtain b where b: "d (joined root (stage_rel base i)) = Some (RegularFile b)" "sha b = poSHA x" "poSHA x = sha (poData x)"
      using Cons.prems(1) by (auto simp: e is_post_def)
    ultimately have "b = poData post" using assms(4) by simp
    then show ?thesis using b \<open>post = x\<close> by (simp add: e os_ReadFile_def)
  next
    case False
    then show ?thesis using Cons by (auto simp: e)
  qed
qed simp

lemma Stage_staged:
  assumes "undisturbed env" "Stage sha env fault root op i posts d = (Inr staged, d')"
  shows "d \<subseteq>\<^sub>m d'" "staged = map (\<lambda>(n, post). staged_of (stage_base op i) n post) (enumerate 0 posts)"
proof -
  obtain e d1 where dirs: "ensure_directories env root [stage_base op i, path_clean (stage_base op i @ ''/staging'')] d = (e, d1)" by fastforce
  then have "e = None" using Stage_failed [of env root op i d _ d1 sha fault posts] assms(2) by (cases e) auto
  then have loop: "stage_loop sha env fault root (stage_base op i) 0 posts d1 = (Inr staged, d')"
    using Stage_loop dirs assms(2) by metis
  show "d \<subseteq>\<^sub>m d'" using dirs_mono [OF dirs] stage_mono [OF assms(1) loop] map_le_trans by blast
  show "staged = map (\<lambda>(n, post). staged_of (stage_base op i) n post) (enumerate 0 posts)"
    using stage_success [OF assms(1) loop] by blast
qed

text \<open>
  \<^bold>\<open>C25\<close>. Staged data is read back as it was given: when \<open>Stage\<close> succeeds, however often it had to be tried, \<open>ReadStaged\<close> delivers
  for the path of each postimage its data, also when the staged file was there before. Of the digest it is used that it tells the data
  of the postimage from other data; the paths of the postimages are different.
\<close>

theorem ReadStaged_Stage:
  assumes "undisturbed env" "Stage sha env fault root op i posts d = (Inr staged, d')"
    and "distinct (map poPath posts)" "post \<in> set posts" "\<And>b. sha b = sha (poData post) \<Longrightarrow> b = poData post"
  shows "ReadStaged sha calm_env d' root staged (poPath post) = Inr (poData post)"
proof -
  obtain e d1 where dirs: "ensure_directories env root [stage_base op i, path_clean (stage_base op i @ ''/staging'')] d = (e, d1)" by fastforce
  then have "e = None" using Stage_failed [of env root op i d _ d1 sha fault posts] assms(2) by (cases e) auto
  then have loop: "stage_loop sha env fault root (stage_base op i) 0 posts d1 = (Inr staged, d')"
    using Stage_loop dirs assms(2) by metis
  note s = stage_success [OF assms(1) loop]
  have "post \<in> set (map snd (enumerate 0 posts))" "distinct (map (poPath \<circ> snd) (enumerate 0 posts))"
    using assms(3,4) by (simp_all add: map_map [symmetric] del: map_map)
  then show ?thesis using ReadStaged_found s assms(5) by blast
qed

lemma ReadStaged_Stage_witness:
  "\<exists>staged d'. Stage id calm_env (\<lambda>_. False) [''r''] ''scope'' ''1'' [\<lparr>poPath = ''a'', poSHA = ''x'', poData = ''x''\<rparr>] [[''r''] \<mapsto> DirNode] = (Inr staged, d') \<and>
     ReadStaged id calm_env d' [''r''] staged ''a'' = Inr ''x''"
proof -
  let ?post = "\<lparr>poPath = ''a'', poSHA = ''x'', poData = ''x''\<rparr>"
  let ?run = "Stage id calm_env (\<lambda>_. False) [''r''] ''scope'' ''1'' [?post] [[''r''] \<mapsto> DirNode]"
  have "\<not> isl (fst ?run)" by code_simp
  then obtain staged where "?run = (Inr staged, snd ?run)" by (metis isl_def prod.collapse sum.exhaust_sel sum.disc(1) sum.collapse(2))
  then show ?thesis using ReadStaged_Stage [of calm_env id "\<lambda>_. False" "[''r'']" "''scope''" "''1''" "[?post]" "[[''r''] \<mapsto> DirNode]" staged "snd ?run" ?post] by fastforce
qed

end
