(* ===== verification/Batch_Receipt.thy ===== *)
theory Batch_Receipt
  imports Fs_Path Go_Sort
begin

text \<open>
  Batches of authoring work (\<open>internal/codebatch/types.go\<close>, \<open>receipt.go\<close>): which candidates one batch carries, the receipt that binds the batch to what it
  was issued against, and the check of a submission against its receipt. The receipts on disk are the list of
  batch identifier and file content in directory order; their JSON codec and the digest \<open>sha\<close> are arguments.
\<close>

section \<open>Data\<close>

record Target =
  taCandidateID :: string
  taObjectRef :: string
  taPath :: string
  taChange :: string
  taSourceSHA256 :: string
  taExistingEntry :: string

record Receipt =
  rcVersion :: string
  rcPlanID :: string
  rcBatchID :: string
  rcCompositeIdentity :: string
  rcScopePolicyIdentity :: string
  rcCodeVolumePath :: string
  rcCodeVolumeSHA256 :: string
  rcAllTargets :: "Target list"
  rcTargets :: "Target list"
  rcLogicalPlan :: string

record Plan =
  plVersion :: string
  plPlanID :: string
  plBatchID :: string
  plCompositeIdentity :: string
  plScopePolicyIdentity :: string
  plCodeVolumePath :: string
  plCodeVolumeSHA256 :: string
  plTotalTargets :: int
  plMaxEntries :: int
  plIncluded :: int
  plRemaining :: int
  plContinuationRequired :: bool
  plTransportBudgetBytes :: int
  plCandidates :: "Target list"
  plLogicalPlan :: string

record Submission =
  suCandidateIndex :: int
  suObjectRef :: string
  suCandidateID :: string
  suSourceSHA256 :: string

record SubmissionIssue =
  siCandidateIndex :: int
  siPath :: string
  siObjectRef :: string
  siField :: string
  siExpected :: string
  siActual :: string
  siCode :: string

datatype batch_error =
    BatchLimitInvalid
  | TargetInvalid
  | BatchIDInvalid
  | ReceiptMissing
  | ReceiptUnreadable
  | ReceiptMalformed
  | ReceiptInvalid
  | PlanIDMismatch
  | BatchIDMismatch
  | BatchTargetNotInPlan
  | CandidateIDMismatch
  | ReceiptConflict
  | ReceiptWriteFailed
  | PlanStale
  | BatchIncomplete
  | DuplicateOrInvalid
  | BatchMismatch
  | SubmissionBatchID string string
  | SubmissionBinding "SubmissionIssue list"

section \<open>Identities\<close>

definition batchVersion :: string where
  "batchVersion = ''code-cognition-batch/v1''"

text \<open>Eight bytes, the most significant first.\<close>

definition be64 :: "nat \<Rightarrow> string" where
  "be64 n = map (\<lambda>i. char_of (n div 256 ^ i)) [7, 6, 5, 4, 3, 2, 1, 0]"

definition receiptHash :: "(string \<Rightarrow> string) \<Rightarrow> string list \<Rightarrow> string" where
  "receiptHash sha values = sha (concat (map (\<lambda>value. be64 (length value) @ value) values))"

definition validSHA256 :: "string \<Rightarrow> bool" where
  "validSHA256 value \<longleftrightarrow> length value = 64 \<and> trim_chars value ''0123456789abcdef'' = []"

definition encodeTarget :: "Target \<Rightarrow> bool \<Rightarrow> string" where
  "encodeTarget target includeCandidateID =
     (let values = [taObjectRef target, taPath target, taChange target, taSourceSHA256 target, taExistingEntry target] @
        (if includeCandidateID then [taCandidateID target] else []) in
      concat (map (\<lambda>value. itoa (length value) @ '':'' @ value) values))"

definition encodeTargets :: "Target list \<Rightarrow> bool \<Rightarrow> string" where
  "encodeTargets targets includeCandidateID = concat (map (\<lambda>t. encodeTarget t includeCandidateID) targets)"

section \<open>Selection\<close>

record batch_budget =
  bgBytes :: int
  bgSize :: "(Target \<Rightarrow> int) option"
  bgTotal :: int

definition Select :: "Target list \<Rightarrow> int \<Rightarrow> Target list \<times> Target list" where
  "Select candidates limit =
     (let ordered = sort_by (\<lambda>a b. str_le (taObjectRef a) (taObjectRef b)) candidates in
      (ordered, if 1 \<le> limit \<and> limit < int (length ordered) then take (nat limit) ordered else ordered))"

text \<open>The loop over the first \<open>count\<close> candidates, with what they use up.\<close>

fun prefix_loop :: "(Target \<Rightarrow> int) \<Rightarrow> int \<Rightarrow> int \<Rightarrow> nat \<Rightarrow> Target list \<Rightarrow> nat" where
  "prefix_loop cost bytes used index [] = index"
| "prefix_loop cost bytes used index (c # cs) =
     (if 0 < index \<and> bytes < used + cost c then index else prefix_loop cost bytes (used + cost c) (Suc index) cs)"

definition PrefixWithinBudget :: "Target list \<Rightarrow> int \<Rightarrow> batch_budget \<Rightarrow> nat" where
  "PrefixWithinBudget ordered limit budget =
     (let count = (if 1 \<le> limit \<and> limit < int (length ordered) then nat limit else length ordered) in
      case bgSize budget of
        None \<Rightarrow> count
      | Some cost \<Rightarrow> if bgBytes budget \<le> 0 then count else prefix_loop cost (bgBytes budget) 0 0 (take count ordered))"

definition SelectWithBudget :: "Target list \<Rightarrow> int \<Rightarrow> batch_budget \<Rightarrow> Target list \<times> Target list" where
  "SelectWithBudget candidates limit budget =
     (let ordered = fst (Select candidates 0) in (ordered, take (PrefixWithinBudget ordered limit budget) ordered))"

function count_loop :: "Target list \<Rightarrow> int \<Rightarrow> batch_budget \<Rightarrow> nat" where
  "count_loop ordered limit budget =
     (if ordered = [] then 0
      else let taken = PrefixWithinBudget ordered limit budget in
        if taken = 0 then 0 else Suc (count_loop (drop taken ordered) limit budget))"
  by pat_completeness auto
termination by (relation "measure (\<lambda>(ordered, _, _). length ordered)") auto

definition CountBatches :: "Target list \<Rightarrow> int \<Rightarrow> batch_budget \<Rightarrow> nat" where
  "CountBatches candidates limit budget = count_loop (fst (Select candidates 0)) limit budget"

section \<open>Receipts\<close>

definition targetsWithoutCandidateIDs :: "Target list \<Rightarrow> Target list" where
  "targetsWithoutCandidateIDs candidates = map (\<lambda>t. t\<lparr>taCandidateID := []\<rparr>) candidates"

fun validateTargets :: "string \<Rightarrow> Target list \<Rightarrow> bool \<Rightarrow> batch_error option" where
  "validateTargets previous [] requireCandidateID = None"
| "validateTargets previous (t # ts) requireCandidateID =
     (if NormalizeRelPath (taPath t) \<noteq> Inr (taPath t) \<or> taObjectRef t \<noteq> ''code:'' @ taPath t \<or> str_le (taObjectRef t) previous \<or>
         (taChange t \<noteq> ''create'' \<and> taChange t \<noteq> ''update'') \<or> \<not> validSHA256 (taSourceSHA256 t) \<or>
         (requireCandidateID \<and> \<not> validSHA256 (taCandidateID t)) \<or> (\<not> requireCandidateID \<and> taCandidateID t \<noteq> [])
      then Some TargetInvalid
      else validateTargets (taObjectRef t) ts requireCandidateID)"

definition validateCandidates :: "Target list \<Rightarrow> batch_error option" where
  "validateCandidates candidates = validateTargets [] (targetsWithoutCandidateIDs candidates) False"

definition plan_identity :: "(string \<Rightarrow> string) \<Rightarrow> string \<Rightarrow> string \<Rightarrow> string \<Rightarrow> string \<Rightarrow> Target list \<Rightarrow> string" where
  "plan_identity sha composite policy path volume targets =
     receiptHash sha [''code-cognition-plan/v1'', composite, policy, path, volume, encodeTargets targets False]"

definition batch_identity :: "(string \<Rightarrow> string) \<Rightarrow> string \<Rightarrow> Target list \<Rightarrow> string" where
  "batch_identity sha planID targets = receiptHash sha [''code-cognition-batch/v1'', planID, encodeTargets targets False]"

definition candidate_identity :: "(string \<Rightarrow> string) \<Rightarrow> string \<Rightarrow> Target \<Rightarrow> string" where
  "candidate_identity sha batchID target = receiptHash sha [''code-cognition-object/v1'', batchID, encodeTarget target False]"

text \<open>A map filled from a slice: the last of equal keys stays.\<close>

definition last_map :: "('a \<Rightarrow> string) \<Rightarrow> 'a list \<Rightarrow> string \<Rightarrow> 'a option" where
  "last_map key xs k = find (\<lambda>x. key x = k) (rev xs)"

fun validate_members :: "(string \<Rightarrow> string) \<Rightarrow> Receipt \<Rightarrow> Target list \<Rightarrow> batch_error option" where
  "validate_members sha r [] = None"
| "validate_members sha r (t # ts) =
     (case last_map taObjectRef (rcAllTargets r) (taObjectRef t) of
        None \<Rightarrow> Some BatchTargetNotInPlan
      | Some base \<Rightarrow>
          if taPath base \<noteq> taPath t \<or> taChange base \<noteq> taChange t \<or> taSourceSHA256 base \<noteq> taSourceSHA256 t \<or>
             taExistingEntry base \<noteq> taExistingEntry t then Some BatchTargetNotInPlan
          else if taCandidateID t \<noteq> candidate_identity sha (rcBatchID r) t then Some CandidateIDMismatch
          else validate_members sha r ts)"

definition validateReceipt :: "(string \<Rightarrow> string) \<Rightarrow> Receipt \<Rightarrow> batch_error option" where
  "validateReceipt sha r =
     (if rcVersion r \<noteq> batchVersion \<or> \<not> validSHA256 (rcPlanID r) \<or> \<not> validSHA256 (rcBatchID r) \<or>
         \<not> validSHA256 (rcCompositeIdentity r) \<or> NormalizeRelPath (rcCodeVolumePath r) \<noteq> Inr (rcCodeVolumePath r) \<or>
         \<not> validSHA256 (rcCodeVolumeSHA256 r) \<or> rcAllTargets r = [] \<or> rcTargets r = [] then Some ReceiptInvalid
      else if rcScopePolicyIdentity r \<noteq> [] \<and> \<not> validSHA256 (rcScopePolicyIdentity r) then Some ReceiptInvalid
      else case validateTargets [] (rcAllTargets r) False of
        Some e \<Rightarrow> Some e
      | None \<Rightarrow> case validateTargets [] (rcTargets r) True of
          Some e \<Rightarrow> Some e
        | None \<Rightarrow>
            if rcPlanID r \<noteq> plan_identity sha (rcCompositeIdentity r) (rcScopePolicyIdentity r) (rcCodeVolumePath r)
                 (rcCodeVolumeSHA256 r) (rcAllTargets r) then Some PlanIDMismatch
            else if rcBatchID r \<noteq> batch_identity sha (rcPlanID r) (rcTargets r) then Some BatchIDMismatch
            else validate_members sha r (rcTargets r))"

text \<open>The receipts on disk: their files in directory order, and the identifiers whose file cannot be read.\<close>

record receipt_store =
  rsFiles :: "(string \<times> string) list"
  rsUnreadable :: "string \<Rightarrow> bool"
  rsWriteFails :: bool

definition saveReceipt :: "(string \<Rightarrow> string) \<Rightarrow> (Receipt \<Rightarrow> string) \<Rightarrow> receipt_store \<Rightarrow> Receipt \<Rightarrow> batch_error option \<times> receipt_store" where
  "saveReceipt sha encode st r =
     (case validateReceipt sha r of
        Some e \<Rightarrow> (Some e, st)
      | None \<Rightarrow>
          let data = encode r @ [LF] in
          if rsUnreadable st (rcBatchID r) then (Some ReceiptUnreadable, st)
          else case map_of (rsFiles st) (rcBatchID r) of
            Some existing \<Rightarrow> (if existing = data then None else Some ReceiptConflict, st)
          | None \<Rightarrow> if rsWriteFails st then (Some ReceiptWriteFailed, st)
                    else (None, st\<lparr>rsFiles := rsFiles st @ [(rcBatchID r, data)]\<rparr>))"

definition LoadReceipt :: "(string \<Rightarrow> string) \<Rightarrow> (string \<Rightarrow> Receipt option) \<Rightarrow> receipt_store \<Rightarrow> string \<Rightarrow> (batch_error, Receipt) result" where
  "LoadReceipt sha decode st batchID =
     (if \<not> validSHA256 batchID then Inl BatchIDInvalid
      else if rsUnreadable st batchID then Inl ReceiptUnreadable
      else case map_of (rsFiles st) batchID of
        None \<Rightarrow> Inl ReceiptMissing
      | Some data \<Rightarrow>
          (case decode data of
             None \<Rightarrow> Inl ReceiptMalformed
           | Some r \<Rightarrow> (case validateReceipt sha r of Some e \<Rightarrow> Inl e | None \<Rightarrow> Inr r)))"

section \<open>Issuing a batch\<close>

definition plan_receipt ::
  "(string \<Rightarrow> string) \<Rightarrow> string \<Rightarrow> string \<Rightarrow> string \<Rightarrow> string \<Rightarrow> Target list \<Rightarrow> Target list \<Rightarrow> string \<Rightarrow> Receipt" where
  "plan_receipt sha composite policy path volume all selected logical =
     (let allTargets = targetsWithoutCandidateIDs all;
          planID = plan_identity sha composite policy path volume allTargets;
          plain = targetsWithoutCandidateIDs selected;
          batchID = batch_identity sha planID plain;
          selectedTargets = map (\<lambda>t. t\<lparr>taCandidateID := candidate_identity sha batchID t\<rparr>) plain in
      \<lparr>rcVersion = batchVersion, rcPlanID = planID, rcBatchID = batchID, rcCompositeIdentity = composite,
        rcScopePolicyIdentity = policy, rcCodeVolumePath = path, rcCodeVolumeSHA256 = volume,
        rcAllTargets = allTargets, rcTargets = selectedTargets, rcLogicalPlan = logical\<rparr>)"

definition savePlan ::
  "(string \<Rightarrow> string) \<Rightarrow> (Receipt \<Rightarrow> string) \<Rightarrow> receipt_store \<Rightarrow> string \<Rightarrow> string \<Rightarrow> string \<Rightarrow> string \<Rightarrow>
   Target list \<Rightarrow> Target list \<Rightarrow> int \<Rightarrow> string \<Rightarrow> (batch_error, Plan) result \<times> receipt_store" where
  "savePlan sha encode st composite policy path volume all selected limit logical =
     (let receipt = plan_receipt sha composite policy path volume all selected logical;
          planCandidates = map (\<lambda>c. the (last_map taObjectRef (rcTargets receipt) (taObjectRef c))) selected in
      case saveReceipt sha encode st receipt of
        (Some e, st') \<Rightarrow> (Inl e, st')
      | (None, st') \<Rightarrow>
          let remaining = int (length all) - int (length selected) in
          (Inr \<lparr>plVersion = batchVersion, plPlanID = rcPlanID receipt, plBatchID = rcBatchID receipt, plCompositeIdentity = composite,
             plScopePolicyIdentity = policy, plCodeVolumePath = path, plCodeVolumeSHA256 = volume, plTotalTargets = int (length all),
             plMaxEntries = limit, plIncluded = int (length selected), plRemaining = remaining, plContinuationRequired = 0 < remaining,
             plTransportBudgetBytes = 0, plCandidates = planCandidates, plLogicalPlan = logical\<rparr>, st'))"

definition BuildPlan ::
  "(string \<Rightarrow> string) \<Rightarrow> (Receipt \<Rightarrow> string) \<Rightarrow> receipt_store \<Rightarrow> string \<Rightarrow> string \<Rightarrow> string \<Rightarrow> string \<Rightarrow>
   Target list \<Rightarrow> int \<Rightarrow> (batch_error, Plan) result \<times> receipt_store" where
  "BuildPlan sha encode st composite policy path volume candidates limit =
     (if limit < 1 then (Inl BatchLimitInvalid, st)
      else case Select candidates limit of (ordered, selected) \<Rightarrow>
        case validateCandidates ordered of
          Some e \<Rightarrow> (Inl e, st)
        | None \<Rightarrow> savePlan sha encode st composite policy path volume ordered selected limit [])"

definition BuildPlanWithBudget ::
  "(string \<Rightarrow> string) \<Rightarrow> (Receipt \<Rightarrow> string) \<Rightarrow> receipt_store \<Rightarrow> string \<Rightarrow> string \<Rightarrow> string \<Rightarrow> string \<Rightarrow>
   Target list \<Rightarrow> int \<Rightarrow> batch_budget \<Rightarrow> (batch_error, Plan) result \<times> receipt_store" where
  "BuildPlanWithBudget sha encode st composite policy path volume candidates limit budget =
     (if limit < 1 then (Inl BatchLimitInvalid, st)
      else case SelectWithBudget candidates limit budget of (ordered, selected) \<Rightarrow>
        case validateCandidates ordered of
          Some e \<Rightarrow> (Inl e, st)
        | None \<Rightarrow>
            (case savePlan sha encode st composite policy path volume ordered selected limit [] of
               (Inl e, st') \<Rightarrow> (Inl e, st')
             | (Inr plan, st') \<Rightarrow>
                 (Inr (plan\<lparr>plTransportBudgetBytes := (if bgTotal budget = 0 then bgBytes budget else bgTotal budget)\<rparr>), st')))"

section \<open>Submissions\<close>

definition receiptSourcesCurrent :: "(string \<Rightarrow> string) \<Rightarrow> (string \<Rightarrow> string option) \<Rightarrow> Receipt \<Rightarrow> bool" where
  "receiptSourcesCurrent sha source r \<longleftrightarrow>
     list_all (\<lambda>t. case source (taPath t) of None \<Rightarrow> False | Some data \<Rightarrow> sha data = taSourceSHA256 t) (rcTargets r)"

fun exact_loop :: "(string \<times> Target) list \<Rightarrow> Submission list \<Rightarrow> bool" where
  "exact_loop targets [] = (targets = [])"
| "exact_loop targets (item # items) =
     (case map_of targets (suObjectRef item) of
        None \<Rightarrow> False
      | Some t \<Rightarrow> suCandidateID item = taCandidateID t \<and> suSourceSHA256 item = taSourceSHA256 t \<and>
          exact_loop (filter (\<lambda>(k, _). k \<noteq> suObjectRef item) targets) items)"

definition submissionExactlyMatches :: "Receipt \<Rightarrow> Submission list \<Rightarrow> bool" where
  "submissionExactlyMatches r submissions \<longleftrightarrow>
     length submissions = length (rcTargets r) \<and> exact_loop (rev (map (\<lambda>t. (taObjectRef t, t)) (rcTargets r))) submissions"

definition issue_target :: "Receipt \<Rightarrow> Submission \<Rightarrow> Target option" where
  "issue_target r item =
     (let byPath = last_map taObjectRef (rcTargets r) (suObjectRef item);
          byCandidate = last_map taCandidateID (rcTargets r) (suCandidateID item) in
      case (byPath, byCandidate) of
        (Some p, Some c) \<Rightarrow>
          if taObjectRef p \<noteq> taObjectRef c then
            let pathSource = (suSourceSHA256 item = taSourceSHA256 p); candidateSource = (suSourceSHA256 item = taSourceSHA256 c) in
            if pathSource = candidateSource then None else if candidateSource then Some c else Some p
          else Some p
      | (Some p, None) \<Rightarrow> Some p
      | (None, c) \<Rightarrow> c)"

definition item_issues :: "nat \<Rightarrow> Submission \<Rightarrow> Target \<Rightarrow> SubmissionIssue list" where
  "item_issues index item t =
     (let base = \<lparr>siCandidateIndex = (if suCandidateIndex item = 0 then int index + 1 else suCandidateIndex item), siPath = taPath t,
        siObjectRef = taObjectRef t, siField = [], siExpected = [], siActual = [], siCode = []\<rparr> in
      (if suObjectRef item \<noteq> taObjectRef t then [base\<lparr>siField := ''path'', siExpected := taPath t,
         siActual := trim_prefix (suObjectRef item) ''code:'', siCode := ''code_candidate_path_mismatch''\<rparr>] else []) @
      (if suCandidateID item \<noteq> taCandidateID t then [base\<lparr>siField := ''candidate_id'', siExpected := taCandidateID t,
         siActual := suCandidateID item, siCode := ''code_candidate_id_mismatch''\<rparr>] else []) @
      (if suSourceSHA256 item \<noteq> taSourceSHA256 t then [base\<lparr>siField := ''source_sha256'', siExpected := taSourceSHA256 t,
         siActual := suSourceSHA256 item, siCode := ''code_candidate_source_sha256_mismatch''\<rparr>] else []))"

fun issue_loop :: "Receipt \<Rightarrow> nat \<Rightarrow> string list \<Rightarrow> Submission list \<Rightarrow> (SubmissionIssue list \<times> string list) option" where
  "issue_loop r index used [] = Some ([], used)"
| "issue_loop r index used (item # items) =
     (case issue_target r item of
        None \<Rightarrow> None
      | Some t \<Rightarrow>
          if taObjectRef t \<in> set used then None
          else map_option (\<lambda>(issues, used'). (item_issues index item t @ issues, used')) (issue_loop r (Suc index) (taObjectRef t # used) items))"

definition submissionIssues :: "Receipt \<Rightarrow> Submission list \<Rightarrow> SubmissionIssue list \<times> bool" where
  "submissionIssues r submissions =
     (case issue_loop r 0 [] submissions of
        None \<Rightarrow> ([], False)
      | Some (issues, used) \<Rightarrow> (issues, length used = length (rcTargets r)))"

fun submitted_ok :: "string list \<Rightarrow> Submission list \<Rightarrow> bool" where
  "submitted_ok seen [] = True"
| "submitted_ok seen (item # items) \<longleftrightarrow>
     \<not> (suObjectRef item = [] \<or> suCandidateID item = [] \<or> suSourceSHA256 item = [] \<or> suObjectRef item \<in> set seen) \<and>
     submitted_ok (suObjectRef item # seen) items"

definition matchSubmission :: "(string \<Rightarrow> string) \<Rightarrow> (string \<Rightarrow> string option) \<Rightarrow> Receipt \<Rightarrow> Submission list \<Rightarrow> batch_error option" where
  "matchSubmission sha source r submissions =
     (if length submissions \<noteq> length (rcTargets r) then Some BatchIncomplete
      else if \<not> submitted_ok [] submissions then Some DuplicateOrInvalid
      else let (issues, matched) = submissionIssues r submissions in
        if \<not> matched then Some BatchMismatch
        else if issues \<noteq> [] then
          (if \<not> receiptSourcesCurrent sha source r then Some PlanStale else Some (SubmissionBinding issues))
        else None)"

definition resolveExactSubmissionReceipt ::
  "(string \<Rightarrow> string) \<Rightarrow> (string \<Rightarrow> Receipt option) \<Rightarrow> (string \<Rightarrow> string option) \<Rightarrow> receipt_store \<Rightarrow> string \<Rightarrow> string \<Rightarrow> string \<Rightarrow> string \<Rightarrow>
   Submission list \<Rightarrow> bool \<Rightarrow> Receipt option" where
  "resolveExactSubmissionReceipt sha decode source st composite policy path volume submissions allowPostimage =
     (case List.map_filter (\<lambda>(batchID, _).
        case LoadReceipt sha decode st batchID of
          Inl _ \<Rightarrow> None
        | Inr r \<Rightarrow>
            if rcCompositeIdentity r \<noteq> composite \<or> rcScopePolicyIdentity r \<noteq> policy \<or> rcCodeVolumePath r \<noteq> path \<or>
               (\<not> allowPostimage \<and> rcCodeVolumeSHA256 r \<noteq> volume) \<or> \<not> submissionExactlyMatches r submissions \<or>
               \<not> receiptSourcesCurrent sha source r then None
            else Some r) (rsFiles st) of
        [r] \<Rightarrow> Some r
      | _ \<Rightarrow> None)"

definition ValidateSubmission ::
  "(string \<Rightarrow> string) \<Rightarrow> (string \<Rightarrow> Receipt option) \<Rightarrow> (string \<Rightarrow> string option) \<Rightarrow> receipt_store \<Rightarrow> string \<Rightarrow> string \<Rightarrow> string \<Rightarrow> string \<Rightarrow> string \<Rightarrow>
   Submission list \<Rightarrow> bool \<Rightarrow> (batch_error, Receipt) result" where
  "ValidateSubmission sha decode source st batchID composite policy path volume submissions allowPostimage =
     (case LoadReceipt sha decode st batchID of
        Inl err \<Rightarrow>
          (case resolveExactSubmissionReceipt sha decode source st composite policy path volume submissions allowPostimage of
             Some expected \<Rightarrow> Inl (SubmissionBatchID (rcBatchID expected) batchID)
           | None \<Rightarrow> Inl err)
      | Inr r \<Rightarrow>
          if \<not> allowPostimage \<and> (rcCompositeIdentity r \<noteq> composite \<or> rcScopePolicyIdentity r \<noteq> policy \<or>
             rcCodeVolumePath r \<noteq> path \<or> rcCodeVolumeSHA256 r \<noteq> volume) then Inl PlanStale
          else (case matchSubmission sha source r submissions of Some e \<Rightarrow> Inl e | None \<Rightarrow> Inr r))"

end
