(* ===== verification/Batch_Receipt_Laws.thy ===== *)
theory Batch_Receipt_Laws
  imports Batch_Receipt
begin

text \<open>
  Laws of the batches: identities bind everything they are computed from, a batch is the longest prefix that fits, what was issued is
  read back, and a submission is accepted exactly when it answers every target of the batch once with its exact bindings.
\<close>

section \<open>Identities\<close>

lemma digit_not_colon: "list_all is_digit s \<Longrightarrow> CHR '':'' \<notin> set s"
  by (auto simp: list_all_iff is_digit_def)

lemma split_at_first: "c \<notin> set a \<Longrightarrow> c \<notin> set b \<Longrightarrow> a @ c # x = b @ c # y \<Longrightarrow> a = b \<and> x = y"
proof (induction a arbitrary: b)
  case Nil
  then show ?case by (cases b) auto
next
  case (Cons d a)
  then show ?case by (cases b) auto
qed

lemma itoa_inj: "itoa m = itoa n \<Longrightarrow> m = n"
  by (metis digits_value_itoa)

abbreviation sized :: "string \<Rightarrow> string" where
  "sized value \<equiv> itoa (length value) @ '':'' @ value"

lemma sized_split: "sized x @ r = sized y @ s \<Longrightarrow> x = y \<and> r = s"
proof -
  assume "sized x @ r = sized y @ s"
  then have "itoa (length x) @ CHR '':'' # (x @ r) = itoa (length y) @ CHR '':'' # (y @ s)" by simp
  then have "itoa (length x) = itoa (length y)" "x @ r = y @ s"
    using split_at_first [of "CHR '':''" "itoa (length x)" "itoa (length y)"] itoa_digits digit_not_colon by blast+
  then show ?thesis using itoa_inj by (metis append_eq_append_conv)
qed

definition plain_target :: "Target \<Rightarrow> Target" where
  "plain_target t = t\<lparr>taCandidateID := []\<rparr>"

lemma sized_list_split:
  "length xs = length ys \<Longrightarrow> concat (map (\<lambda>value. sized value) xs) @ r = concat (map (\<lambda>value. sized value) ys) @ s \<Longrightarrow> xs = ys \<and> r = s"
proof (induction xs ys rule: list_induct2)
  case (Cons x xs y ys)
  have "sized x @ (concat (map (\<lambda>value. sized value) xs) @ r) = sized y @ (concat (map (\<lambda>value. sized value) ys) @ s)"
    using Cons.prems by simp
  then show ?case using sized_split Cons.IH by blast
qed simp

definition target_values :: "Target \<Rightarrow> string list" where
  "target_values t = [taObjectRef t, taPath t, taChange t, taSourceSHA256 t, taExistingEntry t]"

lemma encodeTarget_values: "encodeTarget t False = concat (map (\<lambda>value. sized value) (target_values t))"
  by (simp add: encodeTarget_def target_values_def Let_def)

lemma target_values_plain: "target_values t = target_values u \<Longrightarrow> plain_target t = plain_target u"
  by (cases t; cases u) (simp add: target_values_def plain_target_def)

lemma encodeTarget_split:
  "encodeTarget t False @ r = encodeTarget u False @ s \<Longrightarrow> plain_target t = plain_target u \<and> r = s"
proof -
  have l: "length (target_values t) = length (target_values u)" by (simp add: target_values_def)
  assume "encodeTarget t False @ r = encodeTarget u False @ s"
  from sized_list_split [OF l this [unfolded encodeTarget_values]]
  show "plain_target t = plain_target u \<and> r = s" using target_values_plain by blast
qed

lemma encodeTarget_nonempty: "encodeTarget t b \<noteq> []"
  using itoa_digits [of "length (taObjectRef t)"] by (simp add: encodeTarget_def)

lemma encodeTargets_inj: "encodeTargets ts False = encodeTargets us False \<Longrightarrow> map plain_target ts = map plain_target us"
proof (induction ts arbitrary: us)
  case Nil
  then show ?case using encodeTarget_nonempty by (cases us) (auto simp: encodeTargets_def)
next
  case (Cons t ts)
  then obtain u vs where us: "us = u # vs" using encodeTarget_nonempty by (cases us) (auto simp: encodeTargets_def)
  have "encodeTarget t False @ encodeTargets ts False = encodeTarget u False @ encodeTargets vs False"
    using Cons.prems unfolding us encodeTargets_def by (simp only: list.map concat.simps)
  from encodeTarget_split [OF this] have e: "plain_target t = plain_target u" "encodeTargets ts False = encodeTargets vs False" by blast+
  show ?case unfolding us list.map e(1) Cons.IH [OF e(2)] ..
qed

lemma be64_length [simp]: "length (be64 n) = 8"
  by (simp add: be64_def)

lemma digits_256_inj:
  "m < 256 ^ k \<Longrightarrow> n < 256 ^ k \<Longrightarrow> (\<And>i. i < k \<Longrightarrow> m div 256 ^ i mod 256 = n div 256 ^ i mod 256) \<Longrightarrow> m = (n :: nat)"
proof (induction k arbitrary: m n)
  case (Suc k)
  have "m div 256 = n div 256"
  proof (rule Suc.IH)
    show "m div 256 < 256 ^ k" "n div 256 < 256 ^ k" using Suc.prems(1,2) by (simp_all add: less_mult_imp_div_less mult.commute)
    show "m div 256 div 256 ^ i mod 256 = n div 256 div 256 ^ i mod 256" if "i < k" for i
      using Suc.prems(3) [of "Suc i"] that by (simp add: div_mult2_eq)
  qed
  moreover have "m mod 256 = n mod 256" using Suc.prems(3) [of 0] by simp
  ultimately show ?case by (metis div_mult_mod_eq)
qed simp

lemma char_of_eq_iff_mod: "char_of m = (char_of n :: char) \<longleftrightarrow> m mod 256 = (n mod 256 :: nat)"
proof
  assume "char_of m = (char_of n :: char)"
  then have "of_char (char_of m :: char) = (of_char (char_of n :: char) :: nat)" by (rule arg_cong)
  then show "m mod 256 = n mod 256" unfolding of_char_of .
next
  assume "m mod 256 = n mod 256"
  then have "(char_of (m mod 256) :: char) = char_of (n mod 256)" by (rule arg_cong)
  then show "char_of m = (char_of n :: char)" by simp
qed

lemma be64_inj: "m < 256 ^ 8 \<Longrightarrow> n < 256 ^ 8 \<Longrightarrow> be64 m = be64 n \<Longrightarrow> m = (n :: nat)"
proof -
  assume a: "m < 256 ^ 8" "n < 256 ^ 8" "be64 m = be64 n"
  then have e: "\<forall>i \<in> set [7 :: nat, 6, 5, 4, 3, 2, 1, 0]. m div 256 ^ i mod 256 = n div 256 ^ i mod 256"
    unfolding be64_def map_eq_conv char_of_eq_iff_mod by blast
  have "m div 256 ^ i mod 256 = n div 256 ^ i mod 256" if "i < 8" for i :: nat
  proof -
    have "i = 7 \<or> i = 6 \<or> i = 5 \<or> i = 4 \<or> i = 3 \<or> i = 2 \<or> i = 1 \<or> i = 0" using that by linarith
    then have "i \<in> set [7 :: nat, 6, 5, 4, 3, 2, 1, 0]" by (simp only: list.set insert_iff empty_iff simp_thms)
    then show ?thesis using e by blast
  qed
  then show "m = n" using digits_256_inj a(1,2) by blast
qed

definition identity_preimage :: "string list \<Rightarrow> string" where
  "identity_preimage values = concat (map (\<lambda>value. be64 (length value) @ value) values)"

lemma receiptHash_preimage: "receiptHash sha values = sha (identity_preimage values)"
  by (simp add: receiptHash_def identity_preimage_def)

abbreviation go_lengths :: "string list \<Rightarrow> bool" where
  "go_lengths values \<equiv> list_all (\<lambda>value. length value < 256 ^ 8) values"

lemma identity_preimage_inj:
  "go_lengths xs \<Longrightarrow> go_lengths ys \<Longrightarrow> identity_preimage xs = identity_preimage ys \<Longrightarrow> xs = ys"
proof (induction xs arbitrary: ys)
  case Nil
  then show ?case by (cases ys) (auto simp: identity_preimage_def be64_def)
next
  case (Cons x xs)
  then obtain y zs where ys: "ys = y # zs" by (cases ys) (auto simp: identity_preimage_def be64_def)
  have e: "be64 (length x) @ (x @ identity_preimage xs) = be64 (length y) @ (y @ identity_preimage zs)"
    using Cons.prems(3) by (simp add: ys identity_preimage_def)
  then have "be64 (length x) = be64 (length y)" "x @ identity_preimage xs = y @ identity_preimage zs"
    using append_eq_append_conv [of "be64 (length x)" "be64 (length y)"] by simp_all
  moreover have "length x = length y" using be64_inj calculation(1) Cons.prems(1,2) ys by simp
  ultimately show ?case using Cons ys by simp
qed

section \<open>Receipts are bound by their batch identity\<close>

text \<open>A digest tells two texts apart.\<close>

definition tells_apart :: "(string \<Rightarrow> string) \<Rightarrow> string \<Rightarrow> string \<Rightarrow> bool" where
  "tells_apart sha x y \<longleftrightarrow> (sha x = sha y \<longrightarrow> x = y)"

definition plan_values :: "Receipt \<Rightarrow> string list" where
  "plan_values r = [''code-cognition-plan/v1'', rcCompositeIdentity r, rcScopePolicyIdentity r, rcCodeVolumePath r, rcCodeVolumeSHA256 r,
     encodeTargets (rcAllTargets r) False]"

definition batch_values :: "Receipt \<Rightarrow> string list" where
  "batch_values r = [''code-cognition-batch/v1'', rcPlanID r, encodeTargets (rcTargets r) False]"

lemma validateReceipt_ok:
  assumes "validateReceipt sha r = None"
  shows "rcVersion r = batchVersion" "rcPlanID r = sha (identity_preimage (plan_values r))"
    "rcBatchID r = sha (identity_preimage (batch_values r))" "validateTargets [] (rcAllTargets r) False = None"
    "validateTargets [] (rcTargets r) True = None" "validate_members sha r (rcTargets r) = None" "rcTargets r \<noteq> []"
  using assms by (simp_all add: validateReceipt_def plan_identity_def batch_identity_def receiptHash_preimage plan_values_def batch_values_def
      split: if_splits option.splits)

lemma no_ids: "validateTargets p ts False = None \<Longrightarrow> map plain_target ts = ts"
  by (induction ts arbitrary: p) (auto simp: plain_target_def split: if_splits)

lemma members_ids: "validate_members sha r ts = None \<Longrightarrow> list_all (\<lambda>t. taCandidateID t = candidate_identity sha (rcBatchID r) t) ts"
  by (induction ts) (auto split: option.splits if_splits)

lemma candidate_identity_plain: "candidate_identity sha b t = candidate_identity sha b (plain_target t)"
  by (simp add: candidate_identity_def encodeTarget_def plain_target_def Let_def)

lemma with_id: "taCandidateID t = candidate_identity sha b t \<Longrightarrow> t = (plain_target t)\<lparr>taCandidateID := candidate_identity sha b (plain_target t)\<rparr>"
  by (cases t) (simp add: plain_target_def candidate_identity_def encodeTarget_def Let_def)

lemma targets_from_plain:
  "list_all (\<lambda>t. taCandidateID t = candidate_identity sha b t) ts \<Longrightarrow>
   ts = map (\<lambda>t. t\<lparr>taCandidateID := candidate_identity sha b t\<rparr>) (map plain_target ts)"
  by (induction ts) (use with_id in auto)

text \<open>
  \<^bold>\<open>C29\<close>. A receipt is determined by its batch identity: two valid receipts with the same batch identifier are the same in every field
  that is checked: the identities they were issued against, the path, all targets, the batch and its candidate identifiers. No field can
  be moved into another, as every value is hashed behind its length. Of the digest it is used that it tells the two plans' and the two
  batches' preimages apart, of strings that their lengths fit 64 bits.
\<close>

theorem receipt_determined_by_batch:
  assumes "validateReceipt sha r = None" "validateReceipt sha s = None" "rcBatchID r = rcBatchID s"
    and "tells_apart sha (identity_preimage (plan_values r)) (identity_preimage (plan_values s))"
    and "tells_apart sha (identity_preimage (batch_values r)) (identity_preimage (batch_values s))"
    and "go_lengths (plan_values r @ batch_values r @ plan_values s @ batch_values s)"
  shows "r\<lparr>rcLogicalPlan := []\<rparr> = s\<lparr>rcLogicalPlan := []\<rparr>"
proof -
  note r = validateReceipt_ok [OF assms(1)] and s = validateReceipt_ok [OF assms(2)]
  have "batch_values r = batch_values s"
    using identity_preimage_inj assms(3,5,6) r(3) s(3) by (simp add: tells_apart_def)
  then have plan: "rcPlanID r = rcPlanID s" and enc: "encodeTargets (rcTargets r) False = encodeTargets (rcTargets s) False"
    by (simp_all add: batch_values_def)
  have "plan_values r = plan_values s"
    using identity_preimage_inj assms(4,6) r(2) s(2) plan by (simp add: tells_apart_def)
  then have pv: "rcCompositeIdentity r = rcCompositeIdentity s" "rcScopePolicyIdentity r = rcScopePolicyIdentity s"
      "rcCodeVolumePath r = rcCodeVolumePath s" "rcCodeVolumeSHA256 r = rcCodeVolumeSHA256 s"
      "encodeTargets (rcAllTargets r) False = encodeTargets (rcAllTargets s) False"
    by (simp_all add: plan_values_def)
  have all: "rcAllTargets r = rcAllTargets s" using encodeTargets_inj [OF pv(5)] no_ids [OF r(4)] no_ids [OF s(4)] by simp
  have "rcTargets r = rcTargets s"
    using targets_from_plain [OF members_ids [OF r(6)]] targets_from_plain [OF members_ids [OF s(6)]] encodeTargets_inj [OF enc] assms(3) by metis
  then show ?thesis using pv(1-4) plan all assms(3) r(1) s(1) by (cases r; cases s) simp
qed

section \<open>Selection\<close>

abbreviation cost_of :: "(Target \<Rightarrow> int) \<Rightarrow> Target list \<Rightarrow> int" where
  "cost_of cost cs \<equiv> sum_list (map cost cs)"

lemma prefix_loop_longest:
  "\<exists>j. prefix_loop cost bytes used index cs = index + j \<and> j \<le> length cs \<and>
     (\<forall>i < j. index + i = 0 \<or> used + cost_of cost (take (Suc i) cs) \<le> bytes) \<and>
     (j < length cs \<longrightarrow> 0 < index + j \<and> bytes < used + cost_of cost (take (Suc j) cs))"
proof (induction cs arbitrary: used index)
  case (Cons c cs)
  show ?case
  proof (cases "0 < index \<and> bytes < used + cost c")
    case True
    then show ?thesis by (intro exI [of _ 0]) simp
  next
    case False
    obtain j where j: "prefix_loop cost bytes (used + cost c) (Suc index) cs = Suc index + j" "j \<le> length cs"
      "\<forall>i < j. used + cost c + cost_of cost (take (Suc i) cs) \<le> bytes"
      "j < length cs \<longrightarrow> bytes < used + cost c + cost_of cost (take (Suc j) cs)"
      using Cons.IH [of "used + cost c" "Suc index"] by auto
    have "index + i = 0 \<or> used + cost_of cost (take (Suc i) (c # cs)) \<le> bytes" if "i < Suc j" for i
    proof (cases i)
      case 0
      then show ?thesis using False by auto
    next
      case (Suc k)
      then show ?thesis using j(3) that by (auto simp: add.assoc)
    qed
    then show ?thesis using False j by (intro exI [of _ "Suc j"]) (auto simp: add.assoc)
  qed
qed simp

text \<open>
  A batch is the longest prefix that fits: at most the limit, at least one candidate of a nonempty list, within the byte budget
  unless it is that single candidate, and with the next candidate it would be over the budget or the limit.
\<close>

theorem PrefixWithinBudget_longest:
  assumes "bgSize budget = Some cost" "0 < bgBytes budget"
  shows "let k = PrefixWithinBudget ordered limit budget;
             n = (if 1 \<le> limit then min (nat limit) (length ordered) else length ordered) in
    k \<le> n \<and> (0 < n \<longrightarrow> 0 < k) \<and> (k \<le> 1 \<or> cost_of cost (take k ordered) \<le> bgBytes budget) \<and>
    (k < n \<longrightarrow> bgBytes budget < cost_of cost (take (Suc k) ordered))"
proof -
  define n where "n = (if 1 \<le> limit then min (nat limit) (length ordered) else length ordered)"
  have n: "n \<le> length ordered" by (simp add: n_def)
  have "(if 1 \<le> limit \<and> limit < int (length ordered) then nat limit else length ordered) = n" by (auto simp: n_def)
  then have k: "PrefixWithinBudget ordered limit budget = prefix_loop cost (bgBytes budget) 0 0 (take n ordered)"
    using assms by (simp add: PrefixWithinBudget_def)
  obtain j where j: "prefix_loop cost (bgBytes budget) 0 0 (take n ordered) = j" "j \<le> n"
    "\<forall>i < j. i = 0 \<or> cost_of cost (take (Suc i) (take n ordered)) \<le> bgBytes budget"
    "j < n \<longrightarrow> 0 < j \<and> bgBytes budget < cost_of cost (take (Suc j) (take n ordered))"
    using prefix_loop_longest [of cost "bgBytes budget" 0 0 "take n ordered"] n by auto
  have "j \<le> 1 \<or> cost_of cost (take j ordered) \<le> bgBytes budget"
    using j(3) [rule_format, of "j - 1"] j(2) by (cases j) (auto simp: min_absorb1)
  then show ?thesis using j(1,2,4) unfolding n_def [symmetric] k by (auto simp: min_absorb1)
qed

lemma PrefixWithinBudget_longest_witness:
  "PrefixWithinBudget [\<lparr>taCandidateID = [], taObjectRef = ''code:a'', taPath = ''a'', taChange = ''create'', taSourceSHA256 = [], taExistingEntry = []\<rparr>] 0
     \<lparr>bgBytes = 1, bgSize = Some (\<lambda>_. 5), bgTotal = 0\<rparr> = 1"
  using PrefixWithinBudget_longest [of "\<lparr>bgBytes = 1, bgSize = Some (\<lambda>_. 5), bgTotal = 0\<rparr>" "\<lambda>_. 5"
      "[\<lparr>taCandidateID = [], taObjectRef = ''code:a'', taPath = ''a'', taChange = ''create'', taSourceSHA256 = [], taExistingEntry = []\<rparr>]" 0]
  by (simp add: Let_def)

lemma prefix_positive: "ordered \<noteq> [] \<Longrightarrow> 0 < PrefixWithinBudget ordered limit budget"
proof (cases "bgSize budget = None \<or> bgBytes budget \<le> 0")
  case True
  assume "ordered \<noteq> []"
  then show ?thesis using True by (auto simp: PrefixWithinBudget_def Let_def split: option.splits)
next
  case False
  assume "ordered \<noteq> []"
  moreover obtain cost where c: "bgSize budget = Some cost" using False by auto
  let ?n = "if 1 \<le> limit \<and> limit < int (length ordered) then nat limit else length ordered"
  have "0 < length (take ?n ordered)" using \<open>ordered \<noteq> []\<close> by auto
  then have "0 < prefix_loop cost (bgBytes budget) 0 0 (take ?n ordered)"
    using prefix_loop_longest [of cost "bgBytes budget" 0 0 "take ?n ordered"] by (metis add.left_neutral neq0_conv)
  then show ?thesis using c False by (simp add: PrefixWithinBudget_def Let_def)
qed

lemma prefix_le: "PrefixWithinBudget ordered limit budget \<le> length ordered"
proof (cases "bgSize budget")
  case (Some cost)
  then show ?thesis using prefix_loop_longest [of cost "bgBytes budget" 0 0]
    by (auto simp: PrefixWithinBudget_def Let_def) (metis add.left_neutral length_take min.bounded_iff min.commute)+
qed (auto simp: PrefixWithinBudget_def Let_def)

text \<open>The batches one after the other.\<close>

function batches :: "Target list \<Rightarrow> int \<Rightarrow> batch_budget \<Rightarrow> Target list list" where
  "batches ordered limit budget =
     (if ordered = [] then []
      else take (PrefixWithinBudget ordered limit budget) ordered # batches (drop (PrefixWithinBudget ordered limit budget) ordered) limit budget)"
  by pat_completeness auto
termination by (relation "measure (\<lambda>(ordered, _, _). length ordered)") (auto simp: prefix_positive)

declare batches.simps [simp del] count_loop.simps [simp del]

text \<open>
  \<^bold>\<open>C30\<close>. Counting the batches ends and counts what is issued: \<open>CountBatches\<close> is the number of batches that issuing one after the other takes;
  each is nonempty, and together they are all candidates in plan order, each once.
\<close>

theorem CountBatches_partition:
  "CountBatches candidates limit budget = length (batches (fst (Select candidates 0)) limit budget) \<and>
   concat (batches (fst (Select candidates 0)) limit budget) = fst (Select candidates 0) \<and>
   mset (fst (Select candidates 0)) = mset candidates \<and> [] \<notin> set (batches (fst (Select candidates 0)) limit budget)"
proof -
  have "count_loop os limit budget = length (batches os limit budget) \<and> concat (batches os limit budget) = os \<and> [] \<notin> set (batches os limit budget)" for os
  proof (induction os limit budget rule: batches.induct)
    case (1 os limit budget)
    show ?case
    proof (cases "os = []")
      case True
      then show ?thesis by (simp add: batches.simps count_loop.simps)
    next
      case False
      then show ?thesis using "1" prefix_positive [OF False, of limit budget]
        by (subst (1 2 3) batches.simps, subst count_loop.simps) (simp add: Let_def)
    qed
  qed
  then show ?thesis by (simp add: CountBatches_def Select_def Let_def)
qed

section \<open>Submissions\<close>

text \<open>What binds a submitted candidate, and what an issued one is bound to.\<close>

definition submitted_binding :: "Submission \<Rightarrow> string \<times> string \<times> string" where
  "submitted_binding x = (suObjectRef x, suCandidateID x, suSourceSHA256 x)"

definition issued_binding :: "Target \<Rightarrow> string \<times> string \<times> string" where
  "issued_binding t = (taObjectRef t, taCandidateID t, taSourceSHA256 t)"

lemma last_map_member: "last_map key xs k = Some x \<Longrightarrow> x \<in> set xs \<and> key x = k"
  by (auto simp: last_map_def find_Some_iff) (metis length_rev nth_mem set_rev)

lemma last_map_unique: "distinct (map key xs) \<Longrightarrow> x \<in> set xs \<Longrightarrow> last_map key xs (key x) = Some x"
proof -
  assume a: "distinct (map key xs)" "x \<in> set xs"
  then have "last_map key xs (key x) \<noteq> None" by (auto simp: last_map_def find_None_iff)
  then obtain y where y: "last_map key xs (key x) = Some y" by auto
  then show ?thesis using last_map_member [OF y] a by (metis (no_types, lifting) distinct_map inj_on_def)
qed

lemma issue_target_member: "issue_target r item = Some t \<Longrightarrow> t \<in> set (rcTargets r)"
  by (auto simp: issue_target_def Let_def split: option.splits if_splits dest: last_map_member)

lemma item_issues_Nil: "item_issues i item t = [] \<longleftrightarrow> submitted_binding item = issued_binding t"
  by (auto simp: item_issues_def Let_def submitted_binding_def issued_binding_def)

lemma issue_loop_result:
  "issue_loop r i used items = Some (issues, used') \<Longrightarrow>
   \<exists>ts. length used' = length used + length ts \<and> length ts = length items \<and> set ts \<subseteq> set (rcTargets r) \<and>
     distinct (map taObjectRef ts) \<and> set (map taObjectRef ts) \<inter> set used = {} \<and>
     (issues = [] \<longrightarrow> map submitted_binding items = map issued_binding ts)"
proof (induction items arbitrary: i used issues)
  case (Cons item items)
  then obtain t rest where t: "issue_target r item = Some t" "taObjectRef t \<notin> set used"
    "issue_loop r (Suc i) (taObjectRef t # used) items = Some (rest, used')" "issues = item_issues i item t @ rest"
    by (auto split: option.splits if_splits)
  obtain ts where ts: "length used' = length (taObjectRef t # used) + length ts" "length ts = length items" "set ts \<subseteq> set (rcTargets r)"
    "distinct (map taObjectRef ts)" "set (map taObjectRef ts) \<inter> set (taObjectRef t # used) = {}"
    "rest = [] \<longrightarrow> map submitted_binding items = map issued_binding ts"
    using Cons.IH [OF t(3)] by auto
  show ?case using ts t issue_target_member [OF t(1)] by (intro exI [of _ "t # ts"]) (auto simp: item_issues_Nil)
qed auto

lemma validateTargets_facts:
  "validateTargets previous ts True = None \<Longrightarrow>
   sorted_wrt str_less (map taObjectRef ts) \<and> list_all (\<lambda>t. str_less previous (taObjectRef t)) ts \<and>
   list_all (\<lambda>t. taObjectRef t \<noteq> [] \<and> taCandidateID t \<noteq> [] \<and> taSourceSHA256 t \<noteq> []) ts"
proof (induction ts arbitrary: previous)
  case (Cons t ts)
  then have t: "validateTargets (taObjectRef t) ts True = None" "\<not> str_le (taObjectRef t) previous" "taObjectRef t = ''code:'' @ taPath t"
    "validSHA256 (taCandidateID t)" "validSHA256 (taSourceSHA256 t)"
    by (auto split: if_splits)
  have p: "str_less previous (taObjectRef t)" using t(2) by (simp add: str_le_def)
  then show ?case using Cons.IH [OF t(1)] t(3-5) by (auto simp: list_all_iff validSHA256_def intro: str_less_trans)
qed simp

lemma distinct_sorted_less: "sorted_wrt str_less xs \<Longrightarrow> distinct xs"
  by (induction xs) auto

lemma submitted_ok_iff:
  "submitted_ok seen xs \<longleftrightarrow> distinct (map suObjectRef xs) \<and> set (map suObjectRef xs) \<inter> set seen = {} \<and>
     list_all (\<lambda>x. suObjectRef x \<noteq> [] \<and> suCandidateID x \<noteq> [] \<and> suSourceSHA256 x \<noteq> []) xs"
  by (induction xs arbitrary: seen) auto

lemma issue_loop_exact:
  assumes "distinct (map taObjectRef (rcTargets r))" "distinct (map taCandidateID (rcTargets r))"
  shows "map submitted_binding items = map issued_binding ts \<Longrightarrow> set ts \<subseteq> set (rcTargets r) \<Longrightarrow> distinct (map taObjectRef ts) \<Longrightarrow>
    set (map taObjectRef ts) \<inter> set used = {} \<Longrightarrow>
    issue_loop r i used items = Some ([], rev (map taObjectRef ts) @ used)"
proof (induction items arbitrary: ts used i)
  case (Cons item items)
  then obtain t us where ts: "ts = t # us" by (cases ts) auto
  have b: "suObjectRef item = taObjectRef t" "suCandidateID item = taCandidateID t" "submitted_binding item = issued_binding t"
    using Cons.prems(1) by (auto simp: ts submitted_binding_def issued_binding_def)
  have "issue_target r item = Some t"
    using last_map_unique [OF assms(1), of t] last_map_unique [OF assms(2), of t] Cons.prems(2) b(1,2) by (simp add: issue_target_def ts)
  moreover have "issue_loop r (Suc i) (taObjectRef t # used) items = Some ([], rev (map taObjectRef us) @ taObjectRef t # used)"
    using Cons.prems by (intro Cons.IH) (auto simp: ts)
  moreover have "item_issues i item t = []" using b(3) by (simp add: item_issues_Nil)
  ultimately show ?case using Cons.prems(4) by (simp add: ts)
qed simp

lemma mset_map_preimage: "mset zs = mset (map g ys) \<Longrightarrow> \<exists>ts. mset ts = mset ys \<and> zs = map g ts"
proof (induction zs arbitrary: ys)
  case (Cons z zs)
  then have "z \<in> set (map g ys)" by (metis list.set_intros(1) mset_eq_setD)
  then obtain y a b where y: "g y = z" "ys = a @ y # b" by (auto dest: split_list)
  then have "mset zs = mset (map g (a @ b))" using Cons.prems by simp
  then obtain ts where "mset ts = mset (a @ b)" "zs = map g ts" using Cons.IH by blast
  then show ?case using y by (intro exI [of _ "y # ts"]) simp
qed simp

lemma nonempty_fields:
  "list_all (\<lambda>x. f x \<noteq> [] \<and> g x \<noteq> [] \<and> h x \<noteq> []) xs \<longleftrightarrow> [] \<notin> set (map f xs) \<and> [] \<notin> set (map g xs) \<and> [] \<notin> set (map h xs)"
  by (induction xs) auto

text \<open>A submission matches exactly when it is the issued bindings in some order.\<close>

lemma matchSubmission_exact:
  assumes "validateTargets [] (rcTargets r) True = None" "distinct (map taCandidateID (rcTargets r))"
  shows "matchSubmission sha source r subs = None \<longleftrightarrow> mset (map submitted_binding subs) = mset (map issued_binding (rcTargets r))"
proof
  let ?ts = "rcTargets r"
  have d: "distinct (map taObjectRef ?ts)" using validateTargets_facts [OF assms(1)] distinct_sorted_less by blast
  {
    assume "matchSubmission sha source r subs = None"
    then obtain issues used where l: "length subs = length ?ts" "issue_loop r 0 [] subs = Some (issues, used)" "issues = []" "length used = length ?ts"
      by (auto simp: matchSubmission_def submissionIssues_def Let_def split: if_splits option.splits)
    obtain ts where ts: "length ts = length subs" "set ts \<subseteq> set ?ts" "distinct (map taObjectRef ts)"
      "map submitted_binding subs = map issued_binding ts"
      using issue_loop_result [OF l(2)] l(3) by auto
    have "distinct ts" "distinct ?ts" using ts(3) d by (simp_all add: distinct_map)
    then have "set ts = set ?ts" using ts(1,2) l(1) by (metis card_subset_eq distinct_card finite_set)
    then have "mset ts = mset ?ts" using \<open>distinct ts\<close> \<open>distinct ?ts\<close> by (simp add: set_eq_iff_mset_eq_distinct)
    then show "mset (map submitted_binding subs) = mset (map issued_binding ?ts)" using ts(4) by simp
  }
  {
    assume m: "mset (map submitted_binding subs) = mset (map issued_binding ?ts)"
    obtain ts where ts: "mset ts = mset ?ts" "map submitted_binding subs = map issued_binding ts"
      using mset_map_preimage [OF m] by blast
    have refs: "map suObjectRef subs = map taObjectRef ts"
      using arg_cong [OF ts(2), of "map fst"] by (simp add: submitted_binding_def issued_binding_def comp_def)
    have ids: "map suCandidateID subs = map taCandidateID ts" "map suSourceSHA256 subs = map taSourceSHA256 ts"
      using arg_cong [OF ts(2), of "map (fst \<circ> snd)"] arg_cong [OF ts(2), of "map (snd \<circ> snd)"]
      by (simp_all add: submitted_binding_def issued_binding_def comp_def)
    have dts: "distinct (map taObjectRef ts)" using d ts(1) by (metis mset_map mset_eq_imp_distinct_iff)
    have sets: "set ts = set ?ts" using ts(1) by (rule mset_eq_setD)
    have "issue_loop r 0 [] subs = Some ([], rev (map taObjectRef ts) @ [])"
      using issue_loop_exact [OF d assms(2) ts(2) _ dts] sets by simp
    moreover have "length ts = length ?ts" using ts(1) by (rule mset_eq_length)
    moreover have "length subs = length ts" using refs by (metis length_map)
    moreover have "submitted_ok [] subs"
    proof -
      have "list_all (\<lambda>t. taObjectRef t \<noteq> [] \<and> taCandidateID t \<noteq> [] \<and> taSourceSHA256 t \<noteq> []) ts"
        using validateTargets_facts [OF assms(1)] sets by (simp add: list_all_iff)
      then have "list_all (\<lambda>x. suObjectRef x \<noteq> [] \<and> suCandidateID x \<noteq> [] \<and> suSourceSHA256 x \<noteq> []) subs"
        unfolding nonempty_fields refs ids .
      then show ?thesis using dts unfolding submitted_ok_iff refs by simp
    qed
    ultimately show "matchSubmission sha source r subs = None"
      by (simp add: matchSubmission_def submissionIssues_def)
  }
qed

section \<open>From issue to submission\<close>

text \<open>Saving and loading: a receipt that is saved is loaded, when the codec is inverse on it.\<close>

lemma save_load:
  assumes "saveReceipt sha encode st r = (None, st')" "decode (encode r @ [LF]) = Some r"
  shows "LoadReceipt sha decode st' (rcBatchID r) = Inr r \<and> validateReceipt sha r = None"
proof -
  have v: "validateReceipt sha r = None" "\<not> rsUnreadable st (rcBatchID r)" using assms(1) by (auto simp: saveReceipt_def Let_def split: option.splits if_splits)
  then have id: "validSHA256 (rcBatchID r)" by (auto simp: validateReceipt_def split: if_splits)
  have "rsUnreadable st' = rsUnreadable st" "map_of (rsFiles st') (rcBatchID r) = Some (encode r @ [LF])"
    using assms(1) v by (auto simp: saveReceipt_def Let_def map_add_def split: option.splits if_splits)
  then show ?thesis using v id assms(2) by (simp add: LoadReceipt_def)
qed

lemma plan_receipt_simps [simp]:
  "rcCompositeIdentity (plan_receipt sha c p q v all selected l) = c" "rcScopePolicyIdentity (plan_receipt sha c p q v all selected l) = p"
  "rcCodeVolumePath (plan_receipt sha c p q v all selected l) = q" "rcCodeVolumeSHA256 (plan_receipt sha c p q v all selected l) = v"
  "rcAllTargets (plan_receipt sha c p q v all selected l) = map plain_target all" "rcLogicalPlan (plan_receipt sha c p q v all selected l) = l"
  by (simp_all add: plan_receipt_def Let_def targetsWithoutCandidateIDs_def plain_target_def)

lemma plan_receipt_targets:
  "\<exists>F. rcTargets (plan_receipt sha c p q v all selected l) = map F selected \<and> (\<forall>t. taObjectRef (F t) = taObjectRef t \<and> plain_target (F t) = plain_target t)"
  by (intro exI [of _ "\<lambda>t. (plain_target t)\<lparr>taCandidateID := candidate_identity sha (rcBatchID (plan_receipt sha c p q v all selected l)) (plain_target t)\<rparr>"])
    (simp add: plan_receipt_def Let_def targetsWithoutCandidateIDs_def plain_target_def)

lemma savePlan_saved:
  assumes "savePlan sha encode st composite policy path volume all selected limit logical = (Inr plan, st')"
    and "r = plan_receipt sha composite policy path volume all selected logical" "decode (encode r @ [LF]) = Some r"
  shows "LoadReceipt sha decode st' (plBatchID plan) = Inr r \<and> validateReceipt sha r = None \<and> rcTargets r = plCandidates plan \<and>
    plIncluded plan = int (length selected) \<and> plRemaining plan = int (length all) - int (length selected)"
proof -
  obtain e st1 where sv: "saveReceipt sha encode st r = (e, st1)" by fastforce
  define candidates where "candidates = map (\<lambda>c. the (last_map taObjectRef (rcTargets r) (taObjectRef c))) selected"
  have run: "e = None \<and> st' = st1 \<and> plBatchID plan = rcBatchID r \<and> plCandidates plan = candidates \<and> plIncluded plan = int (length selected) \<and>
      plRemaining plan = int (length all) - int (length selected)"
    using assms(1) sv unfolding savePlan_def Let_def assms(2) [symmetric] candidates_def [symmetric] by (cases e) auto
  then have load: "LoadReceipt sha decode st' (rcBatchID r) = Inr r" "validateReceipt sha r = None"
    using save_load [of sha encode st r st1 decode] sv assms(3) by auto
  have d: "distinct (map taObjectRef (rcTargets r))"
    using validateTargets_facts [OF validateReceipt_ok(5) [OF load(2)]] distinct_sorted_less by blast
  obtain F where F: "rcTargets r = map F selected" "\<And>t. taObjectRef (F t) = taObjectRef t"
    using plan_receipt_targets [of sha composite policy path volume all selected logical] assms(2) by auto
  have "last_map taObjectRef (rcTargets r) (taObjectRef c) = Some (F c)" if "c \<in> set selected" for c
    using last_map_unique [OF d, of "F c"] that by (simp add: F)
  then have "candidates = rcTargets r" by (simp add: candidates_def F(1))
  then show ?thesis using run load by simp
qed

text \<open>
  \<^bold>\<open>C17\<close>. An issued batch is accepted with its own bindings and no others: when \<open>BuildPlanWithBudget\<close> has issued a plan, a submission under
  its batch identifier and against the same identities is accepted exactly when it is the issued candidates, each once, in any order, each with its
  object, candidate identifier and source digest. The codec is inverse on the receipt, the candidate identifiers are different.
\<close>

theorem issued_batch_accepted_exactly:
  assumes "BuildPlanWithBudget sha encode st composite policy path volume candidates limit budget = (Inr plan, st')"
    and "let (ordered, selected) = SelectWithBudget candidates limit budget; r = plan_receipt sha composite policy path volume ordered selected []
      in decode (encode r @ [LF]) = Some r"
    and "distinct (map taCandidateID (plCandidates plan))"
  shows "(\<exists>r. ValidateSubmission sha decode source st' (plBatchID plan) composite policy path volume subs False = Inr r) \<longleftrightarrow>
    mset (map submitted_binding subs) = mset (map issued_binding (plCandidates plan))"
proof -
  obtain ordered selected where sel: "SelectWithBudget candidates limit budget = (ordered, selected)" by fastforce
  define r where "r = plan_receipt sha composite policy path volume ordered selected []"
  obtain plan0 where p0: "savePlan sha encode st composite policy path volume ordered selected limit [] = (Inr plan0, st')"
    "plBatchID plan = plBatchID plan0" "plCandidates plan = plCandidates plan0"
    using assms(1) sel by (auto simp: BuildPlanWithBudget_def split: if_splits option.splits prod.splits sum.splits)
  have "decode (encode r @ [LF]) = Some r" using assms(2) unfolding sel prod.case Let_def r_def [symmetric] .
  then have r: "LoadReceipt sha decode st' (plBatchID plan) = Inr r" "validateReceipt sha r = None" "rcTargets r = plCandidates plan"
    using savePlan_saved [OF p0(1) r_def] p0(2,3) by simp_all
  have "(\<exists>r. ValidateSubmission sha decode source st' (plBatchID plan) composite policy path volume subs False = Inr r) \<longleftrightarrow>
      matchSubmission sha source r subs = None"
    using r(1) by (auto simp: ValidateSubmission_def r_def split: option.splits)
  then show ?thesis using matchSubmission_exact [OF validateReceipt_ok(5) [OF r(2)]] r(3) assms(3) by simp
qed

section \<open>Concrete batches\<close>

definition probe_digest :: "string \<Rightarrow> string" where
  "probe_digest _ = replicate 64 (CHR ''a'')"

definition probe_target :: Target where
  "probe_target = \<lparr>taCandidateID = [], taObjectRef = ''code:a.go'', taPath = ''a.go'', taChange = ''create'',
     taSourceSHA256 = replicate 64 (CHR ''b''), taExistingEntry = []\<rparr>"

definition probe_receipt :: "string \<Rightarrow> Receipt" where
  "probe_receipt logical = plan_receipt probe_digest (replicate 64 (CHR ''c'')) [] ''AOCI.md'' (replicate 64 (CHR ''d'')) [probe_target] [probe_target] logical"

lemma probe_valid: "validateReceipt probe_digest (probe_receipt ''one'') = None" "validateReceipt probe_digest (probe_receipt ''two'') = None"
  by code_simp+

lemma probe_lengths:
  "go_lengths (plan_values (probe_receipt ''one'') @ batch_values (probe_receipt ''one'') @ plan_values (probe_receipt ''two'') @ batch_values (probe_receipt ''two''))"
  by code_simp

lemma probe_values: "plan_values (probe_receipt l) = plan_values (probe_receipt m)" "batch_values (probe_receipt l) = batch_values (probe_receipt m)"
  "rcBatchID (probe_receipt l) = rcBatchID (probe_receipt m)"
  by (simp_all add: plan_values_def batch_values_def probe_receipt_def plan_receipt_def Let_def)

lemma receipt_determined_by_batch_witness:
  "probe_receipt ''one'' \<lparr>rcLogicalPlan := []\<rparr> = probe_receipt ''two'' \<lparr>rcLogicalPlan := []\<rparr>"
  by (rule receipt_determined_by_batch [of probe_digest "probe_receipt ''one''" "probe_receipt ''two''", OF probe_valid probe_values(3) _ _ probe_lengths])
    (simp_all add: tells_apart_def probe_values [of "''one''" "''two''"])

lemma issued_batch_accepted_exactly_witness:
  "let (r, st) = BuildPlanWithBudget probe_digest (\<lambda>_. []) \<lparr>rsFiles = [], rsUnreadable = (\<lambda>_. False), rsWriteFails = False\<rparr>
       (replicate 64 (CHR ''c'')) [] ''AOCI.md'' (replicate 64 (CHR ''d'')) [probe_target] 1 \<lparr>bgBytes = 0, bgSize = None, bgTotal = 0\<rparr> in
   \<exists>p. r = Inr p \<and> (\<exists>q. ValidateSubmission probe_digest (\<lambda>_. Some (probe_receipt [])) Map.empty st (plBatchID p) (replicate 64 (CHR ''c'')) [] ''AOCI.md''
     (replicate 64 (CHR ''d'')) [\<lparr>suCandidateIndex = 0, suObjectRef = ''code:a.go'', suCandidateID = replicate 64 (CHR ''a''), suSourceSHA256 = replicate 64 (CHR ''b'')\<rparr>] False = Inr q)"
proof -
  let ?st = "\<lparr>rsFiles = [], rsUnreadable = (\<lambda>_. False), rsWriteFails = False\<rparr>"
  let ?budget = "\<lparr>bgBytes = 0, bgSize = None, bgTotal = 0\<rparr>"
  let ?run = "BuildPlanWithBudget probe_digest (\<lambda>_. []) ?st (replicate 64 (CHR ''c'')) [] ''AOCI.md'' (replicate 64 (CHR ''d'')) [probe_target] 1 ?budget"
  have "case fst ?run of Inl _ \<Rightarrow> False | Inr p \<Rightarrow> map issued_binding (plCandidates p) =
      [(''code:a.go'', replicate 64 (CHR ''a''), replicate 64 (CHR ''b''))]"
    by code_simp
  then obtain p where p: "fst ?run = Inr p" "map issued_binding (plCandidates p) = [(''code:a.go'', replicate 64 (CHR ''a''), replicate 64 (CHR ''b''))]"
    by (cases "fst ?run") auto
  have sel: "SelectWithBudget [probe_target] 1 ?budget = ([probe_target], [probe_target])"
    by code_simp
  have d: "distinct (map taCandidateID (plCandidates p))" using p(2) by (cases "plCandidates p") auto
  have run: "?run = (Inr p, snd ?run)" using p(1) by (metis prod.collapse)
  let ?sub = "[\<lparr>suCandidateIndex = 0, suObjectRef = ''code:a.go'', suCandidateID = replicate 64 (CHR ''a''), suSourceSHA256 = replicate 64 (CHR ''b'')\<rparr>]"
  have m: "mset (map submitted_binding ?sub) = mset (map issued_binding (plCandidates p))"
    unfolding p(2) by (simp add: submitted_binding_def)
  have c: "let (ordered, selected) = SelectWithBudget [probe_target] 1 ?budget;
      r = plan_receipt probe_digest (replicate 64 (CHR ''c'')) [] ''AOCI.md'' (replicate 64 (CHR ''d'')) ordered selected []
    in (\<lambda>_. Some (probe_receipt [])) ([] @ [LF]) = Some r"
    unfolding sel prod.case Let_def probe_receipt_def ..
  note accepted = iffD2 [OF issued_batch_accepted_exactly [OF run c d] m, of Map.empty]
  show ?thesis by (subst run) (use accepted in simp)
qed

end
