(* ===== verification/Batch_Parallel.thy ===== *)
theory Batch_Parallel
  imports Batch_Receipt Index_Editor "HOL-Library.AList"
begin

text \<open>
  Parallel batches (\<open>internal/codebatch/parallel.go\<close>): one logical plan, sibling batches cut from it against one preimage, applied in any
  order. What a sibling meets is proven by replaying the recorded operations of the others onto the preimage with the editor. The record that an
  applied sibling leaves is written by \<open>recordParallelSiblingApplied\<close> (\<open>internal/mcptools/tools_write_volume_commit.go\<close>). The directory of plans
  is a record; JSON codecs and the digest are arguments; a failing clean-up is taken to remove nothing.
\<close>

section \<open>Data\<close>

record ParallelPlan =
  ppVersion :: string
  ppLogicalPlan :: string
  ppCompositeIdentity :: string
  ppScopePolicyIdentity :: string
  ppCodeVolumePath :: string
  ppPreimageSHA256 :: string
  ppRootSHA256 :: string
  ppMetaSHA256 :: string
  ppDatabaseSHA256 :: string
  ppSiblings :: "string list"
  ppDelivered :: "string list"

record AppliedOperation =
  aoPath :: string
  aoChange :: string
  aoOldEntry :: string
  aoNewEntry :: string

record AppliedReceipt =
  arVersion :: string
  arLogicalPlan :: string
  arBatchID :: string
  arOrder :: int
  arPreSHA256 :: string
  arPostSHA256 :: string
  arOperations :: "AppliedOperation list"

record ParallelIdentities =
  piCompositeIdentity :: string
  piScopePolicyIdentity :: string
  piCodeVolumePath :: string
  piCodeVolumeSHA256 :: string
  piRootSHA256 :: string
  piMetaSHA256 :: string
  piDatabaseSHA256 :: string

definition ParallelPlanVersion :: string where
  "ParallelPlanVersion = ''code-cognition-parallel-plan/v1''"

definition AppliedReceiptVersion :: string where
  "AppliedReceiptVersion = ''code-cognition-applied/v1''"

datatype parallel_error =
    ParallelPlanInvalid
  | ParallelPlanIDMismatch
  | PreimageMismatch
  | PreimageMissing
  | PlanDirectoryUnreadable
  | PlanCleanupFailed
  | PlanWriteFailed
  | AppliedInvalid
  | AppliedConflict
  | AppliedUnreadable
  | AppliedMalformed
  | AppliedWriteFailed
  | AppliedOrderInvalid
  | ReplayPreimageMismatch
  | ReplayFailed
  | ReplayPostimageMismatch
  | BatchNotParallel
  | ParallelPlanStale
  | VolumePreimageStale
  | BatchAlreadyApplied
  | BatchError batch_error

record parallel_dir =
  pdUnreadable :: bool
  pdPlans :: "(string \<times> string) list"
  pdPreimages :: "string \<rightharpoonup> string"
  pdApplied :: "string \<rightharpoonup> string"
  pdAppliedUnreadable :: "string \<Rightarrow> bool"
  pdWriteFails :: bool
  pdRemoveFails :: bool

section \<open>The logical plan\<close>

definition LogicalPlanID :: "(string \<Rightarrow> string) \<Rightarrow> string \<Rightarrow> string \<Rightarrow> string \<Rightarrow> string \<Rightarrow> string" where
  "LogicalPlanID sha composite policy path preimage = receiptHash sha [ParallelPlanVersion, composite, policy, path, preimage]"

definition validateParallelPlan :: "(string \<Rightarrow> string) \<Rightarrow> ParallelPlan \<Rightarrow> parallel_error option" where
  "validateParallelPlan sha plan =
     (if ppVersion plan \<noteq> ParallelPlanVersion \<or> \<not> validSHA256 (ppLogicalPlan plan) \<or> \<not> validSHA256 (ppCompositeIdentity plan) \<or>
         (ppScopePolicyIdentity plan \<noteq> [] \<and> \<not> validSHA256 (ppScopePolicyIdentity plan)) \<or>
         NormalizeRelPath (ppCodeVolumePath plan) \<noteq> Inr (ppCodeVolumePath plan) \<or> \<not> validSHA256 (ppPreimageSHA256 plan) \<or>
         \<not> validSHA256 (ppRootSHA256 plan) \<or> \<not> validSHA256 (ppMetaSHA256 plan) \<or>
         (ppDatabaseSHA256 plan \<noteq> [] \<and> \<not> validSHA256 (ppDatabaseSHA256 plan)) then Some ParallelPlanInvalid
      else if ppLogicalPlan plan \<noteq>
        LogicalPlanID sha (ppCompositeIdentity plan) (ppScopePolicyIdentity plan) (ppCodeVolumePath plan) (ppPreimageSHA256 plan)
      then Some ParallelPlanIDMismatch
      else if \<not> list_all validSHA256 (ppSiblings plan) \<or> \<not> distinct (ppSiblings plan) then Some ParallelPlanInvalid
      else if \<not> list_all (\<lambda>b. b \<in> set (ppSiblings plan)) (ppDelivered plan) then Some ParallelPlanInvalid
      else None)"

definition PlanHolds :: "ParallelPlan \<Rightarrow> ParallelIdentities \<Rightarrow> bool" where
  "PlanHolds plan ids \<longleftrightarrow>
     ppScopePolicyIdentity plan = piScopePolicyIdentity ids \<and> ppCodeVolumePath plan = piCodeVolumePath ids \<and>
     ppRootSHA256 plan = piRootSHA256 ids \<and> ppMetaSHA256 plan = piMetaSHA256 ids \<and> ppDatabaseSHA256 plan = piDatabaseSHA256 ids"

definition NewParallelPlan :: "(string \<Rightarrow> string) \<Rightarrow> ParallelIdentities \<Rightarrow> ParallelPlan" where
  "NewParallelPlan sha ids =
     \<lparr>ppVersion = ParallelPlanVersion,
      ppLogicalPlan = LogicalPlanID sha (piCompositeIdentity ids) (piScopePolicyIdentity ids) (piCodeVolumePath ids) (piCodeVolumeSHA256 ids),
      ppCompositeIdentity = piCompositeIdentity ids, ppScopePolicyIdentity = piScopePolicyIdentity ids, ppCodeVolumePath = piCodeVolumePath ids,
      ppPreimageSHA256 = piCodeVolumeSHA256 ids, ppRootSHA256 = piRootSHA256 ids, ppMetaSHA256 = piMetaSHA256 ids,
      ppDatabaseSHA256 = piDatabaseSHA256 ids, ppSiblings = [], ppDelivered = []\<rparr>"

definition HasSibling :: "ParallelPlan \<Rightarrow> string \<Rightarrow> bool" where
  "HasSibling plan batchID \<longleftrightarrow> list_ex (\<lambda>sibling. sibling = batchID) (ppSiblings plan)"

definition RemoveParallelPlans :: "parallel_dir \<Rightarrow> parallel_error option \<times> parallel_dir" where
  "RemoveParallelPlans d =
     (if pdUnreadable d then (Some PlanDirectoryUnreadable, d)
      else if pdRemoveFails d then (Some PlanCleanupFailed, d)
      else (None, d\<lparr>pdPlans := [], pdPreimages := Map.empty, pdApplied := Map.empty\<rparr>))"

definition writeParallelPlan :: "(ParallelPlan \<Rightarrow> string) \<Rightarrow> parallel_dir \<Rightarrow> ParallelPlan \<Rightarrow> parallel_error option \<times> parallel_dir" where
  "writeParallelPlan encode d plan =
     (if pdWriteFails d then (Some PlanWriteFailed, d)
      else (None, d\<lparr>pdPlans := AList.update (ppLogicalPlan plan) (encode plan @ [LF]) (pdPlans d)\<rparr>))"

definition UpdateParallelPlan ::
  "(string \<Rightarrow> string) \<Rightarrow> (ParallelPlan \<Rightarrow> string) \<Rightarrow> parallel_dir \<Rightarrow> ParallelPlan \<Rightarrow> parallel_error option \<times> parallel_dir" where
  "UpdateParallelPlan sha encode d plan =
     (case validateParallelPlan sha plan of Some e \<Rightarrow> (Some e, d) | None \<Rightarrow> writeParallelPlan encode d plan)"

definition SaveParallelPlan ::
  "(string \<Rightarrow> string) \<Rightarrow> (ParallelPlan \<Rightarrow> string) \<Rightarrow> parallel_dir \<Rightarrow> ParallelPlan \<Rightarrow> string \<Rightarrow> parallel_error option \<times> parallel_dir" where
  "SaveParallelPlan sha encode d plan preimage =
     (case validateParallelPlan sha plan of
        Some e \<Rightarrow> (Some e, d)
      | None \<Rightarrow>
          if sha preimage \<noteq> ppPreimageSHA256 plan then (Some PreimageMismatch, d)
          else case RemoveParallelPlans d of
            (Some e, d') \<Rightarrow> (Some e, d')
          | (None, d') \<Rightarrow>
              if pdWriteFails d' then (Some PlanWriteFailed, d')
              else writeParallelPlan encode (d'\<lparr>pdPreimages := (pdPreimages d')(ppLogicalPlan plan \<mapsto> preimage)\<rparr>) plan)"

text \<open>The loop over the directory: a record that does not decode, or a second one, reads as no plan.\<close>

fun load_plans :: "(string \<Rightarrow> ParallelPlan option) \<Rightarrow> ParallelPlan option \<Rightarrow> (string \<times> string) list \<Rightarrow> ParallelPlan option" where
  "load_plans decode found [] = found"
| "load_plans decode found ((name, data) # entries) =
     (case decode data of
        None \<Rightarrow> None
      | Some plan \<Rightarrow> if found \<noteq> None then None else load_plans decode (Some plan) entries)"

definition decodeParallelPlan :: "(string \<Rightarrow> string) \<Rightarrow> (string \<Rightarrow> ParallelPlan option) \<Rightarrow> string \<Rightarrow> ParallelPlan option" where
  "decodeParallelPlan sha decode data =
     (case decode data of None \<Rightarrow> None | Some plan \<Rightarrow> if validateParallelPlan sha plan \<noteq> None then None else Some plan)"

definition LoadParallelPlan ::
  "(string \<Rightarrow> string) \<Rightarrow> (string \<Rightarrow> ParallelPlan option) \<Rightarrow> parallel_dir \<Rightarrow> (parallel_error, ParallelPlan option) result" where
  "LoadParallelPlan sha decode d =
     (if pdUnreadable d then Inl PlanDirectoryUnreadable else Inr (load_plans (decodeParallelPlan sha decode) None (pdPlans d)))"

definition LoadPreimage :: "(string \<Rightarrow> string) \<Rightarrow> parallel_dir \<Rightarrow> ParallelPlan \<Rightarrow> (parallel_error, string) result" where
  "LoadPreimage sha d plan =
     (case pdPreimages d (ppLogicalPlan plan) of
        None \<Rightarrow> Inl PreimageMissing
      | Some data \<Rightarrow> if sha data \<noteq> ppPreimageSHA256 plan then Inl PreimageMismatch else Inr data)"

section \<open>Applied siblings\<close>

definition operation_ok :: "AppliedOperation \<Rightarrow> bool" where
  "operation_ok op \<longleftrightarrow>
     \<not> (NormalizeRelPath (aoPath op) \<noteq> Inr (aoPath op) \<or> aoNewEntry op = [] \<or>
        (aoChange op \<noteq> ''create'' \<and> aoChange op \<noteq> ''update'') \<or> (aoChange op = ''update'') \<noteq> (aoOldEntry op \<noteq> []))"

definition validateApplied :: "AppliedReceipt \<Rightarrow> parallel_error option" where
  "validateApplied r =
     (if arVersion r \<noteq> AppliedReceiptVersion \<or> \<not> validSHA256 (arLogicalPlan r) \<or> \<not> validSHA256 (arBatchID r) \<or> arOrder r < 1 \<or>
         \<not> validSHA256 (arPreSHA256 r) \<or> \<not> validSHA256 (arPostSHA256 r) \<or> arOperations r = [] then Some AppliedInvalid
      else if \<not> list_all operation_ok (arOperations r) then Some AppliedInvalid
      else None)"

definition SaveApplied :: "(AppliedReceipt \<Rightarrow> string) \<Rightarrow> parallel_dir \<Rightarrow> AppliedReceipt \<Rightarrow> parallel_error option \<times> parallel_dir" where
  "SaveApplied encode d r =
     (case validateApplied r of
        Some e \<Rightarrow> (Some e, d)
      | None \<Rightarrow>
          let data = encode r @ [LF] in
          case (if pdAppliedUnreadable d (arBatchID r) then None else pdApplied d (arBatchID r)) of
            Some existing \<Rightarrow> (if existing = data then None else Some AppliedConflict, d)
          | None \<Rightarrow> if pdWriteFails d then (Some AppliedWriteFailed, d)
                    else (None, d\<lparr>pdApplied := (pdApplied d)(arBatchID r \<mapsto> data)\<rparr>))"

fun load_applied ::
  "(string \<Rightarrow> AppliedReceipt option) \<Rightarrow> parallel_dir \<Rightarrow> ParallelPlan \<Rightarrow> string list \<Rightarrow> (parallel_error, AppliedReceipt list) result" where
  "load_applied decode d plan [] = Inr []"
| "load_applied decode d plan (batchID # rest) =
     (if pdAppliedUnreadable d batchID then Inl AppliedUnreadable
      else case pdApplied d batchID of
        None \<Rightarrow> load_applied decode d plan rest
      | Some data \<Rightarrow>
          (case decode data of
             None \<Rightarrow> Inl AppliedMalformed
           | Some r \<Rightarrow>
               if validateApplied r \<noteq> None \<or> arLogicalPlan r \<noteq> ppLogicalPlan plan \<or> arBatchID r \<noteq> batchID then Inl AppliedInvalid
               else result_bind (load_applied decode d plan rest) (\<lambda>rs. Inr (r # rs))))"

definition LoadApplied ::
  "(string \<Rightarrow> AppliedReceipt option) \<Rightarrow> parallel_dir \<Rightarrow> ParallelPlan \<Rightarrow> (parallel_error, AppliedReceipt list) result" where
  "LoadApplied decode d plan =
     result_bind (load_applied decode d plan (ppSiblings plan)) (\<lambda>rs.
       let applied = sort_by (\<lambda>a b. arOrder a \<le> arOrder b) rs in
       if map arOrder applied = map int [1..<Suc (length applied)] then Inr applied else Inl AppliedOrderInvalid)"

definition AppliedBatchIDs :: "parallel_dir \<Rightarrow> ParallelPlan \<Rightarrow> string list" where
  "AppliedBatchIDs d plan = filter (\<lambda>b. pdApplied d b \<noteq> None) (ppSiblings plan)"

section \<open>Replay\<close>

definition replay_operation :: "string \<Rightarrow> string \<Rightarrow> AppliedOperation \<Rightarrow> string option" where
  "replay_operation repoRoot content op =
     (case (if aoChange op = ''create'' then InsertEntry content (aoPath op) (aoNewEntry op) repoRoot
            else if aoChange op = ''delete'' then RemoveEntryForPath content repoRoot (aoPath op) (aoOldEntry op)
            else ReplaceEntryForPath content repoRoot (aoPath op) (aoOldEntry op) (aoNewEntry op)) of
        Inl _ \<Rightarrow> None
      | Inr next \<Rightarrow> Some next)"

fun replay_operations :: "string \<Rightarrow> string \<Rightarrow> AppliedOperation list \<Rightarrow> string option" where
  "replay_operations repoRoot content [] = Some content"
| "replay_operations repoRoot content (op # ops) =
     (case replay_operation repoRoot content op of None \<Rightarrow> None | Some next \<Rightarrow> replay_operations repoRoot next ops)"

fun Replay :: "(string \<Rightarrow> string) \<Rightarrow> string \<Rightarrow> string \<Rightarrow> AppliedReceipt list \<Rightarrow> (parallel_error, string) result" where
  "Replay sha repoRoot content [] = Inr content"
| "Replay sha repoRoot content (r # rs) =
     (if sha content \<noteq> arPreSHA256 r then Inl ReplayPreimageMismatch
      else case replay_operations repoRoot content (arOperations r) of
        None \<Rightarrow> Inl ReplayFailed
      | Some next \<Rightarrow> if sha next \<noteq> arPostSHA256 r then Inl ReplayPostimageMismatch else Replay sha repoRoot next rs)"

definition ReplayProves ::
  "(string \<Rightarrow> string) \<Rightarrow> (string \<Rightarrow> AppliedReceipt option) \<Rightarrow> string \<Rightarrow> parallel_dir \<Rightarrow> ParallelPlan \<Rightarrow> string \<Rightarrow> (parallel_error, bool) result" where
  "ReplayProves sha decode repoRoot d plan currentSHA256 =
     result_bind (LoadPreimage sha d plan) (\<lambda>preimage.
       result_bind (LoadApplied decode d plan) (\<lambda>applied.
         if applied = [] then Inr (ppPreimageSHA256 plan = currentSHA256)
         else if arPostSHA256 (last applied) = currentSHA256 then
           result_bind (Replay sha repoRoot preimage applied) (\<lambda>replayed. Inr (sha replayed = currentSHA256))
         else Inr False))"

section \<open>Siblings\<close>

definition CutSibling :: "Target list \<Rightarrow> string list \<Rightarrow> int \<Rightarrow> batch_budget \<Rightarrow> Target list" where
  "CutSibling ordered held limit budget =
     (let free = filter (\<lambda>c. taObjectRef c \<notin> set held) ordered in
      if free = [] then [] else take (PrefixWithinBudget free limit budget) free)"

definition BuildSiblingPlan ::
  "(string \<Rightarrow> string) \<Rightarrow> (Receipt \<Rightarrow> string) \<Rightarrow> receipt_store \<Rightarrow> string \<Rightarrow> string \<Rightarrow> string \<Rightarrow> string \<Rightarrow> string \<Rightarrow>
   Target list \<Rightarrow> Target list \<Rightarrow> int \<Rightarrow> batch_budget \<Rightarrow> (batch_error, Plan) result \<times> receipt_store" where
  "BuildSiblingPlan sha encode st logical composite policy path preimageSHA all selected limit budget =
     (if limit < 1 \<or> selected = [] \<or> \<not> validSHA256 logical then (Inl BatchLimitInvalid, st)
      else let ordered = fst (Select all 0) in
        case validateCandidates ordered of
          Some e \<Rightarrow> (Inl e, st)
        | None \<Rightarrow>
            (case savePlan sha encode st composite policy path preimageSHA ordered (fst (Select selected 0)) limit logical of
               (Inl e, st') \<Rightarrow> (Inl e, st')
             | (Inr plan, st') \<Rightarrow>
                 (Inr (plan\<lparr>plTransportBudgetBytes := (if bgTotal budget = 0 then bgBytes budget else bgTotal budget)\<rparr>), st')))"

text \<open>
  The siblings of one plan (\<open>cutParallelSiblings\<close> in \<open>internal/mcptools/tools_maintain_parallel.go\<close>): up to \<open>parallel\<close> batches under the budgets
  less a reserve for the listing of the siblings, which the outer loop finds in at most four rounds; \<open>listing\<close> measures it.
\<close>

fun cut_round :: "Target list \<Rightarrow> int \<Rightarrow> batch_budget list \<Rightarrow> int \<Rightarrow> string list \<Rightarrow> Target list list" where
  "cut_round ordered limit [] reserve held = []"
| "cut_round ordered limit (b # bs) reserve held =
     (let budget = b\<lparr>bgBytes := (if bgBytes b - reserve < 1024 then 1024 else bgBytes b - reserve)\<rparr>;
          selected = CutSibling ordered held limit budget in
      if selected = [] then [] else selected # cut_round ordered limit bs reserve (map taObjectRef selected @ held))"

fun cut_rounds :: "(Target list list \<Rightarrow> int) \<Rightarrow> Target list \<Rightarrow> int \<Rightarrow> batch_budget list \<Rightarrow> nat \<Rightarrow> int \<Rightarrow> Target list list \<Rightarrow> Target list list" where
  "cut_rounds listing ordered limit budgets 0 reserve cuts = cuts"
| "cut_rounds listing ordered limit budgets (Suc n) reserve cuts =
     (let cuts = cut_round ordered limit budgets reserve [] in
      if listing cuts \<le> reserve then cuts else cut_rounds listing ordered limit budgets n (listing cuts) cuts)"

definition cutParallelSiblings ::
  "(Target list list \<Rightarrow> int) \<Rightarrow> Target list \<Rightarrow> int \<Rightarrow> nat \<Rightarrow> batch_budget \<Rightarrow> batch_budget \<Rightarrow> Target list list" where
  "cutParallelSiblings listing ordered limit parallel firstBudget aheadBudget =
     cut_rounds listing ordered limit (if parallel = 0 then [] else firstBudget # replicate (parallel - 1) aheadBudget) 4 0 []"

section \<open>Recording an applied sibling\<close>

text \<open>Of an outcome of the write: its path, whether it removed the Entry, and the lines before and after.\<close>

record UpdateOutcome =
  uoRel :: string
  uoRemoved :: bool
  uoOldLine :: string
  uoNewLine :: string

definition outcome_operations :: "UpdateOutcome \<Rightarrow> AppliedOperation list" where
  "outcome_operations out =
     (if uoRemoved out then [\<lparr>aoPath = uoRel out, aoChange = ''delete'', aoOldEntry = uoOldLine out, aoNewEntry = []\<rparr>]
      else if uoNewLine out = [] then []
      else if uoOldLine out \<noteq> [] then [\<lparr>aoPath = uoRel out, aoChange = ''update'', aoOldEntry = uoOldLine out, aoNewEntry = uoNewLine out\<rparr>]
      else [\<lparr>aoPath = uoRel out, aoChange = ''create'', aoOldEntry = [], aoNewEntry = uoNewLine out\<rparr>])"

datatype record_note = Recorded | AppliedUnreadableNote | AppliedPersistFailed

definition recordParallelSiblingApplied ::
  "(string \<Rightarrow> string) \<Rightarrow> (string \<Rightarrow> ParallelPlan option) \<Rightarrow> (string \<Rightarrow> AppliedReceipt option) \<Rightarrow> (AppliedReceipt \<Rightarrow> string) \<Rightarrow>
   parallel_dir \<Rightarrow> string \<Rightarrow> string \<Rightarrow> string \<Rightarrow> string \<Rightarrow> UpdateOutcome list \<Rightarrow> record_note \<times> parallel_dir" where
  "recordParallelSiblingApplied sha decodePlan decode encode d logical batchID preSHA postSHA outcomes =
     (if logical = [] then (Recorded, d)
      else case LoadParallelPlan sha decodePlan d of
        Inr (Some parallel) \<Rightarrow>
          if ppLogicalPlan parallel \<noteq> logical then (Recorded, d)
          else (case LoadApplied decode d parallel of
            Inl _ \<Rightarrow> (AppliedUnreadableNote, d)
          | Inr applied \<Rightarrow>
              let order = (case find (\<lambda>e. arBatchID e = batchID) (rev applied) of Some e \<Rightarrow> arOrder e | None \<Rightarrow> int (length applied) + 1);
                  r = \<lparr>arVersion = AppliedReceiptVersion, arLogicalPlan = ppLogicalPlan parallel, arBatchID = batchID, arOrder = order,
                    arPreSHA256 = preSHA, arPostSHA256 = postSHA, arOperations = concat (map outcome_operations outcomes)\<rparr> in
              case SaveApplied encode d r of
                (Some _, d') \<Rightarrow> (AppliedPersistFailed, d')
              | (None, d') \<Rightarrow> (Recorded, d'))
      | _ \<Rightarrow> (Recorded, d))"

section \<open>Submissions of siblings\<close>

definition ValidateParallelSubmission ::
  "(string \<Rightarrow> string) \<Rightarrow> (string \<Rightarrow> Receipt option) \<Rightarrow> (string \<Rightarrow> ParallelPlan option) \<Rightarrow> (string \<Rightarrow> AppliedReceipt option) \<Rightarrow>
   (string \<Rightarrow> string option) \<Rightarrow> receipt_store \<Rightarrow> parallel_dir \<Rightarrow> string \<Rightarrow> string \<Rightarrow> ParallelIdentities \<Rightarrow> Submission list \<Rightarrow> bool \<Rightarrow>
   (parallel_error, Receipt \<times> ParallelPlan) result" where
  "ValidateParallelSubmission sha decodeReceipt decodePlan decode source st d repoRoot batchID ids submissions allowPostimage =
     (case LoadReceipt sha decodeReceipt st batchID of
        Inl e \<Rightarrow> Inl (BatchError e)
      | Inr receipt \<Rightarrow>
          if rcLogicalPlan receipt = [] then Inl BatchNotParallel
          else case LoadParallelPlan sha decodePlan d of
            Inl e \<Rightarrow> Inl e
          | Inr None \<Rightarrow> Inl ParallelPlanStale
          | Inr (Some plan) \<Rightarrow>
              if ppLogicalPlan plan \<noteq> rcLogicalPlan receipt \<or> \<not> HasSibling plan batchID \<or> rcCodeVolumePath receipt \<noteq> ppCodeVolumePath plan
              then Inl ParallelPlanStale
              else if \<not> allowPostimage \<and> \<not> PlanHolds plan ids then Inl ParallelPlanStale
              else if \<not> allowPostimage \<and> ReplayProves sha decode repoRoot d plan (piCodeVolumeSHA256 ids) \<noteq> Inr True then Inl VolumePreimageStale
              else if batchID \<in> set (AppliedBatchIDs d plan) \<and> \<not> allowPostimage then Inl BatchAlreadyApplied
              else case matchSubmission sha source receipt submissions of
                Some e \<Rightarrow> Inl (BatchError e)
              | None \<Rightarrow> Inr (receipt, plan))"

end
