(* ===== verification/Batch_Parallel_Laws.thy ===== *)
theory Batch_Parallel_Laws
  imports Batch_Parallel
begin

text \<open>
  Laws of the siblings of a logical plan: however their budgets cut them, they never share a target.
\<close>

section \<open>Siblings\<close>

lemma CutSibling_cut:
  "set (CutSibling ordered held limit budget) \<subseteq> set ordered" "distinct (map taObjectRef ordered) \<Longrightarrow> distinct (map taObjectRef (CutSibling ordered held limit budget))"
  "set (map taObjectRef (CutSibling ordered held limit budget)) \<inter> set held = {}"
proof -
  let ?free = "filter (\<lambda>c. taObjectRef c \<notin> set held) ordered"
  obtain n where c: "CutSibling ordered held limit budget = take n ?free"
    by (cases "?free = []") (auto simp: CutSibling_def Let_def)
  have s: "set (take n ?free) \<subseteq> set ?free" by (rule set_take_subset)
  show "set (CutSibling ordered held limit budget) \<subseteq> set ordered" using s c by auto
  show "set (map taObjectRef (CutSibling ordered held limit budget)) \<inter> set held = {}" using s c by auto
  show "distinct (map taObjectRef (CutSibling ordered held limit budget))" if "distinct (map taObjectRef ordered)"
    unfolding c take_map [symmetric] by (rule distinct_take) (use that in \<open>simp add: distinct_map_filter\<close>)
qed

lemma cut_round_disjoint:
  "distinct (map taObjectRef ordered) \<Longrightarrow>
   let cuts = cut_round ordered limit budgets reserve held in
   distinct (map taObjectRef (concat cuts)) \<and> set (concat cuts) \<subseteq> set ordered \<and> [] \<notin> set cuts \<and> length cuts \<le> length budgets \<and>
   set (map taObjectRef (concat cuts)) \<inter> set held = {}"
proof (induction ordered limit budgets reserve held rule: cut_round.induct)
  case (2 ordered limit b bs reserve held)
  define sel where "sel = CutSibling ordered held limit (b\<lparr>bgBytes := (if bgBytes b - reserve < 1024 then 1024 else bgBytes b - reserve)\<rparr>)"
  show ?case
  proof (cases "sel = []")
    case True
    then show ?thesis by (simp add: sel_def [symmetric])
  next
    case False
    have c: "cut_round ordered limit (b # bs) reserve held = sel # cut_round ordered limit bs reserve (map taObjectRef sel @ held)"
      using False by (simp add: sel_def [symmetric])
    note sel = CutSibling_cut [of ordered held limit "b\<lparr>bgBytes := (if bgBytes b - reserve < 1024 then 1024 else bgBytes b - reserve)\<rparr>", folded sel_def]
    define rest where "rest = cut_round ordered limit bs reserve (map taObjectRef sel @ held)"
    have ih: "distinct (map taObjectRef (concat rest))" "set (concat rest) \<subseteq> set ordered" "[] \<notin> set rest" "length rest \<le> length bs"
      "set (map taObjectRef (concat rest)) \<inter> set (map taObjectRef sel @ held) = {}"
      using "2.IH" [OF refl sel_def False "2.prems"] by (simp_all add: rest_def Let_def)
    have "set (map taObjectRef sel) \<inter> set (map taObjectRef (concat rest)) = {}"
      "set (map taObjectRef (concat (sel # rest))) \<inter> set held = {}"
      using ih(5) sel(3) unfolding concat.simps map_append set_append by blast+
    then show ?thesis using ih(1-4) sel(1) sel(2) [OF "2.prems"] False
      unfolding c rest_def [symmetric] Let_def concat.simps map_append distinct_append set_append by simp
  qed
qed simp

text \<open>
  \<^bold>\<open>C31\<close>. The siblings of a logical plan are disjoint: whatever the budgets and the listing's size, no target is in two siblings or twice in one,
  every sibling is nonempty and cut from the candidates, and there are at most as many as were asked for.
\<close>

theorem cutParallelSiblings_disjoint:
  assumes "distinct (map taObjectRef ordered)"
  shows "let cuts = cutParallelSiblings listing ordered limit parallel firstBudget aheadBudget in
    distinct (map taObjectRef (concat cuts)) \<and> set (concat cuts) \<subseteq> set ordered \<and> [] \<notin> set cuts \<and> length cuts \<le> parallel"
proof -
  let ?good = "\<lambda>budgets cuts. distinct (map taObjectRef (concat cuts)) \<and> set (concat cuts) \<subseteq> set ordered \<and> [] \<notin> set cuts \<and> length cuts \<le> length budgets"
  have rounds: "?good budgets (cut_rounds listing ordered limit budgets n reserve cuts)" if "?good budgets cuts" for budgets n reserve cuts
    using that
  proof (induction n arbitrary: reserve cuts)
    case (Suc n)
    have "?good budgets (cut_round ordered limit budgets reserve [])"
      using cut_round_disjoint [OF assms, of limit budgets reserve "[]"] by (simp add: Let_def)
    then show ?case using Suc.IH by (simp add: Let_def)
  qed simp
  let ?budgets = "if parallel = 0 then [] else firstBudget # replicate (parallel - 1) aheadBudget"
  have "?good ?budgets (cutParallelSiblings listing ordered limit parallel firstBudget aheadBudget)"
    unfolding cutParallelSiblings_def by (rule rounds) simp
  moreover have "length ?budgets = parallel" by simp
  ultimately show ?thesis unfolding Let_def by simp
qed

lemma cutParallelSiblings_disjoint_witness:
  "let t = (\<lambda>p. \<lparr>taCandidateID = [], taObjectRef = ''code:'' @ p, taPath = p, taChange = ''create'', taSourceSHA256 = [], taExistingEntry = []\<rparr>);
       cuts = cutParallelSiblings (\<lambda>_. 1) (map t [''a'', ''b'', ''c'']) 0 2 \<lparr>bgBytes = 1500, bgSize = Some (\<lambda>_. 1000), bgTotal = 0\<rparr>
         \<lparr>bgBytes = 2500, bgSize = Some (\<lambda>_. 1000), bgTotal = 0\<rparr> in
   map (map taPath) cuts = [[''a''], [''b'', ''c'']] \<and> distinct (map taObjectRef (concat cuts))"
proof -
  let ?t = "\<lambda>p. \<lparr>taCandidateID = [], taObjectRef = ''code:'' @ p, taPath = p, taChange = ''create'', taSourceSHA256 = [], taExistingEntry = []\<rparr>"
  let ?cuts = "cutParallelSiblings (\<lambda>_. 1) (map ?t [''a'', ''b'', ''c'']) 0 2 \<lparr>bgBytes = 1500, bgSize = Some (\<lambda>_. 1000), bgTotal = 0\<rparr>
         \<lparr>bgBytes = 2500, bgSize = Some (\<lambda>_. 1000), bgTotal = 0\<rparr>"
  have d: "distinct (map taObjectRef (map ?t [''a'', ''b'', ''c'']))" by simp
  have "map (map taPath) ?cuts = [[''a''], [''b'', ''c'']]" by code_simp
  moreover have "distinct (map taObjectRef (concat ?cuts))"
    using cutParallelSiblings_disjoint [OF d, of "\<lambda>_. 1" 0 2 "\<lparr>bgBytes = 1500, bgSize = Some (\<lambda>_. 1000), bgTotal = 0\<rparr>"
      "\<lparr>bgBytes = 2500, bgSize = Some (\<lambda>_. 1000), bgTotal = 0\<rparr>"] unfolding Let_def by blast
  ultimately show ?thesis unfolding Let_def by blast
qed

end
