(* ===== verification/Batch_Replay_Laws.thy ===== *)
theory Batch_Replay_Laws
  imports Batch_Parallel
begin

text \<open>
  Replay: along every run of a logical plan, its siblings handed out and applied in any order, the stored preimage and the records of the
  applied siblings prove the current Code Volume, and no other digest.
\<close>

section \<open>Replay\<close>

lemma replay_operations_append:
  "replay_operations root c (xs @ ys) = (case replay_operations root c xs of None \<Rightarrow> None | Some c' \<Rightarrow> replay_operations root c' ys)"
  by (induction xs arbitrary: c) (auto split: option.splits)


lemma Replay_operations: "Replay sha root c rs = Inr c' \<Longrightarrow> replay_operations root c (concat (map arOperations rs)) = Some c'"
  by (induction rs arbitrary: c) (auto simp: replay_operations_append split: if_splits option.splits)



section \<open>Records in order\<close>








section \<open>Runs of a logical plan\<close>











section \<open>A sibling that removes an Entry\<close>

text \<open>
  The replay knows the operation \<open>delete\<close>, and the record of a batch whose write removed an orphan Entry has one; its validation knows only \<open>create\<close> and
  \<open>update\<close> with a new Entry. So the record of such a sibling is refused after its formal write, and the plan no longer proves the Volume.
\<close>

lemma removal_not_recorded:
  assumes "out \<in> set outcomes" "uoRemoved out" "logical \<noteq> []"
    and plan: "LoadParallelPlan sha decodePlan d = Inr (Some plan)" "ppLogicalPlan plan = logical" and applied: "LoadApplied decode d plan = Inr rs"
  shows "recordParallelSiblingApplied sha decodePlan decode encode d logical b pre post outcomes = (AppliedPersistFailed, d)"
proof -
  have "\<not> list_all operation_ok (outcome_operations out)" using assms(2) by (simp add: outcome_operations_def operation_ok_def)
  then have "\<not> list_all operation_ok (concat (map outcome_operations outcomes))"
    using assms(1) by (induction outcomes) (auto simp: list_all_append)
  then have "validateApplied r = Some AppliedInvalid" if "arOperations r = concat (map outcome_operations outcomes)" for r
    using that by (simp add: validateApplied_def)
  then have save: "SaveApplied encode d r = (Some AppliedInvalid, d)" if "arOperations r = concat (map outcome_operations outcomes)" for r
    using that by (simp add: SaveApplied_def)
  show ?thesis using assms(3) plan applied save by (simp add: recordParallelSiblingApplied_def Let_def)
qed

end
