(* ===== verification/Change_Authority.thy ===== *)
theory Change_Authority
  imports Baseline_State Scope_Policy Budget_Report Txn_Receipts Index_Dict
begin

text \<open>
  Who may let a scope change through (\<open>internal/scopechange/authorization.go\<close>, the approvals of \<open>transaction.go\<close> and the risk of \<open>plan.go\<close>, with the
  modes of \<open>internal/config\<close>): the mode in effect, the facts that take a plan from the policy to a person, and the receipts that bind an
  approval to one plan. A plan and a preview carry as records what these functions read; all else of them, which only their
  identities cover, is the type \<open>'r\<close>. JSON encoders, the digest \<open>sha\<close> and the reading of UTC timestamps \<open>utc\<close> are arguments; the configuration is never nil.
\<close>

section \<open>Data\<close>

record ApplyAuthorizationPolicy =
  apVersion :: string
  apOperation :: string
  apAutomationMode :: string
  apScopeApprovalMode :: string
  apEffectiveMode :: string

record EntryDisposition =
  edVersion :: string
  edSourcePath :: string
  edCurrentEntrySHA256 :: string
  edTargetRole :: string
  edUniqueSemantics :: "string list option"
  edDisposition :: string
  edTargetEntry :: string
  edReviewStatus :: string
  edReviewer :: string

record CoverageReduction =
  crPath :: string
  crOldRole :: string
  crNewRole :: string
  crAuthoringState :: string
  crDecisionBasis :: string
  crRuleID :: string

record EntryChange =
  chPath :: string
  chAction :: string
  chBeforeSHA256 :: string
  chAfterSHA256 :: string

record SafetyApproval =
  saVersion :: string
  saPolicyIdentity :: string
  saExactPaths :: "string list"
  saActor :: string
  saMechanism :: string
  saApprovedAt :: string
  saApprovalDigest :: string

record EntryCandidate =
  enCandidateID :: string
  enPath :: string
  enSourceSHA256 :: string
  enCurrentEntrySHA256 :: string
  enNewEntry :: string
  enReviewStatus :: string

record HeaderCandidate =
  hcCandidateID :: string
  hcCurrentHeaderSHA256 :: string
  hcNewHeader :: string
  hcReviewStatus :: string

record ObserveReview =
  orPaths :: "string list"
  orReviewStatus :: string
  orReviewer :: string

text \<open>The curation document of a candidate set is its encoding.\<close>

record CandidateSet =
  csVersion :: string
  csEntries :: "EntryCandidate list"
  csHeader :: "HeaderCandidate option"
  csDispositions :: "EntryDisposition list"
  csCuration :: "string option"
  csObserveReview :: "ObserveReview option"
  csSafetyApproval :: "SafetyApproval option"

record Risk =
  rkLevel :: string
  rkLargeReduction :: bool
  rkEntryRemovalThreshold :: int
  rkEntryRemovalPercentThreshold :: int
  rkRootOrPrimaryReduction :: bool
  rkHighRiskOptIn :: bool
  rkBudgetPolicyChange :: bool
  rkBudgetRelaxation :: bool
  rkApprovalPolicyRelaxation :: bool
  rkEntryRemovalCount :: int
  rkP0 :: int
  rkP1 :: int
  rkCognitionCoverageReduction :: bool
  rkTransportConstraintNotAllowed :: bool
  rkCoverageReductionCount :: int

record FormalImage =
  fiPath :: string
  fiPreimageState :: string
  fiPreimageSHA256 :: string
  fiPostimageSHA256 :: string
  fiPostimageBytes :: string

record 'r ChangePlan =
  cpPlanID :: string
  cpRepositoryRootIdentity :: string
  cpNewPolicyIdentity :: string
  cpNewBudgetPolicyIdentity :: string
  cpCoverageReductions :: "CoverageReduction list"
  cpEntryRemoves :: "EntryChange list"
  cpRetentionReview :: "EntryDisposition list"
  cpWholeIndexBefore :: Report
  cpWholeIndexAfter :: Report
  cpRisk :: Risk
  cpAuthorizationPolicy :: ApplyAuthorizationPolicy
  cpAuthorizationPolicyIdentity :: string
  cpWriteSet :: "string list"
  cpGuardSet :: "string list"
  cpRecoveryDirection :: string
  cpInteractionRequired :: bool
  cpConfirmationPhrase :: string
  cpPreparedAt :: string
  cpOther :: 'r

record 'r Preview =
  pvVersion :: string
  pvEnvelopeVersion :: string
  pvPreviewID :: string
  pvPlan :: "'r ChangePlan"
  pvCandidateSet :: CandidateSet
  pvPolicyIdentity :: string
  pvIndexCount :: int
  pvObserveCount :: int
  pvExcludeCount :: int
  pvIndexPostimage :: FormalImage
  pvConfigPostimage :: FormalImage
  pvCurationPostimage :: "FormalImage option"
  pvBaselinePostimage :: FormalImage
  pvSourceGuard :: fingerprints
  pvBaseline :: Baseline
  pvCurationExclusions :: "string list option"
  pvEnvelopeDigest :: string

record Approval =
  avVersion :: string
  avEnvelopeDigest :: string
  avApprovedWriteSet :: "string list"
  avApprovedRecoveryPolicy :: string
  avActor :: string
  avMechanism :: string
  avApprovedAt :: string
  avApprovalDigest :: string

record PolicyBoundApproval =
  pbVersion :: string
  pbMechanism :: string
  pbOperation :: string
  pbRepositoryIdentity :: string
  pbAutomationMode :: string
  pbScopeApprovalMode :: string
  pbAuthorizationPolicyIdentity :: string
  pbEnvelopeDigest :: string
  pbPreviewDigest :: string
  pbCurrentIndexSHA256 :: string
  pbCurrentBaselineSHA256 :: string
  pbCurrentConfigSHA256 :: string
  pbCurrentScopePolicyIdentity :: string
  pbCurrentCurationIdentity :: string
  pbProjectedIndexSHA256 :: string
  pbProjectedBaselineSHA256 :: string
  pbProjectedWholeIndexTokens :: int
  pbEntryBefore :: int
  pbEntryAfter :: int
  pbIndexCount :: int
  pbObserveCount :: int
  pbExcludeCount :: int
  pbRetentionReviewTotal :: int
  pbRetentionReviewComplete :: bool
  pbP0 :: int
  pbP1 :: int
  pbWriteSet :: "string list"
  pbGuardSet :: "string list"
  pbRecoveryDirection :: string
  pbCreatedAt :: string
  pbApprovalDigest :: string

text \<open>The team configuration as far as it is read here.\<close>

record change_config =
  cgAutomation :: "string option"
  cgManagedScope :: "Policy option"
  cgCognitionBudget :: "BudgetPolicy option"
  cgHighRiskOptIn :: "string list"
  cgIndexPath :: string
  cgHumanApprovalChannel :: string
  cgLedgerEnabled :: bool

text \<open>What the identities are made of.\<close>

record 'r change_json =
  jsPolicy :: "ApplyAuthorizationPolicy \<Rightarrow> string"
  jsApproval :: "Approval \<Rightarrow> string"
  jsBound :: "PolicyBoundApproval \<Rightarrow> string"
  jsSafety :: "SafetyApproval \<Rightarrow> string"
  jsPlan :: "'r ChangePlan \<Rightarrow> string"
  jsPreview :: "'r Preview \<Rightarrow> string"

datatype change_error =
    AuthorizationPolicyInvalid
  | AuthorizationPolicyDrift
  | AuthorizationPolicyIdentityInvalid
  | AutoTimestampInvalid
  | AutoUnavailable string
  | AutoBlockedPending
  | AutoBlockedReplay
  | AutoBlockedConflict
  | AutoBlocked "string list"
  | BoundApprovalRequired
  | BoundApprovalDigestMismatch
  | BoundApprovalBindingMismatch
  | BoundApprovalTimestampInvalid
  | BoundApprovalNotAuthoritative
  | HumanApprovalRequired
  | ApprovalDigestMismatch
  | HumanApprovalNotAuthoritative
  | HostDialogDisabled string
  | HostDialogNotEligible
  | ApprovalActorInvalid
  | ApprovalTimestampInvalid
  | AutomationOff
  | BlockerUnclassified string
  | PreviewIdentityInvalid
  | EnvelopeVersionInvalid
  | PostimageIdentityInvalid string
  | ThirdPartyConflict string
  | HighRiskReadApprovalRequired
  | HighRiskReadApprovalInvalid
  | SafetyApprovalInputInvalid
  | SafetyApprovalPathInvalid

definition ScopeOperation :: string where
  "ScopeOperation = ''scope''"

definition ApplyAuthorizationPolicyV1 :: string where
  "ApplyAuthorizationPolicyV1 = ''aoci-apply-authorization-policy/v1''"

definition PolicyBoundApprovalV1 :: string where
  "PolicyBoundApprovalV1 = ''aoci-policy-bound-approval/v1''"

definition ManagedScopeChangeApprovalV2 :: string where
  "ManagedScopeChangeApprovalV2 = ''managed-scope-change-approval/v2''"

section \<open>The modes in effect\<close>

definition ParseAutomationMode :: "(rune \<Rightarrow> rune) \<Rightarrow> string \<Rightarrow> string option" where
  "ParseAutomationMode uni raw =
     (let mode = to_lower uni (trim_space raw) in
      if mode = [] \<or> mode = ''legacy'' \<or> mode = ''manual'' then Some ''legacy''
      else if mode = ''off'' then Some ''off''
      else if mode = ''review'' then Some ''review''
      else if mode = ''auto'' then Some ''auto''
      else None)"

definition EffectiveAutomationMode :: "(rune \<Rightarrow> rune) \<Rightarrow> change_config \<Rightarrow> string" where
  "EffectiveAutomationMode uni cfg =
     (case cgAutomation cfg of
        None \<Rightarrow> ''legacy''
      | Some raw \<Rightarrow> (case ParseAutomationMode uni raw of None \<Rightarrow> raw | Some mode \<Rightarrow> mode))"

definition EffectiveManagedScope :: "change_config \<Rightarrow> Policy" where
  "EffectiveManagedScope cfg = (case cgManagedScope cfg of None \<Rightarrow> LegacyPolicy | Some p \<Rightarrow> p)"

definition EffectiveCognitionBudget :: "change_config \<Rightarrow> BudgetPolicy" where
  "EffectiveCognitionBudget cfg = (case cgCognitionBudget cfg of None \<Rightarrow> budget_LegacyPolicy | Some p \<Rightarrow> p)"

definition EffectiveHumanApprovalChannel :: "change_config \<Rightarrow> string" where
  "EffectiveHumanApprovalChannel cfg =
     (if cgHumanApprovalChannel cfg = [] then ''tty_or_host_dialog'' else cgHumanApprovalChannel cfg)"

definition AdmitsApprovalMechanism :: "change_config \<Rightarrow> string \<Rightarrow> bool" where
  "AdmitsApprovalMechanism cfg mechanism \<longleftrightarrow>
     mechanism \<noteq> ''host_elicitation_confirmation'' \<or> EffectiveHumanApprovalChannel cfg = ''tty_or_host_dialog''"

definition EffectiveApplyAuthorizationMode :: "(rune \<Rightarrow> rune) \<Rightarrow> change_config \<Rightarrow> (change_error, string) result" where
  "EffectiveApplyAuthorizationMode uni cfg =
     (let automation = EffectiveAutomationMode uni cfg; approval = ApprovalMode (EffectiveManagedScope cfg) in
      if automation = ''off'' then Inr ''off''
      else if approval = ''auto'' then Inr ''auto''
      else if approval = ''review'' then Inr ''review''
      else if approval = ''inherit'' \<and> automation \<in> {''auto'', ''review'', ''legacy''} then Inr automation
      else Inl AuthorizationPolicyInvalid)"

definition digestJSON :: "(string \<Rightarrow> string) \<Rightarrow> ('a \<Rightarrow> string) \<Rightarrow> 'a \<Rightarrow> string" where
  "digestJSON sha js value = sha (js value)"

definition resolveApplyAuthorizationPolicy ::
  "(rune \<Rightarrow> rune) \<Rightarrow> (string \<Rightarrow> string) \<Rightarrow> 'r change_json \<Rightarrow> change_config \<Rightarrow> (change_error, ApplyAuthorizationPolicy \<times> string) result" where
  "resolveApplyAuthorizationPolicy uni sha js cfg =
     result_bind (EffectiveApplyAuthorizationMode uni cfg) (\<lambda>mode.
       let value = \<lparr>apVersion = ApplyAuthorizationPolicyV1, apOperation = ScopeOperation, apAutomationMode = EffectiveAutomationMode uni cfg,
         apScopeApprovalMode = ApprovalMode (EffectiveManagedScope cfg), apEffectiveMode = mode\<rparr> in
       Inr (value, digestJSON sha (jsPolicy js) value))"

section \<open>Identities of plans and previews\<close>

definition change_digestStrings :: "(string \<Rightarrow> string) \<Rightarrow> string list \<Rightarrow> string" where
  "change_digestStrings sha values = sha (concat (map (\<lambda>v. v @ [CHR 0x00]) values))"

definition deduplicate :: "string list \<Rightarrow> string list" where
  "deduplicate values = uniq_adj values"

definition planIdentity :: "(string \<Rightarrow> string) \<Rightarrow> 'r change_json \<Rightarrow> 'r ChangePlan \<Rightarrow> string" where
  "planIdentity sha js value = digestJSON sha (jsPlan js) (value\<lparr>cpPlanID := [], cpConfirmationPhrase := [], cpPreparedAt := []\<rparr>)"

definition previewIdentity :: "(string \<Rightarrow> string) \<Rightarrow> 'r change_json \<Rightarrow> 'r Preview \<Rightarrow> string" where
  "previewIdentity sha js value =
     digestJSON sha (jsPreview js) (value\<lparr>pvPreviewID := [], pvEnvelopeDigest := [], pvPlan := (pvPlan value)\<lparr>cpPreparedAt := []\<rparr>\<rparr>)"

definition formalImages :: "'r Preview \<Rightarrow> FormalImage list" where
  "formalImages value =
     [pvIndexPostimage value, pvConfigPostimage value] @
     (case pvCurationPostimage value of None \<Rightarrow> [] | Some img \<Rightarrow> [img]) @ [pvBaselinePostimage value]"

definition validatePreview :: "(string \<Rightarrow> string) \<Rightarrow> 'r change_json \<Rightarrow> 'r Preview \<Rightarrow> change_error option" where
  "validatePreview sha js preview =
     (let want = previewIdentity sha js preview in
      if want \<noteq> pvPreviewID preview \<or> want \<noteq> pvEnvelopeDigest preview \<or> pvVersion preview \<noteq> ''managed-scope-change-preview/v2''
      then Some PreviewIdentityInvalid
      else if pvEnvelopeVersion preview \<noteq> ''managed-scope-change-envelope/v2'' then Some EnvelopeVersionInvalid
      else map_option (\<lambda>image. PostimageIdentityInvalid (fiPath image))
             (find (\<lambda>image. sha (fiPostimageBytes image) \<noteq> fiPostimageSHA256 image) (formalImages preview)))"

section \<open>Risk\<close>

definition applyAuthorizationStrength :: "string \<Rightarrow> int" where
  "applyAuthorizationStrength mode =
     (if mode = ''off'' then 3 else if mode = ''review'' then 2 else if mode = ''legacy'' then 1 else if mode = ''auto'' then 0 else -1)"

definition approvalRelaxed :: "Baseline option \<Rightarrow> string \<Rightarrow> bool" where
  "approvalRelaxed old effectiveMode =
     (case old of
        None \<Rightarrow> False
      | Some b \<Rightarrow>
          (case blManagedScope b of
             None \<Rightarrow> False
           | Some state \<Rightarrow>
               let previous = msApplyAuthorizationMode state;
                   previousStrength = applyAuthorizationStrength previous;
                   currentStrength = applyAuthorizationStrength effectiveMode in
               if previous = [] then False
               else if previousStrength < 0 \<or> currentStrength < 0 then True
               else currentStrength < previousStrength))"

definition budgetRelaxed :: "BudgetPolicy \<Rightarrow> BudgetPolicy \<Rightarrow> bool" where
  "budgetRelaxed oldPolicy newPolicy =
     (if bpMode oldPolicy = ''enforce'' \<and> bpMode newPolicy = ''observe'' then True
      else if wTargetTokens (bpWholeIndex oldPolicy) < wTargetTokens (bpWholeIndex newPolicy) \<or>
        wWarningTokens (bpWholeIndex oldPolicy) < wWarningTokens (bpWholeIndex newPolicy) \<or>
        wMaxTokens (bpWholeIndex oldPolicy) < wMaxTokens (bpWholeIndex newPolicy) then True
      else list_ex (\<lambda>importance.
        case (LimitFor (bpR oldPolicy) importance, LimitFor (bpR newPolicy) importance,
              LimitFor (bpS oldPolicy) importance, LimitFor (bpS newPolicy) importance) of
          (Some oldR, Some newR, Some oldS, Some newS) \<Rightarrow> fbMaxTokens oldR < fbMaxTokens newR \<or> fbMaxTokens oldS < fbMaxTokens newS
        | _ \<Rightarrow> True) [1..9])"

definition identity_or_empty :: "(BudgetPolicy \<Rightarrow> string) \<Rightarrow> (string \<Rightarrow> string) \<Rightarrow> BudgetPolicy \<Rightarrow> string" where
  "identity_or_empty json sha p = (case budget_Identity json sha p of Inl _ \<Rightarrow> [] | Inr identity \<Rightarrow> identity)"

definition buildRisk :: "(BudgetPolicy \<Rightarrow> string) \<Rightarrow> (string \<Rightarrow> string) \<Rightarrow> 'r ChangePlan \<Rightarrow> change_config \<Rightarrow> Baseline option \<Rightarrow> Risk" where
  "buildRisk json sha plan cfg old =
     (let thresholds = Thresholds (EffectiveManagedScope cfg);
          removes = int (length (cpEntryRemoves plan));
          before = rEntryCount (cpWholeIndexBefore plan);
          largeByPercent = 0 < before \<and> before * EntryRemovalPercent thresholds \<le> removes * 100;
          large = EntryRemovalCount thresholds \<le> removes \<or> largeByPercent;
          highRisk = cgHighRiskOptIn cfg \<noteq> [];
          reductions = cpCoverageReductions plan;
          rootOrPrimary = list_ex (\<lambda>item. \<not> str_contains (chPath item) slash \<or> has_prefix (chPath item) ''cmd/'' \<or>
            has_prefix (chPath item) ''internal/'') (cpEntryRemoves plan);
          (budgetChange, budgetRelaxation) =
            (case old of
               None \<Rightarrow> (False, False)
             | Some b \<Rightarrow>
                 (case blManagedScope b of
                    None \<Rightarrow> (identity_or_empty json sha budget_LegacyPolicy \<noteq> cpNewBudgetPolicyIdentity plan,
                             budgetRelaxed budget_LegacyPolicy (EffectiveCognitionBudget cfg))
                  | Some state \<Rightarrow>
                      if msBudgetPolicyIdentity state = cpNewBudgetPolicyIdentity plan then (False, False)
                      else (True, case msBudgetPolicy state of
                                    None \<Rightarrow> True
                                  | Some policy \<Rightarrow> budgetRelaxed policy (EffectiveCognitionBudget cfg))));
          relaxed = approvalRelaxed old (apEffectiveMode (cpAuthorizationPolicy plan)) in
      \<lparr>rkLevel = (if 0 < removes \<or> large \<or> rootOrPrimary \<or> highRisk \<or> budgetChange \<or> budgetRelaxation \<or> relaxed \<or> reductions \<noteq> []
                  then ''high'' else ''low''),
       rkLargeReduction = large, rkEntryRemovalThreshold = EntryRemovalCount thresholds,
       rkEntryRemovalPercentThreshold = EntryRemovalPercent thresholds, rkRootOrPrimaryReduction = rootOrPrimary,
       rkHighRiskOptIn = highRisk, rkBudgetPolicyChange = budgetChange, rkBudgetRelaxation = budgetRelaxation,
       rkApprovalPolicyRelaxation = relaxed, rkEntryRemovalCount = removes, rkP0 = 0,
       rkP1 = (if reductions \<noteq> [] then 1 else 0), rkCognitionCoverageReduction = (reductions \<noteq> []),
       rkTransportConstraintNotAllowed = list_ex (\<lambda>r. crDecisionBasis r = ''transport_constraint'') reductions,
       rkCoverageReductionCount = int (length reductions)\<rparr>)"

section \<open>What stops the policy from deciding alone\<close>

definition retentionReviewComplete :: "'r Preview \<Rightarrow> bool" where
  "retentionReviewComplete preview \<longleftrightarrow>
     (let reviews = cpRetentionReview (pvPlan preview); removes = cpEntryRemoves (pvPlan preview) in
      length reviews = length removes \<and>
      list_all (\<lambda>d. edSourcePath d \<noteq> [] \<and> edReviewStatus d = ''reviewed'' \<and> edReviewer d \<noteq> []) reviews \<and>
      distinct (map edSourcePath reviews) \<and> list_all (\<lambda>r. chPath r \<in> set (map edSourcePath reviews)) removes)"

definition currentCurationIdentity :: "(string \<Rightarrow> string) \<Rightarrow> 'r Preview \<Rightarrow> string" where
  "currentCurationIdentity sha preview =
     (case pvCurationPostimage preview of Some img \<Rightarrow> fiPreimageSHA256 img | None \<Rightarrow> change_digestStrings sha [''absent''])"

definition allowed_writes :: "change_config \<Rightarrow> string list" where
  "allowed_writes cfg = [cgIndexPath cfg, ''.aoci/config.json'', ''.aoci/curation.json'', ''.aoci/baseline.json'', ''.aoci/ledger.jsonl'']"

definition autoAuthorizationBlockers :: "'r Preview \<Rightarrow> change_config \<Rightarrow> string list" where
  "autoAuthorizationBlockers preview cfg =
     (let plan = pvPlan preview; risk = cpRisk plan;
          reason = (\<lambda>b name. if b then [name] else []) in
      deduplicate (sort_strings (
        reason (rkHighRiskOptIn risk \<or> csSafetyApproval (pvCandidateSet preview) \<noteq> None \<or> cgHighRiskOptIn cfg \<noteq> []) ''high_risk_content_inclusion'' @
        reason (rkBudgetRelaxation risk) ''budget_policy_relaxation'' @
        reason (rkApprovalPolicyRelaxation risk) ''approval_policy_relaxation'' @
        reason (rkP0 risk \<noteq> 0 \<or> rkP1 risk \<noteq> 0) ''p0_or_p1'' @
        reason (rkCognitionCoverageReduction risk) ''cognition_coverage_reduction_requires_independent_review'' @
        reason (rkTransportConstraintNotAllowed risk) ''transport_constraint_not_allowed'' @
        reason (\<not> retentionReviewComplete preview) ''retention_review_incomplete'' @
        reason (list_ex (\<lambda>d. edDisposition d = ''explicit_drop_approved'') (cpRetentionReview plan)) ''explicit_drop_without_transfer'' @
        reason (rViolations (cpWholeIndexAfter plan) \<noteq> []) ''cognition_budget_exceeded'' @
        reason (cpRecoveryDirection plan = []) ''recovery_unavailable'' @
        reason (list_ex (\<lambda>p. p \<notin> set (allowed_writes cfg)) (cpWriteSet plan)) ''business_source_write_set'' @
        reason (list_ex (\<lambda>image. fiPath image \<notin> set (allowed_writes cfg)) (formalImages preview)) ''business_source_postimage'')))"

definition autoBlockerRatifiableByIndependentReview :: "string \<Rightarrow> bool option" where
  "autoBlockerRatifiableByIndependentReview =
     map_of [(''high_risk_content_inclusion'', True), (''budget_policy_relaxation'', True), (''approval_policy_relaxation'', True),
       (''p0_or_p1'', True), (''cognition_coverage_reduction_requires_independent_review'', True), (''explicit_drop_without_transfer'', True),
       (''transport_constraint_not_allowed'', False), (''retention_review_incomplete'', False), (''cognition_budget_exceeded'', False),
       (''recovery_unavailable'', False), (''business_source_write_set'', False), (''business_source_postimage'', False)]"

fun interaction_loop :: "bool \<Rightarrow> string list \<Rightarrow> (change_error, bool) result" where
  "interaction_loop required [] = Inr required"
| "interaction_loop required (reason # reasons) =
     (case autoBlockerRatifiableByIndependentReview reason of
        None \<Rightarrow> Inl (BlockerUnclassified reason)
      | Some ratifiable \<Rightarrow> if \<not> ratifiable then Inr False else interaction_loop True reasons)"

definition interactionRequiredForAuto :: "'r Preview \<Rightarrow> change_config \<Rightarrow> (change_error, bool) result" where
  "interactionRequiredForAuto preview cfg = interaction_loop False (autoAuthorizationBlockers preview cfg)"

text \<open>The choice \<open>Build\<close> makes for the plan.\<close>

definition plan_interaction :: "'r Preview \<Rightarrow> change_config \<Rightarrow> (change_error, bool) result" where
  "plan_interaction preview cfg =
     (let plan = pvPlan preview; risk = cpRisk plan; mode = apEffectiveMode (cpAuthorizationPolicy plan) in
      if mode = ''review'' then Inr True
      else if mode = ''legacy'' then
        Inr (cpEntryRemoves plan \<noteq> [] \<or> rkLargeReduction risk \<or> rkHighRiskOptIn risk \<or> rkBudgetPolicyChange risk \<or>
          rkBudgetRelaxation risk \<or> rkApprovalPolicyRelaxation risk)
      else if mode = ''auto'' then interactionRequiredForAuto preview cfg
      else if mode = ''off'' then Inr False
      else Inl AuthorizationPolicyInvalid)"

section \<open>Approvals by a person\<close>

definition applyAuthorizationBranch :: "string \<Rightarrow> bool \<Rightarrow> string" where
  "applyAuthorizationBranch effectiveMode interactionRequired =
     (if effectiveMode = ''auto'' \<and> interactionRequired then ''review'' else effectiveMode)"

definition HostDialogEligible :: "'r Preview \<Rightarrow> bool" where
  "HostDialogEligible preview \<longleftrightarrow> \<not> rkHighRiskOptIn (cpRisk (pvPlan preview))"

datatype effect_arg = CountArg int | ModeArg string

definition ApprovalEffects :: "'r Preview \<Rightarrow> (string \<times> effect_arg list) list" where
  "ApprovalEffects preview =
     (let plan = pvPlan preview; risk = cpRisk plan;
          effects =
            (if cpEntryRemoves plan \<noteq> [] then [(''entry_removes'', [CountArg (int (length (cpEntryRemoves plan)))])] else []) @
            (if cpCoverageReductions plan \<noteq> [] then [(''coverage'', [CountArg (int (length (cpCoverageReductions plan)))])] else []) @
            (if rkApprovalPolicyRelaxation risk then [(''posture'', [ModeArg (apEffectiveMode (cpAuthorizationPolicy plan))])] else []) @
            (if rkBudgetRelaxation risk then [(''budget'', [])] else []) @
            (if rkHighRiskOptIn risk then [(''high_risk'', [])] else []) in
      if effects = [] then [(''none'', [])] else effects)"

definition approvalIdentity :: "(string \<Rightarrow> string) \<Rightarrow> 'r change_json \<Rightarrow> Approval \<Rightarrow> string" where
  "approvalIdentity sha js value = digestJSON sha (jsApproval js) (value\<lparr>avApprovalDigest := []\<rparr>)"

definition humanApprovalMechanism :: "string \<Rightarrow> bool" where
  "humanApprovalMechanism mechanism \<longleftrightarrow> mechanism = ''interactive_digest_confirmation'' \<or> mechanism = ''host_elicitation_confirmation''"

definition newApproval ::
  "(string \<Rightarrow> string) \<Rightarrow> (string \<Rightarrow> bool) \<Rightarrow> 'r change_json \<Rightarrow> 'r Preview \<Rightarrow> string \<Rightarrow> string \<Rightarrow> string \<Rightarrow> (change_error, Approval) result" where
  "newApproval sha utc js preview actor approvedAt mechanism =
     (if \<not> ValidAuditActor actor then Inl ApprovalActorInvalid
      else if \<not> utc approvedAt then Inl ApprovalTimestampInvalid
      else let approval = \<lparr>avVersion = ManagedScopeChangeApprovalV2, avEnvelopeDigest = pvEnvelopeDigest preview,
             avApprovedWriteSet = cpWriteSet (pvPlan preview), avApprovedRecoveryPolicy = cpRecoveryDirection (pvPlan preview),
             avActor = actor, avMechanism = mechanism, avApprovedAt = approvedAt, avApprovalDigest = []\<rparr> in
        Inr (approval\<lparr>avApprovalDigest := approvalIdentity sha js approval\<rparr>))"

definition NewApproval ::
  "(string \<Rightarrow> string) \<Rightarrow> (string \<Rightarrow> bool) \<Rightarrow> 'r change_json \<Rightarrow> 'r Preview \<Rightarrow> string \<Rightarrow> string \<Rightarrow> (change_error, Approval) result" where
  "NewApproval sha utc js preview actor approvedAt = newApproval sha utc js preview actor approvedAt ''interactive_digest_confirmation''"

definition NewHostDialogApproval ::
  "(string \<Rightarrow> string) \<Rightarrow> (string \<Rightarrow> bool) \<Rightarrow> 'r change_json \<Rightarrow> 'r Preview \<Rightarrow> string \<Rightarrow> string \<Rightarrow> (change_error, Approval) result" where
  "NewHostDialogApproval sha utc js preview actor approvedAt =
     (if \<not> HostDialogEligible preview then Inl HostDialogNotEligible
      else newApproval sha utc js preview actor approvedAt ''host_elicitation_confirmation'')"

definition validateApproval :: "(string \<Rightarrow> string) \<Rightarrow> 'r change_json \<Rightarrow> 'r Preview \<Rightarrow> Approval option \<Rightarrow> change_error option" where
  "validateApproval sha js preview approval =
     (if \<not> cpInteractionRequired (pvPlan preview) then None
      else case approval of
        None \<Rightarrow> Some HumanApprovalRequired
      | Some a \<Rightarrow>
          if avVersion a \<noteq> ManagedScopeChangeApprovalV2 \<or> avEnvelopeDigest a \<noteq> pvEnvelopeDigest preview \<or>
             \<not> humanApprovalMechanism (avMechanism a) \<or> avApprovedRecoveryPolicy a \<noteq> cpRecoveryDirection (pvPlan preview) \<or>
             avApprovedWriteSet a \<noteq> cpWriteSet (pvPlan preview) \<or> \<not> ValidAuditActor (avActor a) then Some HumanApprovalRequired
          else if approvalIdentity sha js a \<noteq> avApprovalDigest a then Some ApprovalDigestMismatch
          else None)"

definition ApprovalBinds :: "(string \<Rightarrow> string) \<Rightarrow> 'r change_json \<Rightarrow> 'r Preview \<Rightarrow> Approval option \<Rightarrow> bool" where
  "ApprovalBinds sha js preview approval \<longleftrightarrow> approval \<noteq> None \<and> validateApproval sha js preview approval = None"

definition admitApprovalChannel :: "change_config \<Rightarrow> 'r Preview \<Rightarrow> Approval option \<Rightarrow> change_error option" where
  "admitApprovalChannel cfg preview approval =
     (case approval of
        None \<Rightarrow> None
      | Some a \<Rightarrow>
          if avMechanism a \<noteq> ''host_elicitation_confirmation'' then None
          else if \<not> AdmitsApprovalMechanism cfg (avMechanism a) then Some (HostDialogDisabled (EffectiveHumanApprovalChannel cfg))
          else if \<not> HostDialogEligible preview then Some HostDialogNotEligible
          else None)"

definition equalSortedPaths :: "string list \<Rightarrow> string list \<Rightarrow> bool" where
  "equalSortedPaths left right \<longleftrightarrow> left = right"

definition safetyApprovalIdentity :: "(string \<Rightarrow> string) \<Rightarrow> 'r change_json \<Rightarrow> SafetyApproval \<Rightarrow> string" where
  "safetyApprovalIdentity sha js value = digestJSON sha (jsSafety js) (value\<lparr>saApprovalDigest := []\<rparr>)"

definition validateSafetyApproval ::
  "(string \<Rightarrow> string) \<Rightarrow> 'r change_json \<Rightarrow> string \<Rightarrow> string list \<Rightarrow> SafetyApproval option \<Rightarrow> change_error option" where
  "validateSafetyApproval sha js policyIdentity configured approval =
     (let paths = deduplicate (sort_strings configured) in
      if paths = [] then None
      else case approval of
        None \<Rightarrow> Some HighRiskReadApprovalRequired
      | Some a \<Rightarrow>
          if saVersion a \<noteq> ''managed-scope-safety-approval/v1'' \<or> saPolicyIdentity a \<noteq> policyIdentity \<or>
             saMechanism a \<noteq> ''human_tty_exact_path_confirmation'' \<or> \<not> ValidAuditActor (saActor a) \<or> \<not> equalSortedPaths (saExactPaths a) paths
          then Some HighRiskReadApprovalRequired
          else if safetyApprovalIdentity sha js a \<noteq> saApprovalDigest a then Some HighRiskReadApprovalInvalid
          else None)"

definition NewSafetyApproval ::
  "(string \<Rightarrow> string) \<Rightarrow> (string \<Rightarrow> bool) \<Rightarrow> 'r change_json \<Rightarrow> string \<Rightarrow> string list \<Rightarrow> string \<Rightarrow> string \<Rightarrow> (change_error, SafetyApproval) result" where
  "NewSafetyApproval sha utc js policyIdentity exactPaths actor approvedAt =
     (let paths = deduplicate (sort_strings exactPaths) in
      if \<not> utc approvedAt \<or> \<not> ValidAuditActor actor \<or> paths = [] \<or> length policyIdentity \<noteq> 64 then Inl SafetyApprovalInputInvalid
      else if list_ex (\<lambda>p. NormalizeRelPath p \<noteq> Inr p) paths then Inl SafetyApprovalPathInvalid
      else let approval = \<lparr>saVersion = ''managed-scope-safety-approval/v1'', saPolicyIdentity = policyIdentity, saExactPaths = paths,
             saActor = actor, saMechanism = ''human_tty_exact_path_confirmation'', saApprovedAt = approvedAt, saApprovalDigest = []\<rparr> in
        Inr (approval\<lparr>saApprovalDigest := safetyApprovalIdentity sha js approval\<rparr>))"

section \<open>Receipts of the policy\<close>

definition policyBoundApprovalIdentity :: "(string \<Rightarrow> string) \<Rightarrow> 'r change_json \<Rightarrow> PolicyBoundApproval \<Rightarrow> string" where
  "policyBoundApprovalIdentity sha js value = digestJSON sha (jsBound js) (value\<lparr>pbApprovalDigest := []\<rparr>)"

definition validateAuthorizationPolicyBinding ::
  "(string \<Rightarrow> string) \<Rightarrow> 'r change_json \<Rightarrow> 'r Preview \<Rightarrow> ApplyAuthorizationPolicy \<Rightarrow> string \<Rightarrow> change_error option" where
  "validateAuthorizationPolicyBinding sha js preview policy identity =
     (let plan = pvPlan preview in
      if cpAuthorizationPolicy plan \<noteq> policy \<or> cpAuthorizationPolicyIdentity plan \<noteq> identity then Some AuthorizationPolicyDrift
      else if digestJSON sha (jsPolicy js) (cpAuthorizationPolicy plan) \<noteq> cpAuthorizationPolicyIdentity plan
      then Some AuthorizationPolicyIdentityInvalid
      else None)"

text \<open>The receipt that fits a preview, with an empty digest.\<close>

definition expected_receipt :: "(string \<Rightarrow> string) \<Rightarrow> 'r Preview \<Rightarrow> ApplyAuthorizationPolicy \<Rightarrow> string \<Rightarrow> string \<Rightarrow> PolicyBoundApproval" where
  "expected_receipt sha preview policy policyIdentity createdAt =
     (let plan = pvPlan preview in
      \<lparr>pbVersion = PolicyBoundApprovalV1, pbMechanism = ''policy_bound_auto'', pbOperation = ScopeOperation,
       pbRepositoryIdentity = cpRepositoryRootIdentity plan, pbAutomationMode = apAutomationMode policy,
       pbScopeApprovalMode = apScopeApprovalMode policy, pbAuthorizationPolicyIdentity = policyIdentity,
       pbEnvelopeDigest = pvEnvelopeDigest preview, pbPreviewDigest = pvPreviewID preview,
       pbCurrentIndexSHA256 = fiPreimageSHA256 (pvIndexPostimage preview),
       pbCurrentBaselineSHA256 = fiPreimageSHA256 (pvBaselinePostimage preview),
       pbCurrentConfigSHA256 = fiPreimageSHA256 (pvConfigPostimage preview),
       pbCurrentScopePolicyIdentity = cpNewPolicyIdentity plan, pbCurrentCurationIdentity = currentCurationIdentity sha preview,
       pbProjectedIndexSHA256 = fiPostimageSHA256 (pvIndexPostimage preview),
       pbProjectedBaselineSHA256 = fiPostimageSHA256 (pvBaselinePostimage preview),
       pbProjectedWholeIndexTokens = rWholeIndexTokens (cpWholeIndexAfter plan), pbEntryBefore = rEntryCount (cpWholeIndexBefore plan),
       pbEntryAfter = rEntryCount (cpWholeIndexAfter plan), pbIndexCount = pvIndexCount preview, pbObserveCount = pvObserveCount preview,
       pbExcludeCount = pvExcludeCount preview, pbRetentionReviewTotal = int (length (cpRetentionReview plan)),
       pbRetentionReviewComplete = retentionReviewComplete preview, pbP0 = rkP0 (cpRisk plan), pbP1 = rkP1 (cpRisk plan),
       pbWriteSet = cpWriteSet plan, pbGuardSet = cpGuardSet plan, pbRecoveryDirection = cpRecoveryDirection plan,
       pbCreatedAt = createdAt, pbApprovalDigest = []\<rparr>)"

definition validatePolicyBoundApproval ::
  "(string \<Rightarrow> string) \<Rightarrow> (string \<Rightarrow> bool) \<Rightarrow> 'r change_json \<Rightarrow> 'r Preview \<Rightarrow> PolicyBoundApproval option \<Rightarrow> change_error option" where
  "validatePolicyBoundApproval sha utc js preview receipt =
     (case receipt of
        None \<Rightarrow> Some BoundApprovalRequired
      | Some r \<Rightarrow>
          if pbVersion r \<noteq> PolicyBoundApprovalV1 \<or> pbMechanism r \<noteq> ''policy_bound_auto'' \<or> pbOperation r \<noteq> ScopeOperation
          then Some BoundApprovalRequired
          else if policyBoundApprovalIdentity sha js r \<noteq> pbApprovalDigest r then Some BoundApprovalDigestMismatch
          else if pbApprovalDigest r \<noteq> policyBoundApprovalIdentity sha js
            (expected_receipt sha preview (cpAuthorizationPolicy (pvPlan preview)) (cpAuthorizationPolicyIdentity (pvPlan preview)) (pbCreatedAt r))
          then Some BoundApprovalBindingMismatch
          else if \<not> utc (pbCreatedAt r) then Some BoundApprovalTimestampInvalid
          else None)"

end
