(* ===== verification/Change_Txn.thy ===== *)
theory Change_Txn
  imports Change_Authority Fs_Atomic Txn_Stage Txn_Ledger
begin

text \<open>
  The transaction of a scope change (\<open>internal/scopechange/transaction.go\<close>): from an authorized preview to the formal files, over the staging,
  receipts and ledger of \<open>cognitiontxn\<close> and the compare-and-swap write. The state is the file system and the ledger file. The environment of a
  call says which system calls fail, where the process stops (\<open>seFault\<close>), how each write ends, and what the readers of other packages
  (configuration, inventory, Baseline, planner) answer for a file system; the codecs are a record of encoders. A write that runs is the program
  of \<open>Fs_Atomic\<close> on a clean target; what it leaves beside the target is not in the state.
\<close>

section \<open>Data\<close>

record 'r RecoveryIntent =
  riVersion :: string
  riOperation :: string
  riTransactionID :: string
  riPreview :: "'r Preview"
  riApproval :: "Approval option"
  riPolicyBoundApproval :: "PolicyBoundApproval option"
  riStaging :: "StagedPostimage list"
  riPreimages :: "FormalImage list"
  riCreatedAt :: string
  riRecoveryDigest :: string

record ChangeResult =
  reVersion :: string
  reTransactionID :: string
  reStatus :: string
  reEnvelopeDigest :: string
  reAuthorizationMechanism :: string
  reApprovalDigest :: string
  reWrittenPaths :: "string list"
  reRecoveredPaths :: "string list"
  reIndexSHA256 :: string
  reBaselineSHA256 :: string
  rePolicyIdentity :: string
  reBudgetPolicyIdentity :: string
  reRecoveryAvailable :: bool

record TargetStatus =
  tsPath :: string
  tsState :: file_state
  tsActualSHA256 :: string

datatype change_state = ChangeConflict | ChangeComplete | ChangePreimage | ChangePartial

record ChangeStatus =
  stTransactionID :: string
  stState :: change_state
  stTargets :: "TargetStatus list"
  stRecoveryAvailable :: bool
  stRollbackAvailable :: bool
  stThirdPartyConflict :: bool

datatype txn_error =
    ChangeRefused change_error
  | ArchivedConflict
  | LockFailed
  | PendingRefused pending_error
  | TransactionInvalid
  | RecoveryNotFound
  | IntentMissing
  | IntentUnreadable
  | RecoveryInvalid
  | RecoveryBindingInvalid
  | ConfigUnreadable
  | ReplayMismatch
  | RuntimeBoundaryInvalid stage_error
  | PreimageCaptureFailed string
  | StagingFailed stage_error
  | IntentSaveFailed stage_error
  | FaultAt string
  | InspectFailed stage_error
  | RecoveryConflict
  | TargetConflict string
  | GuardConfigInvalid
  | GuardCurationInvalid
  | GuardBaselineInvalid
  | GuardInventoryChanged
  | GuardSnapshotChanged
  | GuardDrift string
  | StagedUnreadable stage_error
  | PublishFailed string cas_result
  | PostPublishConflict string
  | VerifyFailed txn_error
  | IndexPostimageInvalid
  | BudgetPostimageInvalid
  | BaselinePostimageInvalid
  | PolicyActivationInvalid
  | ResultSaveFailed stage_error
  | LedgerRefused ledger_error
  | ArchiveFailed stage_error
  | RollbackConflict
  | RollbackTargetConflict string
  | RollbackPreimageMissing string
  | RollbackFailed string cas_result
  | RollbackPostwriteConflict

record scope_state =
  ssFiles :: fsys
  ssLedger :: "string option"

text \<open>What the readers of other packages answer while the sources are guarded.\<close>

record guard_view =
  gvCurationOk :: bool
  gvBaseline :: "Baseline option"
  gvEvaluation :: "(string \<times> (string \<times> string) list) option"
  gvSnapshot :: "bool \<Rightarrow> fingerprints option"
  gvFormalGuards :: "fingerprints option"
  gvHash :: "string \<Rightarrow> string option"

text \<open>
  How a write ends: it runs, with what foreign programs put at the target before each exchange; it fails before the exchange; or it fails
  behind it, with the target replaced.
\<close>

datatype cas_fate = CasRuns "string option list" | CasFailsBefore | CasFailsAfter

record 'r scope_env =
  seFs :: fs_env
  seCas :: "path \<Rightarrow> cas_fate"
  seFault :: "string \<Rightarrow> bool"
  seLockFails :: bool
  seWaiting :: "scope_state \<Rightarrow> scope_state"
  seListing :: "fsys \<Rightarrow> read_dir"
  seConfig :: "fsys \<Rightarrow> change_config option"
  seView :: "fsys \<Rightarrow> string list option \<Rightarrow> guard_view"
  seRebuild :: "fsys \<Rightarrow> 'r Preview \<Rightarrow> string option"
  seEventID :: string
  seNow :: string
  seContext :: "string list"
  seLedgerOk :: bool

record 'r scope_codec =
  scSha :: "string \<Rightarrow> string"
  scJson :: "'r change_json"
  scBudgetJson :: "BudgetPolicy \<Rightarrow> string"
  scIntentJson :: "'r RecoveryIntent \<Rightarrow> string"
  scIntent :: "'r RecoveryIntent \<Rightarrow> string"
  scDecodeIntent :: "string \<Rightarrow> 'r RecoveryIntent option"
  scResult :: "ChangeResult \<Rightarrow> string"
  scEvent :: "Event \<Rightarrow> string"
  scDecodeEvent :: "string \<Rightarrow> Event option"
  scGofmt :: "string \<Rightarrow> string option"
  scUni :: "rune \<Rightarrow> rune"
  scUtc :: "string \<Rightarrow> bool"

section \<open>Paths\<close>

definition validTransactionID :: "string \<Rightarrow> bool" where
  "validTransactionID value \<longleftrightarrow> length value = 24 \<and> trim_chars value ''0123456789abcdef'' = []"

definition safeFaultName :: "string \<Rightarrow> string" where
  "safeFaultName value = map (\<lambda>c. if c = CHR ''/'' \<or> c = CHR ''.'' then CHR ''_'' else c) value"

definition intentFilename :: "string \<Rightarrow> string" where
  "intentFilename tid = ''scope-'' @ tid @ ''.json''"

definition intentPath :: "path \<Rightarrow> string \<Rightarrow> path" where
  "intentPath root tid = joined root (''.aoci/transactions/'' @ intentFilename tid)"

definition archivePath :: "path \<Rightarrow> string \<Rightarrow> path" where
  "archivePath root tid = joined root (''.aoci/transactions/history/'' @ intentFilename tid)"

definition resultPath :: "path \<Rightarrow> string \<Rightarrow> string \<Rightarrow> path" where
  "resultPath root tid status = joined root (''.aoci/transactions/scope-'' @ tid @ ''/result-'' @ safeFaultName status @ ''.json'')"

section \<open>Where the targets stand\<close>

fun inspect_targets :: "(string \<Rightarrow> string) \<Rightarrow> fs_env \<Rightarrow> path \<Rightarrow> fsys \<Rightarrow> FormalImage list \<Rightarrow> (stage_error, TargetStatus list) result" where
  "inspect_targets sha env root d [] = Inr []"
| "inspect_targets sha env root d (img # imgs) =
     result_bind (Classify sha env d (joined root (fiPath img)) (fiPreimageSHA256 img) (fiPostimageSHA256 img) False) (\<lambda>(state, actual).
       result_bind (inspect_targets sha env root d imgs) (\<lambda>targets.
         Inr (\<lparr>tsPath = fiPath img, tsState = state, tsActualSHA256 = actual\<rparr> # targets)))"

definition inspectIntent :: "(string \<Rightarrow> string) \<Rightarrow> fs_env \<Rightarrow> path \<Rightarrow> fsys \<Rightarrow> 'r RecoveryIntent \<Rightarrow> bool \<Rightarrow> (stage_error, ChangeStatus) result" where
  "inspectIntent sha env root d intent active =
     result_bind (inspect_targets sha env root d (formalImages (riPreview intent))) (\<lambda>targets.
       let unknown = list_ex (\<lambda>t. tsState t \<noteq> StatePreimage \<and> tsState t \<noteq> StatePostimage) targets;
           state = (if unknown then ChangeConflict
             else if list_all (\<lambda>t. tsState t = StatePostimage) targets then ChangeComplete
             else if list_all (\<lambda>t. tsState t = StatePreimage) targets then ChangePreimage
             else ChangePartial) in
       Inr \<lparr>stTransactionID = riTransactionID intent, stState = state, stTargets = targets, stRecoveryAvailable = active,
            stRollbackAvailable = active, stThirdPartyConflict = unknown\<rparr>)"

definition targetStatus :: "ChangeStatus \<Rightarrow> string \<Rightarrow> TargetStatus" where
  "targetStatus status path =
     (case find (\<lambda>t. tsPath t = path) (stTargets status) of
        Some t \<Rightarrow> t
      | None \<Rightarrow> \<lparr>tsPath = path, tsState = StateUnknown, tsActualSHA256 = []\<rparr>)"

definition classifyPreviewPreimages :: "(string \<Rightarrow> string) \<Rightarrow> fs_env \<Rightarrow> path \<Rightarrow> fsys \<Rightarrow> 'r Preview \<Rightarrow> change_error option" where
  "classifyPreviewPreimages sha env root d preview =
     map_option (\<lambda>img. ThirdPartyConflict (fiPath img))
       (find (\<lambda>img. case Classify sha env d (joined root (fiPath img)) (fiPreimageSHA256 img) (fiPostimageSHA256 img) False of
          Inl _ \<Rightarrow> True
        | Inr (state, _) \<Rightarrow> state \<noteq> StatePreimage \<and> \<not> (fiPreimageSHA256 img = fiPostimageSHA256 img \<and> state = StatePostimage))
        (formalImages preview))"

fun capture_loop :: "(string \<Rightarrow> string) \<Rightarrow> fs_env \<Rightarrow> path \<Rightarrow> fsys \<Rightarrow> FormalImage list \<Rightarrow> (txn_error, FormalImage list) result" where
  "capture_loop sha env root d [] = Inr []"
| "capture_loop sha env root d (img # imgs) =
     (case os_ReadFile env d (joined root (fiPath img)) of
        FileBytes data \<Rightarrow>
          if sha data \<noteq> fiPreimageSHA256 img then Inl (PreimageCaptureFailed (fiPath img))
          else result_bind (capture_loop sha env root d imgs) (\<lambda>rest.
            Inr (\<lparr>fiPath = fiPath img, fiPreimageState = ''present'', fiPreimageSHA256 = fiPreimageSHA256 img,
              fiPostimageSHA256 = fiPreimageSHA256 img, fiPostimageBytes = data\<rparr> # rest))
      | _ \<Rightarrow> Inl (PreimageCaptureFailed (fiPath img)))"

definition capturePreimages :: "(string \<Rightarrow> string) \<Rightarrow> fs_env \<Rightarrow> path \<Rightarrow> fsys \<Rightarrow> 'r Preview \<Rightarrow> (txn_error, FormalImage list) result" where
  "capturePreimages sha env root d preview = capture_loop sha env root d (formalImages preview)"

definition preimageFor :: "FormalImage list \<Rightarrow> string \<Rightarrow> FormalImage option" where
  "preimageFor values path = find (\<lambda>v. fiPath v = path) values"

section \<open>Writing one formal file\<close>

definition file_bytes :: "fsys \<Rightarrow> path \<Rightarrow> string option" where
  "file_bytes d p = (case d p of Some (RegularFile b) \<Rightarrow> Some b | _ \<Rightarrow> None)"

definition write_cas :: "(string \<Rightarrow> string) \<Rightarrow> cas_fate \<Rightarrow> path \<Rightarrow> string \<Rightarrow> string \<Rightarrow> fsys \<Rightarrow> cas_result \<times> fsys" where
  "write_cas sha fate p data expected d =
     (case fate of
        CasFailsBefore \<Rightarrow> (CasFailed, d)
      | CasFailsAfter \<Rightarrow> (CasFailed, if map_option sha (file_bytes d p) = Some expected then d(p \<mapsto> RegularFile data) else d)
      | CasRuns vs \<Rightarrow>
          let t = file_bytes d p;
              (r, disk) = cas_run sha (AtomicWriteCAS sha data expected) vs \<lparr>dTarget = t, dSwap = None, dIntent = None, dQuarantine = []\<rparr> in
          (r, if dTarget disk = t then d
              else case dTarget disk of Some b \<Rightarrow> d(p \<mapsto> RegularFile b) | None \<Rightarrow> d(p := None)))"

section \<open>Source guards\<close>

definition isObserveReviewOnly :: "CandidateSet \<Rightarrow> bool" where
  "isObserveReviewOnly cs \<longleftrightarrow>
     csObserveReview cs \<noteq> None \<and> csEntries cs = [] \<and> csDispositions cs = [] \<and> csHeader cs = None \<and> csCuration cs = None \<and>
     csSafetyApproval cs = None"

text \<open>The projected files of an observe-only review; the roles it also returns are not used here.\<close>

definition observeOnlyProjection :: "Baseline \<Rightarrow> fingerprints \<Rightarrow> (string \<times> string) list \<Rightarrow> fingerprints" where
  "observeOnlyProjection active desired roles =
     (let observed = (\<lambda>path. map_of roles path = Some ''observe'');
          projected = fold (\<lambda>(path, f). AList.update path f) (filter (\<lambda>(path, _). observed path) desired) (blFiles active) in
      filter (\<lambda>(path, _). case map_of (blFiles active) path of
          None \<Rightarrow> True
        | Some f \<Rightarrow> \<not> (EffectiveRole f = ''observe'' \<and> \<not> observed path)) projected)"

definition zero_fingerprint :: Fingerprint where
  "zero_fingerprint = \<lparr>fpRole = [], SHA256 = [], fpSize = 0, NormalizedSHA256 = [], FormatSHA256 = [], FormatKind = []\<rparr>"

definition lookup_fingerprint :: "fingerprints \<Rightarrow> string \<Rightarrow> Fingerprint" where
  "lookup_fingerprint fs path = (case map_of fs path of None \<Rightarrow> zero_fingerprint | Some f \<Rightarrow> f)"

definition equalFingerprints :: "fingerprints \<Rightarrow> fingerprints \<Rightarrow> bool" where
  "equalFingerprints left right \<longleftrightarrow> length left = length right \<and> list_all (\<lambda>(path, f). lookup_fingerprint right path = f) left"

text \<open>\<open>filepath.Ext\<close>.\<close>

definition path_ext :: "string \<Rightarrow> string" where
  "path_ext p = (let base = last (str_split p slash) in
     if CHR ''.'' \<in> set base then CHR ''.'' # rev (takeWhile (\<lambda>c. c \<noteq> CHR ''.'') (rev base)) else [])"

definition validateSourceGuardsWithCurationBasis ::
  "(string \<Rightarrow> string) \<Rightarrow> (string \<Rightarrow> string option) \<Rightarrow> 'r scope_env \<Rightarrow> 'r RecoveryIntent \<Rightarrow> bool \<Rightarrow> fsys \<Rightarrow> txn_error option" where
  "validateSourceGuardsWithCurationBasis sha gofmt E intent replay d =
     (let preview = riPreview intent; cs = pvCandidateSet preview in
      case seConfig E d of
        None \<Rightarrow> Some GuardConfigInvalid
      | Some cfg \<Rightarrow>
          let view = seView E d (if replay then pvCurationExclusions preview else None) in
          if \<not> gvCurationOk view then Some GuardCurationInvalid
          else case gvBaseline view of
            None \<Rightarrow> Some GuardBaselineInvalid
          | Some active \<Rightarrow>
          (case gvEvaluation view of
             None \<Rightarrow> Some GuardInventoryChanged
           | Some (identity, roles) \<Rightarrow>
               if identity \<noteq> pvPolicyIdentity preview then Some GuardInventoryChanged
               else case gvSnapshot view (cgHighRiskOptIn cfg = [] \<or> csSafetyApproval cs \<noteq> None) of
                 None \<Rightarrow> Some GuardSnapshotChanged
               | Some snapshot \<Rightarrow>
               (case gvFormalGuards view of
                  None \<Rightarrow> Some GuardSnapshotChanged
                | Some guards \<Rightarrow>
                    let current = fold (\<lambda>(path, f). AList.update path f) guards snapshot in
                    if pvSourceGuard preview = [] \<and> isObserveReviewOnly cs then
                      (if \<not> equalFingerprints (observeOnlyProjection active current roles) (blFiles (pvBaseline preview))
                       then Some GuardSnapshotChanged
                       else map_option GuardDrift (find (\<lambda>rel. map_of current rel \<noteq> map_of (blFiles (pvBaseline preview)) rel)
                         (case csObserveReview cs of None \<Rightarrow> [] | Some r \<Rightarrow> orPaths r)))
                    else
                      let expected0 = (if pvSourceGuard preview = [] then blFiles (pvBaseline preview) else pvSourceGuard preview);
                          expected = (if map_of expected0 (cgIndexPath cfg) = None then expected0
                            else AList.update (cgIndexPath cfg) ((HashBytes sha gofmt (path_ext (cgIndexPath cfg))
                              (fiPostimageBytes (pvIndexPostimage preview)))\<lparr>fpRole := ''index''\<rparr>) expected0) in
                      if \<not> equalFingerprints current expected then Some GuardSnapshotChanged
                      else map_option (\<lambda>(rel, _). GuardDrift rel) (find (\<lambda>(rel, f). gvHash view rel \<noteq> Some (SHA256 f)) expected))))"

definition validateSourceGuards ::
  "(string \<Rightarrow> string) \<Rightarrow> (string \<Rightarrow> string option) \<Rightarrow> 'r scope_env \<Rightarrow> 'r RecoveryIntent \<Rightarrow> fsys \<Rightarrow> txn_error option" where
  "validateSourceGuards sha gofmt E intent d = validateSourceGuardsWithCurationBasis sha gofmt E intent False d"

definition root_name :: "path \<Rightarrow> string" where
  "root_name root = slash @ str_join root slash"

definition internalVerify :: "'r scope_codec \<Rightarrow> 'r scope_env \<Rightarrow> path \<Rightarrow> 'r RecoveryIntent \<Rightarrow> fsys \<Rightarrow> txn_error option" where
  "internalVerify C E root intent d =
     (let preview = riPreview intent; plan = pvPlan preview; sha = scSha C in
      case validateSourceGuardsWithCurationBasis sha (scGofmt C) E intent True d of
        Some e \<Rightarrow> Some e
      | None \<Rightarrow>
      (case seConfig E d of
         None \<Rightarrow> Some ConfigUnreadable
       | Some cfg \<Rightarrow>
       (case os_ReadFile (seFs E) d (joined root (cgIndexPath cfg)) of
          FileBytes indexBytes \<Rightarrow>
            if sha indexBytes \<noteq> fiPostimageSHA256 (pvIndexPostimage preview) then Some IndexPostimageInvalid
            else if \<not> (case budget_Validate (root_name root) indexBytes (EffectiveCognitionBudget cfg) of Inl _ \<Rightarrow> False | Inr v \<Rightarrow> vAllowed v)
            then Some BudgetPostimageInvalid
            else (case gvBaseline (seView E d None) of
                None \<Rightarrow> Some BaselinePostimageInvalid
              | Some value \<Rightarrow>
              (case blManagedScope value of
                 None \<Rightarrow> Some BaselinePostimageInvalid
               | Some state \<Rightarrow>
                   if msPolicyIdentity state \<noteq> cpNewPolicyIdentity plan \<or> msBudgetPolicyIdentity state \<noteq> cpNewBudgetPolicyIdentity plan
                   then Some BaselinePostimageInvalid
                   else if pvPolicyIdentity preview \<noteq> msPolicyIdentity state \<or>
                     identity_or_empty (scBudgetJson C) sha (EffectiveCognitionBudget cfg) \<noteq> msBudgetPolicyIdentity state
                   then Some PolicyActivationInvalid
                   else None))
        | _ \<Rightarrow> Some IndexPostimageInvalid)))"

section \<open>Results\<close>

definition authorizationMechanism :: "'r RecoveryIntent \<Rightarrow> string" where
  "authorizationMechanism intent =
     (case riPolicyBoundApproval intent of
        Some r \<Rightarrow> pbMechanism r
      | None \<Rightarrow> (case riApproval intent of Some a \<Rightarrow> avMechanism a | None \<Rightarrow> ''legacy_no_interaction_required''))"

definition authorizationDigest :: "'r RecoveryIntent \<Rightarrow> string" where
  "authorizationDigest intent =
     (case riPolicyBoundApproval intent of
        Some r \<Rightarrow> pbApprovalDigest r
      | None \<Rightarrow> (case riApproval intent of Some a \<Rightarrow> avApprovalDigest a | None \<Rightarrow> []))"

definition authorizationSource :: "'r RecoveryIntent \<Rightarrow> string" where
  "authorizationSource intent = (if riPolicyBoundApproval intent \<noteq> None then ''policy'' else ''human'')"

definition formalMutationCount :: "'r Preview \<Rightarrow> int" where
  "formalMutationCount preview = int (length (filter (\<lambda>img. fiPreimageSHA256 img \<noteq> fiPostimageSHA256 img) (formalImages preview)))"

definition resultFor :: "'r RecoveryIntent \<Rightarrow> string \<Rightarrow> string list \<Rightarrow> ChangeResult" where
  "resultFor intent status written =
     (let preview = riPreview intent; plan = pvPlan preview in
      \<lparr>reVersion = ''managed-scope-change-result/v2'', reTransactionID = riTransactionID intent, reStatus = status,
       reEnvelopeDigest = pvEnvelopeDigest preview, reAuthorizationMechanism = authorizationMechanism intent,
       reApprovalDigest = authorizationDigest intent, reWrittenPaths = (if status = ''applied'' then cpWriteSet plan else written),
       reRecoveredPaths = [], reIndexSHA256 = fiPostimageSHA256 (pvIndexPostimage preview),
       reBaselineSHA256 = fiPostimageSHA256 (pvBaselinePostimage preview), rePolicyIdentity = cpNewPolicyIdentity plan,
       reBudgetPolicyIdentity = cpNewBudgetPolicyIdentity plan, reRecoveryAvailable = True\<rparr>)"

definition saveResult :: "'r scope_codec \<Rightarrow> fs_env \<Rightarrow> path \<Rightarrow> string \<Rightarrow> ChangeResult \<Rightarrow> fsys \<Rightarrow> stage_error option \<times> fsys" where
  "saveResult C env root tid result d =
     (case EnsureSafeDirectory env root (''.aoci/transactions/scope-'' @ tid) d of
        (Some e, d') \<Rightarrow> (Some e, d')
      | (None, d') \<Rightarrow> SaveImmutable (scSha C) env (resultPath root tid (reStatus result)) (scResult C result) d')"

text \<open>The terminal event of a transaction; the fields set are those the code sets.\<close>

definition change_event :: "string \<Rightarrow> 'r RecoveryIntent \<Rightarrow> Event" where
  "change_event eventOp intent =
     \<lparr>evSchemaVersion = 0, evEventID = [], evTs = [], evOp = eventOp, evSource = authorizationSource intent, evResult = ''ok'',
      evAppliedCount = 0, evRecoveredCount = 0, evContext = replicate 9 [], evIndexSHA256 = [],
      evRecoveryTransactionID = riTransactionID intent, evPreIndexSHA256 = [], evPostIndexSHA256 = [], evBaselineSHA256 = [], evRest = []\<rparr>"

definition apply_event :: "'r RecoveryIntent \<Rightarrow> Event" where
  "apply_event intent =
     (let preview = riPreview intent in
      (change_event ''managed_scope_change_apply'' intent)\<lparr>evAppliedCount := formalMutationCount preview,
        evPreIndexSHA256 := fiPreimageSHA256 (pvIndexPostimage preview), evPostIndexSHA256 := fiPostimageSHA256 (pvIndexPostimage preview),
        evIndexSHA256 := fiPostimageSHA256 (pvIndexPostimage preview), evBaselineSHA256 := fiPostimageSHA256 (pvBaselinePostimage preview)\<rparr>)"

definition rollback_event :: "'r RecoveryIntent \<Rightarrow> string list \<Rightarrow> Event" where
  "rollback_event intent recovered =
     (let preview = riPreview intent in
      (change_event ''managed_scope_change_rollback'' intent)\<lparr>evRecoveredCount := int (length recovered),
        evIndexSHA256 := fiPreimageSHA256 (pvIndexPostimage preview), evBaselineSHA256 := fiPreimageSHA256 (pvBaselinePostimage preview)\<rparr>)"

definition ensure_ledger :: "'r scope_codec \<Rightarrow> 'r scope_env \<Rightarrow> bool \<Rightarrow> Event \<Rightarrow> string option \<Rightarrow> string option \<times> ledger_error option" where
  "ensure_ledger C E enabled ev file =
     EnsureLedger (scEvent C) (scDecodeEvent C) (seEventID E) (seNow E) (seContext E) (seLedgerOk E) file enabled ev"

section \<open>Publishing\<close>

text \<open>The loop over the formal files; the status is taken again after each write.\<close>

fun publish_loop ::
  "'r scope_codec \<Rightarrow> 'r scope_env \<Rightarrow> path \<Rightarrow> 'r RecoveryIntent \<Rightarrow> FormalImage list \<Rightarrow> ChangeStatus \<Rightarrow> fsys \<Rightarrow> txn_error option \<times> fsys" where
  "publish_loop C E root intent [] status d = (None, d)"
| "publish_loop C E root intent (img # imgs) status d =
     (let state = tsState (targetStatus status (fiPath img)); p = joined root (fiPath img) in
      if state = StatePostimage then publish_loop C E root intent imgs status d
      else if state \<noteq> StatePreimage then (Some (TargetConflict (fiPath img)), d)
      else case (if fiPath img = ''.aoci/baseline.json'' then validateSourceGuards (scSha C) (scGofmt C) E intent d else None) of
        Some e \<Rightarrow> (Some e, d)
      | None \<Rightarrow>
          if seFault E (''before_publish_'' @ safeFaultName (fiPath img)) then (Some (FaultAt (''before_publish_'' @ safeFaultName (fiPath img))), d)
          else case ReadStaged (scSha C) (seFs E) d root (riStaging intent) (fiPath img) of
            Inl e \<Rightarrow> (Some (StagedUnreadable e), d)
          | Inr data \<Rightarrow>
              (case write_cas (scSha C) (seCas E p) p data (fiPreimageSHA256 img) d of
                 (CasOk, d') \<Rightarrow>
                   if seFault E (''after_publish_'' @ safeFaultName (fiPath img)) then (Some (FaultAt (''after_publish_'' @ safeFaultName (fiPath img))), d')
                   else (case inspectIntent (scSha C) (seFs E) root d' intent True of
                     Inl _ \<Rightarrow> (Some (PostPublishConflict (fiPath img)), d')
                   | Inr status' \<Rightarrow>
                       if stThirdPartyConflict status' then (Some (PostPublishConflict (fiPath img)), d')
                       else publish_loop C E root intent imgs status' d')
               | (r, d') \<Rightarrow> (Some (PublishFailed (fiPath img) r), d')))"

definition archive_intent :: "'r scope_codec \<Rightarrow> 'r scope_env \<Rightarrow> path \<Rightarrow> 'r RecoveryIntent \<Rightarrow> fsys \<Rightarrow> stage_error option \<times> fsys" where
  "archive_intent C E root intent d =
     ArchiveImmutable (scSha C) (seFs E) (intentPath root (riTransactionID intent)) (archivePath root (riTransactionID intent)) (scIntent C intent) d"

text \<open>What follows once every target is published.\<close>

definition complete_advance ::
  "'r scope_codec \<Rightarrow> 'r scope_env \<Rightarrow> path \<Rightarrow> 'r RecoveryIntent \<Rightarrow> scope_state \<Rightarrow> (txn_error, ChangeResult) result \<times> scope_state" where
  "complete_advance C E root intent s =
     (case internalVerify C E root intent (ssFiles s) of
        Some e \<Rightarrow> (Inl (VerifyFailed e), s)
      | None \<Rightarrow>
          let result = resultFor intent ''applied'' [] in
          case saveResult C (seFs E) root (riTransactionID intent) result (ssFiles s) of
            (Some e, d) \<Rightarrow> (Inl (ResultSaveFailed e), s\<lparr>ssFiles := d\<rparr>)
          | (None, d) \<Rightarrow>
              if seFault E ''before_ledger'' then (Inl (FaultAt ''before_ledger''), s\<lparr>ssFiles := d\<rparr>)
              else case seConfig E d of
                None \<Rightarrow> (Inl ConfigUnreadable, s\<lparr>ssFiles := d\<rparr>)
              | Some cfg \<Rightarrow>
                  (case ensure_ledger C E (cgLedgerEnabled cfg) (apply_event intent) (ssLedger s) of
                     (file, Some e) \<Rightarrow> (Inl (LedgerRefused e), \<lparr>ssFiles = d, ssLedger = file\<rparr>)
                   | (file, None) \<Rightarrow>
                       if seFault E ''before_archive'' then (Inl (FaultAt ''before_archive''), \<lparr>ssFiles = d, ssLedger = file\<rparr>)
                       else (case archive_intent C E root intent d of
                         (Some e, d') \<Rightarrow> (Inl (ArchiveFailed e), \<lparr>ssFiles = d', ssLedger = file\<rparr>)
                       | (None, d') \<Rightarrow> (Inr (result\<lparr>reRecoveryAvailable := False\<rparr>), \<lparr>ssFiles = d', ssLedger = file\<rparr>))))"

definition advance ::
  "'r scope_codec \<Rightarrow> 'r scope_env \<Rightarrow> path \<Rightarrow> 'r RecoveryIntent \<Rightarrow> scope_state \<Rightarrow> (txn_error, ChangeResult) result \<times> scope_state" where
  "advance C E root intent s =
     (case inspectIntent (scSha C) (seFs E) root (ssFiles s) intent True of
        Inl e \<Rightarrow> (Inl (InspectFailed e), s)
      | Inr status \<Rightarrow>
          if stThirdPartyConflict status then (Inl RecoveryConflict, s)
          else (case publish_loop C E root intent (formalImages (riPreview intent)) status (ssFiles s) of
            (Some e, d) \<Rightarrow> (Inl e, s\<lparr>ssFiles := d\<rparr>)
          | (None, d) \<Rightarrow> complete_advance C E root intent (s\<lparr>ssFiles := d\<rparr>)))"

section \<open>Rolling back\<close>

fun rollback_loop ::
  "'r scope_codec \<Rightarrow> 'r scope_env \<Rightarrow> path \<Rightarrow> 'r RecoveryIntent \<Rightarrow> FormalImage list \<Rightarrow> ChangeStatus \<Rightarrow> fsys \<Rightarrow>
   (txn_error, string list) result \<times> fsys" where
  "rollback_loop C E root intent [] status d = (Inr [], d)"
| "rollback_loop C E root intent (img # imgs) status d =
     (let state = tsState (targetStatus status (fiPath img)); p = joined root (fiPath img) in
      if fiPreimageSHA256 img = fiPostimageSHA256 img \<or> state = StatePreimage then rollback_loop C E root intent imgs status d
      else if state \<noteq> StatePostimage then (Inl (RollbackTargetConflict (fiPath img)), d)
      else case preimageFor (riPreimages intent) (fiPath img) of
        None \<Rightarrow> (Inl (RollbackPreimageMissing (fiPath img)), d)
      | Some pre \<Rightarrow>
          if scSha C (fiPostimageBytes pre) \<noteq> fiPreimageSHA256 img then (Inl (RollbackPreimageMissing (fiPath img)), d)
          else (case write_cas (scSha C) (seCas E p) p (fiPostimageBytes pre) (fiPostimageSHA256 img) d of
            (CasOk, d') \<Rightarrow>
              (case inspectIntent (scSha C) (seFs E) root d' intent True of
                 Inl _ \<Rightarrow> (Inl RollbackPostwriteConflict, d')
               | Inr status' \<Rightarrow>
                   if stThirdPartyConflict status' then (Inl RollbackPostwriteConflict, d')
                   else let (r, d'') = rollback_loop C E root intent imgs status' d' in (map_sum id ((#) (fiPath img)) r, d''))
          | (r, d') \<Rightarrow> (Inl (RollbackFailed (fiPath img) r), d')))"

definition complete_rollback ::
  "'r scope_codec \<Rightarrow> 'r scope_env \<Rightarrow> path \<Rightarrow> 'r RecoveryIntent \<Rightarrow> string list \<Rightarrow> scope_state \<Rightarrow> (txn_error, ChangeResult) result \<times> scope_state" where
  "complete_rollback C E root intent recovered s =
     (let preview = riPreview intent;
          result = (resultFor intent ''rolled_back'' [])\<lparr>reRecoveredPaths := recovered,
            reIndexSHA256 := fiPreimageSHA256 (pvIndexPostimage preview),
            reBaselineSHA256 := fiPreimageSHA256 (pvBaselinePostimage preview), reRecoveryAvailable := False\<rparr> in
      case saveResult C (seFs E) root (riTransactionID intent) result (ssFiles s) of
        (Some e, d) \<Rightarrow> (Inl (ResultSaveFailed e), s\<lparr>ssFiles := d\<rparr>)
      | (None, d) \<Rightarrow>
          (case seConfig E d of
             None \<Rightarrow> (Inl ConfigUnreadable, s\<lparr>ssFiles := d\<rparr>)
           | Some cfg \<Rightarrow>
               (case ensure_ledger C E (cgLedgerEnabled cfg) (rollback_event intent recovered) (ssLedger s) of
                  (file, Some e) \<Rightarrow> (Inl (LedgerRefused e), \<lparr>ssFiles = d, ssLedger = file\<rparr>)
                | (file, None) \<Rightarrow>
                    (case archive_intent C E root intent d of
                       (Some e, d') \<Rightarrow> (Inl (ArchiveFailed e), \<lparr>ssFiles = d', ssLedger = file\<rparr>)
                     | (None, d') \<Rightarrow> (Inr result, \<lparr>ssFiles = d', ssLedger = file\<rparr>)))))"

definition rollback_intent ::
  "'r scope_codec \<Rightarrow> 'r scope_env \<Rightarrow> path \<Rightarrow> 'r RecoveryIntent \<Rightarrow> scope_state \<Rightarrow> (txn_error, ChangeResult) result \<times> scope_state" where
  "rollback_intent C E root intent s =
     (case inspectIntent (scSha C) (seFs E) root (ssFiles s) intent True of
        Inl _ \<Rightarrow> (Inl RollbackConflict, s)
      | Inr status \<Rightarrow>
          if stThirdPartyConflict status then (Inl RollbackConflict, s)
          else (case rollback_loop C E root intent (rev (formalImages (riPreview intent))) status (ssFiles s) of
            (Inl e, d) \<Rightarrow> (Inl e, s\<lparr>ssFiles := d\<rparr>)
          | (Inr recovered, d) \<Rightarrow> complete_rollback C E root intent recovered (s\<lparr>ssFiles := d\<rparr>)))"

section \<open>Intents on disk\<close>

definition recoveryIdentity :: "'r scope_codec \<Rightarrow> 'r RecoveryIntent \<Rightarrow> string" where
  "recoveryIdentity C value = digestJSON (scSha C) (scIntentJson C) (value\<lparr>riRecoveryDigest := []\<rparr>)"

definition validateIntentAuthorization :: "'r scope_codec \<Rightarrow> 'r RecoveryIntent \<Rightarrow> change_error option" where
  "validateIntentAuthorization C intent =
     (let plan = pvPlan (riPreview intent); policy = cpAuthorizationPolicy plan;
          branch = applyAuthorizationBranch (apEffectiveMode policy) (cpInteractionRequired plan) in
      if digestJSON (scSha C) (jsPolicy (scJson C)) policy \<noteq> cpAuthorizationPolicyIdentity plan then Some AuthorizationPolicyIdentityInvalid
      else if branch = ''auto'' then
        (if riApproval intent \<noteq> None then Some BoundApprovalNotAuthoritative
         else validatePolicyBoundApproval (scSha C) (scUtc C) (scJson C) (riPreview intent) (riPolicyBoundApproval intent))
      else if branch = ''review'' \<or> branch = ''legacy'' then
        (if riPolicyBoundApproval intent \<noteq> None then Some BoundApprovalNotAuthoritative
         else validateApproval (scSha C) (scJson C) (riPreview intent) (riApproval intent))
      else Some BoundApprovalNotAuthoritative)"

definition loadIntentAt :: "'r scope_codec \<Rightarrow> fs_env \<Rightarrow> fsys \<Rightarrow> path \<Rightarrow> string \<Rightarrow> (txn_error, 'r RecoveryIntent) result" where
  "loadIntentAt C env d p tid =
     (case os_ReadFile env d p of
        FileNotExist \<Rightarrow> Inl IntentMissing
      | FileError \<Rightarrow> Inl IntentUnreadable
      | FileBytes data \<Rightarrow>
          (case scDecodeIntent C data of
             None \<Rightarrow> Inl RecoveryInvalid
           | Some value \<Rightarrow>
               if riVersion value \<noteq> ''managed-scope-change-recovery/v2'' \<or> riOperation value \<noteq> ScopeOperation \<or> riTransactionID value \<noteq> tid
               then Inl RecoveryInvalid
               else if recoveryIdentity C value \<noteq> riRecoveryDigest value \<or> validatePreview (scSha C) (scJson C) (riPreview value) \<noteq> None \<or>
                 validateIntentAuthorization C value \<noteq> None then Inl RecoveryBindingInvalid
               else Inr value))"

definition reject_pending :: "'r scope_env \<Rightarrow> fsys \<Rightarrow> string \<Rightarrow> txn_error option" where
  "reject_pending E d allowed = map_option PendingRefused (RejectOtherPending (seListing E d) allowed)"

definition Resume :: "'r scope_codec \<Rightarrow> 'r scope_env \<Rightarrow> path \<Rightarrow> string \<Rightarrow> scope_state \<Rightarrow> (txn_error, ChangeResult) result \<times> scope_state" where
  "Resume C E root tid s0 =
     (if \<not> validTransactionID tid then (Inl TransactionInvalid, s0)
      else if seLockFails E then (Inl LockFailed, s0)
      else let s = seWaiting E s0 in
        case reject_pending E (ssFiles s) (intentFilename tid) of
          Some e \<Rightarrow> (Inl e, s)
        | None \<Rightarrow>
            (case loadIntentAt C (seFs E) (ssFiles s) (intentPath root tid) tid of
               Inl _ \<Rightarrow> (Inl RecoveryNotFound, s)
             | Inr intent \<Rightarrow> advance C E root intent s))"

definition Rollback :: "'r scope_codec \<Rightarrow> 'r scope_env \<Rightarrow> path \<Rightarrow> string \<Rightarrow> scope_state \<Rightarrow> (txn_error, ChangeResult) result \<times> scope_state" where
  "Rollback C E root tid s0 =
     (if \<not> validTransactionID tid then (Inl TransactionInvalid, s0)
      else if seLockFails E then (Inl LockFailed, s0)
      else let s = seWaiting E s0 in
        case reject_pending E (ssFiles s) (intentFilename tid) of
          Some e \<Rightarrow> (Inl e, s)
        | None \<Rightarrow>
            (case loadIntentAt C (seFs E) (ssFiles s) (intentPath root tid) tid of
               Inl _ \<Rightarrow> (Inl RecoveryNotFound, s)
             | Inr intent \<Rightarrow> rollback_intent C E root intent s))"

definition Inspect :: "'r scope_codec \<Rightarrow> 'r scope_env \<Rightarrow> path \<Rightarrow> string \<Rightarrow> fsys \<Rightarrow> (txn_error, ChangeStatus) result" where
  "Inspect C E root tid d =
     (if \<not> validTransactionID tid then Inl TransactionInvalid
      else let inspect = (\<lambda>intent active. case inspectIntent (scSha C) (seFs E) root d intent active of Inl e \<Rightarrow> Inl (InspectFailed e) | Inr st \<Rightarrow> Inr st) in
        case loadIntentAt C (seFs E) d (intentPath root tid) tid of
          Inr intent \<Rightarrow> inspect intent True
        | Inl e \<Rightarrow>
            if e \<noteq> IntentMissing then Inl RecoveryNotFound
            else (case loadIntentAt C (seFs E) d (archivePath root tid) tid of Inl _ \<Rightarrow> Inl RecoveryNotFound | Inr intent \<Rightarrow> inspect intent False))"

section \<open>Authorization of one Apply\<close>

definition validatePolicyBoundApprovalLive ::
  "'r scope_codec \<Rightarrow> 'r scope_env \<Rightarrow> path \<Rightarrow> fsys \<Rightarrow> 'r Preview \<Rightarrow> PolicyBoundApproval \<Rightarrow> change_error option" where
  "validatePolicyBoundApprovalLive C E root d preview receipt =
     (case validatePolicyBoundApproval (scSha C) (scUtc C) (scJson C) preview (Some receipt) of
        Some e \<Rightarrow> Some e
      | None \<Rightarrow>
      (case seConfig E d of
         None \<Rightarrow> Some AuthorizationPolicyInvalid
       | Some cfg \<Rightarrow>
       (case resolveApplyAuthorizationPolicy (scUni C) (scSha C) (scJson C) cfg of
          Inl _ \<Rightarrow> Some AuthorizationPolicyDrift
        | Inr (policy, identity) \<Rightarrow>
            if apEffectiveMode policy \<noteq> ''auto'' then Some AuthorizationPolicyDrift
            else case validateAuthorizationPolicyBinding (scSha C) (scJson C) preview policy identity of
              Some e \<Rightarrow> Some e
            | None \<Rightarrow>
            (case classifyPreviewPreimages (scSha C) (seFs E) root d preview of
               Some e \<Rightarrow> Some e
             | None \<Rightarrow>
                 if autoAuthorizationBlockers preview cfg \<noteq> [] then Some (AutoBlocked (autoAuthorizationBlockers preview cfg)) else None))))"

definition NewPolicyBoundApproval ::
  "'r scope_codec \<Rightarrow> 'r scope_env \<Rightarrow> path \<Rightarrow> fsys \<Rightarrow> 'r Preview \<Rightarrow> string \<Rightarrow> (change_error, PolicyBoundApproval) result" where
  "NewPolicyBoundApproval C E root d preview createdAt =
     (if \<not> scUtc C createdAt then Inl AutoTimestampInvalid
      else case validatePreview (scSha C) (scJson C) preview of
        Some e \<Rightarrow> Inl e
      | None \<Rightarrow>
      (case seConfig E d of
         None \<Rightarrow> Inl AuthorizationPolicyInvalid
       | Some cfg \<Rightarrow>
           result_bind (resolveApplyAuthorizationPolicy (scUni C) (scSha C) (scJson C) cfg) (\<lambda>(policy, identity).
             if apEffectiveMode policy \<noteq> ''auto'' then Inl (AutoUnavailable (apEffectiveMode policy))
             else case validateAuthorizationPolicyBinding (scSha C) (scJson C) preview policy identity of
               Some e \<Rightarrow> Inl e
             | None \<Rightarrow>
                 if reject_pending E d [] \<noteq> None then Inl AutoBlockedPending
                 else if seRebuild E d preview \<noteq> Some (pvEnvelopeDigest preview) then Inl AutoBlockedReplay
                 else if classifyPreviewPreimages (scSha C) (seFs E) root d preview \<noteq> None then Inl AutoBlockedConflict
                 else if autoAuthorizationBlockers preview cfg \<noteq> [] then Inl (AutoBlocked (autoAuthorizationBlockers preview cfg))
                 else let receipt = expected_receipt (scSha C) preview policy identity createdAt in
                   Inr (receipt\<lparr>pbApprovalDigest := policyBoundApprovalIdentity (scSha C) (scJson C) receipt\<rparr>))))"

text \<open>The choice of the mechanism: what it yields is the receipt of the policy, if the policy decides.\<close>

definition authorize_change ::
  "'r scope_codec \<Rightarrow> 'r scope_env \<Rightarrow> path \<Rightarrow> fsys \<Rightarrow> 'r Preview \<Rightarrow> Approval option \<Rightarrow> PolicyBoundApproval option \<Rightarrow>
   (change_error, PolicyBoundApproval option) result" where
  "authorize_change C E root d preview approval policyBound =
     (case seConfig E d of
        None \<Rightarrow> Inl AuthorizationPolicyInvalid
      | Some cfg \<Rightarrow>
          result_bind (resolveApplyAuthorizationPolicy (scUni C) (scSha C) (scJson C) cfg) (\<lambda>(policy, identity).
            case validateAuthorizationPolicyBinding (scSha C) (scJson C) preview policy identity of
              Some e \<Rightarrow> Inl e
            | None \<Rightarrow>
                let branch = applyAuthorizationBranch (apEffectiveMode policy) (cpInteractionRequired (pvPlan preview)) in
                if branch = ''auto'' then
                  (if approval \<noteq> None then Inl HumanApprovalNotAuthoritative
                   else result_bind (case policyBound of Some r \<Rightarrow> Inr r | None \<Rightarrow> NewPolicyBoundApproval C E root d preview (seNow E)) (\<lambda>r.
                     case validatePolicyBoundApprovalLive C E root d preview r of Some e \<Rightarrow> Inl e | None \<Rightarrow> Inr (Some r)))
                else if branch = ''review'' \<or> branch = ''legacy'' then
                  (if policyBound \<noteq> None then Inl BoundApprovalNotAuthoritative
                   else case validateApproval (scSha C) (scJson C) preview approval of
                     Some e \<Rightarrow> Inl e
                   | None \<Rightarrow> (case admitApprovalChannel cfg preview approval of Some e \<Rightarrow> Inl e | None \<Rightarrow> Inr None))
                else if branch = ''off'' then Inl AutomationOff
                else Inl AuthorizationPolicyInvalid))"

section \<open>Apply\<close>

definition formal_posts :: "'r Preview \<Rightarrow> Postimage list" where
  "formal_posts preview = map (\<lambda>img. \<lparr>poPath = fiPath img, poSHA = fiPostimageSHA256 img, poData = fiPostimageBytes img\<rparr>) (formalImages preview)"

text \<open>Under the lock: the plan is built again, its preimages are captured, its postimages staged and the intent written before any target.\<close>

definition start_change ::
  "'r scope_codec \<Rightarrow> 'r scope_env \<Rightarrow> path \<Rightarrow> 'r Preview \<Rightarrow> Approval option \<Rightarrow> PolicyBoundApproval option \<Rightarrow> scope_state \<Rightarrow>
   (txn_error, 'r RecoveryIntent) result \<times> scope_state" where
  "start_change C E root preview approval policyBound s =
     (let d = ssFiles s; tid = take 24 (pvEnvelopeDigest preview) in
      if seRebuild E d preview \<noteq> Some (pvEnvelopeDigest preview) then (Inl ReplayMismatch, s)
      else case classifyPreviewPreimages (scSha C) (seFs E) root d preview of
        Some e \<Rightarrow> (Inl (ChangeRefused e), s)
      | None \<Rightarrow>
      (case (case policyBound of None \<Rightarrow> None | Some r \<Rightarrow> validatePolicyBoundApprovalLive C E root d preview r) of
         Some e \<Rightarrow> (Inl (ChangeRefused e), s)
       | None \<Rightarrow>
       (case EnsureSafeDirectory (seFs E) root ''.aoci/transactions/history'' d of
          (Some e, d1) \<Rightarrow> (Inl (RuntimeBoundaryInvalid e), s\<lparr>ssFiles := d1\<rparr>)
        | (None, d1) \<Rightarrow>
        (case capturePreimages (scSha C) (seFs E) root d1 preview of
           Inl e \<Rightarrow> (Inl e, s\<lparr>ssFiles := d1\<rparr>)
         | Inr preimages \<Rightarrow>
         (case Stage (scSha C) (seFs E) (seFault E) root ScopeOperation tid (formal_posts preview) d1 of
            (Inl e, d2) \<Rightarrow> (Inl (StagingFailed e), s\<lparr>ssFiles := d2\<rparr>)
          | (Inr staging, d2) \<Rightarrow>
              let createdAt = (case approval of Some a \<Rightarrow> avApprovedAt a
                    | None \<Rightarrow> (case policyBound of Some r \<Rightarrow> pbCreatedAt r | None \<Rightarrow> cpPreparedAt (pvPlan preview)));
                  bare = \<lparr>riVersion = ''managed-scope-change-recovery/v2'', riOperation = ScopeOperation, riTransactionID = tid,
                    riPreview = preview, riApproval = approval, riPolicyBoundApproval = policyBound, riStaging = staging,
                    riPreimages = preimages, riCreatedAt = createdAt, riRecoveryDigest = []\<rparr>;
                  intent = bare\<lparr>riRecoveryDigest := recoveryIdentity C bare\<rparr> in
              case SaveImmutable (scSha C) (seFs E) (intentPath root tid) (scIntent C intent) d2 of
                (Some e, d3) \<Rightarrow> (Inl (IntentSaveFailed e), s\<lparr>ssFiles := d3\<rparr>)
              | (None, d3) \<Rightarrow>
                  if seFault E ''after_intent'' then (Inl (FaultAt ''after_intent''), s\<lparr>ssFiles := d3\<rparr>)
                  else (Inr intent, s\<lparr>ssFiles := d3\<rparr>))))))"

text \<open>The answer for a transaction that is archived already.\<close>

definition archived_answer ::
  "'r scope_codec \<Rightarrow> 'r scope_env \<Rightarrow> path \<Rightarrow> 'r RecoveryIntent \<Rightarrow> fsys \<Rightarrow> (txn_error, ChangeResult) result" where
  "archived_answer C E root archived d =
     (case inspectIntent (scSha C) (seFs E) root d archived False of
        Inl _ \<Rightarrow> Inl ArchivedConflict
      | Inr status \<Rightarrow>
          if stThirdPartyConflict status \<or> stState status \<noteq> ChangeComplete then Inl ArchivedConflict
          else Inr (resultFor archived ''already_applied'' []))"

definition ApplyAuthorized ::
  "'r scope_codec \<Rightarrow> 'r scope_env \<Rightarrow> path \<Rightarrow> 'r Preview \<Rightarrow> Approval option \<Rightarrow> PolicyBoundApproval option \<Rightarrow> scope_state \<Rightarrow>
   (txn_error, ChangeResult) result \<times> scope_state" where
  "ApplyAuthorized C E root preview approval policyBound s0 =
     (let tid = take 24 (pvEnvelopeDigest preview); d0 = ssFiles s0 in
      case validatePreview (scSha C) (scJson C) preview of
        Some e \<Rightarrow> (Inl (ChangeRefused e), s0)
      | None \<Rightarrow>
      (case loadIntentAt C (seFs E) d0 (archivePath root tid) tid of
         Inr archived \<Rightarrow> (archived_answer C E root archived d0, s0)
       | Inl _ \<Rightarrow>
       (case loadIntentAt C (seFs E) d0 (intentPath root tid) tid of
          Inr _ \<Rightarrow>
            if seLockFails E then (Inl LockFailed, s0)
            else let s = seWaiting E s0 in
              (case reject_pending E (ssFiles s) (intentFilename tid) of
                 Some e \<Rightarrow> (Inl e, s)
               | None \<Rightarrow>
                   (case loadIntentAt C (seFs E) (ssFiles s) (intentPath root tid) tid of
                      Inl _ \<Rightarrow> (Inl RecoveryNotFound, s)
                    | Inr active \<Rightarrow> advance C E root active s))
        | Inl e \<Rightarrow>
            if e \<noteq> IntentMissing then (Inl e, s0)
            else case authorize_change C E root d0 preview approval policyBound of
              Inl e \<Rightarrow> (Inl (ChangeRefused e), s0)
            | Inr bound \<Rightarrow>
                if seLockFails E then (Inl LockFailed, s0)
                else let s = seWaiting E s0; d = ssFiles s in
                  (case loadIntentAt C (seFs E) d (archivePath root tid) tid of
                     Inr archived \<Rightarrow> (archived_answer C E root archived d, s)
                   | Inl _ \<Rightarrow>
                   (case reject_pending E d (intentFilename tid) of
                      Some e \<Rightarrow> (Inl e, s)
                    | None \<Rightarrow>
                    (case loadIntentAt C (seFs E) d (intentPath root tid) tid of
                       Inr active \<Rightarrow> advance C E root active s
                     | Inl e \<Rightarrow>
                         if e \<noteq> IntentMissing then (Inl e, s)
                         else (case start_change C E root preview approval bound s of
                           (Inl e, s') \<Rightarrow> (Inl e, s')
                         | (Inr intent, s') \<Rightarrow> advance C E root intent s')))))))"

definition Apply :: "'r scope_codec \<Rightarrow> 'r scope_env \<Rightarrow> path \<Rightarrow> 'r Preview \<Rightarrow> Approval option \<Rightarrow> scope_state \<Rightarrow> (txn_error, ChangeResult) result \<times> scope_state" where
  "Apply C E root preview approval s = ApplyAuthorized C E root preview approval None s"

end
