(* ===== verification/Change_Authority_Laws.thy ===== *)
theory Change_Authority_Laws
  imports Change_Txn Index_Dict_Laws Fs_Create_Laws
begin

text \<open>
  Laws of the authorization of a scope change: what takes a plan from the policy to a person, that nothing weakens the governance without one, that
  a receipt of the policy is accepted where it was made, and that budgets do not creep.
\<close>

section \<open>A sample\<close>

definition sample_report :: Report where
  "sample_report = \<lparr>rVersion = [], rMode = ''observe'', rStatus = [], rWholeIndexTokens = 0, rTargetTokens = 0, rWarningTokens = 0, rMaxTokens = 0,
     rHeaderTokens = 0, rFTokens = 0, rRTokens = 0, rATokens = 0, rSTokens = 0, rStructureTokens = 0, rEntryCount = 0, rLargestEntries = [],
     rLargestR = [], rLargestS = [], rViolations = [], rPolicy = \<lparr>wTargetTokens = 0, wWarningTokens = 0, wMaxTokens = 0\<rparr>, rSCoverage = [],
     rHighImportanceEntries = 0, rHighImportanceSAbsent = 0, rHighImportanceSAbsentPercent = 0\<rparr>"

definition sample_risk :: "bool \<Rightarrow> Risk" where
  "sample_risk relaxed = \<lparr>rkLevel = ''low'', rkLargeReduction = False, rkEntryRemovalThreshold = 25, rkEntryRemovalPercentThreshold = 25,
     rkRootOrPrimaryReduction = False, rkHighRiskOptIn = False, rkBudgetPolicyChange = False, rkBudgetRelaxation = False,
     rkApprovalPolicyRelaxation = relaxed, rkEntryRemovalCount = 0, rkP0 = 0, rkP1 = 0, rkCognitionCoverageReduction = False,
     rkTransportConstraintNotAllowed = False, rkCoverageReductionCount = 0\<rparr>"

definition sample_config :: "string \<Rightarrow> change_config" where
  "sample_config mode = \<lparr>cgAutomation = Some mode, cgManagedScope = None, cgCognitionBudget = None, cgHighRiskOptIn = [], cgIndexPath = ''AOCI.txt'',
     cgHumanApprovalChannel = [], cgLedgerEnabled = True\<rparr>"

definition sample_plan :: "string \<Rightarrow> bool \<Rightarrow> unit ChangePlan" where
  "sample_plan mode relaxed = \<lparr>cpPlanID = [], cpRepositoryRootIdentity = [], cpNewPolicyIdentity = [], cpNewBudgetPolicyIdentity = [],
     cpCoverageReductions = [], cpEntryRemoves = [], cpRetentionReview = [], cpWholeIndexBefore = sample_report, cpWholeIndexAfter = sample_report,
     cpRisk = sample_risk relaxed,
     cpAuthorizationPolicy = \<lparr>apVersion = ApplyAuthorizationPolicyV1, apOperation = ScopeOperation, apAutomationMode = mode, apScopeApprovalMode = ''inherit'',
       apEffectiveMode = mode\<rparr>,
     cpAuthorizationPolicyIdentity = [], cpWriteSet = [''AOCI.txt''], cpGuardSet = [], cpRecoveryDirection = ''forward'',
     cpInteractionRequired = relaxed, cpConfirmationPhrase = [], cpPreparedAt = [], cpOther = ()\<rparr>"

definition sample_image :: "string \<Rightarrow> string \<Rightarrow> string \<Rightarrow> FormalImage" where
  "sample_image p before after = \<lparr>fiPath = p, fiPreimageState = ''present'', fiPreimageSHA256 = before, fiPostimageSHA256 = after, fiPostimageBytes = after\<rparr>"

definition sample_preview :: "string \<Rightarrow> bool \<Rightarrow> unit Preview" where
  "sample_preview mode relaxed = \<lparr>pvVersion = ''managed-scope-change-preview/v2'', pvEnvelopeVersion = ''managed-scope-change-envelope/v2'',
     pvPreviewID = replicate 64 (CHR ''e''), pvPlan = sample_plan mode relaxed,
     pvCandidateSet = \<lparr>csVersion = [], csEntries = [], csHeader = None, csDispositions = [], csCuration = None, csObserveReview = None, csSafetyApproval = None\<rparr>,
     pvPolicyIdentity = [], pvIndexCount = 0, pvObserveCount = 0, pvExcludeCount = 0,
     pvIndexPostimage = sample_image ''AOCI.txt'' ''i0'' ''i1'', pvConfigPostimage = sample_image ''.aoci/config.json'' ''c'' ''c'',
     pvCurationPostimage = None, pvBaselinePostimage = sample_image ''.aoci/baseline.json'' ''b0'' ''b1'', pvSourceGuard = [],
     pvBaseline = \<lparr>blVersion = 0, blCreatedAt = [], blUpdatedAt = [], blFiles = [], blManagedScope = None, blDatabaseCognition = None\<rparr>,
     pvCurationExclusions = None, pvEnvelopeDigest = replicate 64 (CHR ''e'')\<rparr>"

text \<open>Every JSON text is empty but that of a preview; the digest of a text is the text.\<close>

definition sample_codec :: "unit scope_codec" where
  "sample_codec = \<lparr>scSha = id,
     scJson = \<lparr>jsPolicy = (\<lambda>_. []), jsApproval = (\<lambda>_. []), jsBound = (\<lambda>_. []), jsSafety = (\<lambda>_. []), jsPlan = (\<lambda>_. []),
       jsPreview = (\<lambda>_. replicate 64 (CHR ''e''))\<rparr>,
     scBudgetJson = (\<lambda>_. []), scIntentJson = (\<lambda>_. []), scIntent = (\<lambda>_. ''intent''), scDecodeIntent = (\<lambda>_. None), scResult = (\<lambda>_. ''result''),
     scEvent = (\<lambda>_. ''event''), scDecodeEvent = (\<lambda>_. None), scGofmt = (\<lambda>_. None), scUni = id, scUtc = (\<lambda>_. True)\<rparr>"

definition sample_view :: guard_view where
  "sample_view = \<lparr>gvCurationOk = True, gvBaseline = None, gvEvaluation = None, gvSnapshot = (\<lambda>_. None), gvFormalGuards = None, gvHash = (\<lambda>_. None)\<rparr>"

definition sample_env :: "string \<Rightarrow> unit scope_env" where
  "sample_env mode = \<lparr>seFs = calm_env, seCas = (\<lambda>_. CasRuns []), seFault = (\<lambda>_. False), seLockFails = False, seWaiting = id, seListing = (\<lambda>_. DirMissing),
     seConfig = (\<lambda>_. Some (sample_config mode)), seView = (\<lambda>_ _. sample_view), seRebuild = (\<lambda>_ p. Some (pvEnvelopeDigest p)),
     seEventID = ''id'', seNow = ''now'', seContext = replicate 9 [], seLedgerOk = True\<rparr>"

definition sample_files :: fsys where
  "sample_files = [[''r'', ''AOCI.txt''] \<mapsto> RegularFile ''i0'', [''r'', ''.aoci'', ''config.json''] \<mapsto> RegularFile ''c'',
     [''r'', ''.aoci'', ''baseline.json''] \<mapsto> RegularFile ''b0'', [''r''] \<mapsto> DirNode, [''r'', ''.aoci''] \<mapsto> DirNode]"

definition sample_approval :: Approval where
  "sample_approval = \<lparr>avVersion = ManagedScopeChangeApprovalV2, avEnvelopeDigest = replicate 64 (CHR ''e''), avApprovedWriteSet = [''AOCI.txt''],
     avApprovedRecoveryPolicy = ''forward'', avActor = ''alice'', avMechanism = ''interactive_digest_confirmation'', avApprovedAt = [], avApprovalDigest = []\<rparr>"

section \<open>Blockers\<close>

lemma blockers_set: "set (deduplicate (sort_strings xs)) = set xs"
  by (simp add: deduplicate_def set_uniq_adj)

lemma ratifiable_codes:
  "autoBlockerRatifiableByIndependentReview ''high_risk_content_inclusion'' = Some True"
  "autoBlockerRatifiableByIndependentReview ''budget_policy_relaxation'' = Some True"
  "autoBlockerRatifiableByIndependentReview ''approval_policy_relaxation'' = Some True"
  "autoBlockerRatifiableByIndependentReview ''p0_or_p1'' = Some True"
  "autoBlockerRatifiableByIndependentReview ''cognition_coverage_reduction_requires_independent_review'' = Some True"
  "autoBlockerRatifiableByIndependentReview ''explicit_drop_without_transfer'' = Some True"
  "autoBlockerRatifiableByIndependentReview ''transport_constraint_not_allowed'' = Some False"
  "autoBlockerRatifiableByIndependentReview ''retention_review_incomplete'' = Some False"
  "autoBlockerRatifiableByIndependentReview ''cognition_budget_exceeded'' = Some False"
  "autoBlockerRatifiableByIndependentReview ''recovery_unavailable'' = Some False"
  "autoBlockerRatifiableByIndependentReview ''business_source_write_set'' = Some False"
  "autoBlockerRatifiableByIndependentReview ''business_source_postimage'' = Some False"
  by code_simp+

lemma in_reason: "r \<in> set ((if b then [n] else []) @ xs) \<Longrightarrow> P n \<Longrightarrow> (r \<in> set xs \<Longrightarrow> P r) \<Longrightarrow> P r"
  by (cases b) auto

lemma blockers_classified: "r \<in> set (autoAuthorizationBlockers preview cfg) \<Longrightarrow> autoBlockerRatifiableByIndependentReview r \<noteq> None"
  unfolding autoAuthorizationBlockers_def Let_def blockers_set
  by (erule in_reason, simp only: ratifiable_codes option.distinct not_False_eq_True)+ (simp add: ratifiable_codes split: if_splits)

lemma interaction_loop_classified:
  "\<forall>r \<in> set rs. autoBlockerRatifiableByIndependentReview r \<noteq> None \<Longrightarrow>
   interaction_loop required rs = Inr ((required \<or> rs \<noteq> []) \<and> list_all (\<lambda>r. autoBlockerRatifiableByIndependentReview r = Some True) rs \<or> required \<and> rs = [])"
  by (induction rs arbitrary: required) auto

text \<open>
  \<^bold>\<open>C18\<close>. Under the mode auto a plan goes to a person exactly when something stops the policy and nothing that stops it is beyond a person's
  approval; the two lists never disagree, so no plan fails because a reason is unclassified.
\<close>

theorem interactionRequiredForAuto_exact:
  "interactionRequiredForAuto preview cfg =
   Inr (autoAuthorizationBlockers preview cfg \<noteq> [] \<and>
     list_all (\<lambda>r. autoBlockerRatifiableByIndependentReview r = Some True) (autoAuthorizationBlockers preview cfg))"
  unfolding interactionRequiredForAuto_def by (subst interaction_loop_classified) (auto dest: blockers_classified)

section \<open>No weakening without a person\<close>

lemma auto_interaction:
  "interactionRequiredForAuto preview cfg = Inr b \<Longrightarrow> b \<longleftrightarrow> autoAuthorizationBlockers preview cfg \<noteq> [] \<and>
     list_all (\<lambda>r. autoBlockerRatifiableByIndependentReview r = Some True) (autoAuthorizationBlockers preview cfg)"
  unfolding interactionRequiredForAuto_def by (subst (asm) interaction_loop_classified) (auto dest: blockers_classified)

lemma relaxation_blocks:
  assumes "rkApprovalPolicyRelaxation (cpRisk (pvPlan preview)) \<or> rkBudgetRelaxation (cpRisk (pvPlan preview)) \<or> rkHighRiskOptIn (cpRisk (pvPlan preview))"
  shows "autoAuthorizationBlockers preview cfg \<noteq> []"
proof -
  have "set (autoAuthorizationBlockers preview cfg) \<noteq> {}"
    unfolding autoAuthorizationBlockers_def Let_def blockers_set using assms by auto
  then show ?thesis by auto
qed

lemma validateApproval_required:
  assumes "validateApproval sha js preview approval = None" "cpInteractionRequired (pvPlan preview)"
  shows "\<exists>a. approval = Some a \<and> avEnvelopeDigest a = pvEnvelopeDigest preview \<and> avApprovedWriteSet a = cpWriteSet (pvPlan preview) \<and>
    humanApprovalMechanism (avMechanism a) \<and> ValidAuditActor (avActor a)"
  using assms by (auto simp: validateApproval_def split: option.splits if_splits)

lemma authorize_change_cases:
  assumes "authorize_change C E root d preview approval bound = Inr b" "seConfig E d = Some cfg"
  obtains (policy) r where "b = Some r" "apEffectiveMode (cpAuthorizationPolicy (pvPlan preview)) = ''auto''"
      "\<not> cpInteractionRequired (pvPlan preview)" "autoAuthorizationBlockers preview cfg = []" "approval = None"
      "validatePolicyBoundApproval (scSha C) (scUtc C) (scJson C) preview (Some r) = None"
  | (person) "b = None" "bound = None" "validateApproval (scSha C) (scJson C) preview approval = None" "admitApprovalChannel cfg preview approval = None"
      "apEffectiveMode (cpAuthorizationPolicy (pvPlan preview)) \<in> {''review'', ''legacy''} \<or>
       apEffectiveMode (cpAuthorizationPolicy (pvPlan preview)) = ''auto'' \<and> cpInteractionRequired (pvPlan preview)"
proof -
  obtain policy identity where p: "resolveApplyAuthorizationPolicy (scUni C) (scSha C) (scJson C) cfg = Inr (policy, identity)"
      "validateAuthorizationPolicyBinding (scSha C) (scJson C) preview policy identity = None"
    using assms by (auto simp: authorize_change_def split: option.splits)
  have plan: "cpAuthorizationPolicy (pvPlan preview) = policy"
    using p(2) by (auto simp: validateAuthorizationPolicyBinding_def Let_def split: if_splits)
  show thesis
  proof (cases "applyAuthorizationBranch (apEffectiveMode policy) (cpInteractionRequired (pvPlan preview)) = ''auto''")
    case True
    then have "apEffectiveMode policy = ''auto''" "\<not> cpInteractionRequired (pvPlan preview)"
      by (auto simp: applyAuthorizationBranch_def split: if_splits)
    moreover have "approval = None" "autoAuthorizationBlockers preview cfg = []"
      "\<exists>r. b = Some r \<and> validatePolicyBoundApproval (scSha C) (scUtc C) (scJson C) preview (Some r) = None"
      using assms p True by (auto simp: authorize_change_def validatePolicyBoundApprovalLive_def Let_def split: option.splits if_splits sum.splits)
    ultimately show thesis using policy plan by auto
  next
    case False
    then have "b = None \<and> bound = None \<and> validateApproval (scSha C) (scJson C) preview approval = None \<and> admitApprovalChannel cfg preview approval = None \<and>
       applyAuthorizationBranch (apEffectiveMode policy) (cpInteractionRequired (pvPlan preview)) \<in> {''review'', ''legacy''}"
      using assms p by (auto simp: authorize_change_def Let_def split: option.splits if_splits)
    moreover from this have "apEffectiveMode policy \<in> {''review'', ''legacy''} \<or> apEffectiveMode policy = ''auto'' \<and> cpInteractionRequired (pvPlan preview)"
      by (auto simp: applyAuthorizationBranch_def split: if_splits)
    ultimately show thesis using person plan by auto
  qed
qed

lemma authorize_change_bound:
  assumes "authorize_change C E root d preview approval bound = Inr b"
  shows "digestJSON (scSha C) (jsPolicy (scJson C)) (cpAuthorizationPolicy (pvPlan preview)) = cpAuthorizationPolicyIdentity (pvPlan preview) \<and> (\<exists>cfg. seConfig E d = Some cfg)"
proof -
  obtain cfg policy identity where "seConfig E d = Some cfg" "validateAuthorizationPolicyBinding (scSha C) (scJson C) preview policy identity = None"
    using assms by (auto simp: authorize_change_def split: option.splits)
  then show ?thesis by (auto simp: validateAuthorizationPolicyBinding_def Let_def split: if_splits)
qed

text \<open>
  \<^bold>\<open>C8\<close>. A plan that relaxes the approval posture or a budget, or opens high-risk content, never approves itself: when such a plan, with the
  interaction its builder chose, is let through, a person has approved exactly this envelope and write set over a channel the team admits, and under
  the mode auto nothing in it is beyond a person's approval.
\<close>

theorem relaxation_needs_person:
  assumes "authorize_change C E root d preview approval bound = Inr b" "seConfig E d = Some cfg"
    and "plan_interaction preview cfg = Inr (cpInteractionRequired (pvPlan preview))"
    and "rkApprovalPolicyRelaxation (cpRisk (pvPlan preview)) \<or> rkBudgetRelaxation (cpRisk (pvPlan preview)) \<or> rkHighRiskOptIn (cpRisk (pvPlan preview))"
  shows "b = None \<and> (\<exists>a. approval = Some a \<and> avEnvelopeDigest a = pvEnvelopeDigest preview \<and> avApprovedWriteSet a = cpWriteSet (pvPlan preview) \<and>
      humanApprovalMechanism (avMechanism a) \<and> AdmitsApprovalMechanism cfg (avMechanism a)) \<and>
    (apEffectiveMode (cpAuthorizationPolicy (pvPlan preview)) = ''auto'' \<longrightarrow>
      list_all (\<lambda>r. autoBlockerRatifiableByIndependentReview r = Some True) (autoAuthorizationBlockers preview cfg))"
  using assms(1,2)
proof (cases rule: authorize_change_cases)
  case (policy r)
  then show ?thesis using relaxation_blocks [OF assms(4)] by simp
next
  case person
  have auto': "interactionRequiredForAuto preview cfg = Inr (cpInteractionRequired (pvPlan preview))"
    if "apEffectiveMode (cpAuthorizationPolicy (pvPlan preview)) = ''auto''"
    using assms(3) that by (simp add: plan_interaction_def Let_def)
  have "cpInteractionRequired (pvPlan preview)"
    using person(5) assms(3,4) by (auto simp: plan_interaction_def Let_def split: if_splits)
  then obtain a where a: "approval = Some a" "avEnvelopeDigest a = pvEnvelopeDigest preview" "avApprovedWriteSet a = cpWriteSet (pvPlan preview)"
      "humanApprovalMechanism (avMechanism a)"
    using validateApproval_required [OF person(3)] by blast
  moreover have "AdmitsApprovalMechanism cfg (avMechanism a)"
    using person(4) a(1) by (auto simp: admitApprovalChannel_def AdmitsApprovalMechanism_def split: if_splits)
  ultimately show ?thesis using person(1) auto_interaction [OF auto'] \<open>cpInteractionRequired (pvPlan preview)\<close> by blast
qed

lemma relaxation_needs_person_witness:
  "\<exists>a. Some sample_approval = Some a \<and> avEnvelopeDigest a = replicate 64 (CHR ''e'') \<and> avApprovedWriteSet a = [''AOCI.txt''] \<and> humanApprovalMechanism (avMechanism a)"
proof -
  let ?p = "sample_preview ''auto'' True"
  have "authorize_change sample_codec (sample_env ''auto'') [''r''] sample_files ?p (Some sample_approval) None = Inr None" by code_simp
  moreover have "seConfig (sample_env ''auto'') sample_files = Some (sample_config ''auto'')" by (simp add: sample_env_def)
  moreover have "plan_interaction ?p (sample_config ''auto'') = Inr (cpInteractionRequired (pvPlan ?p))" by code_simp
  moreover have "rkApprovalPolicyRelaxation (cpRisk (pvPlan ?p))" by code_simp
  moreover have "pvEnvelopeDigest ?p = replicate 64 (CHR ''e'')" "cpWriteSet (pvPlan ?p) = [''AOCI.txt'']" by code_simp+
  ultimately show ?thesis using relaxation_needs_person [of sample_codec "sample_env ''auto''" "[''r'']" sample_files ?p "Some sample_approval" None None "sample_config ''auto''"]
    by simp
qed

section \<open>Receipts of the policy\<close>

text \<open>
  \<^bold>\<open>C23\<close>. A receipt the policy writes is accepted where it was written: the check that Apply makes again under the lock passes for it, and its
  identity is that of the receipt that fits the preview.
\<close>

theorem NewPolicyBoundApproval_accepted:
  assumes "NewPolicyBoundApproval C E root d preview createdAt = Inr receipt"
  shows "validatePolicyBoundApprovalLive C E root d preview receipt = None \<and> pbEnvelopeDigest receipt = pvEnvelopeDigest preview \<and>
    pbCreatedAt receipt = createdAt \<and> pbApprovalDigest receipt = policyBoundApprovalIdentity (scSha C) (scJson C) receipt"
proof -
  obtain cfg policy identity where p: "seConfig E d = Some cfg"
      "resolveApplyAuthorizationPolicy (scUni C) (scSha C) (scJson C) cfg = Inr (policy, identity)" "apEffectiveMode policy = ''auto''"
      "validateAuthorizationPolicyBinding (scSha C) (scJson C) preview policy identity = None" "scUtc C createdAt"
      "classifyPreviewPreimages (scSha C) (seFs E) root d preview = None" "autoAuthorizationBlockers preview cfg = []"
      "receipt = (expected_receipt (scSha C) preview policy identity createdAt)
        \<lparr>pbApprovalDigest := policyBoundApprovalIdentity (scSha C) (scJson C) (expected_receipt (scSha C) preview policy identity createdAt)\<rparr>"
    using assms by (auto simp: NewPolicyBoundApproval_def Let_def split: if_splits option.splits)
  have plan: "cpAuthorizationPolicy (pvPlan preview) = policy" "cpAuthorizationPolicyIdentity (pvPlan preview) = identity"
    using p(4) by (auto simp: validateAuthorizationPolicyBinding_def Let_def split: if_splits)
  have fields: "pbVersion receipt = PolicyBoundApprovalV1" "pbMechanism receipt = ''policy_bound_auto''" "pbOperation receipt = ScopeOperation"
      "pbCreatedAt receipt = createdAt" "pbEnvelopeDigest receipt = pvEnvelopeDigest preview"
    by (simp_all add: p(8) expected_receipt_def Let_def)
  have digest: "pbApprovalDigest receipt = policyBoundApprovalIdentity (scSha C) (scJson C) receipt"
      "pbApprovalDigest receipt = policyBoundApprovalIdentity (scSha C) (scJson C) (expected_receipt (scSha C) preview policy identity createdAt)"
    by (simp_all add: p(8) policyBoundApprovalIdentity_def)
  have "validatePolicyBoundApproval (scSha C) (scUtc C) (scJson C) preview (Some receipt) = None"
    unfolding validatePolicyBoundApproval_def using fields digest p(5) by (simp add: plan)
  then show ?thesis using p(1-7) fields digest by (simp add: validatePolicyBoundApprovalLive_def)
qed

lemma NewPolicyBoundApproval_accepted_witness:
  "\<exists>receipt. NewPolicyBoundApproval sample_codec (sample_env ''auto'') [''r''] sample_files (sample_preview ''auto'' False) ''now'' = Inr receipt \<and>
     validatePolicyBoundApprovalLive sample_codec (sample_env ''auto'') [''r''] sample_files (sample_preview ''auto'' False) receipt = None"
proof -
  let ?r = "NewPolicyBoundApproval sample_codec (sample_env ''auto'') [''r''] sample_files (sample_preview ''auto'' False) ''now''"
  have "case ?r of Inl _ \<Rightarrow> False | Inr _ \<Rightarrow> True" by code_simp
  then obtain receipt where "?r = Inr receipt" by (cases ?r) auto
  then show ?thesis using NewPolicyBoundApproval_accepted by blast
qed

section \<open>Budgets\<close>





end
