(* ===== verification/Change_Txn_Laws.thy ===== *)
theory Change_Txn_Laws
  imports Change_Authority_Laws Txn_Stage_Laws
begin

text \<open>
  Laws of the scope transaction. Along every run of attempts to apply and to roll back, each stopping wherever it may, the formal files that are
  published are those at the front of the order, the Baseline last, and every other one holds its preimage; a calm attempt finishes in either
  direction; a version neither side knows is never touched.
\<close>

section \<open>The write\<close>

lemma write_cas_calm:
  "write_cas sha (CasRuns []) p data expected d =
   (case file_bytes d p of
      Some t \<Rightarrow> if sha t = expected \<and> trim_space expected \<noteq> [] then (CasOk, d(p \<mapsto> RegularFile data)) else (ErrAtomicCASConflict, d)
    | None \<Rightarrow> (ErrAtomicCASConflict, d))"
proof -
  have "d(p \<mapsto> RegularFile b) = d" if "file_bytes d p = Some b" for b
    using that by (auto simp: file_bytes_def fun_eq_iff split: option.splits node.splits)
  then show ?thesis
    by (auto simp: write_cas_def AtomicWriteCAS_def recoverAtomicCAS_def cleanupAtomicCAS_def removeAtomicCASIntent_def rollbackAtomicCAS_def
      foreign_def Let_def split: option.splits)
qed

text \<open>No other program writes: a write ends calmly or fails at either side of its exchange.\<close>

definition own_fate :: "cas_fate \<Rightarrow> bool" where
  "own_fate fate \<longleftrightarrow> fate = CasRuns [] \<or> fate = CasFailsBefore \<or> fate = CasFailsAfter"

lemma write_cas_own:
  assumes "own_fate fate" "write_cas sha fate p data expected d = (r, d')"
  shows "(d' = d \<and> r \<noteq> CasOk) \<or> (d' = d(p \<mapsto> RegularFile data) \<and> (\<exists>t. d p = Some (RegularFile t) \<and> sha t = expected))"
proof -
  have content: "file_bytes d p = Some t \<Longrightarrow> d p = Some (RegularFile t)" for t
    by (auto simp: file_bytes_def split: option.splits node.splits)
  show ?thesis
    using assms content by (auto simp: own_fate_def write_cas_calm write_cas_def [of _ CasFailsBefore] write_cas_def [of _ CasFailsAfter] split: option.splits if_splits)
qed

section \<open>Where the targets stand\<close>

definition holds :: "(string \<Rightarrow> string) \<Rightarrow> path \<Rightarrow> fsys \<Rightarrow> (FormalImage \<Rightarrow> string) \<Rightarrow> FormalImage \<Rightarrow> bool" where
  "holds sha root d digest img \<longleftrightarrow> (\<exists>b. d (joined root (fiPath img)) = Some (RegularFile b) \<and> sha b = digest img)"

lemma Classify_holds:
  assumes "Classify sha env d (joined root (fiPath img)) (fiPreimageSHA256 img) (fiPostimageSHA256 img) False = Inr (state, actual)"
  shows "(state = StatePostimage \<longleftrightarrow> holds sha root d fiPostimageSHA256 img) \<and>
    (state = StatePreimage \<longleftrightarrow> holds sha root d fiPreimageSHA256 img \<and> \<not> holds sha root d fiPostimageSHA256 img)"
  using assms
  by (auto simp: Classify_def holds_def os_Lstat_def os_ReadFile_def Let_def split: stat_answer.splits node.splits file_read.splits option.splits if_splits)

lemma Classify_calm_total:
  "\<exists>state actual. Classify sha calm_env d p a b False = Inr (state, actual)" if "\<exists>c. d p = Some (RegularFile c)"
  using that by (auto simp: Classify_def os_Lstat_def os_ReadFile_def Let_def)

lemma inspect_targets_holds:
  "inspect_targets sha env root d imgs = Inr targets \<Longrightarrow> map tsPath targets = map fiPath imgs \<and>
   list_all2 (\<lambda>img t. (tsState t = StatePostimage \<longleftrightarrow> holds sha root d fiPostimageSHA256 img) \<and>
     (tsState t = StatePreimage \<longleftrightarrow> holds sha root d fiPreimageSHA256 img \<and> \<not> holds sha root d fiPostimageSHA256 img)) imgs targets"
proof (induction imgs arbitrary: targets)
  case (Cons img imgs)
  obtain state actual rest where r: "Classify sha env d (joined root (fiPath img)) (fiPreimageSHA256 img) (fiPostimageSHA256 img) False = Inr (state, actual)"
      "inspect_targets sha env root d imgs = Inr rest" "targets = \<lparr>tsPath = fiPath img, tsState = state, tsActualSHA256 = actual\<rparr> # rest"
    using Cons.prems by (auto split: prod.splits)
  show ?case using Classify_holds [OF r(1)] Cons.IH [OF r(2)] r(3) by simp
qed simp

text \<open>A status that tells of each target what it holds.\<close>

definition truthful :: "(string \<Rightarrow> string) \<Rightarrow> path \<Rightarrow> fsys \<Rightarrow> FormalImage list \<Rightarrow> ChangeStatus \<Rightarrow> bool" where
  "truthful sha root d imgs status \<longleftrightarrow>
     (\<forall>img \<in> set imgs. (tsState (targetStatus status (fiPath img)) = StatePostimage \<longleftrightarrow> holds sha root d fiPostimageSHA256 img) \<and>
       (tsState (targetStatus status (fiPath img)) = StatePreimage \<longleftrightarrow> holds sha root d fiPreimageSHA256 img \<and> \<not> holds sha root d fiPostimageSHA256 img))"

lemma find_same_position:
  "list_all2 P xs ys \<Longrightarrow> map g ys = map f xs \<Longrightarrow> distinct (map f xs) \<Longrightarrow> x \<in> set xs \<Longrightarrow>
   \<exists>y. find (\<lambda>y. g y = f x) ys = Some y \<and> P x y"
proof (induction xs ys rule: list_all2_induct)
  case (Cons x' xs y ys)
  then show ?case by (cases "x = x'") auto
qed simp

lemma inspectIntent_truthful:
  assumes "inspectIntent sha env root d intent active = Inr status" "distinct (map fiPath (formalImages (riPreview intent)))"
  shows "truthful sha root d (formalImages (riPreview intent)) status"
proof -
  obtain targets where t: "inspect_targets sha env root d (formalImages (riPreview intent)) = Inr targets" "stTargets status = targets"
    using assms(1) by (auto simp: inspectIntent_def Let_def)
  note h = inspect_targets_holds [OF t(1)]
  show ?thesis unfolding truthful_def
  proof
    fix img
    assume "img \<in> set (formalImages (riPreview intent))"
    from find_same_position [OF conjunct2 [OF h] conjunct1 [OF h] assms(2) this]
    show "(tsState (targetStatus status (fiPath img)) = StatePostimage \<longleftrightarrow> holds sha root d fiPostimageSHA256 img) \<and>
       (tsState (targetStatus status (fiPath img)) = StatePreimage \<longleftrightarrow> holds sha root d fiPreimageSHA256 img \<and> \<not> holds sha root d fiPostimageSHA256 img)"
      by (auto simp: targetStatus_def t(2))
  qed
qed

lemma inspect_conflict:
  assumes "inspectIntent sha env root d intent active = Inr status" "img \<in> set (formalImages (riPreview intent))"
    and "\<not> holds sha root d fiPreimageSHA256 img" "\<not> holds sha root d fiPostimageSHA256 img"
  shows "stThirdPartyConflict status"
proof -
  obtain targets where t: "inspect_targets sha env root d (formalImages (riPreview intent)) = Inr targets"
      "stThirdPartyConflict status = list_ex (\<lambda>t. tsState t \<noteq> StatePreimage \<and> tsState t \<noteq> StatePostimage) targets"
    using assms(1) by (auto simp: inspectIntent_def Let_def)
  obtain i where "i < length (formalImages (riPreview intent))" "formalImages (riPreview intent) ! i = img"
    using assms(2) by (auto simp: in_set_conv_nth)
  then have "i < length targets \<and> tsState (targets ! i) \<noteq> StatePreimage \<and> tsState (targets ! i) \<noteq> StatePostimage"
    using inspect_targets_holds [OF t(1)] assms(3,4) by (auto simp: list_all2_conv_all_nth)
  then show ?thesis unfolding t(2) list_ex_iff by (metis nth_mem)
qed

lemma inspect_calm:
  assumes "\<forall>img \<in> set (formalImages (riPreview intent)). holds sha root d fiPreimageSHA256 img \<or> holds sha root d fiPostimageSHA256 img"
  shows "\<exists>status. inspectIntent sha calm_env root d intent active = Inr status \<and> \<not> stThirdPartyConflict status"
proof -
  have "\<exists>targets. inspect_targets sha calm_env root d imgs = Inr targets \<and>
      \<not> list_ex (\<lambda>t. tsState t \<noteq> StatePreimage \<and> tsState t \<noteq> StatePostimage) targets"
    if "\<forall>img \<in> set imgs. holds sha root d fiPreimageSHA256 img \<or> holds sha root d fiPostimageSHA256 img" for imgs
    using that
  proof (induction imgs)
    case (Cons img imgs)
    have "\<exists>c. d (joined root (fiPath img)) = Some (RegularFile c)" using Cons.prems by (auto simp: holds_def)
    then obtain state actual
      where c: "Classify sha calm_env d (joined root (fiPath img)) (fiPreimageSHA256 img) (fiPostimageSHA256 img) False = Inr (state, actual)"
      using Classify_calm_total by blast
    then have "state = StatePreimage \<or> state = StatePostimage" using Classify_holds [OF c] Cons.prems by auto
    then show ?case using Cons c by auto
  qed simp
  from this [OF assms] obtain targets where t: "inspect_targets sha calm_env root d (formalImages (riPreview intent)) = Inr targets"
      "\<not> list_ex (\<lambda>t. tsState t \<noteq> StatePreimage \<and> tsState t \<noteq> StatePostimage) targets" by blast
  show ?thesis unfolding inspectIntent_def t(1) result_bind.simps Let_def using t(2) by simp
qed

section \<open>What an attempt needs and keeps\<close>

definition target_paths :: "path \<Rightarrow> 'r RecoveryIntent \<Rightarrow> path list" where
  "target_paths root intent = map (\<lambda>img. joined root (fiPath img)) (formalImages (riPreview intent))"

text \<open>The targets are different files, and different from the intent; the intent and its archive are different files.\<close>

definition separate :: "path \<Rightarrow> 'r RecoveryIntent \<Rightarrow> bool" where
  "separate root intent \<longleftrightarrow>
     distinct (map fiPath (formalImages (riPreview intent))) \<and> distinct (target_paths root intent) \<and>
     intentPath root (riTransactionID intent) \<notin> set (target_paths root intent) \<and>
     intentPath root (riTransactionID intent) \<noteq> archivePath root (riTransactionID intent)"

text \<open>The intent names for each target a staged file with the digest of the postimage and a copy of the preimage.\<close>

definition ready :: "(string \<Rightarrow> string) \<Rightarrow> path \<Rightarrow> 'r RecoveryIntent \<Rightarrow> bool" where
  "ready sha root intent \<longleftrightarrow> separate root intent \<and>
     (\<forall>img \<in> set (formalImages (riPreview intent)).
       (\<exists>item. find (\<lambda>item. sgPath item = fiPath img) (riStaging intent) = Some item \<and> sgSHA256 item = fiPostimageSHA256 img) \<and>
       (\<exists>pre. preimageFor (riPreimages intent) (fiPath img) = Some pre \<and> sha (fiPostimageBytes pre) = fiPreimageSHA256 img))"

lemma ready_D:
  assumes "ready sha root intent"
  shows "separate root intent" "distinct (map fiPath (formalImages (riPreview intent)))" "distinct (target_paths root intent)"
    "img \<in> set (formalImages (riPreview intent)) \<Longrightarrow> \<exists>item. find (\<lambda>item. sgPath item = fiPath img) (riStaging intent) = Some item \<and> sgSHA256 item = fiPostimageSHA256 img"
    "img \<in> set (formalImages (riPreview intent)) \<Longrightarrow> \<exists>pre. preimageFor (riPreimages intent) (fiPath img) = Some pre \<and> sha (fiPostimageBytes pre) = fiPreimageSHA256 img"
  using assms by (simp_all add: ready_def separate_def)

lemma ReadStaged_digest:
  "ReadStaged sha env d root staging p = Inr data \<Longrightarrow> \<exists>item. find (\<lambda>item. sgPath item = p) staging = Some item \<and> sha data = sgSHA256 item"
  by (induction staging) (auto split: if_splits file_read.splits)

text \<open>Every target up to some place holds its postimage, every one behind it its preimage.\<close>

definition published :: "(string \<Rightarrow> string) \<Rightarrow> path \<Rightarrow> fsys \<Rightarrow> FormalImage list \<Rightarrow> bool" where
  "published sha root d imgs \<longleftrightarrow>
     (\<exists>front rear. imgs = front @ rear \<and> list_all (holds sha root d fiPostimageSHA256) front \<and> list_all (holds sha root d fiPreimageSHA256) rear)"

lemma holds_cong: "d' (joined root (fiPath img)) = d (joined root (fiPath img)) \<Longrightarrow> holds sha root d' digest img = holds sha root d digest img"
  by (simp add: holds_def)

lemma list_all_holds_cong:
  "\<forall>img \<in> set imgs. d' (joined root (fiPath img)) = d (joined root (fiPath img)) \<Longrightarrow>
   list_all (holds sha root d' digest) imgs = list_all (holds sha root d digest) imgs"
  by (rule list.pred_cong [OF refl]) (rule holds_cong, blast)

lemma published_cong:
  "\<forall>img \<in> set imgs. d' (joined root (fiPath img)) = d (joined root (fiPath img)) \<Longrightarrow> published sha root d imgs \<Longrightarrow> published sha root d' imgs"
  unfolding published_def
proof (elim exE conjE)
  fix front rear
  assume same: "\<forall>img \<in> set imgs. d' (joined root (fiPath img)) = d (joined root (fiPath img))" and parts: "imgs = front @ rear"
    "list_all (holds sha root d fiPostimageSHA256) front" "list_all (holds sha root d fiPreimageSHA256) rear"
  have "list_all (holds sha root d' fiPostimageSHA256) front = list_all (holds sha root d fiPostimageSHA256) front"
    "list_all (holds sha root d' fiPreimageSHA256) rear = list_all (holds sha root d fiPreimageSHA256) rear"
    using same parts(1) by (auto intro!: list_all_holds_cong)
  then show "\<exists>front rear. imgs = front @ rear \<and> list_all (holds sha root d' fiPostimageSHA256) front \<and> list_all (holds sha root d' fiPreimageSHA256) rear"
    using parts by blast
qed

section \<open>The loop forward\<close>

text \<open>The attempt writes nothing but targets, and only in the order of the images.\<close>

lemma publish_loop_step:
  assumes run: "publish_loop C E root intent (img # imgs) status d = (e, d')" and own: "\<forall>p. own_fate (seCas E p)"
    and true: "truthful (scSha C) root d (formalImages (riPreview intent)) status" "img \<in> set (formalImages (riPreview intent))"
    and ready: "ready (scSha C) root intent"
  obtains (stop) x where "e = Some x" "d' = d"
  | (skip) "holds (scSha C) root d fiPostimageSHA256 img" "publish_loop C E root intent imgs status d = (e, d')"
  | (wrote) x data where "e = Some x" "d' = d(joined root (fiPath img) \<mapsto> RegularFile data)" "scSha C data = fiPostimageSHA256 img"
      "holds (scSha C) root d fiPreimageSHA256 img"
  | (goes_on) status' data where "holds (scSha C) root d fiPreimageSHA256 img" "scSha C data = fiPostimageSHA256 img"
      "inspectIntent (scSha C) (seFs E) root (d(joined root (fiPath img) \<mapsto> RegularFile data)) intent True = Inr status'"
      "publish_loop C E root intent imgs status' (d(joined root (fiPath img) \<mapsto> RegularFile data)) = (e, d')"
proof -
  let ?p = "joined root (fiPath img)"
  let ?state = "tsState (targetStatus status (fiPath img))"
  show thesis
  proof (cases "?state = StatePostimage")
    case True
    then show thesis using run true skip by (auto simp: truthful_def Let_def)
  next
    case False
    show thesis
    proof (cases "(\<exists>x. (e, d') = (Some x, d))")
      case True
      then show thesis using stop by auto
    next
      case going: False
      then have pre: "?state = StatePreimage" using run False by (auto simp: Let_def split: if_splits)
      then have holds': "holds (scSha C) root d fiPreimageSHA256 img" using true by (auto simp: truthful_def)
      obtain data where data: "ReadStaged (scSha C) (seFs E) d root (riStaging intent) (fiPath img) = Inr data"
        using run going False pre by (auto simp: Let_def split: if_splits option.splits sum.splits)
      have post: "scSha C data = fiPostimageSHA256 img"
        using ReadStaged_digest [OF data] ready_D(4) [OF ready true(2)] by auto
      obtain r d1 where w: "write_cas (scSha C) (seCas E ?p) ?p data (fiPreimageSHA256 img) d = (r, d1)" by fastforce
      from write_cas_own [OF own [rule_format] w] show thesis
      proof (elim disjE conjE)
        assume "d1 = d" "r \<noteq> CasOk"
        then show thesis using run going False pre data w by (cases r) (auto simp: Let_def split: if_splits option.splits)
      next
        assume d1: "d1 = d(?p \<mapsto> RegularFile data)"
        show thesis
        proof (cases "\<exists>x. (e, d') = (Some x, d1)")
          case True
          then show thesis using wrote d1 post holds' by auto
        next
          case False
          then have "r = CasOk" using run going \<open>?state \<noteq> StatePostimage\<close> pre data w by (cases r) (auto simp: Let_def split: if_splits option.splits)
          then obtain status' where "inspectIntent (scSha C) (seFs E) root d1 intent True = Inr status'" "publish_loop C E root intent imgs status' d1 = (e, d')"
            using run going False \<open>?state \<noteq> StatePostimage\<close> pre data w by (auto simp: Let_def split: if_splits option.splits sum.splits)
          then show thesis using goes_on [OF holds' post] d1 by simp
        qed
      qed
    qed
  qed
qed

lemma published_append:
  "list_all (holds sha root d fiPostimageSHA256) xs \<Longrightarrow> published sha root d ys \<Longrightarrow> published sha root d (xs @ ys)"
  "published sha root d xs \<Longrightarrow> list_all (holds sha root d fiPreimageSHA256) ys \<Longrightarrow> published sha root d (xs @ ys)"
  unfolding published_def by (metis append.assoc list_all_append)+

lemma published_all: "list_all (holds sha root d fiPostimageSHA256) xs \<or> list_all (holds sha root d fiPreimageSHA256) xs \<Longrightarrow> published sha root d xs"
  unfolding published_def by (metis append_Nil append_Nil2 list.pred_inject(1))

lemma published_smaller: "published sha root d (x # xs) \<Longrightarrow> published sha root d xs" "published sha root d (xs @ [x]) \<Longrightarrow> published sha root d xs"
proof -
  show "published sha root d xs" if "published sha root d (x # xs)"
  proof -
    obtain front rear where f: "x # xs = front @ rear" "list_all (holds sha root d fiPostimageSHA256) front" "list_all (holds sha root d fiPreimageSHA256) rear"
      using \<open>published sha root d (x # xs)\<close> by (auto simp: published_def)
    show ?thesis
    proof (cases front)
      case Nil
      then have "xs = [] @ xs \<and> list_all (holds sha root d fiPostimageSHA256) [] \<and> list_all (holds sha root d fiPreimageSHA256) xs"
        using f by (auto simp: list_all_iff)
      then show ?thesis unfolding published_def by blast
    next
      case (Cons y ys)
      then have "xs = ys @ rear \<and> list_all (holds sha root d fiPostimageSHA256) ys" using f by simp
      then show ?thesis using f(3) unfolding published_def by blast
    qed
  qed
  show "published sha root d xs" if "published sha root d (xs @ [x])"
  proof -
    obtain front rear where f: "xs @ [x] = front @ rear" "list_all (holds sha root d fiPostimageSHA256) front" "list_all (holds sha root d fiPreimageSHA256) rear"
      using \<open>published sha root d (xs @ [x])\<close> by (auto simp: published_def)
    show ?thesis
    proof (cases rear rule: rev_cases)
      case Nil
      then have "list_all (holds sha root d fiPostimageSHA256) xs" using f by (metis append_Nil2 list_all_append)
      then show ?thesis using published_append(1) [of sha root d xs "[]"] by (simp add: published_def)
    next
      case (snoc ys y)
      then have "xs = front @ ys" using f(1) by simp
      then show ?thesis using f(2,3) snoc by (auto simp: published_def)
    qed
  qed
qed

text \<open>Writing one target leaves the others.\<close>

lemma write_target:
  assumes "ready sha root intent" "formalImages (riPreview intent) = xs @ img # ys"
  shows "\<forall>x \<in> set xs \<union> set ys. (d(joined root (fiPath img) \<mapsto> RegularFile data)) (joined root (fiPath x)) = d (joined root (fiPath x))"
    "sha data = digest img \<Longrightarrow> holds sha root (d(joined root (fiPath img) \<mapsto> RegularFile data)) digest img"
    "\<forall>p. p \<notin> set (target_paths root intent) \<longrightarrow> (d(joined root (fiPath img) \<mapsto> RegularFile data)) p = d p"
proof -
  have t: "joined root (fiPath img) \<in> set (target_paths root intent)" using assms(2) by (simp add: target_paths_def)
  have "distinct (target_paths root intent)" by (rule ready_D(3) [OF assms(1)])
  then show "\<forall>x \<in> set xs \<union> set ys. (d(joined root (fiPath img) \<mapsto> RegularFile data)) (joined root (fiPath x)) = d (joined root (fiPath x))"
  proof -
    assume "distinct (target_paths root intent)"
    then have "joined root (fiPath img) \<notin> (\<lambda>x. joined root (fiPath x)) ` (set xs \<union> set ys)"
      using assms(2) by (simp add: target_paths_def image_Un)
    then show ?thesis by (metis fun_upd_other imageI)
  qed
  show "sha data = digest img \<Longrightarrow> holds sha root (d(joined root (fiPath img) \<mapsto> RegularFile data)) digest img" by (simp add: holds_def)
  show "\<forall>p. p \<notin> set (target_paths root intent) \<longrightarrow> (d(joined root (fiPath img) \<mapsto> RegularFile data)) p = d p" using t by auto
qed

lemma publish_loop_published:
  assumes "publish_loop C E root intent rest status d = (e, d')" "\<forall>p. own_fate (seCas E p)"
    and "truthful (scSha C) root d (formalImages (riPreview intent)) status" "formalImages (riPreview intent) = front @ rest"
    and "ready (scSha C) root intent" "list_all (holds (scSha C) root d fiPostimageSHA256) front" "published (scSha C) root d rest"
  shows "published (scSha C) root d' (formalImages (riPreview intent)) \<and>
    (e = None \<longrightarrow> list_all (holds (scSha C) root d' fiPostimageSHA256) (formalImages (riPreview intent))) \<and>
    (\<forall>p. p \<notin> set (target_paths root intent) \<longrightarrow> d' p = d p)"
  using assms
proof (induction rest arbitrary: front status d)
  case (Cons img rest)
  let ?p = "joined root (fiPath img)"
  let ?d = "\<lambda>data. d(?p \<mapsto> RegularFile data)"
  have mem: "img \<in> set (formalImages (riPreview intent))" and dist: "distinct (map fiPath (formalImages (riPreview intent)))"
    using Cons.prems(4) ready_D(2) [OF Cons.prems(5)] by (simp, simp only:)
  have moved: "list_all (holds (scSha C) root (?d data) fiPostimageSHA256) (front @ [img])" "published (scSha C) root (?d data) rest"
    if "scSha C data = fiPostimageSHA256 img" for data
  proof -
    note w = write_target [OF Cons.prems(5,4), where d = d and data = data]
    have "list_all (holds (scSha C) root (?d data) fiPostimageSHA256) front"
      using list_all_holds_cong [of front "?d data" root d "scSha C" fiPostimageSHA256] w(1) Cons.prems(6) by blast
    then show "list_all (holds (scSha C) root (?d data) fiPostimageSHA256) (front @ [img])"
      using w(2) [where digest = fiPostimageSHA256, OF that] by simp
    show "published (scSha C) root (?d data) rest"
      by (rule published_cong [OF _ published_smaller(1) [OF Cons.prems(7)]]) (use w(1) in blast)
  qed
  from Cons.prems(1,2,3) mem Cons.prems(5) show ?case
  proof (cases rule: publish_loop_step)
    case stop
    then show ?thesis using Cons.prems published_append(1) [OF Cons.prems(6,7)] by simp
  next
    case skip
    show ?thesis
      by (rule Cons.IH [OF skip(2) Cons.prems(2,3), of "front @ [img]"])
        (use Cons.prems(4,5,6) skip(1) published_smaller(1) [OF Cons.prems(7)] in simp_all)
  next
    case (wrote x data)
    have "published (scSha C) root d' (front @ img # rest)"
      using published_append(1) [OF moved [OF wrote(3)]] wrote(2) by simp
    then show ?thesis using write_target(3) [OF Cons.prems(5,4), where d = d and data = data] Cons.prems(4) wrote(1,2) by (simp del: fun_upd_apply)
  next
    case (goes_on status' data)
    have "published (scSha C) root d' (formalImages (riPreview intent)) \<and>
      (e = None \<longrightarrow> list_all (holds (scSha C) root d' fiPostimageSHA256) (formalImages (riPreview intent))) \<and>
      (\<forall>p. p \<notin> set (target_paths root intent) \<longrightarrow> d' p = (?d data) p)"
      by (rule Cons.IH [OF goes_on(4) Cons.prems(2) inspectIntent_truthful [OF goes_on(3) dist], of "front @ [img]"])
        (use Cons.prems(4,5) write_target [OF Cons.prems(5,4), where d = d and data = data] moved [OF goes_on(2)] in \<open>simp_all del: fun_upd_apply\<close>)
    then show ?thesis using write_target(3) [OF Cons.prems(5,4), where d = d and data = data] by (auto simp del: fun_upd_apply)
  qed
qed (simp add: published_all)

section \<open>The loop back\<close>

lemma rollback_loop_published:
  assumes "rollback_loop C E root intent (rev rest) status d = (r, d')" "\<forall>p. own_fate (seCas E p)"
    and "truthful (scSha C) root d (formalImages (riPreview intent)) status" "formalImages (riPreview intent) = rest @ tail"
    and "ready (scSha C) root intent" "list_all (holds (scSha C) root d fiPreimageSHA256) tail" "published (scSha C) root d rest"
  shows "published (scSha C) root d' (formalImages (riPreview intent)) \<and>
    ((\<exists>recovered. r = Inr recovered) \<longrightarrow> list_all (holds (scSha C) root d' fiPreimageSHA256) (formalImages (riPreview intent))) \<and>
    (\<forall>p. p \<notin> set (target_paths root intent) \<longrightarrow> d' p = d p)"
  using assms
proof (induction rest arbitrary: tail status d r rule: rev_induct)
  case (snoc img rest)
  let ?p = "joined root (fiPath img)"
  let ?d = "\<lambda>data. d(?p \<mapsto> RegularFile data)"
  let ?imgs = "formalImages (riPreview intent)"
  let ?state = "tsState (targetStatus status (fiPath img))"
  let ?good = "\<lambda>d r d'. published (scSha C) root d' ?imgs \<and>
    ((\<exists>recovered. r = Inr recovered) \<longrightarrow> list_all (holds (scSha C) root d' fiPreimageSHA256) ?imgs) \<and>
    (\<forall>p. p \<notin> set (target_paths root intent) \<longrightarrow> d' p = d p)"
  have imgs: "?imgs = rest @ img # tail" using snoc.prems(4) by simp
  have mem: "img \<in> set ?imgs" and dist: "distinct (map fiPath ?imgs)" using imgs ready_D(2) [OF snoc.prems(5)] by (simp, simp only:)
  have stop: "?good d (Inl x) d" for x
    using snoc.prems(5) published_append(2) [OF snoc.prems(7,6)] imgs by simp
  have moved: "list_all (holds (scSha C) root (?d data) fiPreimageSHA256) (img # tail)" "published (scSha C) root (?d data) rest"
    if "scSha C data = fiPreimageSHA256 img" for data
  proof -
    note w = write_target [OF snoc.prems(5) imgs, where d = d and data = data]
    have "list_all (holds (scSha C) root (?d data) fiPreimageSHA256) tail"
      using list_all_holds_cong [of tail "?d data" root d "scSha C" fiPreimageSHA256] w(1) snoc.prems(6) by blast
    then show "list_all (holds (scSha C) root (?d data) fiPreimageSHA256) (img # tail)"
      using w(2) [where digest = fiPreimageSHA256, OF that] by simp
    show "published (scSha C) root (?d data) rest"
      by (rule published_cong [OF _ published_smaller(2) [OF snoc.prems(7)]]) (use w(1) in blast)
  qed
  have either: "holds (scSha C) root d fiPreimageSHA256 img \<or> holds (scSha C) root d fiPostimageSHA256 img"
    using snoc.prems(7) by (auto simp: published_def list_all_iff) (metis UnE in_set_conv_decomp set_append)
  have run: "rollback_loop C E root intent (img # rev rest) status d = (r, d')" using snoc.prems(1) by simp
  show ?case
  proof (cases "fiPreimageSHA256 img = fiPostimageSHA256 img \<or> ?state = StatePreimage")
    case True
    then have here: "holds (scSha C) root d fiPreimageSHA256 img" using either snoc.prems(3) mem by (auto simp: truthful_def holds_def)
    have "rollback_loop C E root intent (rev rest) status d = (r, d')" using run True by (auto simp: Let_def)
    then show ?thesis
      by (rule snoc.IH [OF _ snoc.prems(2,3) imgs snoc.prems(5)]) (use here snoc.prems(6) published_smaller(2) [OF snoc.prems(7)] in simp_all)
  next
    case False
    show ?thesis
    proof (cases "\<exists>x. (r, d') = (Inl x, d)")
      case True
      then show ?thesis using stop by auto
    next
      case going: False
      obtain pre where pre: "preimageFor (riPreimages intent) (fiPath img) = Some pre" "scSha C (fiPostimageBytes pre) = fiPreimageSHA256 img"
        using ready_D(5) [OF snoc.prems(5) mem] by blast
      obtain q d1 where w: "write_cas (scSha C) (seCas E ?p) ?p (fiPostimageBytes pre) (fiPostimageSHA256 img) d = (q, d1)" by fastforce
      from write_cas_own [OF snoc.prems(2) [rule_format] w] show ?thesis
      proof (elim disjE conjE)
        assume "d1 = d" "q \<noteq> CasOk"
        then show ?thesis using run going False pre w by (cases q) (auto simp: Let_def split: if_splits)
      next
        assume d1: "d1 = ?d (fiPostimageBytes pre)"
        note m = moved [OF pre(2)] and wt = write_target [OF snoc.prems(5) imgs, where d = d and data = "fiPostimageBytes pre"]
        have stopped: "?good d (Inl x) d1" for x
          using published_append(2) [OF m(2,1)] imgs wt(3) d1 by simp
        show ?thesis
        proof (cases "\<exists>x. (r, d') = (Inl x, d1)")
          case True
          then show ?thesis using stopped by auto
        next
          case False
          then have ok: "q = CasOk" using run going \<open>\<not> (fiPreimageSHA256 img = fiPostimageSHA256 img \<or> ?state = StatePreimage)\<close> pre w
            by (cases q) (auto simp: Let_def split: if_splits)
          then obtain status' r' where go: "inspectIntent (scSha C) (seFs E) root d1 intent True = Inr status'"
              "rollback_loop C E root intent (rev rest) status' d1 = (r', d')" "r = map_sum id ((#) (fiPath img)) r'"
            using run going False \<open>\<not> (fiPreimageSHA256 img = fiPostimageSHA256 img \<or> ?state = StatePreimage)\<close> pre w
            by (auto simp: Let_def split: if_splits sum.splits prod.splits)
          have "?good d1 r' d'"
            by (rule snoc.IH [OF go(2) snoc.prems(2) inspectIntent_truthful [OF go(1) dist] imgs]) (use snoc.prems(5) m d1 in \<open>simp_all del: fun_upd_apply\<close>)
          moreover have "(\<exists>x. r = Inr x) \<longrightarrow> (\<exists>x. r' = Inr x)" using go(3) by (cases r') auto
          ultimately show ?thesis using wt(3) d1 by (auto simp del: fun_upd_apply)
        qed
      qed
    qed
  qed
qed (simp add: published_all)

end
