(* ===== verification/Change_Run_Laws.thy ===== *)
theory Change_Run_Laws
  imports Change_Txn_Laws
begin

text \<open>
  Runs of the scope transaction: after the intent is written, any number of attempts to resume and to roll back, each of which may fail at any
  system call, at any fault point and at either side of any exchange. The formal files that are published are always those at the front of the order,
  the Baseline last; and as long as they are neither all published nor all as before, the intent is on disk.
\<close>

section \<open>What follows the loops\<close>

definition intent_recorded :: "'r scope_codec \<Rightarrow> path \<Rightarrow> 'r RecoveryIntent \<Rightarrow> fsys \<Rightarrow> bool" where
  "intent_recorded C root intent d \<longleftrightarrow> os_ReadFile calm_env d (intentPath root (riTransactionID intent)) = FileBytes (scIntent C intent)"

definition archived :: "'r scope_codec \<Rightarrow> path \<Rightarrow> 'r RecoveryIntent \<Rightarrow> fsys \<Rightarrow> bool" where
  "archived C root intent d \<longleftrightarrow> d (intentPath root (riTransactionID intent)) = None \<and>
     os_ReadFile calm_env d (archivePath root (riTransactionID intent)) = FileBytes (scIntent C intent)"

definition others_kept :: "path \<Rightarrow> 'r RecoveryIntent \<Rightarrow> fsys \<Rightarrow> fsys \<Rightarrow> bool" where
  "others_kept root intent d d' \<longleftrightarrow> (\<forall>p. d p \<noteq> None \<and> p \<noteq> intentPath root (riTransactionID intent) \<longrightarrow> d' p = d p)"

lemma save_mono: "undisturbed env \<Longrightarrow> SaveImmutable sha env p data d = (r, d') \<Longrightarrow> d \<subseteq>\<^sub>m d'"
  by (erule save_outcomes) (auto simp: map_le_def)

lemma save_reads: "undisturbed env \<Longrightarrow> SaveImmutable sha env p data d = (None, d') \<Longrightarrow> os_ReadFile calm_env d' p = FileBytes data"
  by (erule (1) save_outcomes) (auto dest: read_ok_calm, simp add: os_ReadFile_def)

lemma saveResult_mono:
  assumes "undisturbed env" "saveResult C env root tid result d = (r, d')"
  shows "d \<subseteq>\<^sub>m d'"
proof -
  obtain e d1 where dirs: "EnsureSafeDirectory env root (''.aoci/transactions/scope-'' @ tid) d = (e, d1)" by fastforce
  then have first: "d \<subseteq>\<^sub>m d1" using ensure_mono by (simp add: EnsureSafeDirectory_def)
  show ?thesis
  proof (cases e)
    case None
    then have "SaveImmutable (scSha C) env (resultPath root tid (reStatus result)) (scResult C result) d1 = (r, d')"
      using assms(2) dirs by (simp add: saveResult_def)
    then show ?thesis using first save_mono [OF assms(1)] map_le_trans by blast
  qed (use assms(2) dirs first in \<open>simp add: saveResult_def\<close>)
qed

lemma recorded_mono: "intent_recorded C root intent d \<Longrightarrow> d \<subseteq>\<^sub>m d' \<Longrightarrow> intent_recorded C root intent d'"
  using map_leD by (fastforce simp: intent_recorded_def os_ReadFile_def split: option.splits)

lemma others_mono: "d \<subseteq>\<^sub>m d' \<Longrightarrow> others_kept root intent d d'"
  by (auto simp: others_kept_def map_le_def dom_def)

lemma others_trans: "d \<subseteq>\<^sub>m d1 \<Longrightarrow> others_kept root intent d1 d' \<Longrightarrow> others_kept root intent d d'"
  unfolding others_kept_def map_le_def dom_def by (metis (mono_tags, lifting) mem_Collect_eq)

lemma archive_effect:
  assumes "undisturbed (seFs E)" "archive_intent C E root intent d = (r, d')" "intent_recorded C root intent d"
    and "intentPath root (riTransactionID intent) \<noteq> archivePath root (riTransactionID intent)"
  shows "(intent_recorded C root intent d' \<and> r \<noteq> None \<or> archived C root intent d') \<and> others_kept root intent d d'"
  using assms(1) assms(2) [unfolded archive_intent_def] assms(4)
proof (cases rule: archive_cases)
  case same
  have "r \<noteq> None"
  proof
    assume "r = None"
    then have "os_ReadFile (seFs E) d (intentPath root (riTransactionID intent)) = FileNotExist" using same(2) by simp
    then have "os_ReadFile calm_env d (intentPath root (riTransactionID intent)) = FileNotExist" using read_ok_calm by fastforce
    then show False using assms(3) by (simp add: intent_recorded_def os_ReadFile_def)
  qed
  then show ?thesis using same(1) assms(3) by (simp add: others_kept_def)
next
  case removed
  then show ?thesis using assms(4) by (auto simp: archived_def others_kept_def os_ReadFile_def)
next
  case copied
  then show ?thesis using assms(3,4) by (auto simp: archived_def intent_recorded_def others_kept_def os_ReadFile_def)
qed

text \<open>Both completions save the result, append to the ledger and archive the intent, and stop at the first that fails.\<close>

definition completion ::
  "'r scope_codec \<Rightarrow> 'r scope_env \<Rightarrow> path \<Rightarrow> 'r RecoveryIntent \<Rightarrow> ChangeResult \<Rightarrow> fsys \<Rightarrow> (txn_error, ChangeResult) result \<Rightarrow> fsys \<Rightarrow> bool" where
  "completion C E root intent result d r d' \<longleftrightarrow>
     (let (e, d1) = saveResult C (seFs E) root (riTransactionID intent) result d; (a, d2) = archive_intent C E root intent d1 in
      isl r \<and> (d' = d \<or> d' = d1) \<or> d' = d2 \<and> (a = None \<or> isl r))"

lemma complete_advance_completion:
  assumes "complete_advance C E root intent s = (r, s')"
  shows "completion C E root intent (resultFor intent ''applied'' []) (ssFiles s) r (ssFiles s')"
proof -
  obtain e d where save: "saveResult C (seFs E) root (riTransactionID intent) (resultFor intent ''applied'' []) (ssFiles s) = (e, d)" by fastforce
  obtain a d' where arch: "archive_intent C E root intent d = (a, d')" by fastforce
  have goal: ?thesis if "isl r \<and> (ssFiles s' = ssFiles s \<or> ssFiles s' = d) \<or> ssFiles s' = d' \<and> (a = None \<or> isl r)"
    using that save arch by (simp add: completion_def)
  note run = assms [unfolded complete_advance_def Let_def save prod.case]
  show ?thesis
  proof (cases "internalVerify C E root intent (ssFiles s)")
    case None
    note run = run [unfolded None option.case]
    show ?thesis
    proof (cases e)
      case ok: None
      note run = run [unfolded ok option.case]
      show ?thesis
      proof (cases "seConfig E d")
        case (Some cfg)
        obtain lf le where "ensure_ledger C E (cgLedgerEnabled cfg) (apply_event intent) (ssLedger s) = (lf, le)" by fastforce
        then show ?thesis using run goal Some arch by (auto split: if_splits option.splits)
      qed (use run goal in \<open>auto split: if_splits\<close>)
    qed (use run goal in auto)
  qed (use run goal in auto)
qed

lemma complete_rollback_completion:
  assumes "complete_rollback C E root intent recovered s = (r, s')"
  shows "\<exists>result. completion C E root intent result (ssFiles s) r (ssFiles s')"
proof -
  define result where "result = (resultFor intent ''rolled_back'' [])\<lparr>reRecoveredPaths := recovered,
            reIndexSHA256 := fiPreimageSHA256 (pvIndexPostimage (riPreview intent)),
            reBaselineSHA256 := fiPreimageSHA256 (pvBaselinePostimage (riPreview intent)), reRecoveryAvailable := False\<rparr>"
  obtain e d where save: "saveResult C (seFs E) root (riTransactionID intent) result (ssFiles s) = (e, d)" by fastforce
  obtain a d' where arch: "archive_intent C E root intent d = (a, d')" by fastforce
  have goal: ?thesis if "isl r \<and> (ssFiles s' = ssFiles s \<or> ssFiles s' = d) \<or> ssFiles s' = d' \<and> (a = None \<or> isl r)"
    using that save arch by (intro exI [of _ result]) (simp add: completion_def)
  note run = assms [unfolded complete_rollback_def Let_def, folded result_def, unfolded save prod.case]
  show ?thesis
  proof (cases e)
    case None
    note run = run [unfolded None option.case]
    show ?thesis
    proof (cases "seConfig E d")
      case (Some cfg)
      obtain lf le where "ensure_ledger C E (cgLedgerEnabled cfg) (rollback_event intent recovered) (ssLedger s) = (lf, le)" by fastforce
      then show ?thesis using run goal Some arch by (auto split: if_splits option.splits)
    qed (use run goal in auto)
  qed (use run goal in auto)
qed

lemma completion_effect:
  assumes "completion C E root intent result d r d'" "undisturbed (seFs E)" "intent_recorded C root intent d" "separate root intent"
  shows "(intent_recorded C root intent d' \<and> isl r \<or> archived C root intent d') \<and> others_kept root intent d d'"
proof -
  have different: "intentPath root (riTransactionID intent) \<noteq> archivePath root (riTransactionID intent)" using assms(4) by (simp add: separate_def)
  obtain e d1 where save: "saveResult C (seFs E) root (riTransactionID intent) result d = (e, d1)" by fastforce
  obtain a d2 where arch: "archive_intent C E root intent d1 = (a, d2)" by fastforce
  note grown = saveResult_mono [OF assms(2) save]
  note kept = recorded_mono [OF assms(3) grown] others_mono [OF grown, of root intent]
  note last = archive_effect [OF assms(2) arch kept(1) different]
  have same: "others_kept root intent d d" by (simp add: others_kept_def)
  from assms(1) save arch have "isl r \<and> (d' = d \<or> d' = d1) \<or> d' = d2 \<and> (a = None \<or> isl r)" by (simp add: completion_def)
  then show ?thesis
    by (elim disjE conjE) (use assms(3) same kept last others_trans [OF grown] in auto)
qed

section \<open>One attempt\<close>

text \<open>No other program touches the repository: system calls, fault points and exchanges may fail as they like.\<close>

definition alone :: "'r scope_env \<Rightarrow> bool" where
  "alone E \<longleftrightarrow> undisturbed (seFs E) \<and> (\<forall>p. own_fate (seCas E p)) \<and> seWaiting E = id"

lemma published_there: "published sha root d imgs \<Longrightarrow> img \<in> set imgs \<Longrightarrow> d (joined root (fiPath img)) \<noteq> None"
  unfolding published_def list_all_iff holds_def by fastforce

lemma others_published:
  assumes "others_kept root intent d d'" "separate root intent" "published sha root d (formalImages (riPreview intent))"
  shows "published sha root d' (formalImages (riPreview intent))"
    "list_all (holds sha root d' digest) (formalImages (riPreview intent)) = list_all (holds sha root d digest) (formalImages (riPreview intent))"
proof -
  have same: "\<forall>img \<in> set (formalImages (riPreview intent)). d' (joined root (fiPath img)) = d (joined root (fiPath img))"
  proof
    fix img
    assume img: "img \<in> set (formalImages (riPreview intent))"
    then have "joined root (fiPath img) \<in> set (target_paths root intent)" by (simp add: target_paths_def)
    then have "joined root (fiPath img) \<noteq> intentPath root (riTransactionID intent)" using assms(2) by (auto simp: separate_def)
    then show "d' (joined root (fiPath img)) = d (joined root (fiPath img))"
      using assms(1) published_there [OF assms(3) img] by (simp add: others_kept_def)
  qed
  show "published sha root d' (formalImages (riPreview intent))" by (rule published_cong [OF same assms(3)])
  show "list_all (holds sha root d' digest) (formalImages (riPreview intent)) = list_all (holds sha root d digest) (formalImages (riPreview intent))"
    by (rule list_all_holds_cong [OF same])
qed

lemma targets_recorded: "intent_recorded C root intent d \<Longrightarrow> separate root intent \<Longrightarrow> \<forall>p. p \<notin> set (target_paths root intent) \<longrightarrow> d' p = d p \<Longrightarrow> intent_recorded C root intent d'"
  by (simp add: intent_recorded_def separate_def os_ReadFile_def)

text \<open>What a failed or completed attempt in the direction of \<open>digest\<close> leaves.\<close>

definition attempted ::
  "'r scope_codec \<Rightarrow> path \<Rightarrow> 'r RecoveryIntent \<Rightarrow> (FormalImage \<Rightarrow> string) \<Rightarrow> (txn_error, ChangeResult) result \<Rightarrow> fsys \<Rightarrow> bool" where
  "attempted C root intent digest r d \<longleftrightarrow>
     published (scSha C) root d (formalImages (riPreview intent)) \<and>
     (intent_recorded C root intent d \<and> isl r \<or> archived C root intent d \<and> list_all (holds (scSha C) root d digest) (formalImages (riPreview intent)))"

lemma completion_attempted:
  assumes "completion C E root intent result d r d'" "undisturbed (seFs E)" "intent_recorded C root intent d"
    and "ready (scSha C) root intent" "published (scSha C) root d (formalImages (riPreview intent))"
    and "list_all (holds (scSha C) root d digest) (formalImages (riPreview intent))"
  shows "attempted C root intent digest r d'"
proof -
  have sep: "separate root intent" using assms(4) by (simp add: ready_def)
  note c = completion_effect [OF assms(1-3) sep]
  note o = others_published [OF conjunct2 [OF c] sep assms(5)]
  show ?thesis unfolding attempted_def using c o assms(6) by blast
qed

lemma advance_attempted:
  assumes "advance C E root intent s = (r, s')" "alone E" "intent_recorded C root intent (ssFiles s)"
    and "ready (scSha C) root intent" "published (scSha C) root (ssFiles s) (formalImages (riPreview intent))"
  shows "attempted C root intent fiPostimageSHA256 r (ssFiles s')"
proof -
  let ?imgs = "formalImages (riPreview intent)"
  have own: "undisturbed (seFs E)" "\<forall>p. own_fate (seCas E p)" using assms(2) by (simp_all add: alone_def)
  have sep: "separate root intent" using assms(4) by (simp add: ready_def)
  have unchanged: ?thesis if "isl r" "s' = s" using that assms(3-5) by (simp add: attempted_def)
  show ?thesis
  proof (cases "inspectIntent (scSha C) (seFs E) root (ssFiles s) intent True")
    case (Inr status)
    show ?thesis
    proof (cases "stThirdPartyConflict status")
      case False
      obtain e d where loop: "publish_loop C E root intent ?imgs status (ssFiles s) = (e, d)" by fastforce
      have "published (scSha C) root d ?imgs \<and> (e = None \<longrightarrow> list_all (holds (scSha C) root d fiPostimageSHA256) ?imgs) \<and>
          (\<forall>p. p \<notin> set (target_paths root intent) \<longrightarrow> d p = ssFiles s p)"
        by (rule publish_loop_published [OF loop own(2) inspectIntent_truthful [OF Inr], of "[]"]) (use assms(4,5) ready_D(2) [OF assms(4)] in simp_all)
      then have l: "published (scSha C) root d ?imgs" "e = None \<Longrightarrow> list_all (holds (scSha C) root d fiPostimageSHA256) ?imgs"
          "intent_recorded C root intent d" using targets_recorded [OF assms(3) sep] by blast+
      show ?thesis
      proof (cases e)
        case None
        then have "complete_advance C E root intent (s\<lparr>ssFiles := d\<rparr>) = (r, s')" using assms(1) Inr False loop by (simp add: advance_def)
        from complete_advance_completion [OF this] show ?thesis
          using completion_attempted [OF _ own(1) l(3) assms(4) l(1) l(2) [OF None]] by simp
      next
        case (Some x)
        then have "r = Inl x" "ssFiles s' = d" using assms(1) Inr False loop by (auto simp: advance_def)
        then show ?thesis using l by (simp add: attempted_def)
      qed
    qed (use unchanged assms(1) Inr in \<open>auto simp: advance_def\<close>)
  qed (use unchanged assms(1) in \<open>auto simp: advance_def\<close>)
qed

lemma rollback_attempted:
  assumes "rollback_intent C E root intent s = (r, s')" "alone E" "intent_recorded C root intent (ssFiles s)"
    and "ready (scSha C) root intent" "published (scSha C) root (ssFiles s) (formalImages (riPreview intent))"
  shows "attempted C root intent fiPreimageSHA256 r (ssFiles s')"
proof -
  let ?imgs = "formalImages (riPreview intent)"
  have own: "undisturbed (seFs E)" "\<forall>p. own_fate (seCas E p)" using assms(2) by (simp_all add: alone_def)
  have sep: "separate root intent" using assms(4) by (simp add: ready_def)
  have unchanged: ?thesis if "isl r" "s' = s" using that assms(3-5) by (simp add: attempted_def)
  show ?thesis
  proof (cases "inspectIntent (scSha C) (seFs E) root (ssFiles s) intent True")
    case (Inr status)
    show ?thesis
    proof (cases "stThirdPartyConflict status")
      case False
      obtain q d where loop: "rollback_loop C E root intent (rev ?imgs) status (ssFiles s) = (q, d)" by fastforce
      have "published (scSha C) root d ?imgs \<and> ((\<exists>x. q = Inr x) \<longrightarrow> list_all (holds (scSha C) root d fiPreimageSHA256) ?imgs) \<and>
          (\<forall>p. p \<notin> set (target_paths root intent) \<longrightarrow> d p = ssFiles s p)"
        by (rule rollback_loop_published [OF loop own(2) inspectIntent_truthful [OF Inr], of "[]"]) (use assms(4,5) ready_D(2) [OF assms(4)] in simp_all)
      then have l: "published (scSha C) root d ?imgs"
          "\<exists>x. q = Inr x \<Longrightarrow> list_all (holds (scSha C) root d fiPreimageSHA256) ?imgs" "intent_recorded C root intent d"
        using targets_recorded [OF assms(3) sep] by blast+
      show ?thesis
      proof (cases q)
        case (Inr recovered)
        then have "complete_rollback C E root intent recovered (s\<lparr>ssFiles := d\<rparr>) = (r, s')"
          using assms(1) \<open>inspectIntent (scSha C) (seFs E) root (ssFiles s) intent True = Inr status\<close> False loop by (simp add: rollback_intent_def)
        from complete_rollback_completion [OF this] show ?thesis
          using completion_attempted [OF _ own(1) l(3) assms(4) l(1) l(2)] Inr by auto
      next
        case (Inl x)
        then have "r = Inl x" "ssFiles s' = d"
          using assms(1) \<open>inspectIntent (scSha C) (seFs E) root (ssFiles s) intent True = Inr status\<close> False loop by (auto simp: rollback_intent_def)
        then show ?thesis using l by (simp add: attempted_def)
      qed
    qed (use unchanged assms(1) Inr in \<open>auto simp: rollback_intent_def\<close>)
  qed (use unchanged assms(1) in \<open>auto simp: rollback_intent_def\<close>)
qed

section \<open>The start\<close>

lemma holds_mono: "holds sha root d digest img \<Longrightarrow> d \<subseteq>\<^sub>m d' \<Longrightarrow> holds sha root d' digest img"
  using map_leD by (fastforce simp: holds_def)

lemma classified_preimages:
  assumes "classifyPreviewPreimages sha env root d preview = None" "img \<in> set (formalImages preview)"
  shows "holds sha root d fiPreimageSHA256 img"
proof -
  have none: "\<not> (case Classify sha env d (joined root (fiPath img)) (fiPreimageSHA256 img) (fiPostimageSHA256 img) False of
      Inl _ \<Rightarrow> True
    | Inr (state, _) \<Rightarrow> state \<noteq> StatePreimage \<and> \<not> (fiPreimageSHA256 img = fiPostimageSHA256 img \<and> state = StatePostimage))"
    using assms unfolding classifyPreviewPreimages_def find_None_iff map_option_is_None by blast
  obtain state actual where c: "Classify sha env d (joined root (fiPath img)) (fiPreimageSHA256 img) (fiPostimageSHA256 img) False = Inr (state, actual)"
      "state = StatePreimage \<or> fiPreimageSHA256 img = fiPostimageSHA256 img \<and> state = StatePostimage"
    using none by (cases "Classify sha env d (joined root (fiPath img)) (fiPreimageSHA256 img) (fiPostimageSHA256 img) False") auto
  then show ?thesis using Classify_holds [OF c(1)] by (auto simp: holds_def)
qed

lemma captured:
  "capture_loop sha env root d imgs = Inr pres \<Longrightarrow>
   list_all2 (\<lambda>img pre. sha (fiPostimageBytes pre) = fiPreimageSHA256 img) imgs pres \<and> map fiPath pres = map fiPath imgs"
proof (induction imgs arbitrary: pres)
  case (Cons img imgs)
  then show ?case by (cases "capture_loop sha env root d imgs") (auto split: file_read.splits if_splits)
qed simp

lemma staged_positions:
  "list_all2 (\<lambda>img item. sgSHA256 item = fiPostimageSHA256 img) imgs
     (map (\<lambda>(n, post). staged_of base n post) (enumerate k (map (\<lambda>img. \<lparr>poPath = fiPath img, poSHA = fiPostimageSHA256 img, poData = fiPostimageBytes img\<rparr>) imgs))) \<and>
   map sgPath (map (\<lambda>(n, post). staged_of base n post)
     (enumerate k (map (\<lambda>img. \<lparr>poPath = fiPath img, poSHA = fiPostimageSHA256 img, poData = fiPostimageBytes img\<rparr>) imgs))) = map fiPath imgs"
  by (induction imgs arbitrary: k) simp_all

text \<open>A transaction that has started: its parts are bound together, the intent is on disk and no target is touched.\<close>

lemma start_change_parts:
  assumes "start_change C E root preview approval bound s = (Inr intent, s')"
  obtains d1 d2 where
    "classifyPreviewPreimages (scSha C) (seFs E) root (ssFiles s) preview = None"
    "EnsureSafeDirectory (seFs E) root ''.aoci/transactions/history'' (ssFiles s) = (None, d1)"
    "capture_loop (scSha C) (seFs E) root d1 (formalImages preview) = Inr (riPreimages intent)"
    "Stage (scSha C) (seFs E) (seFault E) root ScopeOperation (take 24 (pvEnvelopeDigest preview)) (formal_posts preview) d1 = (Inr (riStaging intent), d2)"
    "SaveImmutable (scSha C) (seFs E) (intentPath root (riTransactionID intent)) (scIntent C intent) d2 = (None, ssFiles s')"
    "riRecoveryDigest intent = recoveryIdentity C intent" "riVersion intent = ''managed-scope-change-recovery/v2''"
    "riOperation intent = ScopeOperation" "riTransactionID intent = take 24 (pvEnvelopeDigest preview)"
    "riPreview intent = preview" "riApproval intent = approval" "riPolicyBoundApproval intent = bound"
proof -
  define createdAt where "createdAt = (case approval of Some a \<Rightarrow> avApprovedAt a
    | None \<Rightarrow> (case bound of Some r \<Rightarrow> pbCreatedAt r | None \<Rightarrow> cpPreparedAt (pvPlan preview)))"
  note run = assms [unfolded start_change_def capturePreimages_def Let_def, folded createdAt_def]
  obtain e1 d1 where dir: "EnsureSafeDirectory (seFs E) root ''.aoci/transactions/history'' (ssFiles s) = (e1, d1)" by fastforce
  obtain r2 d2 where stage: "Stage (scSha C) (seFs E) (seFault E) root ScopeOperation (take 24 (pvEnvelopeDigest preview)) (formal_posts preview) d1 = (r2, d2)"
    by fastforce
  have c: "classifyPreviewPreimages (scSha C) (seFs E) root (ssFiles s) preview = None" "e1 = None"
    "\<exists>pres. capture_loop (scSha C) (seFs E) root d1 (formalImages preview) = Inr pres" "\<exists>staging. r2 = Inr staging"
    "(case bound of None \<Rightarrow> None | Some r \<Rightarrow> validatePolicyBoundApprovalLive C E root (ssFiles s) preview r) = None"
    using run dir stage by (auto split: if_splits option.splits sum.splits prod.splits)
  then obtain pres staging where p: "capture_loop (scSha C) (seFs E) root d1 (formalImages preview) = Inr pres" "r2 = Inr staging" by blast
  define bare where "bare = \<lparr>riVersion = ''managed-scope-change-recovery/v2'', riOperation = ScopeOperation, riTransactionID = take 24 (pvEnvelopeDigest preview),
    riPreview = preview, riApproval = approval, riPolicyBoundApproval = bound, riStaging = staging, riPreimages = pres, riCreatedAt = createdAt, riRecoveryDigest = []\<rparr>"
  have last: "SaveImmutable (scSha C) (seFs E) (intentPath root (take 24 (pvEnvelopeDigest preview))) (scIntent C (bare\<lparr>riRecoveryDigest := recoveryIdentity C bare\<rparr>)) d2 = (None, ssFiles s')"
    "intent = bare\<lparr>riRecoveryDigest := recoveryIdentity C bare\<rparr>"
    using run dir stage c p by (auto simp: bare_def split: if_splits option.splits prod.splits)
  show thesis
    by (rule that [of d1 d2]) (use c dir stage p last in \<open>simp_all add: recoveryIdentity_def\<close>, simp_all add: bare_def)
qed

lemma start_ready:
  assumes "start_change C E root preview approval bound s = (Inr intent, s')" "undisturbed (seFs E)" "separate root intent"
  shows "ready (scSha C) root intent" "intent_recorded C root intent (ssFiles s')"
    "list_all (holds (scSha C) root (ssFiles s') fiPreimageSHA256) (formalImages preview)" "riPreview intent = preview"
proof -
  obtain d1 d2 where 1:
    "classifyPreviewPreimages (scSha C) (seFs E) root (ssFiles s) preview = None"
    "EnsureSafeDirectory (seFs E) root ''.aoci/transactions/history'' (ssFiles s) = (None, d1)"
    "capture_loop (scSha C) (seFs E) root d1 (formalImages preview) = Inr (riPreimages intent)"
    "Stage (scSha C) (seFs E) (seFault E) root ScopeOperation (take 24 (pvEnvelopeDigest preview)) (formal_posts preview) d1 = (Inr (riStaging intent), d2)"
    "SaveImmutable (scSha C) (seFs E) (intentPath root (riTransactionID intent)) (scIntent C intent) d2 = (None, ssFiles s')"
    "riPreview intent = preview"
    using start_change_parts [OF assms(1)] by metis
  have mono: "ssFiles s \<subseteq>\<^sub>m d1" "d1 \<subseteq>\<^sub>m d2" "d2 \<subseteq>\<^sub>m ssFiles s'"
    using 1(2) ensure_mono Stage_staged(1) [OF assms(2) 1(4)] save_mono [OF assms(2) 1(5)] by (auto simp: EnsureSafeDirectory_def)
  show pv: "riPreview intent = preview" by (rule 1(6))
  show "list_all (holds (scSha C) root (ssFiles s') fiPreimageSHA256) (formalImages preview)"
    unfolding list_all_iff using classified_preimages [OF 1(1)] holds_mono mono map_le_trans by blast
  show "intent_recorded C root intent (ssFiles s')"
    using save_reads [OF assms(2) 1(5)] by (simp add: intent_recorded_def)
  have dist: "distinct (map fiPath (formalImages preview))" using assms(3) pv by (simp add: separate_def)
  have staging: "riStaging intent = map (\<lambda>(n, post). staged_of (stage_base ScopeOperation (take 24 (pvEnvelopeDigest preview))) n post) (enumerate 0 (formal_posts preview))"
    using Stage_staged(2) [OF assms(2) 1(4)] by simp
  note pos = staged_positions [of "formalImages preview" "stage_base ScopeOperation (take 24 (pvEnvelopeDigest preview))" 0, folded formal_posts_def, folded staging]
  have "\<exists>item. find (\<lambda>item. sgPath item = fiPath img) (riStaging intent) = Some item \<and> sgSHA256 item = fiPostimageSHA256 img"
    if "img \<in> set (formalImages preview)" for img
    by (rule find_same_position [OF conjunct1 [OF pos] conjunct2 [OF pos] dist that])
  moreover have "\<exists>pre. preimageFor (riPreimages intent) (fiPath img) = Some pre \<and> scSha C (fiPostimageBytes pre) = fiPreimageSHA256 img"
    if "img \<in> set (formalImages preview)" for img
    using find_same_position [OF conjunct1 [OF captured [OF 1(3)]] conjunct2 [OF captured [OF 1(3)]] dist that] by (simp add: preimageFor_def)
  ultimately show "ready (scSha C) root intent" using assms(3) pv by (simp add: ready_def)
qed

end
