(* ===== verification/Change_Recovery_Laws.thy ===== *)
theory Change_Recovery_Laws
  imports Change_Run_Laws
begin

text \<open>
  The properties of the scope transaction as a whole: the order of publication along every run, the intent that outlives every stop, the way back,
  and the files no attempt touches.
\<close>

section \<open>Runs\<close>

text \<open>Any number of calls of \<open>Resume\<close> and \<open>Rollback\<close>, each in an environment of its own.\<close>

inductive scope_run :: "'r scope_codec \<Rightarrow> path \<Rightarrow> string \<Rightarrow> scope_state \<Rightarrow> scope_state \<Rightarrow> bool" for C root tid s0 where
  started: "scope_run C root tid s0 s0"
| resumed: "scope_run C root tid s0 s \<Longrightarrow> alone E \<Longrightarrow> scope_run C root tid s0 (snd (Resume C E root tid s))"
| rolled_back: "scope_run C root tid s0 s \<Longrightarrow> alone E \<Longrightarrow> scope_run C root tid s0 (snd (Rollback C E root tid s))"

lemma load_missing: "d p = None \<Longrightarrow> \<exists>e. loadIntentAt C env d p tid = Inl e"
  by (auto simp: loadIntentAt_def os_ReadFile_def)

lemma load_recorded:
  assumes "loadIntentAt C env d (intentPath root (riTransactionID intent)) tid = Inr loaded" "intent_recorded C root intent d"
    and "scDecodeIntent C (scIntent C intent) = Some intent"
  shows "loaded = intent"
proof -
  have "os_ReadFile env d (intentPath root (riTransactionID intent)) \<in> {FileBytes (scIntent C intent), FileError}"
    using Read_calm [of env d "intentPath root (riTransactionID intent)"] assms(2) by (auto simp: intent_recorded_def)
  then show ?thesis using assms(1,3) by (auto simp: loadIntentAt_def split: if_splits)
qed

text \<open>A call of \<open>Resume\<close> or \<open>Rollback\<close> leaves everything as it is, or makes one attempt with the intent on disk.\<close>

lemma Resume_cases:
  assumes "alone E"
  shows "snd (Resume C E root tid s) = s \<or>
    (\<exists>intent. loadIntentAt C (seFs E) (ssFiles s) (intentPath root tid) tid = Inr intent \<and> Resume C E root tid s = advance C E root intent s)"
proof -
  have "seWaiting E s = s" using assms by (simp add: alone_def)
  then show ?thesis
    by (cases "reject_pending E (ssFiles s) (intentFilename tid)"; cases "loadIntentAt C (seFs E) (ssFiles s) (intentPath root tid) tid")
      (simp_all add: Resume_def Let_def)
qed

lemma Rollback_cases:
  assumes "alone E"
  shows "snd (Rollback C E root tid s) = s \<or>
    (\<exists>intent. loadIntentAt C (seFs E) (ssFiles s) (intentPath root tid) tid = Inr intent \<and> Rollback C E root tid s = rollback_intent C E root intent s)"
proof -
  have "seWaiting E s = s" using assms by (simp add: alone_def)
  then show ?thesis
    by (cases "reject_pending E (ssFiles s) (intentFilename tid)"; cases "loadIntentAt C (seFs E) (ssFiles s) (intentPath root tid) tid")
      (simp_all add: Rollback_def Let_def)
qed

text \<open>Files and intent fit together.\<close>

definition consistent :: "'r scope_codec \<Rightarrow> path \<Rightarrow> 'r RecoveryIntent \<Rightarrow> fsys \<Rightarrow> bool" where
  "consistent C root intent d \<longleftrightarrow> published (scSha C) root d (formalImages (riPreview intent)) \<and>
     (intent_recorded C root intent d \<or> archived C root intent d \<and>
       (list_all (holds (scSha C) root d fiPostimageSHA256) (formalImages (riPreview intent)) \<or>
        list_all (holds (scSha C) root d fiPreimageSHA256) (formalImages (riPreview intent))))"

lemma attempt_recorded:
  assumes "consistent C root intent (ssFiles s)" "loadIntentAt C env (ssFiles s) (intentPath root (riTransactionID intent)) tid = Inr loaded"
    and "scDecodeIntent C (scIntent C intent) = Some intent"
  shows "intent_recorded C root intent (ssFiles s)" "published (scSha C) root (ssFiles s) (formalImages (riPreview intent))" "loaded = intent"
proof -
  have "ssFiles s (intentPath root (riTransactionID intent)) \<noteq> None" using assms(2) load_missing [of "ssFiles s" _ C env tid] by force
  then show rec: "intent_recorded C root intent (ssFiles s)" "published (scSha C) root (ssFiles s) (formalImages (riPreview intent))"
    using assms(1) by (auto simp: consistent_def archived_def)
  show "loaded = intent" by (rule load_recorded [OF assms(2) rec(1) assms(3)])
qed

lemma attempted_consistent: "attempted C root intent digest r d \<Longrightarrow> digest = fiPostimageSHA256 \<or> digest = fiPreimageSHA256 \<Longrightarrow> consistent C root intent d"
  by (auto simp: attempted_def consistent_def)

lemma run_consistent:
  assumes "scope_run C root (riTransactionID intent) s0 s" "consistent C root intent (ssFiles s0)" "ready (scSha C) root intent"
    and "scDecodeIntent C (scIntent C intent) = Some intent"
  shows "consistent C root intent (ssFiles s)"
  using assms(1)
proof induction
  case (resumed s E)
  from Resume_cases [OF resumed.hyps(2), of C root "riTransactionID intent" s] show ?case
  proof (elim disjE exE conjE)
    fix loaded
    assume load: "loadIntentAt C (seFs E) (ssFiles s) (intentPath root (riTransactionID intent)) (riTransactionID intent) = Inr loaded"
      and res: "Resume C E root (riTransactionID intent) s = advance C E root loaded s"
    note rec = attempt_recorded [OF resumed.IH load assms(4)]
    obtain r s' where run: "advance C E root intent s = (r, s')" by fastforce
    show ?thesis using attempted_consistent [OF advance_attempted [OF run resumed.hyps(2) rec(1) assms(3) rec(2)]] res rec(3) run by simp
  qed (use resumed.IH in simp)
next
  case (rolled_back s E)
  from Rollback_cases [OF rolled_back.hyps(2), of C root "riTransactionID intent" s] show ?case
  proof (elim disjE exE conjE)
    fix loaded
    assume load: "loadIntentAt C (seFs E) (ssFiles s) (intentPath root (riTransactionID intent)) (riTransactionID intent) = Inr loaded"
      and res: "Rollback C E root (riTransactionID intent) s = rollback_intent C E root loaded s"
    note rec = attempt_recorded [OF rolled_back.IH load assms(4)]
    obtain r s' where run: "rollback_intent C E root intent s = (r, s')" by fastforce
    show ?thesis using attempted_consistent [OF rollback_attempted [OF run rolled_back.hyps(2) rec(1) assms(3) rec(2)]] res rec(3) run by simp
  qed (use rolled_back.IH in simp)
qed (rule assms(2))

lemma started_consistent:
  assumes "start_change C E root preview approval bound s = (Inr intent, s0)" "undisturbed (seFs E)" "separate root intent"
  shows "consistent C root intent (ssFiles s0)"
  using start_ready [OF assms] published_all by (auto simp: consistent_def)

lemma published_last:
  assumes "published sha root d (imgs @ [x])" "holds sha root d fiPostimageSHA256 x" "fiPreimageSHA256 x \<noteq> fiPostimageSHA256 x"
  shows "list_all (holds sha root d fiPostimageSHA256) (imgs @ [x])"
proof -
  obtain front rear where f: "imgs @ [x] = front @ rear" "list_all (holds sha root d fiPostimageSHA256) front" "list_all (holds sha root d fiPreimageSHA256) rear"
    using assms(1) by (auto simp: published_def)
  have "rear = []"
  proof (cases rear rule: rev_cases)
    case (snoc ys y)
    then have "holds sha root d fiPreimageSHA256 x" using f by simp
    then show ?thesis using assms(2,3) by (auto simp: holds_def)
  qed
  then show ?thesis using f by simp
qed

text \<open>
  \<^bold>\<open>C3\<close>. However a scope change is stopped, it can be told where it stands: after its intent is written, along any number of calls of \<open>Resume\<close>
  and \<open>Rollback\<close> that may each fail at every system call, fault point and exchange, the published formal files are those at the front of the order and
  all others hold their preimages, so when the new Baseline is there all the rest is; and until all are published or all are as before, the recovery
  intent is on disk. No other program writes meanwhile; decoding an intent gives back what was encoded.
\<close>

theorem scope_run_recoverable:
  assumes "start_change C E root preview approval bound s = (Inr intent, s0)" "undisturbed (seFs E)" "separate root intent"
    and "scDecodeIntent C (scIntent C intent) = Some intent" "scope_run C root (riTransactionID intent) s0 s'"
  shows "consistent C root intent (ssFiles s') \<and> riPreview intent = preview \<and>
    (fiPreimageSHA256 (pvBaselinePostimage preview) \<noteq> fiPostimageSHA256 (pvBaselinePostimage preview) \<longrightarrow>
     holds (scSha C) root (ssFiles s') fiPostimageSHA256 (pvBaselinePostimage preview) \<longrightarrow>
     list_all (holds (scSha C) root (ssFiles s') fiPostimageSHA256) (formalImages preview))"
proof -
  note start = start_ready [OF assms(1-3)]
  have c: "consistent C root intent (ssFiles s')"
    by (rule run_consistent [OF assms(5) started_consistent [OF assms(1-3)] start(1) assms(4)])
  obtain imgs where imgs: "formalImages preview = imgs @ [pvBaselinePostimage preview]" by (simp add: formalImages_def split: option.splits)
  then have "published (scSha C) root (ssFiles s') (imgs @ [pvBaselinePostimage preview])" using c start(4) by (simp add: consistent_def)
  then show ?thesis using published_last imgs c start(4) by fastforce
qed

section \<open>A sample run\<close>

definition sample_staged :: "nat \<Rightarrow> string \<Rightarrow> string \<Rightarrow> StagedPostimage" where
  "sample_staged i p data = staged_of (stage_base ScopeOperation (replicate 24 (CHR ''e''))) i \<lparr>poPath = p, poSHA = data, poData = data\<rparr>"

definition sample_intent :: "unit RecoveryIntent" where
  "sample_intent = \<lparr>riVersion = ''managed-scope-change-recovery/v2'', riOperation = ScopeOperation, riTransactionID = replicate 24 (CHR ''e''),
     riPreview = sample_preview ''review'' False, riApproval = None, riPolicyBoundApproval = None,
     riStaging = [sample_staged 0 ''AOCI.txt'' ''i1'', sample_staged 1 ''.aoci/config.json'' ''c'', sample_staged 2 ''.aoci/baseline.json'' ''b1''],
     riPreimages = [\<lparr>fiPath = ''AOCI.txt'', fiPreimageState = ''present'', fiPreimageSHA256 = ''i0'', fiPostimageSHA256 = ''i0'', fiPostimageBytes = ''i0''\<rparr>,
       \<lparr>fiPath = ''.aoci/config.json'', fiPreimageState = ''present'', fiPreimageSHA256 = ''c'', fiPostimageSHA256 = ''c'', fiPostimageBytes = ''c''\<rparr>,
       \<lparr>fiPath = ''.aoci/baseline.json'', fiPreimageState = ''present'', fiPreimageSHA256 = ''b0'', fiPostimageSHA256 = ''b0'', fiPostimageBytes = ''b0''\<rparr>],
     riCreatedAt = [], riRecoveryDigest = []\<rparr>"

definition intent_codec :: "unit scope_codec" where
  "intent_codec = sample_codec\<lparr>scDecodeIntent := (\<lambda>_. Some sample_intent)\<rparr>"

definition sample_start :: "(txn_error, unit RecoveryIntent) result \<times> scope_state" where
  "sample_start = start_change intent_codec (sample_env ''review'') [''r''] (sample_preview ''review'' False) None None \<lparr>ssFiles = sample_files, ssLedger = None\<rparr>"

lemma sample_started: "sample_start = (Inr sample_intent, snd sample_start)"
proof -
  have "fst sample_start = Inr sample_intent" by code_simp
  then show ?thesis by (metis prod.collapse)
qed

lemma sample_separate: "separate [''r''] sample_intent"
  by code_simp

lemma sample_alone: "alone (sample_env mode)"
  by (simp add: alone_def sample_env_def own_fate_def)

lemma scope_run_recoverable_witness:
  "\<exists>s'. scope_run intent_codec [''r''] (replicate 24 (CHR ''e'')) (snd sample_start) s' \<and> consistent intent_codec [''r''] sample_intent (ssFiles s')"
proof -
  let ?run = "snd (Rollback intent_codec (sample_env ''review'') [''r''] (riTransactionID sample_intent)
    (snd (Resume intent_codec (sample_env ''review'') [''r''] (riTransactionID sample_intent) (snd sample_start))))"
  have run: "scope_run intent_codec [''r''] (riTransactionID sample_intent) (snd sample_start) ?run"
    by (intro scope_run.intros sample_alone)
  have "undisturbed (seFs (sample_env ''review''))" "scDecodeIntent intent_codec (scIntent intent_codec sample_intent) = Some sample_intent"
    by (simp_all add: sample_env_def intent_codec_def)
  then have "consistent intent_codec [''r''] sample_intent (ssFiles ?run)"
    using scope_run_recoverable [OF sample_started [unfolded sample_start_def] _ sample_separate _ run [unfolded sample_start_def]] by (simp add: sample_start_def)
  then show ?thesis using run by (auto simp: sample_intent_def)
qed

section \<open>The way back\<close>

lemma rollback_loop_calm:
  assumes "\<forall>p. seCas E p = CasRuns []" "seFs E = calm_env" "ready (scSha C) root intent"
    and "truthful (scSha C) root d (formalImages (riPreview intent)) status" "formalImages (riPreview intent) = rest @ tail"
    and "list_all (holds (scSha C) root d fiPreimageSHA256) tail" "published (scSha C) root d rest"
    and "\<forall>img \<in> set rest. trim_space (fiPostimageSHA256 img) \<noteq> []"
  shows "\<exists>recovered d'. rollback_loop C E root intent (rev rest) status d = (Inr recovered, d')"
  using assms(4-8)
proof (induction rest arbitrary: tail status d rule: rev_induct)
  case (snoc img rest)
  let ?p = "joined root (fiPath img)"
  let ?imgs = "formalImages (riPreview intent)"
  let ?state = "tsState (targetStatus status (fiPath img))"
  have imgs: "?imgs = rest @ img # tail" using snoc.prems(2) by simp
  then have mem: "img \<in> set ?imgs" by simp
  have either: "holds (scSha C) root d fiPreimageSHA256 img \<or> holds (scSha C) root d fiPostimageSHA256 img"
    using snoc.prems(4) by (auto simp: published_def list_all_iff) (metis UnE in_set_conv_decomp set_append)
  show ?case
  proof (cases "fiPreimageSHA256 img = fiPostimageSHA256 img \<or> ?state = StatePreimage")
    case True
    then have here: "holds (scSha C) root d fiPreimageSHA256 img" using either snoc.prems(1) mem by (auto simp: truthful_def holds_def)
    have "\<exists>recovered d'. rollback_loop C E root intent (rev rest) status d = (Inr recovered, d')"
      by (rule snoc.IH [OF snoc.prems(1) imgs]) (use here snoc.prems(3,5) published_smaller(2) [OF snoc.prems(4)] in simp_all)
    then show ?thesis using True by (simp add: Let_def)
  next
    case False
    then have state: "?state = StatePostimage" "holds (scSha C) root d fiPostimageSHA256 img"
      using either snoc.prems(1) mem by (auto simp: truthful_def)
    obtain pre where pre: "preimageFor (riPreimages intent) (fiPath img) = Some pre" "scSha C (fiPostimageBytes pre) = fiPreimageSHA256 img"
      using ready_D(5) [OF assms(3) mem] by blast
    define d1 where "d1 = d(?p \<mapsto> RegularFile (fiPostimageBytes pre))"
    have wrote: "write_cas (scSha C) (seCas E ?p) ?p (fiPostimageBytes pre) (fiPostimageSHA256 img) d = (CasOk, d1)"
      using state(2) snoc.prems(5) assms(1) by (auto simp: write_cas_calm holds_def file_bytes_def d1_def)
    note w = write_target [OF assms(3) imgs, where d = d and data = "fiPostimageBytes pre", folded d1_def]
    have tail: "list_all (holds (scSha C) root d1 fiPreimageSHA256) (img # tail)"
      using list_all_holds_cong [of tail d1 root d "scSha C" fiPreimageSHA256] w(1) snoc.prems(3) w(2) [where digest = fiPreimageSHA256, OF pre(2)] by simp
    have front: "published (scSha C) root d1 rest" by (rule published_cong [OF _ published_smaller(2) [OF snoc.prems(4)]]) (use w(1) in blast)
    have "\<forall>x \<in> set ?imgs. holds (scSha C) root d1 fiPreimageSHA256 x \<or> holds (scSha C) root d1 fiPostimageSHA256 x"
      using front tail imgs by (auto simp: published_def list_all_iff)
    from inspect_calm [OF this] obtain status' where st: "inspectIntent (scSha C) calm_env root d1 intent True = Inr status'" "\<not> stThirdPartyConflict status'"
      by blast
    obtain recovered d' where "rollback_loop C E root intent (rev rest) status' d1 = (Inr recovered, d')"
      using snoc.IH [OF inspectIntent_truthful [OF st(1) ready_D(2) [OF assms(3)]] imgs tail front] snoc.prems(5) by auto
    then show ?thesis using False state(1) pre wrote st assms(2) by (simp add: Let_def)
  qed
qed simp

text \<open>
  \<^bold>\<open>C7\<close>. The way back is never lost: wherever a run of attempts stopped, as long as the intent can be read, one call of \<open>Rollback\<close> in which nothing
  fails puts the preimage back into every formal file, whatever becomes of its result, its ledger event and its archive.
\<close>

theorem rollback_restores:
  assumes "start_change C E root preview approval bound s = (Inr intent, s0)" "undisturbed (seFs E)" "separate root intent"
    and "scDecodeIntent C (scIntent C intent) = Some intent" "scope_run C root (riTransactionID intent) s0 s'"
    and "loadIntentAt C calm_env (ssFiles s') (intentPath root (riTransactionID intent)) (riTransactionID intent) = Inr intent"
    and "alone E'" "seFs E' = calm_env" "\<forall>p. seCas E' p = CasRuns []" "\<not> seLockFails E'" "validTransactionID (riTransactionID intent)"
    and "reject_pending E' (ssFiles s') (intentFilename (riTransactionID intent)) = None"
    and "\<forall>img \<in> set (formalImages preview). trim_space (fiPostimageSHA256 img) \<noteq> []"
  shows "list_all (holds (scSha C) root (ssFiles (snd (Rollback C E' root (riTransactionID intent) s'))) fiPreimageSHA256) (formalImages preview)"
proof -
  let ?imgs = "formalImages (riPreview intent)"
  note start = start_ready [OF assms(1-3)]
  have c: "consistent C root intent (ssFiles s')"
    by (rule run_consistent [OF assms(5) started_consistent [OF assms(1-3)] start(1) assms(4)])
  note rec = attempt_recorded(1,2) [OF c assms(6,4)]
  have "\<forall>img \<in> set ?imgs. holds (scSha C) root (ssFiles s') fiPreimageSHA256 img \<or> holds (scSha C) root (ssFiles s') fiPostimageSHA256 img"
    using rec(2) by (auto simp: published_def list_all_iff)
  from inspect_calm [OF this] obtain status where st: "inspectIntent (scSha C) calm_env root (ssFiles s') intent True = Inr status" "\<not> stThirdPartyConflict status"
    by blast
  note true = inspectIntent_truthful [OF st(1) ready_D(2) [OF start(1)]]
  obtain recovered d where loop: "rollback_loop C E' root intent (rev ?imgs) status (ssFiles s') = (Inr recovered, d)"
    using rollback_loop_calm [OF assms(9,8) start(1) true, of ?imgs "[]"] rec(2) assms(13) start(4) by auto
  have own: "undisturbed (seFs E')" "\<forall>p. own_fate (seCas E' p)" using assms(7) by (simp_all add: alone_def)
  have l: "published (scSha C) root d ?imgs" "list_all (holds (scSha C) root d fiPreimageSHA256) ?imgs" "\<forall>p. p \<notin> set (target_paths root intent) \<longrightarrow> d p = ssFiles s' p"
    using rollback_loop_published [OF loop own(2) true _ start(1), of "[]"] rec(2) by auto
  have recd: "intent_recorded C root intent d" by (rule targets_recorded [OF rec(1) assms(3) l(3)])
  obtain r s1 where fin: "complete_rollback C E' root intent recovered (s'\<lparr>ssFiles := d\<rparr>) = (r, s1)" by fastforce
  have "seWaiting E' s' = s'" using assms(7) by (simp add: alone_def)
  then have "Rollback C E' root (riTransactionID intent) s' = (r, s1)"
    using assms(6,8,10,11,12) st loop fin by (simp add: Rollback_def rollback_intent_def)
  moreover have "others_kept root intent d (ssFiles s1)"
  proof -
    obtain result where "completion C E' root intent result d r (ssFiles s1)" using complete_rollback_completion [OF fin] by auto
    from completion_effect [OF this own(1) recd assms(3)] show ?thesis by simp
  qed
  ultimately show ?thesis using others_published(2) [OF _ assms(3) l(1)] l(2) start(4) by fastforce
qed

text \<open>A sample in which publishing has stopped half-way: the index is published, the guard of the sources has refused the Baseline.\<close>

definition sample_half :: scope_state where
  "sample_half = snd (Resume intent_codec (sample_env ''review'') [''r''] (riTransactionID sample_intent) (snd sample_start))"

lemma sample_half_files:
  "ssFiles sample_half [''r'', ''AOCI.txt''] = Some (RegularFile ''i1'')" "ssFiles sample_half [''r'', ''.aoci'', ''baseline.json''] = Some (RegularFile ''b0'')"
  by code_simp+

lemma rollback_restores_witness:
  "ssFiles sample_half [''r'', ''AOCI.txt''] = Some (RegularFile ''i1'') \<and>
   holds id [''r''] (ssFiles (snd (Rollback intent_codec (sample_env ''review'') [''r''] (replicate 24 (CHR ''e'')) sample_half))) fiPreimageSHA256
     (pvIndexPostimage (sample_preview ''review'' False))"
proof -
  let ?E = "sample_env ''review''" and ?tid = "riTransactionID sample_intent"
  have "scope_run intent_codec [''r''] ?tid (snd sample_start) sample_half"
    unfolding sample_half_def by (intro scope_run.intros sample_alone)
  moreover have "loadIntentAt intent_codec calm_env (ssFiles sample_half) (intentPath [''r''] ?tid) ?tid = Inr sample_intent" by code_simp
  moreover have "undisturbed (seFs ?E)" "scDecodeIntent intent_codec (scIntent intent_codec sample_intent) = Some sample_intent" "seFs ?E = calm_env"
    "\<forall>p. seCas ?E p = CasRuns []" "\<not> seLockFails ?E"
    by (simp_all add: sample_env_def intent_codec_def)
  moreover have "validTransactionID ?tid" by code_simp
  moreover have "reject_pending ?E (ssFiles sample_half) (intentFilename ?tid) = None"
    by (simp add: reject_pending_def sample_env_def RejectOtherPending_def Pending_def)
  moreover have "list_all (\<lambda>img. trim_space (fiPostimageSHA256 img) \<noteq> []) (formalImages (sample_preview ''review'' False))" by code_simp
  ultimately have "list_all (holds (scSha intent_codec) [''r''] (ssFiles (snd (Rollback intent_codec ?E [''r''] ?tid sample_half))) fiPreimageSHA256)
      (formalImages (sample_preview ''review'' False))"
    using rollback_restores [OF sample_started [unfolded sample_start_def] _ sample_separate, of sample_half ?E] sample_alone
    by (simp add: list_all_iff sample_start_def)
  then show ?thesis using sample_half_files by (simp add: formalImages_def sample_intent_def intent_codec_def sample_codec_def)
qed

section \<open>What no attempt touches\<close>

text \<open>
  \<^bold>\<open>C12\<close>. A version of a formal file that neither side of the change knows is never overwritten: as long as some target holds neither its preimage nor
  its postimage, every attempt to apply and every attempt to roll back fails and leaves files and ledger as they are, whatever else happens.
\<close>

theorem conflict_untouched:
  assumes "img \<in> set (formalImages (riPreview intent))"
    and "\<not> holds (scSha C) root (ssFiles s) fiPreimageSHA256 img" "\<not> holds (scSha C) root (ssFiles s) fiPostimageSHA256 img"
  shows "\<exists>e e'. advance C E root intent s = (Inl e, s) \<and> rollback_intent C E root intent s = (Inl e', s)"
  using inspect_conflict [OF _ assms] by (cases "inspectIntent (scSha C) (seFs E) root (ssFiles s) intent True") (auto simp: advance_def rollback_intent_def)

lemma conflict_untouched_witness:
  "\<exists>e e'. advance intent_codec (sample_env ''review'') [''r''] sample_intent \<lparr>ssFiles = sample_files([''r'', ''AOCI.txt''] \<mapsto> RegularFile ''mine''), ssLedger = None\<rparr> =
      (Inl e, \<lparr>ssFiles = sample_files([''r'', ''AOCI.txt''] \<mapsto> RegularFile ''mine''), ssLedger = None\<rparr>) \<and>
    rollback_intent intent_codec (sample_env ''review'') [''r''] sample_intent \<lparr>ssFiles = sample_files([''r'', ''AOCI.txt''] \<mapsto> RegularFile ''mine''), ssLedger = None\<rparr> =
      (Inl e', \<lparr>ssFiles = sample_files([''r'', ''AOCI.txt''] \<mapsto> RegularFile ''mine''), ssLedger = None\<rparr>)"
proof (rule conflict_untouched)
  show "sample_image ''AOCI.txt'' ''i0'' ''i1'' \<in> set (formalImages (riPreview sample_intent))"
    by (simp add: formalImages_def sample_intent_def sample_preview_def)
  have "joined [''r''] ''AOCI.txt'' = [''r'', ''AOCI.txt'']" by code_simp
  then show "\<not> holds (scSha intent_codec) [''r''] (ssFiles \<lparr>ssFiles = sample_files([''r'', ''AOCI.txt''] \<mapsto> RegularFile ''mine''), ssLedger = None\<rparr>) fiPreimageSHA256
      (sample_image ''AOCI.txt'' ''i0'' ''i1'')"
    "\<not> holds (scSha intent_codec) [''r''] (ssFiles \<lparr>ssFiles = sample_files([''r'', ''AOCI.txt''] \<mapsto> RegularFile ''mine''), ssLedger = None\<rparr>) fiPostimageSHA256
      (sample_image ''AOCI.txt'' ''i0'' ''i1'')"
    by (simp_all add: holds_def sample_image_def intent_codec_def sample_codec_def)
qed

section \<open>The intent on disk\<close>

lemma authorized_intent:
  assumes "authorize_change C E root d preview approval given = Inr bound"
    and "riPreview intent = preview" "riApproval intent = approval" "riPolicyBoundApproval intent = bound"
  shows "validateIntentAuthorization C intent = None"
proof -
  obtain cfg where cfg: "seConfig E d = Some cfg"
      "digestJSON (scSha C) (jsPolicy (scJson C)) (cpAuthorizationPolicy (pvPlan preview)) = cpAuthorizationPolicyIdentity (pvPlan preview)"
    using authorize_change_bound [OF assms(1)] by blast
  show ?thesis using assms(1) cfg(1)
  proof (cases rule: authorize_change_cases)
    case (policy r)
    then show ?thesis using assms(2-4) cfg(2) by (simp add: validateIntentAuthorization_def Let_def applyAuthorizationBranch_def)
  next
    case person
    then show ?thesis using assms(2-4) cfg(2) by (auto simp: validateIntentAuthorization_def Let_def applyAuthorizationBranch_def)
  qed
qed

text \<open>
  \<^bold>\<open>C13\<close>. A transaction is never locked out by its own record: the intent that Apply writes for a valid preview, with the authorization it has just
  accepted, is loaded from disk again as it was written, with version, binding, preview and authorization all valid, whatever the policy or the
  approval was.
\<close>

theorem intent_loads:
  assumes "validatePreview (scSha C) (scJson C) preview = None" "authorize_change C E root d preview approval given = Inr bound"
    and "start_change C E' root preview approval bound s = (Inr intent, s')" "undisturbed (seFs E')"
    and "scDecodeIntent C (scIntent C intent) = Some intent"
  shows "loadIntentAt C calm_env (ssFiles s') (intentPath root (take 24 (pvEnvelopeDigest preview))) (take 24 (pvEnvelopeDigest preview)) = Inr intent"
proof -
  obtain d2 where p: "SaveImmutable (scSha C) (seFs E') (intentPath root (riTransactionID intent)) (scIntent C intent) d2 = (None, ssFiles s')"
    "riRecoveryDigest intent = recoveryIdentity C intent" "riVersion intent = ''managed-scope-change-recovery/v2''"
    "riOperation intent = ScopeOperation" "riTransactionID intent = take 24 (pvEnvelopeDigest preview)"
    "riPreview intent = preview" "riApproval intent = approval" "riPolicyBoundApproval intent = bound"
    using start_change_parts [OF assms(3)] by metis
  show ?thesis
    using save_reads [OF assms(4) p(1)] p(2-6) assms(1,5) authorized_intent [OF assms(2) p(6-8)] by (simp add: loadIntentAt_def)
qed

lemma intent_loads_witness:
  "loadIntentAt intent_codec calm_env (ssFiles (snd sample_start)) (intentPath [''r''] (replicate 24 (CHR ''e''))) (replicate 24 (CHR ''e'')) = Inr sample_intent"
proof -
  let ?p = "sample_preview ''review'' False"
  have "validatePreview (scSha intent_codec) (scJson intent_codec) ?p = None" by code_simp
  moreover have "authorize_change intent_codec (sample_env ''review'') [''r''] sample_files ?p None None = Inr None" by code_simp
  moreover have "undisturbed (seFs (sample_env ''review''))" "scDecodeIntent intent_codec (scIntent intent_codec sample_intent) = Some sample_intent"
    "take 24 (pvEnvelopeDigest ?p) = replicate 24 (CHR ''e'')"
    by (simp_all add: sample_env_def intent_codec_def sample_preview_def)
  ultimately show ?thesis using intent_loads [OF _ _ sample_started [unfolded sample_start_def]] by (simp add: sample_start_def)
qed

text \<open>
  What a second \<open>Rollback\<close> finds. The result names the files this call wrote back, so when the first call stops behind its result, the next one, with
  nothing left to write, has another result for the same immutable file and fails, and so will every later one: the files are restored, the transaction
  stays pending. Here the first call stops because the configuration cannot be read; without the stop the same call succeeds.
\<close>

definition names_codec :: "unit scope_codec" where
  "names_codec = intent_codec\<lparr>scResult := (\<lambda>r. concat (reRecoveredPaths r)), scDecodeEvent := (\<lambda>_. Some (rollback_event sample_intent [''AOCI.txt'']))\<rparr>"

definition rollback_once :: "bool \<Rightarrow> scope_state \<Rightarrow> (txn_error, ChangeResult) result \<times> scope_state" where
  "rollback_once ok s = Rollback names_codec (if ok then sample_env ''review'' else (sample_env ''review'')\<lparr>seConfig := (\<lambda>_. None)\<rparr>) [''r''] (replicate 24 (CHR ''e'')) s"

lemma rollback_once_succeeds: "\<not> isl (fst (rollback_once True sample_half))"
  by code_simp

lemma rollback_once_stops: "fst (rollback_once False sample_half) = Inl ConfigUnreadable"
  by code_simp

lemma rollback_stuck:
  "fst (rollback_once True (snd (rollback_once False sample_half))) = Inl (ResultSaveFailed (CreateError ErrAtomicCreateConflict))"
  by code_simp

end
