(* ===== verification/Spec2Isabelle.thy ===== *)
theory Spec2Isabelle
  imports Index_Edit_Laws Index_Remove_Laws Index_Parse_Laws Index_Header_Laws Index_Dict_Laws
    Index_EScale_Laws Index_Quota_Laws Index_Validator_Laws Scope_Glob_Laws Fs_Collapse Fs_Git_Laws
    Scope_Eval_Laws Fs_Atomic_Laws Budget_Laws Baseline_Hash_Laws
    Baseline_State_Laws Baseline_Detect_Laws Baseline_Cache_Laws
    Fs_Lock_Laws Txn_Ledger Txn_Receipts_Laws Txn_Stage_Laws
    Batch_Receipt_Laws Batch_Parallel_Laws Batch_Replay_Laws
    Change_Authority_Laws Change_Recovery_Laws
begin

text \<open>
  A verification library for aoci-code, a program that keeps a textual index (the cognition) of a repository beside
  its sources, finds out where the two have drifted apart, and writes the index under a protocol that loses nothing. The program is written in
  Go under \<open>src/internal\<close>; this library models the packages that carry its own logic.

  \<^bold>\<open>How the parts interact.\<close> An index document is read (\<open>index\<close>), its lines are judged (validator, dictionary, quota, scale) and edited by
  operations that keep every other line; which files of the repository take part is decided by the safe inventory (\<open>fs\<close>) and the
  managed scope policy (\<open>managedscope\<close>); what has changed since the index was written is found by comparing fingerprints with the Baseline
  (\<open>baseline\<close>); how much cognition is delivered is measured (\<open>cognitionbudget\<close>); and whatever is written goes through one lock, one
  compare-and-swap write and the staging, receipts and ledger of a transaction (\<open>fs\<close>, \<open>cognitiontxn\<close>, \<open>ledger\<close>). The work an author is
  given is cut into batches that are bound to what they were issued against (\<open>codebatch\<close>); a change of what is managed is
  authorized by the policy or a person and applied as a transaction that can be resumed
  and rolled back (\<open>scopechange\<close>).

  \<^bold>\<open>Theories.\<close>

  \<^item> \<open>Go_Prelude\<close>, \<open>Go_Strings\<close>, \<open>Go_Utf8\<close>, \<open>Go_Path\<close>, \<open>Go_Sort\<close>: results as sums, and what the code uses of the standard library: byte strings
    and their search, runes and UTF-8, numerals, paths, stable sorting (locales \<open>total_preorder\<close> and \<open>total_order_on\<close>).
  \<^item> \<open>Index_Types\<close>, \<open>Index_Lexer\<close>, \<open>Index_Lines\<close>, \<open>Index_Resolve\<close>, \<open>Index_Parser\<close>, \<open>Index_View\<close> and \<open>Index_Parse_Laws\<close>:
    \<open>internal/index/types.go\<close> and \<open>parser.go\<close>. Lines, tags, sections and their resolution against a checkout; parsing accounts for every
    line, an entry line is read back from what it renders to, and resolution does not depend on where the checkout lies.
  \<^item> \<open>Index_Editor\<close>, \<open>Index_Edit_Laws\<close>, \<open>Index_Remove_Laws\<close>: \<open>editor.go\<close>, \<open>editor_remove.go\<close>. Each edit changes exactly the lines it is
    about, and what a reader finds afterwards.
  \<^item> \<open>Index_Header\<close>, \<open>Index_Dict\<close>, \<open>Index_Validator\<close>, \<open>Index_Quota\<close>, \<open>Index_EScale\<close> and their laws: \<open>header.go\<close>, \<open>section_roots.go\<close>, \<open>locale.go\<close>,
    \<open>dict.go\<close>, \<open>validator.go\<close>, \<open>relations.go\<close>, \<open>quota.go\<close>, \<open>escale.go\<close>. Each gate reports exactly the violations of its rule.
  \<^item> \<open>Scope_Glob\<close>, \<open>Scope_Policy\<close>, \<open>Scope_Eval\<close> and their laws: \<open>internal/managedscope\<close>. The automaton that matches patterns accepts the language of
    the regular expression that documents the dialect; normalization is canonical; evaluation follows the order of rules.
  \<^item> \<open>Fs_Path\<close>, \<open>Fs_Safety\<close>, \<open>Fs_Inventory\<close>, \<open>Fs_Collapse\<close>, \<open>Fs_Git_Laws\<close>, \<open>Fs_Inventory_Laws\<close>: \<open>internal/fs/safe_path.go\<close>, \<open>safe_inventory.go\<close>, \<open>walk.go\<close>. The
    inventory stays inside the safe boundary and misses nothing in it.
  \<^item> \<open>Fs_Atomic\<close>, \<open>Fs_Lock\<close>, \<open>Fs_Create\<close> and their laws: \<open>atomic.go\<close>, \<open>lock.go\<close>. The compare-and-swap write is a tree of system calls run
    beside foreign writers and crashes (\<open>world_step\<close>), the lock a step relation over any number of processes (\<open>lock_step\<close>), creation and moving
    functions over a file system whose environment fails calls and interferes.
  \<^item> \<open>Baseline_Hash\<close>, \<open>Baseline_State\<close>, \<open>Baseline_Detect\<close>, \<open>Baseline_Cache\<close> and their laws: \<open>internal/baseline\<close>. Fingerprints, the Baseline
    document with its object bindings (locale \<open>keyed_store\<close>) and its memo, the drift reports, and the fingerprint cache.
  \<^item> \<open>Budget_Policy\<close>, \<open>Budget_Report\<close>, \<open>Budget_Laws\<close>: \<open>internal/cognitionbudget\<close>.
  \<^item> \<open>Txn_Ledger\<close>, \<open>Txn_Receipts\<close>, \<open>Txn_Stage\<close> and their laws: \<open>internal/ledger/ledger.go\<close>, \<open>internal/cognitiontxn/transaction.go\<close>. Events
    and the terminal event of a transaction, receipt names and gates, staging (locale \<open>resumable\<close>: after failed attempts a run comes to what it
    would have come to at once).

  \<^item> \<open>Batch_Receipt\<close>, \<open>Batch_Parallel\<close> and their laws: \<open>internal/codebatch\<close>, with the cutting of siblings and the recording of an applied one
    of \<open>internal/mcptools\<close>. What is issued is accepted and nothing else; a receipt is determined by its batch identifier; the records of applied
    siblings prove the current Volume along every run (\<open>parallel_run\<close>, in \<open>Batch_Replay_Laws\<close>).
  \<^item> \<open>Change_Authority\<close>, \<open>Change_Authority_Laws\<close>: \<open>internal/scopechange/authorization.go\<close>, the risk and the identities of \<open>plan.go\<close>, the approvals of
    \<open>transaction.go\<close>. What takes a plan from the policy to a person; nothing weakens the governance without one.
  \<^item> \<open>Change_Txn\<close>, \<open>Change_Txn_Laws\<close>, \<open>Change_Run_Laws\<close>, \<open>Change_Recovery_Laws\<close>: Apply, Resume, Rollback and Inspect of \<open>transaction.go\<close> over a state
    of the file system (\<open>ssFiles\<close>) and the ledger file (\<open>ssLedger\<close>); the environment of each call (\<open>scope_env\<close>) says which system calls and fault points
    fail and how each exchange ends. Runs (\<open>scope_run\<close>) are any calls of Resume and Rollback by this program alone: publication keeps its order,
    the intent outlives every stop, a roll-back without failures restores, and a foreign version of a file is never touched.

  \<^bold>\<open>Correspondence.\<close> Definitions carry the names of the Go functions; where HOL has the name already a prefix is added. Go strings and
  byte slices are \<open>string\<close>; \<open>int\<close> is \<open>int\<close> or \<open>nat\<close>, with wrap-around written out where it can occur; structs are records, errors are
  constructors of sums; maps are functions or association lists, written out where the order matters.

  \<^bold>\<open>Arguments.\<close> Code outside this repository is an argument of the definitions that use it: \<open>sha\<close> (hexadecimal SHA-256), \<open>uni\<close> (lower case
  outside ASCII), \<open>gofmt\<close>, JSON encoders and decoders, Git's answers, the embedded text assets. What a theorem uses of one is a hypothesis of
  that theorem: that a digest tells the data at hand apart, that a codec is inverse on a value, that a clock does not run backwards.

  \<^bold>\<open>Bounds and fuel.\<close> Recursions are structural or have a measure; nothing runs on fuel except where a definition says so, with the number of
  lines or elements at hand for fuel and a lemma that it is enough.

  \<^bold>\<open>Not modelled.\<close> Command line, tool server and terminal interface (\<open>cli\<close>, \<open>mcptools\<close>, \<open>ui\<close>): argument handling, text and JSON
  transport around the operations above. The evidence of databases (\<open>dbevidence\<close>, \<open>dbcognition\<close>): queries against servers. Migration and bootstrap
  transactions (\<open>migrationapply\<close>, \<open>bootstrapapply\<close>, \<open>databasebootstrap\<close>): compositions of the staging, receipts and compare-and-swap modelled here,
  of the shape of the scope change, with plans of their own. Of \<open>scopechange\<close>, the derivation of a plan from the repository (\<open>Build\<close>): its envelope
  digest is an argument of the transaction, as are the answers of the readers of configuration, Baseline, inventory and snapshot. Loading of the
  volumes, and what plans and reports over them (\<open>cognition\<close>, \<open>cognitionplan\<close>, \<open>volumegovernance\<close>). Of \<open>fs\<close>, the directory lock of file systems without hard
  links, the emulated exchange of paths, and the platform files are left out.
\<close>

end
